(* ===== verification/Prelude.thy ===== *)
theory Prelude
  imports Main "HOL-Library.Word" "HOL-Library.Sublist"
begin

text \<open>
  The prelude of the development: Go's three ways for a call to end as one datatype
  (\<open>outcome\<close>: a value with a nil error, an error, a panic), its sequential composition
  \<open>bind_out\<close>, the loop that stops at the first error (\<open>map_out\<close>), the named
  collections the component proofs draw on, and generic facts on lists, maps and
  outcomes that several components share.
\<close>

unbundle bit_operations_syntax

section \<open>Names for the machine types\<close>

type_synonym u8 = "8 word"
type_synonym i32 = "32 word"
type_synonym i64 = "64 word"
type_synonym u64 = "64 word"
type_synonym bytes = "8 word list"

text \<open>A float64 is represented by its IEEE bit pattern; the code only moves it.\<close>
type_synonym f64 = "64 word"

section \<open>Outcomes of Go calls\<close>

text \<open>
  The error values the modelled code tells apart. \<open>ErrText\<close> is an error made by
  \<^verbatim>\<open>fmt.Errorf\<close> or \<^verbatim>\<open>errors.New\<close>; \<open>ErrExt\<close> an error that comes from outside the
  modelled code, known only by its identity.
\<close>

datatype gerror =
    IoEOF
  | IoUnexpectedEOF
  | VarintOverflow
  | CorruptBase64
  | ErrText string
  | ErrKeyNotFound string
  | ErrThrottleLocked string
  | ErrOutOfRetries
  | ErrContextDone
  | ErrNonFatal gerror
  | ErrBadToken gerror
  | ErrContractPaused int string
  | ErrInvalidInput "(string \<times> string) list"
  | ErrRateLimited string string string string string string
  | ErrAccountTooNew
  | ErrNotOnFarcaster
  | ErrNoRows
  | ErrExt nat

datatype gpanic =
    MakesliceLen
  | SliceBounds
  | IndexRange
  | NilDeref
  | TypeAssertion
  | DivideByZero
  | PanicText string
  | PanicErr gerror

datatype 'a outcome = Ok 'a | Err gerror | Panic gpanic

fun bind_out :: "'a outcome \<Rightarrow> ('a \<Rightarrow> 'b outcome) \<Rightarrow> 'b outcome" where
  "bind_out (Ok x) f = f x"
| "bind_out (Err e) f = Err e"
| "bind_out (Panic p) f = Panic p"

definition map_ok :: "('a \<Rightarrow> 'b) \<Rightarrow> 'a outcome \<Rightarrow> 'b outcome" where
  "map_ok f m = bind_out m (\<lambda>x. Ok (f x))"

definition is_ok :: "'a outcome \<Rightarrow> bool" where
  "is_ok m = (case m of Ok _ \<Rightarrow> True | _ \<Rightarrow> False)"

definition is_panic :: "'a outcome \<Rightarrow> bool" where
  "is_panic m = (case m of Panic _ \<Rightarrow> True | _ \<Rightarrow> False)"

text \<open>A loop that applies a fallible function to each element and stops at the first failure.\<close>

fun map_out :: "('a \<Rightarrow> 'b outcome) \<Rightarrow> 'a list \<Rightarrow> 'b list outcome" where
  "map_out f [] = Ok []"
| "map_out f (x # xs) =
     bind_out (f x) (\<lambda>y. bind_out (map_out f xs) (\<lambda>ys. Ok (y # ys)))"

named_theorems outcome_simps \<open>unfolding of outcome combinators\<close>
named_theorems codec_simps \<open>decoding of what was encoded, in the middle of a buffer\<close>
named_theorems gql_simps \<open>evaluation of GraphQL scalar marshallers\<close>

lemma bind_out_Ok_iff [simp]: "bind_out m f = Ok y \<longleftrightarrow> (\<exists>x. m = Ok x \<and> f x = Ok y)"
  by (cases m) auto

lemma bind_out_assoc: "bind_out (bind_out m f) g = bind_out m (\<lambda>x. bind_out (f x) g)"
  by (cases m) auto

lemma bind_out_Ok_right [simp]: "bind_out m Ok = m"
  by (cases m) auto

lemma map_ok_simps [simp, outcome_simps]:
  "map_ok f (Ok x) = Ok (f x)" "map_ok f (Err e) = Err e" "map_ok f (Panic p) = Panic p"
  by (simp_all add: map_ok_def)

lemma map_ok_Ok_iff: "map_ok f m = Ok y \<longleftrightarrow> (\<exists>x. m = Ok x \<and> y = f x)"
  by (cases m) auto

lemma is_ok_simps [simp, outcome_simps]:
  "is_ok (Ok x)" "\<not> is_ok (Err e)" "\<not> is_ok (Panic p)"
  by (simp_all add: is_ok_def)

lemma is_ok_iff: "is_ok m \<longleftrightarrow> (\<exists>x. m = Ok x)"
  by (cases m) auto

lemma is_panic_simps [simp, outcome_simps]:
  "\<not> is_panic (Ok x)" "\<not> is_panic (Err e)" "is_panic (Panic p)"
  by (simp_all add: is_panic_def)

lemma is_panic_bind:
  "is_panic (bind_out m f) \<longleftrightarrow> is_panic m \<or> (\<exists>x. m = Ok x \<and> is_panic (f x))"
  by (cases m) auto

lemma map_out_Ok_iff: "map_out f xs = Ok ys \<longleftrightarrow> list_all2 (\<lambda>x y. f x = Ok y) xs ys"
  by (induction xs arbitrary: ys) (auto simp: list_all2_Cons1)

lemma map_out_Ok_length: "map_out f xs = Ok ys \<Longrightarrow> length ys = length xs"
  by (simp add: map_out_Ok_iff list_all2_lengthD)

lemma map_out_total: "(\<And>x. x \<in> set xs \<Longrightarrow> f x = Ok (g x)) \<Longrightarrow> map_out f xs = Ok (map g xs)"
  by (induction xs) auto

lemma map_out_first_error:
  assumes "\<And>x. x \<in> set pre \<Longrightarrow> is_ok (f x)" and "f y = Err e"
  shows "map_out f (pre @ y # post) = Err e"
  using assms by (induction pre) (fastforce simp: is_ok_iff)+

lemma map_out_append:
  "map_out f (xs @ ys) = bind_out (map_out f xs) (\<lambda>a. bind_out (map_out f ys) (\<lambda>b. Ok (a @ b)))"
  by (induction xs) (simp_all add: bind_out_assoc)

section \<open>Go's integer division\<close>

text \<open>Go truncates quotients towards zero; the remainder has the sign of the dividend.\<close>

definition go_quot :: "int \<Rightarrow> int \<Rightarrow> int" where
  "go_quot a b = sgn a * sgn b * (\<bar>a\<bar> div \<bar>b\<bar>)"

definition go_rem :: "int \<Rightarrow> int \<Rightarrow> int" where
  "go_rem a b = a - b * go_quot a b"

lemma go_quot_mult: "b \<noteq> 0 \<Longrightarrow> go_quot (a * b) b = a"
proof -
  assume b: "b \<noteq> 0"
  then have "sgn b * sgn b = 1" by (simp add: sgn_if)
  moreover have "\<bar>a * b\<bar> div \<bar>b\<bar> = \<bar>a\<bar>" using b by (simp add: abs_mult)
  moreover have "go_quot (a * b) b = sgn a * (sgn b * sgn b) * (\<bar>a * b\<bar> div \<bar>b\<bar>)"
    by (simp only: go_quot_def sgn_mult mult.assoc)
  ultimately show ?thesis by (simp only: mult_1_right mult.right_neutral sgn_mult_abs)
qed

lemma go_rem_mult: "b \<noteq> 0 \<Longrightarrow> go_rem (a * b) b = 0"
  by (simp add: go_rem_def go_quot_mult)

section \<open>Lists\<close>

text \<open>Go's \<^verbatim>\<open>for i, v := range xs\<close> with an early return of the index.\<close>

fun find_index_from :: "nat \<Rightarrow> ('a \<Rightarrow> bool) \<Rightarrow> 'a list \<Rightarrow> nat option" where
  "find_index_from i P [] = None"
| "find_index_from i P (x # xs) = (if P x then Some i else find_index_from (Suc i) P xs)"

definition find_index :: "('a \<Rightarrow> bool) \<Rightarrow> 'a list \<Rightarrow> nat option" where
  "find_index P xs = find_index_from 0 P xs"

lemma find_index_from_None: "find_index_from i P xs = None \<longleftrightarrow> (\<forall>x \<in> set xs. \<not> P x)"
  by (induction xs arbitrary: i) auto

lemma find_index_from_Some:
  "find_index_from i P xs = Some k \<Longrightarrow>
    i \<le> k \<and> k - i < length xs \<and> P (xs ! (k - i)) \<and> (\<forall>j < k - i. \<not> P (xs ! j))"
proof (induction xs arbitrary: i)
  case Nil
  then show ?case by simp
next
  case (Cons x xs)
  show ?case
  proof (cases "P x")
    case True
    with Cons.prems show ?thesis by simp
  next
    case False
    with Cons.prems have k: "find_index_from (Suc i) P xs = Some k" by simp
    have le: "Suc i \<le> k" and len: "k - Suc i < length xs" and hit: "P (xs ! (k - Suc i))"
      and before: "\<forall>j < k - Suc i. \<not> P (xs ! j)"
      using Cons.IH [OF k] by auto
    from le have eq: "k - i = Suc (k - Suc i)" by simp
    have "\<not> P ((x # xs) ! j)" if "j < k - i" for j
      using that False before eq by (cases j) auto
    with le len hit eq show ?thesis by auto
  qed
qed

lemma find_index_None [simp]: "find_index P xs = None \<longleftrightarrow> (\<forall>x \<in> set xs. \<not> P x)"
  by (simp add: find_index_def find_index_from_None)

lemma find_index_Some:
  assumes "find_index P xs = Some k"
  shows "k < length xs" and "P (xs ! k)" and "\<And>j. j < k \<Longrightarrow> \<not> P (xs ! j)"
  using find_index_from_Some [of 0 P xs k] assms by (auto simp: find_index_def)

lemma drop_Suc_nth_notin: "distinct xs \<Longrightarrow> k < length xs \<Longrightarrow> xs ! k \<notin> set (drop (Suc k) xs)"
  by (metis Cons_nth_drop_Suc distinct.simps(2) distinct_drop)

lemma filter_take_while_prefix:
  assumes "sorted_wrt R xs" and "\<And>x y. R x y \<Longrightarrow> P y \<Longrightarrow> P x"
  shows "filter P xs = takeWhile P xs"
  using assms by (induction xs) (auto simp: filter_empty_conv takeWhile_eq_Nil_iff, (metis list.set_sel(1))?)

lemma filter_drop_while_suffix:
  assumes "sorted_wrt R xs" and "\<And>x y. R x y \<Longrightarrow> P x \<Longrightarrow> P y"
  shows "filter P xs = dropWhile (\<lambda>x. \<not> P x) xs"
  using assms by (induction xs) (auto simp: filter_id_conv dropWhile_eq_self_iff, (metis list.set_sel(1))?)

end
