(* ===== verification/GoStrings.thy ===== *)
theory GoStrings
  imports Prelude
begin

text \<open>
  The part of Go's \<^verbatim>\<open>strings\<close>, \<^verbatim>\<open>strconv\<close> and \<^verbatim>\<open>math/big\<close> packages the modelled code
  uses. A Go string is a sequence of bytes, here a \<open>string\<close> (a list of 8-bit
  characters). \<^verbatim>\<open>strings.ToLower\<close> is exact on ASCII strings; on a string with a byte
  above 127 it applies Go's Unicode tables, which are a parameter \<open>ul\<close> of every
  definition that lower-cases.
\<close>

section \<open>Bytes and strings\<close>

definition bytes_of :: "string \<Rightarrow> bytes" where
  "bytes_of s = map (\<lambda>c. of_nat (of_char c)) s"

definition string_of :: "bytes \<Rightarrow> string" where
  "string_of bs = map (\<lambda>b. char_of (unat b)) bs"

lemma of_char_less_256: "(of_char c :: nat) < 256"
  using of_char_mod_256 [of c, where 'a = nat] by (metis mod_less_divisor zero_less_numeral)

lemma string_of_bytes_of [simp]: "string_of (bytes_of s) = s"
proof -
  have "char_of (unat (of_nat (of_char c) :: 8 word)) = c" for c
    using of_char_less_256 [of c] by (simp add: unat_of_nat)
  then show ?thesis by (simp add: string_of_def bytes_of_def comp_def)
qed

lemma bytes_of_string_of [simp]: "bytes_of (string_of bs) = bs"
proof -
  have "(of_nat (of_char (char_of (unat b))) :: 8 word) = b" for b :: "8 word"
    using unsigned_less [of b, where 'a = nat] by (simp add: of_char_of)
  then show ?thesis by (simp add: string_of_def bytes_of_def comp_def)
qed

lemma length_bytes_of [simp]: "length (bytes_of s) = length s"
  by (simp add: bytes_of_def)

lemma bytes_of_eq_Nil [simp]: "bytes_of s = [] \<longleftrightarrow> s = []"
  by (simp add: bytes_of_def)

lemma bytes_of_inject [simp]: "bytes_of s = bytes_of t \<longleftrightarrow> s = t"
  by (metis string_of_bytes_of)

definition is_ascii :: "char \<Rightarrow> bool" where
  "is_ascii c \<longleftrightarrow> (of_char c :: nat) < 128"

section \<open>strings: prefixes, suffixes, substrings\<close>

definition has_prefix :: "string \<Rightarrow> string \<Rightarrow> bool" where
  "has_prefix s p = (take (length p) s = p)"

definition has_suffix :: "string \<Rightarrow> string \<Rightarrow> bool" where
  "has_suffix s p = (length p \<le> length s \<and> drop (length s - length p) s = p)"

definition trim_prefix :: "string \<Rightarrow> string \<Rightarrow> string" where
  "trim_prefix s p = (if has_prefix s p then drop (length p) s else s)"

definition trim_suffix :: "string \<Rightarrow> string \<Rightarrow> string" where
  "trim_suffix s p = (if has_suffix s p then take (length s - length p) s else s)"

text \<open>\<^verbatim>\<open>strings.Contains\<close> and \<^verbatim>\<open>strings.Index\<close>.\<close>

fun str_contains :: "string \<Rightarrow> string \<Rightarrow> bool" where
  "str_contains [] p = (p = [])"
| "str_contains (c # cs) p = (has_prefix (c # cs) p \<or> str_contains cs p)"

fun str_index :: "string \<Rightarrow> string \<Rightarrow> nat option" where
  "str_index [] p = (if p = [] then Some 0 else None)"
| "str_index (c # cs) p =
     (if has_prefix (c # cs) p then Some 0 else map_option Suc (str_index cs p))"

text \<open>
  \<^verbatim>\<open>strings.ReplaceAll\<close> and \<^verbatim>\<open>strings.Split\<close> with a non-empty pattern, the only ones
  the code passes. The first argument of the workers counts the characters of the
  current match still to be skipped.
\<close>

fun replace_from :: "nat \<Rightarrow> string \<Rightarrow> string \<Rightarrow> string \<Rightarrow> string" where
  "replace_from k [] old new = []"
| "replace_from (Suc k) (c # cs) old new = replace_from k cs old new"
| "replace_from 0 (c # cs) old new =
     (if has_prefix (c # cs) old then new @ replace_from (length old - 1) cs old new
      else c # replace_from 0 cs old new)"

definition replace_all :: "string \<Rightarrow> string \<Rightarrow> string \<Rightarrow> string" where
  "replace_all s old new = replace_from 0 s old new"

fun split_from :: "nat \<Rightarrow> string \<Rightarrow> string \<Rightarrow> string \<Rightarrow> string list" where
  "split_from k [] sep cur = [rev cur]"
| "split_from (Suc k) (c # cs) sep cur = split_from k cs sep cur"
| "split_from 0 (c # cs) sep cur =
     (if has_prefix (c # cs) sep then rev cur # split_from (length sep - 1) cs sep []
      else split_from 0 cs sep (c # cur))"

definition str_split :: "string \<Rightarrow> string \<Rightarrow> string list" where
  "str_split s sep = split_from 0 s sep []"

lemma has_prefix_append [simp]: "has_prefix (p @ s) p"
  by (simp add: has_prefix_def)

lemma has_prefix_Nil [simp]: "has_prefix s []"
  by (simp add: has_prefix_def)

lemma has_prefix_iff: "has_prefix s p \<longleftrightarrow> (\<exists>t. s = p @ t)"
  by (auto simp: has_prefix_def) (metis append_take_drop_id)

lemma trim_prefix_append [simp]: "trim_prefix (p @ s) p = s"
  by (simp add: trim_prefix_def)

lemma has_prefix_single: "has_prefix (c # cs) [d] \<longleftrightarrow> c = d"
  by (simp add: has_prefix_def)

lemma replace_single_absent: "c \<notin> set s \<Longrightarrow> replace_all s [c] new = s"
  unfolding replace_all_def by (induction s) (auto simp: has_prefix_single)

lemma replace_single_delete: "replace_all s [c] [] = filter (\<lambda>x. x \<noteq> c) s"
  unfolding replace_all_def by (induction s) (auto simp: has_prefix_single)

lemma split_single_absent_aux: "c \<notin> set s \<Longrightarrow> split_from 0 s [c] cur = [rev cur @ s]"
  by (induction s arbitrary: cur) (auto simp: has_prefix_single)

lemma split_single_absent: "c \<notin> set s \<Longrightarrow> str_split s [c] = [s]"
  by (simp add: str_split_def split_single_absent_aux)

lemma split_single_once_aux:
  "c \<notin> set a \<Longrightarrow> c \<notin> set b \<Longrightarrow> split_from 0 (a @ c # b) [c] cur = [rev cur @ a, b]"
  by (induction a arbitrary: cur) (auto simp: has_prefix_single split_single_absent_aux)

lemma split_single_once:
  "c \<notin> set a \<Longrightarrow> c \<notin> set b \<Longrightarrow> str_split (a @ c # b) [c] = [a, b]"
  by (simp add: str_split_def split_single_once_aux)

lemma str_contains_infix: "str_contains (a @ p @ b) p"
proof (induction a)
  case Nil
  show ?case
  proof (cases "p @ b")
    case Nil
    then show ?thesis by simp
  next
    case (Cons c cs)
    then have "has_prefix (c # cs) p" by (metis has_prefix_append)
    with Cons show ?thesis by simp
  qed
next
  case (Cons c cs)
  then show ?case by simp
qed

lemma str_contains_split: "str_contains s p \<Longrightarrow> \<exists>a b. s = a @ p @ b"
proof (induction s)
  case Nil
  then show ?case by simp
next
  case (Cons c cs)
  show ?case
  proof (cases "has_prefix (c # cs) p")
    case True
    then obtain t where "c # cs = p @ t" by (auto simp: has_prefix_iff)
    then have "c # cs = [] @ p @ t" by simp
    then show ?thesis by blast
  next
    case False
    with Cons.prems obtain a b where "cs = a @ p @ b" using Cons.IH by auto
    then have "c # cs = (c # a) @ p @ b" by simp
    then show ?thesis by blast
  qed
qed

lemma str_contains_iff: "str_contains s p \<longleftrightarrow> (\<exists>a b. s = a @ p @ b)"
  using str_contains_infix str_contains_split by blast

section \<open>strings.ToLower\<close>

definition ascii_lower :: "char \<Rightarrow> char" where
  "ascii_lower c =
     (let n = (of_char c :: nat) in if 65 \<le> n \<and> n \<le> 90 then char_of (n + 32) else c)"

definition to_lower :: "(string \<Rightarrow> string) \<Rightarrow> string \<Rightarrow> string" where
  "to_lower ul s = (if list_all is_ascii s then map ascii_lower s else ul s)"

definition ascii_string :: "string \<Rightarrow> bool" where
  "ascii_string s = list_all is_ascii s"

lemma is_ascii_lower: "is_ascii c \<Longrightarrow> is_ascii (ascii_lower c)"
  by (auto simp: is_ascii_def ascii_lower_def Let_def of_char_of)

lemma ascii_lower_idem [simp]: "ascii_lower (ascii_lower c) = ascii_lower c"
  by (auto simp: ascii_lower_def Let_def of_char_of)

lemma ascii_to_lower: "ascii_string s \<Longrightarrow> ascii_string (to_lower ul s)"
  by (auto simp: ascii_string_def to_lower_def list_all_iff is_ascii_lower)

lemma to_lower_idem: "ascii_string s \<Longrightarrow> to_lower ul (to_lower ul s) = to_lower ul s"
  using ascii_to_lower [of s ul] by (simp add: to_lower_def ascii_string_def comp_def)

lemma length_to_lower: "ascii_string s \<Longrightarrow> length (to_lower ul s) = length s"
  by (simp add: to_lower_def ascii_string_def)

lemma ascii_string_append [simp]: "ascii_string (s @ t) \<longleftrightarrow> ascii_string s \<and> ascii_string t"
  by (simp add: ascii_string_def)

lemma ascii_string_drop [simp]: "ascii_string s \<Longrightarrow> ascii_string (drop n s)"
  by (auto simp: ascii_string_def list_all_iff dest: in_set_dropD)

lemma ascii_string_take [simp]: "ascii_string s \<Longrightarrow> ascii_string (take n s)"
  by (auto simp: ascii_string_def list_all_iff dest: in_set_takeD)

section \<open>strings.TrimSpace\<close>

text \<open>
  The UTF-8 encodings of the code points \<^verbatim>\<open>unicode.IsSpace\<close> accepts: tab to carriage
  return and space, U+0085, U+00A0, U+1680, U+2000 to U+200A, U+2028, U+2029, U+202F,
  U+205F and U+3000. No encoding is a prefix or a suffix of another, so trimming strips
  encodings from either end while there is one.
\<close>

definition space_encodings :: "string list" where
  "space_encodings =
     [[CHR 0x09], [CHR 0x0A], [CHR 0x0B], [CHR 0x0C], [CHR 0x0D], [CHR 0x20],
      [CHR 0xC2, CHR 0x85], [CHR 0xC2, CHR 0xA0], [CHR 0xE1, CHR 0x9A, CHR 0x80],
      [CHR 0xE2, CHR 0x80, CHR 0x80], [CHR 0xE2, CHR 0x80, CHR 0x81], [CHR 0xE2, CHR 0x80, CHR 0x82],
      [CHR 0xE2, CHR 0x80, CHR 0x83], [CHR 0xE2, CHR 0x80, CHR 0x84], [CHR 0xE2, CHR 0x80, CHR 0x85],
      [CHR 0xE2, CHR 0x80, CHR 0x86], [CHR 0xE2, CHR 0x80, CHR 0x87], [CHR 0xE2, CHR 0x80, CHR 0x88],
      [CHR 0xE2, CHR 0x80, CHR 0x89], [CHR 0xE2, CHR 0x80, CHR 0x8A], [CHR 0xE2, CHR 0x80, CHR 0xA8],
      [CHR 0xE2, CHR 0x80, CHR 0xA9], [CHR 0xE2, CHR 0x80, CHR 0xAF], [CHR 0xE2, CHR 0x81, CHR 0x9F],
      [CHR 0xE3, CHR 0x80, CHR 0x80]]"

fun trim_left_fuel :: "nat \<Rightarrow> string \<Rightarrow> string" where
  "trim_left_fuel 0 s = s"
| "trim_left_fuel (Suc n) s =
     (case List.find (has_prefix s) space_encodings of
        None \<Rightarrow> s
      | Some p \<Rightarrow> trim_left_fuel n (drop (length p) s))"

fun trim_right_fuel :: "nat \<Rightarrow> string \<Rightarrow> string" where
  "trim_right_fuel 0 s = s"
| "trim_right_fuel (Suc n) s =
     (case List.find (has_suffix s) space_encodings of
        None \<Rightarrow> s
      | Some p \<Rightarrow> trim_right_fuel n (take (length s - length p) s))"

text \<open>Each step removes at least one byte, so the length of the string is enough fuel.\<close>

definition trim_space :: "string \<Rightarrow> string" where
  "trim_space s = (let t = trim_left_fuel (length s) s in trim_right_fuel (length t) t)"

lemma space_encodings_nonempty: "p \<in> set space_encodings \<Longrightarrow> p \<noteq> []"
  by (auto simp: space_encodings_def)

section \<open>Numbers as text\<close>

definition digit_char :: "nat \<Rightarrow> char" where
  "digit_char d = (if d < 10 then char_of (48 + d) else char_of (87 + d))"

definition digit_val :: "char \<Rightarrow> nat option" where
  "digit_val c =
     (let n = (of_char c :: nat) in
      if 48 \<le> n \<and> n \<le> 57 then Some (n - 48)
      else if 97 \<le> n \<and> n \<le> 122 then Some (n - 87)
      else if 65 \<le> n \<and> n \<le> 90 then Some (n - 55)
      else None)"

function nat_text :: "nat \<Rightarrow> nat \<Rightarrow> string" where
  "nat_text b n =
     (if b < 2 \<or> n < b then [digit_char n] else nat_text b (n div b) @ [digit_char (n mod b)])"
  by pat_completeness auto
termination
  by (relation "measure snd") (auto simp: div_less_dividend)

declare nat_text.simps [simp del]

fun nat_digits :: "nat \<Rightarrow> nat \<Rightarrow> string \<Rightarrow> nat option" where
  "nat_digits b acc [] = Some acc"
| "nat_digits b acc (c # cs) =
     (case digit_val c of
        None \<Rightarrow> None
      | Some d \<Rightarrow> if d < b then nat_digits b (acc * b + d) cs else None)"

definition nat_of_text :: "nat \<Rightarrow> string \<Rightarrow> nat option" where
  "nat_of_text b s = (if s = [] then None else nat_digits b 0 s)"

text \<open>\<^verbatim>\<open>big.Int.Text\<close> and \<^verbatim>\<open>big.Int.SetString\<close> for a non-zero base: an optional sign,
  then at least one digit.\<close>

definition int_text :: "nat \<Rightarrow> int \<Rightarrow> string" where
  "int_text b i = (if i < 0 then CHR ''-'' # nat_text b (nat (- i)) else nat_text b (nat i))"

definition int_of_text :: "nat \<Rightarrow> string \<Rightarrow> int option" where
  "int_of_text b s =
     (case s of
        [] \<Rightarrow> None
      | c # cs \<Rightarrow>
          if c = CHR ''-'' then map_option (\<lambda>n. - int n) (nat_of_text b cs)
          else if c = CHR ''+'' then map_option int (nat_of_text b cs)
          else map_option int (nat_of_text b s))"

text \<open>\<^verbatim>\<open>strconv.Itoa\<close>, and \<^verbatim>\<open>strconv.Atoi\<close> with its range check for a 64-bit int.\<close>

definition itoa :: "int \<Rightarrow> string" where
  "itoa i = int_text 10 i"

definition atoi :: "string \<Rightarrow> int option" where
  "atoi s =
     (case int_of_text 10 s of
        None \<Rightarrow> None
      | Some i \<Rightarrow> if - (2 ^ 63) \<le> i \<and> i < 2 ^ 63 then Some i else None)"

lemma digit_val_char: "d < 36 \<Longrightarrow> digit_val (digit_char d) = Some d"
  by (auto simp: digit_val_def digit_char_def Let_def of_char_of)

lemma nat_digits_append:
  "nat_digits b acc (xs @ ys) =
     (case nat_digits b acc xs of None \<Rightarrow> None | Some a \<Rightarrow> nat_digits b a ys)"
  by (induction xs arbitrary: acc) (auto split: option.splits)

lemma nat_text_nonempty [simp]: "nat_text b n \<noteq> []"
  by (subst nat_text.simps) simp

lemma nat_digits_text:
  "2 \<le> b \<Longrightarrow> b \<le> 36 \<Longrightarrow> nat_digits b 0 (nat_text b n) = Some n"
proof (induction b n rule: nat_text.induct)
  case (1 b n)
  show ?case
  proof (cases "n < b")
    case True
    then show ?thesis using "1.prems" by (simp add: nat_text.simps [of b n] digit_val_char)
  next
    case False
    with "1.IH" "1.prems" have "nat_digits b 0 (nat_text b (n div b)) = Some (n div b)"
      by simp
    moreover have m: "n mod b < b" using "1.prems" by simp
    moreover from m "1.prems" have "digit_val (digit_char (n mod b)) = Some (n mod b)"
      by (intro digit_val_char) linarith
    ultimately show ?thesis
      using False "1.prems" by (simp add: nat_text.simps [of b n] nat_digits_append)
  qed
qed

lemma nat_of_text_text: "2 \<le> b \<Longrightarrow> b \<le> 36 \<Longrightarrow> nat_of_text b (nat_text b n) = Some n"
  by (simp add: nat_of_text_def nat_digits_text)

lemma digit_char_range: "d < 36 \<Longrightarrow> digit_char d \<notin> {CHR ''-'', CHR ''+'', CHR ''x''} \<or> d = 33"
proof -
  assume "d < 36"
  have "(of_char (digit_char d) :: nat) = (if d < 10 then 48 + d else 87 + d)"
    using \<open>d < 36\<close> by (simp add: digit_char_def of_char_of)
  then have "digit_char d = CHR ''-'' \<Longrightarrow> (if d < 10 then 48 + d else 87 + d) = 45"
    and "digit_char d = CHR ''+'' \<Longrightarrow> (if d < 10 then 48 + d else 87 + d) = 43"
    and "digit_char d = CHR ''x'' \<Longrightarrow> (if d < 10 then 48 + d else 87 + d) = 120"
    by auto
  then show ?thesis by (auto split: if_splits)
qed

lemma nat_text_chars: "2 \<le> b \<Longrightarrow> c \<in> set (nat_text b n) \<Longrightarrow> \<exists>d < b. c = digit_char d"
proof (induction b n rule: nat_text.induct)
  case (1 b n)
  show ?case
  proof (cases "n < b")
    case True
    with "1.prems" show ?thesis by (auto simp: nat_text.simps [of b n])
  next
    case False
    with "1.prems" have "c \<in> set (nat_text b (n div b)) \<or> c = digit_char (n mod b)"
      by (auto simp: nat_text.simps [of b n])
    then show ?thesis
    proof
      assume "c \<in> set (nat_text b (n div b))"
      with "1.IH" "1.prems" False show ?thesis by simp
    next
      assume "c = digit_char (n mod b)"
      moreover have "n mod b < b" using "1.prems" by simp
      ultimately show ?thesis by blast
    qed
  qed
qed

lemma int_of_text_text: "2 \<le> b \<Longrightarrow> b \<le> 16 \<Longrightarrow> int_of_text b (int_text b i) = Some i"
proof -
  assume b: "2 \<le> b" "b \<le> 16"
  have "hd (nat_text b n) \<noteq> CHR ''-'' \<and> hd (nat_text b n) \<noteq> CHR ''+''" for n
  proof -
    have "hd (nat_text b n) \<in> set (nat_text b n)" by simp
    then obtain d where "d < b" "hd (nat_text b n) = digit_char d"
      using nat_text_chars b(1) by blast
    with b digit_char_range [of d] show ?thesis by auto
  qed
  then have plain: "int_of_text b (nat_text b n) = Some (int n)" for n
  proof -
    obtain c cs where cons: "nat_text b n = c # cs" by (cases "nat_text b n") auto
    then have "c \<noteq> CHR ''-''" "c \<noteq> CHR ''+''"
      using \<open>\<And>n. hd (nat_text b n) \<noteq> CHR ''-'' \<and> hd (nat_text b n) \<noteq> CHR ''+''\<close> [of n] by auto
    with cons show ?thesis using nat_of_text_text [of b n] b by (simp add: int_of_text_def)
  qed
  have "int_of_text b (CHR ''-'' # nat_text b n) = Some (- int n)" for n
    using nat_of_text_text [of b n] b by (simp add: int_of_text_def)
  with plain show ?thesis by (simp add: int_text_def)
qed

lemma atoi_itoa: "- (2 ^ 63) \<le> i \<Longrightarrow> i < 2 ^ 63 \<Longrightarrow> atoi (itoa i) = Some i"
  by (simp add: atoi_def itoa_def int_of_text_text)

section \<open>UTF-8\<close>

text \<open>
  The length of the valid UTF-8 encoding at the head of a byte string, as
  \<^verbatim>\<open>unicode/utf8\<close> decodes it; none for a byte that starts no encoding.
\<close>

definition byte_between :: "nat \<Rightarrow> nat \<Rightarrow> string \<Rightarrow> nat \<Rightarrow> bool" where
  "byte_between lo hi s k \<longleftrightarrow> k < length s \<and> lo \<le> of_char (s ! k) \<and> of_char (s ! k) \<le> hi"

definition rune_length :: "string \<Rightarrow> nat option" where
  "rune_length s =
     (let between = (\<lambda>lo hi. byte_between lo hi s); tail = between 0x80 0xBF in
      if between 0 0x7F 0 then Some 1
      else if between 0xC2 0xDF 0 \<and> tail 1 then Some 2
      else if (between 0xE0 0xE0 0 \<and> between 0xA0 0xBF 1 \<or> between 0xE1 0xEC 0 \<and> tail 1 \<or>
               between 0xED 0xED 0 \<and> between 0x80 0x9F 1 \<or> between 0xEE 0xEF 0 \<and> tail 1) \<and> tail 2
      then Some 3
      else if (between 0xF0 0xF0 0 \<and> between 0x90 0xBF 1 \<or> between 0xF1 0xF3 0 \<and> tail 1 \<or>
               between 0xF4 0xF4 0 \<and> between 0x80 0x8F 1) \<and> tail 2 \<and> tail 3
      then Some 4
      else None)"

text \<open>\<^verbatim>\<open>utf8.RuneCountInString\<close>, where a stray byte counts as one rune, and
  \<^verbatim>\<open>strings.ToValidUTF8(s, "")\<close>, which drops the stray bytes.\<close>

fun rune_count_from :: "nat \<Rightarrow> string \<Rightarrow> nat" where
  "rune_count_from k [] = 0"
| "rune_count_from (Suc k) (c # cs) = rune_count_from k cs"
| "rune_count_from 0 (c # cs) =
     1 + rune_count_from (case rune_length (c # cs) of None \<Rightarrow> 0 | Some n \<Rightarrow> n - 1) cs"

definition rune_count :: "string \<Rightarrow> nat" where
  "rune_count s = rune_count_from 0 s"

fun valid_utf8_from :: "nat \<Rightarrow> string \<Rightarrow> string" where
  "valid_utf8_from k [] = []"
| "valid_utf8_from (Suc k) (c # cs) = c # valid_utf8_from k cs"
| "valid_utf8_from 0 (c # cs) =
     (case rune_length (c # cs) of
        None \<Rightarrow> valid_utf8_from 0 cs
      | Some n \<Rightarrow> c # valid_utf8_from (n - 1) cs)"

definition to_valid_utf8 :: "string \<Rightarrow> string" where
  "to_valid_utf8 s = valid_utf8_from 0 s"

lemma rune_length_ascii: "is_ascii c \<Longrightarrow> rune_length (c # cs) = Some 1"
  by (simp add: rune_length_def byte_between_def is_ascii_def)

lemma rune_count_ascii: "ascii_string s \<Longrightarrow> rune_count s = length s"
  unfolding rune_count_def ascii_string_def
  by (induction s) (simp_all add: rune_length_ascii)

lemma to_valid_utf8_ascii: "ascii_string s \<Longrightarrow> to_valid_utf8 s = s"
  unfolding to_valid_utf8_def ascii_string_def
  by (induction s) (simp_all add: rune_length_ascii)

end
