(* ===== verification/GoCodec.thy ===== *)
theory GoCodec
  imports GoStrings
begin

text \<open>
  The encodings of Go's standard library the pagination cursors are built from:
  \<^verbatim>\<open>encoding/binary\<close>'s variable-length integers, \<^verbatim>\<open>base64.RawStdEncoding\<close>, the reads of a
  \<^verbatim>\<open>bytes.Reader\<close> and \<^verbatim>\<open>time.Time\<close>'s binary form, each with the fact that reading
  what was written gives it back and leaves the rest of the buffer.
\<close>

section \<open>bytes.Reader\<close>

text \<open>
  A \<^verbatim>\<open>bytes.Reader\<close> is its unread bytes. \<^verbatim>\<open>Read\<close> fills as much of the caller's slice as
  it can and reports end of file whenever nothing is left, also for an empty slice.
\<close>

type_synonym 'a reader = "bytes \<Rightarrow> ('a \<times> bytes) outcome"

definition reader_read :: "nat \<Rightarrow> bytes reader" where
  "reader_read n r = (if r = [] then Err IoEOF else Ok (take n r, drop n r))"

section \<open>binary.PutUvarint, ReadUvarint and the signed variants\<close>

function put_uvarint :: "u64 \<Rightarrow> bytes" where
  "put_uvarint x =
     (if x < 0x80 then [ucast x] else (ucast x OR 0x80) # put_uvarint (drop_bit 7 x))"
  by pat_completeness auto
termination
proof (relation "measure unat")
  fix x :: u64
  assume "\<not> x < 0x80"
  then have "128 \<le> unat x" by (simp add: word_less_nat_alt)
  then show "(drop_bit 7 x, x) \<in> measure unat"
    using unat_drop_bit_eq [of 7 x] by (simp add: drop_bit_eq_div)
qed simp

declare put_uvarint.simps [simp del]

fun read_uvarint_loop :: "nat \<Rightarrow> u64 \<Rightarrow> u64 reader" where
  "read_uvarint_loop i x [] =
     Err (if 10 \<le> i then VarintOverflow else if 0 < i then IoUnexpectedEOF else IoEOF)"
| "read_uvarint_loop i x (b # bs) =
     (if 10 \<le> i then Err VarintOverflow
      else if b < 0x80 then
        (if i = 9 \<and> 1 < b then Err VarintOverflow
         else Ok (x OR push_bit (7 * i) (ucast b), bs))
      else read_uvarint_loop (Suc i) (x OR push_bit (7 * i) (ucast (b AND 0x7f))) bs)"

definition read_uvarint :: "u64 reader" where
  "read_uvarint r = read_uvarint_loop 0 0 r"

definition put_varint :: "i64 \<Rightarrow> bytes" where
  "put_varint x =
     (let ux = push_bit 1 x in put_uvarint (if sint x < 0 then NOT ux else ux))"

definition read_varint :: "i64 reader" where
  "read_varint r =
     bind_out (read_uvarint r) (\<lambda>(ux, r').
       let x = drop_bit 1 ux in Ok (if ux AND 1 \<noteq> 0 then NOT x else x, r'))"

lemma put_uvarint_nonempty [simp]: "put_uvarint v \<noteq> []"
  by (subst put_uvarint.simps) simp

lemma bit_127_iff: "bit (127 :: nat) m \<longleftrightarrow> m < 7" "bit (127 :: int) m \<longleftrightarrow> m < 7"
  using bit_mask_iff [of 7 m, where 'a = nat] bit_mask_iff [of 7 m, where 'a = int]
  by (simp_all add: mask_eq_exp_minus_1)

lemma bit_128_iff: "bit (128 :: nat) m \<longleftrightarrow> m = 7" "bit (128 :: int) m \<longleftrightarrow> m = 7"
  using bit_exp_iff [of 7 m, where 'a = nat] bit_exp_iff [of 7 m, where 'a = int] by auto

lemma low_byte_split:
  fixes v :: u64
  shows "push_bit k (ucast ((ucast v OR 0x80) AND 0x7f :: u8)) OR push_bit (7 + k) (drop_bit 7 v)
         = push_bit k v"
proof -
  define w where "w = ((ucast v OR 0x80) AND 0x7f :: u8)"
  have w: "bit w m \<longleftrightarrow> m < 7 \<and> bit v m" for m
    by (auto simp: w_def bit_simps bit_127_iff bit_128_iff)
  show ?thesis
    unfolding w_def [symmetric]
  proof (rule bit_eqI)
    fix n
    assume "possible_bit TYPE(u64) n"
    then show "bit (push_bit k (ucast w) OR push_bit (7 + k) (drop_bit 7 v)) n = bit (push_bit k v) n"
      by (cases "n - k < 7"; cases "k \<le> n") (auto simp: bit_simps w)
  qed
qed

lemma first_byte_continues: "\<not> (w OR 0x80 :: u8) < 0x80"
  using le_word_or2 [of "0x80 :: u8" w] by (simp add: or.commute not_less)

text \<open>
  The loop invariant of the reader: after \<open>i\<close> bytes the accumulator holds the low bits,
  and what is left of the value still fits in the remaining width.
\<close>

lemma read_put_uvarint_loop:
  "unat v < 2 ^ (64 - 7 * i) \<Longrightarrow> i < 10 \<Longrightarrow>
     read_uvarint_loop i x (put_uvarint v @ rest) = Ok (x OR push_bit (7 * i) v, rest)"
proof (induction v arbitrary: i x rule: put_uvarint.induct)
  case (1 v)
  show ?case
  proof (cases "v < 0x80")
    case True
    then have small: "unat v < 128" by (simp add: word_less_nat_alt)
    then have "unat (take_bit 8 v) = unat v"
      by (simp add: unsigned_take_bit_eq take_bit_nat_eq_self)
    then have "take_bit 8 v = v" by (rule word_unat_eq_iff [THEN iffD2])
    then have same: "(ucast (ucast v :: u8) :: u64) = v" by (simp add: unsigned_ucast_eq)
    have b: "(ucast v :: u8) < 0x80"
      using small by (simp add: word_less_nat_alt unsigned_ucast_eq take_bit_nat_eq_self)
    have "\<not> 1 < (ucast v :: u8)" if "i = 9"
      using that "1.prems"(1) small
      by (simp add: word_less_nat_alt unsigned_ucast_eq take_bit_nat_eq_self)
    with True b same "1.prems"(2) show ?thesis by (auto simp: put_uvarint.simps [of v])
  next
    case False
    then have big: "128 \<le> unat v" by (simp add: word_less_nat_alt)
    have i: "i < 9"
    proof (rule ccontr)
      assume "\<not> i < 9"
      with "1.prems"(2) have "i = 9" by simp
      with "1.prems"(1) big show False by simp
    qed
    have "(2 :: nat) ^ (64 - 7 * i) = 2 ^ (64 - 7 * Suc i) * 128"
    proof -
      have "64 - 7 * i = (64 - 7 * Suc i) + 7" using i by simp
      then show ?thesis by (simp only: power_add) simp
    qed
    with "1.prems"(1) have "unat (drop_bit 7 v) < 2 ^ (64 - 7 * Suc i)"
      using unat_drop_bit_eq [of 7 v] by (simp add: drop_bit_eq_div less_mult_imp_div_less)
    then have "read_uvarint_loop (Suc i) y (put_uvarint (drop_bit 7 v) @ rest)
          = Ok (y OR push_bit (7 * Suc i) (drop_bit 7 v), rest)" for y
      using "1.IH" [OF False] i by simp
    moreover have "(x OR push_bit (7 * i) (ucast ((ucast v OR 0x80) AND 0x7f :: u8)))
          OR push_bit (7 * Suc i) (drop_bit 7 v) = x OR push_bit (7 * i) v"
      using low_byte_split [of "7 * i" v] by (simp add: or.assoc)
    ultimately show ?thesis
      using False i first_byte_continues by (simp add: put_uvarint.simps [of v])
  qed
qed

lemma read_put_uvarint [codec_simps]: "read_uvarint (put_uvarint v @ rest) = Ok (v, rest)"
proof -
  have "unat v < 2 ^ 64" using unsigned_less [of v, where 'a = nat] by simp
  then show ?thesis using read_put_uvarint_loop [of v 0 0 rest] by (simp add: read_uvarint_def)
qed

lemma zigzag_inverse:
  fixes x :: i64
  defines "ux \<equiv> (if sint x < 0 then NOT (push_bit 1 x) else push_bit 1 x)"
  shows "(if ux AND 1 \<noteq> 0 then NOT (drop_bit 1 ux) else drop_bit 1 ux) = x"
proof (cases "sint x < 0")
  case True
  then have top: "bit x 63" using bit_last_iff [of x] by simp
  have "bit ux 0" using True by (simp add: ux_def bit_simps del: push_bit_Suc One_nat_def)
  then have "bit (ux AND 1) 0" by (simp add: bit_and_iff)
  then have "ux AND 1 \<noteq> 0" by auto
  moreover have "NOT (drop_bit 1 ux) = x"
  proof (rule bit_eqI)
    fix n
    assume "possible_bit TYPE(i64) n"
    then have "n < 63 \<or> n = 63" by auto
    with True top show "bit (NOT (drop_bit 1 ux)) n = bit x n"
      by (auto simp: ux_def bit_simps simp del: push_bit_Suc drop_bit_Suc One_nat_def)
  qed
  ultimately show ?thesis by simp
next
  case False
  then have top: "\<not> bit x 63" using bit_last_iff [of x] by simp
  have "ux AND 1 = 0" using False by (intro bit_eqI) (auto simp: ux_def bit_simps simp del: push_bit_Suc drop_bit_Suc One_nat_def)
  moreover have "drop_bit 1 ux = x"
  proof (rule bit_eqI)
    fix n
    assume "possible_bit TYPE(i64) n"
    then have "n < 63 \<or> n = 63" by auto
    with False top show "bit (drop_bit 1 ux) n = bit x n"
      by (auto simp: ux_def bit_simps simp del: push_bit_Suc drop_bit_Suc One_nat_def)
  qed
  ultimately show ?thesis by simp
qed

lemma read_put_varint [codec_simps]: "read_varint (put_varint v @ rest) = Ok (v, rest)"
  using zigzag_inverse [of v]
  by (simp add: read_varint_def put_varint_def Let_def read_put_uvarint
      del: push_bit_Suc drop_bit_Suc One_nat_def)

section \<open>base64.RawStdEncoding\<close>

text \<open>
  The standard alphabet without padding. Decoding skips carriage returns and line feeds,
  refuses any other byte outside the alphabet and a last group of one character, and,
  since \<^verbatim>\<open>RawStdEncoding\<close> is not strict, ignores the unused low bits of a short last group.
\<close>

definition b64_char :: "u8 \<Rightarrow> char" where
  "b64_char w =
     (let n = unat w in
      char_of (if n < 26 then n + 65 else if n < 52 then n + 71 else if n < 62 then n - 4
               else if n = 62 then 43 else 47))"

definition b64_val :: "char \<Rightarrow> u8 option" where
  "b64_val c =
     (let n = (of_char c :: nat) in
      if 65 \<le> n \<and> n \<le> 90 then Some (of_nat (n - 65))
      else if 97 \<le> n \<and> n \<le> 122 then Some (of_nat (n - 71))
      else if 48 \<le> n \<and> n \<le> 57 then Some (of_nat (n + 4))
      else if n = 43 then Some 62
      else if n = 47 then Some 63
      else None)"

fun b64_sextets :: "bytes \<Rightarrow> bytes" where
  "b64_sextets [] = []"
| "b64_sextets [a] = [drop_bit 2 a, push_bit 4 (a AND 3)]"
| "b64_sextets [a, b] =
     [drop_bit 2 a, push_bit 4 (a AND 3) OR drop_bit 4 b, push_bit 2 (b AND 15)]"
| "b64_sextets (a # b # c # r) =
     [drop_bit 2 a, push_bit 4 (a AND 3) OR drop_bit 4 b,
      push_bit 2 (b AND 15) OR drop_bit 6 c, c AND 63] @ b64_sextets r"

fun b64_octets :: "bytes \<Rightarrow> bytes option" where
  "b64_octets [] = Some []"
| "b64_octets [p] = None"
| "b64_octets [p, q] = Some [push_bit 2 p OR drop_bit 4 q]"
| "b64_octets [p, q, r] =
     Some [push_bit 2 p OR drop_bit 4 q, push_bit 4 q OR drop_bit 2 r]"
| "b64_octets (p # q # r # s # ts) =
     map_option (\<lambda>bs. [push_bit 2 p OR drop_bit 4 q, push_bit 4 q OR drop_bit 2 r,
                       push_bit 6 r OR s] @ bs) (b64_octets ts)"

definition base64_encode :: "bytes \<Rightarrow> string" where
  "base64_encode bs = map b64_char (b64_sextets bs)"

definition base64_decode :: "string \<Rightarrow> bytes outcome" where
  "base64_decode s =
     (case those (map b64_val (filter (\<lambda>c. c \<noteq> CHR 0x0A \<and> c \<noteq> CHR 0x0D) s)) of
        None \<Rightarrow> Err CorruptBase64
      | Some vs \<Rightarrow>
          (case b64_octets vs of None \<Rightarrow> Err CorruptBase64 | Some bs \<Rightarrow> Ok bs))"

lemma b64_val_char: "unat w < 64 \<Longrightarrow> b64_val (b64_char w) = Some w"
  by (auto simp: b64_val_def b64_char_def Let_def of_char_of word_unat_eq_iff)

lemma b64_char_not_newline:
  "unat w < 64 \<Longrightarrow> b64_char w \<noteq> CHR 0x0A \<and> b64_char w \<noteq> CHR 0x0D"
  using b64_val_char [of w] by (auto simp: b64_val_def)

lemma sextet_bound:
  fixes w :: u8
  assumes "\<not> bit w 6" and "\<not> bit w 7"
  shows "unat w < 64"
proof -
  have "take_bit 6 w = w"
  proof (rule bit_eqI)
    fix n
    assume "possible_bit TYPE(u8) n"
    then have "n < 6 \<or> n = 6 \<or> n = 7" by auto
    with assms show "bit (take_bit 6 w) n = bit w n" by (auto simp: bit_take_bit_iff)
  qed
  then have "unat w = take_bit 6 (unat w)" by (metis unsigned_take_bit_eq)
  also have "\<dots> < 2 ^ 6" by (rule take_bit_nat_less_exp)
  finally show ?thesis by simp
qed

lemma bit_small_masks:
  "bit (3 :: nat) m \<longleftrightarrow> m < 2" "bit (3 :: int) m \<longleftrightarrow> m < 2"
  "bit (15 :: nat) m \<longleftrightarrow> m < 4" "bit (15 :: int) m \<longleftrightarrow> m < 4"
  "bit (63 :: nat) m \<longleftrightarrow> m < 6" "bit (63 :: int) m \<longleftrightarrow> m < 6"
  using bit_mask_iff [of 2 m, where 'a = nat] bit_mask_iff [of 2 m, where 'a = int]
    bit_mask_iff [of 4 m, where 'a = nat] bit_mask_iff [of 4 m, where 'a = int]
    bit_mask_iff [of 6 m, where 'a = nat] bit_mask_iff [of 6 m, where 'a = int]
  by (simp_all add: mask_eq_exp_minus_1)

lemma byte_eq_iff:
  fixes a b :: u8
  shows "a = b \<longleftrightarrow> bit a 0 = bit b 0 \<and> bit a 1 = bit b 1 \<and> bit a 2 = bit b 2 \<and> bit a 3 = bit b 3
    \<and> bit a 4 = bit b 4 \<and> bit a 5 = bit b 5 \<and> bit a 6 = bit b 6 \<and> bit a 7 = bit b 7"
    (is "_ \<longleftrightarrow> ?all")
proof
  assume all: ?all
  show "a = b"
  proof (rule bit_eqI)
    fix n
    assume "possible_bit TYPE(u8) n"
    then have "n = 0 \<or> n = 1 \<or> n = 2 \<or> n = 3 \<or> n = 4 \<or> n = 5 \<or> n = 6 \<or> n = 7" by auto
    with all show "bit a n = bit b n" by blast
  qed
qed simp

lemma bit_byte_out_of_range: "8 \<le> n \<Longrightarrow> \<not> bit (w :: u8) n"
  using bit_imp_le_length [of w n] by auto

lemmas byte_bit_simps =
  bit_and_iff bit_or_iff bit_drop_bit_eq bit_push_bit_iff bit_small_masks bit_byte_out_of_range

lemma sextet_cases:
  fixes a b :: u8
  shows "unat (drop_bit 2 a) < 64" "unat (push_bit 4 (a AND 3)) < 64"
    "unat (push_bit 4 (a AND 3) OR drop_bit 4 b) < 64" "unat (push_bit 2 (b AND 15)) < 64"
    "unat (push_bit 2 (a AND 15) OR drop_bit 6 b) < 64" "unat (a AND 63) < 64"
  by (rule sextet_bound; simp add: byte_bit_simps del: push_bit_and)+

lemma octet_cases:
  fixes a b c :: u8
  shows "push_bit 2 (drop_bit 2 a) OR drop_bit 4 (push_bit 4 (a AND 3)) = a"
    "push_bit 2 (drop_bit 2 a) OR drop_bit 4 (push_bit 4 (a AND 3) OR drop_bit 4 b) = a"
    "push_bit 4 (push_bit 4 (a AND 3) OR drop_bit 4 b) OR drop_bit 2 (push_bit 2 (b AND 15)) = b"
    "push_bit 4 (push_bit 4 (a AND 3) OR drop_bit 4 b)
       OR drop_bit 2 (push_bit 2 (b AND 15) OR drop_bit 6 c) = b"
    "push_bit 6 (push_bit 2 (b AND 15) OR drop_bit 6 c) OR (c AND 63) = c"
  by (simp_all add: byte_eq_iff byte_bit_simps del: push_bit_and drop_bit_and)

lemma b64_sextets_bound: "w \<in> set (b64_sextets bs) \<Longrightarrow> unat w < 64"
  by (induction bs rule: b64_sextets.induct)
    (auto simp del: push_bit_and drop_bit_and simp add: sextet_cases)

lemma b64_octets_sextets: "b64_octets (b64_sextets bs) = Some bs"
  by (induction bs rule: b64_sextets.induct) (simp_all only: b64_sextets.simps b64_octets.simps
      append.simps octet_cases option.map)

lemma those_map_Some: "(\<And>x. x \<in> set xs \<Longrightarrow> f x = Some (g x)) \<Longrightarrow> those (map f xs) = Some (map g xs)"
  by (induction xs) auto

lemma base64_decode_encode [codec_simps]: "base64_decode (base64_encode bs) = Ok bs"
proof -
  have keep: "filter (\<lambda>c. c \<noteq> CHR 0x0A \<and> c \<noteq> CHR 0x0D) (base64_encode bs) = base64_encode bs"
    by (auto simp: base64_encode_def filter_id_conv b64_char_not_newline b64_sextets_bound)
  have "those (map b64_val (base64_encode bs)) = Some (map (\<lambda>w. w) (b64_sextets bs))"
    unfolding base64_encode_def map_map
    by (rule those_map_Some) (simp add: b64_val_char b64_sextets_bound)
  with keep show ?thesis by (simp add: base64_decode_def b64_octets_sextets)
qed

lemma base64_encode_eq_Nil: "base64_encode bs = [] \<longleftrightarrow> bs = []"
  by (cases bs rule: b64_sextets.cases) (auto simp: base64_encode_def)

section \<open>Big-endian words\<close>

fun be_split :: "nat \<Rightarrow> 'a::len word \<Rightarrow> bytes" where
  "be_split 0 w = []"
| "be_split (Suc n) w = ucast (drop_bit (8 * n) w) # be_split n w"

definition be_join :: "bytes \<Rightarrow> 'a::len word" where
  "be_join bs = foldl (\<lambda>acc b. push_bit 8 acc OR ucast b) 0 bs"

lemma length_be_split [simp]: "length (be_split n w) = n"
  by (induction n) auto

lemma foldl_be_split:
  fixes w :: "'a::len word"
  shows "foldl (\<lambda>acc b. push_bit 8 acc OR ucast b) acc (be_split n w)
    = push_bit (8 * n) acc OR take_bit (8 * n) w"
proof (induction n arbitrary: acc)
  case 0
  then show ?case by simp
next
  case (Suc n)
  have "push_bit (8 * n) (push_bit 8 acc OR ucast (ucast (drop_bit (8 * n) w) :: u8))
      OR take_bit (8 * n) w = push_bit (8 * Suc n) acc OR take_bit (8 * Suc n) w"
    by (rule bit_eqI) (auto simp: bit_simps not_le add.commute)
  then show ?case by (simp add: Suc.IH)
qed

lemma be_join_split:
  fixes w :: "'a::len word"
  shows "LENGTH('a) = 8 * n \<Longrightarrow> be_join (be_split n w) = w"
  using foldl_be_split [of 0 n w] by (simp add: be_join_def) (metis take_bit_length_eq)

section \<open>time.Time in binary\<close>

text \<open>
  A time is its seconds since year 1, its nanoseconds (the low 30 bits of the wall word)
  and its location, which is UTC or an offset in seconds east of it: two locations with
  the same offset at that instant are not told apart. Reading does what
  \<^verbatim>\<open>UnmarshalBinary\<close> does with any bytes, also with nanoseconds no clock produces: a
  negative 32-bit value sets the monotonic flag of the wall word, and \<^verbatim>\<open>setLoc\<close> then
  takes the seconds from the wall word.
\<close>

datatype zone = UTC | ZoneOffset int

record go_time =
  t_sec :: i64
  t_nsec :: i32
  t_zone :: zone

definition wall_to_internal :: int where
  "wall_to_internal = (1884 * 365 + 1884 div 4 - 1884 div 100 + 1884 div 400) * 86400"

definition time_marshal :: "go_time \<Rightarrow> bytes outcome" where
  "time_marshal t =
     (let body = be_split 8 (t_sec t) @ be_split 4 (t_nsec t) in
      case t_zone t of
        UTC \<Rightarrow> Ok (1 # body @ be_split 2 (- 1 :: 16 word))
      | ZoneOffset off \<Rightarrow>
          let mins = go_quot off 60 in
          if mins < - 32768 \<or> mins = - 1 \<or> 32767 < mins
          then Err (ErrText ''Time.MarshalBinary: unexpected zone offset'')
          else if go_rem off 60 \<noteq> 0
          then Ok (2 # body @ be_split 2 (word_of_int mins :: 16 word)
                    @ [word_of_int (go_rem off 60)])
          else Ok (1 # body @ be_split 2 (word_of_int mins :: 16 word)))"

definition time_of_raw :: "i64 \<Rightarrow> i32 \<Rightarrow> int \<Rightarrow> go_time" where
  "time_of_raw sec nsec off =
     \<lparr>t_sec =
        (if sint nsec < 0
         then word_of_int wall_to_internal + drop_bit 31 (push_bit 1 (scast nsec))
         else sec),
      t_nsec = nsec AND mask 30,
      t_zone = (if off = - 60 then UTC else ZoneOffset off)\<rparr>"

definition time_unmarshal :: "bytes \<Rightarrow> go_time outcome" where
  "time_unmarshal data =
     (case data of
        [] \<Rightarrow> Err (ErrText ''Time.UnmarshalBinary: no data'')
      | version # buf \<Rightarrow>
          if version \<noteq> 1 \<and> version \<noteq> 2
          then Err (ErrText ''Time.UnmarshalBinary: unsupported version'')
          else if length data \<noteq> (if version = 2 then 16 else 15)
          then Err (ErrText ''Time.UnmarshalBinary: invalid length'')
          else
            let sec = be_join (take 8 buf);
                nsec = be_join (take 4 (drop 8 buf));
                mins = sint (be_join (take 2 (drop 12 buf)) :: 16 word);
                off = mins * 60 + (if version = 2 then uint (buf ! 14) else 0)
            in Ok (time_of_raw sec nsec off))"

text \<open>The times that survive the trip: a clock's nanoseconds and whole-minute zones.\<close>

definition time_ok :: "go_time \<Rightarrow> bool" where
  "time_ok t \<longleftrightarrow> unat (t_nsec t) < 10 ^ 9 \<and>
     (case t_zone t of
        UTC \<Rightarrow> True
      | ZoneOffset off \<Rightarrow> off mod 60 = 0 \<and> - 32768 \<le> off div 60 \<and> off div 60 \<le> 32767 \<and> off \<noteq> - 60)"

lemma nsec_mask:
  assumes small: "unat (n :: i32) < 10 ^ 9"
  shows "n AND mask 30 = n" and "0 \<le> sint n"
proof -
  have "unat (take_bit 30 n) = take_bit 30 (unat n)" by (simp add: unsigned_take_bit_eq)
  also have "\<dots> = unat n" using small by (simp add: take_bit_nat_eq_self)
  finally show masked: "n AND mask 30 = n" by (metis take_bit_eq_mask word_unat_eq_iff)
  have "bit n 31 \<longleftrightarrow> bit (n AND mask 30) 31" by (simp only: masked)
  then have "\<not> bit n 31" by (simp add: bit_and_iff bit_mask_iff)
  then show "0 \<le> sint n" using bit_last_iff [of n] by simp
qed

lemma time_unmarshal_v1:
  fixes mins :: "16 word"
  assumes "unat nsec < 10 ^ 9"
  shows "time_unmarshal (1 # be_split 8 sec @ be_split 4 nsec @ be_split 2 mins)
    = Ok \<lparr>t_sec = sec, t_nsec = nsec,
           t_zone = (if sint mins * 60 = - 60 then UTC else ZoneOffset (sint mins * 60))\<rparr>"
proof -
  have "be_join (be_split 8 sec) = sec" "be_join (be_split 4 nsec) = nsec"
    "be_join (be_split 2 mins) = mins"
    by (rule be_join_split; simp)+
  then show ?thesis
    using nsec_mask [OF assms] by (simp add: time_unmarshal_def time_of_raw_def Let_def)
qed

lemma time_roundtrip:
  assumes "time_ok t"
  shows "\<exists>bs. time_marshal t = Ok bs \<and> length bs = 15 \<and> time_unmarshal bs = Ok t"
proof (cases "t_zone t")
  case UTC
  with assms show ?thesis
    using time_unmarshal_v1 [of "t_nsec t" "t_sec t" "- 1"]
    by (simp add: time_marshal_def time_ok_def)
next
  case (ZoneOffset off)
  define m where "m = off div 60"
  from ZoneOffset assms have off: "off = m * 60" "- 32768 \<le> m" "m \<le> 32767" "m \<noteq> - 1"
    by (auto simp: time_ok_def m_def)
  have q: "go_quot off 60 = m" "go_rem off 60 = 0"
    using go_quot_mult [of 60 m] go_rem_mult [of 60 m] off(1) by auto
  have "sint (word_of_int m :: 16 word) = m"
    using off by (simp add: sint_sbintrunc' signed_take_bit_int_eq_self)
  with ZoneOffset assms q off show ?thesis
    using time_unmarshal_v1 [of "t_nsec t" "t_sec t" "word_of_int m"]
    by (cases t) (auto simp: time_marshal_def time_ok_def)
qed

end
