(* ===== verification/Cursors.thy ===== *)
theory Cursors
  imports GoCodec
begin

text \<open>
  The opaque page cursors of \<^verbatim>\<open>publicapi/pagination.go\<close>: the encoder and decoder of
  cursor fields, \<^verbatim>\<open>Pack\<close> and \<^verbatim>\<open>Unpack\<close> over the list of fields a cursor registers with
  \<^verbatim>\<open>initCursor\<close>, and the concrete cursors. The interface the paginators rely on is the
  locale \<open>cursor_codec\<close>, interpreted for every concrete cursor.
\<close>

section \<open>The encoder\<close>

record cursor_encoder =
  buffer :: bytes

definition new_cursor_encoder :: cursor_encoder where
  "new_cursor_encoder = \<lparr>buffer = []\<rparr>"

definition as_base64 :: "cursor_encoder \<Rightarrow> string" where
  "as_base64 e = base64_encode (buffer e)"

definition append_bytes :: "cursor_encoder \<Rightarrow> bytes \<Rightarrow> cursor_encoder" where
  "append_bytes e bs = e\<lparr>buffer := buffer e @ bs\<rparr>"

definition append_uint64 :: "cursor_encoder \<Rightarrow> u64 \<Rightarrow> cursor_encoder" where
  "append_uint64 e i = append_bytes e (put_uvarint i)"

definition append_int64 :: "cursor_encoder \<Rightarrow> i64 \<Rightarrow> cursor_encoder" where
  "append_int64 e i = append_bytes e (put_varint i)"

definition append_bool :: "cursor_encoder \<Rightarrow> bool \<Rightarrow> cursor_encoder" where
  "append_bool e b = append_uint64 e (if b then 1 else 0)"

definition append_time :: "cursor_encoder \<Rightarrow> go_time \<Rightarrow> cursor_encoder outcome" where
  "append_time e t =
     bind_out (time_marshal t) (\<lambda>tb.
       Ok (append_bytes (append_uint64 e (of_nat (length tb))) tb))"

definition append_string :: "cursor_encoder \<Rightarrow> string \<Rightarrow> cursor_encoder" where
  "append_string e s =
     (let e1 = append_uint64 e (of_nat (length s)) in
      if length s \<noteq> 0 then append_bytes e1 (bytes_of s) else e1)"

definition append_dbid :: "cursor_encoder \<Rightarrow> string \<Rightarrow> cursor_encoder" where
  "append_dbid e dbid = append_string e dbid"

definition append_float64 :: "cursor_encoder \<Rightarrow> f64 \<Rightarrow> cursor_encoder" where
  "append_float64 e f = append_uint64 e f"

definition append_feed_entity_type :: "cursor_encoder \<Rightarrow> i64 \<Rightarrow> cursor_encoder" where
  "append_feed_entity_type e i = append_int64 e i"

section \<open>The decoder\<close>

text \<open>
  \<^verbatim>\<open>make([]T, n)\<close> panics when the length is negative or the slice would need more than
  the 2^48 bytes the Go runtime can address.
\<close>

definition make_slice_ok :: "nat \<Rightarrow> int \<Rightarrow> bool" where
  "make_slice_ok elem_size n \<longleftrightarrow> 0 \<le> n \<and> int elem_size * n \<le> 2 ^ 48"

record cursor_decoder =
  rdr :: bytes

definition set_reader :: "cursor_decoder \<Rightarrow> string \<Rightarrow> cursor_decoder outcome" where
  "set_reader d s = bind_out (base64_decode s) (\<lambda>bs. Ok (d\<lparr>rdr := bs\<rparr>))"

definition new_cursor_decoder :: "string \<Rightarrow> cursor_decoder outcome" where
  "new_cursor_decoder s = set_reader \<lparr>rdr = []\<rparr> s"

text \<open>The reads, as functions of the reader's unread bytes.\<close>

definition read_uint64 :: "u64 reader" where
  "read_uint64 r = read_uvarint r"

definition read_int64 :: "i64 reader" where
  "read_int64 r = read_varint r"

definition read_bool :: "bool reader" where
  "read_bool r = bind_out (read_uint64 r) (\<lambda>(b, r'). Ok (0 < b, r'))"

definition short_read :: "string \<Rightarrow> u64 \<Rightarrow> nat \<Rightarrow> gerror" where
  "short_read what want got =
     ErrText (''error reading '' @ what @ '': expected '' @ itoa (uint want)
       @ '' bytes, but only read '' @ itoa (int got) @ '' bytes'')"

definition read_time :: "go_time reader" where
  "read_time r =
     bind_out (read_uint64 r) (\<lambda>(n, r1).
       if \<not> make_slice_ok 1 (uint n) then Panic MakesliceLen
       else bind_out (reader_read (unat n) r1) (\<lambda>(tb, r2).
         if length tb \<noteq> unat n then Err (short_read ''time'' n (length tb))
         else bind_out (time_unmarshal tb) (\<lambda>t. Ok (t, r2))))"

definition read_string :: "string reader" where
  "read_string r =
     bind_out (read_uint64 r) (\<lambda>(n, r1).
       if \<not> make_slice_ok 1 (uint n) then Panic MakesliceLen
       else bind_out (reader_read (unat n) r1) (\<lambda>(sb, r2).
         if length sb \<noteq> unat n then Err (short_read ''string'' n (length sb))
         else Ok (string_of sb, r2)))"

definition read_dbid :: "string reader" where
  "read_dbid r = bind_out (read_string r) (\<lambda>(s, r'). Ok (s, r'))"

definition read_float64 :: "f64 reader" where
  "read_float64 r = bind_out (read_uint64 r) (\<lambda>(b, r'). Ok (b, r'))"

definition read_feed_entity_type :: "i64 reader" where
  "read_feed_entity_type r = bind_out (read_varint r) (\<lambda>(i, r'). Ok (i, r'))"

fun read_items :: "nat \<Rightarrow> 'a reader \<Rightarrow> 'a list reader" where
  "read_items 0 f r = Ok ([], r)"
| "read_items (Suc n) f r =
     bind_out (f r) (\<lambda>(x, r1).
       bind_out (read_items n f r1) (\<lambda>(xs, r2). Ok (x # xs, r2)))"

definition read_slice :: "nat \<Rightarrow> 'a reader \<Rightarrow> 'a list reader" where
  "read_slice elem_size f r =
     bind_out (read_int64 r) (\<lambda>(l, r1).
       if \<not> make_slice_ok elem_size (sint l) then Panic MakesliceLen
       else read_items (nat (sint l)) f r1)"

section \<open>Packing and unpacking a list of fields\<close>

text \<open>
  The values a cursor can be asked to pack: the cases of \<^verbatim>\<open>packVal\<close>'s type switch, with
  \<open>PUnknown\<close> for every other type. Names with \<open>P\<close> stand for pointers.
\<close>

datatype cursor_val =
    PBool bool
  | PString string
  | PDBID string
  | DBIDVal string
  | PUint64 u64
  | PInt64 i64
  | PFloat64 f64
  | PInt i64
  | PTime go_time
  | PFeedEntityType i64
  | FeedEntityTypeVal i64
  | PDBIDs "string list"
  | PFeedEntityTypes "i64 list"
  | PUnknown string

fun pack_each :: "(cursor_encoder \<Rightarrow> 'a \<Rightarrow> cursor_encoder outcome) \<Rightarrow> cursor_encoder \<Rightarrow> 'a list
    \<Rightarrow> cursor_encoder outcome" where
  "pack_each pv e [] = Ok e"
| "pack_each pv e (v # vs) = bind_out (pv e v) (\<lambda>e'. pack_each pv e' vs)"

definition pack_slice :: "(cursor_encoder \<Rightarrow> 'a \<Rightarrow> cursor_encoder outcome) \<Rightarrow> cursor_encoder
    \<Rightarrow> 'a list \<Rightarrow> cursor_encoder outcome" where
  "pack_slice pv e s = pack_each pv (append_int64 e (of_nat (length s))) s"

fun pack_val :: "cursor_encoder \<Rightarrow> cursor_val \<Rightarrow> cursor_encoder outcome" where
  "pack_val e (PBool b) = Ok (append_bool e b)"
| "pack_val e (PString s) = Ok (append_string e s)"
| "pack_val e (PDBID d) = Ok (append_dbid e d)"
| "pack_val e (DBIDVal d) = Ok (append_dbid e d)"
| "pack_val e (PUint64 i) = Ok (append_uint64 e i)"
| "pack_val e (PInt64 i) = Ok (append_int64 e i)"
| "pack_val e (PFloat64 f) = Ok (append_float64 e f)"
| "pack_val e (PInt i) = Ok (append_int64 e i)"
| "pack_val e (PTime t) = append_time e t"
| "pack_val e (PFeedEntityType i) = Ok (append_feed_entity_type e i)"
| "pack_val e (FeedEntityTypeVal i) = Ok (append_feed_entity_type e i)"
| "pack_val e (PDBIDs ds) = pack_slice (\<lambda>e d. Ok (append_dbid e d)) e ds"
| "pack_val e (PFeedEntityTypes is) = pack_slice (\<lambda>e i. Ok (append_feed_entity_type e i)) e is"
| "pack_val e (PUnknown ty) = Panic (PanicText (''don't know how to encode type: '' @ ty))"

definition pack_vals :: "cursor_encoder \<Rightarrow> cursor_val list \<Rightarrow> cursor_encoder outcome" where
  "pack_vals e vals = pack_each pack_val e vals"

definition pack :: "cursor_val list \<Rightarrow> string outcome" where
  "pack vals = bind_out (pack_vals new_cursor_encoder vals) (\<lambda>e. Ok (as_base64 e))"

text \<open>
  \<^verbatim>\<open>unpackVal\<close> chooses the read for a field by the type of the pointer; the types it does
  not list panic when the cursor is created. The new value replaces the old one.
\<close>

fun unpack_val :: "cursor_val \<Rightarrow> cursor_val reader outcome" where
  "unpack_val (PString _) = Ok (\<lambda>r. map_ok (apfst PString) (read_string r))"
| "unpack_val (PTime _) = Ok (\<lambda>r. map_ok (apfst PTime) (read_time r))"
| "unpack_val (PDBID _) = Ok (\<lambda>r. map_ok (apfst PDBID) (read_dbid r))"
| "unpack_val (PBool _) = Ok (\<lambda>r. map_ok (apfst PBool) (read_bool r))"
| "unpack_val (PInt64 _) = Ok (\<lambda>r. map_ok (apfst PInt64) (read_int64 r))"
| "unpack_val (PFloat64 _) = Ok (\<lambda>r. map_ok (apfst PFloat64) (read_float64 r))"
| "unpack_val (PFeedEntityTypes _) =
     Ok (\<lambda>r. map_ok (apfst PFeedEntityTypes) (read_slice 8 read_feed_entity_type r))"
| "unpack_val (PDBIDs _) = Ok (\<lambda>r. map_ok (apfst PDBIDs) (read_slice 16 read_dbid r))"
| "unpack_val v = Panic (PanicText ''don't know how to unpack type'')"

definition unpack_vals :: "cursor_val list \<Rightarrow> cursor_val reader list outcome" where
  "unpack_vals vals = map_out unpack_val vals"

text \<open>A base cursor holds the registered fields and the reads prepared for them.\<close>

record base_cursor =
  bc_vals :: "cursor_val list"
  bc_reads :: "cursor_val reader list"

definition init_cursor :: "cursor_val list \<Rightarrow> base_cursor outcome" where
  "init_cursor vals =
     bind_out (unpack_vals vals) (\<lambda>fs. Ok \<lparr>bc_vals = vals, bc_reads = fs\<rparr>)"

fun run_reads :: "cursor_val reader list \<Rightarrow> bytes \<Rightarrow> cursor_val list outcome" where
  "run_reads [] r = Ok []"
| "run_reads (f # fs) r =
     bind_out (f r) (\<lambda>(v, r'). bind_out (run_reads fs r') (\<lambda>vs. Ok (v # vs)))"

definition unpack :: "base_cursor \<Rightarrow> string \<Rightarrow> base_cursor outcome" where
  "unpack c s =
     (if s = [] then Ok c
      else bind_out (new_cursor_decoder s) (\<lambda>d.
             bind_out (run_reads (bc_reads c) (rdr d)) (\<lambda>vs. Ok (c\<lparr>bc_vals := vs\<rparr>))))"

text \<open>Registering the fields and unpacking into them, for a cursor whose fields are \<open>vals\<close>.\<close>

definition unpack_into :: "cursor_val list \<Rightarrow> string \<Rightarrow> cursor_val list outcome" where
  "unpack_into vals s =
     bind_out (init_cursor vals) (\<lambda>c. bind_out (unpack c s) (\<lambda>c'. Ok (bc_vals c')))"

section \<open>The concrete cursors\<close>

record time_id_cursor =
  ti_time :: go_time
  ti_id :: string

record bool_bool_int_id_cursor =
  bbii_bool1 :: bool
  bbii_bool2 :: bool
  bbii_int :: i64
  bbii_id :: string

record bool_time_id_cursor =
  bti_bool :: bool
  bti_time :: go_time
  bti_id :: string

record string_id_cursor =
  si_string :: string
  si_id :: string

record int_time_id_cursor =
  iti_int :: i64
  iti_time :: go_time
  iti_id :: string

record bool_id_float_id_cursor =
  bifi_bool :: bool
  bifi_id1 :: string
  bifi_float :: f64
  bifi_id2 :: string

record position_cursor =
  pc_current :: i64
  pc_ids :: "string list"
  pc_positions :: "string \<rightharpoonup> i64"

record feed_position_cursor =
  fpc_current :: i64
  fpc_types :: "i64 list"
  fpc_ids :: "string list"
  fpc_positions :: "string \<rightharpoonup> i64"

text \<open>The fields each constructor registers, in its order, and their assignment.\<close>

definition time_id_vals :: "time_id_cursor \<Rightarrow> cursor_val list" where
  "time_id_vals c = [PTime (ti_time c), PDBID (ti_id c)]"

definition bool_bool_int_id_vals :: "bool_bool_int_id_cursor \<Rightarrow> cursor_val list" where
  "bool_bool_int_id_vals c =
     [PBool (bbii_bool1 c), PBool (bbii_bool2 c), PInt64 (bbii_int c), PDBID (bbii_id c)]"

definition bool_time_id_vals :: "bool_time_id_cursor \<Rightarrow> cursor_val list" where
  "bool_time_id_vals c = [PBool (bti_bool c), PTime (bti_time c), PDBID (bti_id c)]"

definition string_id_vals :: "string_id_cursor \<Rightarrow> cursor_val list" where
  "string_id_vals c = [PString (si_string c), PDBID (si_id c)]"

definition int_time_id_vals :: "int_time_id_cursor \<Rightarrow> cursor_val list" where
  "int_time_id_vals c = [PInt64 (iti_int c), PTime (iti_time c), PDBID (iti_id c)]"

definition bool_id_float_id_vals :: "bool_id_float_id_cursor \<Rightarrow> cursor_val list" where
  "bool_id_float_id_vals c =
     [PBool (bifi_bool c), PDBID (bifi_id1 c), PFloat64 (bifi_float c), PDBID (bifi_id2 c)]"

definition position_vals :: "position_cursor \<Rightarrow> cursor_val list" where
  "position_vals c = [PInt64 (pc_current c), PDBIDs (pc_ids c)]"

definition feed_position_vals :: "feed_position_cursor \<Rightarrow> cursor_val list" where
  "feed_position_vals c =
     [PInt64 (fpc_current c), PFeedEntityTypes (fpc_types c), PDBIDs (fpc_ids c)]"

text \<open>The lookup of each element's index; a repeated element keeps its last one.\<close>

fun slice_to_map_index_from :: "i64 \<Rightarrow> 'a list \<Rightarrow> ('a \<rightharpoonup> i64) \<Rightarrow> ('a \<rightharpoonup> i64)" where
  "slice_to_map_index_from i [] m = m"
| "slice_to_map_index_from i (v # vs) m = slice_to_map_index_from (i + 1) vs (m(v \<mapsto> i))"

definition slice_to_map_index :: "'a list \<Rightarrow> ('a \<rightharpoonup> i64)" where
  "slice_to_map_index s = slice_to_map_index_from 0 s Map.empty"

definition unpack_time_id :: "time_id_cursor \<Rightarrow> string \<Rightarrow> time_id_cursor outcome" where
  "unpack_time_id c s =
     bind_out (unpack_into (time_id_vals c) s) (\<lambda>vs. case vs of
       [PTime t, PDBID d] \<Rightarrow> Ok (c\<lparr>ti_time := t, ti_id := d\<rparr>)
     | _ \<Rightarrow> Panic TypeAssertion)"

definition unpack_bool_bool_int_id ::
    "bool_bool_int_id_cursor \<Rightarrow> string \<Rightarrow> bool_bool_int_id_cursor outcome" where
  "unpack_bool_bool_int_id c s =
     bind_out (unpack_into (bool_bool_int_id_vals c) s) (\<lambda>vs. case vs of
       [PBool a, PBool b, PInt64 i, PDBID d] \<Rightarrow>
         Ok (c\<lparr>bbii_bool1 := a, bbii_bool2 := b, bbii_int := i, bbii_id := d\<rparr>)
     | _ \<Rightarrow> Panic TypeAssertion)"

definition unpack_bool_time_id :: "bool_time_id_cursor \<Rightarrow> string \<Rightarrow> bool_time_id_cursor outcome" where
  "unpack_bool_time_id c s =
     bind_out (unpack_into (bool_time_id_vals c) s) (\<lambda>vs. case vs of
       [PBool b, PTime t, PDBID d] \<Rightarrow> Ok (c\<lparr>bti_bool := b, bti_time := t, bti_id := d\<rparr>)
     | _ \<Rightarrow> Panic TypeAssertion)"

definition unpack_string_id :: "string_id_cursor \<Rightarrow> string \<Rightarrow> string_id_cursor outcome" where
  "unpack_string_id c s =
     bind_out (unpack_into (string_id_vals c) s) (\<lambda>vs. case vs of
       [PString k, PDBID d] \<Rightarrow> Ok (c\<lparr>si_string := k, si_id := d\<rparr>)
     | _ \<Rightarrow> Panic TypeAssertion)"

definition unpack_int_time_id :: "int_time_id_cursor \<Rightarrow> string \<Rightarrow> int_time_id_cursor outcome" where
  "unpack_int_time_id c s =
     bind_out (unpack_into (int_time_id_vals c) s) (\<lambda>vs. case vs of
       [PInt64 i, PTime t, PDBID d] \<Rightarrow> Ok (c\<lparr>iti_int := i, iti_time := t, iti_id := d\<rparr>)
     | _ \<Rightarrow> Panic TypeAssertion)"

definition unpack_bool_id_float_id ::
    "bool_id_float_id_cursor \<Rightarrow> string \<Rightarrow> bool_id_float_id_cursor outcome" where
  "unpack_bool_id_float_id c s =
     bind_out (unpack_into (bool_id_float_id_vals c) s) (\<lambda>vs. case vs of
       [PBool b, PDBID d1, PFloat64 f, PDBID d2] \<Rightarrow>
         Ok (c\<lparr>bifi_bool := b, bifi_id1 := d1, bifi_float := f, bifi_id2 := d2\<rparr>)
     | _ \<Rightarrow> Panic TypeAssertion)"

text \<open>The position cursors also rebuild their index after reading, even from an empty string.\<close>

definition unpack_position :: "position_cursor \<Rightarrow> string \<Rightarrow> position_cursor outcome" where
  "unpack_position c s =
     bind_out (unpack_into (position_vals c) s) (\<lambda>vs. case vs of
       [PInt64 i, PDBIDs ds] \<Rightarrow>
         Ok (c\<lparr>pc_current := i, pc_ids := ds, pc_positions := slice_to_map_index ds\<rparr>)
     | _ \<Rightarrow> Panic TypeAssertion)"

definition unpack_feed_position :: "feed_position_cursor \<Rightarrow> string \<Rightarrow> feed_position_cursor outcome" where
  "unpack_feed_position c s =
     bind_out (unpack_into (feed_position_vals c) s) (\<lambda>vs. case vs of
       [PInt64 i, PFeedEntityTypes ts, PDBIDs ds] \<Rightarrow>
         Ok (c\<lparr>fpc_current := i, fpc_types := ts, fpc_ids := ds,
               fpc_positions := slice_to_map_index ds\<rparr>)
     | _ \<Rightarrow> Panic TypeAssertion)"

end
