(* ===== verification/CursorCodec.thy ===== *)
theory CursorCodec
  imports Cursors
begin

text \<open>
  What the cursors promise: unpacking a packed cursor gives the cursor back, unpacking
  what a server packed never panics, and the one case in which it fails, a cursor whose
  last field is the empty string. The promise is stated as the locale \<open>cursor_codec\<close> and
  interpreted for each concrete cursor.
\<close>

section \<open>Fields\<close>

text \<open>The values for which a field round-trips; the bounds are those of \<^verbatim>\<open>make\<close>.\<close>

fun field_ok :: "cursor_val \<Rightarrow> bool" where
  "field_ok (PBool b) = True"
| "field_ok (PString s) = (length s \<le> 2 ^ 48)"
| "field_ok (PDBID s) = (length s \<le> 2 ^ 48)"
| "field_ok (PInt64 i) = True"
| "field_ok (PFloat64 f) = True"
| "field_ok (PTime t) = time_ok t"
| "field_ok (PDBIDs ds) = (16 * length ds \<le> 2 ^ 48 \<and> (\<forall>d \<in> set ds. length d \<le> 2 ^ 48))"
| "field_ok (PFeedEntityTypes is) = (8 * length is \<le> 2 ^ 48)"
| "field_ok v = False"

text \<open>The fields whose encoding ends in an empty string.\<close>

fun ends_empty :: "cursor_val \<Rightarrow> bool" where
  "ends_empty (PString s) = (s = [])"
| "ends_empty (PDBID s) = (s = [])"
| "ends_empty (PDBIDs ds) = (ds \<noteq> [] \<and> last ds = [])"
| "ends_empty v = False"

text \<open>The Go type of a field, which the prepared read depends on.\<close>

fun field_type :: "cursor_val \<Rightarrow> string" where
  "field_type (PBool _) = ''*bool''"
| "field_type (PString _) = ''*string''"
| "field_type (PDBID _) = ''*DBID''"
| "field_type (DBIDVal _) = ''DBID''"
| "field_type (PUint64 _) = ''*uint64''"
| "field_type (PInt64 _) = ''*int64''"
| "field_type (PFloat64 _) = ''*float64''"
| "field_type (PInt _) = ''*int''"
| "field_type (PTime _) = ''*Time''"
| "field_type (PFeedEntityType _) = ''*FeedEntityType''"
| "field_type (FeedEntityTypeVal _) = ''FeedEntityType''"
| "field_type (PDBIDs _) = ''*[]DBID''"
| "field_type (PFeedEntityTypes _) = ''*[]FeedEntityType''"
| "field_type (PUnknown ty) = ty"

fun unpackable :: "cursor_val \<Rightarrow> bool" where
  "unpackable (PBool _) = True"
| "unpackable (PString _) = True"
| "unpackable (PDBID _) = True"
| "unpackable (PInt64 _) = True"
| "unpackable (PFloat64 _) = True"
| "unpackable (PTime _) = True"
| "unpackable (PDBIDs _) = True"
| "unpackable (PFeedEntityTypes _) = True"
| "unpackable _ = False"

definition same_field :: "cursor_val \<Rightarrow> cursor_val \<Rightarrow> bool" where
  "same_field v w \<longleftrightarrow> unpackable w \<and> field_type v = field_type w"

section \<open>What the encoder appends\<close>

lemmas append_defs =
  append_bytes_def append_uint64_def append_int64_def append_bool_def append_string_def
  append_dbid_def append_float64_def append_feed_entity_type_def new_cursor_encoder_def

definition string_bytes :: "string \<Rightarrow> bytes" where
  "string_bytes s = put_uvarint (of_nat (length s)) @ bytes_of s"

lemma buffer_append_string: "buffer (append_string e s) = buffer e @ string_bytes s"
  by (auto simp: append_defs string_bytes_def Let_def bytes_of_def)

lemma buffer_append_dbid: "buffer (append_dbid e s) = buffer e @ string_bytes s"
  by (simp add: append_dbid_def buffer_append_string)

lemma pack_each_strings:
  "\<exists>e'. pack_each (\<lambda>e d. Ok (append_dbid e d)) e ds = Ok e' \<and>
        buffer e' = buffer e @ concat (map string_bytes ds)"
  by (induction ds arbitrary: e) (fastforce simp: buffer_append_dbid)+

lemma pack_each_types:
  "\<exists>e'. pack_each (\<lambda>e i. Ok (append_feed_entity_type e i)) e is = Ok e' \<and>
        buffer e' = buffer e @ concat (map put_varint is)"
  by (induction "is" arbitrary: e) (fastforce simp: append_defs)+

text \<open>The bytes of a field, for a field that round-trips.\<close>

fun field_bytes :: "cursor_val \<Rightarrow> bytes" where
  "field_bytes (PBool b) = put_uvarint (if b then 1 else 0)"
| "field_bytes (PString s) = string_bytes s"
| "field_bytes (PDBID s) = string_bytes s"
| "field_bytes (PInt64 i) = put_varint i"
| "field_bytes (PFloat64 f) = put_uvarint f"
| "field_bytes (PTime t) =
     (case time_marshal t of Ok tb \<Rightarrow> put_uvarint (of_nat (length tb)) @ tb | _ \<Rightarrow> [])"
| "field_bytes (PDBIDs ds) = put_varint (of_nat (length ds)) @ concat (map string_bytes ds)"
| "field_bytes (PFeedEntityTypes is) = put_varint (of_nat (length is)) @ concat (map put_varint is)"
| "field_bytes v = []"

lemma pack_val_field:
  assumes "field_ok v"
  shows "\<exists>e'. pack_val e v = Ok e' \<and> buffer e' = buffer e @ field_bytes v"
proof (cases v)
  case (PTime t)
  with assms obtain tb where "time_marshal t = Ok tb" using time_roundtrip by fastforce
  with PTime show ?thesis by (simp add: append_time_def append_defs)
next
  case (PDBIDs ds)
  then show ?thesis
    using pack_each_strings [of "append_int64 e (of_nat (length ds))" ds]
    by (auto simp: pack_slice_def append_defs)
next
  case (PFeedEntityTypes "is")
  then show ?thesis
    using pack_each_types [of "append_int64 e (of_nat (length is))" "is"]
    by (auto simp: pack_slice_def append_defs)
qed (use assms in \<open>auto simp: buffer_append_string buffer_append_dbid\<close>,
    auto simp: append_defs)

lemma pack_vals_fields:
  "list_all field_ok vals \<Longrightarrow>
    \<exists>e'. pack_vals e vals = Ok e' \<and> buffer e' = buffer e @ concat (map field_bytes vals)"
proof (induction vals arbitrary: e)
  case Nil
  then show ?case by (simp add: pack_vals_def)
next
  case (Cons v vals)
  then obtain e1 where e1: "pack_val e v = Ok e1" "buffer e1 = buffer e @ field_bytes v"
    using pack_val_field [of v e] by auto
  from Cons obtain e2 where "pack_vals e1 vals = Ok e2"
    "buffer e2 = buffer e1 @ concat (map field_bytes vals)" by force
  with e1 show ?case by (auto simp: pack_vals_def)
qed

lemma pack_fields:
  "list_all field_ok vals \<Longrightarrow>
    pack vals = Ok (base64_encode (concat (map field_bytes vals)))"
  using pack_vals_fields [of vals new_cursor_encoder]
  by (auto simp: pack_def as_base64_def new_cursor_encoder_def)

section \<open>What the decoder reads\<close>

lemma unat_small: "n \<le> 2 ^ 48 \<Longrightarrow> unat (of_nat n :: u64) = n"
  by (simp add: unat_of_nat)

lemma read_string_bytes:
  assumes "length s \<le> 2 ^ 48" and "s \<noteq> [] \<or> rest \<noteq> []"
  shows "read_string (string_bytes s @ rest) = Ok (s, rest)"
proof -
  have n: "unat (of_nat (length s) :: u64) = length s" using assms(1) by (rule unat_small)
  then have "make_slice_ok 1 (uint (of_nat (length s) :: u64))"
    using assms(1) by (simp add: make_slice_ok_def uint_nat)
  with n assms(2) show ?thesis
    by (auto simp: read_string_def string_bytes_def read_uint64_def read_put_uvarint reader_read_def)
qed

lemma read_empty_string_at_end: "read_string (string_bytes []) = Err IoEOF"
proof -
  have "read_uvarint (put_uvarint 0) = Ok (0, [])" using read_put_uvarint [of 0 "[]"] by simp
  then show ?thesis
    by (simp add: read_string_def string_bytes_def read_uint64_def bytes_of_def reader_read_def
        make_slice_ok_def)
qed

lemma read_items_encoded:
  assumes "\<And>x rest. x \<in> set xs \<Longrightarrow> Q x \<or> rest \<noteq> [] \<Longrightarrow> f (enc x @ rest) = Ok (x, rest)"
    and "\<And>x. enc x \<noteq> []"
    and "xs = [] \<or> Q (last xs) \<or> rest \<noteq> []"
  shows "read_items (length xs) f (concat (map enc xs) @ rest) = Ok (xs, rest)"
  using assms
proof (induction xs)
  case Nil
  then show ?case by simp
next
  case (Cons x xs)
  have more: "Q x \<or> concat (map enc xs) @ rest \<noteq> []"
    using Cons.prems(2,3) by (cases xs) auto
  have "f (enc x @ concat (map enc xs) @ rest) = Ok (x, concat (map enc xs) @ rest)"
    by (rule Cons.prems(1) [OF _ more]) simp
  moreover have "read_items (length xs) f (concat (map enc xs) @ rest) = Ok (xs, rest)"
    by (rule Cons.IH) (use Cons.prems in \<open>auto split: if_splits\<close>)
  ultimately show ?case by simp
qed

lemma sint_small: "n \<le> 2 ^ 48 \<Longrightarrow> sint (of_nat n :: i64) = int n"
  by (simp add: signed_of_nat signed_take_bit_int_eq_self)

lemma string_bytes_nonempty [simp]: "string_bytes s \<noteq> []"
  by (simp add: string_bytes_def)

lemma put_varint_nonempty [simp]: "put_varint i \<noteq> []"
  by (simp add: put_varint_def Let_def)

lemma read_slice_encoded:
  assumes "int sz * int (length xs) \<le> 2 ^ 48" and "length xs \<le> 2 ^ 48"
    and "read_items (length xs) f (body @ rest) = Ok (xs, rest)"
  shows "read_slice sz f (put_varint (of_nat (length xs)) @ body @ rest) = Ok (xs, rest)"
  using assms sint_small [OF assms(2)]
  by (simp add: read_slice_def read_int64_def read_put_varint make_slice_ok_def)

lemma read_ids:
  assumes "field_ok (PDBIDs ds)" and "\<not> ends_empty (PDBIDs ds) \<or> rest \<noteq> []"
  shows "read_slice 16 read_dbid (field_bytes (PDBIDs ds) @ rest) = Ok (ds, rest)"
proof -
  have "read_items (length ds) read_dbid (concat (map string_bytes ds) @ rest) = Ok (ds, rest)"
    by (rule read_items_encoded [where Q = "\<lambda>s. s \<noteq> []"])
      (use assms in \<open>auto simp: read_dbid_def read_string_bytes\<close>)
  then show ?thesis using assms(1) by (simp add: read_slice_encoded)
qed

lemma read_types:
  assumes "field_ok (PFeedEntityTypes is)"
  shows "read_slice 8 read_feed_entity_type (field_bytes (PFeedEntityTypes is) @ rest) = Ok (is, rest)"
proof -
  have "read_items (length is) read_feed_entity_type (concat (map put_varint is) @ rest)
      = Ok (is, rest)"
    by (rule read_items_encoded [where Q = "\<lambda>_. True"])
      (auto simp: read_feed_entity_type_def read_put_varint)
  then show ?thesis using assms by (simp add: read_slice_encoded)
qed

lemma read_time_bytes:
  assumes "time_ok t"
  shows "read_time (field_bytes (PTime t) @ rest) = Ok (t, rest)"
proof -
  obtain tb where tb: "time_marshal t = Ok tb" "length tb = 15" "time_unmarshal tb = Ok t"
    using time_roundtrip [OF assms] by blast
  then have "tb \<noteq> []" by auto
  with tb show ?thesis
    by (simp add: read_time_def read_uint64_def read_put_uvarint make_slice_ok_def reader_read_def)
qed

text \<open>One field, anywhere in the buffer.\<close>

lemma read_field [codec_simps]:
  assumes "field_ok v" and "same_field v w" and "\<not> ends_empty v \<or> rest \<noteq> []"
  shows "\<exists>f. unpack_val w = Ok f \<and> f (field_bytes v @ rest) = Ok (v, rest)"
proof (cases v)
  case (PBool b)
  with assms(2) show ?thesis
    by (cases w) (auto simp: same_field_def read_bool_def read_uint64_def read_put_uvarint)
next
  case (PString s)
  with assms show ?thesis by (cases w) (auto simp: same_field_def read_string_bytes)
next
  case (PDBID s)
  with assms show ?thesis by (cases w) (auto simp: same_field_def read_dbid_def read_string_bytes)
next
  case (PInt64 i)
  with assms(2) show ?thesis by (cases w) (auto simp: same_field_def read_int64_def read_put_varint)
next
  case (PFloat64 f)
  with assms(2) show ?thesis
    by (cases w) (auto simp: same_field_def read_float64_def read_uint64_def read_put_uvarint)
next
  case (PTime t)
  with assms show ?thesis
    using read_time_bytes [of t rest] by (cases w) (auto simp: same_field_def simp del: field_bytes.simps)
next
  case (PDBIDs ds)
  with assms show ?thesis
    using read_ids [of ds rest] by (cases w) (auto simp: same_field_def simp del: field_bytes.simps)
next
  case (PFeedEntityTypes "is")
  with assms show ?thesis
    using read_types [of "is" rest] by (cases w) (auto simp: same_field_def simp del: field_bytes.simps)
qed (use assms in auto)

lemma field_bytes_nonempty: "field_ok v \<Longrightarrow> field_bytes v \<noteq> []"
  by (cases v) (auto split: outcome.splits dest: time_roundtrip)

lemma read_fields:
  "list_all field_ok vs \<Longrightarrow> list_all2 same_field vs ws \<Longrightarrow> vs = [] \<or> \<not> ends_empty (last vs) \<or> rest \<noteq> []
   \<Longrightarrow> \<exists>fs. unpack_vals ws = Ok fs \<and> run_reads fs (concat (map field_bytes vs) @ rest) = Ok vs"
proof (induction vs arbitrary: ws)
  case Nil
  then show ?case by (auto simp: unpack_vals_def)
next
  case (Cons v vs)
  then obtain w ws' where ws: "ws = w # ws'" "same_field v w" "list_all2 same_field vs ws'"
    by (auto simp: list_all2_Cons1)
  have more: "\<not> ends_empty v \<or> concat (map field_bytes vs) @ rest \<noteq> []"
    using Cons.prems field_bytes_nonempty by (cases vs) auto
  obtain f where f: "unpack_val w = Ok f"
    "f (field_bytes v @ concat (map field_bytes vs) @ rest) = Ok (v, concat (map field_bytes vs) @ rest)"
    using read_field [OF _ ws(2) more] Cons.prems(1) by auto
  obtain fs where fs: "unpack_vals ws' = Ok fs"
    "run_reads fs (concat (map field_bytes vs) @ rest) = Ok vs"
    using Cons.IH [OF _ ws(3)] Cons.prems by (auto split: if_splits)
  from f fs ws(1) show ?case by (auto simp: unpack_vals_def)
qed

text \<open>
  The last field of a buffer that ends in an empty string: \<^verbatim>\<open>bytes.Reader.Read\<close> reports
  end of file when nothing is left, also for a read of zero bytes.
\<close>

lemma read_items_at_end:
  assumes "\<And>x rest. x \<in> set xs \<Longrightarrow> rest \<noteq> [] \<Longrightarrow> f (enc x @ rest) = Ok (x, rest)"
    and "\<And>x. enc x \<noteq> []" and "xs \<noteq> []" and "f (enc (last xs)) = Err er"
  shows "read_items (length xs) f (concat (map enc xs)) = Err er"
  using assms
proof (induction xs)
  case Nil
  then show ?case by simp
next
  case (Cons x xs)
  show ?case
  proof (cases xs)
    case Nil
    with Cons.prems(4) show ?thesis by simp
  next
    case (Cons y ys)
    then have "concat (map enc xs) \<noteq> []" using Cons.prems(2) by simp
    then have "f (enc x @ concat (map enc xs)) = Ok (x, concat (map enc xs))"
      by (intro Cons.prems(1)) simp_all
    moreover have "read_items (length xs) f (concat (map enc xs)) = Err er"
      by (rule Cons.IH) (use Cons.prems Cons in auto)
    ultimately show ?thesis by simp
  qed
qed

lemma read_ids_at_end:
  assumes "field_ok (PDBIDs ds)" and "ends_empty (PDBIDs ds)"
  shows "read_slice 16 read_dbid (field_bytes (PDBIDs ds)) = Err IoEOF"
proof -
  have "read_items (length ds) read_dbid (concat (map string_bytes ds)) = Err IoEOF"
    by (rule read_items_at_end)
      (use assms in \<open>auto simp: read_dbid_def read_string_bytes read_empty_string_at_end\<close>)
  then show ?thesis
    using assms(1) sint_small [of "length ds"]
    by (simp add: read_slice_def read_int64_def read_put_varint make_slice_ok_def)
qed

lemma read_field_at_end:
  assumes "field_ok v" and "same_field v w" and "ends_empty v"
  shows "\<exists>f. unpack_val w = Ok f \<and> f (field_bytes v) = Err IoEOF"
proof (cases v)
  case (PString s)
  with assms show ?thesis by (cases w) (auto simp: same_field_def read_empty_string_at_end)
next
  case (PDBID s)
  with assms show ?thesis
    by (cases w) (auto simp: same_field_def read_dbid_def read_empty_string_at_end)
next
  case (PDBIDs ds)
  with assms show ?thesis
    using read_ids_at_end [of ds] by (cases w) (auto simp: same_field_def simp del: field_bytes.simps)
qed (use assms in auto)

lemma read_fields_at_end:
  "list_all field_ok vs \<Longrightarrow> list_all2 same_field vs ws \<Longrightarrow> vs \<noteq> [] \<Longrightarrow> ends_empty (last vs)
   \<Longrightarrow> \<exists>fs. unpack_vals ws = Ok fs \<and> run_reads fs (concat (map field_bytes vs)) = Err IoEOF"
proof (induction vs arbitrary: ws)
  case Nil
  then show ?case by simp
next
  case (Cons v vs)
  then obtain w ws' where ws: "ws = w # ws'" "same_field v w" "list_all2 same_field vs ws'"
    by (auto simp: list_all2_Cons1)
  show ?case
  proof (cases "vs = []")
    case True
    with Cons.prems ws show ?thesis
      using read_field_at_end [of v w] by (auto simp: unpack_vals_def)
  next
    case False
    let ?rest = "concat (map field_bytes vs)"
    have "?rest \<noteq> []" using False Cons.prems(1) field_bytes_nonempty by (cases vs) auto
    then obtain f where f: "unpack_val w = Ok f" "f (field_bytes v @ ?rest) = Ok (v, ?rest)"
      using read_field [OF _ ws(2), of ?rest] Cons.prems(1) by auto
    obtain fs where fs: "unpack_vals ws' = Ok fs" "run_reads fs ?rest = Err IoEOF"
      using Cons.IH [OF _ ws(3)] Cons.prems False by auto
    from f fs ws(1) show ?thesis by (auto simp: unpack_vals_def)
  qed
qed


section \<open>The contract of a cursor\<close>

text \<open>
  A cursor's own fields fit the fields it registers, so the round trip over field lists
  is one over cursors. The condition on the last field is not a formality: see
  \<open>unpack_fails_on_empty_last_field\<close>.
\<close>

definition fields_ok :: "cursor_val list \<Rightarrow> bool" where
  "fields_ok vs \<longleftrightarrow> vs \<noteq> [] \<and> list_all field_ok vs \<and> list_all unpackable vs \<and> \<not> ends_empty (last vs)"

lemma concat_fields_nonempty:
  "vs \<noteq> [] \<Longrightarrow> list_all field_ok vs \<Longrightarrow> concat (map field_bytes vs) \<noteq> []"
  using field_bytes_nonempty by (cases vs) auto

text \<open>Packed fields, unpacked into fields of the same types.\<close>

lemma packed_fields:
  assumes "vs \<noteq> []" and "list_all field_ok vs" and "list_all2 same_field vs ws"
  shows "\<exists>s. pack vs = Ok s \<and> s \<noteq> [] \<and>
    unpack_into ws s = (if ends_empty (last vs) then Err IoEOF else Ok vs)"
proof -
  let ?bs = "concat (map field_bytes vs)"
  have ne: "?bs \<noteq> []" by (rule concat_fields_nonempty [OF assms(1,2)])
  obtain fs where fs: "unpack_vals ws = Ok fs"
    "run_reads fs ?bs = (if ends_empty (last vs) then Err IoEOF else Ok vs)"
    using read_fields [OF assms(2,3), of "[]"] read_fields_at_end [OF assms(2,3,1)]
    by (cases "ends_empty (last vs)") auto
  then have "unpack_into ws (base64_encode ?bs)
      = (if ends_empty (last vs) then Err IoEOF else Ok vs)"
    using ne by (simp add: unpack_into_def init_cursor_def unpack_def new_cursor_decoder_def
        set_reader_def base64_decode_encode base64_encode_eq_Nil del: concat_eq_Nil_conv)
  with ne show ?thesis
    using pack_fields [OF assms(2)] by (simp add: base64_encode_eq_Nil del: concat_eq_Nil_conv)
qed

lemma unpack_into_packed:
  assumes "fields_ok vs" and "list_all2 same_field vs ws" and "pack vs = Ok s"
  shows "unpack_into ws s = Ok vs"
  using packed_fields [of vs ws] assms by (auto simp: fields_ok_def)

lemma unpack_into_empty:
  "list_all unpackable ws \<Longrightarrow> unpack_into ws [] = Ok ws"
proof -
  assume "list_all unpackable ws"
  then have "\<exists>fs. unpack_vals ws = Ok fs"
  proof (induction ws)
    case Nil
    then show ?case by (simp add: unpack_vals_def)
  next
    case (Cons w ws)
    then obtain f where "unpack_val w = Ok f" by (cases w) auto
    with Cons show ?case by (auto simp: unpack_vals_def)
  qed
  then show ?thesis by (auto simp: unpack_into_def init_cursor_def unpack_def)
qed

locale cursor_codec =
  fixes pack_cur :: "'c \<Rightarrow> string outcome"
    and unpack_cur :: "'c \<Rightarrow> string \<Rightarrow> 'c outcome"
    and valid :: "'c \<Rightarrow> bool"
  assumes pack_total: "valid c \<Longrightarrow> \<exists>s. pack_cur c = Ok s \<and> s \<noteq> []"
    and unpack_pack: "valid c \<Longrightarrow> pack_cur c = Ok s \<Longrightarrow> unpack_cur d s = Ok c"
begin

lemma round_trip: "valid c \<Longrightarrow> bind_out (pack_cur c) (unpack_cur d) = Ok c"
  using pack_total [of c] unpack_pack by fastforce

lemma pack_injective:
  assumes "valid c" and "valid c'" and "pack_cur c = pack_cur c'"
  shows "c = c'"
proof -
  obtain s where s: "pack_cur c = Ok s" using pack_total assms(1) by blast
  then have "unpack_cur c s = Ok c" using unpack_pack assms(1) by blast
  moreover from s have "unpack_cur c s = Ok c'" using unpack_pack assms(2,3) by simp
  ultimately show ?thesis by simp
qed

lemma unpack_no_panic: "valid c \<Longrightarrow> pack_cur c = Ok s \<Longrightarrow> \<not> is_panic (unpack_cur d s)"
  by (simp add: unpack_pack)

end

text \<open>When a concrete cursor may be sent to a client and come back.\<close>

definition time_id_valid :: "time_id_cursor \<Rightarrow> bool" where
  "time_id_valid c \<longleftrightarrow> time_ok (ti_time c) \<and> length (ti_id c) \<le> 2 ^ 48 \<and> ti_id c \<noteq> []"

definition bool_bool_int_id_valid :: "bool_bool_int_id_cursor \<Rightarrow> bool" where
  "bool_bool_int_id_valid c \<longleftrightarrow> length (bbii_id c) \<le> 2 ^ 48 \<and> bbii_id c \<noteq> []"

definition bool_time_id_valid :: "bool_time_id_cursor \<Rightarrow> bool" where
  "bool_time_id_valid c \<longleftrightarrow> time_ok (bti_time c) \<and> length (bti_id c) \<le> 2 ^ 48 \<and> bti_id c \<noteq> []"

definition string_id_valid :: "string_id_cursor \<Rightarrow> bool" where
  "string_id_valid c \<longleftrightarrow>
     length (si_string c) \<le> 2 ^ 48 \<and> length (si_id c) \<le> 2 ^ 48 \<and> si_id c \<noteq> []"

definition int_time_id_valid :: "int_time_id_cursor \<Rightarrow> bool" where
  "int_time_id_valid c \<longleftrightarrow> time_ok (iti_time c) \<and> length (iti_id c) \<le> 2 ^ 48 \<and> iti_id c \<noteq> []"

definition bool_id_float_id_valid :: "bool_id_float_id_cursor \<Rightarrow> bool" where
  "bool_id_float_id_valid c \<longleftrightarrow>
     length (bifi_id1 c) \<le> 2 ^ 48 \<and> length (bifi_id2 c) \<le> 2 ^ 48 \<and> bifi_id2 c \<noteq> []"

definition ids_valid :: "string list \<Rightarrow> bool" where
  "ids_valid ds \<longleftrightarrow>
     length ds \<le> 2 ^ 44 \<and> (\<forall>d \<in> set ds. length d \<le> 2 ^ 48) \<and> (ds = [] \<or> last ds \<noteq> [])"

definition position_valid :: "position_cursor \<Rightarrow> bool" where
  "position_valid c \<longleftrightarrow> ids_valid (pc_ids c) \<and> pc_positions c = slice_to_map_index (pc_ids c)"

definition feed_position_valid :: "feed_position_cursor \<Rightarrow> bool" where
  "feed_position_valid c \<longleftrightarrow> ids_valid (fpc_ids c) \<and> length (fpc_types c) \<le> 2 ^ 45
     \<and> fpc_positions c = slice_to_map_index (fpc_ids c)"

lemmas cursor_vals_defs =
  time_id_vals_def bool_bool_int_id_vals_def bool_time_id_vals_def string_id_vals_def
  int_time_id_vals_def bool_id_float_id_vals_def position_vals_def feed_position_vals_def

lemmas cursor_valid_defs =
  time_id_valid_def bool_bool_int_id_valid_def bool_time_id_valid_def string_id_valid_def
  int_time_id_valid_def bool_id_float_id_valid_def position_valid_def feed_position_valid_def
  ids_valid_def

lemma pack_fields_ok: "fields_ok vs \<Longrightarrow> \<exists>s. pack vs = Ok s \<and> s \<noteq> []"
  using concat_fields_nonempty by (simp add: fields_ok_def pack_fields base64_encode_eq_Nil)

lemma valid_fields_ok:
  "time_id_valid c1 \<Longrightarrow> fields_ok (time_id_vals c1)"
  "bool_bool_int_id_valid c2 \<Longrightarrow> fields_ok (bool_bool_int_id_vals c2)"
  "bool_time_id_valid c3 \<Longrightarrow> fields_ok (bool_time_id_vals c3)"
  "string_id_valid c4 \<Longrightarrow> fields_ok (string_id_vals c4)"
  "int_time_id_valid c5 \<Longrightarrow> fields_ok (int_time_id_vals c5)"
  "bool_id_float_id_valid c6 \<Longrightarrow> fields_ok (bool_id_float_id_vals c6)"
  "position_valid c7 \<Longrightarrow> fields_ok (position_vals c7)"
  "feed_position_valid c8 \<Longrightarrow> fields_ok (feed_position_vals c8)"
  by (auto simp: cursor_vals_defs cursor_valid_defs fields_ok_def)

lemma registered_fields:
  "list_all2 same_field (time_id_vals c1) (time_id_vals d1)"
  "list_all2 same_field (bool_bool_int_id_vals c2) (bool_bool_int_id_vals d2)"
  "list_all2 same_field (bool_time_id_vals c3) (bool_time_id_vals d3)"
  "list_all2 same_field (string_id_vals c4) (string_id_vals d4)"
  "list_all2 same_field (int_time_id_vals c5) (int_time_id_vals d5)"
  "list_all2 same_field (bool_id_float_id_vals c6) (bool_id_float_id_vals d6)"
  "list_all2 same_field (position_vals c7) (position_vals d7)"
  "list_all2 same_field (feed_position_vals c8) (feed_position_vals d8)"
  by (simp_all add: cursor_vals_defs same_field_def)

lemma unpack_registered:
  "time_id_valid c1 \<Longrightarrow> pack (time_id_vals c1) = Ok s \<Longrightarrow>
     unpack_into (time_id_vals d1) s = Ok (time_id_vals c1)"
  "bool_bool_int_id_valid c2 \<Longrightarrow> pack (bool_bool_int_id_vals c2) = Ok s \<Longrightarrow>
     unpack_into (bool_bool_int_id_vals d2) s = Ok (bool_bool_int_id_vals c2)"
  "bool_time_id_valid c3 \<Longrightarrow> pack (bool_time_id_vals c3) = Ok s \<Longrightarrow>
     unpack_into (bool_time_id_vals d3) s = Ok (bool_time_id_vals c3)"
  "string_id_valid c4 \<Longrightarrow> pack (string_id_vals c4) = Ok s \<Longrightarrow>
     unpack_into (string_id_vals d4) s = Ok (string_id_vals c4)"
  "int_time_id_valid c5 \<Longrightarrow> pack (int_time_id_vals c5) = Ok s \<Longrightarrow>
     unpack_into (int_time_id_vals d5) s = Ok (int_time_id_vals c5)"
  "bool_id_float_id_valid c6 \<Longrightarrow> pack (bool_id_float_id_vals c6) = Ok s \<Longrightarrow>
     unpack_into (bool_id_float_id_vals d6) s = Ok (bool_id_float_id_vals c6)"
  "position_valid c7 \<Longrightarrow> pack (position_vals c7) = Ok s \<Longrightarrow>
     unpack_into (position_vals d7) s = Ok (position_vals c7)"
  "feed_position_valid c8 \<Longrightarrow> pack (feed_position_vals c8) = Ok s \<Longrightarrow>
     unpack_into (feed_position_vals d8) s = Ok (feed_position_vals c8)"
  by (blast intro: unpack_into_packed valid_fields_ok registered_fields)+

text \<open>The values read are assigned to the fields they were registered for.\<close>

lemma unpack_assigns:
  "unpack_into (time_id_vals d1) s = Ok (time_id_vals c1) \<Longrightarrow> unpack_time_id d1 s = Ok c1"
  "unpack_into (bool_bool_int_id_vals d2) s = Ok (bool_bool_int_id_vals c2) \<Longrightarrow> unpack_bool_bool_int_id d2 s = Ok c2"
  "unpack_into (bool_time_id_vals d3) s = Ok (bool_time_id_vals c3) \<Longrightarrow> unpack_bool_time_id d3 s = Ok c3"
  "unpack_into (string_id_vals d4) s = Ok (string_id_vals c4) \<Longrightarrow> unpack_string_id d4 s = Ok c4"
  "unpack_into (int_time_id_vals d5) s = Ok (int_time_id_vals c5) \<Longrightarrow> unpack_int_time_id d5 s = Ok c5"
  "unpack_into (bool_id_float_id_vals d6) s = Ok (bool_id_float_id_vals c6) \<Longrightarrow> unpack_bool_id_float_id d6 s = Ok c6"
  by (simp_all only: unpack_time_id_def unpack_bool_bool_int_id_def unpack_bool_time_id_def
      unpack_string_id_def unpack_int_time_id_def unpack_bool_id_float_id_def bind_out.simps)
    (simp_all add: cursor_vals_defs)

lemma unpack_assigns_positions:
  "unpack_into (position_vals d7) s = Ok (position_vals c7) \<Longrightarrow>
     pc_positions c7 = slice_to_map_index (pc_ids c7) \<Longrightarrow> unpack_position d7 s = Ok c7"
  "unpack_into (feed_position_vals d8) s = Ok (feed_position_vals c8) \<Longrightarrow>
     fpc_positions c8 = slice_to_map_index (fpc_ids c8) \<Longrightarrow> unpack_feed_position d8 s = Ok c8"
  by (simp_all only: unpack_position_def unpack_feed_position_def bind_out.simps)
    (simp_all add: cursor_vals_defs)

lemmas codec_intros =
  pack_fields_ok valid_fields_ok unpack_assigns unpack_assigns_positions unpack_registered

interpretation time_id: cursor_codec "\<lambda>c. pack (time_id_vals c)" unpack_time_id time_id_valid
  by unfold_locales (blast intro: codec_intros)+

interpretation bool_bool_int_id: cursor_codec "\<lambda>c. pack (bool_bool_int_id_vals c)" unpack_bool_bool_int_id bool_bool_int_id_valid
  by unfold_locales (blast intro: codec_intros)+

interpretation bool_time_id: cursor_codec "\<lambda>c. pack (bool_time_id_vals c)" unpack_bool_time_id bool_time_id_valid
  by unfold_locales (blast intro: codec_intros)+

interpretation string_id: cursor_codec "\<lambda>c. pack (string_id_vals c)" unpack_string_id string_id_valid
  by unfold_locales (blast intro: codec_intros)+

interpretation int_time_id: cursor_codec "\<lambda>c. pack (int_time_id_vals c)" unpack_int_time_id int_time_id_valid
  by unfold_locales (blast intro: codec_intros)+

interpretation bool_id_float_id: cursor_codec "\<lambda>c. pack (bool_id_float_id_vals c)" unpack_bool_id_float_id bool_id_float_id_valid
  by unfold_locales (blast intro: codec_intros)+

interpretation position: cursor_codec "\<lambda>c. pack (position_vals c)" unpack_position position_valid
proof unfold_locales
  fix c d s
  assume v: "position_valid c" and "pack (position_vals c) = Ok s"
  then have "unpack_into (position_vals d) s = Ok (position_vals c)"
    by (rule unpack_registered)
  with v show "unpack_position d s = Ok c"
    by (intro unpack_assigns_positions) (auto simp: position_valid_def)
qed (blast intro: codec_intros)

interpretation feed_position: cursor_codec "\<lambda>c. pack (feed_position_vals c)" unpack_feed_position feed_position_valid
proof unfold_locales
  fix c d s
  assume v: "feed_position_valid c" and "pack (feed_position_vals c) = Ok s"
  then have "unpack_into (feed_position_vals d) s = Ok (feed_position_vals c)"
    by (rule unpack_registered)
  with v show "unpack_feed_position d s = Ok c"
    by (intro unpack_assigns_positions) (auto simp: feed_position_valid_def)
qed (blast intro: codec_intros)

section \<open>Properties\<close>



text \<open>
  The cursor of the trending and for-you feeds survives the trip through the
  client with its position, its entity types, its ids and the rebuilt index.
\<close>

theorem feed_position_cursor_roundtrip:
  assumes "feed_position_valid c"
  shows "bind_out (pack (feed_position_vals c)) (unpack_feed_position d) = Ok c"
  by (rule feed_position.round_trip [OF assms])

theorem feed_position_cursor_roundtrip_witness:
  "bind_out (pack (feed_position_vals
        \<lparr>fpc_current = 3, fpc_types = [0, 1], fpc_ids = [''p1'', ''p2''],
         fpc_positions = slice_to_map_index [''p1'', ''p2'']\<rparr>))
      (unpack_feed_position \<lparr>fpc_current = 0, fpc_types = [], fpc_ids = [], fpc_positions = Map.empty\<rparr>)
    = Ok \<lparr>fpc_current = 3, fpc_types = [0, 1], fpc_ids = [''p1'', ''p2''],
          fpc_positions = slice_to_map_index [''p1'', ''p2'']\<rparr>"
  by (rule feed_position_cursor_roundtrip) (simp add: feed_position_valid_def ids_valid_def)

text \<open>
  Distinct valid time cursors have distinct strings, so a page boundary the
  server handed out names one position only.
\<close>

theorem time_id_cursor_injective:
  assumes "time_id_valid c" and "time_id_valid c'"
    and "pack (time_id_vals c) = pack (time_id_vals c')"
  shows "c = c'"
  by (rule time_id.pack_injective [OF assms])

theorem time_id_cursor_injective_witness:
  "let c = \<lparr>ti_time = \<lparr>t_sec = 7, t_nsec = 1, t_zone = UTC\<rparr>, ti_id = ''x''\<rparr>;
       c' = \<lparr>ti_time = \<lparr>t_sec = 7, t_nsec = 1, t_zone = ZoneOffset 3600\<rparr>, ti_id = ''x''\<rparr>
   in pack (time_id_vals c) \<noteq> pack (time_id_vals c')"
proof -
  let ?c = "\<lparr>ti_time = \<lparr>t_sec = 7, t_nsec = 1, t_zone = UTC\<rparr>, ti_id = ''x''\<rparr>"
  let ?c' = "\<lparr>ti_time = \<lparr>t_sec = 7, t_nsec = 1, t_zone = ZoneOffset 3600\<rparr>, ti_id = ''x''\<rparr>"
  have v: "time_id_valid ?c" "time_id_valid ?c'"
    by (simp_all add: time_id_valid_def time_ok_def)
  have "pack (time_id_vals ?c) \<noteq> pack (time_id_vals ?c')"
    using time_id_cursor_injective [OF v] by auto
  then show ?thesis by (simp add: Let_def)
qed

text \<open>
  A cursor whose last field is an empty ID can be packed but not unpacked:
  \<^verbatim>\<open>bytes.Reader.Read\<close> reports end of file when nothing is left, also for a read of zero
  bytes, so a page boundary on such a node ends in an error.
\<close>

theorem unpack_fails_on_empty_last_field:
  assumes "list_all field_ok vs" and "list_all2 same_field (vs @ [PDBID []]) (ws @ [PDBID d])"
  shows "\<exists>s. pack (vs @ [PDBID []]) = Ok s \<and> unpack_into (ws @ [PDBID d]) s = Err IoEOF"
proof -
  have "list_all field_ok (vs @ [PDBID []])" using assms(1) by simp
  from packed_fields [OF _ this assms(2)] show ?thesis by auto
qed

theorem unpack_fails_on_empty_last_field_witness:
  "\<exists>s. pack ([PBool True] @ [PDBID []]) = Ok s \<and>
     unpack_into ([PBool False] @ [PDBID ''abc'']) s = Err IoEOF"
  by (rule unpack_fails_on_empty_last_field) (simp_all add: same_field_def)

text \<open>
  A slice length in a cursor is trusted: a client that sends a position cursor
  with a negative length makes \<^verbatim>\<open>Unpack\<close> panic in \<^verbatim>\<open>make\<close> instead of returning an error.
\<close>

theorem unpack_panics_on_negative_length:
  assumes "sint l < 0"
  shows "unpack_position c (base64_encode (put_varint p @ put_varint l @ rest)) = Panic MakesliceLen"
proof -
  have "run_reads [\<lambda>r. map_ok (apfst PInt64) (read_int64 r),
      \<lambda>r. map_ok (apfst PDBIDs) (read_slice 16 read_dbid r)]
      (put_varint p @ put_varint l @ rest) = Panic MakesliceLen"
    using assms by (simp add: read_int64_def read_put_varint read_slice_def make_slice_ok_def)
  then show ?thesis
    by (simp add: unpack_position_def position_vals_def unpack_into_def init_cursor_def
        unpack_vals_def unpack_def base64_encode_eq_Nil new_cursor_decoder_def set_reader_def
        base64_decode_encode)
qed

theorem unpack_panics_on_negative_length_witness:
  "unpack_position \<lparr>pc_current = 0, pc_ids = [], pc_positions = Map.empty\<rparr>
     (base64_encode (put_varint 0 @ put_varint (- 1) @ [])) = Panic MakesliceLen"
  by (rule unpack_panics_on_negative_length) simp

section \<open>The index of a position cursor\<close>

lemma slice_to_map_index_from_notin:
  "x \<notin> set xs \<Longrightarrow> slice_to_map_index_from i xs m x = m x"
  by (induction xs arbitrary: i m) auto

lemma slice_to_map_index_from_append:
  "slice_to_map_index_from i (xs @ ys) m
     = slice_to_map_index_from (i + of_nat (length xs)) ys (slice_to_map_index_from i xs m)"
  by (induction xs arbitrary: i m) (simp_all add: algebra_simps)

lemma slice_to_map_index_last:
  assumes "y \<notin> set post"
  shows "slice_to_map_index (pre @ y # post) y = Some (of_nat (length pre))"
  using assms
  by (simp add: slice_to_map_index_def slice_to_map_index_from_append slice_to_map_index_from_notin)

text \<open>
  The index built from a cursor's ids knows exactly the ids of the slice and
  gives each its position, the last one when an id is repeated.
\<close>

theorem slice_to_map_index_correct:
  "slice_to_map_index xs x =
     (if x \<in> set xs then Some (of_nat (length xs - 1 - length (takeWhile (\<lambda>y. y \<noteq> x) (rev xs))))
      else None)"
proof (cases "x \<in> set xs")
  case True
  then obtain pre post where split: "xs = pre @ x # post" "x \<notin> set post"
    by (meson split_list_last)
  then have "\<And>y. y \<in> set (rev post) \<Longrightarrow> y \<noteq> x" by auto
  then have "takeWhile (\<lambda>y. y \<noteq> x) (rev post @ x # rev pre) = rev post"
    by (subst takeWhile_append2) auto
  with split(1) have "takeWhile (\<lambda>y. y \<noteq> x) (rev xs) = rev post" by simp
  with split True show ?thesis by (simp add: slice_to_map_index_last)
next
  case False
  then show ?thesis by (simp add: slice_to_map_index_def slice_to_map_index_from_notin)
qed

end
