(* ===== verification/Pagination.thy ===== *)
theory Pagination
  imports CursorCodec
begin

text \<open>
  Keyset and position pagination of \<^verbatim>\<open>publicapi/pagination.go\<close>: the page cut out of a
  query's result, the page information sent with it, and the paginators that decode the
  client's cursors into query parameters. The database query is a parameter of every
  paginator (\<^verbatim>\<open>QueryFunc\<close>), and so are the functions that read a cursor off a row
  (\<^verbatim>\<open>CursorFunc\<close>) and count the rows (\<^verbatim>\<open>CountFunc\<close>). An optional \<^verbatim>\<open>*int\<close> or
  \<^verbatim>\<open>*string\<close> argument is an option.
\<close>

section \<open>Default cursor positions\<close>

definition default_cursor_before_id :: string where
  "default_cursor_before_id = ''''"

definition default_cursor_after_id :: string where
  "default_cursor_after_id = ''''"

text \<open>
  Seconds since the first of January of year 1, the epoch of \<^verbatim>\<open>time.Time\<close>, of the first
  of January of the years 3000 and 1970, at 01:01:01 and one nanosecond, UTC.
\<close>

definition default_cursor_before_time :: go_time where
  "default_cursor_before_time = \<lparr>t_sec = 94639280461, t_nsec = 1, t_zone = UTC\<rparr>"

definition default_cursor_after_time :: go_time where
  "default_cursor_after_time = \<lparr>t_sec = 62135600461, t_nsec = 1, t_zone = UTC\<rparr>"

definition default_cursor_before_key :: string where
  "default_cursor_before_key = replicate 255 CHR ''Z''"

definition default_cursor_after_key :: string where
  "default_cursor_after_key = ''''"

definition default_cursor_before_position :: int where
  "default_cursor_before_position = 2 ^ 31 - 1 - 1"

definition default_cursor_after_position :: int where
  "default_cursor_after_position = - 1"

text \<open>The bit patterns of the largest finite float64 and of its negation.\<close>

definition default_cursor_before_float :: f64 where
  "default_cursor_before_float = 0x7FEFFFFFFFFFFFFF"

definition default_cursor_after_float :: f64 where
  "default_cursor_after_float = 0xFFEFFFFFFFFFFFFF"

section \<open>One page\<close>

record page_info =
  pi_total :: "int option"
  pi_size :: nat
  pi_has_previous_page :: bool
  pi_has_next_page :: bool
  pi_start_cursor :: string
  pi_end_cursor :: string

definition empty_page_info :: page_info where
  "empty_page_info = \<lparr>pi_total = None, pi_size = 0, pi_has_previous_page = False,
     pi_has_next_page = False, pi_start_cursor = '''', pi_end_cursor = ''''\<rparr>"

definition pack_node :: "('c \<Rightarrow> string outcome) \<Rightarrow> ('n \<Rightarrow> 'c outcome) \<Rightarrow> 'n \<Rightarrow> string outcome" where
  "pack_node pk cF node = bind_out (cF node) pk"

text \<open>The two scans of \<^verbatim>\<open>applyCursors\<close>: up to and including a cursor, and from it on.\<close>

fun scan_for_cursor :: "('n \<Rightarrow> string outcome) \<Rightarrow> string \<Rightarrow> nat \<Rightarrow> 'n list \<Rightarrow> nat option outcome" where
  "scan_for_cursor pn cur i [] = Ok None"
| "scan_for_cursor pn cur i (edge # edges) =
     bind_out (pn edge) (\<lambda>c.
       if c = cur then Ok (Some i) else scan_for_cursor pn cur (Suc i) edges)"

definition apply_cursors :: "('n \<Rightarrow> string outcome) \<Rightarrow> 'n list \<Rightarrow> string option \<Rightarrow> string option
    \<Rightarrow> 'n list outcome" where
  "apply_cursors pn all_edges before after =
     bind_out
       (case after of
          None \<Rightarrow> Ok all_edges
        | Some a \<Rightarrow> bind_out (scan_for_cursor pn a 0 all_edges) (\<lambda>hit. case hit of
            None \<Rightarrow> Ok all_edges
          | Some i \<Rightarrow> Ok (drop (i + 1) all_edges)))
       (\<lambda>edges. case before of
          None \<Rightarrow> Ok edges
        | Some b \<Rightarrow> bind_out (scan_for_cursor pn b 0 edges) (\<lambda>hit. case hit of
            None \<Rightarrow> Ok edges
          | Some i \<Rightarrow> Ok (take i edges)))"

text \<open>A slice expression panics when its bound is negative or past the length.\<close>

definition page_edges_from :: "'n list \<Rightarrow> int option \<Rightarrow> int option \<Rightarrow> 'n list outcome" where
  "page_edges_from edges first lst =
     (case first of
        Some f \<Rightarrow>
          if int (length edges) > f
          then (if f < 0 then Panic SliceBounds else Ok (take (nat f) edges))
          else (case lst of
                  Some l \<Rightarrow>
                    if int (length edges) > l
                    then (if l < 0 then Panic SliceBounds
                          else Ok (drop (length edges - nat l) edges))
                    else Ok edges
                | None \<Rightarrow> Ok edges)
      | None \<Rightarrow>
          (case lst of
             Some l \<Rightarrow>
               if int (length edges) > l
               then (if l < 0 then Panic SliceBounds
                     else Ok (drop (length edges - nat l) edges))
               else Ok edges
           | None \<Rightarrow> Ok edges))"

definition page_info_from :: "('n \<Rightarrow> string outcome) \<Rightarrow> 'n list \<Rightarrow> 'n list \<Rightarrow> int outcome option
    \<Rightarrow> int option \<Rightarrow> int option \<Rightarrow> page_info outcome" where
  "page_info_from pn cursor_edges edges_paged countF first lst =
     bind_out
       (case edges_paged of
          [] \<Rightarrow> Ok ('''', '''')
        | e # es \<Rightarrow>
            bind_out (pn e) (\<lambda>s.
              bind_out (pn (last edges_paged)) (\<lambda>t. Ok (s, t))))
       (\<lambda>(s, t).
         bind_out
           (case countF of
              None \<Rightarrow> Ok None
            | Some count \<Rightarrow> bind_out count (\<lambda>total. Ok (Some total)))
           (\<lambda>total.
             Ok \<lparr>pi_total = total,
                 pi_size = length edges_paged,
                 pi_has_previous_page =
                   (case lst of None \<Rightarrow> False | Some l \<Rightarrow> int (length cursor_edges) > l),
                 pi_has_next_page =
                   (case first of None \<Rightarrow> False | Some f \<Rightarrow> int (length cursor_edges) > f),
                 pi_start_cursor = s,
                 pi_end_cursor = t\<rparr>))"

definition page_from :: "('n \<Rightarrow> string outcome) \<Rightarrow> 'n list \<Rightarrow> int outcome option \<Rightarrow> string option
    \<Rightarrow> string option \<Rightarrow> int option \<Rightarrow> int option \<Rightarrow> ('n list \<times> page_info) outcome" where
  "page_from pn all_edges countF before after first lst =
     bind_out (apply_cursors pn all_edges before after) (\<lambda>cursor_edges.
       bind_out (page_edges_from cursor_edges first lst) (\<lambda>edges_paged.
         bind_out (page_info_from pn cursor_edges edges_paged countF first lst) (\<lambda>info.
           Ok (edges_paged, info))))"

section \<open>The keyset paginator\<close>

text \<open>The in-place reversal loop with its two indices.\<close>

function reverse_loop :: "nat \<Rightarrow> nat \<Rightarrow> 'n list \<Rightarrow> 'n list" where
  "reverse_loop i j xs =
     (if i < j then reverse_loop (i + 1) (j - 1) (xs[i := xs ! j, j := xs ! i]) else xs)"
  by pat_completeness auto
termination
  by (relation "measure (\<lambda>(i, j, xs). j)") auto

declare reverse_loop.simps [simp del]

text \<open>
  \<^verbatim>\<open>limit\<close> is an int and the query takes \<^verbatim>\<open>int32(limit)\<close>, which keeps its low 32 bits.
  Dereferencing \<^verbatim>\<open>last\<close> when both are nil panics; the validators rule that out.
\<close>

definition query_limit :: "int option \<Rightarrow> int option \<Rightarrow> i32 outcome" where
  "query_limit first lst =
     (case first of
        Some f \<Rightarrow> Ok (word_of_int (1 + f))
      | None \<Rightarrow> (case lst of Some l \<Rightarrow> Ok (word_of_int (1 + l)) | None \<Rightarrow> Panic NilDeref))"

definition keyset_paginate :: "(i32 \<Rightarrow> bool \<Rightarrow> 'n list outcome) \<Rightarrow> ('n \<Rightarrow> string outcome)
    \<Rightarrow> int outcome option \<Rightarrow> string option \<Rightarrow> string option \<Rightarrow> int option \<Rightarrow> int option
    \<Rightarrow> ('n list \<times> page_info) outcome" where
  "keyset_paginate queryF pn countF before after first lst =
     bind_out (query_limit first lst) (\<lambda>limit.
       let paging_forward = (first \<noteq> None) in
       bind_out (queryF limit paging_forward) (\<lambda>results.
         let results' = (if paging_forward then results
                         else reverse_loop 0 (length results - 1) results) in
         page_from pn results' countF before after first lst))"

text \<open>Decoding an optional cursor string into a cursor that holds defaults.\<close>

definition unpack_opt :: "('c \<Rightarrow> string \<Rightarrow> 'c outcome) \<Rightarrow> 'c \<Rightarrow> string option \<Rightarrow> 'c outcome" where
  "unpack_opt up c s = (case s of None \<Rightarrow> Ok c | Some x \<Rightarrow> up c x)"

section \<open>TimeIDPaginator and sharedFollowersPaginator\<close>

record time_id_paging_params =
  tip_limit :: i32
  tip_before_time :: go_time
  tip_before_id :: string
  tip_after_time :: go_time
  tip_after_id :: string
  tip_forward :: bool

type_synonym time_id_opt = "time_id_cursor \<times> time_id_cursor \<Rightarrow> time_id_cursor \<times> time_id_cursor"

definition with_default_cursor_time :: "go_time \<Rightarrow> go_time \<Rightarrow> time_id_opt" where
  "with_default_cursor_time before after =
     (\<lambda>(b, a). (b\<lparr>ti_time := before\<rparr>, a\<lparr>ti_time := after\<rparr>))"

definition new_time_id_cursor :: "('n \<Rightarrow> (go_time \<times> string) outcome) \<Rightarrow> 'n \<Rightarrow> time_id_cursor outcome" where
  "new_time_id_cursor f node =
     bind_out (f node) (\<lambda>(t, d). Ok \<lparr>ti_time = t, ti_id = d\<rparr>)"

definition time_id_query :: "(time_id_paging_params \<Rightarrow> 'n list outcome)
    \<Rightarrow> time_id_cursor \<times> time_id_cursor \<Rightarrow> string option \<Rightarrow> string option
    \<Rightarrow> i32 \<Rightarrow> bool \<Rightarrow> 'n list outcome" where
  "time_id_query queryF curs before after limit forward =
     bind_out (unpack_opt unpack_time_id (fst curs) before) (\<lambda>b.
       bind_out (unpack_opt unpack_time_id (snd curs) after) (\<lambda>a.
         queryF \<lparr>tip_limit = limit, tip_before_time = ti_time b, tip_before_id = ti_id b,
                 tip_after_time = ti_time a, tip_after_id = ti_id a, tip_forward = forward\<rparr>))"

definition time_id_paginate :: "(time_id_paging_params \<Rightarrow> 'n list outcome)
    \<Rightarrow> ('n \<Rightarrow> (go_time \<times> string) outcome) \<Rightarrow> int outcome option
    \<Rightarrow> string option \<Rightarrow> string option \<Rightarrow> int option \<Rightarrow> int option \<Rightarrow> time_id_opt list
    \<Rightarrow> ('n list \<times> page_info) outcome" where
  "time_id_paginate queryF cursorF countF before after first lst opts =
     (let defaults =
        (\<lparr>ti_time = default_cursor_before_time, ti_id = default_cursor_before_id\<rparr>,
         \<lparr>ti_time = default_cursor_after_time, ti_id = default_cursor_after_id\<rparr>) in
      keyset_paginate
        (time_id_query queryF (fold (\<lambda>opt c. opt c) opts defaults) before after)
        (pack_node (\<lambda>c. pack (time_id_vals c)) (new_time_id_cursor cursorF))
        countF before after first lst)"

text \<open>The shared followers query sorts in descending order, so its defaults are swapped.\<close>

definition shared_followers_paginate :: "(time_id_paging_params \<Rightarrow> 'n list outcome)
    \<Rightarrow> ('n \<Rightarrow> (go_time \<times> string) outcome) \<Rightarrow> int outcome option
    \<Rightarrow> string option \<Rightarrow> string option \<Rightarrow> int option \<Rightarrow> int option
    \<Rightarrow> ('n list \<times> page_info) outcome" where
  "shared_followers_paginate queryF cursorF countF before after first lst =
     keyset_paginate
       (time_id_query queryF
          (\<lparr>ti_time = default_cursor_after_time, ti_id = default_cursor_before_id\<rparr>,
           \<lparr>ti_time = default_cursor_before_time, ti_id = default_cursor_after_id\<rparr>) before after)
       (pack_node (\<lambda>c. pack (time_id_vals c)) (new_time_id_cursor cursorF))
       countF before after first lst"

section \<open>boolIDFloatIDPaginator\<close>

record bool_id_float_id_paging_params =
  bifp_limit :: i32
  bifp_before_bool :: bool
  bifp_before_id1 :: string
  bifp_before_float :: f64
  bifp_before_id2 :: string
  bifp_after_bool :: bool
  bifp_after_id1 :: string
  bifp_after_float :: f64
  bifp_after_id2 :: string
  bifp_forward :: bool

definition new_bool_id_float_id_cursor ::
    "('n \<Rightarrow> (bool \<times> string \<times> f64 \<times> string) outcome) \<Rightarrow> 'n \<Rightarrow> bool_id_float_id_cursor outcome" where
  "new_bool_id_float_id_cursor f node =
     bind_out (f node) (\<lambda>(b, d1, x, d2).
       Ok \<lparr>bifi_bool = b, bifi_id1 = d1, bifi_float = x, bifi_id2 = d2\<rparr>)"

text \<open>The zero value of the cursor; the code sets \<^verbatim>\<open>ID1\<close> of the before cursor twice and
  leaves its \<^verbatim>\<open>ID2\<close> at the zero value, which is the same default.\<close>

definition bool_id_float_id_zero :: bool_id_float_id_cursor where
  "bool_id_float_id_zero = \<lparr>bifi_bool = False, bifi_id1 = '''', bifi_float = 0, bifi_id2 = ''''\<rparr>"

definition bool_id_float_id_paginate ::
    "(bool_id_float_id_paging_params \<Rightarrow> 'n list outcome)
    \<Rightarrow> ('n \<Rightarrow> (bool \<times> string \<times> f64 \<times> string) outcome) \<Rightarrow> int outcome option
    \<Rightarrow> string option \<Rightarrow> string option \<Rightarrow> int option \<Rightarrow> int option
    \<Rightarrow> ('n list \<times> page_info) outcome" where
  "bool_id_float_id_paginate queryF cursorF countF before after first lst =
     (let before0 = bool_id_float_id_zero\<lparr>bifi_bool := True, bifi_id1 := default_cursor_before_id,
            bifi_float := default_cursor_before_float\<rparr>;
          after0 = bool_id_float_id_zero\<lparr>bifi_bool := False, bifi_id1 := default_cursor_after_id,
            bifi_float := default_cursor_after_float, bifi_id2 := default_cursor_after_id\<rparr>;
          queryFunc = (\<lambda>limit forward.
            bind_out (unpack_opt unpack_bool_id_float_id before0 before) (\<lambda>b.
              bind_out (unpack_opt unpack_bool_id_float_id after0 after) (\<lambda>a.
                queryF \<lparr>bifp_limit = limit,
                  bifp_before_bool = bifi_bool b, bifp_before_id1 = bifi_id1 b,
                  bifp_before_float = bifi_float b, bifp_before_id2 = bifi_id2 b,
                  bifp_after_bool = bifi_bool a, bifp_after_id1 = bifi_id1 a,
                  bifp_after_float = bifi_float a, bifp_after_id2 = bifi_id2 a,
                  bifp_forward = forward\<rparr>)))
      in keyset_paginate queryFunc
           (pack_node (\<lambda>c. pack (bool_id_float_id_vals c)) (new_bool_id_float_id_cursor cursorF))
           countF before after first lst)"

section \<open>sharedCommunitiesPaginator\<close>

record shared_communities_params =
  scp_limit :: i32
  scp_before_displayed_a :: bool
  scp_before_displayed_b :: bool
  scp_before_owned_count :: i64
  scp_before_community_id :: string
  scp_after_displayed_a :: bool
  scp_after_displayed_b :: bool
  scp_after_owned_count :: i64
  scp_after_community_id :: string
  scp_forward :: bool

definition new_bool_bool_int_id_cursor ::
    "('n \<Rightarrow> (bool \<times> bool \<times> i64 \<times> string) outcome) \<Rightarrow> 'n \<Rightarrow> bool_bool_int_id_cursor outcome" where
  "new_bool_bool_int_id_cursor f node =
     bind_out (f node) (\<lambda>(b1, b2, i, d).
       Ok \<lparr>bbii_bool1 = b1, bbii_bool2 = b2, bbii_int = i, bbii_id = d\<rparr>)"

definition shared_communities_paginate :: "(shared_communities_params \<Rightarrow> 'n list outcome)
    \<Rightarrow> ('n \<Rightarrow> (bool \<times> bool \<times> i64 \<times> string) outcome) \<Rightarrow> int outcome option
    \<Rightarrow> string option \<Rightarrow> string option \<Rightarrow> int option \<Rightarrow> int option
    \<Rightarrow> ('n list \<times> page_info) outcome" where
  "shared_communities_paginate queryF cursorF countF before after first lst =
     (let before0 = \<lparr>bbii_bool1 = False, bbii_bool2 = False, bbii_int = - 1,
            bbii_id = default_cursor_before_id\<rparr>;
          after0 = \<lparr>bbii_bool1 = True, bbii_bool2 = True, bbii_int = 2147483647,
            bbii_id = default_cursor_after_id\<rparr>;
          queryFunc = (\<lambda>limit forward.
            bind_out (unpack_opt unpack_bool_bool_int_id before0 before) (\<lambda>b.
              bind_out (unpack_opt unpack_bool_bool_int_id after0 after) (\<lambda>a.
                queryF \<lparr>scp_limit = limit,
                  scp_before_displayed_a = bbii_bool1 b, scp_before_displayed_b = bbii_bool2 b,
                  scp_before_owned_count = bbii_int b, scp_before_community_id = bbii_id b,
                  scp_after_displayed_a = bbii_bool1 a, scp_after_displayed_b = bbii_bool2 a,
                  scp_after_owned_count = bbii_int a, scp_after_community_id = bbii_id a,
                  scp_forward = forward\<rparr>)))
      in keyset_paginate queryFunc
           (pack_node (\<lambda>c. pack (bool_bool_int_id_vals c)) (new_bool_bool_int_id_cursor cursorF))
           countF before after first lst)"

section \<open>boolTimeIDPaginator\<close>

record bool_time_id_paging_params =
  btip_limit :: i32
  btip_before_bool :: bool
  btip_before_time :: go_time
  btip_before_id :: string
  btip_after_bool :: bool
  btip_after_time :: go_time
  btip_after_id :: string
  btip_forward :: bool

definition new_bool_time_id_cursor ::
    "('n \<Rightarrow> (bool \<times> go_time \<times> string) outcome) \<Rightarrow> 'n \<Rightarrow> bool_time_id_cursor outcome" where
  "new_bool_time_id_cursor f node =
     bind_out (f node) (\<lambda>(b, t, d). Ok \<lparr>bti_bool = b, bti_time = t, bti_id = d\<rparr>)"

definition bool_time_id_paginate :: "(bool_time_id_paging_params \<Rightarrow> 'n list outcome)
    \<Rightarrow> ('n \<Rightarrow> (bool \<times> go_time \<times> string) outcome) \<Rightarrow> int outcome option
    \<Rightarrow> string option \<Rightarrow> string option \<Rightarrow> int option \<Rightarrow> int option
    \<Rightarrow> ('n list \<times> page_info) outcome" where
  "bool_time_id_paginate queryF cursorF countF before after first lst =
     (let before0 = \<lparr>bti_bool = True, bti_time = default_cursor_before_time,
            bti_id = default_cursor_before_id\<rparr>;
          after0 = \<lparr>bti_bool = False, bti_time = default_cursor_after_time,
            bti_id = default_cursor_after_id\<rparr>;
          queryFunc = (\<lambda>limit forward.
            bind_out (unpack_opt unpack_bool_time_id before0 before) (\<lambda>b.
              bind_out (unpack_opt unpack_bool_time_id after0 after) (\<lambda>a.
                queryF \<lparr>btip_limit = limit,
                  btip_before_bool = bti_bool b, btip_before_time = bti_time b,
                  btip_before_id = bti_id b,
                  btip_after_bool = bti_bool a, btip_after_time = bti_time a,
                  btip_after_id = bti_id a, btip_forward = forward\<rparr>)))
      in keyset_paginate queryFunc
           (pack_node (\<lambda>c. pack (bool_time_id_vals c)) (new_bool_time_id_cursor cursorF))
           countF before after first lst)"

section \<open>lexicalPaginator\<close>

record lexical_paging_params =
  lxp_limit :: i32
  lxp_before_key :: string
  lxp_before_id :: string
  lxp_after_key :: string
  lxp_after_id :: string
  lxp_forward :: bool

definition new_string_id_cursor ::
    "('n \<Rightarrow> (string \<times> string) outcome) \<Rightarrow> 'n \<Rightarrow> string_id_cursor outcome" where
  "new_string_id_cursor f node =
     bind_out (f node) (\<lambda>(k, d). Ok \<lparr>si_string = k, si_id = d\<rparr>)"

definition lexical_paginate :: "(lexical_paging_params \<Rightarrow> 'n list outcome)
    \<Rightarrow> ('n \<Rightarrow> (string \<times> string) outcome) \<Rightarrow> int outcome option
    \<Rightarrow> string option \<Rightarrow> string option \<Rightarrow> int option \<Rightarrow> int option
    \<Rightarrow> ('n list \<times> page_info) outcome" where
  "lexical_paginate queryF cursorF countF before after first lst =
     (let before0 = \<lparr>si_string = default_cursor_before_key, si_id = default_cursor_before_id\<rparr>;
          after0 = \<lparr>si_string = default_cursor_after_key, si_id = default_cursor_after_id\<rparr>;
          queryFunc = (\<lambda>limit forward.
            bind_out (unpack_opt unpack_string_id before0 before) (\<lambda>b.
              bind_out (unpack_opt unpack_string_id after0 after) (\<lambda>a.
                queryF \<lparr>lxp_limit = limit,
                  lxp_before_key = si_string b, lxp_before_id = si_id b,
                  lxp_after_key = si_string a, lxp_after_id = si_id a, lxp_forward = forward\<rparr>)))
      in keyset_paginate queryFunc
           (pack_node (\<lambda>c. pack (string_id_vals c)) (new_string_id_cursor cursorF))
           countF before after first lst)"

section \<open>positionPaginator\<close>

record position_paging_params =
  pp_before_pos :: i32
  pp_after_pos :: i32

definition new_position_cursor ::
    "('n \<Rightarrow> (i64 \<times> string list) outcome) \<Rightarrow> 'n \<Rightarrow> position_cursor outcome" where
  "new_position_cursor f node =
     bind_out (f node) (\<lambda>(i, ds).
       Ok \<lparr>pc_current = i, pc_ids = ds, pc_positions = slice_to_map_index ds\<rparr>)"

definition new_feed_position_cursor ::
    "('n \<Rightarrow> (i64 \<times> i64 list \<times> string list) outcome) \<Rightarrow> 'n \<Rightarrow> feed_position_cursor outcome" where
  "new_feed_position_cursor f node =
     bind_out (f node) (\<lambda>(i, ts, ds).
       Ok \<lparr>fpc_current = i, fpc_types = ts, fpc_ids = ds,
          fpc_positions = slice_to_map_index ds\<rparr>)"

text \<open>The position a cursor string stands for, and the default without one.\<close>

definition position_of :: "int \<Rightarrow> string option \<Rightarrow> i32 outcome" where
  "position_of dflt s =
     (case s of
        None \<Rightarrow> Ok (word_of_int dflt)
      | Some x \<Rightarrow>
          bind_out (unpack_position \<lparr>pc_current = 0, pc_ids = [], pc_positions = Map.empty\<rparr> x)
            (\<lambda>c. Ok (ucast (pc_current c))))"

definition position_paginate :: "(position_paging_params \<Rightarrow> 'n list outcome)
    \<Rightarrow> ('n \<Rightarrow> (i64 \<times> string list) outcome)
    \<Rightarrow> string option \<Rightarrow> string option \<Rightarrow> int option \<Rightarrow> int option
    \<Rightarrow> ('n list \<times> page_info) outcome" where
  "position_paginate queryF cursorF before after first lst =
     bind_out (position_of default_cursor_before_position before) (\<lambda>b.
       bind_out (position_of default_cursor_after_position after) (\<lambda>a.
         bind_out (queryF \<lparr>pp_before_pos = b, pp_after_pos = a\<rparr>) (\<lambda>results.
           page_from (pack_node (\<lambda>c. pack (position_vals c)) (new_position_cursor cursorF))
             results None before after first lst)))"

section \<open>intTimeIDPaginator\<close>

record int_time_id_paging_params =
  itip_limit :: i32
  itip_before_int :: i32
  itip_before_time :: go_time
  itip_before_id :: string
  itip_after_int :: i32
  itip_after_time :: go_time
  itip_after_id :: string
  itip_forward :: bool

definition new_int_time_id_cursor ::
    "('n \<Rightarrow> (i64 \<times> go_time \<times> string) outcome) \<Rightarrow> 'n \<Rightarrow> int_time_id_cursor outcome" where
  "new_int_time_id_cursor f node =
     bind_out (f node) (\<lambda>(i, t, d). Ok \<lparr>iti_int = i, iti_time = t, iti_id = d\<rparr>)"

definition int_time_id_paginate :: "(int_time_id_paging_params \<Rightarrow> 'n list outcome)
    \<Rightarrow> ('n \<Rightarrow> (i64 \<times> go_time \<times> string) outcome) \<Rightarrow> int outcome option
    \<Rightarrow> string option \<Rightarrow> string option \<Rightarrow> int option \<Rightarrow> int option
    \<Rightarrow> ('n list \<times> page_info) outcome" where
  "int_time_id_paginate queryF cursorF countF before after first lst =
     (let before0 = \<lparr>iti_int = 2147483647, iti_time = default_cursor_before_time,
            iti_id = default_cursor_before_id\<rparr>;
          after0 = \<lparr>iti_int = 0, iti_time = default_cursor_after_time,
            iti_id = default_cursor_after_id\<rparr>;
          queryFunc = (\<lambda>limit forward.
            bind_out (unpack_opt unpack_int_time_id before0 before) (\<lambda>b.
              bind_out (unpack_opt unpack_int_time_id after0 after) (\<lambda>a.
                queryF \<lparr>itip_limit = limit,
                  itip_before_int = ucast (iti_int b), itip_before_time = iti_time b,
                  itip_before_id = iti_id b,
                  itip_after_int = ucast (iti_int a), itip_after_time = iti_time a,
                  itip_after_id = iti_id a, itip_forward = forward\<rparr>)))
      in keyset_paginate queryFunc
           (pack_node (\<lambda>c. pack (int_time_id_vals c)) (new_int_time_id_cursor cursorF))
           countF before after first lst)"

end
