(* ===== verification/PaginationProps.thy ===== *)
theory PaginationProps
  imports Pagination
begin

text \<open>
  What the paginators guarantee. A database that honours the keyset contract (the rows
  strictly between the two cursors, in the direction asked for, at most the limit) is
  described by \<open>key_window\<close>, the \<^verbatim>\<open>WHERE\<close>, \<^verbatim>\<open>ORDER BY\<close> and \<^verbatim>\<open>LIMIT\<close> of the paging queries.
  The locale \<open>keyset_pager\<close> is the contract of a paginator over such a table: which rows a
  page holds and what its page information says. Its client lemmas show that following the
  cursors of the pages visits every row exactly once, forward and backward.
\<close>

section \<open>Pieces of a page\<close>

lemma reverse_loop_nth:
  "j < length xs \<Longrightarrow> length (reverse_loop i j xs) = length xs \<and>
     (\<forall>k < length xs. reverse_loop i j xs ! k
        = (if i \<le> k \<and> k \<le> j then xs ! (i + j - k) else xs ! k))"
proof (induction i j xs rule: reverse_loop.induct)
  case (1 i j xs)
  show ?case
  proof (cases "i < j")
    case False
    then have "i + j - k = k" if "i \<le> k" "k \<le> j" for k using that by linarith
    then have "xs ! k = (if i \<le> k \<and> k \<le> j then xs ! (i + j - k) else xs ! k)" for k by simp
    with False show ?thesis by (simp add: reverse_loop.simps [of i j xs])
  next
    case True
    let ?ys = "xs[i := xs ! j, j := xs ! i]"
    have IH: "length (reverse_loop (i + 1) (j - 1) ?ys) = length xs"
      "\<And>k. k < length xs \<Longrightarrow> reverse_loop (i + 1) (j - 1) ?ys ! k
        = (if i + 1 \<le> k \<and> k \<le> j - 1 then ?ys ! (i + 1 + (j - 1) - k) else ?ys ! k)"
      using "1.IH" [OF True] "1.prems" by auto
    have "reverse_loop (i + 1) (j - 1) ?ys ! k
        = (if i \<le> k \<and> k \<le> j then xs ! (i + j - k) else xs ! k)" if k: "k < length xs" for k
    proof -
      consider "k = i" | "k = j" | "i < k \<and> k < j" | "k < i \<or> j < k" by linarith
      then show ?thesis
        using IH(2) [OF k] True "1.prems" k by cases (auto simp: nth_list_update)
    qed
    with True IH(1) show ?thesis by (simp add: reverse_loop.simps [of i j xs])
  qed
qed

lemma reverse_loop_all [simp]: "reverse_loop 0 (length xs - 1) xs = rev xs"
proof (cases "xs = []")
  case True
  then show ?thesis by (simp add: reverse_loop.simps [of 0 0 "[]"])
next
  case False
  then have "length xs - 1 < length xs" by simp
  from reverse_loop_nth [OF this, of 0]
  have "length (reverse_loop 0 (length xs - 1) xs) = length xs"
    "\<And>k. k < length xs \<Longrightarrow> reverse_loop 0 (length xs - 1) xs ! k = xs ! (length xs - 1 - k)"
    by auto
  then show ?thesis
    by (intro nth_equalityI) (simp_all add: rev_nth)
qed

lemma scan_for_cursor_index:
  assumes "\<And>e. e \<in> set es \<Longrightarrow> pn e = Ok (cur e)"
  shows "scan_for_cursor pn c i es = Ok (find_index_from i (\<lambda>e. cur e = c) es)"
  using assms by (induction es arbitrary: i) simp_all

lemma apply_cursors_absent:
  assumes "\<And>e. e \<in> set es \<Longrightarrow> pn e = Ok (cur e)"
    and "\<And>e. e \<in> set es \<Longrightarrow> before \<noteq> Some (cur e) \<and> after \<noteq> Some (cur e)"
  shows "apply_cursors pn es before after = Ok es"
proof -
  have "scan_for_cursor pn c 0 es = Ok None" if "before = Some c \<or> after = Some c" for c
  proof -
    have "find_index_from 0 (\<lambda>e. cur e = c) es = None"
      using assms(2) that by (auto simp: find_index_from_None)
    with scan_for_cursor_index [where cur = cur, OF assms(1)] show ?thesis by simp
  qed
  then show ?thesis by (simp add: apply_cursors_def split: option.split)
qed

lemma page_edges_forward:
  "0 \<le> f \<Longrightarrow> page_edges_from es (Some f) None = Ok (take (nat f) es)"
  by (auto simp: page_edges_from_def)

lemma page_edges_backward:
  "0 \<le> l \<Longrightarrow> page_edges_from es None (Some l) = Ok (drop (length es - nat l) es)"
  by (auto simp: page_edges_from_def)

lemma apply_cursors_total:
  assumes "\<And>e. e \<in> set es \<Longrightarrow> is_ok (pn e)"
  shows "\<exists>edges. apply_cursors pn es before after = Ok edges \<and> set edges \<subseteq> set es"
proof -
  obtain cur where cur: "\<And>e. e \<in> set es \<Longrightarrow> pn e = Ok (cur e)"
    using assms unfolding is_ok_iff by metis
  have scan: "scan_for_cursor pn c 0 xs = Ok (find_index_from 0 (\<lambda>e. cur e = c) xs)"
    if "set xs \<subseteq> set es" for c xs
    using that cur by (intro scan_for_cursor_index) auto
  define es' where "es' = (case after of None \<Rightarrow> es
    | Some a \<Rightarrow> (case find_index_from 0 (\<lambda>e. cur e = a) es of None \<Rightarrow> es | Some i \<Rightarrow> drop (i + 1) es))"
  have sub: "set es' \<subseteq> set es"
    by (auto simp: es'_def split: option.split dest: in_set_dropD)
  have "apply_cursors pn es before after = (case before of None \<Rightarrow> Ok es'
    | Some b \<Rightarrow> Ok (case find_index_from 0 (\<lambda>e. cur e = b) es' of None \<Rightarrow> es' | Some i \<Rightarrow> take i es'))"
    using scan [OF sub] scan [OF subset_refl]
    by (auto simp: apply_cursors_def es'_def split: option.split)
  with sub show ?thesis
    by (auto split: option.split dest: in_set_takeD)
qed

text \<open>A page as the client sees it.\<close>

definition page_result :: "int option \<Rightarrow> ('n \<Rightarrow> string) \<Rightarrow> 'n list \<Rightarrow> bool \<Rightarrow> bool
    \<Rightarrow> 'n list \<times> page_info" where
  "page_result tot cur es has_prev has_next =
     (es, \<lparr>pi_total = tot, pi_size = length es, pi_has_previous_page = has_prev,
           pi_has_next_page = has_next,
           pi_start_cursor = (if es = [] then '''' else cur (hd es)),
           pi_end_cursor = (if es = [] then '''' else cur (last es))\<rparr>)"

lemma page_info_from_ok:
  assumes "\<And>e. e \<in> set es \<Longrightarrow> pn e = Ok (cur e)"
  shows "bind_out (page_info_from pn ce es (map_option Ok tot) first lst) (\<lambda>info. Ok (es, info))
    = Ok (page_result tot cur es
        (case lst of None \<Rightarrow> False | Some l \<Rightarrow> int (length ce) > l)
        (case first of None \<Rightarrow> False | Some f \<Rightarrow> int (length ce) > f))"
proof (cases es)
  case Nil
  then show ?thesis by (cases tot) (simp_all add: page_info_from_def page_result_def)
next
  case (Cons e es')
  moreover have "pn (last es) = Ok (cur (last es))" "pn e = Ok (cur e)"
    using assms Cons by auto
  ultimately show ?thesis by (cases tot) (simp_all add: page_info_from_def page_result_def)
qed

section \<open>Tables and the keyset contract\<close>

text \<open>
  A table as a paging query sees it: the order of its keys, the key of a row, and its rows in
  ascending order. A key is the cursor the paginator writes for the row.
\<close>

record ('n, 'c) key_table =
  tb_less :: "'c \<Rightarrow> 'c \<Rightarrow> bool"
  tb_key :: "'n \<Rightarrow> 'c"
  tb_rows :: "'n list"

definition key_window :: "('n, 'c) key_table \<Rightarrow> 'c \<Rightarrow> 'c \<Rightarrow> i32 \<Rightarrow> bool \<Rightarrow> 'n list" where
  "key_window db lo hi limit forward =
     (let w = filter (\<lambda>r. tb_less db lo (tb_key db r) \<and> tb_less db (tb_key db r) hi) (tb_rows db)
      in take (nat (sint limit)) (if forward then w else rev w))"

text \<open>
  The order is a strict order, the rows are sorted by it (so their keys are distinct), and
  every key can be sent as a cursor and lies between the two default cursors.
\<close>

definition table_ok :: "('c \<Rightarrow> bool) \<Rightarrow> 'c \<Rightarrow> 'c \<Rightarrow> ('n, 'c) key_table \<Rightarrow> bool" where
  "table_ok valid lo hi db \<longleftrightarrow>
     (\<forall>x. \<not> tb_less db x x) \<and>
     (\<forall>x y z. tb_less db x y \<longrightarrow> tb_less db y z \<longrightarrow> tb_less db x z) \<and>
     sorted_wrt (\<lambda>r q. tb_less db (tb_key db r) (tb_key db q)) (tb_rows db) \<and>
     (\<forall>r \<in> set (tb_rows db). valid (tb_key db r) \<and>
        tb_less db lo (tb_key db r) \<and> tb_less db (tb_key db r) hi)"

definition cursor_text :: "('c \<Rightarrow> string outcome) \<Rightarrow> 'c \<Rightarrow> string" where
  "cursor_text pk c = (case pk c of Ok s \<Rightarrow> s | _ \<Rightarrow> '''')"

text \<open>The cursors around the rows \<open>i\<close> to \<open>j - 1\<close>; none at the two ends of the table.\<close>

definition after_row :: "('n \<Rightarrow> string) \<Rightarrow> 'n list \<Rightarrow> nat \<Rightarrow> string option" where
  "after_row cur rows i = (if i = 0 then None else Some (cur (rows ! (i - 1))))"

definition before_row :: "('n \<Rightarrow> string) \<Rightarrow> 'n list \<Rightarrow> nat \<Rightarrow> string option" where
  "before_row cur rows j = (if j < length rows then Some (cur (rows ! j)) else None)"

definition key_bound_lo :: "('n, 'c) key_table \<Rightarrow> 'c \<Rightarrow> nat \<Rightarrow> 'c" where
  "key_bound_lo db lo i = (if i = 0 then lo else tb_key db (tb_rows db ! (i - 1)))"

definition key_bound_hi :: "('n, 'c) key_table \<Rightarrow> 'c \<Rightarrow> nat \<Rightarrow> 'c" where
  "key_bound_hi db hi j = (if j < length (tb_rows db) then tb_key db (tb_rows db ! j) else hi)"

lemma table_key_less_iff:
  assumes "table_ok valid lo hi db" and "i < length (tb_rows db)" and "j < length (tb_rows db)"
  shows "tb_less db (tb_key db (tb_rows db ! i)) (tb_key db (tb_rows db ! j)) \<longleftrightarrow> i < j"
proof -
  have less: "tb_less db (tb_key db (tb_rows db ! a)) (tb_key db (tb_rows db ! b))"
    if "a < b" "b < length (tb_rows db)" for a b
    using assms(1) that by (auto simp: table_ok_def sorted_wrt_iff_nth_less)
  have irr: "\<not> tb_less db x x" for x using assms(1) by (simp add: table_ok_def)
  have tr: "tb_less db x y \<Longrightarrow> tb_less db y z \<Longrightarrow> tb_less db x z" for x y z
    using assms(1) unfolding table_ok_def by blast
  show ?thesis
    using less [of i j] less [of j i] irr tr assms(2,3) by (metis linorder_neqE_nat)
qed

lemma filter_index_interval:
  assumes "\<And>k. k < length xs \<Longrightarrow> P (xs ! k) \<longleftrightarrow> i \<le> k \<and> k < j" and "i \<le> j" "j \<le> length xs"
  shows "filter P xs = drop i (take j xs)"
proof -
  have split: "xs = take i xs @ drop i (take j xs) @ drop j xs"
    using assms(2) by (metis append.assoc append_take_drop_id min.absorb1 take_take)
  have "filter P (take i xs) = []"
    using assms by (auto simp: filter_empty_conv in_set_conv_nth)
  moreover have "filter P (drop j xs) = []"
    using assms by (auto simp: filter_empty_conv in_set_conv_nth)
  moreover have "filter P (drop i (take j xs)) = drop i (take j xs)"
    using assms by (auto simp: filter_id_conv in_set_conv_nth)
  ultimately show ?thesis
    by (subst split) (simp only: filter_append append_Nil append_Nil2)
qed

lemma table_window:
  assumes ok: "table_ok valid lo hi db" and "i \<le> j" "j \<le> length (tb_rows db)"
  shows "filter (\<lambda>r. tb_less db (key_bound_lo db lo i) (tb_key db r) \<and>
      tb_less db (tb_key db r) (key_bound_hi db hi j)) (tb_rows db) = drop i (take j (tb_rows db))"
proof (rule filter_index_interval)
  fix k
  assume k: "k < length (tb_rows db)"
  have "tb_less db (key_bound_lo db lo i) (tb_key db (tb_rows db ! k)) \<longleftrightarrow> i \<le> k"
  proof (cases "i = 0")
    case True
    with ok k show ?thesis by (simp add: key_bound_lo_def table_ok_def)
  next
    case False
    with table_key_less_iff [OF ok, of "i - 1" k] k assms(2,3) show ?thesis
      by (auto simp: key_bound_lo_def)
  qed
  moreover have "tb_less db (tb_key db (tb_rows db ! k)) (key_bound_hi db hi j) \<longleftrightarrow> k < j"
  proof (cases "j < length (tb_rows db)")
    case True
    with table_key_less_iff [OF ok k True] show ?thesis by (simp add: key_bound_hi_def)
  next
    case False
    with ok k assms(3) show ?thesis by (simp add: key_bound_hi_def table_ok_def)
  qed
  ultimately show "(tb_less db (key_bound_lo db lo i) (tb_key db (tb_rows db ! k)) \<and>
      tb_less db (tb_key db (tb_rows db ! k)) (key_bound_hi db hi j)) \<longleftrightarrow> i \<le> k \<and> k < j"
    by simp
qed (use assms in auto)

section \<open>The keyset paginator over a table\<close>

definition key_query :: "('c \<Rightarrow> string \<Rightarrow> 'c outcome) \<Rightarrow> ('n, 'c) key_table \<Rightarrow> 'c \<Rightarrow> 'c
    \<Rightarrow> string option \<Rightarrow> string option \<Rightarrow> i32 \<Rightarrow> bool \<Rightarrow> 'n list outcome" where
  "key_query up db b0 a0 before after limit forward =
     bind_out (unpack_opt up b0 before) (\<lambda>b. bind_out (unpack_opt up a0 after) (\<lambda>a.
       Ok (key_window db a b limit forward)))"

definition page_limit_ok :: "int \<Rightarrow> bool" where
  "page_limit_ok n \<longleftrightarrow> 0 < n \<and> n < 2 ^ 31 - 1"

lemma sint_page_limit: "page_limit_ok n \<Longrightarrow> sint (word_of_int (1 + n) :: i32) = 1 + n"
  by (simp only: page_limit_ok_def sint_sbintrunc') (simp add: signed_take_bit_int_eq_self)

lemma cursor_text_Ok:
  assumes "cursor_codec pk up valid" and "valid c"
  shows "pk c = Ok (cursor_text pk c)" and "cursor_text pk c \<noteq> ''''"
    and "up d (cursor_text pk c) = Ok c"
proof -
  obtain s where s: "pk c = Ok s" "s \<noteq> []" using assms by (meson cursor_codec.pack_total)
  then show "pk c = Ok (cursor_text pk c)" "cursor_text pk c \<noteq> ''''"
    by (simp_all add: cursor_text_def)
  then show "up d (cursor_text pk c) = Ok c" using assms by (meson cursor_codec.unpack_pack)
qed

lemma cursor_text_inj:
  assumes "cursor_codec pk up valid" and "valid c" "valid d" and "cursor_text pk c = cursor_text pk d"
  shows "c = d"
  using cursor_codec.pack_injective [OF assms(1-3)] cursor_text_Ok(1) [OF assms(1)] assms by metis

definition row_cursor :: "('c \<Rightarrow> string outcome) \<Rightarrow> ('n, 'c) key_table \<Rightarrow> 'n \<Rightarrow> string" where
  "row_cursor pk db r = cursor_text pk (tb_key db r)"

lemma row_cursor_nth_inj:
  assumes "cursor_codec pk up valid" and ok: "table_ok valid lo hi db"
    and k: "k < length (tb_rows db)" "k' < length (tb_rows db)"
    and "row_cursor pk db (tb_rows db ! k) = row_cursor pk db (tb_rows db ! k')"
  shows "k = k'"
proof -
  have "valid (tb_key db (tb_rows db ! k))" "valid (tb_key db (tb_rows db ! k'))"
    using ok k by (simp_all add: table_ok_def)
  with assms have "tb_key db (tb_rows db ! k) = tb_key db (tb_rows db ! k')"
    by (auto simp: row_cursor_def intro: cursor_text_inj)
  with table_key_less_iff [OF ok k] table_key_less_iff [OF ok k(2,1)]
    table_key_less_iff [OF ok k(1,1)]
  show ?thesis by simp
qed

lemma key_query_at:
  assumes codec: "cursor_codec pk up valid" and ok: "table_ok valid lo hi db"
    and ij: "i \<le> j" "j \<le> length (tb_rows db)"
  shows "key_query up db hi lo (before_row (row_cursor pk db) (tb_rows db) j)
      (after_row (row_cursor pk db) (tb_rows db) i) limit forward
    = Ok (let w = drop i (take j (tb_rows db)) in take (nat (sint limit)) (if forward then w else rev w))"
proof -
  have valid: "valid (tb_key db (tb_rows db ! k))" if "k < length (tb_rows db)" for k
    using ok that by (simp add: table_ok_def)
  have "unpack_opt up hi (before_row (row_cursor pk db) (tb_rows db) j) = Ok (key_bound_hi db hi j)"
    using cursor_text_Ok(3) [OF codec valid [of j]]
    by (simp add: unpack_opt_def before_row_def key_bound_hi_def row_cursor_def [abs_def])
  moreover have "unpack_opt up lo (after_row (row_cursor pk db) (tb_rows db) i)
      = Ok (key_bound_lo db lo i)"
    using cursor_text_Ok(3) [OF codec valid [of "i - 1"]] ij
    by (auto simp: unpack_opt_def after_row_def key_bound_lo_def row_cursor_def [abs_def])
  ultimately show ?thesis
    by (simp add: key_query_def key_window_def table_window [OF ok ij])
qed

lemma window_rows_avoid_cursors:
  assumes codec: "cursor_codec pk up valid" and ok: "table_ok valid lo hi db"
    and ij: "i \<le> j" "j \<le> length (tb_rows db)" and e: "e \<in> set (drop i (take j (tb_rows db)))"
  shows "before_row (row_cursor pk db) (tb_rows db) j \<noteq> Some (row_cursor pk db e) \<and>
    after_row (row_cursor pk db) (tb_rows db) i \<noteq> Some (row_cursor pk db e)"
proof -
  obtain k where k: "i \<le> k" "k < j" "e = tb_rows db ! k"
  proof -
    from e obtain m where m: "m < length (drop i (take j (tb_rows db)))"
      "e = drop i (take j (tb_rows db)) ! m"
      by (auto simp only: in_set_conv_nth)
    with ij have "e = tb_rows db ! (i + m)" "i + m < j" by simp_all
    then show ?thesis using that [of "i + m"] by simp
  qed
  have "k = k'" if "k' < length (tb_rows db)"
    and "row_cursor pk db (tb_rows db ! k') = row_cursor pk db e" for k'
    using row_cursor_nth_inj [OF codec ok] that k ij by auto
  moreover have "k \<noteq> j" "i = 0 \<or> k \<noteq> i - 1" "i - 1 < length (tb_rows db)"
    using k(1,2) ij by auto
  ultimately show ?thesis
    unfolding before_row_def after_row_def by (metis option.distinct(1) option.inject)
qed

lemma pack_row_ok:
  assumes "cursor_codec pk up valid" and "table_ok valid lo hi db" and "e \<in> set (tb_rows db)"
  shows "pk (tb_key db e) = Ok (row_cursor pk db e)"
  using assms cursor_text_Ok(1) by (fastforce simp: table_ok_def row_cursor_def [abs_def])

lemma keyset_page_of_window:
  assumes codec: "cursor_codec pk up valid" and ok: "table_ok valid lo hi db"
    and ij: "i \<le> j" "j \<le> length (tb_rows db)"
    and es: "set es \<subseteq> set (drop i (take j (tb_rows db)))"
    and edges: "page_edges_from es first lst = Ok ps" "set ps \<subseteq> set es"
  shows "page_from (\<lambda>r. pk (tb_key db r)) es (map_option Ok tot)
      (before_row (row_cursor pk db) (tb_rows db) j) (after_row (row_cursor pk db) (tb_rows db) i)
      first lst
    = Ok (page_result tot (row_cursor pk db) ps
        (case lst of None \<Rightarrow> False | Some l \<Rightarrow> int (length es) > l)
        (case first of None \<Rightarrow> False | Some f \<Rightarrow> int (length es) > f))"
proof -
  have "set (drop i (take j (tb_rows db))) \<subseteq> set (tb_rows db)"
    by (meson order_trans set_drop_subset set_take_subset)
  with es pack_row_ok [OF codec ok]
  have pk: "pk (tb_key db e) = Ok (row_cursor pk db e)" if "e \<in> set es" for e
    using that by blast
  then have "apply_cursors (\<lambda>r. pk (tb_key db r)) es
      (before_row (row_cursor pk db) (tb_rows db) j) (after_row (row_cursor pk db) (tb_rows db) i)
    = Ok es"
    using es window_rows_avoid_cursors [OF codec ok ij]
    by (intro apply_cursors_absent [where cur = "row_cursor pk db"]) auto
  moreover have "pk (tb_key db e) = Ok (row_cursor pk db e)" if "e \<in> set ps" for e
    using pk edges(2) that by blast
  ultimately show ?thesis
    using edges(1) by (simp add: page_from_def page_info_from_ok [where cur = "row_cursor pk db"])
qed

lemma keyset_forward:
  assumes codec: "cursor_codec pk up valid" and ok: "table_ok valid lo hi db"
    and ij: "i \<le> j" "j \<le> length (tb_rows db)" and f: "page_limit_ok f"
  defines "w \<equiv> drop i (take j (tb_rows db))"
  shows "keyset_paginate (key_query up db hi lo (before_row (row_cursor pk db) (tb_rows db) j)
        (after_row (row_cursor pk db) (tb_rows db) i)) (\<lambda>r. pk (tb_key db r)) (map_option Ok tot)
      (before_row (row_cursor pk db) (tb_rows db) j) (after_row (row_cursor pk db) (tb_rows db) i)
      (Some f) None
    = Ok (page_result tot (row_cursor pk db) (take (nat f) w) False (int (length w) > f))"
proof -
  let ?es = "take (nat (1 + f)) w"
  have f0: "0 \<le> f" using f by (simp add: page_limit_ok_def)
  have "page_edges_from ?es (Some f) None = Ok (take (nat f) ?es)"
    by (rule page_edges_forward [OF f0])
  moreover have "take (nat f) ?es = take (nat f) w" using f0 by (simp add: min_def)
  ultimately have edges: "page_edges_from ?es (Some f) None = Ok (take (nat f) w)" by simp
  have sub: "set (take (nat f) w) \<subseteq> set ?es" by (rule set_take_subset_set_take) (use f0 in simp)
  have "set ?es \<subseteq> set w" by (rule set_take_subset)
  note page = keyset_page_of_window [OF codec ok ij this [unfolded w_def] edges [unfolded w_def]
      sub [unfolded w_def], folded w_def]
  have query: "key_query up db hi lo (before_row (row_cursor pk db) (tb_rows db) j)
      (after_row (row_cursor pk db) (tb_rows db) i) (word_of_int (1 + f)) True = Ok ?es"
    by (simp only: key_query_at [OF codec ok ij] sint_page_limit [OF f] w_def Let_def if_True)
  have more: "(int (length ?es) > f) = (int (length w) > f)" using f0 by auto
  show ?thesis
    by (simp only: keyset_paginate_def query_limit_def option.case bind_out.simps Let_def
        option.distinct not_False_eq_True simp_thms query if_True page more)
qed

lemma keyset_backward:
  assumes codec: "cursor_codec pk up valid" and ok: "table_ok valid lo hi db"
    and ij: "i \<le> j" "j \<le> length (tb_rows db)" and l: "page_limit_ok l"
  defines "w \<equiv> drop i (take j (tb_rows db))"
  shows "keyset_paginate (key_query up db hi lo (before_row (row_cursor pk db) (tb_rows db) j)
        (after_row (row_cursor pk db) (tb_rows db) i)) (\<lambda>r. pk (tb_key db r)) (map_option Ok tot)
      (before_row (row_cursor pk db) (tb_rows db) j) (after_row (row_cursor pk db) (tb_rows db) i)
      None (Some l)
    = Ok (page_result tot (row_cursor pk db) (drop (length w - nat l) w) (int (length w) > l) False)"
proof -
  let ?es = "drop (length w - nat (1 + l)) w"
  have l0: "0 \<le> l" using l by (simp add: page_limit_ok_def)
  have "page_edges_from ?es None (Some l) = Ok (drop (length ?es - nat l) ?es)"
    by (rule page_edges_backward [OF l0])
  moreover have "drop (length ?es - nat l) ?es = drop (length w - nat l) w"
    using l0 by (cases "length w \<le> nat l") (auto simp: nat_add_distrib Suc_diff_Suc)
  ultimately have edges: "page_edges_from ?es None (Some l) = Ok (drop (length w - nat l) w)" by simp
  have sub: "set (drop (length w - nat l) w) \<subseteq> set ?es"
    by (rule set_drop_subset_set_drop) (use l0 in simp)
  have "set ?es \<subseteq> set w" by (rule set_drop_subset)
  note page = keyset_page_of_window [OF codec ok ij this [unfolded w_def] edges [unfolded w_def]
      sub [unfolded w_def], folded w_def]
  have query: "key_query up db hi lo (before_row (row_cursor pk db) (tb_rows db) j)
      (after_row (row_cursor pk db) (tb_rows db) i) (word_of_int (1 + l)) False = Ok (rev ?es)"
    by (simp only: key_query_at [OF codec ok ij] sint_page_limit [OF l] w_def Let_def if_False
        simp_thms take_rev)
  have more: "(int (length ?es) > l) = (int (length w) > l)" using l0 by auto
  show ?thesis
    by (simp only: keyset_paginate_def query_limit_def option.case bind_out.simps Let_def
        simp_thms query if_False reverse_loop_all rev_rev_ident page more)
qed

section \<open>The contract of a keyset paginator\<close>

text \<open>
  A client that follows the cursors of the pages it gets, with fuel; \<open>None\<close> when the fuel
  runs out or a request fails. It collects the pages in the order it received them.
\<close>

fun follow_next :: "nat \<Rightarrow> (string option \<Rightarrow> ('n list \<times> page_info) outcome) \<Rightarrow> string option
    \<Rightarrow> 'n list list option" where
  "follow_next 0 fetch after = None"
| "follow_next (Suc fuel) fetch after =
     (case fetch after of
        Ok (rows, info) \<Rightarrow>
          if pi_has_next_page info
          then map_option ((#) rows) (follow_next fuel fetch (Some (pi_end_cursor info)))
          else Some [rows]
      | _ \<Rightarrow> None)"

fun follow_previous :: "nat \<Rightarrow> (string option \<Rightarrow> ('n list \<times> page_info) outcome) \<Rightarrow> string option
    \<Rightarrow> 'n list list option" where
  "follow_previous 0 fetch before = None"
| "follow_previous (Suc fuel) fetch before =
     (case fetch before of
        Ok (rows, info) \<Rightarrow>
          if pi_has_previous_page info
          then map_option ((#) rows) (follow_previous fuel fetch (Some (pi_start_cursor info)))
          else Some [rows]
      | _ \<Rightarrow> None)"

locale keyset_pager =
  fixes paginate :: "('n, 'c) key_table \<Rightarrow> int \<Rightarrow> string option \<Rightarrow> string option
      \<Rightarrow> int option \<Rightarrow> int option \<Rightarrow> ('n list \<times> page_info) outcome"
    and cur :: "('n, 'c) key_table \<Rightarrow> 'n \<Rightarrow> string"
    and good :: "('n, 'c) key_table \<Rightarrow> bool"
  assumes forward_page:
    "good db \<Longrightarrow> i \<le> j \<Longrightarrow> j \<le> length (tb_rows db) \<Longrightarrow> page_limit_ok f \<Longrightarrow>
      paginate db tot (before_row (cur db) (tb_rows db) j) (after_row (cur db) (tb_rows db) i)
        (Some f) None
      = Ok (let w = drop i (take j (tb_rows db))
            in page_result (Some tot) (cur db) (take (nat f) w) False (int (length w) > f))"
    and backward_page:
    "good db \<Longrightarrow> i \<le> j \<Longrightarrow> j \<le> length (tb_rows db) \<Longrightarrow> page_limit_ok l \<Longrightarrow>
      paginate db tot (before_row (cur db) (tb_rows db) j) (after_row (cur db) (tb_rows db) i)
        None (Some l)
      = Ok (let w = drop i (take j (tb_rows db))
            in page_result (Some tot) (cur db) (drop (length w - nat l) w) (int (length w) > l) False)"
begin

lemma no_before [simp]: "before_row (cur db) (tb_rows db) (length (tb_rows db)) = None"
  by (simp add: before_row_def)

lemma no_after [simp]: "after_row (cur db) (tb_rows db) 0 = None"
  by (simp add: after_row_def)

lemma follow_next_from:
  assumes ok: "good db" and f: "page_limit_ok f"
  shows "k \<le> length (tb_rows db) \<Longrightarrow> length (tb_rows db) - k < fuel \<Longrightarrow>
    \<exists>pages. follow_next fuel (\<lambda>c. paginate db tot None c (Some f) None)
        (after_row (cur db) (tb_rows db) k) = Some pages
      \<and> concat pages = drop k (tb_rows db) \<and> (\<forall>p \<in> set pages. length p \<le> nat f)"
proof (induction fuel arbitrary: k)
  case 0
  then show ?case by simp
next
  case (Suc fuel)
  let ?rows = "tb_rows db" and ?n = "length (tb_rows db)"
  have f0: "0 < nat f" "0 < f" using f by (simp_all add: page_limit_ok_def)
  from forward_page [OF ok Suc.prems(1) order.refl f, of tot]
  have page: "paginate db tot None (after_row (cur db) ?rows k) (Some f) None
      = Ok (page_result (Some tot) (cur db) (take (nat f) (drop k ?rows)) False (int (?n - k) > f))"
    by (simp add: Let_def)
  show ?case
  proof (cases "int (?n - k) > f")
    case False
    then have "take (nat f) (drop k ?rows) = drop k ?rows" using f0 by auto
    with False page show ?thesis by (simp add: page_result_def)
  next
    case True
    then have kf: "k + nat f < ?n" using Suc.prems(1) f0 by linarith
    have "last (take (nat f) (drop k ?rows)) = ?rows ! (k + nat f - 1)"
      using kf f0 by (subst last_conv_nth) (auto simp: min_def)
    then have "Some (pi_end_cursor (snd (page_result (Some tot) (cur db) (take (nat f) (drop k ?rows))
        False True))) = after_row (cur db) ?rows (k + nat f)"
      using kf f0 by (auto simp: page_result_def after_row_def)
    moreover obtain pages where
      "follow_next fuel (\<lambda>c. paginate db tot None c (Some f) None)
        (after_row (cur db) ?rows (k + nat f)) = Some pages"
      "concat pages = drop (k + nat f) ?rows" "\<forall>p \<in> set pages. length p \<le> nat f"
      using Suc.IH [of "k + nat f"] Suc.prems kf f0 by fastforce
    moreover have "drop k ?rows = take (nat f) (drop k ?rows) @ drop (k + nat f) ?rows"
      by (metis add.commute append_take_drop_id drop_drop)
    ultimately show ?thesis
      using page True by (auto simp: page_result_def)
  qed
qed

lemma follow_previous_from:
  assumes ok: "good db" and l: "page_limit_ok l"
  shows "k \<le> length (tb_rows db) \<Longrightarrow> k < fuel \<Longrightarrow>
    \<exists>pages. follow_previous fuel (\<lambda>c. paginate db tot c None None (Some l))
        (before_row (cur db) (tb_rows db) k) = Some pages
      \<and> concat (rev pages) = take k (tb_rows db) \<and> (\<forall>p \<in> set pages. length p \<le> nat l)"
proof (induction fuel arbitrary: k)
  case 0
  then show ?case by simp
next
  case (Suc fuel)
  let ?rows = "tb_rows db" and ?n = "length (tb_rows db)"
  have l0: "0 < nat l" "0 < l" using l by (simp_all add: page_limit_ok_def)
  from backward_page [OF ok le0 Suc.prems(1) l, of tot]
  have page: "paginate db tot (before_row (cur db) ?rows k) None None (Some l)
      = Ok (page_result (Some tot) (cur db) (drop (k - nat l) (take k ?rows)) (int k > l) False)"
    using Suc.prems(1) by (simp add: Let_def min_def)
  show ?case
  proof (cases "int k > l")
    case False
    then have "k - nat l = 0" by simp
    with False page show ?thesis using Suc.prems(1) by (auto simp: page_result_def)
  next
    case True
    then have kl: "k - nat l < k" "nat l < k" using l0 by auto
    then have "hd (drop (k - nat l) (take k ?rows)) = ?rows ! (k - nat l)"
      using Suc.prems(1) by (subst hd_drop_conv_nth) auto
    then have "Some (pi_start_cursor (snd (page_result (Some tot) (cur db)
        (drop (k - nat l) (take k ?rows)) True False))) = before_row (cur db) ?rows (k - nat l)"
      using kl Suc.prems(1) by (auto simp: page_result_def before_row_def)
    moreover obtain pages where
      "follow_previous fuel (\<lambda>c. paginate db tot c None None (Some l))
        (before_row (cur db) ?rows (k - nat l)) = Some pages"
      "concat (rev pages) = take (k - nat l) ?rows" "\<forall>p \<in> set pages. length p \<le> nat l"
      using Suc.IH [of "k - nat l"] Suc.prems kl by fastforce
    moreover have "take k ?rows = take (k - nat l) ?rows @ drop (k - nat l) (take k ?rows)"
      using kl by (metis append_take_drop_id less_imp_le_nat min.absorb1 take_take)
    ultimately show ?thesis
      using page True by (auto simp: page_result_def)
  qed
qed

lemma visits_all_forward:
  assumes "good db" and "page_limit_ok f"
  shows "\<exists>pages. follow_next (Suc (length (tb_rows db)))
      (\<lambda>c. paginate db tot None c (Some f) None) None = Some pages
      \<and> concat pages = tb_rows db \<and> (\<forall>p \<in> set pages. length p \<le> nat f)"
  using follow_next_from [OF assms, of 0 "Suc (length (tb_rows db))" tot] by simp

lemma visits_all_backward:
  assumes "good db" and "page_limit_ok l"
  shows "\<exists>pages. follow_previous (Suc (length (tb_rows db)))
      (\<lambda>c. paginate db tot c None None (Some l)) None = Some pages
      \<and> concat (rev pages) = tb_rows db \<and> (\<forall>p \<in> set pages. length p \<le> nat l)"
  using follow_previous_from [OF assms, of "length (tb_rows db)" "Suc (length (tb_rows db))" tot] by simp

end

lemma keyset_pager_intro:
  fixes pk :: "'c \<Rightarrow> string outcome" and paginate :: "('n, 'c) key_table \<Rightarrow> int \<Rightarrow> string option
    \<Rightarrow> string option \<Rightarrow> int option \<Rightarrow> int option \<Rightarrow> ('n list \<times> page_info) outcome"
  assumes "cursor_codec pk up valid"
    and "\<And>db tot before after first lst. paginate db tot before after first lst
      = keyset_paginate (key_query up db hi lo before after) (\<lambda>r. pk (tb_key db r))
          (Some (Ok tot)) before after first lst"
  shows "keyset_pager paginate (row_cursor pk) (table_ok valid lo hi)"
proof
  fix db :: "('n, 'c) key_table" and i j f tot
  assume a: "table_ok valid lo hi db" "i \<le> j" "j \<le> length (tb_rows db)" "page_limit_ok f"
  show "paginate db tot (before_row (row_cursor pk db) (tb_rows db) j)
        (after_row (row_cursor pk db) (tb_rows db) i) (Some f) None
      = Ok (let w = drop i (take j (tb_rows db))
            in page_result (Some tot) (row_cursor pk db) (take (nat f) w) False (int (length w) > f))"
    unfolding assms(2) Let_def
    using keyset_forward [OF assms(1) a, of "Some tot"] by (simp only: option.map)
  show "paginate db tot (before_row (row_cursor pk db) (tb_rows db) j)
        (after_row (row_cursor pk db) (tb_rows db) i) None (Some f)
      = Ok (let w = drop i (take j (tb_rows db))
            in page_result (Some tot) (row_cursor pk db) (drop (length w - nat f) w)
              (int (length w) > f) False)"
    unfolding assms(2) Let_def
    using keyset_backward [OF assms(1) a, of "Some tot"] by (simp only: option.map)
qed

section \<open>The paginators meet the contract\<close>

text \<open>
  Each paginator over a table whose query reads the parameters as cursors, whose cursor
  function reports the row's key, and whose count is known.
\<close>

definition time_id_page :: "('n, time_id_cursor) key_table \<Rightarrow> int \<Rightarrow> string option \<Rightarrow> string option
    \<Rightarrow> int option \<Rightarrow> int option \<Rightarrow> ('n list \<times> page_info) outcome" where
  "time_id_page db tot before after first lst =
     time_id_paginate
       (\<lambda>p. Ok (key_window db \<lparr>ti_time = tip_after_time p, ti_id = tip_after_id p\<rparr>
          \<lparr>ti_time = tip_before_time p, ti_id = tip_before_id p\<rparr> (tip_limit p) (tip_forward p)))
       (\<lambda>r. Ok (ti_time (tb_key db r), ti_id (tb_key db r))) (Some (Ok tot))
       before after first lst []"

definition shared_followers_page :: "('n, time_id_cursor) key_table \<Rightarrow> int \<Rightarrow> string option
    \<Rightarrow> string option \<Rightarrow> int option \<Rightarrow> int option \<Rightarrow> ('n list \<times> page_info) outcome" where
  "shared_followers_page db tot before after first lst =
     shared_followers_paginate
       (\<lambda>p. Ok (key_window db \<lparr>ti_time = tip_after_time p, ti_id = tip_after_id p\<rparr>
          \<lparr>ti_time = tip_before_time p, ti_id = tip_before_id p\<rparr> (tip_limit p) (tip_forward p)))
       (\<lambda>r. Ok (ti_time (tb_key db r), ti_id (tb_key db r))) (Some (Ok tot))
       before after first lst"

definition bool_time_id_page :: "('n, bool_time_id_cursor) key_table \<Rightarrow> int \<Rightarrow> string option
    \<Rightarrow> string option \<Rightarrow> int option \<Rightarrow> int option \<Rightarrow> ('n list \<times> page_info) outcome" where
  "bool_time_id_page db tot before after first lst =
     bool_time_id_paginate
       (\<lambda>p. Ok (key_window db
          \<lparr>bti_bool = btip_after_bool p, bti_time = btip_after_time p, bti_id = btip_after_id p\<rparr>
          \<lparr>bti_bool = btip_before_bool p, bti_time = btip_before_time p, bti_id = btip_before_id p\<rparr>
          (btip_limit p) (btip_forward p)))
       (\<lambda>r. Ok (bti_bool (tb_key db r), bti_time (tb_key db r), bti_id (tb_key db r)))
       (Some (Ok tot)) before after first lst"

definition lexical_page :: "('n, string_id_cursor) key_table \<Rightarrow> int \<Rightarrow> string option \<Rightarrow> string option
    \<Rightarrow> int option \<Rightarrow> int option \<Rightarrow> ('n list \<times> page_info) outcome" where
  "lexical_page db tot before after first lst =
     lexical_paginate
       (\<lambda>p. Ok (key_window db \<lparr>si_string = lxp_after_key p, si_id = lxp_after_id p\<rparr>
          \<lparr>si_string = lxp_before_key p, si_id = lxp_before_id p\<rparr> (lxp_limit p) (lxp_forward p)))
       (\<lambda>r. Ok (si_string (tb_key db r), si_id (tb_key db r))) (Some (Ok tot))
       before after first lst"

definition shared_communities_page :: "('n, bool_bool_int_id_cursor) key_table \<Rightarrow> int
    \<Rightarrow> string option \<Rightarrow> string option \<Rightarrow> int option \<Rightarrow> int option
    \<Rightarrow> ('n list \<times> page_info) outcome" where
  "shared_communities_page db tot before after first lst =
     shared_communities_paginate
       (\<lambda>p. Ok (key_window db
          \<lparr>bbii_bool1 = scp_after_displayed_a p, bbii_bool2 = scp_after_displayed_b p,
           bbii_int = scp_after_owned_count p, bbii_id = scp_after_community_id p\<rparr>
          \<lparr>bbii_bool1 = scp_before_displayed_a p, bbii_bool2 = scp_before_displayed_b p,
           bbii_int = scp_before_owned_count p, bbii_id = scp_before_community_id p\<rparr>
          (scp_limit p) (scp_forward p)))
       (\<lambda>r. Ok (bbii_bool1 (tb_key db r), bbii_bool2 (tb_key db r), bbii_int (tb_key db r),
          bbii_id (tb_key db r)))
       (Some (Ok tot)) before after first lst"

lemma cursor_etas [simp]:
  "\<lparr>ti_time = ti_time c1, ti_id = ti_id c1\<rparr> = c1"
  "\<lparr>bti_bool = bti_bool c2, bti_time = bti_time c2, bti_id = bti_id c2\<rparr> = c2"
  "\<lparr>si_string = si_string c3, si_id = si_id c3\<rparr> = c3"
  "\<lparr>bbii_bool1 = bbii_bool1 c4, bbii_bool2 = bbii_bool2 c4, bbii_int = bbii_int c4,
    bbii_id = bbii_id c4\<rparr> = c4"
  by (simp_all)

lemma time_id_query_key:
  "time_id_query (\<lambda>p. Ok (key_window db \<lparr>ti_time = tip_after_time p, ti_id = tip_after_id p\<rparr>
      \<lparr>ti_time = tip_before_time p, ti_id = tip_before_id p\<rparr> (tip_limit p) (tip_forward p)))
    (b0, a0) before after = key_query unpack_time_id db b0 a0 before after"
  by (simp add: time_id_query_def key_query_def fun_eq_iff)

interpretation time_id_pages: keyset_pager time_id_page
  "row_cursor (\<lambda>c. pack (time_id_vals c))"
  "table_ok time_id_valid
     \<lparr>ti_time = default_cursor_after_time, ti_id = default_cursor_after_id\<rparr>
     \<lparr>ti_time = default_cursor_before_time, ti_id = default_cursor_before_id\<rparr>"
  by (rule keyset_pager_intro [OF time_id.cursor_codec_axioms])
    (simp add: time_id_page_def time_id_paginate_def time_id_query_key pack_node_def [abs_def]
      new_time_id_cursor_def [abs_def])

interpretation shared_followers_pages: keyset_pager shared_followers_page
  "row_cursor (\<lambda>c. pack (time_id_vals c))"
  "table_ok time_id_valid
     \<lparr>ti_time = default_cursor_before_time, ti_id = default_cursor_after_id\<rparr>
     \<lparr>ti_time = default_cursor_after_time, ti_id = default_cursor_before_id\<rparr>"
  by (rule keyset_pager_intro [OF time_id.cursor_codec_axioms])
    (simp add: shared_followers_page_def shared_followers_paginate_def time_id_query_key
      pack_node_def [abs_def] new_time_id_cursor_def [abs_def])

interpretation bool_time_id_pages: keyset_pager bool_time_id_page
  "row_cursor (\<lambda>c. pack (bool_time_id_vals c))"
  "table_ok bool_time_id_valid
     \<lparr>bti_bool = False, bti_time = default_cursor_after_time, bti_id = default_cursor_after_id\<rparr>
     \<lparr>bti_bool = True, bti_time = default_cursor_before_time, bti_id = default_cursor_before_id\<rparr>"
  by (rule keyset_pager_intro [OF bool_time_id.cursor_codec_axioms])
    (simp add: bool_time_id_page_def bool_time_id_paginate_def key_query_def [abs_def]
      pack_node_def [abs_def] new_bool_time_id_cursor_def [abs_def])

interpretation lexical_pages: keyset_pager lexical_page
  "row_cursor (\<lambda>c. pack (string_id_vals c))"
  "table_ok string_id_valid
     \<lparr>si_string = default_cursor_after_key, si_id = default_cursor_after_id\<rparr>
     \<lparr>si_string = default_cursor_before_key, si_id = default_cursor_before_id\<rparr>"
  by (rule keyset_pager_intro [OF string_id.cursor_codec_axioms])
    (simp add: lexical_page_def lexical_paginate_def key_query_def [abs_def]
      pack_node_def [abs_def] new_string_id_cursor_def [abs_def])

interpretation shared_communities_pages: keyset_pager shared_communities_page
  "row_cursor (\<lambda>c. pack (bool_bool_int_id_vals c))"
  "table_ok bool_bool_int_id_valid
     \<lparr>bbii_bool1 = True, bbii_bool2 = True, bbii_int = 2147483647, bbii_id = default_cursor_after_id\<rparr>
     \<lparr>bbii_bool1 = False, bbii_bool2 = False, bbii_int = - 1, bbii_id = default_cursor_before_id\<rparr>"
  by (rule keyset_pager_intro [OF bool_bool_int_id.cursor_codec_axioms])
    (simp add: shared_communities_page_def shared_communities_paginate_def key_query_def [abs_def]
      pack_node_def [abs_def] new_bool_bool_int_id_cursor_def [abs_def])

definition bool_id_float_id_page :: "('n, bool_id_float_id_cursor) key_table \<Rightarrow> int
    \<Rightarrow> string option \<Rightarrow> string option \<Rightarrow> int option \<Rightarrow> int option
    \<Rightarrow> ('n list \<times> page_info) outcome" where
  "bool_id_float_id_page db tot before after first lst =
     bool_id_float_id_paginate
       (\<lambda>p. Ok (key_window db
          \<lparr>bifi_bool = bifp_after_bool p, bifi_id1 = bifp_after_id1 p,
           bifi_float = bifp_after_float p, bifi_id2 = bifp_after_id2 p\<rparr>
          \<lparr>bifi_bool = bifp_before_bool p, bifi_id1 = bifp_before_id1 p,
           bifi_float = bifp_before_float p, bifi_id2 = bifp_before_id2 p\<rparr>
          (bifp_limit p) (bifp_forward p)))
       (\<lambda>r. Ok (bifi_bool (tb_key db r), bifi_id1 (tb_key db r), bifi_float (tb_key db r),
          bifi_id2 (tb_key db r)))
       (Some (Ok tot)) before after first lst"

lemma bool_id_float_id_eta [simp]:
  "\<lparr>bifi_bool = bifi_bool c, bifi_id1 = bifi_id1 c, bifi_float = bifi_float c,
    bifi_id2 = bifi_id2 c\<rparr> = c"
  by simp

interpretation bool_id_float_id_pages: keyset_pager bool_id_float_id_page
  "row_cursor (\<lambda>c. pack (bool_id_float_id_vals c))"
  "table_ok bool_id_float_id_valid
     \<lparr>bifi_bool = False, bifi_id1 = default_cursor_after_id, bifi_float = default_cursor_after_float,
      bifi_id2 = default_cursor_after_id\<rparr>
     \<lparr>bifi_bool = True, bifi_id1 = default_cursor_before_id, bifi_float = default_cursor_before_float,
      bifi_id2 = ''''\<rparr>"
  by (rule keyset_pager_intro [OF bool_id_float_id.cursor_codec_axioms])
    (simp add: bool_id_float_id_page_def bool_id_float_id_paginate_def key_query_def [abs_def]
      bool_id_float_id_zero_def pack_node_def [abs_def] new_bool_id_float_id_cursor_def [abs_def])

section \<open>Properties\<close>

text \<open>A small table ordered by the seconds of its times, for the witnesses.\<close>

definition sample_key :: "nat \<Rightarrow> time_id_cursor" where
  "sample_key n = \<lparr>ti_time = \<lparr>t_sec = 63000000000 + of_nat n, t_nsec = 0, t_zone = UTC\<rparr>,
     ti_id = ''2A''\<rparr>"

definition sample_table :: "(nat, time_id_cursor) key_table" where
  "sample_table = \<lparr>tb_less = \<lambda>x y. t_sec (ti_time x) < t_sec (ti_time y), tb_key = sample_key,
     tb_rows = [0, 1, 2, 3, 4]\<rparr>"

lemma sample_table_ok:
  "table_ok time_id_valid
     \<lparr>ti_time = default_cursor_after_time, ti_id = default_cursor_after_id\<rparr>
     \<lparr>ti_time = default_cursor_before_time, ti_id = default_cursor_before_id\<rparr> sample_table"
  by (auto simp: table_ok_def sample_table_def sample_key_def time_id_valid_def time_ok_def
      default_cursor_after_time_def default_cursor_before_time_def intro: less_trans)

lemma sample_rows: "tb_rows sample_table = [0, 1, 2, 3, 4]"
  by (simp add: sample_table_def)

lemma sample_length: "Suc (length (tb_rows sample_table)) = 6"
  by (simp add: sample_table_def)

text \<open>
  Property C1. Paging forward through a table with \<^verbatim>\<open>TimeIDPaginator\<close>: a client that asks
  for \<open>f\<close> rows and repeats the request with the end cursor it got, as long as the page
  information says that there is a next page, receives every row exactly once, in order, in
  pages of at most \<open>f\<close> rows, and needs no more requests than there are rows plus one.
\<close>

theorem time_id_pages_forward_complete:
  assumes "table_ok time_id_valid
     \<lparr>ti_time = default_cursor_after_time, ti_id = default_cursor_after_id\<rparr>
     \<lparr>ti_time = default_cursor_before_time, ti_id = default_cursor_before_id\<rparr> db"
    and "page_limit_ok f"
  shows "\<exists>pages. follow_next (Suc (length (tb_rows db)))
      (\<lambda>c. time_id_page db tot None c (Some f) None) None = Some pages
      \<and> concat pages = tb_rows db \<and> (\<forall>p \<in> set pages. length p \<le> nat f)"
  by (rule time_id_pages.visits_all_forward [OF assms])

theorem time_id_pages_forward_complete_witness:
  "\<exists>pages. follow_next (Suc (length (tb_rows sample_table))) (\<lambda>c. time_id_page sample_table 5 None c (Some 2) None) None = Some pages
      \<and> concat pages = [0, 1, 2, 3, 4]"
  using time_id_pages_forward_complete [OF sample_table_ok, of 2 5]
  by (auto simp add: page_limit_ok_def sample_rows sample_length simp del: follow_next.simps follow_previous.simps)

text \<open>
  Property C2. Paging backward with \<^verbatim>\<open>last\<close> and the start cursors of the pages: the pages,
  put in front of each other, are the whole table, so the in-memory reversal of
  \<^verbatim>\<open>keysetPaginator\<close> and the order of the query agree.
\<close>

theorem time_id_pages_backward_complete:
  assumes "table_ok time_id_valid
     \<lparr>ti_time = default_cursor_after_time, ti_id = default_cursor_after_id\<rparr>
     \<lparr>ti_time = default_cursor_before_time, ti_id = default_cursor_before_id\<rparr> db"
    and "page_limit_ok l"
  shows "\<exists>pages. follow_previous (Suc (length (tb_rows db)))
      (\<lambda>c. time_id_page db tot c None None (Some l)) None = Some pages
      \<and> concat (rev pages) = tb_rows db \<and> (\<forall>p \<in> set pages. length p \<le> nat l)"
  by (rule time_id_pages.visits_all_backward [OF assms])

theorem time_id_pages_backward_complete_witness:
  "\<exists>pages. follow_previous (Suc (length (tb_rows sample_table))) (\<lambda>c. time_id_page sample_table 5 c None None (Some 2)) None = Some pages
      \<and> concat (rev pages) = [0, 1, 2, 3, 4]"
  using time_id_pages_backward_complete [OF sample_table_ok, of 2 5]
  by (auto simp add: page_limit_ok_def sample_rows sample_length simp del: follow_next.simps follow_previous.simps)

text \<open>
  One page of the lexical paginator between two cursors the server handed out:
  asking for the first \<open>f\<close> rows after row \<open>i - 1\<close> and before row \<open>j\<close> gives exactly the first
  \<open>f\<close> of the rows \<open>i\<close> to \<open>j - 1\<close>; a next page is announced exactly when some of these rows
  are left, and the total comes from the counting query.
\<close>

theorem lexical_page_between_cursors:
  assumes "table_ok string_id_valid
     \<lparr>si_string = default_cursor_after_key, si_id = default_cursor_after_id\<rparr>
     \<lparr>si_string = default_cursor_before_key, si_id = default_cursor_before_id\<rparr> db"
    and "i \<le> j" and "j \<le> length (tb_rows db)" and "page_limit_ok f"
  defines "cur \<equiv> row_cursor (\<lambda>c. pack (string_id_vals c)) db"
  shows "lexical_page db tot (before_row cur (tb_rows db) j) (after_row cur (tb_rows db) i) (Some f) None
    = Ok (page_result (Some tot) cur (take (nat f) (drop i (take j (tb_rows db)))) False
        (int (j - i) > f))"
  using lexical_pages.forward_page [OF assms(1-4), of tot] assms(3)
  unfolding cur_def by (simp add: Let_def min_def)

definition sample_names :: "(nat, string_id_cursor) key_table" where
  "sample_names = \<lparr>tb_less = \<lambda>x y. length (si_string x) < length (si_string y),
     tb_key = \<lambda>n. \<lparr>si_string = replicate (n + 1) CHR ''a'', si_id = ''7''\<rparr>, tb_rows = [0, 1, 2]\<rparr>"

theorem lexical_page_between_cursors_witness:
  "let cur = row_cursor (\<lambda>c. pack (string_id_vals c)) sample_names in
     lexical_page sample_names 3 None (Some (cur 0)) (Some 1) None
       = Ok (page_result (Some 3) cur [1] False True)"
proof -
  have ok: "table_ok string_id_valid
     \<lparr>si_string = default_cursor_after_key, si_id = default_cursor_after_id\<rparr>
     \<lparr>si_string = default_cursor_before_key, si_id = default_cursor_before_id\<rparr> sample_names"
    by (auto simp: table_ok_def sample_names_def string_id_valid_def default_cursor_after_key_def
        default_cursor_before_key_def)
  have len: "(3::nat) \<le> length (tb_rows sample_names)" by (simp add: sample_names_def)
  show ?thesis
    using lexical_page_between_cursors [OF ok _ len, of 1 1 3]
    by (simp add: page_limit_ok_def before_row_def after_row_def Let_def)
      (simp add: sample_names_def)
qed

text \<open>
  A negative page size does not come back as an error: the slice expression that
  cuts the page panics, whatever the query returned.
\<close>

theorem negative_first_panics:
  assumes "f < 0" and "queryF (word_of_int (1 + f)) True = Ok rows"
    and "\<And>r. r \<in> set rows \<Longrightarrow> is_ok (pn r)"
  shows "keyset_paginate queryF pn countF before after (Some f) lst = Panic SliceBounds"
proof -
  obtain edges where "apply_cursors pn rows before after = Ok edges"
    using apply_cursors_total [of rows pn before after] assms(3) by blast
  with assms(1,2) show ?thesis
    by (auto simp: keyset_paginate_def query_limit_def page_from_def page_edges_from_def)
qed

theorem negative_first_panics_witness:
  "keyset_paginate (\<lambda>limit forward. Ok []) (\<lambda>n::nat. Ok ''c'') None None None (Some (- 1)) None
    = Panic SliceBounds"
  by (rule negative_first_panics [where rows = "[]"]) simp_all

end
