(* ===== verification/UtilHelpers.thy ===== *)
theory UtilHelpers
  imports GoStrings
begin

text \<open>
  The generic helpers of \<^verbatim>\<open>util/helpers.go\<close> and \<^verbatim>\<open>util/numbers.go\<close>: slices, optional
  values, strings and nested maps. A \<^verbatim>\<open>*T\<close> that may be nil is an option, the zero value of
  a type parameter is an argument, a Go map that is ranged over is the list of its entries in
  the order the runtime visits them. Slices that are filtered in place keep their backing
  array explicit, so the aliasing of source and result is part of the model.
\<close>

section \<open>Errors, bytes and membership\<close>

text \<open>\<^verbatim>\<open>MultiErr.Error\<close>, on the texts of its errors; a nil error has none.\<close>

fun multi_err_items :: "string option list \<Rightarrow> string" where
  "multi_err_items [] = ''''"
| "multi_err_items (None # es) = multi_err_items es"
| "multi_err_items (Some t # es) = ''('' @ t @ ''),'' @ multi_err_items es"

definition multi_err_error :: "string option list \<Rightarrow> string" where
  "multi_err_error m = ''Multiple errors: ['' @ multi_err_items m @ '']''"

definition remove_bom :: "bytes \<Rightarrow> bytes" where
  "remove_bom bs =
     (if length bs > 3 \<and> bs ! 0 = 0xEF \<and> bs ! 1 = 0xBB \<and> bs ! 2 = 0xBF then drop 3 bs else bs)"

fun contains_elem :: "'a list \<Rightarrow> 'a \<Rightarrow> bool" where
  "contains_elem [] x = False"
| "contains_elem (v # vs) x = (if v = x then True else contains_elem vs x)"

definition contains_string :: "string list \<Rightarrow> string \<Rightarrow> bool" where
  "contains_string s str = contains_elem s str"

fun contains_any_string :: "string \<Rightarrow> string list \<Rightarrow> bool" where
  "contains_any_string s [] = False"
| "contains_any_string s (v # strs) = (if str_contains s v then True else contains_any_string s strs)"

lemma contains_elem_iff [simp]: "contains_elem s x \<longleftrightarrow> x \<in> set s"
  by (induction s) auto

lemma contains_any_string_iff: "contains_any_string s strs \<longleftrightarrow> (\<exists>v \<in> set strs. str_contains s v)"
  by (induction strs) auto

section \<open>Slices\<close>

text \<open>\<^verbatim>\<open>Map\<close> fills a result of the same length and returns nil with the first error.\<close>

fun map_into :: "'b list \<Rightarrow> nat \<Rightarrow> ('a \<Rightarrow> 'b outcome) \<Rightarrow> 'a list \<Rightarrow> 'b list outcome" where
  "map_into result i f [] = Ok result"
| "map_into result i f (x # xs) = bind_out (f x) (\<lambda>it. map_into (result[i := it]) (Suc i) f xs)"

definition util_map :: "'b \<Rightarrow> 'a list \<Rightarrow> ('a \<Rightarrow> 'b outcome) \<Rightarrow> 'b list outcome" where
  "util_map zero xs f = map_into (replicate (length xs) zero) 0 f xs"

definition map_without_error :: "'a list \<Rightarrow> ('a \<Rightarrow> 'b) \<Rightarrow> 'b list" where
  "map_without_error xs f = map f xs"

definition map_keys :: "('k \<times> 'v) list \<Rightarrow> 'k list" where
  "map_keys m = map fst m"

definition map_values :: "('k \<times> 'v) list \<Rightarrow> 'v list" where
  "map_values m = map snd m"

definition all_equal :: "'a list \<Rightarrow> bool" where
  "all_equal xs = (case xs of [] \<Rightarrow> True | x # _ \<Rightarrow> find_index (\<lambda>y. y \<noteq> x) xs = None)"

text \<open>
  The loop \<^verbatim>\<open>for _, x := range src { if keep { result = append(result, x) } }\<close>. With
  \<open>in_place\<close> the result starts as \<^verbatim>\<open>src[:0]\<close>, so appending writes into the array the loop
  still reads. The state of the loop is that array, what has been appended and what the
  condition remembers; an index is read when its iteration starts.
\<close>

fun range_append :: "bool \<Rightarrow> ('s \<Rightarrow> 'a \<Rightarrow> bool \<times> 's) \<Rightarrow> nat list \<Rightarrow> 'a list \<Rightarrow> 'a list \<Rightarrow> 's
    \<Rightarrow> 'a list \<times> 'a list" where
  "range_append in_place cond [] arr out s = (out, arr)"
| "range_append in_place cond (i # is) arr out s =
     (let x = arr ! i; (keep, s') = cond s x in
      if keep
      then range_append in_place cond is (if in_place then arr[length out := x] else arr) (out @ [x]) s'
      else range_append in_place cond is arr out s')"

text \<open>Each of the three returns the result and the caller's slice after the call.\<close>

definition dedupe :: "'a list \<Rightarrow> bool \<Rightarrow> 'a list \<times> 'a list" where
  "dedupe src filter_in_place =
     range_append filter_in_place (\<lambda>seen x. if x \<notin> seen then (True, insert x seen) else (False, seen))
       [0..<length src] src [] {}"

definition dedupe_with_translate :: "'a list \<Rightarrow> bool \<Rightarrow> ('a \<Rightarrow> 'k) \<Rightarrow> 'a list \<times> 'a list" where
  "dedupe_with_translate src filter_in_place translate =
     range_append filter_in_place
       (\<lambda>seen x. let v = translate x in if v \<notin> seen then (True, insert v seen) else (False, seen))
       [0..<length src] src [] {}"

definition util_filter :: "'a list \<Rightarrow> ('a \<Rightarrow> bool) \<Rightarrow> bool \<Rightarrow> 'a list \<times> 'a list" where
  "util_filter s f filter_in_place =
     range_append filter_in_place (\<lambda>_ v. (f v, ())) [0..<length s] s [] ()"

fun fill_from :: "nat \<Rightarrow> nat \<Rightarrow> 'a \<Rightarrow> 'a list \<Rightarrow> 'a list" where
  "fill_from 0 i v s = s"
| "fill_from (Suc n) i v s = fill_from n (Suc i) v (s[i := v])"

definition fill_slice_with_value :: "'a list \<Rightarrow> 'a \<Rightarrow> 'a list" where
  "fill_slice_with_value s v = fill_from (length s) 0 v s"

fun difference :: "'a list \<Rightarrow> 'a list \<Rightarrow> 'a list" where
  "difference old [] = []"
| "difference old (v # new) =
     (if \<not> contains_elem old v then v # difference old new else difference old new)"

fun find_first :: "'a \<Rightarrow> 'a list \<Rightarrow> ('a \<Rightarrow> bool) \<Rightarrow> 'a \<times> bool" where
  "find_first zero [] f = (zero, False)"
| "find_first zero (v # s) f = (if f v then (v, True) else find_first zero s f)"

definition map_find_or_nil :: "('k \<rightharpoonup> 'v) \<Rightarrow> 'k \<Rightarrow> 'v option" where
  "map_find_or_nil s key = (case s key of Some val \<Rightarrow> Some val | None \<Rightarrow> None)"

text \<open>A map from keys to slices; an absent key reads as the nil slice.\<close>

fun group_from :: "('a \<Rightarrow> 'k) \<Rightarrow> ('k \<rightharpoonup> 'a list) \<Rightarrow> 'a list \<Rightarrow> ('k \<rightharpoonup> 'a list)" where
  "group_from f m [] = m"
| "group_from f m (v # s) =
     group_from f (m(f v \<mapsto> (case m (f v) of None \<Rightarrow> [] | Some g \<Rightarrow> g) @ [v])) s"

definition group_by :: "'a list \<Rightarrow> ('a \<Rightarrow> 'k) \<Rightarrow> ('k \<rightharpoonup> 'a list)" where
  "group_by s f = group_from f Map.empty s"

text \<open>
  \<^verbatim>\<open>Chunk\<close> and \<^verbatim>\<open>ChunkBy\<close> loop for ever on a non-empty slice with chunk size 0, so they are
  partial: \<open>None\<close> is a call that does not return. A negative size makes the slice expression
  panic.
\<close>

partial_function (option) chunk_loop ::
    "'a list \<Rightarrow> int \<Rightarrow> int \<Rightarrow> 'a list list \<Rightarrow> 'a list list outcome option" where
  "chunk_loop s n i chunks =
     (if i < int (length s)
      then (let end1 = i + n;
                end2 = (if end1 > int (length s) then int (length s) else end1) in
            if 0 \<le> i \<and> i \<le> end2
            then chunk_loop s n (i + n) (chunks @ [take (nat (end2 - i)) (drop (nat i) s)])
            else Some (Panic SliceBounds))
      else Some (Ok chunks))"

definition util_chunk :: "'a list \<Rightarrow> int \<Rightarrow> 'a list list outcome option" where
  "util_chunk s n = chunk_loop s n 0 []"

partial_function (option) chunk_by_loop ::
    "int \<Rightarrow> 'a list \<Rightarrow> 'a list list \<Rightarrow> 'a list list outcome option" where
  "chunk_by_loop n items chunks =
     (if n < int (length items)
      then (if n < 0 then Some (Panic SliceBounds)
            else chunk_by_loop n (drop (nat n) items) (chunks @ [take (nat n) items]))
      else Some (Ok (chunks @ [items])))"

definition chunk_by :: "'a list \<Rightarrow> int \<Rightarrow> 'a list list outcome option" where
  "chunk_by items n = chunk_by_loop n items []"

section \<open>Optional values\<close>

text \<open>\<^verbatim>\<open>SetConditionalValue\<close> writes through \<^verbatim>\<open>param\<close> and \<^verbatim>\<open>conditional\<close>; their new values.\<close>

definition set_conditional_value :: "'a option \<Rightarrow> 'a \<Rightarrow> bool \<Rightarrow> 'a \<times> bool" where
  "set_conditional_value value param conditional =
     (case value of Some v \<Rightarrow> (v, True) | None \<Rightarrow> (param, False))"

definition string_to_pointer_if_not_empty :: "string \<Rightarrow> string option" where
  "string_to_pointer_if_not_empty str = (if str = '''' then None else Some str)"

fun first_non_empty_string :: "string list \<Rightarrow> string" where
  "first_non_empty_string [] = ''''"
| "first_non_empty_string (str # strs) = (if str \<noteq> '''' then str else first_non_empty_string strs)"

definition from_pointer :: "'a \<Rightarrow> 'a option \<Rightarrow> 'a" where
  "from_pointer zero s = (case s of None \<Rightarrow> zero | Some v \<Rightarrow> v)"

definition is_empty_pointer :: "'a \<Rightarrow> 'a option \<Rightarrow> bool" where
  "is_empty_pointer zero s = (case s of None \<Rightarrow> True | Some v \<Rightarrow> v = zero)"

definition to_pointer :: "'a \<Rightarrow> 'a option" where
  "to_pointer s = Some s"

definition to_pointer_slice :: "'a list \<Rightarrow> 'a option list" where
  "to_pointer_slice s = map Some s"

definition from_pointer_slice :: "'a option list \<Rightarrow> 'a list outcome" where
  "from_pointer_slice s = map_out (\<lambda>v. case v of Some x \<Rightarrow> Ok x | None \<Rightarrow> Panic NilDeref) s"

definition stringers_to_strings :: "('a \<Rightarrow> string) \<Rightarrow> 'a list \<Rightarrow> string list" where
  "stringers_to_strings string_method stringers = map string_method stringers"

definition get_optional_value :: "'a option \<Rightarrow> 'a \<Rightarrow> 'a" where
  "get_optional_value optional fallback = (case optional of Some v \<Rightarrow> v | None \<Rightarrow> fallback)"

record null_string =
  ns_string :: string
  ns_valid :: bool

record null_int32 =
  ni_int32 :: i32
  ni_valid :: bool

definition sql_string_is_null_or_empty :: "null_string \<Rightarrow> bool" where
  "sql_string_is_null_or_empty s \<longleftrightarrow> \<not> ns_valid s \<or> ns_string s = ''''"

definition to_null_string :: "string \<Rightarrow> bool \<Rightarrow> null_string" where
  "to_null_string s empty_is_null =
     (if empty_is_null \<and> s = '''' then \<lparr>ns_string = '''', ns_valid = False\<rparr>
      else \<lparr>ns_string = s, ns_valid = True\<rparr>)"

definition to_null_string_empty_null :: "string \<Rightarrow> null_string" where
  "to_null_string_empty_null s = to_null_string s True"

definition to_null_int32 :: "int option \<Rightarrow> null_int32" where
  "to_null_int32 i =
     (case i of None \<Rightarrow> \<lparr>ni_int32 = 0, ni_valid = False\<rparr>
      | Some v \<Rightarrow> \<lparr>ni_int32 = word_of_int v, ni_valid = True\<rparr>)"

section \<open>Strings\<close>

definition truncate_with_ellipsis :: "string \<Rightarrow> int \<Rightarrow> string outcome" where
  "truncate_with_ellipsis s n =
     (if int (length s) \<le> n then Ok s
      else if n < 0 then Panic SliceBounds
      else Ok (take (nat n) s @ ''...''))"

definition get_uri_path :: "string \<Rightarrow> bool \<Rightarrow> string" where
  "get_uri_path initial without_query =
     (let path0 = trim_space initial;
          path1 =
            (if has_prefix initial ''http''
             then (let p1 = trim_prefix path0 ''https://'';
                       p2 = trim_prefix p1 ''http://'' in
                   (case str_index p2 ''/'' of
                      Some k \<Rightarrow> if k > 0 then drop k p2 else p2
                    | None \<Rightarrow> p2))
             else if has_prefix initial ''ipfs://'' then replace_all initial ''ipfs://'' ''''
             else if has_prefix initial ''arweave://'' \<or> has_prefix initial ''ar://''
             then replace_all (replace_all initial ''arweave://'' '''') ''ar://'' ''''
             else path0);
          path2 = trim_prefix (replace_all path1 ''ipfs/'' '''') ''/''
      in if without_query
         then trim_suffix (hd (str_split path2 ''?'')) ''/''
         else path2)"

fun skip_zeros :: "string \<Rightarrow> nat \<Rightarrow> string \<Rightarrow> string" where
  "skip_zeros whole i [] = whole"
| "skip_zeros whole i (c # cs) = (if c \<noteq> CHR ''0'' then drop i whole else skip_zeros whole (Suc i) cs)"

definition remove_left_padded_zeros :: "string \<Rightarrow> string" where
  "remove_left_padded_zeros str =
     (if str = ''0x'' then ''0''
      else (let s = trim_prefix str ''0x'' in
            if replace_all s ''0'' '''' = '''' then ''0'' else skip_zeros s 0 s))"

text \<open>The decoders of the encodings tried are arguments; no encodings leave a nil error.\<close>

fun base64_decode_loop :: "gerror option \<Rightarrow> (string \<Rightarrow> bytes outcome) list \<Rightarrow> string
    \<Rightarrow> (bytes \<times> gerror option) outcome" where
  "base64_decode_loop last_error [] s = Ok ([], last_error)"
| "base64_decode_loop last_error (decode # encodings) s =
     (case decode s of
        Ok bs \<Rightarrow> Ok (bs, None)
      | Err e \<Rightarrow> base64_decode_loop (Some e) encodings s
      | Panic p \<Rightarrow> Panic p)"

definition util_base64_decode :: "string \<Rightarrow> (string \<Rightarrow> bytes outcome) list
    \<Rightarrow> (bytes \<times> gerror option) outcome" where
  "util_base64_decode s encodings = base64_decode_loop None encodings s"

section \<open>Byte sizes\<close>

text \<open>
  \<^verbatim>\<open>float64(bytes)\<close> rounds a 64-bit count to 53 significant bits, half to even; dividing by
  a power of two is exact; \<^verbatim>\<open>%.2f\<close> rounds the exact value to hundredths, half to even.
\<close>

definition round_half_even :: "nat \<Rightarrow> nat \<Rightarrow> nat" where
  "round_half_even n d =
     (let q = n div d; r = n mod d in
      if 2 * r < d then q else if 2 * r > d then q + 1 else if even q then q else q + 1)"

definition float64_of_u64 :: "nat \<Rightarrow> nat" where
  "float64_of_u64 n =
     (if n < 2 ^ 53 then n
      else (let ulp = 2 ^ length (takeWhile (\<lambda>k. 2 ^ (53 + k) \<le> n) [0..<11])
            in round_half_even n ulp * ulp))"

definition two_decimals :: "nat \<Rightarrow> nat \<Rightarrow> string" where
  "two_decimals v unit =
     (let h = round_half_even (100 * v) unit in
      nat_text 10 (h div 100) @ ''.'' @ [digit_char (h mod 100 div 10), digit_char (h mod 10)])"

definition size_units :: "(nat \<times> string) list" where
  "size_units = [(2 ^ 60, ''EB''), (2 ^ 50, ''PB''), (2 ^ 40, ''TB''), (2 ^ 30, ''GB''),
     (2 ^ 20, ''MB''), (2 ^ 10, ''KB'')]"

definition in_byte_size_format :: "u64 \<Rightarrow> string" where
  "in_byte_size_format n =
     (let v = float64_of_u64 (unat n) in
      case find (\<lambda>(limit, _). unat n \<ge> limit) size_units of
        Some (limit, unit) \<Rightarrow> two_decimals v limit @ '' '' @ unit
      | None \<Rightarrow> two_decimals v 1 @ '' B'')"

section \<open>Nested maps\<close>

text \<open>
  A decoded JSON value; \<open>JAtom\<close> stands for a number or a boolean by its text. The
  case-insensitive comparison \<^verbatim>\<open>strings.EqualFold\<close> and \<^verbatim>\<open>strings.ToLower\<close> are arguments.
\<close>

datatype json_val = JNull | JStr string | JAtom string | JArr "json_val list" | JObj "(string \<times> json_val) list"

function get_value_from_map :: "(string \<Rightarrow> string \<Rightarrow> bool) \<Rightarrow> (string \<times> json_val) list \<Rightarrow> string \<Rightarrow> int
    \<Rightarrow> json_val"
  and get_value_range :: "(string \<Rightarrow> string \<Rightarrow> bool) \<Rightarrow> (string \<times> json_val) list \<Rightarrow> string \<Rightarrow> int
    \<Rightarrow> json_val"
  and get_value_array :: "(string \<Rightarrow> string \<Rightarrow> bool) \<Rightarrow> json_val list \<Rightarrow> string \<Rightarrow> int \<Rightarrow> json_val"
where
  "get_value_from_map ef m key depth =
     (if depth = 0 then JNull
      else (case map_of m key of
              Some v \<Rightarrow> v
            | None \<Rightarrow> get_value_range ef m key depth))"
| "get_value_range ef [] key depth = JNull"
| "get_value_range ef ((k, v) # m) key depth =
     (if ef k key then v
      else (let nest_val = (case v of
                JObj nest \<Rightarrow> get_value_from_map ef nest key (depth - 1)
              | JArr array \<Rightarrow> get_value_array ef array key depth
              | _ \<Rightarrow> JNull)
            in if nest_val \<noteq> JNull then nest_val else get_value_range ef m key depth))"
| "get_value_array ef [] key depth = JNull"
| "get_value_array ef (v # array) key depth =
     (let nest_val = (case v of
          JObj nest \<Rightarrow> get_value_from_map ef nest key (depth - 1)
        | _ \<Rightarrow> JNull)
      in if nest_val \<noteq> JNull then nest_val else get_value_array ef array key depth)"
  by pat_completeness auto
termination
  by (relation "measure (\<lambda>x. case x of
        Inl (ef, m, key, depth) \<Rightarrow> 2 * size_list (size_prod (\<lambda>_. 0) size) m + 1
      | Inr (Inl (ef, m, key, depth)) \<Rightarrow> 2 * size_list (size_prod (\<lambda>_. 0) size) m
      | Inr (Inr (ef, array, key, depth)) \<Rightarrow> 2 * size_list size array)") auto

fun get_value_range_unsafe :: "(string \<Rightarrow> string \<Rightarrow> bool) \<Rightarrow> (string \<Rightarrow> string)
    \<Rightarrow> (string \<times> json_val) list \<Rightarrow> string \<Rightarrow> int \<Rightarrow> json_val" where
  "get_value_range_unsafe ef lower [] key depth = JNull"
| "get_value_range_unsafe ef lower ((k, v) # m) key depth =
     (if str_contains (lower k) (lower key) then v
      else (let nest_val = (case v of
                JObj nest \<Rightarrow> get_value_from_map ef nest key (depth - 1)
              | JArr array \<Rightarrow> get_value_array ef array key depth
              | _ \<Rightarrow> JNull)
            in if nest_val \<noteq> JNull then nest_val else get_value_range_unsafe ef lower m key depth))"

definition get_value_from_map_unsafe :: "(string \<Rightarrow> string \<Rightarrow> bool) \<Rightarrow> (string \<Rightarrow> string)
    \<Rightarrow> (string \<times> json_val) list \<Rightarrow> string \<Rightarrow> int \<Rightarrow> json_val" where
  "get_value_from_map_unsafe ef lower m key depth =
     (if depth = 0 then JNull
      else (case map_of m key of
              Some v \<Rightarrow> v
            | None \<Rightarrow> get_value_range_unsafe ef lower m key depth))"

fun find_first_field_from_map :: "(string \<Rightarrow> string \<Rightarrow> bool) \<Rightarrow> (string \<Rightarrow> string)
    \<Rightarrow> (string \<times> json_val) list \<Rightarrow> string list \<Rightarrow> json_val" where
  "find_first_field_from_map ef lower it [] = JNull"
| "find_first_field_from_map ef lower it (fld # flds) =
     (let val = get_value_from_map_unsafe ef lower it fld 5 in
      if val \<noteq> JNull then val else find_first_field_from_map ef lower it flds)"

section \<open>Filtering in place and in a copy\<close>

text \<open>What the loop keeps, without arrays.\<close>

fun kept :: "('s \<Rightarrow> 'a \<Rightarrow> bool \<times> 's) \<Rightarrow> 's \<Rightarrow> 'a list \<Rightarrow> 'a list" where
  "kept cond s [] = []"
| "kept cond s (x # xs) =
     (let (keep, s') = cond s x in if keep then x # kept cond s' xs else kept cond s' xs)"

lemma range_append_kept:
  "i + length xs = length arr \<Longrightarrow> drop i arr = xs \<Longrightarrow> length out \<le> i \<Longrightarrow>
     (in_place \<Longrightarrow> take (length out) arr = out) \<Longrightarrow>
     fst (range_append in_place cond [i..<length arr] arr out s) = out @ kept cond s xs \<and>
     (let arr' = snd (range_append in_place cond [i..<length arr] arr out s) in
      if in_place then arr' = out @ kept cond s xs @ drop (length out + length (kept cond s xs)) arr
      else arr' = arr)"
proof (induction xs arbitrary: i arr out s)
  case Nil
  then show ?case by (auto simp: Let_def) (metis append_take_drop_id)
next
  case (Cons x xs)
  from Cons.prems(1) have i: "i < length arr" by simp
  with Cons.prems(2) have x: "arr ! i = x" and xs: "drop (Suc i) arr = xs"
    by (metis Cons_nth_drop_Suc list.inject)+
  obtain keep s' where c: "cond s x = (keep, s')" by fastforce
  have up: "[i..<length arr] = i # [Suc i..<length arr]" using i by (rule upt_conv_Cons)
  show ?case
  proof (cases keep)
    case False
    from Cons.IH [of "Suc i" arr out s'] Cons.prems xs False show ?thesis
      by (cases in_place) (simp_all add: up x c)
  next
    case True
    let ?arr = "if in_place then arr[length out := x] else arr"
    have d: "drop (Suc i) ?arr = xs" using xs Cons.prems(3) by simp
    have t: "in_place \<Longrightarrow> take (length (out @ [x])) ?arr = out @ [x]"
      using Cons.prems(3,4) i by (simp add: take_Suc_conv_app_nth)
    have r: "drop (Suc (length out + k)) (arr[length out := x]) = drop (Suc (length out + k)) arr" for k
      by simp
    from Cons.IH [of "Suc i" ?arr "out @ [x]" s'] Cons.prems(1,3) d t True show ?thesis
      by (cases in_place) (simp_all add: up x c r)
  qed
qed

lemma range_append_result:
  "range_append in_place cond [0..<length src] src [] s
     = (kept cond s src,
        if in_place then kept cond s src @ drop (length (kept cond s src)) src else src)"
  using range_append_kept [of 0 src src "[]" in_place cond s]
  by (cases "range_append in_place cond [0..<length src] src [] s") (auto simp: Let_def)

section \<open>Removing duplicates: the contract\<close>

text \<open>
  A function that keeps the first element of every key, by its laws on the empty list and on
  an appended element. Everything a caller wants follows, and any two such functions agree.
\<close>

locale first_occurrences =
  fixes dd :: "'a list \<Rightarrow> 'a list" and key :: "'a \<Rightarrow> 'k"
  assumes dd_Nil: "dd [] = []"
    and dd_snoc: "dd (xs @ [x]) = (if key x \<in> key ` set xs then dd xs else dd xs @ [x])"
begin

lemma keys_kept: "key ` set (dd xs) = key ` set xs"
  by (induction xs rule: rev_induct) (auto simp: dd_Nil dd_snoc)

lemma keys_distinct: "distinct (map key (dd xs))"
  using keys_kept by (induction xs rule: rev_induct) (auto simp: dd_Nil dd_snoc)

lemma in_order: "subseq (dd xs) xs"
proof (induction xs rule: rev_induct)
  case (snoc x xs)
  then show ?case
    by (simp add: dd_snoc list_emb_append_mono) (meson subseq_rev_drop_many subseq_order.order_trans list_emb_append2)
qed (simp add: dd_Nil)

lemma keeps_distinct: "distinct (map key xs) \<Longrightarrow> dd xs = xs"
  by (induction xs rule: rev_induct) (auto simp: dd_Nil dd_snoc)

lemma idempotent: "dd (dd xs) = dd xs"
  by (rule keeps_distinct [OF keys_distinct])

lemma not_longer: "length (dd xs) \<le> length xs"
  by (rule list_emb_length [OF in_order])

lemma first_kept:
  "x \<in> set (dd xs) \<Longrightarrow> \<exists>pre post. xs = pre @ x # post \<and> key x \<notin> key ` set pre"
proof (induction xs rule: rev_induct)
  case (snoc y xs)
  show ?case
  proof (cases "x \<in> set (dd xs)")
    case True
    then obtain pre post where "xs = pre @ x # post" "key x \<notin> key ` set pre"
      using snoc.IH by blast
    then show ?thesis by (intro exI [of _ pre] exI [of _ "post @ [y]"]) simp
  next
    case False
    with snoc.prems have "x = y" "key y \<notin> key ` set xs"
      by (auto simp: dd_snoc split: if_splits)
    then show ?thesis by blast
  qed
qed (simp add: dd_Nil)

lemma unique:
  assumes "first_occurrences dd' key"
  shows "dd' xs = dd xs"
  by (induction xs rule: rev_induct)
    (simp_all add: dd_Nil dd_snoc first_occurrences.dd_Nil [OF assms] first_occurrences.dd_snoc [OF assms])

end

end
