(* ===== verification/UtilProps.thy ===== *)
theory UtilProps
  imports UtilHelpers
begin

text \<open>
  What the helpers of \<^verbatim>\<open>util\<close> guarantee: deduplication keeps first occurrences whether or not
  it works in place, chunks partition a slice, hex strings keep their value when their zeros
  are cut.
\<close>

section \<open>Deduplication\<close>

lemma kept_unseen_snoc:
  "kept (\<lambda>seen x. if f x \<notin> seen then (True, insert (f x) seen) else (False, seen)) S (xs @ [x])
     = kept (\<lambda>seen x. if f x \<notin> seen then (True, insert (f x) seen) else (False, seen)) S xs
       @ (if f x \<in> S \<union> f ` set xs then [] else [x])"
  by (induction xs arbitrary: S) auto

lemma dedupe_kept:
  "fst (dedupe xs in_place)
     = kept (\<lambda>seen x. if x \<notin> seen then (True, insert x seen) else (False, seen)) {} xs"
  by (simp add: dedupe_def range_append_result)

lemma dedupe_with_translate_kept:
  "fst (dedupe_with_translate xs in_place f)
     = kept (\<lambda>seen x. if f x \<notin> seen then (True, insert (f x) seen) else (False, seen)) {} xs"
  by (simp add: dedupe_with_translate_def range_append_result Let_def)

interpretation dedupe_slice: first_occurrences "\<lambda>xs. fst (dedupe xs in_place)" "\<lambda>x. x" for in_place
  by unfold_locales
    (simp_all only: dedupe_kept kept_unseen_snoc [of "\<lambda>x. x", simplified], simp_all)

interpretation dedupe_translated:
  first_occurrences "\<lambda>xs. fst (dedupe_with_translate xs in_place f)" f for in_place f
  by unfold_locales (simp_all only: dedupe_with_translate_kept kept_unseen_snoc, simp_all)

lemma dedupe_array:
  "snd (dedupe src in_place)
     = (if in_place then fst (dedupe src in_place) @ drop (length (fst (dedupe src in_place))) src
        else src)"
  by (simp add: dedupe_def range_append_result)

lemma dedupe_distinct:
  assumes "distinct xs"
  shows "fst (dedupe xs in_place) = xs"
proof -
  have "distinct (fst (dedupe xs in_place))" "set (fst (dedupe xs in_place)) = set xs"
    "subseq (fst (dedupe xs in_place)) xs"
    using dedupe_slice.keys_distinct [of xs in_place] dedupe_slice.keys_kept [of xs in_place]
      dedupe_slice.in_order [of xs in_place] by simp_all
  with assms show ?thesis by (metis distinct_card subseq_same_length)
qed

lemma filter_kept: "kept (\<lambda>_ v. (f v, ())) s xs = filter f xs"
  by (induction xs) auto

lemma util_filter_result: "fst (util_filter s f in_place) = filter f s"
  by (simp add: util_filter_def range_append_result filter_kept)

text \<open>
  \<^verbatim>\<open>Dedupe\<close> returns the distinct elements of the slice in the order of their
  first occurrence, in place or not; when it works in place, the caller's slice starts with
  the result and keeps its old elements behind it, and otherwise it is untouched.
\<close>

theorem dedupe_first_occurrences:
  "let (d, src') = dedupe src in_place in
     distinct d \<and> set d = set src \<and> subseq d src \<and> d = fst (dedupe src (\<not> in_place)) \<and>
     src' = (if in_place then d @ drop (length d) src else src)"
proof -
  have "fst (dedupe src in_place) = fst (dedupe src (\<not> in_place))"
    by (simp add: dedupe_def range_append_result)
  then show ?thesis
    using dedupe_slice.keys_distinct [of src in_place] dedupe_slice.keys_kept [of src in_place]
      dedupe_slice.in_order [of src in_place] dedupe_array [of src in_place]
    by (simp add: split_beta)
qed

text \<open>
  \<^verbatim>\<open>DedupeWithTranslate\<close> keeps one element per translated value, namely the
  first one of the slice with that value, and keeps the slice's order.
\<close>

theorem dedupe_with_translate_first_per_key:
  "let d = fst (dedupe_with_translate src in_place f) in
     distinct (map f d) \<and> f ` set d = f ` set src \<and> subseq d src \<and>
     (\<forall>x \<in> set d. \<exists>pre post. src = pre @ x # post \<and> f x \<notin> f ` set pre)"
  using dedupe_translated.keys_distinct dedupe_translated.keys_kept dedupe_translated.in_order
    dedupe_translated.first_kept
  by (metis (mono_tags, lifting))

theorem dedupe_with_translate_first_per_key_witness:
  "let d = fst (dedupe_with_translate [3, 1, 5, 2 :: nat] True even) in
     distinct (map even d) \<and> even ` set d = even ` set [3, 1, 5, 2 :: nat] \<and>
     subseq d [3, 1, 5, 2] \<and>
     (\<forall>x \<in> set d. \<exists>pre post. [3, 1, 5, 2] = pre @ x # post \<and> even x \<notin> even ` set pre)"
  by (rule dedupe_with_translate_first_per_key)

section \<open>Chunks\<close>

function chunks_of :: "nat \<Rightarrow> 'a list \<Rightarrow> 'a list list" where
  "chunks_of n xs = (if xs = [] \<or> n = 0 then [] else take n xs # chunks_of n (drop n xs))"
  by pat_completeness auto
termination
  by (relation "measure (\<lambda>(n, xs). length xs)") auto

declare chunks_of.simps [simp del]

lemma chunks_of_Nil [simp]: "chunks_of n [] = []"
  by (simp add: chunks_of.simps)

lemma chunks_of_step: "0 < n \<Longrightarrow> xs \<noteq> [] \<Longrightarrow> chunks_of n xs = take n xs # chunks_of n (drop n xs)"
  by (simp add: chunks_of.simps [of n xs])

lemma concat_chunks_of: "0 < n \<Longrightarrow> concat (chunks_of n xs) = xs"
  by (induction n xs rule: chunks_of.induct)
    (metis append_take_drop_id chunks_of_Nil chunks_of_step concat.simps neq0_conv)

lemma chunks_of_lengths:
  "0 < n \<Longrightarrow> c \<in> set (chunks_of n xs) \<Longrightarrow> c \<noteq> [] \<and> length c \<le> n"
proof (induction n xs rule: chunks_of.induct)
  case (1 n xs)
  then show ?case
    by (cases "xs = []") (auto simp: chunks_of_step)
qed

lemma chunks_of_full:
  "0 < n \<Longrightarrow> c \<in> set (butlast (chunks_of n xs)) \<Longrightarrow> length c = n"
proof (induction n xs rule: chunks_of.induct)
  case (1 n xs)
  then have xs: "xs \<noteq> []" by auto
  show ?case
  proof (cases "length xs \<le> n")
    case True
    with 1 xs show ?thesis by (simp add: chunks_of_step)
  next
    case False
    then have "drop n xs \<noteq> []" by simp
    with 1 xs False show ?thesis
      by (auto simp: chunks_of_step split: if_splits)
  qed
qed

lemma chunk_loop_chunks_of:
  "0 < n \<Longrightarrow> 0 \<le> i \<Longrightarrow> chunk_loop s n i acc = Some (Ok (acc @ chunks_of (nat n) (drop (nat i) s)))"
proof (induction "length s - nat i" arbitrary: i acc rule: less_induct)
  case less
  show ?case
  proof (cases "i < int (length s)")
    case False
    then show ?thesis by (simp add: chunk_loop.simps [of s n i])
  next
    case True
    let ?upto = "if i + n > int (length s) then int (length s) else i + n"
    have piece: "take (nat (?upto - i)) (drop (nat i) s) = take (nat n) (drop (nat i) s)"
      using True less.prems by auto
    have shrink: "length s - nat (i + n) < length s - nat i" using True less.prems by linarith
    have "chunk_loop s n (i + n) (acc @ [take (nat n) (drop (nat i) s)])
        = Some (Ok ((acc @ [take (nat n) (drop (nat i) s)]) @ chunks_of (nat n) (drop (nat (i + n)) s)))"
      by (rule less.hyps [OF shrink]) (use less.prems in simp_all)
    moreover have "drop (nat (i + n)) s = drop (nat n) (drop (nat i) s)"
      using less.prems by (simp add: nat_add_distrib add.commute)
    moreover have "chunks_of (nat n) (drop (nat i) s)
        = take (nat n) (drop (nat i) s) # chunks_of (nat n) (drop (nat n) (drop (nat i) s))"
      using True less.prems by (intro chunks_of_step) auto
    ultimately show ?thesis
      using True less.prems by (subst chunk_loop.simps) (simp only: Let_def piece, simp)
  qed
qed

lemma chunk_by_loop_chunks_of:
  "0 < n \<Longrightarrow> items \<noteq> [] \<Longrightarrow> chunk_by_loop n items acc = Some (Ok (acc @ chunks_of (nat n) items))"
proof (induction "length items" arbitrary: items acc rule: less_induct)
  case less
  show ?case
  proof (cases "n < int (length items)")
    case False
    then have "take (nat n) items = items" "drop (nat n) items = []" using less.prems by auto
    with False less.prems show ?thesis
      by (simp add: chunk_by_loop.simps [of n items] chunks_of_step)
  next
    case True
    then have "length (drop (nat n) items) < length items" "drop (nat n) items \<noteq> []"
      using less.prems by auto
    from less.hyps [OF this(1) less.prems(1) this(2)] True less.prems show ?thesis
      by (simp add: chunk_by_loop.simps [of n items] chunks_of_step)
  qed
qed

lemma chunk_loop_zero:
  assumes "chunk_loop s n i acc = Some y"
  shows "n = 0 \<longrightarrow> 0 \<le> i \<longrightarrow> \<not> i < int (length s)"
proof (rule chunk_loop.raw_induct [where P = "\<lambda>s n i acc y. n = 0 \<longrightarrow> 0 \<le> i \<longrightarrow> \<not> i < int (length s)",
    OF _ assms])
  fix rec s n i acc y
  assume IH: "\<And>s n i acc y. rec s n i acc = Some y \<Longrightarrow> n = 0 \<longrightarrow> 0 \<le> i \<longrightarrow> \<not> i < int (length s)"
    and step: "(if i < int (length s)
      then let end1 = i + n; end2 = if int (length s) < end1 then int (length s) else end1
           in if 0 \<le> i \<and> i \<le> end2
              then rec s n (i + n) (acc @ [take (nat (end2 - i)) (drop (nat i) s)])
              else Some (Panic SliceBounds)
      else Some (Ok acc)) = Some y"
  show "n = 0 \<longrightarrow> 0 \<le> i \<longrightarrow> \<not> i < int (length s)"
    using step IH [of s 0 i] by (auto simp: Let_def)
qed

lemma chunk_by_loop_zero:
  assumes "chunk_by_loop n items acc = Some y"
  shows "n = 0 \<longrightarrow> items = []"
proof (rule chunk_by_loop.raw_induct [where P = "\<lambda>n items acc y. n = 0 \<longrightarrow> items = []", OF _ assms])
  fix rec n items acc y
  assume IH: "\<And>n items acc y. rec n items acc = Some y \<Longrightarrow> n = 0 \<longrightarrow> items = []"
    and step: "(if n < int (length items)
      then if n < 0 then Some (Panic SliceBounds)
           else rec n (drop (nat n) items) (acc @ [take (nat n) items])
      else Some (Ok (acc @ [items]))) = Some y"
  show "n = 0 \<longrightarrow> items = []"
    using step IH [of 0 items] by (auto split: if_splits)
qed

text \<open>
  For a positive size, \<^verbatim>\<open>Chunk\<close> returns and partitions the slice: the chunks in
  order are the slice, none is empty or too long, and all but the last are full. \<^verbatim>\<open>ChunkBy\<close>
  returns the same chunks for a non-empty slice.
\<close>

theorem chunk_partitions:
  assumes "0 < n"
  shows "\<exists>cs. util_chunk s n = Some (Ok cs) \<and> concat cs = s \<and>
     (\<forall>c \<in> set cs. c \<noteq> [] \<and> length c \<le> nat n) \<and> (\<forall>c \<in> set (butlast cs). length c = nat n) \<and>
     (s \<noteq> [] \<longrightarrow> chunk_by s n = Some (Ok cs))"
proof -
  have n: "0 < nat n" using assms by simp
  have "util_chunk s n = Some (Ok (chunks_of (nat n) s))"
    by (simp add: util_chunk_def chunk_loop_chunks_of [OF assms])
  moreover have "chunk_by s n = Some (Ok (chunks_of (nat n) s))" if "s \<noteq> []"
    by (simp add: chunk_by_def chunk_by_loop_chunks_of [OF assms that])
  ultimately show ?thesis
    using concat_chunks_of [OF n] chunks_of_lengths [OF n] chunks_of_full [OF n] by blast
qed

theorem chunk_partitions_witness:
  "\<exists>cs. util_chunk ''abcde'' 2 = Some (Ok cs) \<and> concat cs = ''abcde'' \<and> chunk_by ''abcde'' 2 = Some (Ok cs)"
  using chunk_partitions [of 2 "''abcde''"] by auto

text \<open>
  With chunk size 0 neither function returns on a non-empty slice, and with a
  negative size \<^verbatim>\<open>Chunk\<close> panics there.
\<close>

theorem chunk_bad_size:
  assumes "s \<noteq> []"
  shows "util_chunk s 0 = None \<and> chunk_by s 0 = None \<and>
    (n < 0 \<longrightarrow> util_chunk s n = Some (Panic SliceBounds))"
proof -
  have "util_chunk s 0 \<noteq> Some y" "chunk_by s 0 \<noteq> Some y" for y
    using assms chunk_loop_zero [of s 0 0 "[]" y] chunk_by_loop_zero [of 0 s "[]" y]
    by (auto simp: util_chunk_def chunk_by_def)
  moreover have "util_chunk s n = Some (Panic SliceBounds)" if "n < 0"
    using assms that by (simp add: util_chunk_def chunk_loop.simps [of s n 0 "[]"])
  ultimately show ?thesis by (metis not_Some_eq)
qed

theorem chunk_bad_size_witness:
  "util_chunk ''ab'' 0 = None \<and> chunk_by ''ab'' 0 = None \<and>
    (- 1 < (0 :: int) \<longrightarrow> util_chunk ''ab'' (- 1) = Some (Panic SliceBounds))"
  by (rule chunk_bad_size) simp

section \<open>Hex strings without their left zeros\<close>

lemma skip_zeros_drop:
  "skip_zeros whole i cs
     = (if \<exists>c \<in> set cs. c \<noteq> CHR ''0'' then drop (i + length (takeWhile (\<lambda>c. c = CHR ''0'') cs)) whole
        else whole)"
  by (induction cs arbitrary: i) auto

lemma nat_digits_zeros:
  "1 < b \<Longrightarrow> nat_digits b 0 cs = nat_digits b 0 (dropWhile (\<lambda>c. c = CHR ''0'') cs)"
proof (induction cs)
  case (Cons c cs)
  have "digit_val CHR ''0'' = Some 0" by (simp add: digit_val_def)
  with Cons show ?case by simp
qed simp

lemma remove_zeros_plain:
  assumes "\<not> has_prefix s ''0x''" and "s \<noteq> ''0x''"
  shows "remove_left_padded_zeros s
    = (let t = dropWhile (\<lambda>c. c = CHR ''0'') s in if t = [] then ''0'' else t)"
proof (cases "\<exists>c \<in> set s. c \<noteq> CHR ''0''")
  case True
  then have "filter (\<lambda>c. c \<noteq> CHR ''0'') s \<noteq> []" "dropWhile (\<lambda>c. c = CHR ''0'') s \<noteq> []"
    by (auto simp: filter_empty_conv dropWhile_eq_Nil_conv)
  with assms True show ?thesis
    by (simp add: remove_left_padded_zeros_def trim_prefix_def replace_single_delete
        skip_zeros_drop dropWhile_eq_drop Let_def)
next
  case False
  then have "filter (\<lambda>c. c \<noteq> CHR ''0'') s = []" "dropWhile (\<lambda>c. c = CHR ''0'') s = []"
    by (auto simp: filter_empty_conv dropWhile_eq_Nil_conv)
  with assms show ?thesis
    by (simp add: remove_left_padded_zeros_def trim_prefix_def replace_single_delete Let_def)
qed

lemma remove_zeros_prefixed:
  "remove_left_padded_zeros (''0x'' @ s)
    = (let t = dropWhile (\<lambda>c. c = CHR ''0'') s in if t = [] then ''0'' else t)"
proof (cases "\<exists>c \<in> set s. c \<noteq> CHR ''0''")
  case True
  then have "filter (\<lambda>c. c \<noteq> CHR ''0'') s \<noteq> []" "dropWhile (\<lambda>c. c = CHR ''0'') s \<noteq> []" "s \<noteq> []"
    by (auto simp: filter_empty_conv dropWhile_eq_Nil_conv)
  with True trim_prefix_append [of "''0x''" s] show ?thesis
    by (simp add: remove_left_padded_zeros_def replace_single_delete
        skip_zeros_drop dropWhile_eq_drop Let_def)
next
  case False
  then have "filter (\<lambda>c. c \<noteq> CHR ''0'') s = []" "dropWhile (\<lambda>c. c = CHR ''0'') s = []"
    by (auto simp: filter_empty_conv dropWhile_eq_Nil_conv)
  with trim_prefix_append [of "''0x''" s] show ?thesis
    by (simp add: remove_left_padded_zeros_def replace_single_delete Let_def)
qed

lemma nat_digits_hex_chars: "nat_digits 16 acc s = Some v \<Longrightarrow> CHR ''x'' \<notin> set s"
proof (induction s arbitrary: acc)
  case (Cons c cs)
  have "digit_val CHR ''x'' = Some 33" by (simp add: digit_val_def)
  with Cons.prems have "c \<noteq> CHR ''x''" by (auto split: option.splits if_splits)
  with Cons show ?case by (auto split: option.splits if_splits)
qed simp

text \<open>
  \<^verbatim>\<open>RemoveLeftPaddedZeros\<close> keeps the value of a string of hex digits, with or
  without the 0x prefix, and its result has no leading zero unless it is 0 itself.
\<close>

theorem remove_left_padded_zeros_value:
  assumes "nat_of_text 16 s = Some v" and "t = s \<or> t = ''0x'' @ s"
  shows "nat_of_text 16 (remove_left_padded_zeros t) = Some v \<and>
    (remove_left_padded_zeros t = ''0'' \<or> hd (remove_left_padded_zeros t) \<noteq> CHR ''0'')"
proof -
  let ?d = "dropWhile (\<lambda>c. c = CHR ''0'') s"
  from assms(1) have s: "nat_digits 16 0 s = Some v" "s \<noteq> []"
    by (simp_all add: nat_of_text_def split: if_splits)
  then have x: "CHR ''x'' \<notin> set s" using nat_digits_hex_chars by blast
  then have "\<not> has_prefix s ''0x''" "s \<noteq> ''0x''" by (auto simp: has_prefix_iff)
  have r: "remove_left_padded_zeros t = (if ?d = [] then ''0'' else ?d)"
    using assms(2)
  proof
    assume "t = s"
    then show ?thesis
      using remove_zeros_plain [OF \<open>\<not> has_prefix s ''0x''\<close> \<open>s \<noteq> ''0x''\<close>] by (simp only: Let_def)
  next
    assume "t = ''0x'' @ s"
    then show ?thesis using remove_zeros_prefixed [of s] by (simp only: Let_def)
  qed
  have d: "nat_digits 16 0 ?d = Some v" using s nat_digits_zeros [of 16 s] by simp
  show ?thesis
  proof (cases "?d = []")
    case True
    with d have "v = 0" by simp
    with True r show ?thesis by (simp add: nat_of_text_def digit_val_def)
  next
    case False
    then have "remove_left_padded_zeros t = ?d" using r by (simp only: if_False)
    with False d hd_dropWhile [OF False] show ?thesis
      by (simp add: nat_of_text_def del: dropWhile_eq_Nil_conv)
  qed
qed

theorem remove_left_padded_zeros_value_witness:
  "nat_of_text 16 (remove_left_padded_zeros ''0x00ab'') = Some 171 \<and>
    (remove_left_padded_zeros ''0x00ab'' = ''0'' \<or> hd (remove_left_padded_zeros ''0x00ab'') \<noteq> CHR ''0'')"
  by (rule remove_left_padded_zeros_value [of "''00ab''"]) (simp_all add: nat_of_text_def digit_val_def)

end
