(* ===== verification/PersistIds.thy ===== *)
theory PersistIds
  imports UtilProps
begin

text \<open>
  \<^verbatim>\<open>service/persist/persist.go\<close>: database ids, the nullable scalars with their database
  readers and writers, the removal of duplicate ids, and the GraphQL enumeration
  \<^verbatim>\<open>DarkMode\<close>. A method with a pointer receiver maps the old value of the receiver to its new
  value. The contract every GraphQL enumeration of the package meets is the locale
  \<open>gql_enum\<close>.
\<close>

section \<open>Values of type interface{}\<close>

text \<open>The dynamic types the code tells apart; a database driver or gqlgen hands them over.\<close>

datatype go_any =
    AnyNil
  | AnyString string
  | AnyBytes bytes
  | AnyInt int
  | AnyInt32 i32
  | AnyInt64 i64
  | AnyFloat64 f64
  | AnyBool bool
  | AnyDBID string
  | AnyOther nat

text \<open>Type assertions without the second result panic on another type.\<close>

fun assert_string :: "go_any \<Rightarrow> string outcome" where
  "assert_string (AnyString s) = Ok s"
| "assert_string _ = Panic TypeAssertion"

fun assert_int64 :: "go_any \<Rightarrow> i64 outcome" where
  "assert_int64 (AnyInt64 i) = Ok i"
| "assert_int64 _ = Panic TypeAssertion"

fun assert_bool :: "go_any \<Rightarrow> bool outcome" where
  "assert_bool (AnyBool b) = Ok b"
| "assert_bool _ = Panic TypeAssertion"

fun assert_bytes :: "go_any \<Rightarrow> bytes outcome" where
  "assert_bytes (AnyBytes bs) = Ok bs"
| "assert_bytes _ = Panic TypeAssertion"

section \<open>Ids and nullable scalars\<close>

fun dbid_scan :: "string \<Rightarrow> go_any \<Rightarrow> string outcome" where
  "dbid_scan d AnyNil = Ok ''''"
| "dbid_scan d (AnyBytes it) = Ok (string_of it)"
| "dbid_scan d (AnyDBID v) = Ok v"
| "dbid_scan d (AnyString v) = Ok v"
| "dbid_scan d _ = Ok d"

definition dbid_string :: "string \<Rightarrow> string" where
  "dbid_string d = d"

definition dbid_value :: "string \<Rightarrow> go_any" where
  "dbid_value d = AnyString (dbid_string d)"

text \<open>The six characters \<^verbatim>\<open>\u0000\<close> are removed from what is written to a text column.\<close>

definition escaped_nul :: string where
  "escaped_nul = CHR 0x5C # ''u0000''"

definition null_string_value :: "string \<Rightarrow> go_any" where
  "null_string_value n = AnyString (to_valid_utf8 (replace_all n escaped_nul ''''))"

definition null_string_scan :: "go_any \<Rightarrow> string outcome" where
  "null_string_scan v = (if v = AnyNil then Ok '''' else assert_string v)"

definition null_int64_string :: "i64 \<Rightarrow> string" where
  "null_int64_string n = itoa (sint n)"

definition null_int64_value :: "i64 \<Rightarrow> go_any" where
  "null_int64_value n = AnyInt64 n"

definition null_int64_scan :: "go_any \<Rightarrow> i64 outcome" where
  "null_int64_scan v = (if v = AnyNil then Ok 0 else assert_int64 v)"

definition null_int32_int :: "i32 \<Rightarrow> int" where
  "null_int32_int n = sint n"

definition null_int32_string :: "i32 \<Rightarrow> string" where
  "null_int32_string n = itoa (sint n)"

definition null_int32_value :: "i32 \<Rightarrow> go_any" where
  "null_int32_value n = AnyInt32 n"

definition null_int32_scan :: "go_any \<Rightarrow> i32 outcome" where
  "null_int32_scan v = (if v = AnyNil then Ok 0 else map_ok (\<lambda>i. ucast i) (assert_int64 v))"

definition null_bool_string :: "bool \<Rightarrow> string" where
  "null_bool_string n = (if n then ''true'' else ''false'')"

definition null_bool_value :: "bool \<Rightarrow> go_any" where
  "null_bool_value n = AnyBool n"

definition null_bool_scan :: "go_any \<Rightarrow> bool outcome" where
  "null_bool_scan v = (if v = AnyNil then Ok False else assert_bool v)"

definition null_bool_pointer :: "bool \<Rightarrow> bool option" where
  "null_bool_pointer n = Some n"

section \<open>Lists of ids\<close>

text \<open>The map \<^verbatim>\<open>m\<close> only ever holds true, so it is the set of its keys.\<close>

fun remove_duplicates_loop :: "'a set \<Rightarrow> 'a list \<Rightarrow> 'a list \<Rightarrow> 'a list" where
  "remove_duplicates_loop m result [] = result"
| "remove_duplicates_loop m result (val # vals) =
     (if val \<notin> m then remove_duplicates_loop (insert val m) (result @ [val]) vals
      else remove_duplicates_loop m result vals)"

definition remove_duplicate_dbids :: "string list \<Rightarrow> string list" where
  "remove_duplicate_dbids a = remove_duplicates_loop {} [] a"

definition remove_duplicate_addresses :: "string list \<Rightarrow> string list" where
  "remove_duplicate_addresses a = remove_duplicates_loop {} [] a"

definition contains_dbid :: "string list \<Rightarrow> string \<Rightarrow> bool" where
  "contains_dbid src d = contains_elem src d"

fun to_dbids_into :: "string list \<Rightarrow> nat \<Rightarrow> ('a \<Rightarrow> string outcome) \<Rightarrow> 'a list \<Rightarrow> string list outcome" where
  "to_dbids_into result i convert [] = Ok result"
| "to_dbids_into result i convert (v # them) =
     bind_out (convert v) (\<lambda>d. to_dbids_into (result[i := d]) (Suc i) convert them)"

definition to_dbids :: "'a list \<Rightarrow> ('a \<Rightarrow> string outcome) \<Rightarrow> string list outcome" where
  "to_dbids them convert = to_dbids_into (replicate (length them) '''') 0 convert them"

lemma remove_duplicates_loop_snoc:
  "remove_duplicates_loop m result (xs @ [x])
     = remove_duplicates_loop m result xs @ (if x \<in> m \<union> set xs then [] else [x])"
  by (induction xs arbitrary: m result) auto

interpretation duplicate_dbids: first_occurrences remove_duplicate_dbids "\<lambda>d. d"
  by unfold_locales (simp_all add: remove_duplicate_dbids_def remove_duplicates_loop_snoc)

interpretation duplicate_addresses: first_occurrences remove_duplicate_addresses "\<lambda>d. d"
  by unfold_locales (simp_all add: remove_duplicate_addresses_def remove_duplicates_loop_snoc)

text \<open>
  \<^verbatim>\<open>RemoveDuplicateDBIDs\<close> and \<^verbatim>\<open>util.Dedupe\<close> are the same function on ids,
  whether \<^verbatim>\<open>Dedupe\<close> reuses the slice or not, and running either a second time changes nothing.
\<close>

theorem remove_duplicate_dbids_is_dedupe:
  "remove_duplicate_dbids a = fst (dedupe a in_place) \<and>
   remove_duplicate_dbids (remove_duplicate_dbids a) = remove_duplicate_dbids a \<and>
   distinct (remove_duplicate_dbids a) \<and> set (remove_duplicate_dbids a) = set a"
  using duplicate_dbids.unique [OF dedupe_slice.first_occurrences_axioms, of a in_place]
    duplicate_dbids.idempotent [of a] duplicate_dbids.keys_distinct [of a]
    duplicate_dbids.keys_kept [of a]
  by simp

section \<open>GraphQL enumerations\<close>

text \<open>A marshaller writes a JSON string; gqlgen hands the text between the quotes back.\<close>

definition quoted :: "string \<Rightarrow> string" where
  "quoted t = CHR 0x22 # t @ [CHR 0x22]"

definition unquote :: "string \<Rightarrow> string" where
  "unquote s = butlast (tl s)"

lemma unquote_quoted [simp, gql_simps]: "unquote (quoted t) = t"
  by (simp add: unquote_def quoted_def)

locale gql_enum =
  fixes marshal :: "'c \<Rightarrow> string"
    and unmarshal :: "'c \<Rightarrow> go_any \<Rightarrow> 'c outcome"
    and valid :: "'c \<Rightarrow> bool"
  assumes marshal_valid:
      "valid c \<Longrightarrow> \<exists>t. marshal c = quoted t \<and> (\<forall>old. unmarshal old (AnyString t) = Ok c)"
    and unmarshal_other: "(\<And>s. v \<noteq> AnyString s) \<Longrightarrow> \<exists>e. unmarshal old v = Err e"
    and unmarshal_string: "unmarshal old (AnyString s) = Ok c \<Longrightarrow> c = old \<or> valid c"
begin

lemma round_trip: "valid c \<Longrightarrow> unmarshal old (AnyString (unquote (marshal c))) = Ok c"
  using marshal_valid by fastforce

lemma marshal_inj: "valid c \<Longrightarrow> valid d \<Longrightarrow> marshal c = marshal d \<Longrightarrow> c = d"
  using round_trip by (metis outcome.inject(1))

lemma unmarshal_keeps_valid:
  assumes "valid old" and "unmarshal old v = Ok c"
  shows "valid c"
proof (cases "\<exists>s. v = AnyString s")
  case True
  with assms unmarshal_string show ?thesis by blast
next
  case False
  with unmarshal_other [of v old] assms(2) show ?thesis by auto
qed

end

text \<open>\<^verbatim>\<open>DarkMode\<close> is an int with two named values.\<close>

definition dark_mode_disabled :: int where "dark_mode_disabled = 0"
definition dark_mode_enabled :: int where "dark_mode_enabled = 1"

definition dark_mode_unmarshal_gql :: "(string \<Rightarrow> string) \<Rightarrow> int \<Rightarrow> go_any \<Rightarrow> int outcome" where
  "dark_mode_unmarshal_gql ul d v =
     (case v of
        AnyString n \<Rightarrow>
          (let l = to_lower ul n in
           if l = ''disabled'' then Ok dark_mode_disabled
           else if l = ''enabled'' then Ok dark_mode_enabled
           else Ok d)
      | _ \<Rightarrow> Err (ErrText ''darkMode must be a string''))"

definition dark_mode_marshal_gql :: "int \<Rightarrow> string" where
  "dark_mode_marshal_gql d =
     (if d = dark_mode_disabled then quoted ''Disabled''
      else if d = dark_mode_enabled then quoted ''Enabled''
      else '''')"

lemmas dark_mode_defs =
  dark_mode_unmarshal_gql_def dark_mode_marshal_gql_def dark_mode_disabled_def dark_mode_enabled_def

lemma lower_texts [gql_simps]:
  "to_lower ul ''Disabled'' = ''disabled''" "to_lower ul ''Enabled'' = ''enabled''"
  by code_simp+

interpretation dark_mode: gql_enum dark_mode_marshal_gql "dark_mode_unmarshal_gql ul" "\<lambda>d. d \<in> {0, 1}" for ul
proof
  show "\<exists>t. dark_mode_marshal_gql c = quoted t \<and>
      (\<forall>old. dark_mode_unmarshal_gql ul old (AnyString t) = Ok c)" if "c \<in> {0, 1}" for c
    using that by (auto simp: dark_mode_defs gql_simps quoted_def)
  show "\<exists>e. dark_mode_unmarshal_gql ul old v = Err e" if "\<And>s. v \<noteq> AnyString s" for v old
    using that by (cases v) (auto simp: dark_mode_defs)
  show "c = old \<or> c \<in> {0, 1}" if "dark_mode_unmarshal_gql ul old (AnyString s) = Ok c" for old s c
    using that by (auto simp: dark_mode_defs Let_def split: if_splits)
qed

end
