(* ===== verification/Chains.thy ===== *)
theory Chains
  imports PersistIds
begin

text \<open>
  The blockchains, media types and URI types of \<^verbatim>\<open>service/persist/token.go\<close>. \<^verbatim>\<open>Chain\<close> is an
  int and \<^verbatim>\<open>MediaType\<close>, \<^verbatim>\<open>URIType\<close> and \<^verbatim>\<open>TokenOwnershipType\<close> are strings in the code, so
  every value of these types can occur and the named ones are constants.
\<close>

section \<open>Chains\<close>

type_synonym chain = int

definition chain_eth :: chain where "chain_eth = 0"
definition chain_arbitrum :: chain where "chain_arbitrum = 1"
definition chain_polygon :: chain where "chain_polygon = 2"
definition chain_optimism :: chain where "chain_optimism = 3"
definition chain_tezos :: chain where "chain_tezos = 4"
definition chain_poap :: chain where "chain_poap = 5"
definition chain_zora :: chain where "chain_zora = 6"
definition chain_base :: chain where "chain_base = 7"
definition max_chain_value :: chain where "max_chain_value = chain_base"

lemmas chain_defs =
  chain_eth_def chain_arbitrum_def chain_polygon_def chain_optimism_def chain_tezos_def
  chain_poap_def chain_zora_def chain_base_def max_chain_value_def

definition all_chains :: "chain list" where
  "all_chains = [chain_eth, chain_arbitrum, chain_polygon, chain_optimism, chain_tezos, chain_poap,
     chain_zora, chain_base]"

text \<open>The map \<^verbatim>\<open>evmChains\<close>; \<^verbatim>\<open>EvmChains\<close> lists its keys in an order the runtime picks.\<close>

definition evm_chains_map :: "(chain \<times> bool) list" where
  "evm_chains_map = [(chain_eth, True), (chain_optimism, True), (chain_polygon, True),
     (chain_arbitrum, True), (chain_poap, True), (chain_zora, True), (chain_base, True)]"

definition is_evm_chain :: "chain \<Rightarrow> bool" where
  "is_evm_chain c = (case map_of evm_chains_map c of Some b \<Rightarrow> b | None \<Rightarrow> False)"

definition evm_chains :: "(chain list \<Rightarrow> chain list) \<Rightarrow> chain list" where
  "evm_chains order = order (map_keys evm_chains_map)"

definition l1_chains :: "chain \<Rightarrow> chain option" where
  "l1_chains = map_of [(chain_poap, chain_eth), (chain_optimism, chain_eth), (chain_polygon, chain_eth),
     (chain_arbitrum, chain_eth), (chain_zora, chain_eth), (chain_base, chain_eth),
     (chain_eth, chain_eth), (chain_tezos, chain_tezos)]"

definition l1_chain_groups :: "(chain list \<Rightarrow> chain list) \<Rightarrow> chain \<Rightarrow> chain list option" where
  "l1_chain_groups order = map_of [(chain_eth, evm_chains order), (chain_tezos, [chain_tezos])]"

definition l1_chain :: "chain \<Rightarrow> chain outcome" where
  "l1_chain c = (case l1_chains c of Some lc \<Rightarrow> Ok lc | None \<Rightarrow> Panic (PanicText ''l1 chain not found''))"

definition l1_chain_group :: "(chain list \<Rightarrow> chain list) \<Rightarrow> chain \<Rightarrow> chain list outcome" where
  "l1_chain_group order c =
     bind_out (l1_chain c) (\<lambda>lc. case l1_chain_groups order lc of
         Some cg \<Rightarrow> Ok cg
       | None \<Rightarrow> Panic (PanicText ''chain group not found''))"

definition chain_string :: "chain \<Rightarrow> string" where
  "chain_string c =
     (if c = chain_eth then ''ethereum''
      else if c = chain_arbitrum then ''arbitrum''
      else if c = chain_polygon then ''polygon''
      else if c = chain_optimism then ''optimism''
      else if c = chain_tezos then ''tezos''
      else if c = chain_poap then ''poap''
      else if c = chain_zora then ''zora''
      else if c = chain_base then ''base''
      else itoa c)"

definition chain_normalize_address :: "(string \<Rightarrow> string) \<Rightarrow> chain \<Rightarrow> string \<Rightarrow> string" where
  "chain_normalize_address ul c addr = (if is_evm_chain c then to_lower ul addr else addr)"

definition chain_base_keywords :: "chain \<Rightarrow> string list \<times> string list" where
  "chain_base_keywords c =
     (if c = chain_tezos
      then ([''displayUri'', ''image'', ''thumbnailUri'', ''artifactUri'', ''uri''],
            [''artifactUri'', ''displayUri'', ''uri'', ''image''])
      else ([''image_url'', ''image'', ''imageOriginal''],
            [''animation_url'', ''animation'', ''video'', ''mediaOriginal'']))"

definition chain_scan :: "go_any \<Rightarrow> chain outcome" where
  "chain_scan src = (if src = AnyNil then Ok 0 else map_ok sint (assert_int64 src))"

text \<open>A JSON document (an integer in the range of int, a string, null or something else) as \<^verbatim>\<open>json.Unmarshal\<close> reads it into an int and then into a string;
  null leaves the target as it is, anything else is an error of the decoder.\<close>

datatype json_doc = DocInt int | DocString string | DocNull | DocOther gerror

fun chain_of_name :: "string \<Rightarrow> chain option" where
  "chain_of_name n =
     (if n = ''ethereum'' then Some chain_eth
      else if n = ''arbitrum'' then Some chain_arbitrum
      else if n = ''polygon'' then Some chain_polygon
      else if n = ''optimism'' then Some chain_optimism
      else if n = ''tezos'' then Some chain_tezos
      else if n = ''poap'' then Some chain_poap
      else if n = ''zora'' then Some chain_zora
      else if n = ''base'' then Some chain_base
      else None)"

declare chain_of_name.simps [simp del]

fun chain_unmarshal_json :: "(string \<Rightarrow> string) \<Rightarrow> chain \<Rightarrow> json_doc \<Rightarrow> chain outcome" where
  "chain_unmarshal_json ul c (DocInt s) = Ok s"
| "chain_unmarshal_json ul c DocNull = Ok 0"
| "chain_unmarshal_json ul c (DocString s) =
     (case chain_of_name (to_lower ul s) of Some d \<Rightarrow> Ok d | None \<Rightarrow> Ok c)"
| "chain_unmarshal_json ul c (DocOther e) = Err e"

definition chain_unmarshal_gql :: "(string \<Rightarrow> string) \<Rightarrow> chain \<Rightarrow> go_any \<Rightarrow> chain outcome" where
  "chain_unmarshal_gql ul c v =
     (case v of
        AnyString n \<Rightarrow> (case chain_of_name (to_lower ul n) of Some d \<Rightarrow> Ok d | None \<Rightarrow> Ok c)
      | _ \<Rightarrow> Err (ErrText ''Chain must be an string''))"

definition chain_marshal_gql :: "chain \<Rightarrow> string" where
  "chain_marshal_gql c =
     (if c = chain_eth then quoted ''Ethereum''
      else if c = chain_tezos then quoted ''Tezos''
      else if c = chain_poap then quoted ''POAP''
      else if c = chain_arbitrum then quoted ''Arbitrum''
      else if c = chain_polygon then quoted ''Polygon''
      else if c = chain_optimism then quoted ''Optimism''
      else if c = chain_zora then quoted ''Zora''
      else if c = chain_base then quoted ''Base''
      else '''')"

definition chain_valid :: "chain \<Rightarrow> bool" where
  "chain_valid c \<longleftrightarrow> 0 \<le> c \<and> c \<le> max_chain_value"

lemma chain_valid_cases:
  "chain_valid c \<longleftrightarrow> c = 0 \<or> c = 1 \<or> c = 2 \<or> c = 3 \<or> c = 4 \<or> c = 5 \<or> c = 6 \<or> c = 7"
  by (auto simp: chain_valid_def chain_defs)

lemma chain_valid_set: "chain_valid c \<longleftrightarrow> c \<in> set all_chains"
  by (auto simp: chain_valid_cases all_chains_def chain_defs)

lemma chain_of_lower [gql_simps]:
  "chain_of_name (to_lower ul ''Ethereum'') = Some 0" "chain_of_name (to_lower ul ''Arbitrum'') = Some 1"
  "chain_of_name (to_lower ul ''Polygon'') = Some 2" "chain_of_name (to_lower ul ''Optimism'') = Some 3"
  "chain_of_name (to_lower ul ''Tezos'') = Some 4" "chain_of_name (to_lower ul ''POAP'') = Some 5"
  "chain_of_name (to_lower ul ''Zora'') = Some 6" "chain_of_name (to_lower ul ''Base'') = Some 7"
  "chain_of_name (to_lower ul ''ethereum'') = Some 0" "chain_of_name (to_lower ul ''arbitrum'') = Some 1"
  "chain_of_name (to_lower ul ''polygon'') = Some 2" "chain_of_name (to_lower ul ''optimism'') = Some 3"
  "chain_of_name (to_lower ul ''tezos'') = Some 4" "chain_of_name (to_lower ul ''poap'') = Some 5"
  "chain_of_name (to_lower ul ''zora'') = Some 6" "chain_of_name (to_lower ul ''base'') = Some 7"
  by code_simp+

lemma chain_of_name_valid: "chain_of_name n = Some c \<Longrightarrow> chain_valid c"
  by (auto simp: chain_of_name.simps chain_valid_cases chain_defs split: if_splits)

interpretation chain_gql: gql_enum chain_marshal_gql "chain_unmarshal_gql ul" chain_valid for ul
proof
  show "\<exists>t. chain_marshal_gql c = quoted t \<and> (\<forall>old. chain_unmarshal_gql ul old (AnyString t) = Ok c)"
    if "chain_valid c" for c
    using that
    by (auto simp: chain_valid_cases chain_marshal_gql_def chain_unmarshal_gql_def chain_defs gql_simps
        quoted_def)
  show "\<exists>e. chain_unmarshal_gql ul old v = Err e" if "\<And>s. v \<noteq> AnyString s" for v old
    using that by (cases v) (auto simp: chain_unmarshal_gql_def)
  show "c = old \<or> chain_valid c" if "chain_unmarshal_gql ul old (AnyString s) = Ok c" for old s c
    using that chain_of_name_valid by (auto simp: chain_unmarshal_gql_def split: option.splits)
qed

text \<open>
  The three text forms of a chain agree: for every supported chain the GraphQL
  form and the name \<^verbatim>\<open>String\<close> prints are read back as that chain, whatever value the
  receiver had, and the database integer too.
\<close>

theorem chain_text_roundtrip:
  assumes "chain_valid c"
  shows "chain_unmarshal_gql ul old (AnyString (unquote (chain_marshal_gql c))) = Ok c \<and>
    chain_unmarshal_json ul old (DocString (chain_string c)) = Ok c \<and>
    chain_unmarshal_json ul old (DocInt c) = Ok c \<and>
    chain_scan (AnyInt64 (word_of_int c)) = Ok c"
proof -
  have "chain_unmarshal_json ul old (DocString (chain_string c)) = Ok c"
    using assms by (auto simp: chain_valid_cases chain_string_def chain_defs gql_simps)
  moreover have "chain_scan (AnyInt64 (word_of_int c)) = Ok c"
    using assms by (auto simp: chain_valid_cases chain_scan_def)
  ultimately show ?thesis using chain_gql.round_trip [OF assms] by simp
qed

theorem chain_text_roundtrip_witness:
  "chain_unmarshal_gql id 0 (AnyString (unquote (chain_marshal_gql 5))) = Ok 5 \<and>
    chain_unmarshal_json id 0 (DocString (chain_string 5)) = Ok 5 \<and>
    chain_unmarshal_json id 0 (DocInt 5) = Ok 5 \<and> chain_scan (AnyInt64 (word_of_int 5)) = Ok 5"
  by (rule chain_text_roundtrip) (simp add: chain_valid_cases)

text \<open>
  For every chain the validators accept, the layer-1 chain and its group exist,
  so neither lookup panics, the chain is in its group, and the chains that share the layer-1
  chain Ethereum are exactly the EVM chains, whose addresses are lowered.
\<close>

theorem l1_chain_group_contains:
  assumes "chain_valid c" and "\<And>xs. set (order xs) = set xs"
  shows "\<exists>g. l1_chain_group order c = Ok g \<and> c \<in> set g \<and>
    (\<forall>d \<in> set g. l1_chain d = l1_chain c) \<and> (l1_chain c = Ok chain_eth \<longleftrightarrow> is_evm_chain c)"
  using assms
  by (auto simp: chain_valid_cases l1_chain_group_def l1_chain_def l1_chains_def l1_chain_groups_def
      evm_chains_def evm_chains_map_def is_evm_chain_def map_keys_def chain_defs)

theorem l1_chain_group_contains_witness:
  "\<exists>g. l1_chain_group rev 7 = Ok g \<and> 7 \<in> set g \<and>
    (\<forall>d \<in> set g. l1_chain d = l1_chain 7) \<and> (l1_chain 7 = Ok chain_eth \<longleftrightarrow> is_evm_chain 7)"
  by (rule l1_chain_group_contains) (simp_all add: chain_valid_cases)

end
