(* ===== verification/MediaTypes.thy ===== *)
theory MediaTypes
  imports Chains
begin

text \<open>
  Media types and token URIs of \<^verbatim>\<open>service/persist/token.go\<close>: content types, the priority
  order between media types, and the classification of a token URI by its text.
\<close>

section \<open>Media types\<close>

type_synonym media_type = string

definition media_type_priorities :: "media_type list" where
  "media_type_priorities = [''html'', ''audio'', ''animation'', ''video'', ''gif'', ''svg'', ''image'',
     ''json'', ''text'', ''syncing'', ''unknown'', ''invalid'']"

definition media_to_content_type :: "media_type \<Rightarrow> string" where
  "media_to_content_type m =
     (if m = ''video'' then ''video/mp4''
      else if m = ''image'' then ''image/jpeg''
      else if m = ''gif'' then ''image/gif''
      else if m = ''svg'' then ''image/svg+xml''
      else if m = ''text'' then ''text/plain''
      else if m = ''html'' then ''text/html''
      else if m = ''audio'' then ''audio/mpeg''
      else if m = ''json'' then ''application/json''
      else if m = ''animation'' then ''model/gltf-binary''
      else if m = ''pdf'' then ''application/pdf''
      else '''')"

definition media_is_valid :: "media_type \<Rightarrow> bool" where
  "media_is_valid m \<longleftrightarrow> m \<noteq> ''unknown'' \<and> m \<noteq> ''invalid'' \<and> m \<noteq> ''syncing'' \<and> m \<noteq> ''''"

definition media_is_image_like :: "media_type \<Rightarrow> bool" where
  "media_is_image_like m \<longleftrightarrow> m = ''image'' \<or> m = ''gif'' \<or> m = ''svg''"

definition media_is_animation_like :: "media_type \<Rightarrow> bool" where
  "media_is_animation_like m \<longleftrightarrow> m = ''video'' \<or> m = ''html'' \<or> m = ''audio'' \<or> m = ''animation''"

fun more_priority_loop :: "media_type list \<Rightarrow> media_type \<Rightarrow> media_type \<Rightarrow> bool" where
  "more_priority_loop [] m other = True"
| "more_priority_loop (t # ts) m other =
     (if t = m then True else if t = other then False else more_priority_loop ts m other)"

definition media_is_more_priority_than :: "media_type \<Rightarrow> media_type \<Rightarrow> bool" where
  "media_is_more_priority_than m other = more_priority_loop media_type_priorities m other"

text \<open>Scanning NULL leaves the receiver alone.\<close>

definition media_scan :: "media_type \<Rightarrow> go_any \<Rightarrow> media_type outcome" where
  "media_scan m src = (if src = AnyNil then Ok m else assert_string src)"

definition media_value :: "media_type \<Rightarrow> go_any" where
  "media_value m = AnyString m"

definition token_type_scan :: "string \<Rightarrow> go_any \<Rightarrow> string outcome" where
  "token_type_scan t src = (if src = AnyNil then Ok t else assert_string src)"

definition token_type_value :: "string \<Rightarrow> go_any" where
  "token_type_value t = AnyString t"

text \<open>The position in the priority list, past its end for a type that is not listed.\<close>

fun priority_from :: "media_type list \<Rightarrow> media_type \<Rightarrow> nat" where
  "priority_from [] m = 0"
| "priority_from (t # ts) m = (if t = m then 0 else Suc (priority_from ts m))"

definition media_priority :: "media_type \<Rightarrow> nat" where
  "media_priority m = priority_from media_type_priorities m"

lemma more_priority_loop_iff: "more_priority_loop ts m other \<longleftrightarrow> priority_from ts m \<le> priority_from ts other"
  by (induction ts) auto

text \<open>
  \<^verbatim>\<open>IsMorePriorityThan\<close> is the order of the priority list: it compares
  positions, with every unlisted type behind all listed ones and level with the other
  unlisted ones. So it is reflexive, total and transitive, and two listed types that each
  have priority over the other are the same.
\<close>

theorem media_priority_order:
  "(media_is_more_priority_than m o' \<longleftrightarrow> media_priority m \<le> media_priority o') \<and>
   media_is_more_priority_than m m \<and>
   (media_is_more_priority_than m o' \<or> media_is_more_priority_than o' m) \<and>
   (media_is_more_priority_than m o' \<longrightarrow> media_is_more_priority_than o' n \<longrightarrow> media_is_more_priority_than m n) \<and>
   (media_is_more_priority_than m o' \<longrightarrow> media_is_more_priority_than o' m \<longrightarrow>
      m \<in> set media_type_priorities \<longrightarrow> m = o')"
proof -
  have inj: "priority_from ts m = priority_from ts o' \<Longrightarrow> m \<in> set ts \<Longrightarrow> m = o'" for ts
    by (induction ts) (auto split: if_splits)
  show ?thesis
    using inj [of media_type_priorities]
    by (auto simp: media_is_more_priority_than_def more_priority_loop_iff media_priority_def)
qed

theorem media_priority_order_witness:
  "media_is_more_priority_than ''video'' ''video'' \<and>
   (media_is_more_priority_than ''video'' ''image'' \<longleftrightarrow> media_priority ''video'' \<le> media_priority ''image'')"
  using media_priority_order [of "''video''" "''image''" "''text''"] by blast

section \<open>URI types\<close>

type_synonym uri_type = string

definition raw_uri_types :: "uri_type list" where
  "raw_uri_types = [''base64json'', ''base64html'', ''base64svg'', ''base64bmp'', ''base64png'',
     ''base64jpeg'', ''base64gif'', ''base64wav'', ''base64mp3'', ''json'', ''svg'', ''ens'']"

definition uri_is_raw :: "uri_type \<Rightarrow> bool" where
  "uri_is_raw u \<longleftrightarrow> u \<in> set raw_uri_types"

definition uri_to_media_type :: "uri_type \<Rightarrow> media_type" where
  "uri_to_media_type u =
     (if u = ''base64json'' \<or> u = ''json'' then ''json''
      else if u = ''base64svg'' \<or> u = ''svg'' then ''svg''
      else if u = ''base64bmp'' then ''image''
      else if u = ''base64png'' then ''image''
      else if u = ''base64html'' then ''html''
      else if u = ''base64jpeg'' then ''image''
      else if u = ''base64gif'' then ''gif''
      else if u = ''base64mp3'' then ''audio''
      else if u = ''base64wav'' then ''audio''
      else ''unknown'')"

text \<open>A data URI of some media type with a base64 body, and the plain prefixes that imply it.\<close>

definition data_base64 :: "string \<Rightarrow> string \<Rightarrow> bool" where
  "data_base64 mime s \<longleftrightarrow>
     has_prefix s (''data:'' @ mime @ '';base64,'') \<or>
     has_prefix s (''data:'' @ mime @ '';charset=utf-8;base64,'') \<or>
     has_prefix s (''data:'' @ mime) \<and> str_contains s '';base64,''"

definition data_base64_svg :: "string \<Rightarrow> bool" where
  "data_base64_svg s \<longleftrightarrow>
     has_prefix s ''data:image/svg+xml;base64,'' \<or>
     has_prefix s ''data:image/svg xml;base64,'' \<or>
     has_prefix s ''data:image/svg+xml'' \<and> str_contains s '';base64,'' \<or>
     has_prefix s ''data:image/svg xml'' \<and> str_contains s '';base64,''"

definition token_uri_type :: "string \<Rightarrow> uri_type" where
  "token_uri_type uri =
     (let s = trim_space uri in
      if has_prefix s ''ipfs'' \<or> has_prefix s ''Qm'' then ''ipfs''
      else if has_prefix s ''ar://'' \<or> has_prefix s ''arweave://'' then ''arweave''
      else if data_base64 ''text/html'' s then ''base64html''
      else if data_base64 ''application/json'' s then ''base64json''
      else if data_base64_svg s then ''base64svg''
      else if data_base64 ''image/bmp'' s then ''base64bmp''
      else if data_base64 ''image/png'' s then ''base64png''
      else if data_base64 ''image/jpeg'' s then ''base64jpeg''
      else if data_base64 ''image/gif'' s then ''base64gif''
      else if data_base64 ''audio/wav'' s then ''base64wav''
      else if data_base64 ''audio/mpeg'' s then ''base64mp3''
      else if str_contains s ''ipfs.io/api'' then ''ipfs-api''
      else if str_contains s ''/ipfs/'' then ''ipfs-gateway''
      else if has_prefix s ''https://arweave.net/'' then ''arweave-gateway''
      else if has_prefix s ''http'' \<or> has_prefix s ''https'' then ''http''
      else if has_prefix s ''{'' \<or> has_prefix s ''['' \<or> has_prefix s ''data:application/json'' \<or>
              has_prefix s ''data:text/plain,{'' then ''json''
      else if has_prefix s ''<svg'' \<or> has_prefix s ''data:image/svg+xml'' \<or>
              has_prefix s ''data:image/svg xml'' then ''svg''
      else if has_suffix s ''.ens'' then ''ens''
      else if s = ''INVALID'' then ''invalid''
      else if s = '''' then ''none''
      else ''unknown'')"

definition token_uri_is_http :: "string \<Rightarrow> bool" where
  "token_uri_is_http uri \<longleftrightarrow> has_prefix (trim_space uri) ''http''"

definition token_uri_is_renderable :: "string \<Rightarrow> bool" where
  "token_uri_is_renderable uri \<longleftrightarrow> token_uri_is_http uri"

definition token_uri_scan :: "go_any \<Rightarrow> string outcome" where
  "token_uri_scan src = (if src = AnyNil then Ok '''' else assert_string src)"

lemma has_prefix_hd: "has_prefix s (c # p) \<Longrightarrow> s \<noteq> [] \<and> hd s = c"
  by (auto simp: has_prefix_iff)

text \<open>
  A URI that is renderable, because it starts with http, is never taken for
  raw data, IPFS or Arweave content: its type is one of the gateway, API and HTTP types.
\<close>

theorem renderable_uri_type:
  assumes "token_uri_is_renderable uri"
  shows "token_uri_type uri \<in> {''ipfs-api'', ''ipfs-gateway'', ''arweave-gateway'', ''http''} \<and>
    \<not> uri_is_raw (token_uri_type uri)"
proof -
  let ?s = "trim_space uri"
  have http: "has_prefix ?s ''http''"
    using assms by (simp add: token_uri_is_renderable_def token_uri_is_http_def)
  have hd: "hd ?s = CHR ''h''" using has_prefix_hd [OF http] by simp
  have no: "\<not> has_prefix ?s (c # p)" if "c \<noteq> CHR ''h''" for c p
    using has_prefix_hd [of ?s c p] hd that by auto
  have "\<not> data_base64 mime ?s" for mime by (simp add: data_base64_def no)
  moreover have "\<not> data_base64_svg ?s" by (simp add: data_base64_svg_def no)
  ultimately show ?thesis
    using http by (simp add: token_uri_type_def Let_def no uri_is_raw_def raw_uri_types_def)
qed

theorem renderable_uri_type_witness:
  "token_uri_type '' http://a.b/ipfs/Qm'' \<in> {''ipfs-api'', ''ipfs-gateway'', ''arweave-gateway'', ''http''} \<and>
    \<not> uri_is_raw (token_uri_type '' http://a.b/ipfs/Qm'')"
proof (rule renderable_uri_type)
  show "token_uri_is_renderable '' http://a.b/ipfs/Qm''" by code_simp
qed

text \<open>
  A URI whose type is a base64 type or JSON or SVG has a media type, so the
  pipeline needs no further download to tell what it is; of the raw types only ENS names
  have none.
\<close>

theorem raw_uri_media_known:
  assumes "uri_is_raw u"
  shows "media_is_valid (uri_to_media_type u) \<longleftrightarrow> u \<noteq> ''ens''"
  using assms
  by (auto simp: uri_is_raw_def raw_uri_types_def uri_to_media_type_def media_is_valid_def)

theorem raw_uri_media_known_witness:
  "media_is_valid (uri_to_media_type ''base64svg'') \<longleftrightarrow> ''base64svg'' \<noteq> ''ens''"
  by (rule raw_uri_media_known) (simp add: uri_is_raw_def raw_uri_types_def)

section \<open>Ownership types\<close>

definition ownership_unmarshal_gql :: "(string \<Rightarrow> string) \<Rightarrow> string \<Rightarrow> go_any \<Rightarrow> string outcome" where
  "ownership_unmarshal_gql ul t v =
     (case v of
        AnyString n \<Rightarrow>
          (let l = to_lower ul n in
           if l = ''holder'' then Ok ''holder'' else if l = ''creator'' then Ok ''creator'' else Ok t)
      | _ \<Rightarrow> Err (ErrText ''TokenOwnershipType must be a string''))"

definition ownership_marshal_gql :: "string \<Rightarrow> string" where
  "ownership_marshal_gql t =
     (if t = ''holder'' then quoted ''holder'' else if t = ''creator'' then quoted ''creator'' else '''')"

lemma ownership_texts [gql_simps]: "to_lower ul ''holder'' = ''holder''" "to_lower ul ''creator'' = ''creator''"
  by code_simp+

interpretation ownership: gql_enum ownership_marshal_gql "ownership_unmarshal_gql ul"
    "\<lambda>t. t \<in> {''holder'', ''creator''}" for ul
proof
  show "\<exists>s. ownership_marshal_gql c = quoted s \<and> (\<forall>old. ownership_unmarshal_gql ul old (AnyString s) = Ok c)"
    if "c \<in> {''holder'', ''creator''}" for c
    using that by (auto simp: ownership_marshal_gql_def ownership_unmarshal_gql_def gql_simps quoted_def)
  show "\<exists>e. ownership_unmarshal_gql ul old v = Err e" if "\<And>s. v \<noteq> AnyString s" for v old
    using that by (cases v) (auto simp: ownership_unmarshal_gql_def)
  show "c = old \<or> c \<in> {''holder'', ''creator''}"
    if "ownership_unmarshal_gql ul old (AnyString s) = Ok c" for old s c
    using that by (auto simp: ownership_unmarshal_gql_def Let_def split: if_splits)
qed

end
