(* ===== verification/TokenIds.thy ===== *)
theory TokenIds
  imports MediaTypes
begin

text \<open>
  Token ids, hex strings, Ethereum addresses and block numbers of
  \<^verbatim>\<open>service/persist/token.go\<close>. \<^verbatim>\<open>big.Int\<close> is \<open>int\<close>, its \<^verbatim>\<open>SetString\<close> and \<^verbatim>\<open>Text\<close> are
  \<open>int_of_text\<close> and \<open>int_text\<close>. The argument \<open>ul\<close> is \<^verbatim>\<open>strings.ToLower\<close> on strings that are
  not ASCII.
\<close>

section \<open>Hex strings from literals\<close>

definition must_hex_string :: "string \<Rightarrow> string outcome" where
  "must_hex_string s0 =
     (let (s, base) = (if has_prefix s0 ''0x'' then (trim_prefix s0 ''0x'', 16) else (s0, 10)) in
      case int_of_text base s of
        Some v \<Rightarrow> Ok (int_text 16 v)
      | None \<Rightarrow> Panic (PanicText (''failed to convert '' @ [CHR 0x27] @ s @ [CHR 0x27] @ '' to a number'')))"

definition must_token_id :: "string \<Rightarrow> string outcome" where
  "must_token_id s = must_hex_string s"

section \<open>DecimalTokenID\<close>

definition decimal_string :: "string \<Rightarrow> string" where
  "decimal_string d = remove_left_padded_zeros d"

fun append_zeros :: "nat \<Rightarrow> string \<Rightarrow> string" where
  "append_zeros 0 base = base"
| "append_zeros (Suc n) base = append_zeros n (base @ ''0'')"

definition expand_numeric_string :: "string \<Rightarrow> string outcome" where
  "expand_numeric_string s =
     (let parts = str_split s ''e'' in
      if length parts = 1 then Ok s
      else if length parts \<noteq> 2 then Err (ErrText (''string does not contain a valid format: '' @ s))
      else (let base = parts ! 0; exp_part = parts ! 1 in
            case atoi exp_part of
              None \<Rightarrow> Err (ErrText (''invalid exponent: '' @ exp_part))
            | Some exponent \<Rightarrow>
                if exponent < 0
                then Err (ErrText (''negative exponent not handled: '' @ itoa exponent))
                else Ok (append_zeros (nat exponent) base)))"

fun decimal_scan :: "go_any \<Rightarrow> string outcome" where
  "decimal_scan AnyNil = Ok ''''"
| "decimal_scan (AnyString str) = expand_numeric_string str"
| "decimal_scan _ = Err (ErrText ''cannot convert to DecimalTokenID'')"

definition decimal_big_int :: "string \<Rightarrow> int outcome" where
  "decimal_big_int d =
     (let normalized = decimal_string d in
      if normalized = '''' then Ok 0
      else (case int_of_text 10 normalized of
              Some i \<Rightarrow> Ok i
            | None \<Rightarrow> Panic (PanicText (''failed to parse token ID '' @ normalized @ '' as base 10''))))"

definition decimal_to_hex :: "string \<Rightarrow> string outcome" where
  "decimal_to_hex d = map_ok (int_text 16) (decimal_big_int d)"

definition decimal_unmarshal_gql :: "go_any \<Rightarrow> string outcome" where
  "decimal_unmarshal_gql v =
     (case v of
        AnyString val \<Rightarrow>
          (case int_of_text 10 val of
             Some i \<Rightarrow> Ok (int_text 10 i)
           | None \<Rightarrow> Err (ErrText (''failed to convert '' @ val @ '' to an integer'')))
      | _ \<Rightarrow> Err (ErrText ''failed to convert to an integer''))"

definition decimal_marshal_gql :: "string \<Rightarrow> string" where
  "decimal_marshal_gql d = quoted (decimal_string d)"

section \<open>HexTokenID\<close>

definition hex_string :: "(string \<Rightarrow> string) \<Rightarrow> string \<Rightarrow> string" where
  "hex_string ul d = to_lower ul (remove_left_padded_zeros d)"

definition hex_value :: "(string \<Rightarrow> string) \<Rightarrow> string \<Rightarrow> go_any" where
  "hex_value ul d = AnyString (hex_string ul d)"

definition hex_scan :: "go_any \<Rightarrow> string outcome" where
  "hex_scan src = (if src = AnyNil then Ok '''' else assert_string src)"

definition hex_big_int :: "(string \<Rightarrow> string) \<Rightarrow> string \<Rightarrow> int outcome" where
  "hex_big_int ul d =
     (let normalized = hex_string ul d in
      if normalized = '''' then Ok 0
      else (case int_of_text 16 normalized of
              Some i \<Rightarrow> Ok i
            | None \<Rightarrow> Panic (PanicText (''failed to parse token ID '' @ normalized @ '' as base 16''))))"

text \<open>\<^verbatim>\<open>%064s\<close> pads on the left with zeros up to 64 runes.\<close>

definition hex_to_uint256_string :: "(string \<Rightarrow> string) \<Rightarrow> string \<Rightarrow> string" where
  "hex_to_uint256_string ul d =
     replicate (64 - rune_count (hex_string ul d)) CHR ''0'' @ hex_string ul d"

definition hex_base10_string :: "(string \<Rightarrow> string) \<Rightarrow> string \<Rightarrow> string outcome" where
  "hex_base10_string ul d = map_ok (int_text 10) (hex_big_int ul d)"

definition hex_to_decimal :: "(string \<Rightarrow> string) \<Rightarrow> string \<Rightarrow> string outcome" where
  "hex_to_decimal ul d = map_ok (int_text 10) (hex_big_int ul d)"

definition hex_to_int :: "(string \<Rightarrow> string) \<Rightarrow> string \<Rightarrow> i64 outcome" where
  "hex_to_int ul d = map_ok word_of_int (hex_big_int ul d)"

definition hex_unmarshal_gql :: "(string \<Rightarrow> string) \<Rightarrow> string \<Rightarrow> go_any \<Rightarrow> string outcome" where
  "hex_unmarshal_gql ul d v =
     (case v of
        AnyString val \<Rightarrow>
          if has_prefix val ''0x'' then Ok (hex_string ul val)
          else (case atoi val of
                  None \<Rightarrow> Err (ErrText (''failed to convert '' @ val @ ''; prepend with '' @ [CHR 0x27] @ ''0x''
                    @ [CHR 0x27] @ '' if val is in hex''))
                | Some i \<Rightarrow> Ok (int_text 16 i))
      | _ \<Rightarrow> Ok d)"

definition hex_marshal_gql :: "(string \<Rightarrow> string) \<Rightarrow> string \<Rightarrow> string" where
  "hex_marshal_gql ul d = quoted (''0x'' @ hex_string ul d)"

definition token_uri_replace_id :: "(string \<Rightarrow> string) \<Rightarrow> string \<Rightarrow> string \<Rightarrow> string" where
  "token_uri_replace_id ul uri d =
     trim_space (replace_all uri [CHR 0x7B, CHR ''i'', CHR ''d'', CHR 0x7D] (hex_to_uint256_string ul d))"

section \<open>HexString\<close>

definition hexstr_string :: "(string \<Rightarrow> string) \<Rightarrow> string \<Rightarrow> string" where
  "hexstr_string ul h = trim_prefix (to_lower ul h) ''0x''"

definition hexstr_big_int :: "(string \<Rightarrow> string) \<Rightarrow> string \<Rightarrow> int" where
  "hexstr_big_int ul h =
     (case int_of_text 16 (hexstr_string ul h) of
        Some it \<Rightarrow> it
      | None \<Rightarrow> (case int_of_text 10 (hexstr_string ul h) of Some it \<Rightarrow> it | None \<Rightarrow> 0))"

definition hexstr_add :: "(string \<Rightarrow> string) \<Rightarrow> string \<Rightarrow> string \<Rightarrow> string" where
  "hexstr_add ul h new = int_text 16 (hexstr_big_int ul h + hexstr_big_int ul new)"

section \<open>Ethereum addresses and block numbers\<close>

definition normalize_address :: "string \<Rightarrow> string" where
  "normalize_address address =
     (let without_prefix = trim_prefix address ''0x'' in
      if length without_prefix < 40 then ''''
      else ''0x'' @ drop (length without_prefix - 40) without_prefix)"

definition eth_address_string :: "(string \<Rightarrow> string) \<Rightarrow> string \<Rightarrow> string" where
  "eth_address_string ul a = normalize_address (to_lower ul a)"

fun eth_address_scan :: "go_any \<Rightarrow> string outcome" where
  "eth_address_scan AnyNil = Ok ''''"
| "eth_address_scan (AnyString it) = Ok it"
| "eth_address_scan i = map_ok string_of (assert_bytes i)"

definition block_number_string :: "u64 \<Rightarrow> string" where
  "block_number_string b = int_text 10 (uint b)"

definition block_number_hex :: "u64 \<Rightarrow> string" where
  "block_number_hex b = int_text 16 (uint b)"

definition block_number_value :: "u64 \<Rightarrow> go_any" where
  "block_number_value b = AnyInt64 b"

definition block_number_scan :: "go_any \<Rightarrow> u64 outcome" where
  "block_number_scan src = (if src = AnyNil then Ok 0 else assert_int64 src)"

section \<open>EthereumTokenIdentifiers\<close>

text \<open>\<^verbatim>\<open>%s\<close> prints an address and a token id with their \<^verbatim>\<open>String\<close> methods.\<close>

definition new_eth_token_identifiers :: "(string \<Rightarrow> string) \<Rightarrow> string \<Rightarrow> string \<Rightarrow> string" where
  "new_eth_token_identifiers ul contract token =
     eth_address_string ul contract @ ''+'' @ hex_string ul token"

definition eth_token_identifiers_parts :: "(string \<Rightarrow> string) \<Rightarrow> string \<Rightarrow> (string \<times> string) outcome" where
  "eth_token_identifiers_parts ul t =
     (let parts = str_split t ''+'' in
      if length parts \<noteq> 2 then Err (ErrText (''invalid token identifiers: '' @ t))
      else Ok (eth_address_string ul (parts ! 0), hex_string ul (parts ! 1)))"

definition eth_token_identifiers_scan :: "go_any \<Rightarrow> string outcome" where
  "eth_token_identifiers_scan i =
     (if i = AnyNil then Ok ''''
      else bind_out (assert_string i) (\<lambda>s.
        let res = str_split s ''+'' in
        if length res \<noteq> 2 then Err (ErrText ''invalid token identifiers'')
        else Ok (res ! 0 @ ''+'' @ res ! 1)))"

end
