(* ===== verification/TokenProps.thy ===== *)
theory TokenProps
  imports TokenIds
begin

text \<open>
  What the token id and address functions guarantee: a canonical text for every number,
  conversions between the decimal and the hexadecimal form that keep the number, and
  normalised addresses.
\<close>

section \<open>Canonical number texts\<close>

lemma digit_char_of_val:
  "digit_val c = Some d \<Longrightarrow> d < 16 \<Longrightarrow> ascii_lower c = digit_char d \<and> is_ascii c"
  by (auto simp: digit_val_def ascii_lower_def digit_char_def is_ascii_def Let_def split: if_splits)

lemma nat_digits_valid:
  "nat_digits b acc s = Some v \<Longrightarrow> c \<in> set s \<Longrightarrow> \<exists>d < b. digit_val c = Some d"
  by (induction s arbitrary: acc) (auto split: option.splits if_splits)

lemma digit_val_lower: "digit_val c = Some d \<Longrightarrow> d < 16 \<Longrightarrow> digit_val (ascii_lower c) = Some d"
  using digit_char_of_val digit_val_char by fastforce

lemma nat_digits_lower:
  "b \<le> 16 \<Longrightarrow> nat_digits b acc s = Some v \<Longrightarrow> nat_digits b acc (map ascii_lower s) = Some v"
  by (induction s arbitrary: acc) (auto split: option.splits if_splits simp: digit_val_lower)

lemma to_lower_hex:
  assumes "nat_digits 16 acc s = Some v"
  shows "to_lower ul s = map ascii_lower s" and "ascii_string s"
proof -
  have "\<forall>c \<in> set s. is_ascii c"
    using nat_digits_valid [OF assms] digit_char_of_val by blast
  then show "to_lower ul s = map ascii_lower s" "ascii_string s"
    by (simp_all add: to_lower_def ascii_string_def list_all_iff)
qed

lemma nat_digits_ge: "nat_digits b acc s = Some v \<Longrightarrow> acc * b ^ length s \<le> v"
proof (induction s arbitrary: acc)
  case (Cons c s)
  then obtain d where "digit_val c = Some d" "nat_digits b (acc * b + d) s = Some v"
    by (auto split: option.splits if_splits)
  with Cons.IH have "(acc * b + d) * b ^ length s \<le> v" by blast
  moreover have "acc * b ^ length (c # s) \<le> (acc * b + d) * b ^ length s"
    by (simp add: algebra_simps)
  ultimately show ?case by (rule order_trans [rotated])
qed simp

lemma char_of_48 [simp]: "char_of (48 :: nat) = CHR ''0''"
  by code_simp

text \<open>A string of lower-case digits without a leading zero is the text of its value.\<close>

lemma canonical_text:
  "1 < b \<Longrightarrow> b \<le> 16 \<Longrightarrow> s \<noteq> [] \<Longrightarrow> hd s \<noteq> CHR ''0'' \<or> s = ''0'' \<Longrightarrow>
    \<forall>c \<in> set s. \<exists>d < b. c = digit_char d \<Longrightarrow> nat_digits b 0 s = Some v \<Longrightarrow> nat_text b v = s"
proof (induction s arbitrary: v rule: rev_induct)
  case (snoc c s)
  obtain d where d: "d < b" "c = digit_char d" using snoc.prems(5) by auto
  obtain w where w: "nat_digits b 0 s = Some w"
    using snoc.prems(6) by (auto simp: nat_digits_append split: option.splits)
  have v: "v = w * b + d"
    using snoc.prems(2,6) w d digit_val_char [of d] by (simp add: nat_digits_append)
  show ?case
  proof (cases "s = []")
    case True
    with w v d show ?thesis by (simp add: nat_text.simps [of b d])
  next
    case False
    then have hd: "hd s \<noteq> CHR ''0''" using snoc.prems(4) by auto
    then have "hd s \<noteq> CHR ''0'' \<or> s = ''0''" ..
    from snoc.IH [OF snoc.prems(1,2) False this _ w] snoc.prems(5) have written: "nat_text b w = s" by simp
    obtain h t where s: "s = h # t" using False by (cases s) auto
    obtain e where e: "e < b" "h = digit_char e" using snoc.prems(5) s by auto
    have "digit_char 0 = CHR ''0''" by (simp add: digit_char_def)
    with hd s e have "e \<noteq> 0" by (metis list.sel(1))
    have "nat_digits b e t = Some w"
      using w s e digit_val_char [of e] snoc.prems(2) by simp
    then have "e * b ^ length t \<le> w" by (rule nat_digits_ge)
    moreover have "0 < e * b ^ length t" using \<open>e \<noteq> 0\<close> snoc.prems(1) by simp
    ultimately have "w \<noteq> 0" by linarith
    then have "\<not> v < b" using v by (cases w) auto
    moreover have "v div b = w" "v mod b = d" using v d by simp_all
    ultimately show ?thesis using snoc.prems(1) written d by (simp add: nat_text.simps [of b v])
  qed
qed simp

lemma lower_hex_canonical:
  assumes "nat_of_text 16 s = Some v" and "s = ''0'' \<or> hd s \<noteq> CHR ''0''"
  shows "to_lower ul s = nat_text 16 v"
proof -
  from assms(1) have digits: "nat_digits 16 0 s = Some v" "s \<noteq> []"
    by (simp_all add: nat_of_text_def split: if_splits)
  have chars: "\<forall>c \<in> set (map ascii_lower s). \<exists>d < 16. c = digit_char d"
    using nat_digits_valid [OF digits(1)] digit_char_of_val by fastforce
  have zero: "c = CHR ''0''" if "ascii_lower c = CHR ''0''" "c \<in> set s" for c
  proof -
    note c = that
    obtain d where d: "d < 16" "digit_val c = Some d" using nat_digits_valid [OF digits(1) c(2)] by blast
    then have "digit_char d = CHR ''0''" using c(1) digit_char_of_val by auto
    then have "d = 0" using digit_val_char [of d] d(1) by (simp add: digit_val_def)
    with d(2) have "of_char c = (48 :: nat)" by (auto simp: digit_val_def Let_def split: if_splits)
    then have "c = char_of (48 :: nat)" by (metis char_of_char)
    then show ?thesis by simp
  qed
  have "hd (map ascii_lower s) \<noteq> CHR ''0'' \<or> map ascii_lower s = ''0''"
  proof (cases "s = ''0''")
    case True
    then show ?thesis by (simp add: ascii_lower_def)
  next
    case False
    with assms(2) digits(2) zero [of "hd s"] show ?thesis by (auto simp: hd_map)
  qed
  with canonical_text [OF _ _ _ _ chars nat_digits_lower [OF _ digits(1)]] digits(2)
  show ?thesis by (simp add: to_lower_hex(1) [OF digits(1)])
qed

lemma hex_string_value:
  assumes "nat_of_text 16 s = Some v" and "t = s \<or> t = ''0x'' @ s"
  shows "hex_string ul t = nat_text 16 v"
proof -
  have s: "nat_digits 16 0 s = Some v" "s \<noteq> []"
    using assms(1) by (simp_all add: nat_of_text_def split: if_splits)
  let ?d = "dropWhile (\<lambda>c. c = CHR ''0'') s"
  have "CHR ''x'' \<notin> set s" using s nat_digits_hex_chars by blast
  then have plain: "\<not> has_prefix s ''0x''" "s \<noteq> ''0x''" by (auto simp: has_prefix_iff)
  have r: "remove_left_padded_zeros t = (if ?d = [] then ''0'' else ?d)"
    using assms(2) remove_zeros_plain [OF plain] remove_zeros_prefixed [of s]
    by (auto simp only: Let_def)
  have d: "nat_digits 16 0 ?d = Some v" using s nat_digits_zeros [of 16 s] by simp
  show ?thesis
  proof (cases "?d = []")
    case True
    with d have "v = 0" by simp
    moreover have "nat_of_text 16 ''0'' = Some 0" by (simp add: nat_of_text_def digit_val_def)
    ultimately show ?thesis
      using True r lower_hex_canonical [of "''0''" 0 ul] unfolding hex_string_def by simp
  next
    case False
    then have "remove_left_padded_zeros t = ?d" using r by (simp only: if_False)
    moreover have "nat_of_text 16 ?d = Some v" using d False by (simp only: nat_of_text_def if_False)
    ultimately show ?thesis
      using lower_hex_canonical [of ?d v ul] hd_dropWhile [OF False] by (simp add: hex_string_def)
  qed
qed

section \<open>Conversions\<close>

lemma nat_text_zero_or_plain: "2 \<le> b \<Longrightarrow> b \<le> 16 \<Longrightarrow> nat_text b n = ''0'' \<or> hd (nat_text b n) \<noteq> CHR ''0''"
proof (induction b n rule: nat_text.induct)
  case (1 b n)
  show ?case
  proof (cases "n < b")
    case True
    have "digit_char n = CHR ''0'' \<Longrightarrow> n = 0"
      using digit_val_char [of n] True "1.prems" by (simp add: digit_val_def)
    moreover have "nat_text b n = [digit_char n]" using True by (simp add: nat_text.simps [of b n])
    moreover have "digit_char 0 = CHR ''0''" by (simp add: digit_char_def)
    ultimately show ?thesis by (cases "n = 0") simp_all
  next
    case False
    then have step: "nat_text b n = nat_text b (n div b) @ [digit_char (n mod b)]"
      using "1.prems" by (simp add: nat_text.simps [of b n])
    have "n div b \<noteq> 0" using False "1.prems" by (simp add: div_eq_0_iff)
    then have "nat_text b (n div b) \<noteq> ''0''"
      using nat_of_text_text [of b "n div b"] "1.prems" by (auto simp: nat_of_text_def digit_val_def)
    with "1.IH" False "1.prems" have "hd (nat_text b (n div b)) \<noteq> CHR ''0''" by auto
    with step show ?thesis by simp
  qed
qed

lemma digit_char_not_x: "d < 16 \<Longrightarrow> digit_char d \<noteq> CHR ''x''"
  using digit_char_range [of d] by auto

lemma hexbase: "2 \<le> (16 :: nat)" "(16 :: nat) \<le> 36"
  by simp_all

lemma hex_string_text: "hex_string ul (nat_text 16 v) = nat_text 16 v"
  using hex_string_value [OF nat_of_text_text [of 16 v]] by simp

lemma remove_zeros_decimal_text: "remove_left_padded_zeros (nat_text 10 v) = nat_text 10 v"
proof -
  let ?s = "nat_text 10 v"
  have "CHR ''x'' \<notin> set ?s"
  proof
    assume "CHR ''x'' \<in> set ?s"
    then obtain d where "d < 10" "CHR ''x'' = digit_char d" using nat_text_chars [of 10] by force
    with digit_char_not_x [of d] show False by simp
  qed
  then have plain: "\<not> has_prefix ?s ''0x''" "?s \<noteq> ''0x''" by (auto simp: has_prefix_iff)
  show ?thesis
  proof (cases "?s = ''0''")
    case True
    with remove_zeros_plain [OF plain] show ?thesis by simp
  next
    case False
    then have "hd ?s \<noteq> CHR ''0''" using nat_text_zero_or_plain [of 10 v] by simp
    then have "dropWhile (\<lambda>c. c = CHR ''0'') ?s = ?s" by (cases ?s) auto
    with remove_zeros_plain [OF plain] show ?thesis by (simp add: Let_def)
  qed
qed

lemma int_text_nat: "int_text b (int n) = nat_text b n"
  by (simp add: int_text_def)

lemma int_of_nat_text: "2 \<le> b \<Longrightarrow> b \<le> 16 \<Longrightarrow> int_of_text b (nat_text b n) = Some (int n)"
  using int_of_text_text [of b "int n"] by (simp add: int_text_nat)

lemma hex_big_int_value:
  assumes "nat_of_text 16 s = Some v" and "t = s \<or> t = ''0x'' @ s"
  shows "hex_big_int ul t = Ok (int v)"
  by (simp add: hex_big_int_def hex_string_value [OF assms] int_of_nat_text)

lemma decimal_big_int_text: "decimal_big_int (nat_text 10 v) = Ok (int v)"
  by (simp add: decimal_big_int_def decimal_string_def remove_zeros_decimal_text int_of_nat_text)

text \<open>
  A hexadecimal token id, in any case, with or without 0x and with any number of
  leading zeros, has one canonical text, and converting it to a decimal id and back gives that
  text: ids of any size keep their value.
\<close>

theorem token_id_decimal_roundtrip:
  assumes "nat_of_text 16 s = Some v" and "t = s \<or> t = ''0x'' @ s"
  shows "hex_string ul t = nat_text 16 v \<and> hex_to_decimal ul t = Ok (nat_text 10 v) \<and>
    bind_out (hex_to_decimal ul t) decimal_to_hex = Ok (hex_string ul t)"
  by (simp add: hex_string_value [OF assms] hex_to_decimal_def hex_big_int_value [OF assms]
      decimal_to_hex_def decimal_big_int_text int_text_nat)

theorem token_id_decimal_roundtrip_witness:
  "hex_string id ''0x00fF'' = nat_text 16 255 \<and> hex_to_decimal id ''0x00fF'' = Ok (nat_text 10 255) \<and>
    bind_out (hex_to_decimal id ''0x00fF'') decimal_to_hex = Ok (hex_string id ''0x00fF'')"
  by (rule token_id_decimal_roundtrip [of "''00fF''"]) (simp_all add: nat_of_text_def digit_val_def)

text \<open>
  What the GraphQL layer sends for a hexadecimal token id is read back as the id's
  canonical text, so two ids are sent alike exactly when they are the same number.
\<close>

theorem token_id_gql_roundtrip:
  assumes "nat_of_text 16 s = Some v" and "nat_of_text 16 s' = Some v'"
  shows "hex_unmarshal_gql ul old (AnyString (unquote (hex_marshal_gql ul s))) = Ok (hex_string ul s) \<and>
    (hex_marshal_gql ul s = hex_marshal_gql ul s' \<longleftrightarrow> v = v')"
proof -
  have h: "hex_string ul s = nat_text 16 v" "hex_string ul s' = nat_text 16 v'"
    using hex_string_value assms by blast+
  have "hex_string ul (''0x'' @ nat_text 16 v) = nat_text 16 v"
    by (rule hex_string_value [OF nat_of_text_text]) simp_all
  moreover have "has_prefix (''0x'' @ nat_text 16 v) ''0x''"
    by (rule has_prefix_append)
  moreover have "nat_text 16 v = nat_text 16 v' \<longleftrightarrow> v = v'"
    using nat_of_text_text [of 16 v] nat_of_text_text [of 16 v'] by (metis hexbase option.inject)
  ultimately show ?thesis
    by (simp only: hex_unmarshal_gql_def hex_marshal_gql_def h unquote_quoted go_any.case if_True)
      (simp add: quoted_def)
qed

theorem token_id_gql_roundtrip_witness:
  "hex_unmarshal_gql id '''' (AnyString (unquote (hex_marshal_gql id ''0aB''))) = Ok (hex_string id ''0aB'') \<and>
    (hex_marshal_gql id ''0aB'' = hex_marshal_gql id ''ab'' \<longleftrightarrow> (171 :: nat) = 171)"
  by (rule token_id_gql_roundtrip) (simp_all add: nat_of_text_def digit_val_def)

lemma hexstr_text: "hexstr_big_int ul (int_text 16 i) = i"
proof -
  have chars: "\<forall>c \<in> set (int_text 16 i). is_ascii c \<and> ascii_lower c = c \<and> c \<noteq> CHR ''x''"
  proof
    fix c
    assume "c \<in> set (int_text 16 i)"
    then consider "c = CHR ''-''" | n where "c \<in> set (nat_text 16 n)"
      by (auto simp: int_text_def split: if_splits)
    then show "is_ascii c \<and> ascii_lower c = c \<and> c \<noteq> CHR ''x''"
    proof cases
      case 1
      then show ?thesis by (simp add: is_ascii_def ascii_lower_def)
    next
      case 2
      then obtain d where "d < 16" "c = digit_char d" using nat_text_chars [of 16 c n] by auto
      then show ?thesis
        using digit_char_of_val [OF digit_val_char [of d]] digit_char_not_x [of d] by simp
    qed
  qed
  then have "to_lower ul (int_text 16 i) = int_text 16 i"
    by (simp add: to_lower_def list_all_iff map_idI)
  moreover have "\<not> has_prefix (int_text 16 i) ''0x''"
  proof
    assume "has_prefix (int_text 16 i) ''0x''"
    then obtain t where "int_text 16 i = ''0x'' @ t" using has_prefix_iff by blast
    then have "CHR ''x'' \<in> set (int_text 16 i)" by simp
    with chars show False by blast
  qed
  ultimately have "hexstr_string ul (int_text 16 i) = int_text 16 i"
    by (simp add: hexstr_string_def trim_prefix_def)
  then show ?thesis by (simp add: hexstr_big_int_def int_of_text_text)
qed

text \<open>
  \<^verbatim>\<open>HexString.Add\<close> adds the numbers two hex strings stand for, and its result is a
  canonical hex string, so quantities can be summed in any order.
\<close>

theorem hex_string_add_sums:
  "hexstr_big_int ul (hexstr_add ul a b) = hexstr_big_int ul a + hexstr_big_int ul b \<and>
   hexstr_add ul a b = hexstr_add ul b a \<and>
   hexstr_add ul (hexstr_add ul a b) c = hexstr_add ul a (hexstr_add ul b c)"
  by (simp add: hexstr_add_def hexstr_text ac_simps)

section \<open>Literals and scientific notation\<close>

text \<open>The number a literal stands for.\<close>

definition literal_value :: "string \<Rightarrow> int option" where
  "literal_value s = (if has_prefix s ''0x'' then int_of_text 16 (drop 2 s) else int_of_text 10 s)"

text \<open>
  \<^verbatim>\<open>MustHexString\<close> turns a decimal or 0x literal into a hex string that
  \<^verbatim>\<open>BigInt\<close> reads as the literal's number; it panics when the literal is no number.
\<close>

theorem must_hex_string_value:
  "(literal_value s = Some v \<longrightarrow> map_ok (hexstr_big_int ul) (must_hex_string s) = Ok v) \<and>
   (literal_value s = None \<longrightarrow> is_panic (must_hex_string s))"
proof (cases "has_prefix s ''0x''")
  case True
  then have "trim_prefix s ''0x'' = drop 2 s" by (simp add: trim_prefix_def numeral_2_eq_2)
  with True show ?thesis
    by (auto simp: must_hex_string_def literal_value_def hexstr_text split: option.split)
next
  case False
  then show ?thesis
    by (auto simp: must_hex_string_def literal_value_def hexstr_text split: option.split)
qed

theorem must_hex_string_value_witness:
  "(literal_value ''0xA'' = Some 10 \<longrightarrow> map_ok (hexstr_big_int id) (must_hex_string ''0xA'') = Ok 10) \<and>
   (literal_value ''0xA'' = None \<longrightarrow> is_panic (must_hex_string ''0xA''))"
  by (rule must_hex_string_value)

lemma append_zeros_replicate: "append_zeros n base = base @ replicate n CHR ''0''"
  by (induction n arbitrary: base) (simp_all add: replicate_append_same [symmetric])

lemma nat_digits_trailing_zeros:
  "0 < b \<Longrightarrow> nat_digits b acc (replicate n CHR ''0'') = Some (acc * b ^ n)"
proof (induction n arbitrary: acc)
  case (Suc n)
  have "digit_val CHR ''0'' = Some 0" by (simp add: digit_val_def)
  with Suc show ?case by (simp add: algebra_simps)
qed simp

lemma decimal_digits_no_e: "nat_digits 10 acc s = Some v \<Longrightarrow> CHR ''e'' \<notin> set s"
proof
  assume "nat_digits 10 acc s = Some v" "CHR ''e'' \<in> set s"
  then obtain d where "d < 10" "digit_val CHR ''e'' = Some d" using nat_digits_valid by blast
  then show False by (simp add: digit_val_def)
qed

text \<open>
  Scanning a numeric that Postgres printed in scientific notation: from the
  digits of \<open>m\<close>, the letter e and a decimal exponent \<open>n\<close> the token id gets the digits of
  \<open>m * 10 ^ n\<close>; a plain numeral is taken as it is.
\<close>

theorem expand_numeric_string_value:
  assumes "nat_of_text 10 m = Some k" and "n < 2 ^ 63"
  shows "\<exists>s. decimal_scan (AnyString (m @ ''e'' @ nat_text 10 n)) = Ok s \<and>
      nat_of_text 10 s = Some (k * 10 ^ n) \<and>
    decimal_scan (AnyString m) = Ok m"
proof -
  have m: "nat_digits 10 0 m = Some k" "m \<noteq> []"
    using assms(1) by (simp_all add: nat_of_text_def split: if_splits)
  have e: "CHR ''e'' \<notin> set m" by (rule decimal_digits_no_e [OF m(1)])
  have "nat_digits 10 0 (nat_text 10 n) = Some n" by (rule nat_digits_text) simp_all
  then have "CHR ''e'' \<notin> set (nat_text 10 n)" by (rule decimal_digits_no_e)
  with e have "str_split (m @ CHR ''e'' # nat_text 10 n) ''e'' = [m, nat_text 10 n]"
    by (rule split_single_once)
  moreover have "atoi (nat_text 10 n) = Some (int n)"
    using assms(2) atoi_itoa [of "int n"] by (simp add: itoa_def int_text_nat)
  ultimately have "decimal_scan (AnyString (m @ ''e'' @ nat_text 10 n))
      = Ok (m @ replicate n CHR ''0'')"
    by (simp add: expand_numeric_string_def append_zeros_replicate Let_def)
  moreover have "nat_of_text 10 (m @ replicate n CHR ''0'') = Some (k * 10 ^ n)"
    using m by (simp add: nat_of_text_def nat_digits_append nat_digits_trailing_zeros)
  moreover have "decimal_scan (AnyString m) = Ok m"
    using split_single_absent [OF e] by (simp add: expand_numeric_string_def Let_def)
  ultimately show ?thesis by blast
qed

theorem expand_numeric_string_value_witness:
  "\<exists>s. decimal_scan (AnyString (''12'' @ ''e'' @ nat_text 10 3)) = Ok s \<and>
      nat_of_text 10 s = Some (12 * 10 ^ 3) \<and> decimal_scan (AnyString ''12'') = Ok ''12''"
  by (rule expand_numeric_string_value) (simp_all add: nat_of_text_def digit_val_def)

section \<open>Addresses\<close>

lemma ascii_lower_plus:
  assumes "ascii_lower c = CHR ''+''"
  shows "c = CHR ''+''"
proof (rule ccontr)
  assume "c \<noteq> CHR ''+''"
  with assms have n: "65 \<le> (of_char c :: nat)" "(of_char c :: nat) \<le> 90"
    and low: "char_of ((of_char c :: nat) + 32) = CHR ''+''"
    by (auto simp: ascii_lower_def Let_def split: if_splits)
  from low have "(of_char (char_of ((of_char c :: nat) + 32)) :: nat) = of_char CHR ''+''" by (rule arg_cong)
  with n show False by (simp add: of_char_of)
qed

lemma normalize_address_cases:
  "normalize_address a = '''' \<or> (\<exists>t. normalize_address a = ''0x'' @ t \<and> length t = 40)"
  by (auto simp: normalize_address_def Let_def)

lemma normalize_address_fixed: "length t = 40 \<Longrightarrow> normalize_address (''0x'' @ t) = ''0x'' @ t"
  using trim_prefix_append [of "''0x''" t] by (simp add: normalize_address_def)

lemma normalize_address_set: "set (normalize_address a) \<subseteq> set a \<union> set ''0x''"
  by (auto simp: normalize_address_def trim_prefix_def Let_def dest!: in_set_dropD)

lemma eth_address_texts:
  assumes "ascii_string a"
  shows "(eth_address_string ul a = '''' \<or>
      (\<exists>t. eth_address_string ul a = ''0x'' @ t \<and> length t = 40 \<and> map ascii_lower t = t)) \<and>
    eth_address_string ul (eth_address_string ul a) = eth_address_string ul a \<and>
    eth_address_string ul (map ascii_lower a) = eth_address_string ul a"
proof -
  have low: "to_lower ul a = map ascii_lower a" using assms by (simp add: to_lower_def ascii_string_def)
  have chars: "\<forall>c \<in> set (eth_address_string ul a). is_ascii c \<and> ascii_lower c = c"
  proof
    fix c
    assume "c \<in> set (eth_address_string ul a)"
    then have "c \<in> ascii_lower ` set a \<or> c = CHR ''0'' \<or> c = CHR ''x''"
      using normalize_address_set [of "map ascii_lower a"] by (auto simp: eth_address_string_def low)
    then show "is_ascii c \<and> ascii_lower c = c"
      using assms is_ascii_lower
      by (auto simp: ascii_string_def list_all_iff) (simp_all add: is_ascii_def ascii_lower_def)
  qed
  have fix_low: "map ascii_lower t = t" "to_lower ul t = t"
    if "set t \<subseteq> set (eth_address_string ul a)" for t
  proof -
    have "\<forall>c \<in> set t. is_ascii c \<and> ascii_lower c = c" using chars that by blast
    then show "map ascii_lower t = t" by (simp add: map_idI)
    with \<open>\<forall>c \<in> set t. is_ascii c \<and> ascii_lower c = c\<close> show "to_lower ul t = t"
      by (simp add: to_lower_def list_all_iff)
  qed
  have "eth_address_string ul a = '''' \<or>
      (\<exists>t. eth_address_string ul a = ''0x'' @ t \<and> length t = 40 \<and> map ascii_lower t = t)"
    using normalize_address_cases [of "map ascii_lower a"] fix_low(1)
    unfolding eth_address_string_def low by (metis set_append Un_upper2)
  moreover have "eth_address_string ul (eth_address_string ul a)
      = normalize_address (eth_address_string ul a)"
    using fix_low(2) [of "eth_address_string ul a"] by (simp add: eth_address_string_def)
  moreover have "normalize_address (eth_address_string ul a) = eth_address_string ul a"
    using normalize_address_cases [of "map ascii_lower a"] normalize_address_fixed
    by (auto simp: eth_address_string_def low) (simp add: normalize_address_def trim_prefix_def has_prefix_def)
  moreover have "to_lower ul (map ascii_lower a) = map ascii_lower a"
    using assms is_ascii_lower by (auto simp: to_lower_def ascii_string_def list_all_iff)
  ultimately show ?thesis by (simp add: eth_address_string_def low)
qed

lemma eth_address_fixed:
  "ascii_string a \<Longrightarrow> eth_address_string ul (eth_address_string ul a) = eth_address_string ul a"
  using eth_address_texts by blast

text \<open>
  The text of an ASCII Ethereum address is empty or 0x and forty lower-case
  characters; taking the text again changes nothing, and two addresses that differ only in
  the case of their letters have the same text.
\<close>

theorem eth_address_canonical:
  assumes "ascii_string a"
  shows "(eth_address_string ul a = '''' \<or>
      (\<exists>t. eth_address_string ul a = ''0x'' @ t \<and> length t = 40 \<and> map ascii_lower t = t)) \<and>
    eth_address_string ul (eth_address_string ul a) = eth_address_string ul a \<and>
    eth_address_string ul (map ascii_lower a) = eth_address_string ul a"
  by (rule eth_address_texts [OF assms])

theorem eth_address_canonical_witness:
  "(eth_address_string id ''0xAB'' = '''' \<or>
      (\<exists>t. eth_address_string id ''0xAB'' = ''0x'' @ t \<and> length t = 40 \<and> map ascii_lower t = t)) \<and>
    eth_address_string id (eth_address_string id ''0xAB'') = eth_address_string id ''0xAB'' \<and>
    eth_address_string id (map ascii_lower ''0xAB'') = eth_address_string id ''0xAB''"
  by (rule eth_address_canonical) (simp add: ascii_string_def is_ascii_def)

text \<open>
  Token identifiers made of an address and a token id and taken apart again give
  the texts of both: \<^verbatim>\<open>GetParts\<close> inverts \<^verbatim>\<open>NewEthereumTokenIdentifiers\<close> up to normal form.
\<close>

theorem eth_token_identifiers_roundtrip:
  assumes "ascii_string a" and "CHR ''+'' \<notin> set a" and "nat_of_text 16 t = Some v"
  shows "eth_token_identifiers_parts ul (new_eth_token_identifiers ul a t)
    = Ok (eth_address_string ul a, hex_string ul t)"
proof -
  have low: "to_lower ul a = map ascii_lower a"
    using assms(1) by (simp add: to_lower_def ascii_string_def)
  have plus: "CHR ''+'' \<notin> set (map ascii_lower a)"
  proof
    assume "CHR ''+'' \<in> set (map ascii_lower a)"
    then obtain c where c: "c \<in> set a" "ascii_lower c = CHR ''+''" by auto
    then have "c = CHR ''+''" by (blast intro: ascii_lower_plus)
    with c assms(2) show False by simp
  qed
  then have a: "CHR ''+'' \<notin> set (eth_address_string ul a)"
    using normalize_address_set [of "map ascii_lower a"] by (auto simp: eth_address_string_def low)
  have h: "hex_string ul t = nat_text 16 v" using hex_string_value [OF assms(3)] by blast
  have "CHR ''+'' \<notin> set (nat_text 16 v)"
  proof
    assume "CHR ''+'' \<in> set (nat_text 16 v)"
    then obtain d where "d < 16" "CHR ''+'' = digit_char d" using nat_text_chars [of 16] by force
    with digit_char_range [of d] show False by auto
  qed
  with a have split: "str_split (eth_address_string ul a @ CHR ''+'' # nat_text 16 v) ''+''
      = [eth_address_string ul a, nat_text 16 v]"
    by (rule split_single_once)
  have "eth_address_string ul (eth_address_string ul a) = eth_address_string ul a"
    by (rule eth_address_fixed [OF assms(1)])
  with split show ?thesis
    by (simp add: eth_token_identifiers_parts_def new_eth_token_identifiers_def h hex_string_text Let_def)
qed

theorem eth_token_identifiers_roundtrip_witness:
  "eth_token_identifiers_parts id (new_eth_token_identifiers id ''0xAB'' ''0F'')
    = Ok (eth_address_string id ''0xAB'', hex_string id ''0F'')"
  by (rule eth_token_identifiers_roundtrip [where v = 15])
    (simp_all add: ascii_string_def is_ascii_def nat_of_text_def digit_val_def)

end
