(* ===== verification/Wallets.thy ===== *)
theory Wallets
  imports TokenProps
begin

text \<open>
  \<^verbatim>\<open>service/persist/wallet.go\<close>: addresses and public keys that carry their chain, the casing
  rule for chains whose layer 1 is Ethereum, the two setters gqlgen calls in any order, their
  JSON forms, and the wallet type. A method with a pointer receiver returns the receiver's
  new value.
\<close>

section \<open>ChainAddress\<close>

record chain_address =
  ca_address_set :: bool
  ca_chain_set :: bool
  ca_address :: string
  ca_chain :: chain

definition zero_chain_address :: chain_address where
  "zero_chain_address = \<lparr>ca_address_set = False, ca_chain_set = False, ca_address = '''', ca_chain = 0\<rparr>"

definition chain_address_update_casing :: "(string \<Rightarrow> string) \<Rightarrow> chain_address \<Rightarrow> chain_address outcome" where
  "chain_address_update_casing ul c =
     bind_out (l1_chain (ca_chain c)) (\<lambda>lc.
       if lc = chain_eth then Ok (c\<lparr>ca_address := to_lower ul (ca_address c)\<rparr>) else Ok c)"

definition new_chain_address :: "(string \<Rightarrow> string) \<Rightarrow> string \<Rightarrow> chain \<Rightarrow> chain_address outcome" where
  "new_chain_address ul address c =
     chain_address_update_casing ul
       \<lparr>ca_address_set = True, ca_chain_set = True, ca_address = address, ca_chain = c\<rparr>"

definition chain_address_set_address ::
    "(string \<Rightarrow> string) \<Rightarrow> chain_address \<Rightarrow> string \<Rightarrow> chain_address outcome" where
  "chain_address_set_address ul c address =
     (if ca_address_set c then Err (ErrText ''ChainAddress.address may only be set once'')
      else (let c' = c\<lparr>ca_address := address, ca_address_set := True\<rparr> in
            if ca_chain_set c' then chain_address_update_casing ul c' else Ok c'))"

definition chain_address_set_chain ::
    "(string \<Rightarrow> string) \<Rightarrow> chain_address \<Rightarrow> chain \<Rightarrow> chain_address outcome" where
  "chain_address_set_chain ul c chain =
     (if ca_chain_set c then Err (ErrText ''ChainAddress.chain may only be set once'')
      else (let c' = c\<lparr>ca_chain := chain, ca_chain_set := True\<rparr> in
            if ca_address_set c' then chain_address_update_casing ul c' else Ok c'))"

definition chain_address_string :: "chain_address \<Rightarrow> string" where
  "chain_address_string c = itoa (ca_chain c) @ '':'' @ ca_address c"

text \<open>The object \<^verbatim>\<open>MarshalJSON\<close> encodes, and \<^verbatim>\<open>UnmarshalJSON\<close> on the decoded object.\<close>

definition chain_address_marshal_json :: "chain_address \<Rightarrow> (string \<times> go_any) list" where
  "chain_address_marshal_json c =
     [(''address'', AnyString (ca_address c)), (''chain'', AnyInt (ca_chain c))]"

definition any_field :: "(string \<rightharpoonup> go_any) \<Rightarrow> string \<Rightarrow> go_any" where
  "any_field v k = (case v k of Some x \<Rightarrow> x | None \<Rightarrow> AnyNil)"

definition chain_address_unmarshal_json ::
    "chain_address \<Rightarrow> (string \<rightharpoonup> go_any) outcome \<Rightarrow> chain_address outcome" where
  "chain_address_unmarshal_json c decoded =
     bind_out decoded (\<lambda>v.
       bind_out
         (if any_field v ''address'' \<noteq> AnyNil
          then bind_out (assert_string (any_field v ''address''))
                 (\<lambda>a. Ok (c\<lparr>ca_address := a, ca_address_set := True\<rparr>))
          else Ok c)
         (\<lambda>c1. case any_field v ''chain'' of
             AnyInt chain \<Rightarrow> Ok (c1\<lparr>ca_chain := chain, ca_chain_set := True\<rparr>)
           | AnyInt32 chain \<Rightarrow> Ok (c1\<lparr>ca_chain := sint chain, ca_chain_set := True\<rparr>)
           | _ \<Rightarrow> Ok c1))"

section \<open>L1ChainAddress\<close>

record l1_chain_address =
  la_address_set :: bool
  la_chain_set :: bool
  la_address :: string
  la_chain :: chain

definition l1_chain_address_update_casing :: "(string \<Rightarrow> string) \<Rightarrow> l1_chain_address \<Rightarrow> l1_chain_address" where
  "l1_chain_address_update_casing ul c =
     (if la_chain c = chain_eth then c\<lparr>la_address := to_lower ul (la_address c)\<rparr> else c)"

definition new_l1_chain_address :: "(string \<Rightarrow> string) \<Rightarrow> string \<Rightarrow> chain \<Rightarrow> l1_chain_address outcome" where
  "new_l1_chain_address ul address c =
     map_ok (\<lambda>lc. l1_chain_address_update_casing ul
       \<lparr>la_address_set = True, la_chain_set = True, la_address = address, la_chain = lc\<rparr>) (l1_chain c)"

definition to_l1_chain_address :: "(string \<Rightarrow> string) \<Rightarrow> chain_address \<Rightarrow> l1_chain_address outcome" where
  "to_l1_chain_address ul c = new_l1_chain_address ul (ca_address c) (ca_chain c)"

definition l1_chain_address_string :: "l1_chain_address \<Rightarrow> string" where
  "l1_chain_address_string c = itoa (la_chain c) @ '':'' @ la_address c"

definition l1_chain_address_marshal_json :: "l1_chain_address \<Rightarrow> (string \<times> go_any) list" where
  "l1_chain_address_marshal_json c =
     [(''address'', AnyString (la_address c)), (''chain'', AnyInt (la_chain c))]"

text \<open>The third branch, for a value of type \<^verbatim>\<open>Chain\<close>, is not reached from decoded JSON.\<close>

definition l1_chain_address_unmarshal_json ::
    "l1_chain_address \<Rightarrow> (string \<rightharpoonup> go_any) outcome \<Rightarrow> l1_chain_address outcome" where
  "l1_chain_address_unmarshal_json c decoded =
     bind_out decoded (\<lambda>v.
       bind_out
         (if any_field v ''address'' \<noteq> AnyNil
          then bind_out (assert_string (any_field v ''address''))
                 (\<lambda>a. Ok (c\<lparr>la_address := a, la_address_set := True\<rparr>))
          else Ok c)
         (\<lambda>c1. case any_field v ''chain'' of
             AnyInt chain \<Rightarrow> Ok (c1\<lparr>la_chain := chain, la_chain_set := True\<rparr>)
           | AnyInt32 chain \<Rightarrow> Ok (c1\<lparr>la_chain := sint chain, la_chain_set := True\<rparr>)
           | _ \<Rightarrow> Ok c1))"

section \<open>ChainPubKey\<close>

record chain_pub_key =
  cp_pub_key_set :: bool
  cp_chain_set :: bool
  cp_pub_key :: string
  cp_chain :: chain

definition chain_pub_key_update_casing :: "(string \<Rightarrow> string) \<Rightarrow> chain_pub_key \<Rightarrow> chain_pub_key" where
  "chain_pub_key_update_casing ul c =
     (if cp_chain c = chain_eth then c\<lparr>cp_pub_key := to_lower ul (cp_pub_key c)\<rparr> else c)"

definition new_chain_pub_key :: "(string \<Rightarrow> string) \<Rightarrow> string \<Rightarrow> chain \<Rightarrow> chain_pub_key" where
  "new_chain_pub_key ul pub_key c =
     chain_pub_key_update_casing ul
       \<lparr>cp_pub_key_set = True, cp_chain_set = True, cp_pub_key = pub_key, cp_chain = c\<rparr>"

definition chain_pub_key_set_pub_key ::
    "(string \<Rightarrow> string) \<Rightarrow> chain_pub_key \<Rightarrow> string \<Rightarrow> chain_pub_key outcome" where
  "chain_pub_key_set_pub_key ul c pub_key =
     (if cp_pub_key_set c then Err (ErrText ''ChainAddress.address may only be set once'')
      else (let c' = c\<lparr>cp_pub_key := pub_key, cp_pub_key_set := True\<rparr> in
            Ok (if cp_chain_set c' then chain_pub_key_update_casing ul c' else c')))"

definition chain_pub_key_set_chain ::
    "(string \<Rightarrow> string) \<Rightarrow> chain_pub_key \<Rightarrow> chain \<Rightarrow> chain_pub_key outcome" where
  "chain_pub_key_set_chain ul c chain =
     (if cp_chain_set c then Err (ErrText ''ChainAddress.chain may only be set once'')
      else (let c' = c\<lparr>cp_chain := chain, cp_chain_set := True\<rparr> in
            Ok (if cp_pub_key_set c' then chain_pub_key_update_casing ul c' else c')))"

definition chain_pub_key_string :: "chain_pub_key \<Rightarrow> string" where
  "chain_pub_key_string c = itoa (cp_chain c) @ '':'' @ cp_pub_key c"

text \<open>\<^verbatim>\<open>tezos.ParseKey\<close> and the address of its key are the argument \<open>tezos_address\<close>.\<close>

definition to_chain_address ::
    "(string \<Rightarrow> string) \<Rightarrow> (string \<Rightarrow> string outcome) \<Rightarrow> chain_pub_key \<Rightarrow> chain_address outcome" where
  "to_chain_address ul tezos_address c =
     (if cp_chain c = chain_tezos
      then (case tezos_address (cp_pub_key c) of
              Ok a \<Rightarrow> new_chain_address ul a (cp_chain c)
            | Err e \<Rightarrow> Panic (PanicErr e)
            | Panic p \<Rightarrow> Panic p)
      else new_chain_address ul (cp_pub_key c) (cp_chain c))"

definition pub_key_to_l1_chain_address ::
    "(string \<Rightarrow> string) \<Rightarrow> (string \<Rightarrow> string outcome) \<Rightarrow> chain_pub_key \<Rightarrow> l1_chain_address outcome" where
  "pub_key_to_l1_chain_address ul tezos_address c =
     bind_out (to_chain_address ul tezos_address c) (to_l1_chain_address ul)"

section \<open>Wallets and addresses in the database\<close>

definition wallet_type_eoa :: int where "wallet_type_eoa = 0"
definition wallet_type_gnosis :: int where "wallet_type_gnosis = 1"

definition wallet_type_unmarshal_gql :: "int \<Rightarrow> go_any \<Rightarrow> int outcome" where
  "wallet_type_unmarshal_gql wa v =
     (case v of
        AnyString n \<Rightarrow>
          if n = ''EOA'' then Ok wallet_type_eoa
          else if n = ''GnosisSafe'' then Ok wallet_type_gnosis
          else Err (ErrText (''unknown WalletType: '' @ n))
      | _ \<Rightarrow> Err (ErrText ''wrong type for WalletType''))"

definition wallet_type_marshal_gql :: "int \<Rightarrow> string" where
  "wallet_type_marshal_gql wa =
     (if wa = wallet_type_eoa then quoted ''EOA''
      else if wa = wallet_type_gnosis then quoted ''GnosisSafe''
      else '''')"

text \<open>Scanning a wallet sets nothing but its id.\<close>

definition wallet_scan :: "go_any \<Rightarrow> string outcome" where
  "wallet_scan v = (if v = AnyNil then Ok '''' else map_ok string_of (assert_bytes v))"

definition wallet_value :: "string \<Rightarrow> go_any" where
  "wallet_value wallet_id = (if wallet_id = '''' then AnyString '''' else AnyString wallet_id)"

definition address_value :: "string \<Rightarrow> go_any" where
  "address_value n =
     (if n = '''' then AnyString '''' else AnyString (to_valid_utf8 (replace_all n escaped_nul '''')))"

fun address_scan :: "go_any \<Rightarrow> string outcome" where
  "address_scan AnyNil = Ok ''''"
| "address_scan (AnyString s) = Ok s"
| "address_scan (AnyBytes b) = Ok (string_of b)"
| "address_scan _ = Err (ErrText ''Address must be a string or []uint8'')"

interpretation wallet_type: gql_enum wallet_type_marshal_gql wallet_type_unmarshal_gql "\<lambda>w. w \<in> {0, 1}"
proof
  show "\<exists>t. wallet_type_marshal_gql c = quoted t \<and> (\<forall>old. wallet_type_unmarshal_gql old (AnyString t) = Ok c)"
    if "c \<in> {0, 1}" for c
    using that
    by (auto simp: wallet_type_marshal_gql_def wallet_type_unmarshal_gql_def wallet_type_eoa_def
        wallet_type_gnosis_def quoted_def)
  show "\<exists>e. wallet_type_unmarshal_gql old v = Err e" if "\<And>s. v \<noteq> AnyString s" for v old
    using that by (cases v) (auto simp: wallet_type_unmarshal_gql_def)
  show "c = old \<or> c \<in> {0, 1}" if "wallet_type_unmarshal_gql old (AnyString s) = Ok c" for old s c
    using that
    by (auto simp: wallet_type_unmarshal_gql_def wallet_type_eoa_def wallet_type_gnosis_def split: if_splits)
qed

section \<open>Properties\<close>

lemma to_lower_twice: "ascii_string s \<Longrightarrow> to_lower ul (to_lower ul s) = to_lower ul s"
  by (rule to_lower_idem)

lemmas chain_address_defs =
  new_chain_address_def chain_address_set_address_def chain_address_set_chain_def
  chain_address_update_casing_def zero_chain_address_def

text \<open>
  gqlgen sets the fields of a \<^verbatim>\<open>ChainAddress\<close> in no particular order: on a supported
  chain both orders succeed and give what \<^verbatim>\<open>NewChainAddress\<close> gives, and setting either field
  again is refused.
\<close>

theorem chain_address_setters_commute:
  assumes "chain_valid c"
  shows "\<exists>ca. new_chain_address ul a c = Ok ca \<and>
    bind_out (chain_address_set_address ul zero_chain_address a) (\<lambda>x. chain_address_set_chain ul x c) = Ok ca \<and>
    bind_out (chain_address_set_chain ul zero_chain_address c) (\<lambda>x. chain_address_set_address ul x a) = Ok ca \<and>
    (\<exists>e. chain_address_set_address ul ca b = Err e) \<and> (\<exists>e. chain_address_set_chain ul ca d = Err e)"
proof -
  have "\<exists>lc. l1_chain c = Ok lc"
    using assms by (auto simp: chain_valid_cases l1_chain_def l1_chains_def chain_defs)
  then obtain lc where "l1_chain c = Ok lc" by blast
  then show ?thesis by (simp add: chain_address_defs)
qed

theorem chain_address_setters_commute_witness:
  "\<exists>ca. new_chain_address id ''0xAB'' 0 = Ok ca \<and>
    bind_out (chain_address_set_address id zero_chain_address ''0xAB'') (\<lambda>x. chain_address_set_chain id x 0) = Ok ca \<and>
    bind_out (chain_address_set_chain id zero_chain_address 0) (\<lambda>x. chain_address_set_address id x ''0xAB'') = Ok ca \<and>
    (\<exists>e. chain_address_set_address id ca ''x'' = Err e) \<and> (\<exists>e. chain_address_set_chain id ca 4 = Err e)"
  by (rule chain_address_setters_commute) (simp add: chain_valid_cases)

text \<open>
  Accounts are matched by \<^verbatim>\<open>L1ChainAddress\<close>: the same ASCII address on any two EVM
  chains, in any letter case, gives one layer-1 address, and on Tezos the case is kept.
\<close>

theorem l1_address_identifies_evm_accounts:
  assumes "ascii_string a" and "is_evm_chain c" and "is_evm_chain d"
  shows "bind_out (new_chain_address ul a c) (to_l1_chain_address ul)
      = bind_out (new_chain_address ul (to_lower ul a) d) (to_l1_chain_address ul) \<and>
    bind_out (new_chain_address ul a c) (to_l1_chain_address ul)
      = Ok \<lparr>la_address_set = True, la_chain_set = True, la_address = chain_normalize_address ul c a,
          la_chain = chain_eth\<rparr> \<and>
    bind_out (new_chain_address ul a chain_tezos) (to_l1_chain_address ul)
      = Ok \<lparr>la_address_set = True, la_chain_set = True, la_address = a, la_chain = chain_tezos\<rparr>"
proof -
  have "l1_chain c = Ok chain_eth" "l1_chain d = Ok chain_eth"
    using assms(2,3)
    by (auto simp: is_evm_chain_def evm_chains_map_def l1_chain_def l1_chains_def chain_defs split: if_splits)
  moreover have "l1_chain chain_tezos = Ok chain_tezos" "chain_tezos \<noteq> chain_eth"
    by (simp_all add: l1_chain_def l1_chains_def chain_defs)
  ultimately show ?thesis
    using assms
    by (simp add: new_chain_address_def chain_address_update_casing_def to_l1_chain_address_def
        new_l1_chain_address_def l1_chain_address_update_casing_def to_lower_idem chain_normalize_address_def)
qed

theorem l1_address_identifies_evm_accounts_witness:
  "bind_out (new_chain_address id ''0xAB'' 2) (to_l1_chain_address id)
      = bind_out (new_chain_address id (to_lower id ''0xAB'') 6) (to_l1_chain_address id) \<and>
    bind_out (new_chain_address id ''0xAB'' 2) (to_l1_chain_address id)
      = Ok \<lparr>la_address_set = True, la_chain_set = True, la_address = chain_normalize_address id 2 ''0xAB'',
          la_chain = chain_eth\<rparr> \<and>
    bind_out (new_chain_address id ''0xAB'' chain_tezos) (to_l1_chain_address id)
      = Ok \<lparr>la_address_set = True, la_chain_set = True, la_address = ''0xAB'', la_chain = chain_tezos\<rparr>"
  by (rule l1_address_identifies_evm_accounts)
    (simp_all add: ascii_string_def is_ascii_def is_evm_chain_def evm_chains_map_def chain_defs)

text \<open>
  What \<^verbatim>\<open>json.Unmarshal\<close> puts into a \<^verbatim>\<open>map[string]any\<close>: numbers are float64, never int.
\<close>

fun json_any :: "go_any \<Rightarrow> bool" where
  "json_any (AnyInt i) = False"
| "json_any (AnyInt32 i) = False"
| "json_any (AnyInt64 i) = False"
| "json_any (AnyBytes b) = False"
| "json_any (AnyDBID d) = False"
| "json_any _ = True"

text \<open>
  \<^verbatim>\<open>UnmarshalJSON\<close> never sets the chain of an address: from any decoded JSON object,
  also the one \<^verbatim>\<open>MarshalJSON\<close> wrote, only the address is taken, because the chain arrives as a
  float64 and the code expects an int.
\<close>

theorem chain_address_json_loses_chain:
  assumes "\<And>k x. v k = Some x \<Longrightarrow> json_any x"
    and "chain_address_unmarshal_json c (Ok v) = Ok c'"
  shows "ca_chain c' = ca_chain c \<and> ca_chain_set c' = ca_chain_set c"
proof -
  have "json_any (any_field v ''chain'')"
    using assms(1) by (auto simp: any_field_def split: option.split)
  with assms(2) show ?thesis
    by (cases "any_field v ''chain''") (auto simp: chain_address_unmarshal_json_def split: if_splits)
qed

theorem chain_address_json_loses_chain_witness:
  "ca_chain (zero_chain_address\<lparr>ca_address := ''tz1'', ca_address_set := True\<rparr>) = ca_chain zero_chain_address \<and>
   ca_chain_set (zero_chain_address\<lparr>ca_address := ''tz1'', ca_address_set := True\<rparr>)
     = ca_chain_set zero_chain_address"
proof (rule chain_address_json_loses_chain
    [where v = "[''address'' \<mapsto> AnyString ''tz1'', ''chain'' \<mapsto> AnyFloat64 0x4010000000000000]"])
  show "json_any x" if "[''address'' \<mapsto> AnyString ''tz1'', ''chain'' \<mapsto> AnyFloat64 0x4010000000000000] k = Some x"
    for k x
    using that by (auto split: if_splits)
qed (simp add: chain_address_unmarshal_json_def any_field_def)

end
