(* ===== verification/UserTypes.thy ===== *)
theory UserTypes
  imports Wallets
begin

text \<open>
  The enumerations of \<^verbatim>\<open>service/persist/user.go\<close>: roles, personas and social providers, with
  their GraphQL and database forms. All are string types in the code.
\<close>

section \<open>Roles\<close>

definition role_admin :: string where "role_admin = ''ADMIN''"
definition role_beta_tester :: string where "role_beta_tester = ''BETA_TESTER''"
definition role_early_access :: string where "role_early_access = ''EARLY_ACCESS''"
definition role_email_tester :: string where "role_email_tester = ''EMAIL_TESTER''"

definition role_scan :: "string \<Rightarrow> go_any \<Rightarrow> string outcome" where
  "role_scan r i =
     (case i of AnyNil \<Rightarrow> Ok r | AnyBytes it \<Rightarrow> Ok (string_of it) | _ \<Rightarrow> assert_string i)"

definition role_unmarshal_gql :: "(string \<Rightarrow> string) \<Rightarrow> string \<Rightarrow> go_any \<Rightarrow> string outcome" where
  "role_unmarshal_gql ul r v =
     (case v of
        AnyString n \<Rightarrow>
          (let l = to_lower ul n in
           if l = ''admin'' then Ok role_admin
           else if l = ''beta_tester'' then Ok role_beta_tester
           else if l = ''early_access'' then Ok role_early_access
           else if l = ''email_tester'' then Ok role_email_tester
           else Ok r)
      | _ \<Rightarrow> Err (ErrText ''Role must be a string''))"

definition role_marshal_gql :: "string \<Rightarrow> string" where
  "role_marshal_gql r =
     (if r = role_admin then quoted ''ADMIN''
      else if r = role_beta_tester then quoted ''BETA_TESTER''
      else if r = role_early_access then quoted ''EARLY_ACCESS''
      else if r = role_email_tester then quoted ''EMAIL_TESTER''
      else '''')"

lemmas role_defs = role_admin_def role_beta_tester_def role_early_access_def role_email_tester_def

lemma role_texts [gql_simps]:
  "to_lower ul ''ADMIN'' = ''admin''" "to_lower ul ''BETA_TESTER'' = ''beta_tester''"
  "to_lower ul ''EARLY_ACCESS'' = ''early_access''" "to_lower ul ''EMAIL_TESTER'' = ''email_tester''"
  by code_simp+

definition roles :: "string set" where
  "roles = {role_admin, role_beta_tester, role_early_access, role_email_tester}"

interpretation role: gql_enum role_marshal_gql "role_unmarshal_gql ul" "\<lambda>r. r \<in> roles" for ul
proof
  show "\<exists>t. role_marshal_gql c = quoted t \<and> (\<forall>old. role_unmarshal_gql ul old (AnyString t) = Ok c)"
    if "c \<in> roles" for c
    using that
    by (auto simp: roles_def role_marshal_gql_def role_unmarshal_gql_def role_defs gql_simps quoted_def)
  show "\<exists>e. role_unmarshal_gql ul old v = Err e" if "\<And>s. v \<noteq> AnyString s" for v old
    using that by (cases v) (auto simp: role_unmarshal_gql_def)
  show "c = old \<or> c \<in> roles" if "role_unmarshal_gql ul old (AnyString s) = Ok c" for old s c
    using that by (auto simp: roles_def role_unmarshal_gql_def Let_def split: if_splits)
qed

section \<open>Personas\<close>

definition persona_none :: string where "persona_none = ''none''"
definition persona_collector :: string where "persona_collector = ''collector''"
definition persona_creator :: string where "persona_creator = ''creator''"
definition persona_both :: string where "persona_both = ''both''"

definition persona_scan :: "string \<Rightarrow> go_any \<Rightarrow> string outcome" where
  "persona_scan p i =
     (case i of AnyNil \<Rightarrow> Ok p | AnyBytes it \<Rightarrow> Ok (string_of it) | _ \<Rightarrow> assert_string i)"

definition persona_unmarshal_gql :: "(string \<Rightarrow> string) \<Rightarrow> string \<Rightarrow> go_any \<Rightarrow> string outcome" where
  "persona_unmarshal_gql ul p v =
     (case v of
        AnyString n \<Rightarrow>
          (let l = to_lower ul n in
           if l = ''none'' then Ok persona_none
           else if l = ''collector'' then Ok persona_collector
           else if l = ''creator'' then Ok persona_creator
           else if l = ''both'' then Ok persona_both
           else Ok p)
      | _ \<Rightarrow> Err (ErrText ''Persona must be a string''))"

definition persona_marshal_gql :: "string \<Rightarrow> string" where
  "persona_marshal_gql p =
     (if p = persona_none then quoted ''none''
      else if p = persona_creator then quoted ''creator''
      else if p = persona_collector then quoted ''collector''
      else if p = persona_both then quoted ''both''
      else '''')"

lemmas persona_defs = persona_none_def persona_collector_def persona_creator_def persona_both_def

lemma persona_texts [gql_simps]:
  "to_lower ul ''none'' = ''none''" "to_lower ul ''collector'' = ''collector''" "to_lower ul ''both'' = ''both''"
  by code_simp+

definition personas :: "string set" where
  "personas = {persona_none, persona_collector, persona_creator, persona_both}"

interpretation persona: gql_enum persona_marshal_gql "persona_unmarshal_gql ul" "\<lambda>p. p \<in> personas" for ul
proof
  show "\<exists>t. persona_marshal_gql c = quoted t \<and> (\<forall>old. persona_unmarshal_gql ul old (AnyString t) = Ok c)"
    if "c \<in> personas" for c
    using that
    by (auto simp: personas_def persona_marshal_gql_def persona_unmarshal_gql_def persona_defs gql_simps
        quoted_def)
  show "\<exists>e. persona_unmarshal_gql ul old v = Err e" if "\<And>s. v \<noteq> AnyString s" for v old
    using that by (cases v) (auto simp: persona_unmarshal_gql_def)
  show "c = old \<or> c \<in> personas" if "persona_unmarshal_gql ul old (AnyString s) = Ok c" for old s c
    using that by (auto simp: personas_def persona_unmarshal_gql_def Let_def split: if_splits)
qed

section \<open>Social providers\<close>

definition all_social_providers :: "string list" where
  "all_social_providers = [''Twitter'', ''Farcaster'', ''Lens'']"

definition social_provider_is_valid :: "string \<Rightarrow> bool" where
  "social_provider_is_valid s \<longleftrightarrow> s = ''Twitter'' \<or> s = ''Farcaster'' \<or> s = ''Lens''"

definition social_provider_value :: "string \<Rightarrow> go_any outcome" where
  "social_provider_value s =
     (if \<not> social_provider_is_valid s then Err (ErrText (''invalid social provider: '' @ s))
      else Ok (AnyString s))"

text \<open>The receiver after the call and the error; the receiver is set also when the check fails.\<close>

definition social_provider_scan :: "go_any \<Rightarrow> (string \<times> gerror option) outcome" where
  "social_provider_scan src =
     (if src = AnyNil then Ok ('''', None)
      else bind_out (assert_string src) (\<lambda>s.
        if \<not> social_provider_is_valid s then Ok (s, Some (ErrText (''invalid social provider: '' @ s)))
        else Ok (s, None)))"

text \<open>
  Every enumeration of the GraphQL schema in this package is read back as it was
  written, whatever the receiver held: roles, personas, dark mode, wallet types and
  ownership types.
\<close>

theorem gql_enums_roundtrip:
  assumes "r \<in> roles" and "p \<in> personas" and "d \<in> {0, 1}" and "w \<in> {0, 1}"
    and "t \<in> {''holder'', ''creator''}"
  shows "role_unmarshal_gql ul r0 (AnyString (unquote (role_marshal_gql r))) = Ok r \<and>
    persona_unmarshal_gql ul p0 (AnyString (unquote (persona_marshal_gql p))) = Ok p \<and>
    dark_mode_unmarshal_gql ul d0 (AnyString (unquote (dark_mode_marshal_gql d))) = Ok d \<and>
    wallet_type_unmarshal_gql w0 (AnyString (unquote (wallet_type_marshal_gql w))) = Ok w \<and>
    ownership_unmarshal_gql ul t0 (AnyString (unquote (ownership_marshal_gql t))) = Ok t"
  using role.round_trip persona.round_trip dark_mode.round_trip wallet_type.round_trip
    ownership.round_trip assms
  by simp

theorem gql_enums_roundtrip_witness:
  "role_unmarshal_gql id '''' (AnyString (unquote (role_marshal_gql role_admin))) = Ok role_admin \<and>
    persona_unmarshal_gql id '''' (AnyString (unquote (persona_marshal_gql persona_both))) = Ok persona_both \<and>
    dark_mode_unmarshal_gql id 0 (AnyString (unquote (dark_mode_marshal_gql 1))) = Ok 1 \<and>
    wallet_type_unmarshal_gql 0 (AnyString (unquote (wallet_type_marshal_gql 1))) = Ok 1 \<and>
    ownership_unmarshal_gql id '''' (AnyString (unquote (ownership_marshal_gql ''creator''))) = Ok ''creator''"
  by (rule gql_enums_roundtrip) (simp_all add: roles_def personas_def)

end
