(* ===== verification/Validate.thy ===== *)
theory Validate
  imports UserTypes PaginationProps
begin

text \<open>
  \<^verbatim>\<open>validate/validate.go\<close>: the validators registered with the third-party validation
  library, and the pagination checks of \<^verbatim>\<open>publicapi/pagination.go\<close>. What the library itself does
  with a tag (\<^verbatim>\<open>Var\<close>) and with the reports of a struct validator (\<^verbatim>\<open>Struct\<close>) is an argument.
  A report is the field name, the tag and the parameter of \<^verbatim>\<open>ReportError\<close>.
\<close>

section \<open>Field validators\<close>

definition banned_usernames :: "string list" where
  "banned_usernames =
     [''about'', ''account'', ''analytics'', ''artist'', ''artists'', ''auth'', ''blog'', ''bookmarks'',
      ''careers'', ''chain'', ''changelog'', ''collection'', ''collections'', ''community'', ''contact'',
      ''edit'', ''explore'', ''faq'', ''featured'', ''feed'', ''feeds'', ''gallery'', ''guestbook'',
      ''help'', ''home'', ''info'', ''investors'', ''latest'', ''maintenance'', ''members'',
      ''membership'', ''messages'', ''nft'', ''nfts'', ''notifications'', ''nuke'', ''password'',
      ''privacy'', ''profile'', ''search'', ''settings'', ''shop'', ''support'', ''team'', ''terms'',
      ''trending'', ''universal'', ''unsubscribe'', ''verify'', ''welcome'', ''zora'', ''404'']"

text \<open>The expression \<^verbatim>\<open>^[\w.]*$\<close>: word characters of ASCII and periods.\<close>

definition word_or_period :: "char \<Rightarrow> bool" where
  "word_or_period c =
     (let n = (of_char c :: nat) in
      48 \<le> n \<and> n \<le> 57 \<or> 65 \<le> n \<and> n \<le> 90 \<or> n = 95 \<or> 97 \<le> n \<and> n \<le> 122 \<or> n = 46)"

definition matches_word_period :: "string \<Rightarrow> bool" where
  "matches_word_period s = list_all word_or_period s"

definition period_or_underscore :: "char \<Rightarrow> bool" where
  "period_or_underscore c \<longleftrightarrow> c = CHR ''.'' \<or> c = CHR ''_''"

text \<open>The runes the loop looks at are ASCII, so their offsets are those of single bytes.\<close>

definition consecutive_periods_or_underscores :: "string \<Rightarrow> bool" where
  "consecutive_periods_or_underscores s =
     list_ex (\<lambda>i. period_or_underscore (s ! i) \<and>
         (i > 0 \<and> period_or_underscore (s ! (i - 1)) \<or>
          i + 1 < length s \<and> period_or_underscore (s ! (i + 1)))) [0..<length s]"

definition username_validator :: "string \<Rightarrow> bool" where
  "username_validator s =
     (if s = '''' then True
      else if s \<in> set banned_usernames then False
      else length s \<ge> 2 \<and> length s \<le> 50 \<and> matches_word_period s \<and>
           \<not> consecutive_periods_or_underscores s)"

definition eth_validator :: "string \<Rightarrow> bool" where
  "eth_validator addr = (if addr = '''' then True else length addr = 42 \<and> has_prefix addr ''0x'')"

definition signature_validator :: "string \<Rightarrow> bool" where
  "signature_validator sig = (if sig = '''' then True else length sig \<ge> 80 \<and> length sig \<le> 200)"

definition nonce_validator :: "string \<Rightarrow> bool" where
  "nonce_validator nonce = (if nonce = '''' then True else length nonce \<ge> 10 \<and> length nonce \<le> 150)"

text \<open>\<^verbatim>\<open>url.ParseRequestURI\<close> and \<^verbatim>\<open>url.Parse\<close> (its scheme and host) are arguments.\<close>

definition http_validator ::
    "(string \<Rightarrow> unit outcome) \<Rightarrow> (string \<Rightarrow> (string \<times> string) outcome) \<Rightarrow> string \<Rightarrow> bool" where
  "http_validator parse_request_uri url_parse s =
     (if s = '''' then True
      else if \<not> is_ok (parse_request_uri s) then False
      else (case url_parse s of
              Ok (scheme, host) \<Rightarrow> \<not> (scheme = '''' \<or> host = '''')
            | _ \<Rightarrow> False))"

text \<open>\<^verbatim>\<open>sort.IntsAreSorted\<close> compares neighbours from the end; a field that is no slice of ints
  fails.\<close>

fun ints_are_sorted_from :: "nat \<Rightarrow> int list \<Rightarrow> bool" where
  "ints_are_sorted_from 0 s = True"
| "ints_are_sorted_from (Suc i) s = (if s ! Suc i < s ! i then False else ints_are_sorted_from i s)"

definition sorted_asc_validator :: "int list option \<Rightarrow> bool" where
  "sorted_asc_validator field =
     (case field of Some s \<Rightarrow> ints_are_sorted_from (length s - 1) s | None \<Rightarrow> False)"

definition created_collections_validator :: "string list option \<Rightarrow> bool" where
  "created_collections_validator given_ids =
     (case given_ids of Some s \<Rightarrow> \<not> list_ex (\<lambda>l. l = '''') s | None \<Rightarrow> True)"

definition chain_validator :: "int \<Rightarrow> bool" where
  "chain_validator c \<longleftrightarrow> c \<ge> 0 \<and> c \<le> max_chain_value"

definition is_valid_role :: "string \<Rightarrow> bool" where
  "is_valid_role r \<longleftrightarrow> r = role_admin \<or> r = role_beta_tester"

definition is_opt_in_role :: "string \<Rightarrow> bool" where
  "is_opt_in_role r \<longleftrightarrow> r = role_beta_tester"

definition is_valid_persona :: "string \<Rightarrow> bool" where
  "is_valid_persona p \<longleftrightarrow>
     p = persona_none \<or> p = persona_collector \<or> p = persona_creator \<or> p = persona_both"

section \<open>Struct validators\<close>

type_synonym report = "string \<times> string \<times> string"

definition chain_address_validator :: "chain_address \<Rightarrow> report list" where
  "chain_address_validator ca =
     (if length (ca_address ca) = 0 then [(''Address'', ''required'', '''')] else []) @
     (if ca_chain ca < 0 \<or> ca_chain ca > max_chain_value
      then [(''Chain'', ''valid_chain_type'', '''')] else [])"

definition event_validator :: "string \<Rightarrow> report list" where
  "event_validator action = (if action = '''' then [(''Action'', ''required'', '''')] else [])"

definition connection_pagination_params_validator :: "int option \<Rightarrow> int option \<Rightarrow> report list" where
  "connection_pagination_params_validator first lst =
     (if first = None \<and> lst = None
      then [(''First'', ''required_without'', ''firstorlast''), (''Last'', ''required_without'', ''firstorlast'')]
      else []) @
     (if first \<noteq> None \<and> lst \<noteq> None
      then [(''First'', ''excluded_with'', ''firstandlast''), (''Last'', ''excluded_with'', ''firstandlast'')]
      else [])"

text \<open>The settings' keys come in the order the runtime visits the map.\<close>

definition collection_token_settings_validator :: "string list \<Rightarrow> string list \<Rightarrow> report list" where
  "collection_token_settings_validator tokens setting_ids =
     concat (map (\<lambda>s.
       if \<not> contains_elem tokens s
       then [(''TokenSettings['' @ s @ '']'', ''exclude'', '''')] else []) setting_ids)"

section \<open>Validating several fields\<close>

text \<open>
  \<^verbatim>\<open>ValidateFields\<close> asks the library about every entry, in the order the runtime visits the
  map, and collects the errors' texts.
\<close>

fun validate_fields_loop :: "('v \<Rightarrow> string \<Rightarrow> string option) \<Rightarrow> (string \<times> 'v \<times> string) list
    \<Rightarrow> (string \<times> string) list \<Rightarrow> bool \<Rightarrow> unit outcome" where
  "validate_fields_loop check_var [] errs found = (if found then Err (ErrInvalidInput errs) else Ok ())"
| "validate_fields_loop check_var ((k, v, tag) # flds) errs found =
     (case check_var v tag of
        Some reason \<Rightarrow> validate_fields_loop check_var flds (errs @ [(k, reason)]) True
      | None \<Rightarrow> validate_fields_loop check_var flds errs found)"

definition validate_fields :: "('v \<Rightarrow> string \<Rightarrow> string option) \<Rightarrow> (string \<times> 'v \<times> string) list
    \<Rightarrow> unit outcome" where
  "validate_fields check_var flds = validate_fields_loop check_var flds [] False"

fun invalid_input_lines :: "(string \<times> string) list \<Rightarrow> string" where
  "invalid_input_lines [] = ''''"
| "invalid_input_lines ((p, r) # es) =
     ''    parameter: '' @ p @ '', reason: '' @ r @ [CHR 0x0A] @ invalid_input_lines es"

definition invalid_input_error :: "(string \<times> string) list \<Rightarrow> string" where
  "invalid_input_error es = ''invalid input:'' @ [CHR 0x0A] @ invalid_input_lines es"

definition validate_pagination_params :: "(int option \<Rightarrow> string \<Rightarrow> string option)
    \<Rightarrow> (report list \<Rightarrow> gerror option) \<Rightarrow> int option \<Rightarrow> int option \<Rightarrow> unit outcome" where
  "validate_pagination_params check_var check_struct first lst =
     bind_out (validate_fields check_var
         [(''first'', first, ''omitempty,gte=0''), (''last'', lst, ''omitempty,gte=0'')])
       (\<lambda>_. case check_struct (connection_pagination_params_validator first lst) of
           Some e \<Rightarrow> Err e
         | None \<Rightarrow> Ok ())"

section \<open>Properties\<close>

definition failing :: "('v \<Rightarrow> string \<Rightarrow> string option) \<Rightarrow> (string \<times> 'v \<times> string) list
    \<Rightarrow> (string \<times> string) list" where
  "failing check_var flds = map (\<lambda>(k, v, tag). (k, the (check_var v tag)))
     (filter (\<lambda>(k, v, tag). check_var v tag \<noteq> None) flds)"

lemma validate_fields_loop_failing:
  "validate_fields_loop check_var flds errs found =
     (if found \<or> failing check_var flds \<noteq> []
      then Err (ErrInvalidInput (errs @ failing check_var flds)) else Ok ())"
proof (induction flds arbitrary: errs found)
  case (Cons e flds)
  then show ?case
    by (cases e; cases "check_var (fst (snd e)) (snd (snd e))") (simp_all add: failing_def)
qed (simp add: failing_def)

text \<open>
  The library's documented behaviour: \<^verbatim>\<open>Var\<close> with \<^verbatim>\<open>omitempty,gte=0\<close> accepts nil and
  non-negative ints, and \<^verbatim>\<open>Struct\<close> returns nil exactly when nothing was reported.
\<close>

definition library_ok :: "(int option \<Rightarrow> string \<Rightarrow> string option) \<Rightarrow> (report list \<Rightarrow> gerror option) \<Rightarrow> bool" where
  "library_ok check_var check_struct \<longleftrightarrow>
     (\<forall>v. check_var v ''omitempty,gte=0'' = None \<longleftrightarrow> (case v of None \<Rightarrow> True | Some n \<Rightarrow> 0 \<le> n)) \<and>
     (\<forall>rs. check_struct rs = None \<longleftrightarrow> rs = [])"

lemma validate_pagination_params_Ok:
  assumes "library_ok check_var check_struct"
  shows "validate_pagination_params check_var check_struct first lst = Ok () \<longleftrightarrow>
    (\<exists>n \<ge> 0. first = Some n \<and> lst = None \<or> first = None \<and> lst = Some n)"
proof -
  have v: "check_var None ''omitempty,gte=0'' = None"
    "\<And>n. check_var (Some n) ''omitempty,gte=0'' = None \<longleftrightarrow> 0 \<le> n"
    and st: "\<And>rs. check_struct rs = None \<longleftrightarrow> rs = []"
    using assms by (simp_all add: library_ok_def)
  let ?rs = "connection_pagination_params_validator first lst"
  have "?rs = [] \<longleftrightarrow> (first = None \<longleftrightarrow> lst \<noteq> None)"
    by (auto simp: connection_pagination_params_validator_def)
  moreover have "validate_pagination_params check_var check_struct first lst = Ok () \<longleftrightarrow>
      check_var first ''omitempty,gte=0'' = None \<and> check_var lst ''omitempty,gte=0'' = None \<and> ?rs = []"
    using st [of ?rs]
    by (cases "check_var first ''omitempty,gte=0''"; cases "check_var lst ''omitempty,gte=0''";
        cases "check_struct ?rs")
      (simp_all add: validate_pagination_params_def validate_fields_def failing_def
        validate_fields_loop_failing)
  ultimately show ?thesis using v by (cases first; cases lst) auto
qed

text \<open>
  \<^verbatim>\<open>validatePaginationParams\<close> accepts exactly the requests that give one of first and
  last, and give it a value that is not negative.
\<close>

theorem pagination_params_accepted:
  assumes "library_ok check_var check_struct"
  shows "is_ok (validate_pagination_params check_var check_struct first lst) \<longleftrightarrow>
    (\<exists>n \<ge> 0. first = Some n \<and> lst = None \<or> first = None \<and> lst = Some n)"
  using validate_pagination_params_Ok [OF assms, of first lst]
  by (auto simp: is_ok_iff)

definition sample_check_var :: "int option \<Rightarrow> string \<Rightarrow> string option" where
  "sample_check_var v tag = (case v of None \<Rightarrow> None | Some n \<Rightarrow> if 0 \<le> n then None else Some ''gte'')"

definition sample_check_struct :: "report list \<Rightarrow> gerror option" where
  "sample_check_struct rs = (if rs = [] then None else Some (ErrText ''struct''))"

lemma sample_library_ok: "library_ok sample_check_var sample_check_struct"
  by (auto simp: library_ok_def sample_check_var_def sample_check_struct_def split: option.split)

theorem pagination_params_accepted_witness:
  "is_ok (validate_pagination_params sample_check_var sample_check_struct (Some 0) None) \<longleftrightarrow>
    (\<exists>n \<ge> 0. Some (0 :: int) = Some n \<and> (None :: int option) = None \<or>
      Some (0 :: int) = None \<and> (None :: int option) = Some n)"
  by (rule pagination_params_accepted [OF sample_library_ok])

lemma page_info_from_no_panic:
  assumes "\<And>n. n \<in> set es \<Longrightarrow> \<not> is_panic (pn n)" and "\<And>c. countF = Some c \<Longrightarrow> \<not> is_panic c"
  shows "\<not> is_panic (page_info_from pn ce es countF first lst)"
  using assms
  by (auto simp: page_info_from_def is_panic_bind split: list.splits option.splits)

lemma scan_for_cursor_no_panic:
  "(\<And>n. n \<in> set es \<Longrightarrow> \<not> is_panic (pn n)) \<Longrightarrow> \<not> is_panic (scan_for_cursor pn c i es)"
  by (induction es arbitrary: i) (auto simp: is_panic_bind)

lemma apply_cursors_no_panic:
  assumes "\<And>n. \<not> is_panic (pn n)"
  shows "\<not> is_panic (apply_cursors pn es before after)"
  using assms scan_for_cursor_no_panic [of _ pn]
  by (auto simp: apply_cursors_def is_panic_bind split: option.splits)

text \<open>
  Behind the validator the keyset paginator cannot panic: for every request that
  \<^verbatim>\<open>validatePaginationParams\<close> accepts, and whatever cursors the client sent, the paginator
  ends with a page or an error if the query, the cursor function and the count do.
\<close>

theorem validated_pagination_no_panic:
  assumes "library_ok check_var check_struct"
    and "validate_pagination_params check_var check_struct first lst = Ok ()"
    and "\<And>limit forward. \<not> is_panic (queryF limit forward)"
    and "\<And>n. \<not> is_panic (pn n)" and "\<And>c. countF = Some c \<Longrightarrow> \<not> is_panic c"
  shows "\<not> is_panic (keyset_paginate queryF pn countF before after first lst)"
proof -
  obtain n where n: "0 \<le> n" "first = Some n \<and> lst = None \<or> first = None \<and> lst = Some n"
    using validate_pagination_params_Ok [OF assms(1)] assms(2) by blast
  have limit: "\<not> is_panic (query_limit first lst)" using n(2) by (auto simp: query_limit_def)
  have edges: "\<not> is_panic (page_edges_from es first lst)" for es :: "'a list"
    using n by (auto simp: page_edges_from_def split: if_splits)
  show ?thesis
    using assms(3) limit edges apply_cursors_no_panic [of pn, OF assms(4)]
      page_info_from_no_panic [where pn = pn and countF = countF, OF assms(4) assms(5)]
    by (auto simp: keyset_paginate_def page_from_def is_panic_bind Let_def)
qed

theorem validated_pagination_no_panic_witness:
  "\<not> is_panic (keyset_paginate (\<lambda>limit forward. Ok [3 :: nat]) (\<lambda>n. Ok ''c'') (Some (Ok 1))
      None (Some ''zzz'') (Some 2) None)"
  by (rule validated_pagination_no_panic [OF sample_library_ok])
    (auto simp: validate_pagination_params_Ok [OF sample_library_ok])

text \<open>
  A username is accepted exactly when it is empty, or is not reserved, has 2 to 50
  characters that are ASCII letters, digits, underscores or periods, and never has two
  underscores or periods next to each other.
\<close>

theorem username_validator_accepts:
  "username_validator s \<longleftrightarrow> s = '''' \<or>
     (s \<notin> set banned_usernames \<and> 2 \<le> length s \<and> length s \<le> 50 \<and>
      list_all word_or_period s \<and>
      \<not> (\<exists>a c d b. s = a @ [c, d] @ b \<and> period_or_underscore c \<and> period_or_underscore d))"
proof -
  have "consecutive_periods_or_underscores s \<longleftrightarrow>
      (\<exists>a c d b. s = a @ [c, d] @ b \<and> period_or_underscore c \<and> period_or_underscore d)"
  proof
    assume "consecutive_periods_or_underscores s"
    then obtain i where "i + 1 < length s" "period_or_underscore (s ! i)" "period_or_underscore (s ! (i + 1))"
      by (auto simp: consecutive_periods_or_underscores_def list_ex_iff)
        (metis Suc_eq_plus1 Suc_pred less_trans_Suc)+
    moreover from this(1) have "s = take i s @ [s ! i, s ! (i + 1)] @ drop (i + 2) s"
      by (simp add: Cons_nth_drop_Suc id_take_nth_drop)
    ultimately show "\<exists>a c d b. s = a @ [c, d] @ b \<and> period_or_underscore c \<and> period_or_underscore d"
      by blast
  next
    assume "\<exists>a c d b. s = a @ [c, d] @ b \<and> period_or_underscore c \<and> period_or_underscore d"
    then obtain a c d b where s: "s = a @ [c, d] @ b" "period_or_underscore c" "period_or_underscore d"
      by blast
    then have "length a < length s" "length a + 1 < length s" "s ! length a = c" "s ! (length a + 1) = d"
      by (simp_all add: nth_append)
    with s(2,3) show "consecutive_periods_or_underscores s"
      unfolding consecutive_periods_or_underscores_def list_ex_iff
      by (intro bexI [of _ "length a"]) auto
  qed
  then show ?thesis by (auto simp: username_validator_def matches_word_period_def)
qed

text \<open>
  \<^verbatim>\<open>ValidateFields\<close> loses no failing field: when some field fails, the error lists
  every failing field with its reason and no other, and otherwise there is none.
\<close>

theorem validate_fields_reports_all:
  "validate_fields check_var flds =
     (let bad = filter (\<lambda>(k, v, tag). check_var v tag \<noteq> None) flds in
      if bad = [] then Ok ()
      else Err (ErrInvalidInput (map (\<lambda>(k, v, tag). (k, the (check_var v tag))) bad)))"
  by (simp add: validate_fields_def validate_fields_loop_failing failing_def Let_def)

lemma ints_sorted_from: "n < length s \<Longrightarrow> ints_are_sorted_from n s \<longleftrightarrow> (\<forall>i < n. s ! i \<le> s ! Suc i)"
  by (induction n) (auto simp: less_Suc_eq not_less)

text \<open>
  The loop of \<^verbatim>\<open>sorted_asc\<close> decides sortedness, and the chain validator accepts
  exactly the chains that have a name.
\<close>

theorem sorted_asc_and_chain_validators:
  "(sorted_asc_validator (Some s) \<longleftrightarrow> sorted s) \<and> (chain_validator c \<longleftrightarrow> c \<in> set all_chains)"
proof -
  have "sorted_asc_validator (Some s) \<longleftrightarrow> sorted s"
    by (cases "s = []")
      (auto simp: sorted_asc_validator_def ints_sorted_from sorted_iff_nth_Suc)
  moreover have "chain_validator c \<longleftrightarrow> chain_valid c" by (auto simp: chain_validator_def chain_valid_def)
  ultimately show ?thesis by (simp add: chain_valid_set)
qed

end
