(* ===== verification/RedisCache.thy ===== *)
theory RedisCache
  imports UserTypes
begin

text \<open>
  \<^verbatim>\<open>service/redis/redis.go\<close>: a cache that puts a prefix before its keys, on top of a redis
  client. The client library and the server are not part of the repository; their commands
  are the fields of \<open>redis_client\<close>, functions on a server state of any type. What the code
  relies on is the locale \<open>redis_server\<close>; the locale \<open>kv_cache\<close> is the contract the cache
  gives to its own clients, and every cache over such a server meets it.
\<close>

section \<open>The commands of the client\<close>

text \<open>
  GET distinguishes a missing key (\<^verbatim>\<open>redis.Nil\<close>, here \<open>Ok None\<close>) from a failure. SET, SETNX
  and DEL return the server state after the command; the integer is the expiration in
  nanoseconds. A pipeline runs its SETs in one go.
\<close>

record 's redis_client =
  rc_get :: "string \<Rightarrow> 's \<Rightarrow> bytes option outcome"
  rc_set :: "string \<Rightarrow> bytes \<Rightarrow> int \<Rightarrow> 's \<Rightarrow> unit outcome \<times> 's"
  rc_setnx :: "string \<Rightarrow> bytes \<Rightarrow> int \<Rightarrow> 's \<Rightarrow> bool outcome \<times> 's"
  rc_del :: "string \<Rightarrow> 's \<Rightarrow> unit outcome \<times> 's"
  rc_pipeline :: "(string \<times> bytes \<times> int) list \<Rightarrow> 's \<Rightarrow> unit outcome \<times> 's"

record 's cache =
  c_client :: "'s redis_client"
  c_prefix :: string

section \<open>Cache\<close>

definition get_prefixed_key :: "'s cache \<Rightarrow> string \<Rightarrow> string" where
  "get_prefixed_key c key = (if c_prefix c = '''' then key else c_prefix c @ '':'' @ key)"

definition get_prefixed_keys :: "'s cache \<Rightarrow> string list \<Rightarrow> string list" where
  "get_prefixed_keys c ks = (if c_prefix c = '''' then ks else map (\<lambda>k. c_prefix c @ '':'' @ k) ks)"

definition cache_set :: "'s cache \<Rightarrow> string \<Rightarrow> bytes \<Rightarrow> int \<Rightarrow> 's \<Rightarrow> unit outcome \<times> 's" where
  "cache_set c key val expiration st = rc_set (c_client c) (get_prefixed_key c key) val expiration st"

definition cache_set_nx :: "'s cache \<Rightarrow> string \<Rightarrow> bytes \<Rightarrow> int \<Rightarrow> 's \<Rightarrow> bool outcome \<times> 's" where
  "cache_set_nx c key val expiration st = rc_setnx (c_client c) (get_prefixed_key c key) val expiration st"

definition cache_mset_with_ttl :: "'s cache \<Rightarrow> (string \<times> bytes) list \<Rightarrow> int \<Rightarrow> 's \<Rightarrow> unit outcome \<times> 's" where
  "cache_mset_with_ttl c key_values expiration st =
     rc_pipeline (c_client c) (map (\<lambda>(k, v). (get_prefixed_key c k, v, expiration)) key_values) st"

definition cache_get :: "'s cache \<Rightarrow> string \<Rightarrow> 's \<Rightarrow> bytes outcome" where
  "cache_get c key st =
     (case rc_get (c_client c) (get_prefixed_key c key) st of
        Ok (Some bs) \<Rightarrow> Ok bs
      | Ok None \<Rightarrow> Err (ErrKeyNotFound key)
      | Err e \<Rightarrow> Err e
      | Panic p \<Rightarrow> Panic p)"

definition cache_delete :: "'s cache \<Rightarrow> string \<Rightarrow> 's \<Rightarrow> unit outcome \<times> 's" where
  "cache_delete c key st = rc_del (c_client c) (get_prefixed_key c key) st"

text \<open>
  \<^verbatim>\<open>SetTime\<close> and \<^verbatim>\<open>GetTime\<close> on Unix seconds; go-redis writes an integer in decimal. The Lua
  script runs as one step of the server: it reads the current value, and stores the new one
  with its expiry when there is none or it is earlier. Comparing a value that is no number
  is an error of the script; Lua compares whole seconds exactly, as they are below \<open>2 ^ 53\<close>.
\<close>

definition set_time_script :: "'s redis_client \<Rightarrow> string \<Rightarrow> int \<Rightarrow> int \<Rightarrow> 's \<Rightarrow> bool outcome \<times> 's" where
  "set_time_script rc key new_timestamp expiration st =
     (case rc_get rc key st of
        Ok current \<Rightarrow>
          (let write = (case rc_set rc key (bytes_of (itoa new_timestamp)) expiration st of
                      (Ok _, st') \<Rightarrow> (Ok True, st')
                    | (Err e, st') \<Rightarrow> (Err e, st')
                    | (Panic p, st') \<Rightarrow> (Panic p, st'))
           in case current of
                None \<Rightarrow> write
              | Some bs \<Rightarrow>
                  (case int_of_text 10 (string_of bs) of
                     Some t \<Rightarrow> if t < new_timestamp then write else (Ok False, st)
                   | None \<Rightarrow> (Err (ErrText ''attempt to compare nil with number''), st)))
      | Err e \<Rightarrow> (Err e, st)
      | Panic p \<Rightarrow> (Panic p, st))"

definition cache_set_time :: "'s cache \<Rightarrow> string \<Rightarrow> int \<Rightarrow> int \<Rightarrow> bool \<Rightarrow> 's \<Rightarrow> unit outcome \<times> 's" where
  "cache_set_time c key unix_timestamp expiration only_if_later st =
     (if \<not> only_if_later
      then rc_set (c_client c) (get_prefixed_key c key) (bytes_of (itoa unix_timestamp)) expiration st
      else (case set_time_script (c_client c) (hd (get_prefixed_keys c [key])) unix_timestamp expiration st of
              (r, st') \<Rightarrow> (map_ok (\<lambda>_. ()) r, st')))"

definition cache_get_time :: "'s cache \<Rightarrow> string \<Rightarrow> 's \<Rightarrow> int outcome" where
  "cache_get_time c key st =
     (case rc_get (c_client c) (get_prefixed_key c key) st of
        Ok (Some bs) \<Rightarrow>
          (case atoi (string_of bs) of
             Some t \<Rightarrow> Ok t
           | None \<Rightarrow> Err (ErrText ''strconv.ParseInt''))
      | Ok None \<Rightarrow> Err (ErrKeyNotFound key)
      | Err e \<Rightarrow> Err e
      | Panic p \<Rightarrow> Panic p)"

section \<open>LazyCache\<close>

record 's lazy_cache =
  lc_cache :: "'s cache"
  lc_calc :: "'s \<Rightarrow> bytes outcome \<times> 's"
  lc_key :: string
  lc_ttl :: int

fun is_key_not_found :: "gerror \<Rightarrow> bool" where
  "is_key_not_found (ErrKeyNotFound k) = True"
| "is_key_not_found (ErrNonFatal e) = is_key_not_found e"
| "is_key_not_found (ErrBadToken e) = is_key_not_found e"
| "is_key_not_found _ = False"

text \<open>The bytes come back also when storing them fails: a value and an error.\<close>

definition lazy_load :: "'s lazy_cache \<Rightarrow> 's \<Rightarrow> (bytes \<times> gerror option) outcome \<times> 's" where
  "lazy_load l st =
     (case cache_get (lc_cache l) (lc_key l) st of
        Ok b \<Rightarrow> (Ok (b, None), st)
      | Panic p \<Rightarrow> (Panic p, st)
      | Err e \<Rightarrow>
          if \<not> is_key_not_found e then (Err e, st)
          else (case lc_calc l st of
                  (Ok b, st1) \<Rightarrow>
                    (case cache_set (lc_cache l) (lc_key l) b (lc_ttl l) st1 of
                       (Ok _, st2) \<Rightarrow> (Ok (b, None), st2)
                     | (Err e', st2) \<Rightarrow> (Ok (b, Some e'), st2)
                     | (Panic p, st2) \<Rightarrow> (Panic p, st2))
                | (Err e', st1) \<Rightarrow> (Err e', st1)
                | (Panic p, st1) \<Rightarrow> (Panic p, st1)))"

section \<open>The contracts\<close>

text \<open>
  What redis documents of its commands: \<open>live\<close> is what a key holds. A command may fail; a
  command that succeeds has its effect on its key; no command touches another key.
\<close>

locale redis_server =
  fixes rc :: "'s redis_client" and live :: "'s \<Rightarrow> string \<Rightarrow> bytes option"
  assumes get_live: "rc_get rc k st = Ok found \<Longrightarrow> found = live st k"
    and get_no_panic: "\<not> is_panic (rc_get rc k st)"
    and get_error: "rc_get rc k st \<noteq> Err (ErrKeyNotFound k')"
    and set_live: "rc_set rc k v d st = (Ok (), st') \<Longrightarrow> live st' k = Some v"
    and set_other: "rc_set rc k v d st = (res, st') \<Longrightarrow> k' \<noteq> k \<Longrightarrow> live st' k' = live st k'"
    and set_no_panic: "\<not> is_panic (fst (rc_set rc k v d st))"
    and setnx_live: "rc_setnx rc k v d st = (Ok b, st') \<Longrightarrow>
      b = (live st k = None) \<and> live st' k = (if b then Some v else live st k)"
    and setnx_other: "rc_setnx rc k v d st = (created, st') \<Longrightarrow> k' \<noteq> k \<Longrightarrow> live st' k' = live st k'"
    and del_live: "rc_del rc k st = (Ok (), st') \<Longrightarrow> live st' k = None"
    and del_other: "rc_del rc k st = (res, st') \<Longrightarrow> k' \<noteq> k \<Longrightarrow> live st' k' = live st k'"
    and pipeline_live: "rc_pipeline rc kvs st = (Ok (), st') \<Longrightarrow>
      live st' k = (case map_of (rev kvs) k of Some (v, d) \<Rightarrow> Some v | None \<Rightarrow> live st k)"
begin

lemma script_monotone:
  assumes "set_time_script rc k t d st = (Ok b, st')" and "- (2 ^ 63) \<le> t" "t < 2 ^ 63"
    and "live st k = Some (bytes_of (itoa old))" and "- (2 ^ 63) \<le> old" "old < 2 ^ 63"
  shows "live st' k = Some (bytes_of (itoa (max old t)))"
proof -
  have "int_of_text 10 (itoa old) = Some old" by (simp add: itoa_def int_of_text_text)
  moreover obtain r where "rc_get rc k st = Ok r"
    using assms(1) by (auto simp: set_time_script_def split: outcome.splits)
  moreover from this have "r = live st k" by (rule get_live)
  ultimately show ?thesis
    using assms(1,4) set_live [of k "bytes_of (itoa t)" d st]
    by (auto simp: set_time_script_def max_def split: if_splits prod.splits outcome.splits)
qed

end

text \<open>What a cache promises the code that uses it, in terms of its own keys.\<close>

locale kv_cache =
  fixes get :: "string \<Rightarrow> 's \<Rightarrow> bytes outcome"
    and put :: "string \<Rightarrow> bytes \<Rightarrow> int \<Rightarrow> 's \<Rightarrow> unit outcome \<times> 's"
    and put_new :: "string \<Rightarrow> bytes \<Rightarrow> int \<Rightarrow> 's \<Rightarrow> bool outcome \<times> 's"
    and del :: "string \<Rightarrow> 's \<Rightarrow> unit outcome \<times> 's"
    and has :: "'s \<Rightarrow> string \<Rightarrow> bytes option"
  assumes get_has: "get k st = Ok v \<Longrightarrow> has st k = Some v"
    and get_missing: "get k st = Err (ErrKeyNotFound k') \<Longrightarrow> has st k = None"
    and get_returns: "\<not> is_panic (get k st)"
    and put_has: "put k v d st = (Ok (), st') \<Longrightarrow> has st' k = Some v"
    and put_other: "put k v d st = (res, st') \<Longrightarrow> k' \<noteq> k \<Longrightarrow> has st' k' = has st k'"
    and put_new_has: "put_new k v d st = (Ok b, st') \<Longrightarrow>
      b = (has st k = None) \<and> has st' k = (if b then Some v else has st k)"
    and put_new_other: "put_new k v d st = (created, st') \<Longrightarrow> k' \<noteq> k \<Longrightarrow> has st' k' = has st k'"
    and del_has: "del k st = (Ok (), st') \<Longrightarrow> has st' k = None"
    and del_other: "del k st = (res, st') \<Longrightarrow> k' \<noteq> k \<Longrightarrow> has st' k' = has st k'"
begin

lemma get_after_put: "put k v d st = (Ok (), st') \<Longrightarrow> get k st' = Ok b \<Longrightarrow> b = v"
  using put_has get_has by fastforce

lemma put_new_once:
  assumes "put_new k v d st = (Ok True, st1)" and "put_new k w d' st1 = (Ok b, st2)"
  shows "\<not> b \<and> has st2 k = Some v"
  using put_new_has [OF assms(1)] put_new_has [OF assms(2)] by auto

text \<open>Operations that succeed, as updates of the map of what the keys hold.\<close>

lemma put_map: "put k v d st = (Ok (), st') \<Longrightarrow> has st' = (has st)(k \<mapsto> v)"
  using put_has put_other by (fastforce simp: fun_eq_iff)

lemma del_map: "del k st = (Ok (), st') \<Longrightarrow> has st' = (has st)(k := None)"
  using del_has del_other by (fastforce simp: fun_eq_iff)

lemma put_new_map:
  assumes "put_new k v d st = (Ok b, st')"
  shows "has st' = (if has st k = None then (has st)(k \<mapsto> v) else has st)"
proof (rule ext)
  fix x show "has st' x = (if has st k = None then (has st)(k \<mapsto> v) else has st) x"
    using put_new_has [OF assms] put_new_other [OF assms, of x] by (cases "x = k") auto
qed

lemma get_after_del: "del k st = (Ok (), st') \<Longrightarrow> \<not> is_ok (get k st')"
  using del_has get_has by (fastforce simp: is_ok_iff)

end

lemma prefixed_key_inj [simp]: "get_prefixed_key c k = get_prefixed_key c k' \<longleftrightarrow> k = k'"
  by (simp add: get_prefixed_key_def)

lemma prefixed_keys_single: "hd (get_prefixed_keys c [k]) = get_prefixed_key c k"
  by (simp add: get_prefixed_keys_def get_prefixed_key_def)

definition cache_has :: "('s \<Rightarrow> string \<Rightarrow> bytes option) \<Rightarrow> 's cache \<Rightarrow> 's \<Rightarrow> string \<Rightarrow> bytes option" where
  "cache_has live c st k = live st (get_prefixed_key c k)"

lemmas cache_ops = cache_get_def cache_set_def cache_set_nx_def cache_delete_def cache_has_def


sublocale redis_server \<subseteq> prefixed:
  kv_cache "cache_get \<lparr>c_client = rc, c_prefix = p\<rparr>" "cache_set \<lparr>c_client = rc, c_prefix = p\<rparr>"
    "cache_set_nx \<lparr>c_client = rc, c_prefix = p\<rparr>" "cache_delete \<lparr>c_client = rc, c_prefix = p\<rparr>"
    "cache_has live \<lparr>c_client = rc, c_prefix = p\<rparr>" for p
proof
  fix k st
  show "\<not> is_panic (cache_get \<lparr>c_client = rc, c_prefix = p\<rparr> k st)"
    using get_no_panic [of "get_prefixed_key \<lparr>c_client = rc, c_prefix = p\<rparr> k" st]
    by (auto simp: cache_ops split: outcome.split option.split)
next
  fix k st k'
  show "cache_has live \<lparr>c_client = rc, c_prefix = p\<rparr> st k = None"
    if "cache_get \<lparr>c_client = rc, c_prefix = p\<rparr> k st = Err (ErrKeyNotFound k')"
    using that get_live get_error
    by (fastforce simp: cache_ops split: outcome.splits option.splits)
next
  fix k st v
  show "cache_has live \<lparr>c_client = rc, c_prefix = p\<rparr> st k = Some v"
    if "cache_get \<lparr>c_client = rc, c_prefix = p\<rparr> k st = Ok v"
    using that get_live by (fastforce simp: cache_ops split: outcome.splits option.splits)
qed (use set_live set_other setnx_live setnx_other del_live del_other in
    \<open>fastforce simp: cache_ops\<close>)+

context redis_server
begin

lemma cache_contract:
  "kv_cache (cache_get \<lparr>c_client = rc, c_prefix = p\<rparr>) (cache_set \<lparr>c_client = rc, c_prefix = p\<rparr>)
    (cache_set_nx \<lparr>c_client = rc, c_prefix = p\<rparr>) (cache_delete \<lparr>c_client = rc, c_prefix = p\<rparr>)
    (cache_has live \<lparr>c_client = rc, c_prefix = p\<rparr>)"
  by unfold_locales

end

section \<open>A server without failures\<close>

text \<open>
  A store whose commands never fail and whose keys do not expire: an instance of the
  contract, on which the properties with a server are evaluated.
\<close>

type_synonym store = "string \<rightharpoonup> bytes"

definition mem_redis :: "store redis_client" where
  "mem_redis = \<lparr>
     rc_get = \<lambda>k st. Ok (st k),
     rc_set = \<lambda>k v d st. (Ok (), st(k \<mapsto> v)),
     rc_setnx = \<lambda>k v d st. (if st k = None then (Ok True, st(k \<mapsto> v)) else (Ok False, st)),
     rc_del = \<lambda>k st. (Ok (), st(k := None)),
     rc_pipeline = \<lambda>kvs st. (Ok (), fold (\<lambda>(k, v, d) s. s(k \<mapsto> v)) kvs st)\<rparr>"

lemma fold_updates:
  "fold (\<lambda>(k, v, d) s. s(k \<mapsto> v)) kvs st k
     = (case map_of (rev kvs) k of Some (v, d) \<Rightarrow> Some v | None \<Rightarrow> st k)"
  by (induction kvs arbitrary: st) (auto split: option.splits simp: map_add_def)

interpretation mem: redis_server mem_redis "\<lambda>st k. st k"
  by unfold_locales (auto simp: mem_redis_def fold_updates split: if_splits)

section \<open>Properties\<close>

text \<open>
  \<^verbatim>\<open>SetTime\<close> with \<^verbatim>\<open>onlyIfLater\<close> never moves a stored time back: when it succeeds on
  a key that held a time, \<^verbatim>\<open>GetTime\<close> reads the later of the two.
\<close>

theorem set_time_only_later:
  assumes "redis_server rc live" and "- (2 ^ 63) \<le> t" "t < 2 ^ 63" "- (2 ^ 63) \<le> old" "old < 2 ^ 63"
    and "cache_has live \<lparr>c_client = rc, c_prefix = p\<rparr> st k = Some (bytes_of (itoa old))"
    and "cache_set_time \<lparr>c_client = rc, c_prefix = p\<rparr> k t d True st = (Ok (), st')"
    and "cache_get_time \<lparr>c_client = rc, c_prefix = p\<rparr> k st' = Ok seen"
  shows "seen = max old t"
proof -
  let ?k = "get_prefixed_key \<lparr>c_client = rc, c_prefix = p\<rparr> k"
  obtain b where "set_time_script rc ?k t d st = (Ok b, st')"
    using assms(7)
    by (auto simp: cache_set_time_def prefixed_keys_single map_ok_Ok_iff split: prod.splits)
  then have "live st' ?k = Some (bytes_of (itoa (max old t)))"
    using redis_server.script_monotone [OF assms(1)] assms(2-6) by (simp add: cache_has_def)
  moreover obtain bs where "rc_get rc ?k st' = Ok (Some bs)" "atoi (string_of bs) = Some seen"
    using assms(8) by (auto simp: cache_get_time_def split: outcome.splits option.splits)
  ultimately have "atoi (itoa (max old t)) = Some seen"
    using redis_server.get_live [OF assms(1)] by force
  with atoi_itoa [of "max old t"] assms(2-5) show ?thesis by simp
qed

definition sample_times :: store where
  "sample_times = [''a'' \<mapsto> bytes_of (itoa 7)]"

theorem set_time_only_later_witness:
  "cache_get_time \<lparr>c_client = mem_redis, c_prefix = ''''\<rparr> ''a'' sample_times = Ok (max 7 3)"
proof -
  let ?c = "\<lparr>c_client = mem_redis, c_prefix = ''''\<rparr>"
  have "cache_has (\<lambda>st k. st k) ?c sample_times ''a'' = Some (bytes_of (itoa 7))"
    by (simp add: cache_has_def get_prefixed_key_def sample_times_def)
  moreover have "cache_set_time ?c ''a'' 3 0 True sample_times = (Ok (), sample_times)"
    by (simp add: cache_set_time_def set_time_script_def mem_redis_def get_prefixed_keys_def itoa_def
        int_of_text_text sample_times_def)
  moreover have r: "cache_get_time ?c ''a'' sample_times = Ok 7"
    by (simp add: cache_get_time_def mem_redis_def get_prefixed_key_def atoi_itoa sample_times_def)
  ultimately have "7 = max 7 (3 :: int)"
    using set_time_only_later [OF mem.redis_server_axioms, of 3 7 "''''" sample_times "''a''" 0 sample_times 7]
    by simp
  with r show ?thesis by simp
qed

text \<open>
  \<^verbatim>\<open>LazyCache.Load\<close> gives the cached bytes without calling the calculation, and
  otherwise the calculated ones; after a load without error the cache holds what was
  returned, and a next load that can read the cache returns the same bytes.
\<close>

theorem lazy_load_fills_cache:
  assumes "redis_server rc live" and "lc_cache l = \<lparr>c_client = rc, c_prefix = p\<rparr>"
    and "lazy_load l st = (Ok (b, None), st')"
  shows "cache_has live (lc_cache l) st' (lc_key l) = Some b \<and>
    (cache_get (lc_cache l) (lc_key l) st = Ok b \<and> st' = st \<or>
     (\<exists>st1. lc_calc l st = (Ok b, st1) \<and> \<not> is_ok (cache_get (lc_cache l) (lc_key l) st))) \<and>
    (is_ok (cache_get (lc_cache l) (lc_key l) st') \<longrightarrow> lazy_load l st' = (Ok (b, None), st'))"
proof -
  note kv = redis_server.cache_contract [OF assms(1), of p, folded assms(2)]
  have hit: "lazy_load l s = (Ok (b0, None), s)" if "cache_get (lc_cache l) (lc_key l) s = Ok b0" for s b0
    using that by (simp add: lazy_load_def)
  have has: "cache_has live (lc_cache l) st' (lc_key l) = Some b"
    using assms(3) kv_cache.get_has [OF kv] kv_cache.put_has [OF kv]
    by (fastforce simp: lazy_load_def split: outcome.splits if_splits prod.splits)
  moreover have "cache_get (lc_cache l) (lc_key l) st = Ok b \<and> st' = st \<or>
     (\<exists>st1. lc_calc l st = (Ok b, st1) \<and> \<not> is_ok (cache_get (lc_cache l) (lc_key l) st))"
    using assms(3) by (auto simp: lazy_load_def split: outcome.splits if_splits prod.splits)
  moreover have "lazy_load l st' = (Ok (b, None), st')" if ok: "is_ok (cache_get (lc_cache l) (lc_key l) st')"
  proof -
    obtain b0 where b0: "cache_get (lc_cache l) (lc_key l) st' = Ok b0" using ok by (auto simp: is_ok_iff)
    with kv_cache.get_has [OF kv this] has have "b0 = b" by simp
    with hit [OF b0] show ?thesis by simp
  qed
  ultimately show ?thesis by blast
qed

definition sample_lazy :: "store lazy_cache" where
  "sample_lazy = \<lparr>lc_cache = \<lparr>c_client = mem_redis, c_prefix = ''p''\<rparr>, lc_calc = \<lambda>st. (Ok [1, 2], st),
     lc_key = ''k'', lc_ttl = 60\<rparr>"

definition filled_store :: store where
  "filled_store = [''p:k'' \<mapsto> [1, 2]]"

theorem lazy_load_fills_cache_witness:
  "cache_has (\<lambda>st k. st k) (lc_cache sample_lazy) filled_store (lc_key sample_lazy) = Some [1, 2] \<and>
    lazy_load sample_lazy filled_store = (Ok ([1, 2], None), filled_store)"
proof -
  have "lc_cache sample_lazy = \<lparr>c_client = mem_redis, c_prefix = ''p''\<rparr>" by (simp add: sample_lazy_def)
  moreover have "lazy_load sample_lazy Map.empty = (Ok ([1, 2], None), filled_store)"
    by (simp add: lazy_load_def sample_lazy_def cache_get_def cache_set_def mem_redis_def
        get_prefixed_key_def filled_store_def)
  moreover have "is_ok (cache_get (lc_cache sample_lazy) (lc_key sample_lazy) filled_store)"
    by (simp add: sample_lazy_def cache_get_def mem_redis_def get_prefixed_key_def filled_store_def)
  ultimately show ?thesis using lazy_load_fills_cache [OF mem.redis_server_axioms] by blast
qed

end
