(* ===== verification/Throttle.thy ===== *)
theory Throttle
  imports RedisCache
begin

text \<open>
  \<^verbatim>\<open>service/throttle/throttle.go\<close>: a lock made of a cache key. \<^verbatim>\<open>Lock\<close> reads the key and then
  writes it, two commands of the server, so concurrent callers are modelled by a step
  relation with one step per command, next to one in which a call runs undisturbed.
\<close>

section \<open>The locker\<close>

record 's locker =
  lk_memstore :: "'s cache"
  lk_expiry :: int

definition new_throttle_locker :: "'s cache \<Rightarrow> int \<Rightarrow> 's locker" where
  "new_throttle_locker memstore expiry = \<lparr>lk_memstore = memstore, lk_expiry = expiry\<rparr>"

fun is_err_key_not_found :: "gerror \<Rightarrow> bool" where
  "is_err_key_not_found (ErrKeyNotFound k) = True"
| "is_err_key_not_found _ = False"

definition locker_is_locked :: "'s locker \<Rightarrow> string \<Rightarrow> 's \<Rightarrow> bool outcome" where
  "locker_is_locked t key st =
     (case cache_get (lk_memstore t) key st of
        Ok _ \<Rightarrow> Ok True
      | Err e \<Rightarrow> if is_err_key_not_found e then Ok False else Err e
      | Panic p \<Rightarrow> Panic p)"

definition locker_lock :: "'s locker \<Rightarrow> string \<Rightarrow> 's \<Rightarrow> unit outcome \<times> 's" where
  "locker_lock t key st =
     (case locker_is_locked t key st of
        Err e \<Rightarrow> (Err e, st)
      | Panic p \<Rightarrow> (Panic p, st)
      | Ok True \<Rightarrow> (Err (ErrThrottleLocked key), st)
      | Ok False \<Rightarrow> cache_set (lk_memstore t) key [] (lk_expiry t) st)"

definition locker_unlock :: "'s locker \<Rightarrow> string \<Rightarrow> 's \<Rightarrow> unit outcome \<times> 's" where
  "locker_unlock t key st = cache_delete (lk_memstore t) key st"

definition throttle_locked_error :: "string \<Rightarrow> string" where
  "throttle_locked_error key = ''throttle locked: '' @ key"

section \<open>One caller at a time\<close>

definition locker_on :: "'s redis_client \<Rightarrow> string \<Rightarrow> int \<Rightarrow> 's locker" where
  "locker_on rc p expiry = new_throttle_locker \<lparr>c_client = rc, c_prefix = p\<rparr> expiry"

context redis_server
begin

definition key_held :: "string \<Rightarrow> 's \<Rightarrow> string \<Rightarrow> bool" where
  "key_held p st key \<longleftrightarrow> cache_has live \<lparr>c_client = rc, c_prefix = p\<rparr> st key \<noteq> None"

lemma is_locked_key_held:
  assumes "locker_is_locked (locker_on rc p d) key st = Ok b"
  shows "b = key_held p st key"
proof (cases "cache_get \<lparr>c_client = rc, c_prefix = p\<rparr> key st")
  case (Ok v)
  with assms prefixed.get_has show ?thesis
    by (fastforce simp: locker_is_locked_def locker_on_def new_throttle_locker_def key_held_def)
next
  case (Err e)
  with assms have "is_err_key_not_found e" "b = False"
    by (auto simp: locker_is_locked_def locker_on_def new_throttle_locker_def split: if_splits)
  then obtain k where "e = ErrKeyNotFound k" by (cases e) auto
  with Err prefixed.get_missing \<open>b = False\<close> show ?thesis by (fastforce simp: key_held_def)
next
  case (Panic q)
  with assms show ?thesis by (simp add: locker_is_locked_def locker_on_def new_throttle_locker_def)
qed

lemma lock_effect:
  assumes "locker_lock (locker_on rc p d) key st = (Ok (), st')"
  shows "\<not> key_held p st key" and "key_held p st' key"
proof -
  from assms have free: "locker_is_locked (locker_on rc p d) key st = Ok False"
    and set: "cache_set \<lparr>c_client = rc, c_prefix = p\<rparr> key [] d st = (Ok (), st')"
    by (auto simp: locker_lock_def locker_on_def new_throttle_locker_def split: outcome.splits bool.splits)
  show "\<not> key_held p st key" using is_locked_key_held [OF free] by simp
  show "key_held p st' key" using prefixed.put_has [OF set] by (simp add: key_held_def)
qed

lemma unlock_effect:
  assumes "locker_unlock (locker_on rc p d) key st = (Ok (), st')"
  shows "\<not> key_held p st' key"
  using assms prefixed.del_has
  by (auto simp: locker_unlock_def locker_on_def new_throttle_locker_def key_held_def)

end

text \<open>
  Used by one caller at a time, \<^verbatim>\<open>Locker\<close> is a lock: after a successful \<^verbatim>\<open>Lock\<close> the key
  is locked, locking it again is refused with \<^verbatim>\<open>ErrThrottleLocked\<close> (or fails), and after a
  successful \<^verbatim>\<open>Unlock\<close> it is free.
\<close>

theorem locker_excludes_second_lock:
  assumes "redis_server rc live" and "locker_lock (locker_on rc p d) key st = (Ok (), st1)"
  shows "\<exists>e. locker_lock (locker_on rc p d) key st1 = (Err e, st1) \<and>
      (is_ok (locker_is_locked (locker_on rc p d) key st1) \<longrightarrow> e = ErrThrottleLocked key) \<and>
    (\<forall>st2 b. locker_unlock (locker_on rc p d) key st1 = (Ok (), st2) \<longrightarrow>
      locker_is_locked (locker_on rc p d) key st2 = Ok b \<longrightarrow> \<not> b)"
proof -
  note rs = redis_server.is_locked_key_held [OF assms(1)] redis_server.lock_effect [OF assms]
    redis_server.unlock_effect [OF assms(1)]
  have "\<not> is_panic (locker_is_locked (locker_on rc p d) key st1)"
    using kv_cache.get_returns [OF redis_server.cache_contract [OF assms(1)], of p key st1]
    by (auto simp: locker_is_locked_def locker_on_def new_throttle_locker_def split: outcome.splits)
  then obtain e where "locker_lock (locker_on rc p d) key st1 = (Err e, st1) \<and>
      (is_ok (locker_is_locked (locker_on rc p d) key st1) \<longrightarrow> e = ErrThrottleLocked key)"
    using rs(1) [of p d key st1] rs(3)
    by (cases "locker_is_locked (locker_on rc p d) key st1")
      (auto simp: locker_lock_def split: bool.splits)
  with rs(1) rs(4) show ?thesis by blast
qed

theorem locker_excludes_second_lock_witness:
  "\<exists>e. locker_lock (locker_on mem_redis ''t'' 30) ''k'' [''t:k'' \<mapsto> []] = (Err e, [''t:k'' \<mapsto> []]) \<and>
      (is_ok (locker_is_locked (locker_on mem_redis ''t'' 30) ''k'' [''t:k'' \<mapsto> []]) \<longrightarrow>
        e = ErrThrottleLocked ''k'') \<and>
    (\<forall>st2 b. locker_unlock (locker_on mem_redis ''t'' 30) ''k'' [''t:k'' \<mapsto> []] = (Ok (), st2) \<longrightarrow>
      locker_is_locked (locker_on mem_redis ''t'' 30) ''k'' st2 = Ok b \<longrightarrow> \<not> b)"
proof (rule locker_excludes_second_lock [OF mem.redis_server_axioms])
  show "locker_lock (locker_on mem_redis ''t'' 30) ''k'' Map.empty = (Ok (), [''t:k'' \<mapsto> []])"
    by (simp add: locker_lock_def locker_is_locked_def locker_on_def new_throttle_locker_def cache_get_def
        cache_set_def mem_redis_def get_prefixed_key_def)
qed

section \<open>Concurrent callers\<close>

text \<open>
  Where a caller is: outside, between the two commands of \<^verbatim>\<open>Lock\<close>, holding the lock, or refused.
\<close>

datatype lock_pc = Outside | SawFree | Holding | Refused

type_synonym 's lock_state = "'s \<times> (nat \<Rightarrow> lock_pc)"

inductive lock_step :: "'s locker \<Rightarrow> string \<Rightarrow> 's lock_state \<Rightarrow> 's lock_state \<Rightarrow> bool"
  for t :: "'s locker" and key :: string
where
  read_free: "pcs i = Outside \<Longrightarrow> locker_is_locked t key st = Ok False \<Longrightarrow>
    lock_step t key (st, pcs) (st, pcs(i := SawFree))"
| read_locked: "pcs i = Outside \<Longrightarrow> locker_is_locked t key st = Ok True \<Longrightarrow>
    lock_step t key (st, pcs) (st, pcs(i := Refused))"
| write_key: "pcs i = SawFree \<Longrightarrow> cache_set (lk_memstore t) key [] (lk_expiry t) st = (Ok (), st') \<Longrightarrow>
    lock_step t key (st, pcs) (st', pcs(i := Holding))"
| release: "pcs i = Holding \<Longrightarrow> locker_unlock t key st = (Ok (), st') \<Longrightarrow>
    lock_step t key (st, pcs) (st', pcs(i := Outside))"

text \<open>The same with \<^verbatim>\<open>Lock\<close> as one step.\<close>

inductive serial_step :: "'s locker \<Rightarrow> string \<Rightarrow> 's lock_state \<Rightarrow> 's lock_state \<Rightarrow> bool"
  for t :: "'s locker" and key :: string
where
  lock_ok: "pcs i = Outside \<Longrightarrow> locker_lock t key st = (Ok (), st') \<Longrightarrow>
    serial_step t key (st, pcs) (st', pcs(i := Holding))"
| lock_refused: "pcs i = Outside \<Longrightarrow> locker_lock t key st = (Err e, st) \<Longrightarrow>
    serial_step t key (st, pcs) (st, pcs(i := Refused))"
| unlock: "pcs i = Holding \<Longrightarrow> locker_unlock t key st = (Ok (), st') \<Longrightarrow>
    serial_step t key (st, pcs) (st', pcs(i := Outside))"

definition lock_start :: "'s \<Rightarrow> 's lock_state" where
  "lock_start st = (st, \<lambda>_. Outside)"

definition at_most_one_holder :: "'s lock_state \<Rightarrow> bool" where
  "at_most_one_holder s \<longleftrightarrow> (\<forall>i j. snd s i = Holding \<longrightarrow> snd s j = Holding \<longrightarrow> i = j)"

context redis_server
begin

definition lock_inv :: "string \<Rightarrow> string \<Rightarrow> 's lock_state \<Rightarrow> bool" where
  "lock_inv p key s \<longleftrightarrow> at_most_one_holder s \<and> (\<forall>i. snd s i = Holding \<longrightarrow> key_held p (fst s) key)"

lemma serial_step_inv:
  assumes "serial_step (locker_on rc p d) key s s'" and "lock_inv p key s"
  shows "lock_inv p key s'"
  using assms(1)
proof (cases rule: serial_step.cases)
  case (lock_ok pcs i st st')
  from lock_effect [OF lock_ok(4)] assms(2) lock_ok(1,2) show ?thesis
    by (auto simp: lock_inv_def at_most_one_holder_def)
next
  case (lock_refused pcs i st e)
  with assms(2) show ?thesis by (auto simp: lock_inv_def at_most_one_holder_def)
next
  case (unlock pcs i st st')
  with assms(2) have "pcs j \<noteq> Holding" if "j \<noteq> i" for j
    using that by (auto simp: lock_inv_def at_most_one_holder_def)
  with unlock show ?thesis by (auto simp: lock_inv_def at_most_one_holder_def)
qed

lemma serial_run_inv:
  "(serial_step (locker_on rc p d) key)\<^sup>*\<^sup>* s s' \<Longrightarrow> lock_inv p key s \<Longrightarrow> lock_inv p key s'"
  by (induction rule: rtranclp_induct) (auto intro: serial_step_inv)

end

text \<open>
  If no other command comes between the two commands of a \<^verbatim>\<open>Lock\<close> call, the locker is
  a mutex: in no state that callers can reach do two of them hold the lock, however many lock,
  are refused and unlock.
\<close>

theorem serial_locks_exclude:
  assumes "redis_server rc live" and "(serial_step (locker_on rc p d) key)\<^sup>*\<^sup>* (lock_start st) s"
  shows "at_most_one_holder s"
proof -
  have "redis_server.lock_inv rc live p key (lock_start st)"
    by (simp add: redis_server.lock_inv_def [OF assms(1)] lock_start_def at_most_one_holder_def)
  from redis_server.serial_run_inv [OF assms this] show ?thesis
    by (simp add: redis_server.lock_inv_def [OF assms(1)])
qed

theorem serial_locks_exclude_witness:
  "at_most_one_holder ([''t:k'' \<mapsto> []] :: store, (\<lambda>_. Outside)(0 := Holding))"
proof (rule serial_locks_exclude [OF mem.redis_server_axioms, where p = "''t''" and key = "''k''" and d = 30])
  have "serial_step (locker_on mem_redis ''t'' 30) ''k'' (Map.empty, \<lambda>_. Outside)
      ([''t:k'' \<mapsto> []], (\<lambda>_. Outside)(0 := Holding))"
    by (rule serial_step.lock_ok)
      (simp_all add: locker_lock_def locker_is_locked_def locker_on_def new_throttle_locker_def
        cache_get_def cache_set_def mem_redis_def get_prefixed_key_def)
  then show "(serial_step (locker_on mem_redis ''t'' 30) ''k'')\<^sup>*\<^sup>* (lock_start Map.empty)
      ([''t:k'' \<mapsto> []], (\<lambda>_. Outside)(0 := Holding))"
    by (simp add: lock_start_def)
qed

text \<open>
  The two commands of \<^verbatim>\<open>Lock\<close> are not atomic, and the locker is no mutex: on a store
  where the key is free, two callers can both read it as free and then both write it, and both
  hold the lock.
\<close>

theorem concurrent_locks_overlap:
  assumes "locker_is_locked t key st = Ok False"
    and "cache_set (lk_memstore t) key [] (lk_expiry t) st = (Ok (), st1)"
    and "cache_set (lk_memstore t) key [] (lk_expiry t) st1 = (Ok (), st2)"
  shows "\<exists>s. (lock_step t key)\<^sup>*\<^sup>* (lock_start st) s \<and> \<not> at_most_one_holder s"
proof -
  let ?p0 = "\<lambda>_ :: nat. Outside"
  let ?p1 = "?p0(0 := SawFree)" let ?p2 = "?p1(1 := SawFree)"
  let ?p3 = "?p2(0 := Holding)" let ?p4 = "?p3(1 := Holding)"
  have "lock_step t key (st, ?p0) (st, ?p1)" by (rule read_free) (simp_all add: assms)
  moreover have "lock_step t key (st, ?p1) (st, ?p2)" by (rule read_free) (simp_all add: assms)
  moreover have "lock_step t key (st, ?p2) (st1, ?p3)" by (rule write_key) (simp_all add: assms)
  moreover have "lock_step t key (st1, ?p3) (st2, ?p4)" by (rule write_key) (simp_all add: assms)
  ultimately have "(lock_step t key)\<^sup>*\<^sup>* (lock_start st) (st2, ?p4)"
    unfolding lock_start_def by (meson rtranclp.rtrancl_refl rtranclp.rtrancl_into_rtrancl)
  moreover have "\<not> at_most_one_holder (st2, ?p4)"
    by (auto simp: at_most_one_holder_def intro!: exI [of _ 0] exI [of _ 1])
  ultimately show ?thesis by blast
qed

theorem concurrent_locks_overlap_witness:
  "\<exists>s. (lock_step (locker_on mem_redis ''t'' 30) ''k'')\<^sup>*\<^sup>* (lock_start Map.empty) s \<and>
     \<not> at_most_one_holder s"
  by (rule concurrent_locks_overlap)
    (simp_all add: locker_is_locked_def locker_on_def new_throttle_locker_def
      cache_get_def cache_set_def mem_redis_def get_prefixed_key_def)

end
