(* ===== verification/TokenManage.thy ===== *)
theory TokenManage
  imports Throttle GoCodec
begin

text \<open>
  \<^verbatim>\<open>service/tokenmanage\<close>: which tokens are being processed, which contracts are paused, and
  what happens when a run ends. All state is in redis, behind the cache of \<open>RedisCache\<close>; the
  error counter, the marking of a run, the retry limit and the task queue are functions of
  the manager. Metrics, logs and error reports are not modelled. The keep-alive goroutine of
  \<^verbatim>\<open>StartProcessing\<close> writes the same key until the callback stops it, at least once, so the
  callback takes the number of its writes.
\<close>

section \<open>Registry\<close>

record token_def =
  td_id :: string
  td_chain :: chain
  td_contract :: string

definition processing_key :: "string \<Rightarrow> string" where
  "processing_key token_id = ''inflight:'' @ token_id"

definition pause_contract_key :: "chain \<Rightarrow> string \<Rightarrow> string" where
  "pause_contract_key c a = ''paused:'' @ itoa c @ '':'' @ a"

definition registry_processing :: "'s cache \<Rightarrow> string \<Rightarrow> 's \<Rightarrow> bool" where
  "registry_processing c token_id st = is_ok (cache_get c (processing_key token_id) st)"

definition registry_finish :: "'s cache \<Rightarrow> string \<Rightarrow> 's \<Rightarrow> unit outcome \<times> 's" where
  "registry_finish c token_id st = cache_delete c (processing_key token_id) st"

text \<open>Durations are in nanoseconds; the map's entries are all alike, so their order is free.\<close>

definition nanos_per_second :: int where
  "nanos_per_second = 1000000000"

definition registry_set_many_enqueue :: "'s cache \<Rightarrow> string list \<Rightarrow> 's \<Rightarrow> unit outcome \<times> 's" where
  "registry_set_many_enqueue c token_ids st =
     cache_mset_with_ttl c (map (\<lambda>i. (processing_key i, bytes_of ''enqueued'')) (remdups token_ids))
       (3600 * nanos_per_second) st"

definition registry_set_enqueue :: "'s cache \<Rightarrow> string \<Rightarrow> 's \<Rightarrow> unit outcome \<times> 's" where
  "registry_set_enqueue c token_id st = registry_set_many_enqueue c [token_id] st"

definition registry_paused_contract :: "'s cache \<Rightarrow> chain \<Rightarrow> string \<Rightarrow> 's \<Rightarrow> bool" where
  "registry_paused_contract c chain a st = is_ok (cache_get c (pause_contract_key chain a) st)"

text \<open>The value is the time in milliseconds in the first eight of 64 bytes.\<close>

definition registry_pause_contract :: "'s cache \<Rightarrow> chain \<Rightarrow> string \<Rightarrow> int \<Rightarrow> u64 \<Rightarrow> 's
    \<Rightarrow> bool outcome \<times> 's" where
  "registry_pause_contract c chain a ttl now_millis st =
     cache_set_nx c (pause_contract_key chain a) (be_split 8 now_millis @ replicate 56 0) ttl st"

definition registry_keep_alive :: "'s cache \<Rightarrow> string \<Rightarrow> 's \<Rightarrow> unit outcome \<times> 's" where
  "registry_keep_alive c token_id st =
     cache_set c (processing_key token_id) (bytes_of ''processing'') (60 * nanos_per_second) st"

section \<open>Manager\<close>

record 's manager =
  mg_cache :: "'s cache"
  mg_throttle :: "'s locker"
  mg_error_counter :: "string \<Rightarrow> 's \<Rightarrow> (bool \<times> gerror option) \<times> 's"
  mg_tick_token :: "token_def \<Rightarrow> 's \<Rightarrow> int outcome \<times> 's"
  mg_max_retries :: "(token_def \<Rightarrow> int) option"
  mg_submit_batch :: "string list \<Rightarrow> 's \<Rightarrow> unit outcome \<times> 's"
  mg_submit_retry :: "string \<Rightarrow> int \<Rightarrow> int \<Rightarrow> 's \<Rightarrow> unit outcome \<times> 's"
  mg_now_millis :: "'s \<Rightarrow> u64"

definition new_manager :: "'s cache \<Rightarrow> (string \<Rightarrow> 's \<Rightarrow> (bool \<times> gerror option) \<times> 's)
    \<Rightarrow> (token_def \<Rightarrow> 's \<Rightarrow> int outcome \<times> 's) \<Rightarrow> (string list \<Rightarrow> 's \<Rightarrow> unit outcome \<times> 's)
    \<Rightarrow> (string \<Rightarrow> int \<Rightarrow> int \<Rightarrow> 's \<Rightarrow> unit outcome \<times> 's) \<Rightarrow> ('s \<Rightarrow> u64) \<Rightarrow> 's manager" where
  "new_manager c counter tick submit_batch submit_retry now =
     \<lparr>mg_cache = c, mg_throttle = new_throttle_locker c (1800 * nanos_per_second),
      mg_error_counter = counter, mg_tick_token = tick, mg_max_retries = None,
      mg_submit_batch = submit_batch, mg_submit_retry = submit_retry, mg_now_millis = now\<rparr>"

definition new_manager_with_retries :: "'s manager \<Rightarrow> (token_def \<Rightarrow> int) \<Rightarrow> 's manager" where
  "new_manager_with_retries m max_retries = m\<lparr>mg_max_retries := Some max_retries\<rparr>"

definition pause_flaking_contract_for :: int where
  "pause_flaking_contract_for = 3600 * nanos_per_second"

text \<open>\<^verbatim>\<open>errors.As\<close> for \<^verbatim>\<open>ErrBadToken\<close>, following \<^verbatim>\<open>Unwrap\<close>.\<close>

fun is_bad_token :: "gerror \<Rightarrow> bool" where
  "is_bad_token (ErrBadToken e) = True"
| "is_bad_token (ErrNonFatal e) = is_bad_token e"
| "is_bad_token _ = False"

definition error_is_bad_token :: "gerror option \<Rightarrow> bool" where
  "error_is_bad_token err = (case err of Some e \<Rightarrow> is_bad_token e | None \<Rightarrow> False)"

definition submit_new_tokens :: "'s manager \<Rightarrow> string list \<Rightarrow> 's \<Rightarrow> unit outcome \<times> 's" where
  "submit_new_tokens m token_ids st =
     (if length token_ids = 0 then (Ok (), st)
      else mg_submit_batch m token_ids (snd (registry_set_many_enqueue (mg_cache m) token_ids st)))"

definition manager_processing :: "'s manager \<Rightarrow> string \<Rightarrow> 's \<Rightarrow> bool" where
  "manager_processing m token_id st = registry_processing (mg_cache m) token_id st"

definition manager_paused :: "'s manager \<Rightarrow> token_def \<Rightarrow> 's \<Rightarrow> bool" where
  "manager_paused m td st = registry_paused_contract (mg_cache m) (td_chain td) (td_contract td) st"

definition lock_key :: "token_def \<Rightarrow> string" where
  "lock_key td = ''lock:'' @ td_id td"

text \<open>The start of a run: the error, or nil and the callback that must be called at its end.\<close>

definition start_processing :: "'s manager \<Rightarrow> token_def \<Rightarrow> 's \<Rightarrow> unit outcome \<times> 's" where
  "start_processing m td st =
     (if manager_paused m td st then (Err (ErrContractPaused (td_chain td) (td_contract td)), st)
      else locker_lock (mg_throttle m) (lock_key td) st)"

definition record_error :: "'s manager \<Rightarrow> token_def \<Rightarrow> gerror option \<Rightarrow> 's \<Rightarrow> 's" where
  "record_error m td original_err st =
     (if original_err = None \<or> \<not> error_is_bad_token original_err then st
      else if registry_paused_contract (mg_cache m) (td_chain td) (td_contract td) st then st
      else (case mg_error_counter m (itoa (td_chain td) @ '':'' @ td_contract td) st of
              ((can_retry, err), st1) \<Rightarrow>
                if can_retry then st1
                else snd (registry_pause_contract (mg_cache m) (td_chain td) (td_contract td)
                       pause_flaking_contract_for (mg_now_millis m st1) st1)))"

definition try_retry :: "'s manager \<Rightarrow> token_def \<Rightarrow> gerror option \<Rightarrow> int \<Rightarrow> 's \<Rightarrow> unit outcome \<times> 's" where
  "try_retry m td err attempts st =
     (let finish = (\<lambda>s. snd (registry_finish (mg_cache m) (td_id td) s)) in
      if \<not> error_is_bad_token err then (Ok (), finish st)
      else if manager_paused m td st then (Ok (), finish st)
      else (case mg_max_retries m of
              None \<Rightarrow> (Ok (), finish st)
            | Some max_retries \<Rightarrow>
                if err = None \<or> attempts \<ge> max_retries td then (Ok (), finish st)
                else (case mg_tick_token m td st of
                        (Err e, st1) \<Rightarrow> (Err e, finish st1)
                      | (Panic p, st1) \<Rightarrow> (Panic p, st1)
                      | (Ok delay, st1) \<Rightarrow>
                          mg_submit_retry m (td_id td) (attempts + 1) delay
                            (snd (registry_set_enqueue (mg_cache m) (td_id td) st1)))))"

fun keep_alive_times :: "nat \<Rightarrow> 's manager \<Rightarrow> token_def \<Rightarrow> 's \<Rightarrow> 's" where
  "keep_alive_times 0 m td st = st"
| "keep_alive_times (Suc n) m td st =
     keep_alive_times n m td (snd (registry_keep_alive (mg_cache m) (td_id td) st))"

definition processing_callback :: "'s manager \<Rightarrow> token_def \<Rightarrow> int \<Rightarrow> nat \<Rightarrow> gerror option \<Rightarrow> 's \<Rightarrow> 's" where
  "processing_callback m td attempts ticks err st =
     (let st1 = keep_alive_times (Suc ticks) m td st;
          st2 = snd (mg_tick_token m td st1);
          st3 = record_error m td err st2;
          st4 = snd (try_retry m td err attempts st3)
      in snd (locker_unlock (mg_throttle m) (lock_key td) st4))"

section \<open>A manager on a server that answers\<close>

text \<open>
  The environment of a manager: its cache and locker share a prefix, redis answers every
  command, and the counter, the run marker and the queue keep to their own keys (the limiter
  of the code puts its name after the same prefix) and do not panic.
\<close>

definition manager_key :: "string \<Rightarrow> bool" where
  "manager_key k \<longleftrightarrow> has_prefix k ''inflight:'' \<or> has_prefix k ''paused:'' \<or> has_prefix k ''lock:''"

lemma manager_keys [simp]:
  "manager_key (processing_key i)" "manager_key (pause_contract_key c a)" "manager_key (lock_key td)"
  by (simp_all add: manager_key_def processing_key_def pause_contract_key_def lock_key_def has_prefix_def)

lemma keys_differ [simp]:
  "processing_key i \<noteq> lock_key td" "lock_key td \<noteq> processing_key i"
  "pause_contract_key c a \<noteq> lock_key td" "lock_key td \<noteq> pause_contract_key c a"
  "pause_contract_key c a \<noteq> processing_key i" "processing_key i \<noteq> pause_contract_key c a"
  by (simp_all add: processing_key_def pause_contract_key_def lock_key_def)

lemma answered: "is_ok (fst r) \<Longrightarrow> \<exists>b s. r = (Ok b, s)"
  by (cases r) (auto simp: is_ok_iff)

locale manager_env = redis_server rc live
  for rc :: "'s redis_client" and live :: "'s \<Rightarrow> string \<Rightarrow> bytes option" +
  fixes m :: "'s manager" and p :: string and expiry :: int
  assumes cache_m: "mg_cache m = \<lparr>c_client = rc, c_prefix = p\<rparr>"
    and throttle_m: "mg_throttle m = locker_on rc p expiry"
    and get_answers: "is_ok (rc_get rc k st)"
    and set_answers: "is_ok (fst (rc_set rc k v d st))"
    and setnx_answers: "is_ok (fst (rc_setnx rc k v d st))"
    and del_answers: "is_ok (fst (rc_del rc k st))"
    and pipeline_answers: "is_ok (fst (rc_pipeline rc kvs st))"
    and tick_own: "manager_key k \<Longrightarrow>
      cache_has live (mg_cache m) (snd (mg_tick_token m td st)) k = cache_has live (mg_cache m) st k"
    and tick_no_panic: "\<not> is_panic (fst (mg_tick_token m td st))"
    and counter_own: "manager_key k \<Longrightarrow>
      cache_has live (mg_cache m) (snd (mg_error_counter m name st)) k = cache_has live (mg_cache m) st k"
    and submit_own: "manager_key k \<Longrightarrow>
      cache_has live (mg_cache m) (snd (mg_submit_retry m i a d st)) k = cache_has live (mg_cache m) st k"
begin

definition has_key :: "'s \<Rightarrow> string \<Rightarrow> bytes option" where
  "has_key = cache_has live (mg_cache m)"

lemma answers [simp]: "is_ok (cache_get (mg_cache m) k st) \<longleftrightarrow> has_key st k \<noteq> None"
proof -
  let ?k = "get_prefixed_key \<lparr>c_client = rc, c_prefix = p\<rparr> k"
  obtain r where r: "rc_get rc ?k st = Ok r" using get_answers [of ?k st] by (auto simp: is_ok_iff)
  then have "r = live st ?k" by (rule get_live)
  with r show ?thesis
    by (auto simp: cache_get_def cache_m has_key_def cache_has_def split: option.split)
qed

lemma del_ok: "\<exists>st'. cache_delete \<lparr>c_client = rc, c_prefix = p\<rparr> k st = (Ok (), st')"
  using answered [OF del_answers] by (simp add: cache_delete_def)

lemma put_ok: "\<exists>st'. cache_set \<lparr>c_client = rc, c_prefix = p\<rparr> k v d st = (Ok (), st')"
  using answered [OF set_answers] by (simp add: cache_set_def)

lemma put_new_ok: "\<exists>b st'. cache_set_nx \<lparr>c_client = rc, c_prefix = p\<rparr> k v d st = (Ok b, st')"
  using answered [OF setnx_answers] by (simp add: cache_set_nx_def)

lemma has_key_finish:
  "has_key (snd (registry_finish (mg_cache m) i st)) = (has_key st)(processing_key i := None)"
proof -
  obtain st' where "cache_delete \<lparr>c_client = rc, c_prefix = p\<rparr> (processing_key i) st = (Ok (), st')"
    using del_ok by blast
  from prefixed.del_map [OF this] this show ?thesis
    by (simp add: registry_finish_def cache_m has_key_def)
qed

lemma has_key_keep_alive:
  "has_key (snd (registry_keep_alive (mg_cache m) i st))
     = (has_key st)(processing_key i \<mapsto> bytes_of ''processing'')"
proof -
  obtain st' where "cache_set \<lparr>c_client = rc, c_prefix = p\<rparr> (processing_key i) (bytes_of ''processing'')
      (60 * nanos_per_second) st = (Ok (), st')"
    using put_ok by blast
  from prefixed.put_map [OF this] this show ?thesis
    by (simp add: registry_keep_alive_def cache_m has_key_def)
qed

lemma has_key_enqueue:
  "has_key (snd (registry_set_enqueue (mg_cache m) i st))
     = (has_key st)(processing_key i \<mapsto> bytes_of ''enqueued'')"
proof -
  let ?k = "get_prefixed_key \<lparr>c_client = rc, c_prefix = p\<rparr> (processing_key i)"
  let ?kvs = "[(?k, bytes_of ''enqueued'', 3600 * nanos_per_second)]"
  obtain st' where s: "rc_pipeline rc ?kvs st = (Ok (), st')"
    using pipeline_answers by (metis answered old.unit.exhaust)
  have "live st' = (live st)(?k \<mapsto> bytes_of ''enqueued'')"
    by (rule ext) (simp add: pipeline_live [OF s])
  with s show ?thesis
    by (simp add: registry_set_enqueue_def registry_set_many_enqueue_def cache_mset_with_ttl_def
        cache_m has_key_def cache_has_def fun_eq_iff)
qed

lemma has_key_unlock:
  "has_key (snd (locker_unlock (mg_throttle m) k st)) = (has_key st)(k := None)"
proof -
  obtain st' where "cache_delete \<lparr>c_client = rc, c_prefix = p\<rparr> k st = (Ok (), st')"
    using del_ok by blast
  from prefixed.del_map [OF this] this show ?thesis
    by (simp add: locker_unlock_def throttle_m locker_on_def new_throttle_locker_def cache_m has_key_def)
qed

lemma has_key_pause:
  "has_key (snd (registry_pause_contract (mg_cache m) c a ttl now st))
     = (if has_key st (pause_contract_key c a) = None
        then (has_key st)(pause_contract_key c a \<mapsto> be_split 8 now @ replicate 56 0) else has_key st)"
proof -
  obtain b st' where "cache_set_nx \<lparr>c_client = rc, c_prefix = p\<rparr> (pause_contract_key c a)
      (be_split 8 now @ replicate 56 0) ttl st = (Ok b, st')"
    using put_new_ok by blast
  from prefixed.put_new_map [OF this] this show ?thesis
    by (simp add: registry_pause_contract_def cache_m has_key_def)
qed

text \<open>The steps of the callback, key by key.\<close>

abbreviation pause_key :: "token_def \<Rightarrow> string" where
  "pause_key td \<equiv> pause_contract_key (td_chain td) (td_contract td)"

lemma paused_key: "manager_paused m td st \<longleftrightarrow> has_key st (pause_key td) \<noteq> None"
  by (simp add: manager_paused_def registry_paused_contract_def)

lemma keep_alive_keys:
  "has_key (keep_alive_times (Suc n) m td st)
     = (has_key st)(processing_key (td_id td) \<mapsto> bytes_of ''processing'')"
  by (induction n arbitrary: st) (simp_all add: has_key_keep_alive)

lemma record_error_keys:
  assumes "manager_key k" and "k \<noteq> pause_key td \<or> has_key st k \<noteq> None \<or> \<not> error_is_bad_token err"
  shows "has_key (record_error m td err st) k = has_key st k"
  using counter_own [OF assms(1)] assms(2)
  by (auto simp: record_error_def has_key_pause has_key_def [symmetric] registry_paused_contract_def
      split: prod.splits) (metis snd_conv)+

definition retries :: "token_def \<Rightarrow> gerror option \<Rightarrow> int \<Rightarrow> 's \<Rightarrow> bool" where
  "retries td err attempts st \<longleftrightarrow> error_is_bad_token err \<and> has_key st (pause_key td) = None \<and>
     (\<exists>mr. mg_max_retries m = Some mr \<and> attempts < mr td) \<and> is_ok (fst (mg_tick_token m td st))"

lemma try_retry_keys:
  assumes "manager_key k"
  shows "has_key (snd (try_retry m td err attempts st)) k
     = (if k \<noteq> processing_key (td_id td) then has_key st k
        else if retries td err attempts st then Some (bytes_of ''enqueued'') else None)"
proof -
  note own = tick_own [OF assms, folded has_key_def] submit_own [folded has_key_def]
  have "err \<noteq> None" if "error_is_bad_token err" using that by (cases err) (auto simp: error_is_bad_token_def)
  with own(1) [of td st] tick_no_panic [of td st] show ?thesis
    by (cases "mg_tick_token m td st"; cases "fst (mg_tick_token m td st)")
      (auto simp: try_retry_def paused_key has_key_finish has_key_enqueue own(2) assms retries_def
        is_ok_def is_panic_def Let_def split: option.splits)
qed

lemma start_processing_cases:
  "start_processing m td st =
     (if has_key st (pause_key td) \<noteq> None
      then (Err (ErrContractPaused (td_chain td) (td_contract td)), st)
      else if has_key st (lock_key td) \<noteq> None then (Err (ErrThrottleLocked (lock_key td)), st)
      else (Ok (), snd (start_processing m td st)))"
proof -
  let ?c = "\<lparr>c_client = rc, c_prefix = p\<rparr>"
  have locked: "locker_is_locked (mg_throttle m) k st = Ok (has_key st k \<noteq> None)" for k
  proof -
    obtain found where g: "rc_get rc (get_prefixed_key ?c k) st = Ok found"
      using get_answers [of "get_prefixed_key ?c k" st] by (auto simp: is_ok_iff)
    from get_live [OF g] g show ?thesis
      by (auto simp: locker_is_locked_def throttle_m locker_on_def new_throttle_locker_def cache_get_def
          has_key_def cache_m cache_has_def split: option.split)
  qed
  obtain st' where "cache_set ?c (lock_key td) [] expiry st = (Ok (), st')" using put_ok by blast
  then show ?thesis
    by (auto simp: start_processing_def paused_key locker_lock_def locked)
      (simp_all add: throttle_m locker_on_def new_throttle_locker_def)
qed

lemma start_processing_locks:
  assumes "start_processing m td st = (Ok (), st')"
  shows "has_key st' = (has_key st)(lock_key td \<mapsto> [])"
proof -
  let ?c = "\<lparr>c_client = rc, c_prefix = p\<rparr>"
  have "cache_set ?c (lock_key td) [] expiry st = (Ok (), st')"
    using assms by (auto simp: start_processing_def locker_lock_def throttle_m locker_on_def
        new_throttle_locker_def split: if_splits outcome.splits bool.splits)
  from prefixed.put_map [OF this] show ?thesis by (simp add: has_key_def cache_m)
qed

lemma callback_keys:
  assumes "manager_key k" and st0: "st0 = (has_key st)(processing_key (td_id td) \<mapsto> bytes_of ''processing'')"
  shows "\<exists>st3. has_key (processing_callback m td attempts ticks err st) k
      = (if k = lock_key td then None else if k \<noteq> processing_key (td_id td) then has_key st3 k
         else if retries td err attempts st3 then Some (bytes_of ''enqueued'') else None) \<and>
    (\<forall>k'. manager_key k' \<longrightarrow> k' \<noteq> pause_key td \<or> \<not> error_is_bad_token err \<longrightarrow> has_key st3 k' = st0 k') \<and>
    has_key (processing_callback m td attempts ticks err st) (pause_key td) = has_key st3 (pause_key td)"
proof -
  let ?st1 = "keep_alive_times (Suc ticks) m td st"
  let ?st2 = "snd (mg_tick_token m td ?st1)"
  let ?st3 = "record_error m td err ?st2"
  have cb: "processing_callback m td attempts ticks err st
      = snd (locker_unlock (mg_throttle m) (lock_key td) (snd (try_retry m td err attempts ?st3)))"
    by (simp add: processing_callback_def Let_def)
  have "has_key ?st3 k' = st0 k'" if "manager_key k'" "k' \<noteq> pause_key td \<or> \<not> error_is_bad_token err" for k'
    using record_error_keys [of k' td ?st2 err] that tick_own [OF that(1), folded has_key_def, of td ?st1]
    unfolding st0 keep_alive_keys by auto
  then show ?thesis
    unfolding cb has_key_unlock using assms(1) try_retry_keys [of _ td err attempts ?st3]
    by (intro exI [of _ ?st3]) simp
qed

end

section \<open>A manager whose cache is in memory\<close>

definition mem_manager :: "string \<Rightarrow> (string \<Rightarrow> store \<Rightarrow> bool \<times> gerror option) \<Rightarrow> int outcome
    \<Rightarrow> (token_def \<Rightarrow> int) \<Rightarrow> store manager" where
  "mem_manager p verdict delay max_retries =
     new_manager_with_retries
       (new_manager \<lparr>c_client = mem_redis, c_prefix = p\<rparr> (\<lambda>k st. (verdict k st, st))
          (\<lambda>td st. (delay, st)) (\<lambda>ids st. (Ok (), st)) (\<lambda>i a d st. (Ok (), st)) (\<lambda>st. 7))
       max_retries"

lemmas mem_manager_defs = mem_manager_def new_manager_with_retries_def new_manager_def

interpretation mem_mgr: manager_env mem_redis "\<lambda>st k. st k" "mem_manager p verdict (Ok delay) max_retries"
    p "1800 * nanos_per_second"
  for p verdict delay max_retries
  by unfold_locales
    (auto simp: mem_manager_defs mem_redis_def locker_on_def is_ok_def is_panic_def split: if_splits)

section \<open>Properties\<close>

text \<open>
  A run starts exactly when its contract is not paused and its token is not
  locked; it then holds the lock of the token and changes no other key. Otherwise it is
  refused with the error that says why, and nothing changes.
\<close>

theorem start_processing_guards:
  assumes "manager_env rc live m p expiry"
  defines "has \<equiv> cache_has live (mg_cache m)"
  shows "start_processing m td st =
       (if has st (pause_contract_key (td_chain td) (td_contract td)) \<noteq> None
        then (Err (ErrContractPaused (td_chain td) (td_contract td)), st)
        else if has st (lock_key td) \<noteq> None then (Err (ErrThrottleLocked (lock_key td)), st)
        else (Ok (), snd (start_processing m td st))) \<and>
     (fst (start_processing m td st) = Ok () \<longrightarrow>
        has (snd (start_processing m td st)) = (has st)(lock_key td \<mapsto> []))"
  using manager_env.start_processing_cases [OF assms(1), of td st]
    manager_env.start_processing_locks [OF assms(1), of td st "snd (start_processing m td st)"]
  unfolding manager_env.has_key_def [OF assms(1)] has_def by (metis prod.collapse)

definition sample_td :: token_def where
  "sample_td = \<lparr>td_id = ''t1'', td_chain = 0, td_contract = ''0xab''\<rparr>"

abbreviation sample_manager :: "store manager" where
  "sample_manager \<equiv> mem_manager ''p'' (\<lambda>k st. (False, Some ErrContextDone)) (Ok 5) (\<lambda>td. 3)"

theorem start_processing_guards_witness:
  "fst (start_processing sample_manager sample_td Map.empty) = Ok () \<and>
   start_processing sample_manager sample_td [''p:paused:0:0xab'' \<mapsto> []]
     = (Err (ErrContractPaused 0 ''0xab''), [''p:paused:0:0xab'' \<mapsto> []])"
proof -
  have pk: "pause_contract_key (td_chain sample_td) (td_contract sample_td) = ''paused:0:0xab''"
    by (simp add: pause_contract_key_def sample_td_def itoa_def int_text_def nat_text.simps digit_char_def)
  have c: "mg_cache sample_manager = \<lparr>c_client = mem_redis, c_prefix = ''p''\<rparr>"
    by (simp add: mem_manager_defs)
  note guards = start_processing_guards [OF mem_mgr.manager_env_axioms, of "''p''"
      "\<lambda>k st. (False, Some ErrContextDone)" 5 "\<lambda>td. 3" sample_td, unfolded pk c]
  have "fst (start_processing sample_manager sample_td Map.empty)
      = fst (Ok (), snd (start_processing sample_manager sample_td Map.empty))"
    by (rule arg_cong [where f = fst], rule trans [OF conjunct1 [OF guards [of Map.empty]]])
      (simp add: cache_has_def)
  moreover have "start_processing sample_manager sample_td [''p:paused:0:0xab'' \<mapsto> []]
      = (Err (ErrContractPaused 0 ''0xab''), [''p:paused:0:0xab'' \<mapsto> []])"
    by (rule trans [OF conjunct1 [OF guards]])
      (simp add: cache_has_def get_prefixed_key_def sample_td_def)
  ultimately show ?thesis by simp
qed

text \<open>
  Property C37. When a run ends, its lock is free and its token is either marked as enqueued or
  not marked at all. It is enqueued only if the run failed with a bad-token error, its attempts are
  below the limit and its contract is not paused after the error was counted, and always in
  that case when the run marker gives a delay. No other key of the registry changes, and the pause
  mark of the contract only after a bad-token error.
\<close>

theorem callback_releases_token:
  assumes "manager_env rc live m p expiry" and "st' = processing_callback m td attempts ticks err st"
  defines "has \<equiv> cache_has live (mg_cache m)"
  defines "pk \<equiv> pause_contract_key (td_chain td) (td_contract td)"
  defines "retry_asked \<equiv> error_is_bad_token err \<and> has st' pk = None \<and>
    (\<exists>mr. mg_max_retries m = Some mr \<and> attempts < mr td)"
  shows "has st' (lock_key td) = None \<and>
    has st' (processing_key (td_id td)) \<in> {None, Some (bytes_of ''enqueued'')} \<and>
    (has st' (processing_key (td_id td)) \<noteq> None \<longrightarrow> retry_asked) \<and>
    ((\<forall>s. is_ok (fst (mg_tick_token m td s))) \<longrightarrow> retry_asked \<longrightarrow> has st' (processing_key (td_id td)) \<noteq> None) \<and>
    (\<forall>k. manager_key k \<longrightarrow> k \<noteq> lock_key td \<longrightarrow> k \<noteq> processing_key (td_id td) \<longrightarrow>
      k \<noteq> pk \<or> \<not> error_is_bad_token err \<longrightarrow> has st' k = has st k)"
proof -
  have has_eq: "manager_env.has_key live m = has"
    by (simp add: manager_env.has_key_def [OF assms(1)] has_def)
  note keys = manager_env.callback_keys [OF assms(1) _ refl, of _ td attempts ticks err st, folded assms(2),
      unfolded has_eq manager_env.retries_def [OF assms(1)], folded pk_def]
  have "has st' (lock_key td) = None" using keys [of "lock_key td"] by auto
  moreover obtain st3 where
    "has st' (processing_key (td_id td)) = (if error_is_bad_token err \<and> has st3 pk = None \<and>
       (\<exists>mr. mg_max_retries m = Some mr \<and> attempts < mr td) \<and> is_ok (fst (mg_tick_token m td st3))
       then Some (bytes_of ''enqueued'') else None)" "has st' pk = has st3 pk"
    using keys [of "processing_key (td_id td)"] by auto
  moreover have "has st' k = has st k" if "manager_key k" "k \<noteq> lock_key td" "k \<noteq> processing_key (td_id td)"
      "k \<noteq> pk \<or> \<not> error_is_bad_token err" for k
    using keys [OF that(1)] that by auto
  ultimately show ?thesis unfolding retry_asked_def by auto
qed

theorem callback_releases_token_witness:
  "cache_has (\<lambda>st k. st k) (mg_cache sample_manager)
     (processing_callback sample_manager sample_td 0 2 (Some (ErrBadToken IoEOF)) Map.empty) (lock_key sample_td) = None"
  using callback_releases_token [OF mem_mgr.manager_env_axioms refl,
      of "''p''" "\<lambda>k st. (False, Some ErrContextDone)" 5 "\<lambda>td. 3" sample_td 0 2 "Some (ErrBadToken IoEOF)" Map.empty]
  by blast

text \<open>
  No run asks for a retry beyond the limit: a manager whose queue does anything at
  all with larger attempt numbers behaves like the same manager with a queue that agrees with it up
  to the limit, because it never sends them.
\<close>

theorem retries_bounded:
  assumes "mg_max_retries m = Some max_retries"
    and "\<And>a d s. a \<le> max_retries td \<Longrightarrow> mg_submit_retry m (td_id td) a d s = queue (td_id td) a d s"
  shows "processing_callback m td attempts ticks err st
    = processing_callback (m\<lparr>mg_submit_retry := queue\<rparr>) td attempts ticks err st"
proof -
  let ?m = "m\<lparr>mg_submit_retry := queue\<rparr>"
  have "keep_alive_times n ?m td s = keep_alive_times n m td s" for n s
    by (induction n arbitrary: s) simp_all
  moreover have "record_error ?m td err s = record_error m td err s" for s
    by (auto simp: record_error_def split: prod.split)
  moreover have "try_retry ?m td err attempts s = try_retry m td err attempts s" for s
    using assms by (simp add: try_retry_def manager_paused_def Let_def split: prod.split outcome.split)
  ultimately show ?thesis by (simp add: processing_callback_def)
qed

theorem retries_bounded_witness:
  "processing_callback sample_manager sample_td 3 0 (Some (ErrBadToken IoEOF)) Map.empty
    = processing_callback (sample_manager\<lparr>mg_submit_retry :=
        \<lambda>i a d st. if a \<le> 3 then (Ok (), st) else (Err IoEOF, Map.empty)\<rparr>)
        sample_td 3 0 (Some (ErrBadToken IoEOF)) Map.empty"
  by (rule retries_bounded [where max_retries = "\<lambda>td. 3"]) (simp_all add: mem_manager_defs)

text \<open>
  A bad-token error pauses its contract for an hour exactly when the error counter
  answers false. The counter also answers false when it fails, so a failing counter pauses
  a contract at its first error.
\<close>

theorem bad_token_pauses:
  assumes "manager_env rc live m p expiry" and "error_is_bad_token err"
    and "has st (pause_contract_key (td_chain td) (td_contract td)) = None"
    and "mg_error_counter m (itoa (td_chain td) @ '':'' @ td_contract td) st = ((can_retry, counter_err), st1)"
    and "has = cache_has live (mg_cache m)"
  shows "has (record_error m td err st) (pause_contract_key (td_chain td) (td_contract td))
    = (if can_retry then None else Some (be_split 8 (mg_now_millis m st1) @ replicate 56 0))"
proof -
  have has_eq: "manager_env.has_key live m = has"
    by (simp add: manager_env.has_key_def [OF assms(1)] assms(5))
  have "\<not> registry_paused_contract (mg_cache m) (td_chain td) (td_contract td) st"
    using manager_env.paused_key [OF assms(1), of td st] assms(3) by (simp add: manager_paused_def has_eq)
  moreover obtain e where "err = Some e" using assms(2) by (cases err) (auto simp: error_is_bad_token_def)
  moreover have "has st1 (pause_contract_key (td_chain td) (td_contract td)) = None"
    using manager_env.counter_own [OF assms(1) manager_keys(2), of "itoa (td_chain td) @ '':'' @ td_contract td" st]
      assms(3-5) by simp
  ultimately show ?thesis
    using manager_env.has_key_pause [OF assms(1), unfolded has_eq] assms(2,4)
    by (simp add: record_error_def)
qed

theorem bad_token_pauses_witness:
  "cache_has (\<lambda>st k. st k) (mg_cache sample_manager)
     (record_error sample_manager sample_td (Some (ErrBadToken IoEOF)) Map.empty)
     (pause_contract_key (td_chain sample_td) (td_contract sample_td))
    = Some (be_split 8 (7 :: u64) @ replicate 56 0)"
  using bad_token_pauses [OF mem_mgr.manager_env_axioms _ _ _ refl,
      of "Some (ErrBadToken IoEOF)" "''p''" "\<lambda>k st. (False, Some ErrContextDone)" 5 "\<lambda>td. 3"
        Map.empty sample_td False "Some ErrContextDone" Map.empty]
  by (simp add: error_is_bad_token_def cache_has_def mem_manager_defs)

end
