(* ===== verification/Retry.thy ===== *)
theory Retry
  imports Prelude
begin

text \<open>
  \<^verbatim>\<open>util/retry/retry.go\<close>: the wait before a retry, the loops that send a request or call a
  function again, and the \<^verbatim>\<open>Retryer\<close> that asks a rate limiter before each request. The HTTP
  client, the limiter, the context and the random draw are arguments; the loops return the
  waits they made, in nanoseconds, beside their result. Go's \<^verbatim>\<open>int\<close> and \<^verbatim>\<open>time.Duration\<close> have
  64 bits and wrap.
\<close>

section \<open>How long to wait\<close>

type_synonym s64 = "64 word"

definition nanos :: s64 where
  "nanos = 1000000000"

text \<open>\<open>r *= 2\<close>, \<open>n\<close> times.\<close>

fun doubled :: "nat \<Rightarrow> s64" where
  "doubled 0 = 1"
| "doubled (Suc n) = doubled n * 2"

text \<open>
  The jitter is drawn below one plus a tenth of \<open>max_wait\<close>; \<^verbatim>\<open>rand.Intn\<close> panics when its bound is
  not positive. The product with the float 0.1, truncated, is the integer quotient for every
  wait below \<open>2 ^ 50\<close> seconds.
\<close>

definition wait_time :: "(int \<Rightarrow> int) \<Rightarrow> int \<Rightarrow> int \<Rightarrow> int \<Rightarrow> s64 outcome" where
  "wait_time intn min_wait max_wait try_iteration =
     (if try_iteration \<le> 0 then Ok 0
      else
        (let r = doubled (nat try_iteration);
             bound = 1 + go_quot max_wait 10
         in if bound \<le> 0 then Panic (PanicText ''invalid argument to Intn'')
            else
              (let iter_wait = word_of_int min_wait + r + word_of_int (intn bound);
                   wait = (if sint iter_wait < max_wait then iter_wait else word_of_int max_wait)
               in Ok (wait * nanos))))"

record retry =
  min_wait :: int
  max_wait :: int
  max_retries :: int

definition default_retry :: retry where
  "default_retry = \<lparr>min_wait = 0, max_wait = 64, max_retries = 8\<rparr>"

lemma doubled_power: "doubled n = 2 ^ n"
  by (induction n) simp_all

lemma sint_small_sum:
  fixes a b c :: int
  assumes "0 \<le> a" "0 \<le> b" "0 \<le> c" "a + b + c < 2 ^ 63"
  shows "sint (word_of_int a + word_of_int b + word_of_int c :: s64) = a + b + c"
proof -
  have "sint (word_of_int n :: s64) = n" if "0 \<le> n" "n < 2 ^ 63" for n
    using that by (simp only: int_word_sint) simp
  from this [of "a + b + c"] assms show ?thesis by (simp only: wi_hom_add)
qed

section \<open>Loops without a queue\<close>

record http_response =
  status_code :: int
  resp_body :: string

definition too_many_requests :: int where
  "too_many_requests = 429"

definition http_not_found :: int where
  "http_not_found = 404"

text \<open>\<open>n\<close> is what is left of \<open>MaxRetries\<close>, \<open>i\<close> the loop counter.\<close>

fun retry_request_loop :: "(int \<Rightarrow> int) \<Rightarrow> ('s \<Rightarrow> http_response outcome \<times> 's) \<Rightarrow> retry \<Rightarrow> nat \<Rightarrow> int \<Rightarrow> 's
    \<Rightarrow> http_response outcome \<times> s64 list \<times> 's" where
  "retry_request_loop intn client r 0 i st = (Err ErrOutOfRetries, [], st)"
| "retry_request_loop intn client r (Suc n) i st =
     (case client st of
        (Ok resp, st1) \<Rightarrow>
          if status_code resp \<noteq> too_many_requests then (Ok resp, [], st1)
          else (case wait_time intn (min_wait r) (max_wait r) i of
                  Ok w \<Rightarrow> (case retry_request_loop intn client r n (i + 1) st1 of
                            (res, waits, st2) \<Rightarrow> (res, w # waits, st2))
                | Err e \<Rightarrow> (Err e, [], st1)
                | Panic p \<Rightarrow> (Panic p, [], st1))
      | (Err e, st1) \<Rightarrow> (Err e, [], st1)
      | (Panic p, st1) \<Rightarrow> (Panic p, [], st1))"

definition retry_request_with_retry :: "(int \<Rightarrow> int) \<Rightarrow> ('s \<Rightarrow> http_response outcome \<times> 's) \<Rightarrow> retry \<Rightarrow> 's
    \<Rightarrow> http_response outcome \<times> s64 list \<times> 's" where
  "retry_request_with_retry intn client r st =
     retry_request_loop intn client r (nat (max_retries r)) 0 st"

definition retry_request :: "(int \<Rightarrow> int) \<Rightarrow> ('s \<Rightarrow> http_response outcome \<times> 's) \<Rightarrow> 's
    \<Rightarrow> http_response outcome \<times> s64 list \<times> 's" where
  "retry_request intn client st = retry_request_with_retry intn client default_retry st"

fun retry_func_loop :: "(int \<Rightarrow> int) \<Rightarrow> ('s \<Rightarrow> gerror option \<times> 's) \<Rightarrow> (gerror \<Rightarrow> bool) \<Rightarrow> retry \<Rightarrow> nat \<Rightarrow> int
    \<Rightarrow> 's \<Rightarrow> gerror option outcome \<times> s64 list \<times> 's" where
  "retry_func_loop intn f should_retry c 0 i st = (Ok (Some ErrOutOfRetries), [], st)"
| "retry_func_loop intn f should_retry c (Suc n) i st =
     (case f st of
        (None, st1) \<Rightarrow> (Ok None, [], st1)
      | (Some e, st1) \<Rightarrow>
          if \<not> should_retry e then (Ok (Some e), [], st1)
          else if i \<noteq> max_retries c - 1
          then (case wait_time intn (min_wait c) (min_wait c) i of
                  Ok w \<Rightarrow> (case retry_func_loop intn f should_retry c n (i + 1) st1 of
                            (res, waits, st2) \<Rightarrow> (res, w # waits, st2))
                | Err e' \<Rightarrow> (Err e', [], st1)
                | Panic p \<Rightarrow> (Panic p, [], st1))
          else retry_func_loop intn f should_retry c n (i + 1) st1)"

definition retry_func :: "(int \<Rightarrow> int) \<Rightarrow> ('s \<Rightarrow> gerror option \<times> 's) \<Rightarrow> (gerror \<Rightarrow> bool) \<Rightarrow> retry \<Rightarrow> 's
    \<Rightarrow> gerror option outcome \<times> s64 list \<times> 's" where
  "retry_func intn f should_retry c st = retry_func_loop intn f should_retry c (nat (max_retries c)) 0 st"

section \<open>Retryer\<close>

text \<open>
  One turn of the goroutine \<^verbatim>\<open>enqueue\<close> on a pending request: \<open>ctx_done\<close> is what
  \<^verbatim>\<open>ctx.Err()\<close> gives once the context is done, \<open>for_key\<close> asks the limiter and \<open>sleep\<close> lets time
  pass. The loop waits as long as the limiter asks for it, so it may not return.
\<close>

record 's retryer =
  ctx_done :: "'s \<Rightarrow> gerror option"
  for_key :: "string \<Rightarrow> 's \<Rightarrow> (bool \<times> int \<times> gerror option) \<times> 's"
  sleep :: "int \<Rightarrow> 's \<Rightarrow> 's"
  send :: "'s \<Rightarrow> http_response outcome \<times> 's"

partial_function (option) msg_loop :: "'s retryer \<Rightarrow> string \<Rightarrow> 's \<Rightarrow> (gerror option \<times> 's) option" where
  "msg_loop rt host st =
     (case ctx_done rt st of
        Some e \<Rightarrow> Some (Some e, st)
      | None \<Rightarrow>
          (case for_key rt host st of
             ((_, wait, Some e), st1) \<Rightarrow> Some (Some e, st1)
           | ((_, wait, None), st1) \<Rightarrow>
               if wait \<le> 0 then Some (None, st1) else msg_loop rt host (sleep rt wait st1)))"

text \<open>
  \<^verbatim>\<open>do\<close> after the first wait. The response of the last attempt comes back also when the
  retries are used up. \<open>wait\<close> is the round trip through the queue; the code ignores its
  error before a retry.
\<close>

function retryer_do :: "(int \<Rightarrow> int) \<Rightarrow> ('s \<Rightarrow> http_response outcome \<times> 's) \<Rightarrow> ('s \<Rightarrow> gerror option \<times> 's)
    \<Rightarrow> retry \<Rightarrow> int \<Rightarrow> 's \<Rightarrow> (http_response option \<times> gerror option) outcome \<times> s64 list \<times> 's" where
  "retryer_do intn client wait r retry_count st =
     (case client st of
        (Err e, st1) \<Rightarrow> (Ok (None, Some e), [], st1)
      | (Panic p, st1) \<Rightarrow> (Panic p, [], st1)
      | (Ok resp, st1) \<Rightarrow>
          if status_code resp \<noteq> too_many_requests then (Ok (Some resp, None), [], st1)
          else if retry_count \<ge> max_retries r then (Ok (Some resp, Some ErrOutOfRetries), [], st1)
          else (case wait_time intn (min_wait r) (max_wait r) (retry_count + 1) of
                  Err e \<Rightarrow> (Err e, [], st1)
                | Panic p \<Rightarrow> (Panic p, [], st1)
                | Ok w \<Rightarrow> (case retryer_do intn client wait r (retry_count + 1) (snd (wait st1)) of
                            (res, waits, st2) \<Rightarrow> (res, w # waits, st2))))"
  by pat_completeness auto
termination
  by (relation "measure (\<lambda>(_, _, _, r, n, _). nat (max_retries r - n))") auto

declare retryer_do.simps [simp del]

definition do_retry :: "(int \<Rightarrow> int) \<Rightarrow> ('s \<Rightarrow> http_response outcome \<times> 's) \<Rightarrow> ('s \<Rightarrow> gerror option \<times> 's)
    \<Rightarrow> retry \<Rightarrow> 's \<Rightarrow> (http_response option \<times> gerror option) outcome \<times> s64 list \<times> 's" where
  "do_retry intn client wait c st =
     (case wait st of
        (Some e, st1) \<Rightarrow> (Ok (None, Some e), [], st1)
      | (None, st1) \<Rightarrow> retryer_do intn client wait c 0 st1)"

definition retryer_do_default :: "(int \<Rightarrow> int) \<Rightarrow> ('s \<Rightarrow> http_response outcome \<times> 's)
    \<Rightarrow> ('s \<Rightarrow> gerror option \<times> 's) \<Rightarrow> 's
    \<Rightarrow> (http_response option \<times> gerror option) outcome \<times> s64 list \<times> 's" where
  "retryer_do_default intn client wait st = do_retry intn client wait default_retry st"

section \<open>Properties\<close>

text \<open>What the random source documents: a draw below a positive bound.\<close>

definition draws_below :: "(int \<Rightarrow> int) \<Rightarrow> bool" where
  "draws_below intn \<longleftrightarrow> (\<forall>n > 0. 0 \<le> intn n \<and> intn n < n)"

text \<open>
  The wait before a retry grows exponentially and is capped: for bounds whose
  nanoseconds fit in 64 bits it is a whole number of seconds, at most \<open>max_wait\<close>, and at least
  the smaller of \<open>max_wait\<close> and \<open>min_wait + 2 ^ try\<close>.
\<close>

theorem wait_time_bounds:
  assumes "draws_below intn" and "0 \<le> min_w" "min_w < 2 ^ 33" and "0 \<le> max_w" "max_w < 2 ^ 33"
    and "0 < try_i" "try_i \<le> 60"
  shows "\<exists>w secs. wait_time intn min_w max_w try_i = Ok w \<and> sint w = secs * 1000000000 \<and>
    secs \<le> max_w \<and> min max_w (min_w + 2 ^ nat try_i) \<le> secs"
proof -
  define d where "d = intn (1 + go_quot max_w 10)"
  have q: "go_quot max_w 10 = max_w div 10" using assms(4) by (simp add: go_quot_def sgn_if)
  have "0 < 1 + max_w div 10" "max_w div 10 \<le> max_w" using assms(4) by simp_all
  with assms(1) have d: "0 \<le> d" "d \<le> max_w" unfolding draws_below_def d_def q by force+
  have p: "(2 :: int) ^ nat try_i \<le> 2 ^ 60" using assms(7) by (intro power_increasing) auto
  define secs where "secs = min max_w (min_w + 2 ^ nat try_i + d)"
  let ?it = "word_of_int min_w + doubled (nat try_i) + word_of_int d"
  have it: "sint ?it = min_w + 2 ^ nat try_i + d"
    using sint_small_sum [of min_w "2 ^ nat try_i" d] assms(2-5) d p by (simp add: doubled_power)
  have range: "0 \<le> secs * 1000000000" "secs * 1000000000 < 2 ^ 63"
    using assms(2,4,5) d(1) by (auto simp: secs_def min_def)
  have "?it = word_of_int (sint ?it)" by simp
  then have "(if sint ?it < max_w then ?it else word_of_int max_w) = word_of_int secs"
    unfolding it by (auto simp: secs_def min_def)
  moreover have "\<not> 1 + go_quot max_w 10 \<le> 0" using assms(4) by (simp add: q)
  ultimately have "wait_time intn min_w max_w try_i = Ok (word_of_int secs * nanos)"
    using assms(6) by (simp add: wait_time_def d_def [symmetric])
  moreover have "sint (word_of_int secs * nanos :: s64) = secs * 1000000000"
  proof -
    have "word_of_int secs * nanos = (word_of_int (secs * 1000000000) :: s64)"
      by (simp add: nanos_def)
    then show ?thesis using range by (simp only: int_word_sint) simp
  qed
  moreover have "secs \<le> max_w" "min max_w (min_w + 2 ^ nat try_i) \<le> secs"
    using d(1) by (auto simp: secs_def min_def)
  ultimately show ?thesis by blast
qed

theorem wait_time_bounds_witness:
  "\<exists>w secs. wait_time (\<lambda>n. n - 1) 0 64 3 = Ok w \<and> sint w = secs * 1000000000 \<and>
    secs \<le> 64 \<and> min 64 (0 + 2 ^ nat 3) \<le> secs"
  by (rule wait_time_bounds) (simp_all add: draws_below_def)

text \<open>A client described by its answers; the state counts the requests sent.\<close>

definition scripted :: "(nat \<Rightarrow> http_response outcome) \<Rightarrow> nat \<Rightarrow> http_response outcome \<times> nat" where
  "scripted answer n = (answer n, Suc n)"

definition rate_limited :: "http_response outcome \<Rightarrow> bool" where
  "rate_limited a = (case a of Ok resp \<Rightarrow> status_code resp = too_many_requests | _ \<Rightarrow> False)"

lemma wait_time_Ok:
  assumes "- 10 < max_w"
  shows "\<exists>w. wait_time intn min_w max_w i = Ok w"
proof -
  have "\<bar>max_w\<bar> div 10 = 0" if "max_w < 0" using assms that by simp
  then have "\<not> 1 + go_quot max_w 10 \<le> 0" by (cases "max_w < 0") (auto simp: go_quot_def sgn_if)
  then show ?thesis by (simp add: wait_time_def Let_def)
qed

lemma retry_request_loop_limited:
  assumes "- 10 < max_wait r" and "\<And>j. j < k \<Longrightarrow> rate_limited (answer (m + j))"
  shows "\<exists>waits. length waits = k \<and>
    retry_request_loop intn (scripted answer) r (k + n) i m
      = (case retry_request_loop intn (scripted answer) r n (i + int k) (m + k) of
           (res, ws, st) \<Rightarrow> (res, waits @ ws, st))"
  using assms(2)
proof (induction k arbitrary: i m)
  case 0
  show ?case by (cases "retry_request_loop intn (scripted answer) r n i m") simp
next
  case (Suc k)
  obtain w where w: "wait_time intn (min_wait r) (max_wait r) i = Ok w"
    using wait_time_Ok [OF assms(1)] by blast
  have "rate_limited (answer m)" using Suc.prems [of 0] by simp
  then obtain resp where "answer m = Ok resp" "status_code resp = too_many_requests"
    by (auto simp: rate_limited_def split: outcome.splits)
  moreover have "\<And>j. j < k \<Longrightarrow> rate_limited (answer (Suc m + j))" using Suc.prems [of "Suc _"] by simp
  from Suc.IH [of "Suc m" "i + 1", OF this] obtain waits where "length waits = k"
    "retry_request_loop intn (scripted answer) r (k + n) (i + 1) (Suc m)
      = (case retry_request_loop intn (scripted answer) r n (i + 1 + int k) (Suc m + k) of
           (res, ws, st) \<Rightarrow> (res, waits @ ws, st))" by blast
  moreover have "scripted answer m = (answer m, Suc m)" by (simp add: scripted_def)
  ultimately show ?case
    by (intro exI [of _ "w # waits"]) (simp add: w add.assoc split: prod.split)
qed

text \<open>
  \<^verbatim>\<open>RetryRequestWithRetry\<close> gives the first answer that is not a 429, an error of the
  client included, after exactly the requests up to it and one wait between two of them; when
  the first \<^verbatim>\<open>MaxRetries\<close> answers are all 429 it stops there with \<^verbatim>\<open>ErrOutOfRetries\<close>, having
  waited also after the last.
\<close>

theorem retry_request_first_answer:
  assumes "- 10 < max_wait r" and "\<forall>j < k. rate_limited (answer j)"
  shows "(k < nat (max_retries r) \<and> \<not> rate_limited (answer k) \<longrightarrow>
      (\<exists>waits. retry_request_with_retry intn (scripted answer) r 0 = (answer k, waits, Suc k) \<and> length waits = k)) \<and>
    (k = nat (max_retries r) \<longrightarrow>
      (\<exists>waits. retry_request_with_retry intn (scripted answer) r 0 = (Err ErrOutOfRetries, waits, k) \<and>
        length waits = k))"
proof (intro conjI impI)
  assume k: "k < nat (max_retries r) \<and> \<not> rate_limited (answer k)"
  then obtain n where n: "nat (max_retries r) = k + Suc n" using less_imp_add_positive [of k] by (metis Suc_pred' conjunct1)
  have last: "retry_request_loop intn (scripted answer) r (Suc n) (0 + int k) (0 + k) = (answer k, [], Suc k)"
    using k by (cases "answer k") (auto simp: scripted_def rate_limited_def)
  from retry_request_loop_limited [of r k answer 0 intn "Suc n" 0] assms
  show "\<exists>waits. retry_request_with_retry intn (scripted answer) r 0 = (answer k, waits, Suc k) \<and> length waits = k"
    unfolding retry_request_with_retry_def n last by auto
next
  assume k: "k = nat (max_retries r)"
  from retry_request_loop_limited [of r k answer 0 intn 0 0] assms
  show "\<exists>waits. retry_request_with_retry intn (scripted answer) r 0 = (Err ErrOutOfRetries, waits, k) \<and>
      length waits = k"
    unfolding retry_request_with_retry_def k [symmetric] by auto
qed

definition sample_answer :: "nat \<Rightarrow> http_response outcome" where
  "sample_answer n = Ok \<lparr>status_code = (if n < 2 then 429 else 200), resp_body = ''ok''\<rparr>"

theorem retry_request_first_answer_witness:
  "\<exists>waits. retry_request_with_retry (\<lambda>n. 0) (scripted sample_answer) default_retry 0
     = (sample_answer 2, waits, 3) \<and> length waits = 2"
proof -
  have "\<forall>j < 2. rate_limited (sample_answer j)" "\<not> rate_limited (sample_answer 2)"
    by (simp_all add: rate_limited_def sample_answer_def too_many_requests_def)
  with retry_request_first_answer [of default_retry 2 sample_answer "\<lambda>n. 0"] show ?thesis
    by (simp add: default_retry_def numeral_3_eq_3)
qed

lemma retryer_do_limited:
  assumes "- 10 < max_wait r" and "\<And>s. snd (wait s) = s" and "c + int k \<le> max_retries r"
    and "\<And>j. j < k \<Longrightarrow> rate_limited (answer (m + j))"
  shows "\<exists>waits. length waits = k \<and>
    retryer_do intn (scripted answer) wait r c m
      = (case retryer_do intn (scripted answer) wait r (c + int k) (m + k) of
           (res, ws, st) \<Rightarrow> (res, waits @ ws, st))"
  using assms(3,4)
proof (induction k arbitrary: c m)
  case 0
  show ?case by (cases "retryer_do intn (scripted answer) wait r c m") simp
next
  case (Suc k)
  obtain w where w: "wait_time intn (min_wait r) (max_wait r) (c + 1) = Ok w"
    using wait_time_Ok [OF assms(1)] by blast
  have "rate_limited (answer m)" using Suc.prems(2) [of 0] by simp
  then obtain resp where a: "answer m = Ok resp" "status_code resp = too_many_requests"
    by (auto simp: rate_limited_def split: outcome.splits)
  have "\<And>j. j < k \<Longrightarrow> rate_limited (answer (Suc m + j))" "c + 1 + int k \<le> max_retries r"
    using Suc.prems(2) [of "Suc _"] Suc.prems(1) by simp_all
  from Suc.IH [OF this(2,1)] obtain waits where ws: "length waits = k"
    "retryer_do intn (scripted answer) wait r (c + 1) (Suc m)
      = (case retryer_do intn (scripted answer) wait r (c + 1 + int k) (Suc m + k) of
           (res, ws, st) \<Rightarrow> (res, waits @ ws, st))" by blast
  have s: "scripted answer m = (answer m, Suc m)" by (simp add: scripted_def)
  have "\<not> max_retries r \<le> c" using Suc.prems(1) by simp
  then show ?case using w ws a
    by (intro exI [of _ "w # waits"])
      (simp add: retryer_do.simps [of intn "scripted answer" wait r c m] s assms(2) add.assoc split: prod.split)
qed

text \<open>
  A request sent through \<^verbatim>\<open>Retryer\<close> is sent again as long as it is rate limited, at
  most \<open>max_retries + 1\<close> times in all, and its last response comes back, with \<^verbatim>\<open>ErrOutOfRetries\<close> if
  that one is rate limited too. What the queue answers before a retry plays no role: a limiter
  error, a done context or a closing retryer, which \<^verbatim>\<open>wait\<close> reports, does not stop it.
\<close>

theorem retryer_bounded_sends:
  assumes "- 10 < max_wait r" and "\<forall>s. snd (wait s) = s" and "\<forall>j < k. rate_limited (answer j)"
    and "int k \<le> max_retries r" and "\<not> rate_limited (answer k) \<or> int k = max_retries r"
  shows "\<exists>waits. length waits = k \<and> retryer_do intn (scripted answer) wait r 0 0
    = (case answer k of
         Ok resp \<Rightarrow> Ok (Some resp, if rate_limited (answer k) then Some ErrOutOfRetries else None)
       | Err e \<Rightarrow> Ok (None, Some e)
       | Panic p \<Rightarrow> Panic p, waits, Suc k)"
proof -
  have s: "scripted answer k = (answer k, Suc k)" by (simp add: scripted_def)
  obtain waits where "length waits = k" and r: "retryer_do intn (scripted answer) wait r 0 0
      = (case retryer_do intn (scripted answer) wait r (0 + int k) (0 + k) of
           (res, ws, st) \<Rightarrow> (res, waits @ ws, st))"
    using retryer_do_limited [of r wait 0 k answer 0 intn] assms by auto
  moreover have "retryer_do intn (scripted answer) wait r (int k) k
    = (case answer k of
         Ok resp \<Rightarrow> Ok (Some resp, if rate_limited (answer k) then Some ErrOutOfRetries else None)
       | Err e \<Rightarrow> Ok (None, Some e)
       | Panic p \<Rightarrow> Panic p, [], Suc k)"
    using assms(5)
    by (cases "answer k")
      (auto simp: retryer_do.simps [of intn "scripted answer" wait r "int k" k] s rate_limited_def)
  ultimately show ?thesis by auto
qed

theorem retryer_bounded_sends_witness:
  "\<exists>waits. length waits = 2 \<and> retryer_do (\<lambda>n. 0) (scripted sample_answer) (\<lambda>s. (Some ErrContextDone, s))
      default_retry 0 0
    = (case sample_answer 2 of
         Ok resp \<Rightarrow> Ok (Some resp, if rate_limited (sample_answer 2) then Some ErrOutOfRetries else None)
       | Err e \<Rightarrow> Ok (None, Some e)
       | Panic p \<Rightarrow> Panic p, waits, Suc 2)"
  by (rule retryer_bounded_sends)
    (simp_all add: default_retry_def rate_limited_def sample_answer_def too_many_requests_def)

lemma wait_time_zero:
  assumes "draws_below intn" and "i < 60" and "wait_time intn 0 0 i = Ok w"
  shows "w = 0"
proof (cases "i \<le> 0")
  case False
  have "intn 1 = 0" using assms(1) [unfolded draws_below_def, rule_format, of 1] by simp
  moreover have "(2 :: int) ^ nat i \<le> 2 ^ 60" using assms(2) by (intro power_increasing) auto
  then have "sint (word_of_int 0 + word_of_int (2 ^ nat i) + word_of_int 0 :: s64) = 0 + 2 ^ nat i + 0"
    by (intro sint_small_sum) auto
  then have "\<not> sint (2 ^ nat i :: s64) < 0" by simp
  ultimately show ?thesis using assms(3) False
    by (auto simp: wait_time_def doubled_power go_quot_def split: if_splits)
qed (use assms in \<open>simp add: wait_time_def\<close>)

lemma retry_func_loop_zero:
  assumes "draws_below intn" and "min_wait c = 0" and "i + int n < 60"
  shows "set (fst (snd (retry_func_loop intn f sr c n i st))) \<subseteq> {0}"
  using assms(3)
proof (induction n arbitrary: i st)
  case (Suc n)
  have "i < 60" using Suc.prems by simp
  note zero = wait_time_zero [OF assms(1) this]
  have rest: "j = i + 1 \<Longrightarrow> set (fst (snd (retry_func_loop intn f sr c n j s))) \<subseteq> {0}" for j s
    using Suc.IH [of "i + 1" s] Suc.prems by simp
  show ?case
  proof (cases "f st")
    case (Pair e s)
    show ?thesis using rest [of "i + 1" s] rest [of "max_retries c" s] zero
      by (cases e; cases "retry_func_loop intn f sr c n (i + 1) s"; cases "wait_time intn 0 0 i")
        (auto simp: Pair assms(2))
  qed
qed simp

text \<open>
  \<^verbatim>\<open>RetryFunc\<close> passes its minimum wait also as the maximum, so with the default
  configuration, whose minimum is zero, it never backs off: every wait between its calls is
  zero seconds.
\<close>

theorem retry_func_never_backs_off:
  assumes "draws_below intn"
  shows "set (fst (snd (retry_func intn f should_retry default_retry st))) \<subseteq> {0}"
  using retry_func_loop_zero [OF assms(1), of default_retry 0 8 f should_retry st]
  by (simp add: retry_func_def default_retry_def)

theorem retry_func_never_backs_off_witness:
  "set (fst (snd (retry_func (\<lambda>n. 0) (\<lambda>n :: nat. (Some IoEOF, Suc n)) (\<lambda>e. True) default_retry 0))) \<subseteq> {0}"
  by (rule retry_func_never_backs_off) (simp add: draws_below_def)

text \<open>
  The turns in which the limiter asks for a wait: the state after \<open>n\<close> of them, if the first
  \<open>n\<close> are all such turns.
\<close>

fun turns :: "'s retryer \<Rightarrow> string \<Rightarrow> nat \<Rightarrow> 's \<Rightarrow> 's option" where
  "turns rt host 0 st = Some st"
| "turns rt host (Suc n) st =
     (case (ctx_done rt st, for_key rt host st) of
        (None, ((_, wait, None), st1)) \<Rightarrow> if wait \<le> 0 then None else turns rt host n (sleep rt wait st1)
      | _ \<Rightarrow> None)"

definition granted :: "'s retryer \<Rightarrow> string \<Rightarrow> 's \<Rightarrow> gerror option \<Rightarrow> 's \<Rightarrow> bool" where
  "granted rt host st res st' \<longleftrightarrow>
     (case ctx_done rt st of
        Some e \<Rightarrow> res = Some e \<and> st' = st
      | None \<Rightarrow> (case for_key rt host st of
          ((_, wait, err), st1) \<Rightarrow> st' = st1 \<and> res = err \<and> (err = None \<longrightarrow> wait \<le> 0)))"

text \<open>
  A queued request is answered exactly when, after some number of waits the limiter
  asked for, the context is done, the limiter fails, or it asks for no more wait; the answer
  is then that error, or none. If that never happens the turn does not end, and no other
  request is served.
\<close>

theorem msg_loop_answers:
  "msg_loop rt host st = Some (res, st') \<longleftrightarrow>
    (\<exists>n s. turns rt host n st = Some s \<and> granted rt host s res st')"
proof
  assume run: "msg_loop rt host st = Some (res, st')"
  have "\<exists>n s. turns rt host n st = Some s \<and> granted rt host s (fst (res, st')) (snd (res, st'))"
  proof (rule msg_loop.raw_induct [where P = "\<lambda>rt host st r.
      \<exists>n s. turns rt host n st = Some s \<and> granted rt host s (fst r) (snd r)", OF _ run])
    fix loop :: "'a retryer \<Rightarrow> string \<Rightarrow> 'a \<Rightarrow> (gerror option \<times> 'a) option"
      and rt :: "'a retryer" and host st r
    assume IH: "\<And>rt host st r. loop rt host st = Some r \<Longrightarrow>
        \<exists>n s. turns rt host n st = Some s \<and> granted rt host s (fst r) (snd r)"
      and step: "(case ctx_done rt st of
        Some e \<Rightarrow> Some (Some e, st)
      | None \<Rightarrow>
          (case for_key rt host st of
             ((_, wait, Some e), st1) \<Rightarrow> Some (Some e, st1)
           | ((_, wait, None), st1) \<Rightarrow>
               if wait \<le> 0 then Some (None, st1) else loop rt host (sleep rt wait st1))) = Some r"
    obtain allowed wait err st1 where fk: "for_key rt host st = ((allowed, wait, err), st1)"
      by (metis prod.collapse)
    show "\<exists>n s. turns rt host n st = Some s \<and> granted rt host s (fst r) (snd r)"
    proof (cases "ctx_done rt st = None \<and> err = None \<and> \<not> wait \<le> 0")
      case True
      with step fk have "loop rt host (sleep rt wait st1) = Some r" by simp
      from IH [OF this] obtain n s where "turns rt host n (sleep rt wait st1) = Some s"
        "granted rt host s (fst r) (snd r)" by blast
      with True fk show ?thesis by (intro exI [of _ "Suc n"] exI [of _ s]) simp
    next
      case False
      with step fk show ?thesis
        by (intro exI [of _ 0] exI [of _ st])
          (auto simp: granted_def split: option.splits if_splits)
    qed
  qed
  then show "\<exists>n s. turns rt host n st = Some s \<and> granted rt host s res st'" by simp
next
  assume "\<exists>n s. turns rt host n st = Some s \<and> granted rt host s res st'"
  then obtain n s where "turns rt host n st = Some s" "granted rt host s res st'" by blast
  then show "msg_loop rt host st = Some (res, st')"
  proof (induction n arbitrary: st)
    case 0
    then show ?case
      by (subst msg_loop.simps) (auto simp: granted_def split: option.splits prod.splits)
  next
    case (Suc n)
    then show ?case
      by (subst msg_loop.simps) (auto split: option.splits prod.splits if_splits)
  qed
qed

end
