(* ===== verification/Batcher.thy ===== *)
theory Batcher
  imports Prelude
begin

text \<open>
  \<^verbatim>\<open>util/batch/batch.go\<close>: callers hand a parameter to a batcher and wait; the batcher collects
  the parameters of concurrent callers and calls its batch function once for all of them.
  The goroutines are a step relation: one step per atomic operation on shared state, and one
  per section under the mutex of a batch. A key stands for a parameter in comparisons: the
  parameter itself, or its JSON text for parameters that are not comparable.
\<close>

section \<open>Batches\<close>

datatype batch_status = Open | Closed

record ('p, 'k, 'r) batch =
  bp_params :: "'p list"
  bp_keys :: "'k list"
  bp_results :: "'r list"
  bp_errors :: "gerror option list option"
  bp_status :: batch_status
  bp_done :: bool
  bp_callers :: i32

record ('p, 'k, 'r) batcher =
  max_batch_size :: int
  cache_results :: bool
  publish_results :: bool
  param_key :: "'p \<Rightarrow> 'k outcome"
  batch_func :: "'p list \<Rightarrow> 'r list \<Rightarrow> gerror option list option \<Rightarrow> bool"
  zero_result :: 'r

text \<open>
  \<open>batch_func ps rs es\<close> holds when the batch function may return \<open>rs\<close> and \<open>es\<close> for \<open>ps\<close>. The
  key of a comparable parameter is itself; marshalling to JSON may fail.
\<close>

definition new_batcher :: "int \<Rightarrow> bool \<Rightarrow> bool \<Rightarrow> ('p list \<Rightarrow> 'r list \<Rightarrow> gerror option list option \<Rightarrow> bool) \<Rightarrow> 'r
    \<Rightarrow> ('p, 'p, 'r) batcher" where
  "new_batcher max_size caches publishes f zero =
     \<lparr>max_batch_size = max_size, cache_results = caches, publish_results = publishes, param_key = Ok,
      batch_func = f, zero_result = zero\<rparr>"

definition new_batcher_json :: "int \<Rightarrow> bool \<Rightarrow> bool \<Rightarrow> ('p list \<Rightarrow> 'r list \<Rightarrow> gerror option list option \<Rightarrow> bool)
    \<Rightarrow> 'r \<Rightarrow> ('p \<Rightarrow> string outcome) \<Rightarrow> ('p, string, 'r) batcher" where
  "new_batcher_json max_size caches publishes f zero to_json =
     \<lparr>max_batch_size = max_size, cache_results = caches, publish_results = publishes, param_key = to_json,
      batch_func = f, zero_result = zero\<rparr>"

definition new_batch :: "('p, 'k, 'r) batch" where
  "new_batch = \<lparr>bp_params = [], bp_keys = [], bp_results = [], bp_errors = None, bp_status = Open,
     bp_done = False, bp_callers = 0\<rparr>"

definition index_of :: "'k list \<Rightarrow> 'k \<Rightarrow> nat option" where
  "index_of ks k = find_index (\<lambda>x. k = x) ks"

text \<open>What a caller does to its batch while it holds the mutex.\<close>

datatype added = Rejected | Joined nat | Filled nat

definition add_locked :: "('p, 'k, 'r) batcher \<Rightarrow> 'p \<Rightarrow> 'k \<Rightarrow> ('p, 'k, 'r) batch \<Rightarrow> ('p, 'k, 'r) batch \<times> added" where
  "add_locked d p k b =
     (if bp_status b = Closed then (b, Rejected)
      else (case index_of (bp_keys b) k of
              Some i \<Rightarrow> (b, Joined i)
            | None \<Rightarrow>
                (let i = length (bp_params b);
                     b1 = b\<lparr>bp_params := bp_params b @ [p], bp_keys := bp_keys b @ [k]\<rparr>
                 in if int (length (bp_params b1)) = max_batch_size d
                    then (b1\<lparr>bp_status := Closed\<rparr>, Filled i)
                    else (b1, Joined i))))"

text \<open>\<^verbatim>\<open>publishToSubscribers\<close>: the results that subscribers see; \<open>errors[i]\<close> may be out of range.\<close>

fun publish_from :: "nat \<Rightarrow> 'r list \<Rightarrow> gerror option list \<Rightarrow> 'r list outcome" where
  "publish_from i [] es = Ok []"
| "publish_from i (r # rs) es =
     (if i \<ge> length es then Panic IndexRange
      else if es ! i \<noteq> None then publish_from (Suc i) rs es
      else map_ok ((#) r) (publish_from (Suc i) rs es))"

definition publish_to_subscribers :: "'r list \<Rightarrow> gerror option list option \<Rightarrow> 'r list outcome" where
  "publish_to_subscribers rs es = publish_from 0 rs (case es of None \<Rightarrow> [] | Some l \<Rightarrow> l)"

definition submit_batch :: "('p, 'k, 'r) batcher \<Rightarrow> ('p, 'k, 'r) batch \<Rightarrow> 'r list \<Rightarrow> gerror option list option
    \<Rightarrow> ('p, 'k, 'r) batch outcome" where
  "submit_batch d b rs es =
     map_ok (\<lambda>_. b\<lparr>bp_results := rs, bp_errors := es, bp_done := True\<rparr>)
       (if publish_results d then publish_to_subscribers rs es else Ok [])"

text \<open>The thunk of a caller once its batch is done.\<close>

definition thunk_result :: "'r \<Rightarrow> 'r list \<Rightarrow> gerror option list option \<Rightarrow> nat \<Rightarrow> ('r \<times> gerror option) outcome" where
  "thunk_result zero rs es i =
     (let r = (if i < length rs then rs ! i else zero) in
      case es of
        None \<Rightarrow> Ok (r, None)
      | Some l \<Rightarrow>
          if length l = 1 then Ok (r, l ! 0)
          else if i < length l then Ok (r, l ! i) else Panic IndexRange)"

section \<open>The batcher as a step relation\<close>

text \<open>
  Where a caller is: about to look at the cache, to read the current batch id, to load that
  batch, to count itself in, to move the current id on and try again, to lock the batch; then
  about to submit the batch it filled, to move the id on, or waiting for its result.
\<close>

datatype ('p, 'r) caller =
    Calling 'p
  | LoadID 'p
  | LoadBatch 'p i32
  | CountIn 'p i32
  | Advance 'p i32
  | LockBatch 'p i32
  | Submitting 'p i32 nat
  | AdvanceDone 'p i32 nat
  | Waiting 'p i32 nat
  | Returned 'p 'r "gerror option"
  | Crashed

datatype timer = NoTimer | Sleeping | TimerSubmit | TimerDone | TimerCrashed

record ('p, 'k, 'r) bstate =
  cur_id :: i32
  batches :: "i32 \<Rightarrow> ('p, 'k, 'r) batch option"
  result_cache :: "'k \<Rightarrow> 'r option"
  callers :: "nat \<Rightarrow> ('p, 'r) caller"
  timers :: "i32 \<Rightarrow> timer"
  log :: "(i32 \<times> 'p list \<times> 'r list \<times> gerror option list option) list"

definition move_on :: "i32 \<Rightarrow> i32 \<Rightarrow> i32" where
  "move_on cid cur = (if cur = cid then cid + 1 else cur)"

definition goto :: "nat \<Rightarrow> ('p, 'r) caller \<Rightarrow> ('p, 'k, 'r) bstate \<Rightarrow> ('p, 'k, 'r) bstate" where
  "goto i pc s = s\<lparr>callers := (callers s)(i := pc)\<rparr>"

definition put_batch :: "i32 \<Rightarrow> ('p, 'k, 'r) batch \<Rightarrow> ('p, 'k, 'r) bstate \<Rightarrow> ('p, 'k, 'r) bstate" where
  "put_batch cid b s = s\<lparr>batches := (batches s)(cid := Some b)\<rparr>"

definition set_timer :: "i32 \<Rightarrow> timer \<Rightarrow> ('p, 'k, 'r) bstate \<Rightarrow> ('p, 'k, 'r) bstate" where
  "set_timer cid t s = s\<lparr>timers := (timers s)(cid := t)\<rparr>"

definition log_call :: "i32 \<Rightarrow> ('p, 'k, 'r) batch \<Rightarrow> ('p, 'k, 'r) bstate \<Rightarrow> ('p, 'k, 'r) bstate" where
  "log_call cid b s = s\<lparr>log := log s @ [(cid, bp_params b, bp_results b, bp_errors b)]\<rparr>"

definition load_or_store :: "i32 \<Rightarrow> ('p, 'k, 'r) bstate \<Rightarrow> ('p, 'k, 'r) bstate" where
  "load_or_store cid s = (if batches s cid = None then put_batch cid new_batch s else s)"

definition cache_store :: "('p, 'k, 'r) batcher \<Rightarrow> 'p \<Rightarrow> 'r \<Rightarrow> gerror option \<Rightarrow> ('p, 'k, 'r) bstate
    \<Rightarrow> ('p, 'k, 'r) bstate" where
  "cache_store d p r e s =
     (case param_key d p of
        Ok k \<Rightarrow> if e = None \<and> cache_results d \<and> result_cache s k = None
                then s\<lparr>result_cache := (result_cache s)(k \<mapsto> r)\<rparr> else s
      | _ \<Rightarrow> s)"

definition prime :: "('p, 'k, 'r) batcher \<Rightarrow> 'p \<Rightarrow> 'r \<Rightarrow> ('p, 'k, 'r) bstate \<Rightarrow> ('p, 'k, 'r) bstate" where
  "prime d p r s = cache_store d p r None s"

inductive batch_step :: "('p, 'k, 'r) batcher \<Rightarrow> ('p, 'k, 'r) bstate \<Rightarrow> ('p, 'k, 'r) bstate \<Rightarrow> bool"
  for d :: "('p, 'k, 'r) batcher"
where
  key_error: "callers s i = Calling p \<Longrightarrow> param_key d p = Err e \<Longrightarrow>
    batch_step d s (goto i (Returned p (zero_result d) (Some e)) s)"
| cached: "callers s i = Calling p \<Longrightarrow> param_key d p = Ok k \<Longrightarrow> cache_results d \<Longrightarrow> result_cache s k = Some r \<Longrightarrow>
    batch_step d s (goto i (Returned p r None) s)"
| uncached: "callers s i = Calling p \<Longrightarrow> param_key d p = Ok k \<Longrightarrow> \<not> cache_results d \<or> result_cache s k = None \<Longrightarrow>
    batch_step d s (goto i (LoadID p) s)"
| load_id: "callers s i = LoadID p \<Longrightarrow> batch_step d s (goto i (LoadBatch p (cur_id s)) s)"
| load_batch: "callers s i = LoadBatch p cid \<Longrightarrow> batch_step d s (goto i (CountIn p cid) (load_or_store cid s))"
| count_in: "callers s i = CountIn p cid \<Longrightarrow> batches s cid = Some b \<Longrightarrow> n = bp_callers b + 1 \<Longrightarrow>
    batch_step d s
      (goto i (if sint n > sint (word_of_int (max_batch_size d) :: i32) then Advance p cid else LockBatch p cid)
        (put_batch cid (b\<lparr>bp_callers := n\<rparr>) s))"
| advance: "callers s i = Advance p cid \<Longrightarrow>
    batch_step d s (goto i (LoadID p) (s\<lparr>cur_id := move_on cid (cur_id s)\<rparr>))"
| rejected: "callers s i = LockBatch p cid \<Longrightarrow> batches s cid = Some b \<Longrightarrow> param_key d p = Ok k \<Longrightarrow>
    add_locked d p k b = (b', Rejected) \<Longrightarrow> batch_step d s (goto i (Advance p cid) s)"
| joined: "callers s i = LockBatch p cid \<Longrightarrow> batches s cid = Some b \<Longrightarrow> param_key d p = Ok k \<Longrightarrow>
    add_locked d p k b = (b', Joined j) \<Longrightarrow>
    batch_step d s (goto i (Waiting p cid j) (put_batch cid b'
      (if bp_params b = [] then set_timer cid Sleeping s else s)))"
| filled: "callers s i = LockBatch p cid \<Longrightarrow> batches s cid = Some b \<Longrightarrow> param_key d p = Ok k \<Longrightarrow>
    add_locked d p k b = (b', Filled j) \<Longrightarrow>
    batch_step d s (goto i (Submitting p cid j) (put_batch cid b'
      (if bp_params b = [] then set_timer cid Sleeping s else s)))"
| submit: "callers s i = Submitting p cid j \<Longrightarrow> batches s cid = Some b \<Longrightarrow>
    batch_func d (bp_params b) rs es \<Longrightarrow> submit_batch d b rs es = Ok b' \<Longrightarrow>
    batch_step d s (goto i (AdvanceDone p cid j) (log_call cid b' (put_batch cid b' s)))"
| submit_panics: "callers s i = Submitting p cid j \<Longrightarrow> batches s cid = Some b \<Longrightarrow>
    batch_func d (bp_params b) rs es \<Longrightarrow> submit_batch d b rs es = Panic e \<Longrightarrow>
    batch_step d s (goto i Crashed s)"
| advance_done: "callers s i = AdvanceDone p cid j \<Longrightarrow>
    batch_step d s (goto i (Waiting p cid j) (s\<lparr>cur_id := move_on cid (cur_id s)\<rparr>))"
| thunk: "callers s i = Waiting p cid j \<Longrightarrow> batches s cid = Some b \<Longrightarrow> bp_done b \<Longrightarrow>
    thunk_result (zero_result d) (bp_results b) (bp_errors b) j = Ok (r, e) \<Longrightarrow>
    batch_step d s (goto i (Returned p r e) (cache_store d p r e s))"
| thunk_panics: "callers s i = Waiting p cid j \<Longrightarrow> batches s cid = Some b \<Longrightarrow> bp_done b \<Longrightarrow>
    thunk_result (zero_result d) (bp_results b) (bp_errors b) j = Panic e \<Longrightarrow>
    batch_step d s (goto i Crashed s)"
| call_again: "callers s i = Returned p r e \<Longrightarrow> batch_step d s (goto i (Calling q) s)"
| timer_closes: "timers s cid = Sleeping \<Longrightarrow> batches s cid = Some b \<Longrightarrow> bp_status b = Open \<Longrightarrow>
    batch_step d s (set_timer cid TimerSubmit (put_batch cid (b\<lparr>bp_status := Closed\<rparr>) s))"
| timer_late: "timers s cid = Sleeping \<Longrightarrow> batches s cid = Some b \<Longrightarrow> bp_status b = Closed \<Longrightarrow>
    batch_step d s (set_timer cid TimerDone s)"
| timer_submits: "timers s cid = TimerSubmit \<Longrightarrow> batches s cid = Some b \<Longrightarrow>
    batch_func d (bp_params b) rs es \<Longrightarrow> submit_batch d b rs es = Ok b' \<Longrightarrow>
    batch_step d s (set_timer cid TimerDone (log_call cid b' (put_batch cid b' s)))"
| timer_panics: "timers s cid = TimerSubmit \<Longrightarrow> batches s cid = Some b \<Longrightarrow>
    batch_func d (bp_params b) rs es \<Longrightarrow> submit_batch d b rs es = Panic e \<Longrightarrow>
    batch_step d s (set_timer cid TimerCrashed s)"

text \<open>At the start no batch exists, the cache holds what was primed, and the callers call.\<close>

definition batch_start :: "('k \<Rightarrow> 'r option) \<Rightarrow> (nat \<Rightarrow> 'p) \<Rightarrow> ('p, 'k, 'r) bstate" where
  "batch_start primed ps = \<lparr>cur_id = 0, batches = Map.empty, result_cache = primed,
     callers = \<lambda>i. Calling (ps i), timers = \<lambda>_. NoTimer, log = []\<rparr>"

end
