(* ===== verification/BatcherProps.thy ===== *)
theory BatcherProps
  imports Batcher
begin

text \<open>
  The invariants of the batcher's step relation, and what they give its callers: every call of
  the batch function gets a bounded list of distinct parameters, every batch is submitted
  once, every caller receives the answer to its own parameter, and none waits for ever.
\<close>

section \<open>Fields after an update\<close>

lemma goto_simps [simp]:
  "callers (goto i pc s) = (callers s)(i := pc)" "batches (goto i pc s) = batches s"
  "timers (goto i pc s) = timers s" "log (goto i pc s) = log s" "result_cache (goto i pc s) = result_cache s"
  by (simp_all add: goto_def)

lemma put_batch_simps [simp]:
  "callers (put_batch c b s) = callers s" "batches (put_batch c b s) = (batches s)(c := Some b)"
  "timers (put_batch c b s) = timers s" "log (put_batch c b s) = log s"
  "result_cache (put_batch c b s) = result_cache s"
  by (simp_all add: put_batch_def)

lemma set_timer_simps [simp]:
  "callers (set_timer c t s) = callers s" "batches (set_timer c t s) = batches s"
  "timers (set_timer c t s) = (timers s)(c := t)" "log (set_timer c t s) = log s"
  "result_cache (set_timer c t s) = result_cache s"
  by (simp_all add: set_timer_def)

lemma log_call_simps [simp]:
  "callers (log_call c b s) = callers s" "batches (log_call c b s) = batches s"
  "timers (log_call c b s) = timers s"
  "log (log_call c b s) = log s @ [(c, bp_params b, bp_results b, bp_errors b)]"
  "result_cache (log_call c b s) = result_cache s"
  by (simp_all add: log_call_def)

lemma load_or_store_simps [simp]:
  "callers (load_or_store c s) = callers s"
  "batches (load_or_store c s) = (if batches s c = None then (batches s)(c := Some new_batch) else batches s)"
  "timers (load_or_store c s) = timers s" "log (load_or_store c s) = log s"
  "result_cache (load_or_store c s) = result_cache s"
  by (simp_all add: load_or_store_def)

lemma cache_store_simps [simp]:
  "callers (cache_store d p r e s) = callers s" "batches (cache_store d p r e s) = batches s"
  "timers (cache_store d p r e s) = timers s" "log (cache_store d p r e s) = log s"
  by (simp_all add: cache_store_def split: outcome.split)

section \<open>Batches are bounded and free of duplicates\<close>

definition batch_ok :: "('p, 'k, 'r) batcher \<Rightarrow> ('p, 'k, 'r) batch \<Rightarrow> bool" where
  "batch_ok d b \<longleftrightarrow>
     map (param_key d) (bp_params b) = map Ok (bp_keys b) \<and> distinct (bp_keys b) \<and>
     int (length (bp_params b)) \<le> max_batch_size d \<and>
     (bp_status b = Open \<longrightarrow> \<not> bp_done b \<and> int (length (bp_params b)) < max_batch_size d) \<and>
     (bp_status b = Closed \<longrightarrow> bp_params b \<noteq> [])"

definition batches_ok :: "('p, 'k, 'r) batcher \<Rightarrow> ('p, 'k, 'r) bstate \<Rightarrow> bool" where
  "batches_ok d s \<longleftrightarrow> (\<forall>cid b. batches s cid = Some b \<longrightarrow> batch_ok d b)"

text \<open>What a change of a batch keeps for the callers that already are in it.\<close>

definition extends :: "('p, 'k, 'r) batch \<Rightarrow> ('p, 'k, 'r) batch \<Rightarrow> bool" where
  "extends b b' \<longleftrightarrow> (\<exists>ps ks. bp_params b' = bp_params b @ ps \<and> bp_keys b' = bp_keys b @ ks) \<and>
     (bp_status b = Closed \<longrightarrow> bp_status b' = Closed \<and> bp_params b' = bp_params b)"

lemma index_of_Some: "index_of ks k = Some j \<Longrightarrow> j < length ks \<and> ks ! j = k"
  by (auto simp: index_of_def dest: find_index_Some)

lemma index_of_None: "index_of ks k = None \<Longrightarrow> k \<notin> set ks"
  by (auto simp: index_of_def find_index_None)

lemma keys_length: "batch_ok d b \<Longrightarrow> length (bp_keys b) = length (bp_params b)"
  unfolding batch_ok_def by (metis length_map)

lemma add_locked_cases:
  assumes "add_locked d p k b = (b', res)"
  obtains "res = Rejected" "b' = b" "bp_status b = Closed"
  | j where "res = Joined j" "b' = b" "bp_status b = Open" "index_of (bp_keys b) k = Some j"
  | "index_of (bp_keys b) k = None" "bp_status b = Open"
    "res = Joined (length (bp_params b))" "int (Suc (length (bp_params b))) \<noteq> max_batch_size d"
    "b' = b\<lparr>bp_params := bp_params b @ [p], bp_keys := bp_keys b @ [k]\<rparr>"
  | "index_of (bp_keys b) k = None" "bp_status b = Open"
    "res = Filled (length (bp_params b))" "int (Suc (length (bp_params b))) = max_batch_size d"
    "b' = b\<lparr>bp_params := bp_params b @ [p], bp_keys := bp_keys b @ [k], bp_status := Closed\<rparr>"
  using assms
  by (cases "bp_status b"; cases "index_of (bp_keys b) k")
    (auto simp: add_locked_def Let_def split: if_splits)

lemma add_locked_ok:
  assumes "add_locked d p k b = (b', res)" and "batch_ok d b" and "param_key d p = Ok k"
  shows "batch_ok d b'" and "extends b b'" and "bp_done b' = bp_done b"
    and "res = Joined j \<or> res = Filled j \<Longrightarrow> j < length (bp_keys b') \<and> bp_keys b' ! j = k \<and> bp_params b' \<noteq> []"
    and "res = Filled j \<Longrightarrow> bp_status b' = Closed \<and> bp_status b = Open"
    and "res = Joined j \<Longrightarrow> bp_status b' = Open \<and> bp_status b = Open"
proof -
  note ok = assms(2) [unfolded batch_ok_def] keys_length [OF assms(2)]
  show "batch_ok d b'"
    using assms(1) by (cases rule: add_locked_cases)
      (use ok assms(3) index_of_None [of "bp_keys b" k] in \<open>auto simp: batch_ok_def\<close>)
  show "extends b b'" "bp_done b' = bp_done b"
    using assms(1) by (cases rule: add_locked_cases; simp add: extends_def)+
  show "j < length (bp_keys b') \<and> bp_keys b' ! j = k \<and> bp_params b' \<noteq> []" if "res = Joined j \<or> res = Filled j"
    using assms(1) by (cases rule: add_locked_cases)
      (use that ok index_of_Some [of "bp_keys b" k j] in \<open>auto simp: nth_append\<close>)
  show "bp_status b' = Closed \<and> bp_status b = Open" if "res = Filled j"
    using assms(1) by (cases rule: add_locked_cases) (use that in auto)
  show "bp_status b' = Open \<and> bp_status b = Open" if "res = Joined j"
    using assms(1) by (cases rule: add_locked_cases) (use that in auto)
qed

lemma submit_batch_ok:
  assumes "submit_batch d b rs es = Ok b'"
  shows "b' = b\<lparr>bp_results := rs, bp_errors := es, bp_done := True\<rparr>"
  using assms by (auto simp: submit_batch_def map_ok_Ok_iff)

lemma batch_ok_updates [simp]:
  "batch_ok d (b\<lparr>bp_callers := n\<rparr>) = batch_ok d b"
  "bp_status b = Closed \<Longrightarrow> batch_ok d (b\<lparr>bp_results := rs, bp_errors := es, bp_done := True\<rparr>) = batch_ok d b"
  by (simp_all add: batch_ok_def)

text \<open>Every step keeps each batch well formed, and a batch only grows.\<close>

lemma step_batches:
  assumes "batch_step d s s'" and "batches_ok d s" and "0 < max_batch_size d"
    and "\<And>cid b. timers s cid = Sleeping \<Longrightarrow> batches s cid = Some b \<Longrightarrow> bp_params b \<noteq> []"
    and "\<And>i p cid j b. callers s i = Submitting p cid j \<Longrightarrow> batches s cid = Some b \<Longrightarrow> bp_status b = Closed"
    and "\<And>cid b. timers s cid = TimerSubmit \<Longrightarrow> batches s cid = Some b \<Longrightarrow> bp_status b = Closed"
  shows "batches_ok d s'"
    and "batches s cid = Some b \<Longrightarrow> \<exists>b'. batches s' cid = Some b' \<and> extends b b'"
proof -
  have new: "batch_ok d new_batch" using assms(3) by (simp add: batch_ok_def new_batch_def)
  have ok: "batches s c = Some x \<Longrightarrow> batch_ok d x" for c x using assms(2) by (simp add: batches_ok_def)
  have refl: "extends x x" "extends x (x\<lparr>bp_callers := n\<rparr>)"
    "extends x (x\<lparr>bp_results := rs, bp_errors := es, bp_done := True\<rparr>)" "extends x (x\<lparr>bp_status := Closed\<rparr>)"
    for x :: "('a, 'b, 'c) batch" and n rs es
    by (simp_all add: extends_def)
  have submit_ok: "submit_batch d x rs es = Ok y \<Longrightarrow> bp_status x = Closed \<Longrightarrow> batch_ok d x \<Longrightarrow> batch_ok d y"
    for x y rs es by (drule submit_batch_ok) simp
  have closed: "batch_ok d (x\<lparr>bp_status := Closed\<rparr>)" if "batch_ok d x" "bp_params x \<noteq> []" for x
    using that by (simp add: batch_ok_def)
  show "batches_ok d s'"
    using assms(1) unfolding batches_ok_def
    by cases (auto split: if_splits dest: ok assms(4) intro: new closed add_locked_ok(1)
        submit_ok [OF _ assms(5) ok] submit_ok [OF _ assms(6) ok])
  show "\<exists>b'. batches s' cid = Some b' \<and> extends b b'" if "batches s cid = Some b"
    using assms(1) that
    by cases (auto simp: refl dest: submit_batch_ok intro: add_locked_ok(2) [OF _ ok])
qed

section \<open>Every batch is submitted once\<close>

definition pending :: "('p, 'k, 'r) bstate \<Rightarrow> i32 \<Rightarrow> bool" where
  "pending s cid \<longleftrightarrow> (case batches s cid of
     Some b \<Rightarrow> bp_status b = Closed \<and> \<not> bp_done b | None \<Rightarrow> False)"

definition occupied :: "('p, 'k, 'r) bstate \<Rightarrow> i32 \<Rightarrow> bool" where
  "occupied s cid \<longleftrightarrow> (case batches s cid of Some b \<Rightarrow> bp_params b \<noteq> [] | None \<Rightarrow> False)"

definition submit_inv :: "('p, 'k, 'r) bstate \<Rightarrow> bool" where
  "submit_inv s \<longleftrightarrow>
     (\<forall>i p cid j. callers s i = Submitting p cid j \<longrightarrow> pending s cid \<and> timers s cid \<noteq> TimerSubmit) \<and>
     (\<forall>i i' p p' cid j j'. callers s i = Submitting p cid j \<longrightarrow> callers s i' = Submitting p' cid j' \<longrightarrow> i = i') \<and>
     (\<forall>cid. timers s cid = TimerSubmit \<longrightarrow> pending s cid) \<and>
     (\<forall>cid. timers s cid = NoTimer \<longleftrightarrow> \<not> occupied s cid)"

lemma submit_invD:
  assumes "submit_inv s"
  shows "callers s i = Submitting p cid j \<Longrightarrow> pending s cid"
    and "callers s i = Submitting p cid j \<Longrightarrow> timers s cid \<noteq> TimerSubmit"
    and "callers s i = Submitting p cid j \<Longrightarrow> callers s i' = Submitting p' cid j' \<Longrightarrow> i = i'"
    and "timers s cid = TimerSubmit \<Longrightarrow> pending s cid"
    and "timers s cid = NoTimer \<longleftrightarrow> \<not> occupied s cid"
  using assms unfolding submit_inv_def by blast+

lemma step_actor: "batch_step d s s' \<Longrightarrow> \<exists>a. \<forall>x. x \<noteq> a \<longrightarrow> callers s' x = callers s x"
  by (erule batch_step.cases; fastforce)

text \<open>The two outcomes of the locked section that put a caller into its batch.\<close>

lemma joinedD:
  assumes "add_locked d p k b = (b', Joined j)" and "batch_ok d b" and "param_key d p = Ok k"
  shows "bp_params b' \<noteq> [] \<and> bp_status b' = Open \<and> bp_status b = Open \<and> \<not> bp_done b' \<and> \<not> bp_done b"
  using add_locked_ok [OF assms] assms(2) by (auto simp: batch_ok_def)

lemma filledD:
  assumes "add_locked d p k b = (b', Filled j)" and "batch_ok d b" and "param_key d p = Ok k"
  shows "bp_params b' \<noteq> [] \<and> bp_status b' = Closed \<and> bp_status b = Open \<and> \<not> bp_done b' \<and> \<not> bp_done b"
  using add_locked_ok [OF assms] assms(2) by (auto simp: batch_ok_def)

lemma pending_not_open: "pending s c \<Longrightarrow> batches s c = Some b \<Longrightarrow> bp_status b = Closed \<and> \<not> bp_done b"
  by (simp add: pending_def)

lemma step_submit:
  assumes "batch_step d s s'" and "submit_inv s" and "batches_ok d s"
  shows "submit_inv s'"
proof -
  note inv = submit_invD [OF assms(2)]
  have ok: "batches s c = Some x \<Longrightarrow> batch_ok d x" for c x using assms(3) by (simp add: batches_ok_def)
  have open_not_done: "batches s c = Some x \<Longrightarrow> bp_status x = Open \<Longrightarrow> \<not> bp_done x" for c x
    using ok by (auto simp: batch_ok_def)
  note J = joinedD [OF _ ok] and F = filledD [OF _ ok]
  have "occupied s' c \<longleftrightarrow> timers s' c \<noteq> NoTimer" for c
    using assms(1) inv(5) [of c]
    by cases (auto simp: occupied_def new_batch_def dest: submit_batch_ok J F)
  moreover have sub: "pending s' c" if "callers s' i = Submitting p c j" for i p c j
  proof -
    note sub = that
    have "callers s i = Submitting p c j \<or> pending s' c"
      using assms(1) sub by cases (auto simp: pending_def dest: F split: if_splits)
    then show ?thesis
    proof
      assume 1: "callers s i = Submitting p c j"
      have "pending s' c \<or> (\<exists>a q l. callers s a = Submitting q c l \<and> callers s' a \<noteq> callers s a)
          \<or> timers s c = TimerSubmit"
        using assms(1) inv(1) [OF 1]
        by cases (auto simp: pending_def dest: J F split: if_splits option.splits)
      with 1 sub inv(2) [OF 1] inv(3) [OF 1] show ?thesis by fastforce
    qed simp
  qed
  moreover have "timers s' c \<noteq> TimerSubmit" if "callers s' i = Submitting p c j" for i p c j
    using assms(1) that inv(1,2) [of i p c j] inv(4) [of c]
    by cases (auto simp: pending_def dest: J F split: if_splits option.splits)
  moreover have "i = i'" if new: "callers s' i = Submitting p c j" "callers s' i' = Submitting p' c j'" for i i' p p' c j j'
  proof (rule ccontr)
    assume "i \<noteq> i'"
    obtain a where same: "\<forall>x. x \<noteq> a \<longrightarrow> callers s' x = callers s x"
      using step_actor [OF assms(1)] by blast
    have old: "callers s x = Submitting q c l \<or> \<not> pending s c" if "callers s' x = Submitting q c l" for x q l
      using assms(1) that by cases (auto simp: pending_def dest: F split: if_splits option.splits)
    have "pending s c"
      using \<open>i \<noteq> i'\<close> same new inv(1) by (metis (no_types, lifting))
    with old new inv(3) \<open>i \<noteq> i'\<close> show False by blast
  qed
  moreover have "pending s' c" if "timers s' c = TimerSubmit" for c
    using assms(1) that inv(4) [of c] inv(2) [of _ _ c]
    by cases (auto simp: pending_def new_batch_def dest: submit_batch_ok J F open_not_done split: if_splits option.splits)
  ultimately show ?thesis unfolding submit_inv_def by blast
qed

section \<open>The log and the places of the callers\<close>

text \<open>The answer of a batch that is done; the log lists these answers, one per batch.\<close>

definition answer_of :: "('p, 'k, 'r) bstate \<Rightarrow> i32 \<Rightarrow> ('p list \<times> 'r list \<times> gerror option list option) option" where
  "answer_of s cid = (case batches s cid of
     Some b \<Rightarrow> if bp_done b then Some (bp_params b, bp_results b, bp_errors b) else None | None \<Rightarrow> None)"

definition log_inv :: "('p, 'k, 'r) batcher \<Rightarrow> ('p, 'k, 'r) bstate \<Rightarrow> bool" where
  "log_inv d s \<longleftrightarrow> distinct (map fst (log s)) \<and> map_of (log s) = answer_of s \<and>
     (\<forall>(cid, ps, rs, es) \<in> set (log s). batch_func d ps rs es)"

text \<open>A caller in a batch: its key stands at its index.\<close>

definition at_index :: "('p, 'k, 'r) batcher \<Rightarrow> ('p, 'k, 'r) bstate \<Rightarrow> 'p \<Rightarrow> i32 \<Rightarrow> nat \<Rightarrow> bool" where
  "at_index d s p cid j \<longleftrightarrow> (case batches s cid of
     Some b \<Rightarrow> j < length (bp_keys b) \<and> param_key d p = Ok (bp_keys b ! j) | None \<Rightarrow> False)"

fun caller_ok :: "('p, 'k, 'r) batcher \<Rightarrow> ('p, 'k, 'r) bstate \<Rightarrow> ('p, 'r) caller \<Rightarrow> bool" where
  "caller_ok d s (Submitting p cid j) = at_index d s p cid j"
| "caller_ok d s (AdvanceDone p cid j) = at_index d s p cid j"
| "caller_ok d s (Waiting p cid j) = at_index d s p cid j"
| "caller_ok d s (CountIn p cid) = (batches s cid \<noteq> None)"
| "caller_ok d s (LockBatch p cid) = (batches s cid \<noteq> None)"
| "caller_ok d s pc = True"

lemma at_index_extends:
  assumes "at_index d s p cid j" and "\<And>b. batches s cid = Some b \<Longrightarrow> \<exists>b'. batches s' cid = Some b' \<and> extends b b'"
  shows "at_index d s' p cid j"
  using assms by (cases "batches s cid") (fastforce simp: at_index_def extends_def nth_append)+

lemma caller_ok_extends:
  assumes "caller_ok d s pc" and "\<And>cid b. batches s cid = Some b \<Longrightarrow> \<exists>b'. batches s' cid = Some b' \<and> extends b b'"
  shows "caller_ok d s' pc"
  using assms by (cases pc) (auto intro: at_index_extends)

lemma step_callers:
  assumes "batch_step d s s'" and "batches_ok d s" and "\<forall>i. caller_ok d s (callers s i)"
    and grow: "\<And>cid b. batches s cid = Some b \<Longrightarrow> \<exists>b'. batches s' cid = Some b' \<and> extends b b'"
  shows "caller_ok d s' (callers s' i)"
proof -
  have ok: "batches s c = Some x \<Longrightarrow> batch_ok d x" for c x using assms(2) by (simp add: batches_ok_def)
  have old: "caller_ok d s' (callers s i)" for i
    using assms(3) caller_ok_extends [of d s "callers s i" s', OF _ grow] by blast
  have moved: "callers s i = Submitting p c j \<Longrightarrow> at_index d s' p c j"
    "callers s i = AdvanceDone p c j \<Longrightarrow> at_index d s' p c j" for i p c j
    using old [of i] by simp_all
  have entered: "at_index d s' p c j" if "batches s' c = Some b'" "add_locked d p k b = (b', r)"
      "batch_ok d b" "param_key d p = Ok k" "r = Joined j \<or> r = Filled j" for p c j b b' k r
    using add_locked_ok(4) [OF that(2-4,5)] that(1,4) by (auto simp: at_index_def)
  from assms(1) show ?thesis
    by cases (use old moved entered ok in \<open>auto split: if_splits\<close>)
qed

lemma step_log:
  assumes "batch_step d s s'" and "log_inv d s" and "submit_inv s" and "batches_ok d s"
  shows "log_inv d s'"
proof -
  note inv = submit_invD [OF assms(3)]
  have ok: "batches s c = Some x \<Longrightarrow> batch_ok d x" for c x using assms(4) by (simp add: batches_ok_def)
  have open_not_done: "batches s c = Some x \<Longrightarrow> bp_status x = Open \<Longrightarrow> \<not> bp_done x" for c x
    using ok by (auto simp: batch_ok_def)
  note J = joinedD [OF _ ok] and F = filledD [OF _ ok]
  have "log s' = log s \<and> answer_of s' = answer_of s \<or>
    (\<exists>c ps rs es. log s' = log s @ [(c, ps, rs, es)] \<and> answer_of s c = None \<and>
       answer_of s' = (answer_of s)(c \<mapsto> (ps, rs, es)) \<and> batch_func d ps rs es)"
    using assms(1)
    by cases (auto simp: answer_of_def fun_eq_iff new_batch_def pending_def
        dest: submit_batch_ok J F open_not_done inv(1,4) split: option.splits if_splits)
  then show ?thesis
  proof
    assume "log s' = log s \<and> answer_of s' = answer_of s"
    with assms(2) show ?thesis by (simp add: log_inv_def)
  next
    assume "\<exists>c ps rs es. log s' = log s @ [(c, ps, rs, es)] \<and> answer_of s c = None \<and>
       answer_of s' = (answer_of s)(c \<mapsto> (ps, rs, es)) \<and> batch_func d ps rs es"
    then obtain c ps rs es where new: "log s' = log s @ [(c, ps, rs, es)]" "answer_of s c = None"
      "answer_of s' = (answer_of s)(c \<mapsto> (ps, rs, es))" "batch_func d ps rs es" by blast
    have "c \<notin> fst ` set (log s)"
      using assms(2) new(2) by (metis log_inv_def map_of_eq_None_iff)
    moreover have "map_of (log s @ [(c, ps, rs, es)]) = answer_of s'"
      using assms(2) new(2,3) by (auto simp: log_inv_def map_add_def fun_eq_iff split: option.split)
    ultimately show ?thesis using assms(2) new(1,4) by (auto simp: log_inv_def)
  qed
qed

section \<open>What callers receive\<close>

definition answered :: "('p, 'k, 'r) batcher \<Rightarrow> ('p, 'k, 'r) bstate \<Rightarrow> 'k \<Rightarrow> 'r \<Rightarrow> gerror option \<Rightarrow> bool" where
  "answered d s k r e \<longleftrightarrow> (\<exists>(cid, ps, rs, es) \<in> set (log s). \<exists>j < length ps.
     param_key d (ps ! j) = Ok k \<and> thunk_result (zero_result d) rs es j = Ok (r, e))"

definition received :: "('p, 'k, 'r) batcher \<Rightarrow> ('k \<Rightarrow> 'r option) \<Rightarrow> ('p, 'k, 'r) bstate \<Rightarrow> 'p \<Rightarrow> 'r
    \<Rightarrow> gerror option \<Rightarrow> bool" where
  "received d primed s p r e \<longleftrightarrow> (case param_key d p of
     Ok k \<Rightarrow> answered d s k r e \<or> e = None \<and> primed k = Some r
   | Err e' \<Rightarrow> r = zero_result d \<and> e = Some e'
   | Panic _ \<Rightarrow> False)"

definition result_inv :: "('p, 'k, 'r) batcher \<Rightarrow> ('k \<Rightarrow> 'r option) \<Rightarrow> ('p, 'k, 'r) bstate \<Rightarrow> bool" where
  "result_inv d primed s \<longleftrightarrow>
     (\<forall>k r. result_cache s k = Some r \<longrightarrow> answered d s k r None \<or> primed k = Some r) \<and>
     (\<forall>i p r e. callers s i = Returned p r e \<longrightarrow> received d primed s p r e)"

lemma step_log_grows: "batch_step d s s' \<Longrightarrow> set (log s) \<subseteq> set (log s')"
  by (erule batch_step.cases) auto

lemma answered_mono: "set (log s) \<subseteq> set (log s') \<Longrightarrow> answered d s k r e \<Longrightarrow> answered d s' k r e"
  unfolding answered_def by blast

lemma received_mono: "set (log s) \<subseteq> set (log s') \<Longrightarrow> received d primed s p r e \<Longrightarrow> received d primed s' p r e"
  by (auto simp: received_def intro: answered_mono split: outcome.splits)

lemma thunk_answered:
  assumes "log_inv d s" and "batch_ok d b" and "batches s cid = Some b" "bp_done b"
    and "at_index d s p cid j" and "thunk_result (zero_result d) (bp_results b) (bp_errors b) j = Ok (r, e)"
  obtains k where "param_key d p = Ok k" "answered d s k r e"
proof
  have "map_of (log s) cid = Some (bp_params b, bp_results b, bp_errors b)"
    using assms(1,3,4) by (simp add: log_inv_def answer_of_def)
  then have "(cid, bp_params b, bp_results b, bp_errors b) \<in> set (log s)" by (rule map_of_SomeD)
  moreover have j: "j < length (bp_params b)" using assms(2,3,5) keys_length by (fastforce simp: at_index_def)
  moreover have "param_key d (bp_params b ! j) = Ok (bp_keys b ! j)"
    using assms(2) j keys_length [OF assms(2)] unfolding batch_ok_def by (metis nth_map)
  ultimately show "answered d s (bp_keys b ! j) r e" using assms(6) unfolding answered_def by blast
  show "param_key d p = Ok (bp_keys b ! j)" using assms(3,5) by (simp add: at_index_def)
qed

lemma step_returned:
  assumes "batch_step d s s'" and "callers s' i = Returned p r e"
  shows "callers s i = Returned p r e \<or>
    (\<exists>e'. param_key d p = Err e' \<and> r = zero_result d \<and> e = Some e') \<or>
    (\<exists>k. param_key d p = Ok k \<and> result_cache s k = Some r \<and> e = None) \<or>
    (\<exists>cid j b. callers s i = Waiting p cid j \<and> batches s cid = Some b \<and> bp_done b \<and>
       thunk_result (zero_result d) (bp_results b) (bp_errors b) j = Ok (r, e))"
  using assms by cases (auto split: if_splits)

lemma step_cache:
  assumes "batch_step d s s'" and "result_cache s' k = Some r"
  shows "result_cache s k = Some r \<or>
    (\<exists>i p cid j b. param_key d p = Ok k \<and> callers s i = Waiting p cid j \<and> batches s cid = Some b \<and> bp_done b \<and>
       thunk_result (zero_result d) (bp_results b) (bp_errors b) j = Ok (r, None))"
  using assms by cases (fastforce simp: cache_store_def split: if_splits outcome.splits)+

lemma step_results:
  assumes "batch_step d s s'" and "result_inv d primed s" and "log_inv d s" and "batches_ok d s"
    and "\<forall>i. caller_ok d s (callers s i)"
  shows "result_inv d primed s'"
proof -
  note grows = step_log_grows [OF assms(1)]
  have ok: "batches s c = Some x \<Longrightarrow> batch_ok d x" for c x using assms(4) by (simp add: batches_ok_def)
  have old: "callers s i = Returned p r e \<Longrightarrow> received d primed s' p r e"
    "result_cache s k = Some r \<Longrightarrow> answered d s' k r None \<or> primed k = Some r" for i p r e k
    using assms(2) received_mono [OF grows] answered_mono [OF grows] unfolding result_inv_def by blast+
  have thunk: "\<exists>k. param_key d p = Ok k \<and> answered d s' k r e"
    if "callers s i = Waiting p cid j" "batches s cid = Some b" "bp_done b"
      "thunk_result (zero_result d) (bp_results b) (bp_errors b) j = Ok (r, e)" for i p cid j b r e
    using thunk_answered [OF assms(3) ok [OF that(2)] that(2,3) _ that(4)] assms(5) that(1)
      answered_mono [OF grows] by (metis caller_ok.simps(3))
  have "received d primed s' p r e" if "callers s' i = Returned p r e" for i p r e
    using step_returned [OF assms(1) that]
  proof (elim disjE exE conjE)
    fix k assume "param_key d p = Ok k" "result_cache s k = Some r" "e = None"
    with old(2) show ?thesis by (auto simp: received_def)
  next
    fix cid j b assume "callers s i = Waiting p cid j" "batches s cid = Some b" "bp_done b"
      "thunk_result (zero_result d) (bp_results b) (bp_errors b) j = Ok (r, e)"
    from thunk [OF this] show ?thesis by (auto simp: received_def)
  qed (use old(1) in \<open>simp_all add: received_def\<close>)
  moreover have "answered d s' k r None \<or> primed k = Some r" if "result_cache s' k = Some r" for k r
    using step_cache [OF assms(1) that]
  proof (elim disjE exE conjE)
    fix i p cid j b assume *: "param_key d p = Ok k" "callers s i = Waiting p cid j" "batches s cid = Some b" "bp_done b"
      "thunk_result (zero_result d) (bp_results b) (bp_errors b) j = Ok (r, None)"
    from thunk [OF *(2-)] *(1) show ?thesis by simp
  qed (rule old)
  ultimately show ?thesis unfolding result_inv_def by blast
qed

section \<open>Reachable states\<close>

definition batcher_inv :: "('p, 'k, 'r) batcher \<Rightarrow> ('k \<Rightarrow> 'r option) \<Rightarrow> ('p, 'k, 'r) bstate \<Rightarrow> bool" where
  "batcher_inv d primed s \<longleftrightarrow> batches_ok d s \<and> submit_inv s \<and> log_inv d s \<and>
     (\<forall>i. caller_ok d s (callers s i)) \<and> result_inv d primed s"

lemma start_inv: "batcher_inv d primed (batch_start primed ps)"
  by (auto simp: batcher_inv_def batch_start_def batches_ok_def submit_inv_def occupied_def log_inv_def
      answer_of_def result_inv_def)

lemma step_inv:
  assumes "batch_step d s s'" and "batcher_inv d primed s" and "0 < max_batch_size d"
  shows "batcher_inv d primed s'" and "batches s cid = Some b \<Longrightarrow> \<exists>b'. batches s' cid = Some b' \<and> extends b b'"
proof -
  note inv = assms(2) [unfolded batcher_inv_def]
  have sub: "submit_inv s" using inv by blast
  note d = submit_invD [OF sub]
  have sleeping: "bp_params b \<noteq> []" if "timers s cid = Sleeping" "batches s cid = Some b" for cid b
    using d(5) [of cid] that by (simp add: occupied_def)
  have closed: "callers s i = Submitting p cid j \<Longrightarrow> batches s cid = Some b \<Longrightarrow> bp_status b = Closed"
    "timers s cid = TimerSubmit \<Longrightarrow> batches s cid = Some b \<Longrightarrow> bp_status b = Closed" for i p cid j b
    using d(1) [of i p cid j] d(4) [of cid] pending_not_open [of s cid b] by blast+
  have bok: "batches_ok d s" using inv by blast
  show grow: "\<exists>b'. batches s' cid = Some b' \<and> extends b b'" if "batches s cid = Some b" for cid b
    by (rule step_batches(2) [OF assms(1) bok assms(3) _ _ _ that]) (use sleeping closed in blast)+
  have "batches_ok d s'"
    by (rule step_batches(1) [OF assms(1) bok assms(3)]) (use sleeping closed in blast)+
  then show "batcher_inv d primed s'"
    unfolding batcher_inv_def
    using step_submit [OF assms(1)] step_log [OF assms(1)] step_callers [OF assms(1) _ _ grow]
      step_results [OF assms(1)] inv by blast
qed

lemma reachable_inv:
  assumes "(batch_step d)\<^sup>*\<^sup>* (batch_start primed ps) s" and "0 < max_batch_size d"
  shows "batcher_inv d primed s"
  using assms(1)
proof (induction rule: rtranclp_induct)
  case base
  show ?case by (rule start_inv)
next
  case (step s s')
  then show ?case using step_inv(1) [OF _ _ assms(2)] by blast
qed

lemma callers_received:
  assumes "(batch_step d)\<^sup>*\<^sup>* (batch_start primed ps) s" and "0 < max_batch_size d"
    and "callers s i = Returned p r e"
  shows "received d primed s p r e"
  using reachable_inv [OF assms(1,2)] assms(3) by (auto simp: batcher_inv_def result_inv_def)

section \<open>Properties\<close>

text \<open>
  Whatever the callers and timers do, in any order, the batch function is called at
  most once for each batch, and each time with at least one and at most \<open>max_batch_size\<close>
  parameters, of which no two are equal.
\<close>

theorem batch_calls_bounded:
  assumes "(batch_step d)\<^sup>*\<^sup>* (batch_start primed ps) s" and "0 < max_batch_size d"
  shows "distinct (map fst (log s)) \<and>
    (\<forall>(cid, qs, rs, es) \<in> set (log s). batch_func d qs rs es \<and> qs \<noteq> [] \<and>
       int (length qs) \<le> max_batch_size d \<and> distinct (map (param_key d) qs))"
proof -
  note inv = reachable_inv [OF assms, unfolded batcher_inv_def]
  have "qs \<noteq> [] \<and> int (length qs) \<le> max_batch_size d \<and> distinct (map (param_key d) qs)"
    if "(cid, qs, rs, es) \<in> set (log s)" for cid qs rs es
  proof -
    have "map_of (log s) cid = Some (qs, rs, es)"
      using inv that by (metis log_inv_def map_of_is_SomeI)
    then obtain b where b: "batches s cid = Some b" "bp_done b" "qs = bp_params b"
      using inv by (auto simp: log_inv_def answer_of_def split: option.splits if_splits)
    then have "batch_ok d b" using inv by (simp add: batches_ok_def)
    then have "distinct (map (param_key d) (bp_params b))"
      by (simp add: batch_ok_def distinct_map inj_on_def)
    with \<open>batch_ok d b\<close> show ?thesis using b(2,3) by (cases "bp_status b") (simp_all add: batch_ok_def)
  qed
  then show ?thesis using inv by (auto simp: log_inv_def)
qed

text \<open>
  Property C5. A caller never gets another caller's result: what it receives is what a call of the
  batch function answered at the index of a parameter equal to its own, or a primed result
  for such a parameter, or the error of making its key.
\<close>

theorem callers_get_their_answer:
  assumes "(batch_step d)\<^sup>*\<^sup>* (batch_start primed ps) s" and "0 < max_batch_size d"
    and "callers s i = Returned p r e"
  shows "received d primed s p r e"
  using assms by (rule callers_received)

text \<open>
  Property C4. Batching and caching refine single calls: when the batch function answers each
  parameter with \<open>f\<close>, equal parameters have equal answers and the primed results are right,
  every call of \<^verbatim>\<open>Do\<close> returns \<open>f\<close> of its own parameter, without error.
\<close>

theorem batching_refines_calls:
  assumes "(batch_step d)\<^sup>*\<^sup>* (batch_start primed ps) s" and "0 < max_batch_size d"
    and answers: "\<And>qs rs es. batch_func d qs rs es \<Longrightarrow> rs = map f qs \<and> es = Some (replicate (length qs) None)"
    and keyed: "\<And>p. is_ok (param_key d p)"
    and equal: "\<And>p q. param_key d p = param_key d q \<Longrightarrow> f p = f q"
    and primes: "\<And>p k r. param_key d p = Ok k \<Longrightarrow> primed k = Some r \<Longrightarrow> r = f p"
    and "callers s i = Returned p r e"
  shows "r = f p \<and> e = None"
proof -
  obtain k where k: "param_key d p = Ok k" using keyed [of p] by (auto simp: is_ok_iff)
  from callers_received [OF assms(1,2,7)] k consider "answered d s k r e" | "e = None" "primed k = Some r"
    by (auto simp: received_def)
  then show ?thesis
  proof cases
    case 1
    then obtain cid qs rs es j where c: "(cid, qs, rs, es) \<in> set (log s)" "j < length qs"
      "param_key d (qs ! j) = Ok k" "thunk_result (zero_result d) rs es j = Ok (r, e)"
      unfolding answered_def by blast
    have "batch_func d qs rs es"
      using reachable_inv [OF assms(1,2)] c(1) by (auto simp: batcher_inv_def log_inv_def)
    from answers [OF this] c(2,4) have "r = f (qs ! j) \<and> e = None"
      by (auto simp: thunk_result_def Let_def split: if_splits)
    with equal [of "qs ! j" p] c(3) k show ?thesis by simp
  qed (use primes k in auto)
qed

section \<open>A run\<close>

definition doubling :: "nat list \<Rightarrow> nat list \<Rightarrow> gerror option list option \<Rightarrow> bool" where
  "doubling qs rs es \<longleftrightarrow> rs = map (\<lambda>x. 2 * x) qs \<and> es = Some (replicate (length qs) None)"

definition sample_batcher :: "(nat, nat, nat) batcher" where
  "sample_batcher = new_batcher 1 True False doubling 0"

lemma waiting_run:
  "\<exists>s b. (batch_step sample_batcher)\<^sup>*\<^sup>* (batch_start Map.empty (\<lambda>i. i + 7)) s \<and> callers s 0 = Waiting 7 0 0 \<and>
     batches s 0 = Some b \<and> bp_done b \<and> bp_results b = [14] \<and> bp_errors b = Some [None]"
proof -
  note d = sample_batcher_def new_batcher_def
  let ?b0 = "new_batch :: (nat, nat, nat) batch"
  let ?b1 = "?b0\<lparr>bp_callers := 1\<rparr>"
  let ?b2 = "?b1\<lparr>bp_params := [7], bp_keys := [7], bp_status := Closed\<rparr>"
  let ?b3 = "?b2\<lparr>bp_results := [14], bp_errors := Some [None], bp_done := True\<rparr>"
  let ?s0 = "batch_start Map.empty (\<lambda>i. i + 7) :: (nat, nat, nat) bstate"
  let ?s1 = "goto 0 (LoadID 7) ?s0"
  let ?s2 = "goto 0 (LoadBatch 7 0) ?s1"
  let ?s3 = "goto 0 (CountIn 7 0) (load_or_store 0 ?s2)"
  let ?s4 = "goto 0 (LockBatch 7 0) (put_batch 0 ?b1 ?s3)"
  let ?s5 = "goto 0 (Submitting 7 0 0) (put_batch 0 ?b2 (set_timer 0 Sleeping ?s4))"
  let ?s6 = "goto 0 (AdvanceDone 7 0 0) (log_call 0 ?b3 (put_batch 0 ?b3 ?s5))"
  let ?s7 = "goto 0 (Waiting 7 0 0) (?s6\<lparr>cur_id := move_on 0 (cur_id ?s6)\<rparr>)"
  have "batch_step sample_batcher ?s0 ?s1"
    by (rule uncached [where k = 7]) (simp_all add: batch_start_def d)
  moreover have "batch_step sample_batcher ?s1 ?s2"
    using load_id [of ?s1 0 7 sample_batcher] by (simp add: batch_start_def goto_def)
  moreover have "batch_step sample_batcher ?s2 ?s3" by (rule load_batch) simp
  moreover have "batch_step sample_batcher ?s3 ?s4"
    using count_in [of ?s3 0 7 0 ?b0 1 sample_batcher] by (simp add: d new_batch_def batch_start_def)
  moreover have "batch_step sample_batcher ?s4 ?s5"
    using filled [of ?s4 0 7 0 ?b1 sample_batcher 7 ?b2 0]
    by (simp add: d new_batch_def add_locked_def index_of_def find_index_def)
  moreover have "batch_step sample_batcher ?s5 ?s6"
    by (rule submit [where b = ?b2 and rs = "[14]" and es = "Some [None]"])
      (simp_all add: d new_batch_def doubling_def submit_batch_def)
  moreover have "batch_step sample_batcher ?s6 ?s7" by (rule advance_done) simp
  ultimately have "(batch_step sample_batcher)\<^sup>*\<^sup>* ?s0 ?s7"
    by (meson rtranclp.rtrancl_refl rtranclp.rtrancl_into_rtrancl)
  then show ?thesis by (intro exI [of _ ?s7] exI [of _ ?b3]) simp
qed

lemma sample_run:
  "\<exists>s. (batch_step sample_batcher)\<^sup>*\<^sup>* (batch_start Map.empty (\<lambda>i. i + 7)) s \<and> callers s 0 = Returned 7 14 None"
proof -
  obtain s b where s: "(batch_step sample_batcher)\<^sup>*\<^sup>* (batch_start Map.empty (\<lambda>i. i + 7)) s"
    "callers s 0 = Waiting 7 0 0" "batches s 0 = Some b" "bp_done b" "bp_results b = [14]" "bp_errors b = Some [None]"
    using waiting_run by blast
  have "batch_step sample_batcher s (goto 0 (Returned 7 14 None) (cache_store sample_batcher 7 14 None s))"
    by (rule thunk [OF s(2-4)]) (simp add: s(5,6) thunk_result_def)
  from rtranclp.rtrancl_into_rtrancl [OF s(1) this] show ?thesis
    by (intro exI [of _ "goto 0 (Returned 7 14 None) (cache_store sample_batcher 7 14 None s)"]) simp
qed

section \<open>No caller waits for ever\<close>

text \<open>
  The answers that neither \<^verbatim>\<open>publishToSubscribers\<close> nor the thunk of a caller index out of
  range: the errors are nil, or the one error for everything, or at least one slot per
  parameter, however many results there are; and when the results are published, each of them
  has an error slot. \<^verbatim>\<open>nil, nil\<close> is such an answer. Then nothing panics, and a batch that is
  not done always has somebody to submit it.
\<close>

definition slots :: "gerror option list option \<Rightarrow> nat" where
  "slots es = (case es of None \<Rightarrow> 0 | Some l \<Rightarrow> length l)"

definition safe_answers :: "('p, 'k, 'r) batcher \<Rightarrow> bool" where
  "safe_answers d \<longleftrightarrow> (\<forall>qs. \<exists>rs es. batch_func d qs rs es) \<and>
     (\<forall>qs rs es. batch_func d qs rs es \<longrightarrow>
        (publish_results d \<longrightarrow> length rs \<le> slots es) \<and>
        (es = None \<or> slots es = 1 \<or> length qs \<le> slots es))"

definition attended :: "('p, 'k, 'r) bstate \<Rightarrow> bool" where
  "attended s \<longleftrightarrow> (\<forall>cid b. batches s cid = Some b \<longrightarrow> bp_params b \<noteq> [] \<longrightarrow> \<not> bp_done b \<longrightarrow>
     (bp_status b = Open \<longrightarrow> timers s cid = Sleeping) \<and>
     (bp_status b = Closed \<longrightarrow> timers s cid = TimerSubmit \<or> (\<exists>i p j. callers s i = Submitting p cid j)))"

lemma publish_from_full:
  "i + length rs \<le> length es \<Longrightarrow> is_ok (publish_from i rs es)"
  by (induction i rs es rule: publish_from.induct) (auto simp: is_ok_iff map_ok_Ok_iff)

lemma submit_full:
  assumes "safe_answers d" and "batch_func d qs rs es"
  shows "submit_batch d b rs es = Ok (b\<lparr>bp_results := rs, bp_errors := es, bp_done := True\<rparr>)"
proof (cases "publish_results d")
  case True
  then have "length rs \<le> slots es" using assms unfolding safe_answers_def by blast
  then obtain ys where "publish_to_subscribers rs es = Ok ys"
    using publish_from_full [of 0 rs "case es of None \<Rightarrow> [] | Some l \<Rightarrow> l"]
    by (auto simp: publish_to_subscribers_def slots_def is_ok_iff split: option.splits)
  then show ?thesis by (simp add: submit_batch_def)
qed (simp add: submit_batch_def)

lemma step_attended:
  assumes "batch_step d s s'" and "attended s" and "submit_inv s" and "batches_ok d s" and "safe_answers d"
  shows "attended s'"
proof -
  note inv = submit_invD [OF assms(3)]
  have ok: "batches s c = Some x \<Longrightarrow> batch_ok d x" for c x using assms(4) by (simp add: batches_ok_def)
  have open_not_done: "batches s c = Some x \<Longrightarrow> bp_status x = Open \<Longrightarrow> \<not> bp_done x" for c x
    using ok by (auto simp: batch_ok_def)
  have att: "timers s c = Sleeping" if "batches s c = Some b" "bp_params b \<noteq> []" "bp_status b = Open" for c b
    using assms(2) open_not_done that unfolding attended_def by blast
  have no_panic: "submit_batch d b rs es \<noteq> Panic e" if "batch_func d qs rs es" for b qs rs es e
    using submit_full [OF assms(5) that] by simp
  have att2: "timers s c = TimerSubmit \<or> (\<exists>i p j. callers s i = Submitting p c j)"
    if "batches s c = Some b" "bp_params b \<noteq> []" "\<not> bp_done b" "bp_status b = Closed" for c b
    using assms(2) that unfolding attended_def by blast
  note J = joinedD [OF _ ok] and F = filledD [OF _ ok]
  have opened: "timers s' c = Sleeping"
    if "batches s' c = Some b" "bp_params b \<noteq> []" "\<not> bp_done b" "bp_status b = Open" for c b
    using assms(1) that
    by cases (auto simp: new_batch_def dest: submit_batch_ok J F att inv(1,4) pending_not_open split: if_splits)
  have closed: "timers s' c = TimerSubmit \<or> (\<exists>i p j. callers s' i = Submitting p c j)"
    if "batches s' c = Some b" "bp_params b \<noteq> []" "\<not> bp_done b" "bp_status b = Closed" for c b
  proof -
    have "(\<exists>b0. batches s c = Some b0 \<and> bp_params b0 \<noteq> [] \<and> \<not> bp_done b0 \<and> bp_status b0 = Closed) \<or>
        timers s' c = TimerSubmit \<or> (\<exists>i p j. callers s' i = Submitting p c j)"
      using assms(1) that
      by cases (auto simp: new_batch_def dest: submit_batch_ok J F split: if_splits)
    moreover have "timers s c = TimerSubmit \<Longrightarrow> timers s' c = TimerSubmit"
      using assms(1) that inv(5) [of c]
      by cases (auto simp: occupied_def dest: no_panic submit_batch_ok split: if_splits)
    moreover have "callers s i = Submitting p c j \<Longrightarrow> callers s' i = Submitting p c j" for i p j
      using assms(1) that
      by cases (auto dest: no_panic submit_batch_ok split: if_splits)
    ultimately show ?thesis using att2 by blast
  qed
  show ?thesis unfolding attended_def using opened closed by blast
qed

lemma reachable_attended:
  assumes "(batch_step d)\<^sup>*\<^sup>* (batch_start primed ps) s" and "0 < max_batch_size d" and "safe_answers d"
  shows "attended s"
  using assms(1)
proof (induction rule: rtranclp_induct)
  case base
  show ?case by (simp add: attended_def batch_start_def)
next
  case (step s s')
  have "batcher_inv d primed s" using reachable_inv [OF step.hyps(1) assms(2)] .
  then show ?case using step_attended [OF step.hyps(2) step.IH] assms(3) by (simp add: batcher_inv_def)
qed

lemma done_returns:
  assumes "batcher_inv d primed s" and "safe_answers d" and "callers s i = Waiting p cid j"
    and "batches s cid = Some b" "bp_done b"
  shows "\<exists>s' r e. batch_step d s s' \<and> callers s' i = Returned p r e"
proof -
  note inv = assms(1) [unfolded batcher_inv_def]
  have "map_of (log s) cid = Some (bp_params b, bp_results b, bp_errors b)"
    using inv assms(4,5) by (simp add: log_inv_def answer_of_def)
  then have "batch_func d (bp_params b) (bp_results b) (bp_errors b)"
    using inv map_of_SomeD unfolding log_inv_def by fast
  then have l: "bp_errors b = None \<or> slots (bp_errors b) = 1 \<or> length (bp_params b) \<le> slots (bp_errors b)"
    using assms(2) unfolding safe_answers_def by blast
  have "batch_ok d b" using inv assms(4) by (simp add: batches_ok_def)
  moreover have "at_index d s p cid j" using inv assms(3) by (metis caller_ok.simps(3))
  ultimately have "j < length (bp_params b)" using assms(4) keys_length by (fastforce simp: at_index_def)
  with l have "\<exists>r e. thunk_result (zero_result d) (bp_results b) (bp_errors b) j = Ok (r, e)"
    by (cases "bp_errors b") (auto simp: thunk_result_def Let_def slots_def)
  then obtain r e where "thunk_result (zero_result d) (bp_results b) (bp_errors b) j = Ok (r, e)" by blast
  from thunk [OF assms(3-5) this] show ?thesis by fastforce
qed

text \<open>Submitting a closed batch, by its timer or by the caller that filled it.\<close>

lemma closed_submits:
  assumes "attended s" and "batches s cid = Some b" "bp_params b \<noteq> []" "bp_status b = Closed"
    and "safe_answers d" and "callers s i = Waiting p cid j"
  shows "\<exists>s' b'. (batch_step d)\<^sup>*\<^sup>* s s' \<and> batches s' cid = Some b' \<and> bp_done b' \<and> callers s' i = Waiting p cid j"
proof (cases "bp_done b")
  case False
  obtain rs es where "batch_func d (bp_params b) rs es" using assms(5) unfolding safe_answers_def by blast
  note f = this submit_full [OF assms(5) this, of b]
  let ?b' = "b\<lparr>bp_results := rs, bp_errors := es, bp_done := True\<rparr>"
  from assms(1-4) False consider "timers s cid = TimerSubmit" | a q l where "callers s a = Submitting q cid l"
    unfolding attended_def by blast
  then show ?thesis
  proof cases
    case 1
    have "batch_step d s (set_timer cid TimerDone (log_call cid ?b' (put_batch cid ?b' s)))"
      by (rule timer_submits [OF 1 assms(2) f])
    from r_into_rtranclp [of "batch_step d", OF this] assms(6) show ?thesis by fastforce
  next
    case 2
    with assms(6) have "a \<noteq> i" by auto
    have "batch_step d s (goto a (AdvanceDone q cid l) (log_call cid ?b' (put_batch cid ?b' s)))"
      by (rule submit [OF 2 assms(2) f])
    from r_into_rtranclp [of "batch_step d", OF this] assms(6) \<open>a \<noteq> i\<close> show ?thesis by fastforce
  qed
qed (use assms in blast)

text \<open>
  Property C6. No waiter is forgotten: for a positive batch size, if the batch function returns, and its answers are not
  indexed out of range (\<open>safe_answers\<close>: error slots for every parameter, or nil errors, or
  one error for everything, and with published results an error slot for every result), then
  from every state that can be reached a waiting caller can still get its result, because its
  batch is submitted already, or is closed and about to be, or is open and its timer runs.
\<close>

theorem waiter_can_return:
  assumes "(batch_step d)\<^sup>*\<^sup>* (batch_start primed ps) s" and "0 < max_batch_size d" and "safe_answers d"
    and "callers s i = Waiting p cid j"
  shows "\<exists>s' r e. (batch_step d)\<^sup>*\<^sup>* s s' \<and> callers s' i = Returned p r e"
proof -
  note inv = reachable_inv [OF assms(1,2)] and att = reachable_attended [OF assms(1-3)]
  have "at_index d s p cid j" using inv assms(4) unfolding batcher_inv_def by (metis caller_ok.simps(3))
  then obtain b where b: "batches s cid = Some b" "j < length (bp_keys b)"
    by (auto simp: at_index_def split: option.splits)
  then have ne: "bp_params b \<noteq> []"
    using inv keys_length by (fastforce simp: batcher_inv_def batches_ok_def)
  obtain s1 b1 where s1: "(batch_step d)\<^sup>*\<^sup>* s s1" "batches s1 cid = Some b1" "bp_status b1 = Closed"
    "bp_params b1 \<noteq> []" "callers s1 i = Waiting p cid j"
  proof (cases "bp_status b")
    case Open
    have "\<not> bp_done b" using inv b(1) Open by (auto simp: batcher_inv_def batches_ok_def batch_ok_def)
    with att b(1) ne Open have "timers s cid = Sleeping" unfolding attended_def by blast
    show thesis
      by (rule that [of _ "b\<lparr>bp_status := Closed\<rparr>", OF r_into_rtranclp [of "batch_step d", OF timer_closes [OF \<open>timers s cid = Sleeping\<close> b(1) Open]]])
        (use ne assms(4) in simp_all)
  next
    case Closed
    then show thesis by (intro that [of s b]) (use b ne assms(4) in simp_all)
  qed
  have reach1: "(batch_step d)\<^sup>*\<^sup>* (batch_start primed ps) s1" using assms(1) s1(1) by simp
  from closed_submits [OF reachable_attended [OF reach1 assms(2,3)] s1(2,4,3) assms(3) s1(5)]
  obtain s2 b2 where s2: "(batch_step d)\<^sup>*\<^sup>* s1 s2" "batches s2 cid = Some b2" "bp_done b2"
    "callers s2 i = Waiting p cid j" by blast
  have "batcher_inv d primed s2" using reachable_inv [OF _ assms(2)] reach1 s2(1) by (meson rtranclp_trans)
  from done_returns [OF this assms(3) s2(4,2,3)] s1(1) s2(1) show ?thesis
    by (meson rtranclp.rtrancl_into_rtrancl rtranclp_trans)
qed

lemma publish_from_result:
  "i \<le> length es \<Longrightarrow> publish_from i rs es = (if length es < i + length rs then Panic IndexRange
     else Ok (map fst (filter (\<lambda>(r, e). e = None) (zip rs (drop i es)))))"
proof (induction i rs es rule: publish_from.induct)
  case (2 i r rs es)
  show ?case
  proof (cases "i < length es")
    case True
    then have d: "drop i es = es ! i # drop (Suc i) es" by (simp add: Cons_nth_drop_Suc)
    show ?thesis using 2 True by (cases "es ! i") (simp_all add: d)
  qed (use 2 in simp)
qed simp

text \<open>
  \<^verbatim>\<open>publishToSubscribers\<close> shows subscribers exactly the results without an error, when
  there is an error slot for every result; with fewer slots than results, such as a single
  error for all or none at all, as \<^verbatim>\<open>DoThunk\<close> allows, it panics before the waiters are released.
\<close>

theorem publish_needs_error_slots:
  "publish_to_subscribers rs (Some l) = (if length l < length rs then Panic IndexRange
     else Ok (map fst (filter (\<lambda>(r, e). e = None) (zip rs l)))) \<and>
   publish_to_subscribers (r # rs) None = Panic IndexRange \<and>
   is_ok (thunk_result zero (r # rs) None 0) \<and> is_ok (thunk_result zero (r # rs) (Some [e]) 0)"
  by (simp add: publish_to_subscribers_def publish_from_result thunk_result_def)

text \<open>The witnesses run a batcher with batches of one parameter.\<close>

theorem batch_calls_bounded_witness:
  "\<exists>s. callers s 0 = Returned 7 14 None \<and> distinct (map fst (log (s :: (nat, nat, nat) bstate))) \<and>
     list_all (\<lambda>(cid, qs, rs, es). int (length qs) \<le> 1) (log s)"
proof -
  obtain s where s: "(batch_step sample_batcher)\<^sup>*\<^sup>* (batch_start Map.empty (\<lambda>i. i + 7)) s"
    "callers s 0 = Returned 7 14 None" using sample_run by blast
  have m: "max_batch_size sample_batcher = 1" by (simp add: sample_batcher_def new_batcher_def)
  from batch_calls_bounded [OF s(1)] s(2) show ?thesis
    by (intro exI [of _ s]) (auto simp: m list_all_iff)
qed

theorem callers_get_their_answer_witness:
  "\<exists>s. received sample_batcher Map.empty s 7 14 None"
proof -
  obtain s where s: "(batch_step sample_batcher)\<^sup>*\<^sup>* (batch_start Map.empty (\<lambda>i. i + 7)) s"
    "callers s 0 = Returned 7 14 None" using sample_run by blast
  show ?thesis
    by (rule exI, rule callers_get_their_answer [OF s(1) _ s(2)]) (simp add: sample_batcher_def new_batcher_def)
qed

theorem batching_refines_calls_witness:
  "\<exists>s. callers s 0 = Returned 7 14 None \<and>
     (batch_step sample_batcher)\<^sup>*\<^sup>* (batch_start Map.empty (\<lambda>i. i + 7)) s \<and> (14 :: nat) = 2 * 7"
proof -
  obtain s where s: "(batch_step sample_batcher)\<^sup>*\<^sup>* (batch_start Map.empty (\<lambda>i. i + 7)) s"
    "callers s 0 = Returned 7 14 None" using sample_run by blast
  have "14 = 2 * (7 :: nat) \<and> None = (None :: gerror option)"
    by (rule batching_refines_calls [OF s(1) _ _ _ _ _ s(2), where f = "\<lambda>x. 2 * x"])
      (simp_all add: sample_batcher_def new_batcher_def doubling_def)
  with s show ?thesis by blast
qed

theorem waiter_can_return_witness:
  "\<exists>s s' r e. callers s 0 = Waiting 7 0 0 \<and> (batch_step sample_batcher)\<^sup>*\<^sup>* s s' \<and> callers s' 0 = Returned 7 r e"
proof -
  obtain s where s: "(batch_step sample_batcher)\<^sup>*\<^sup>* (batch_start Map.empty (\<lambda>i. i + 7)) s"
    "callers s 0 = Waiting 7 0 0" using waiting_run by blast
  have "safe_answers sample_batcher"
    by (simp add: safe_answers_def slots_def sample_batcher_def new_batcher_def doubling_def)
  with waiter_can_return [OF s(1) _ _ s(2)] s(2) show ?thesis
    by (fastforce simp: sample_batcher_def new_batcher_def)
qed

text \<open>The fillers of the Kafka streamer answer \<^verbatim>\<open>nil, nil\<close> and do not publish.\<close>

lemma nil_answers_safe:
  "safe_answers (new_batcher n caches False (\<lambda>ps rs es. rs = [] \<and> es = None) zero)"
  by (simp add: safe_answers_def new_batcher_def)

end
