(* ===== verification/FeedMerge.thy ===== *)
theory FeedMerge
  imports UtilProps GoCodec
begin

text \<open>
  \<^verbatim>\<open>feed/merge.go\<close> and \<^verbatim>\<open>feed/event.go\<close>: how the events of a user are merged into one event of
  the feed, and when that happens. The queries of the database are arguments. Go ranges over
  a map in any order, so the merge of a gallery takes the order in which it visits the
  collections.
\<close>

section \<open>Events\<close>

text \<open>The fields of \<^verbatim>\<open>db.Event\<close> and \<^verbatim>\<open>persist.EventData\<close> that the feed reads; a slice may be nil.\<close>

record event_data =
  ed_user_refollowed :: bool
  ed_user_followed_back :: bool
  ed_collection_token_ids :: "string list option"
  ed_collection_collectors_note :: string
  ed_token_collectors_note :: string
  ed_gallery_name :: "string option"
  ed_gallery_description :: "string option"

record event =
  ev_id :: string
  ev_actor_id :: null_string
  ev_subject_id :: string
  ev_gallery_id :: string
  ev_collection_id :: string
  ev_token_id :: string
  ev_action :: string
  ev_created_at :: go_time
  ev_caption :: null_string
  ev_group_id :: null_string
  ev_data :: event_data

definition zero_null_string :: null_string where
  "zero_null_string = \<lparr>ns_string = '''', ns_valid = False\<rparr>"

definition zero_event_data :: event_data where
  "zero_event_data = \<lparr>ed_user_refollowed = False, ed_user_followed_back = False,
     ed_collection_token_ids = None, ed_collection_collectors_note = '''', ed_token_collectors_note = '''',
     ed_gallery_name = None, ed_gallery_description = None\<rparr>"

definition zero_event :: event where
  "zero_event = \<lparr>ev_id = '''', ev_actor_id = zero_null_string, ev_subject_id = '''', ev_gallery_id = '''',
     ev_collection_id = '''', ev_token_id = '''', ev_action = '''',
     ev_created_at = \<lparr>t_sec = 0, t_nsec = 0, t_zone = UTC\<rparr>,
     ev_caption = zero_null_string, ev_group_id = zero_null_string, ev_data = zero_event_data\<rparr>"

section \<open>Follows\<close>

record combined_follow_event =
  cf_event :: event
  cf_event_ids :: "string list"
  cf_followed_ids :: "string list"
  cf_followed_back :: "bool list"

definition follow_merge_one :: "event \<Rightarrow> combined_follow_event \<Rightarrow> combined_follow_event" where
  "follow_merge_one other c =
     (if ed_user_refollowed (ev_data other) then c
      else \<lparr>cf_event = zero_event\<lparr>ev_id := ev_id other, ev_actor_id := ev_actor_id other,
              ev_action := ev_action other, ev_created_at := ev_created_at other,
              ev_group_id := ev_group_id other\<rparr>,
            cf_event_ids = cf_event_ids c @ [ev_id other],
            cf_followed_ids = cf_followed_ids c @ [ev_subject_id other],
            cf_followed_back = cf_followed_back c @ [ed_user_followed_back (ev_data other)]\<rparr>)"

definition merge_follow_events :: "event list \<Rightarrow> combined_follow_event" where
  "merge_follow_events events_asc = fold follow_merge_one events_asc
     \<lparr>cf_event = zero_event, cf_event_ids = [], cf_followed_ids = [], cf_followed_back = []\<rparr>"

section \<open>Collections\<close>

definition action_collection_created :: string where
  "action_collection_created = ''CollectionCreated''"
definition action_collection_updated :: string where
  "action_collection_updated = ''CollectionUpdated''"
definition action_tokens_added_to_collection :: string where
  "action_tokens_added_to_collection = ''TokensAddedToCollection''"
definition action_collectors_note_added_to_collection :: string where
  "action_collectors_note_added_to_collection = ''CollectorsNoteAddedToCollection''"
definition action_collectors_note_added_to_token :: string where
  "action_collectors_note_added_to_token = ''CollectorsNoteAddedToToken''"
definition action_gallery_info_updated :: string where
  "action_gallery_info_updated = ''GalleryInfoUpdated''"
definition action_gallery_updated :: string where
  "action_gallery_updated = ''GalleryUpdated''"
definition action_user_followed_users :: string where
  "action_user_followed_users = ''UserFollowedUsers''"

lemmas action_defs = action_collection_created_def action_collection_updated_def
  action_tokens_added_to_collection_def action_collectors_note_added_to_collection_def
  action_collectors_note_added_to_token_def action_gallery_info_updated_def action_gallery_updated_def
  action_user_followed_users_def

record combined_collection_event =
  cc_event :: event
  cc_event_ids :: "string list"
  cc_is_new :: bool

definition collection_merge_one :: "event \<Rightarrow> combined_collection_event \<Rightarrow> combined_collection_event" where
  "collection_merge_one other c =
     (let cur = cc_event c;
          action = (if ev_action cur = '''' then ev_action other
                    else if ev_action cur \<noteq> action_collection_created \<and> ev_action cur \<noteq> ev_action other
                    then action_collection_updated
                    else ev_action cur);
          caption = (if ns_string (ev_caption cur) = '''' then ev_caption other else ev_caption cur);
          token_ids = (if ev_action other = action_collection_created \<or>
                          ev_action other = action_tokens_added_to_collection
                       then ed_collection_token_ids (ev_data other)
                       else ed_collection_token_ids (ev_data cur));
          note = (if ev_action other = action_collection_created \<or>
                     ev_action other = action_collectors_note_added_to_collection
                  then ed_collection_collectors_note (ev_data other)
                  else ed_collection_collectors_note (ev_data cur))
      in \<lparr>cc_event = zero_event\<lparr>ev_id := ev_id other, ev_actor_id := ev_actor_id other,
             ev_subject_id := ev_subject_id other, ev_gallery_id := ev_gallery_id other,
             ev_collection_id := ev_collection_id other, ev_action := action,
             ev_created_at := ev_created_at other, ev_caption := caption, ev_group_id := ev_group_id other,
             ev_data := zero_event_data\<lparr>ed_collection_token_ids := token_ids,
               ed_collection_collectors_note := note\<rparr>\<rparr>,
          cc_event_ids = cc_event_ids c @ [ev_id other],
          cc_is_new = (cc_is_new c \<or> ev_action other = action_collection_created)\<rparr>)"

definition merge_collection_events :: "event list \<Rightarrow> combined_collection_event" where
  "merge_collection_events events_asc = fold collection_merge_one events_asc
     \<lparr>cc_event = zero_event, cc_event_ids = [], cc_is_new = False\<rparr>"

section \<open>Galleries\<close>

record combined_gallery_event =
  cg_event_time :: go_time
  cg_gallery_id :: string
  cg_actor_id :: string
  cg_event_ids :: "string list"
  cg_new_collections :: "string list"
  cg_collection_notes :: "string \<Rightarrow> string option"
  cg_token_notes :: "string \<Rightarrow> (string \<Rightarrow> string option) option"
  cg_tokens_added :: "string \<Rightarrow> string list option"
  cg_gallery_name :: string
  cg_gallery_description :: string
  cg_group_id :: "string option"
  cg_caption :: "string option"

definition empty_gallery_event :: combined_gallery_event where
  "empty_gallery_event = \<lparr>cg_event_time = ev_created_at zero_event, cg_gallery_id = '''', cg_actor_id = '''',
     cg_event_ids = [], cg_new_collections = [], cg_collection_notes = Map.empty, cg_token_notes = Map.empty,
     cg_tokens_added = Map.empty, cg_gallery_name = '''', cg_gallery_description = '''',
     cg_group_id = None, cg_caption = None\<rparr>"

text \<open>
  The first loop: what every event sets, and which events are left for their collections. The
  group id and the caption are pointers into the loop variable, which is one variable for the
  whole loop in the Go version of the module (1.19): once set, they read the current event.
\<close>

definition gallery_event_fields :: "event \<Rightarrow> combined_gallery_event \<Rightarrow> combined_gallery_event" where
  "gallery_event_fields e c =
     c\<lparr>cg_group_id := (if ns_valid (ev_group_id e) \<or> cg_group_id c \<noteq> None
          then Some (ns_string (ev_group_id e)) else None),
       cg_event_time := ev_created_at e,
       cg_actor_id := (if cg_actor_id c = '''' then ns_string (ev_actor_id e) else cg_actor_id c),
       cg_gallery_id := (if cg_gallery_id c = '''' then ev_gallery_id e else cg_gallery_id c),
       cg_caption := (if ns_string (ev_caption e) \<noteq> '''' \<or> cg_caption c \<noteq> None
          then Some (ns_string (ev_caption e)) else None)\<rparr>"

fun gallery_events :: "event list \<Rightarrow> combined_gallery_event \<times> (string \<Rightarrow> event list option)
    \<Rightarrow> combined_gallery_event \<times> (string \<Rightarrow> event list option)" where
  "gallery_events [] s = s"
| "gallery_events (e # es) (c, groups) =
     (let c1 = gallery_event_fields e c in
      if ev_action e = action_gallery_info_updated
      then gallery_events es
        (c1\<lparr>cg_gallery_name := (case ed_gallery_name (ev_data e) of Some n \<Rightarrow> n | None \<Rightarrow> cg_gallery_name c1),
            cg_gallery_description :=
              (case ed_gallery_description (ev_data e) of Some d \<Rightarrow> d | None \<Rightarrow> cg_gallery_description c1)\<rparr>, groups)
      else if ev_action e = action_collectors_note_added_to_token
      then gallery_events es
        (c1\<lparr>cg_token_notes := (cg_token_notes c1)(ev_collection_id e \<mapsto>
              (case cg_token_notes c1 (ev_collection_id e) of None \<Rightarrow> Map.empty | Some m \<Rightarrow> m)
                (ev_token_id e \<mapsto> ed_token_collectors_note (ev_data e)))\<rparr>, groups)
      else gallery_events es
        (c1, groups(ev_collection_id e \<mapsto>
              (case groups (ev_collection_id e) of None \<Rightarrow> [] | Some g \<Rightarrow> g) @ [e])))"

text \<open>The loop over the merged collections.\<close>

definition add_collection :: "combined_collection_event \<Rightarrow> combined_gallery_event \<Rightarrow> combined_gallery_event" where
  "add_collection m c =
     (let e = cc_event m; cid = ev_collection_id e in
      c\<lparr>cg_collection_notes := (if ed_collection_collectors_note (ev_data e) \<noteq> ''''
          then (cg_collection_notes c)(cid \<mapsto> ed_collection_collectors_note (ev_data e)) else cg_collection_notes c),
        cg_tokens_added := (case ed_collection_token_ids (ev_data e) of
            Some ts \<Rightarrow> (cg_tokens_added c)(cid \<mapsto> ts) | None \<Rightarrow> cg_tokens_added c),
        cg_new_collections := (if cc_is_new m then cg_new_collections c @ [cid] else cg_new_collections c),
        cg_caption := (if ns_string (ev_caption e) \<noteq> '''' then Some (ns_string (ev_caption e)) else cg_caption c)\<rparr>)"

definition merge_gallery_events :: "string list \<Rightarrow> event list \<Rightarrow> combined_gallery_event" where
  "merge_gallery_events order events_asc =
     (case gallery_events events_asc (empty_gallery_event, Map.empty) of
        (c, groups) \<Rightarrow>
          (fold add_collection (map (\<lambda>cid. merge_collection_events (the (groups cid))) order) c)
            \<lparr>cg_event_ids := map ev_id events_asc\<rparr>)"

text \<open>The orders in which Go may range over the map of collections.\<close>

definition range_order :: "string list \<Rightarrow> event list \<Rightarrow> bool" where
  "range_order order events_asc \<longleftrightarrow> distinct order \<and>
     set order = dom (snd (gallery_events events_asc (empty_gallery_event, Map.empty)))"

end
