(* ===== verification/FeedMergeProps.thy ===== *)
theory FeedMergeProps
  imports FeedMerge "HOL-Library.Multiset"
begin

text \<open>
  What the merges of \<^verbatim>\<open>feed/merge.go\<close> keep of the events they merge: each is compared with a
  direct description of its result by filters, and the order in which Go visits a map is shown
  to matter only where the text says so.
\<close>

section \<open>Follows\<close>

lemma follow_fold:
  "let c' = fold follow_merge_one es c; firsts = filter (\<lambda>e. \<not> ed_user_refollowed (ev_data e)) es in
     cf_event_ids c' = cf_event_ids c @ map ev_id firsts \<and>
     cf_followed_ids c' = cf_followed_ids c @ map ev_subject_id firsts \<and>
     cf_followed_back c' = cf_followed_back c @ map (\<lambda>e. ed_user_followed_back (ev_data e)) firsts \<and>
     (firsts \<noteq> [] \<longrightarrow> ev_actor_id (cf_event c') = ev_actor_id (last firsts) \<and>
        ev_created_at (cf_event c') = ev_created_at (last firsts) \<and> ev_action (cf_event c') = ev_action (last firsts)) \<and>
     (firsts = [] \<longrightarrow> c' = c)"
proof (induction es arbitrary: c)
  case (Cons e es)
  show ?case
    using Cons.IH [of "follow_merge_one e c"] by (auto simp: follow_merge_one_def Let_def zero_event_def)
qed simp

section \<open>Collections\<close>

lemma merge_collection_snoc:
  "merge_collection_events (es @ [e]) = collection_merge_one e (merge_collection_events es)"
  by (simp add: merge_collection_events_def)

lemma merge_collection_last:
  "es \<noteq> [] \<Longrightarrow> ev_collection_id (cc_event (merge_collection_events es)) = ev_collection_id (last es)"
  by (induction es rule: rev_induct) (simp_all add: merge_collection_snoc collection_merge_one_def Let_def)

definition first_satisfying :: "('a \<Rightarrow> bool) \<Rightarrow> 'a list \<Rightarrow> 'a option" where
  "first_satisfying P xs = (case filter P xs of [] \<Rightarrow> None | x # _ \<Rightarrow> Some x)"

definition last_satisfying :: "('a \<Rightarrow> bool) \<Rightarrow> 'a list \<Rightarrow> 'a option" where
  "last_satisfying P xs = first_satisfying P (rev xs)"

lemma last_satisfying_snoc [simp]:
  "last_satisfying P [] = None"
  "last_satisfying P (xs @ [x]) = (if P x then Some x else last_satisfying P xs)"
  by (simp_all add: last_satisfying_def first_satisfying_def)

definition carries_tokens :: "event \<Rightarrow> bool" where
  "carries_tokens e \<longleftrightarrow> ev_action e = action_collection_created \<or> ev_action e = action_tokens_added_to_collection"

definition carries_note :: "event \<Rightarrow> bool" where
  "carries_note e \<longleftrightarrow> ev_action e = action_collection_created \<or> ev_action e = action_collectors_note_added_to_collection"

lemma merge_collection_conj:
  "cc_event_ids (merge_collection_events es) = map ev_id es \<and>
   (cc_is_new (merge_collection_events es) \<longleftrightarrow> (\<exists>e \<in> set es. ev_action e = action_collection_created)) \<and>
   ed_collection_token_ids (ev_data (cc_event (merge_collection_events es)))
     = (case last_satisfying carries_tokens es of None \<Rightarrow> None | Some e \<Rightarrow> ed_collection_token_ids (ev_data e)) \<and>
   ed_collection_collectors_note (ev_data (cc_event (merge_collection_events es)))
     = (case last_satisfying carries_note es of None \<Rightarrow> '''' | Some e \<Rightarrow> ed_collection_collectors_note (ev_data e))"
proof (induction es rule: rev_induct)
  case Nil
  show ?case by (simp add: merge_collection_events_def zero_event_def zero_event_data_def)
next
  case (snoc e es)
  then show ?case
    by (auto simp: merge_collection_snoc collection_merge_one_def Let_def carries_tokens_def carries_note_def)
qed

lemmas merge_collection_data =
  merge_collection_conj [THEN conjunct1]
  merge_collection_conj [THEN conjunct2, THEN conjunct1]
  merge_collection_conj [THEN conjunct2, THEN conjunct2, THEN conjunct1]
  merge_collection_conj [THEN conjunct2, THEN conjunct2, THEN conjunct2]

lemma merge_collection_action:
  assumes "\<forall>x \<in> set (e # es). ev_action x \<noteq> ''''"
  shows "ev_action (cc_event (merge_collection_events (e # es))) =
    (if ev_action e = action_collection_created then action_collection_created
     else if \<forall>x \<in> set es. ev_action x = ev_action e then ev_action e else action_collection_updated)"
  using assms
proof (induction es rule: rev_induct)
  case Nil
  then show ?case by (simp add: merge_collection_events_def collection_merge_one_def zero_event_def Let_def)
next
  case (snoc x es)
  then have IH: "ev_action (cc_event (merge_collection_events (e # es))) =
    (if ev_action e = action_collection_created then action_collection_created
     else if \<forall>x \<in> set es. ev_action x = ev_action e then ev_action e else action_collection_updated)"
    by simp
  have "ev_action (cc_event (merge_collection_events (e # es))) \<noteq> ''''"
    unfolding IH using snoc.prems by (simp add: action_defs)
  moreover have "ev_action (cc_event (collection_merge_one x c)) =
      (if ev_action (cc_event c) = '''' then ev_action x
       else if ev_action (cc_event c) \<noteq> action_collection_created \<and> ev_action (cc_event c) \<noteq> ev_action x
       then action_collection_updated else ev_action (cc_event c))" for c
    by (simp add: collection_merge_one_def Let_def)
  ultimately have "ev_action (cc_event (merge_collection_events (e # es @ [x]))) =
      (if ev_action (cc_event (merge_collection_events (e # es))) \<noteq> action_collection_created \<and>
          ev_action (cc_event (merge_collection_events (e # es))) \<noteq> ev_action x
       then action_collection_updated else ev_action (cc_event (merge_collection_events (e # es))))"
    using merge_collection_snoc [of "e # es" x] by simp
  moreover have "action_collection_updated \<noteq> action_collection_created" by (simp add: action_defs)
  ultimately show ?case
    unfolding IH by (cases "ev_action x = ev_action e") simp_all
qed

text \<open>
  The merge of a user's follows lists exactly the users followed for the first time,
  in order, each with its own flag, and carries the actor, action and time of the last of them.
\<close>

theorem follow_merge_parallel:
  fixes es
  defines "c \<equiv> merge_follow_events es" and "firsts \<equiv> filter (\<lambda>e. \<not> ed_user_refollowed (ev_data e)) es"
  shows "cf_event_ids c = map ev_id firsts \<and>
    zip (cf_followed_ids c) (cf_followed_back c)
      = map (\<lambda>e. (ev_subject_id e, ed_user_followed_back (ev_data e))) firsts \<and>
    length (cf_followed_ids c) = length (cf_followed_back c) \<and>
    (firsts \<noteq> [] \<longrightarrow> ev_actor_id (cf_event c) = ev_actor_id (last firsts) \<and>
       ev_created_at (cf_event c) = ev_created_at (last firsts) \<and> ev_action (cf_event c) = ev_action (last firsts))"
proof -
  have "zip (map f xs) (map g xs) = map (\<lambda>x. (f x, g x)) xs" for f :: "event \<Rightarrow> string" and g :: "event \<Rightarrow> bool" and xs
    by (induction xs) simp_all
  then show ?thesis
    using follow_fold [of es "\<lparr>cf_event = zero_event, cf_event_ids = [], cf_followed_ids = [], cf_followed_back = []\<rparr>"]
    by (simp add: c_def firsts_def merge_follow_events_def Let_def)
qed

theorem follow_merge_parallel_witness:
  "cf_event_ids (merge_follow_events [zero_event\<lparr>ev_id := ''e1''\<rparr>,
      zero_event\<lparr>ev_data := zero_event_data\<lparr>ed_user_refollowed := True\<rparr>\<rparr>]) = [''e1'']"
  using follow_merge_parallel [of "[zero_event\<lparr>ev_id := ''e1''\<rparr>,
      zero_event\<lparr>ev_data := zero_event_data\<lparr>ed_user_refollowed := True\<rparr>\<rparr>]"]
  by (simp add: zero_event_def zero_event_data_def)

text \<open>
  The merged event of a collection is a creation exactly when its first event is one,
  keeps its action when all events have the same one, and is a generic update otherwise; the
  collection counts as new when any event created it, so a creation that is not the first event
  gives a new collection under the generic action.
\<close>

theorem collection_merge_classifies:
  assumes "\<forall>x \<in> set (e # es). ev_action x \<noteq> ''''"
  shows "ev_action (cc_event (merge_collection_events (e # es))) =
      (if ev_action e = action_collection_created then action_collection_created
       else if \<forall>x \<in> set es. ev_action x = ev_action e then ev_action e else action_collection_updated) \<and>
    cc_is_new (merge_collection_events (e # es)) = (\<exists>x \<in> set (e # es). ev_action x = action_collection_created) \<and>
    cc_event_ids (merge_collection_events (e # es)) = map ev_id (e # es)"
  using merge_collection_action [OF assms] merge_collection_data(1,2) [of "e # es"] by blast

theorem collection_merge_classifies_witness:
  "ev_action (cc_event (merge_collection_events
      [zero_event\<lparr>ev_action := action_tokens_added_to_collection\<rparr>, zero_event\<lparr>ev_action := action_collection_created\<rparr>]))
    = action_collection_updated"
  using collection_merge_classifies [of "zero_event\<lparr>ev_action := action_tokens_added_to_collection\<rparr>"
      "[zero_event\<lparr>ev_action := action_collection_created\<rparr>]"]
  by (simp add: action_defs)

section \<open>Galleries\<close>

text \<open>The events of a collection that the first loop leaves for the merge.\<close>

definition of_collection :: "string \<Rightarrow> event \<Rightarrow> bool" where
  "of_collection cid e \<longleftrightarrow> ev_collection_id e = cid \<and> ev_action e \<noteq> action_gallery_info_updated \<and>
     ev_action e \<noteq> action_collectors_note_added_to_token"

lemma gallery_groups:
  "snd (gallery_events es (c, groups)) cid =
     (if filter (of_collection cid) es = [] then groups cid
      else Some ((case groups cid of None \<Rightarrow> [] | Some g \<Rightarrow> g) @ filter (of_collection cid) es))"
proof (induction es arbitrary: c groups)
  case (Cons e es)
  show ?case
    using of_collection_def [of cid e] by (auto simp: Let_def Cons.IH split: option.split)
qed simp

lemma gallery_unset:
  "cg_collection_notes (fst (gallery_events es (c, groups))) = cg_collection_notes c"
  "cg_tokens_added (fst (gallery_events es (c, groups))) = cg_tokens_added c"
  "cg_new_collections (fst (gallery_events es (c, groups))) = cg_new_collections c"
  by (induction es arbitrary: c groups) (simp_all add: Let_def gallery_event_fields_def)

lemma range_order_iff:
  "range_order order es \<longleftrightarrow> distinct order \<and> set order = {cid. filter (of_collection cid) es \<noteq> []}"
  by (simp add: range_order_def gallery_groups dom_def)

lemma merged_collection:
  assumes "range_order order es" and "cid \<in> set order"
  shows "merge_collection_events (the (snd (gallery_events es (empty_gallery_event, Map.empty)) cid))
      = merge_collection_events (filter (of_collection cid) es)"
    and "ev_collection_id (cc_event (merge_collection_events (filter (of_collection cid) es))) = cid"
proof -
  have ne: "filter (of_collection cid) es \<noteq> []" using assms by (simp add: range_order_iff)
  then show "merge_collection_events (the (snd (gallery_events es (empty_gallery_event, Map.empty)) cid))
      = merge_collection_events (filter (of_collection cid) es)"
    by (simp add: gallery_groups)
  have "last (filter (of_collection cid) es) \<in> set (filter (of_collection cid) es)" using ne by (rule last_in_set)
  then show "ev_collection_id (cc_event (merge_collection_events (filter (of_collection cid) es))) = cid"
    by (simp add: merge_collection_last [OF ne] of_collection_def)
qed

definition gallery_head :: "combined_gallery_event
    \<Rightarrow> go_time \<times> string \<times> string \<times> (string \<Rightarrow> (string \<Rightarrow> string option) option) \<times> string \<times> string \<times> string option" where
  "gallery_head c = (cg_event_time c, cg_gallery_id c, cg_actor_id c, cg_token_notes c, cg_gallery_name c,
     cg_gallery_description c, cg_group_id c)"

lemma fold_add_collection:
  assumes "distinct order" and "\<forall>cid \<in> set order. ev_collection_id (cc_event (m cid)) = cid"
    and c': "c' = fold add_collection (map m order) c"
  shows "cg_tokens_added c' cid = (if cid \<in> set order \<and> ed_collection_token_ids (ev_data (cc_event (m cid))) \<noteq> None
       then ed_collection_token_ids (ev_data (cc_event (m cid))) else cg_tokens_added c cid) \<and>
     cg_collection_notes c' cid = (if cid \<in> set order \<and> ed_collection_collectors_note (ev_data (cc_event (m cid))) \<noteq> ''''
       then Some (ed_collection_collectors_note (ev_data (cc_event (m cid)))) else cg_collection_notes c cid) \<and>
     cg_new_collections c' = cg_new_collections c @ filter (\<lambda>x. cc_is_new (m x)) order \<and>
     gallery_head c' = gallery_head c"
  using assms(1,2) unfolding c'
proof (induction order arbitrary: c)
  case Nil
  show ?case by simp
next
  case (Cons x order)
  from Cons.prems have "distinct order" "\<forall>cid \<in> set order. ev_collection_id (cc_event (m cid)) = cid"
    "x \<notin> set order" "ev_collection_id (cc_event (m x)) = x" by simp_all
  with Cons.IH [of "add_collection (m x) c"] show ?case
    by (auto simp: add_collection_def gallery_head_def Let_def split: option.split)
qed

text \<open>What the merge of a gallery says, apart from its new collections and its caption.\<close>

definition gallery_content :: "combined_gallery_event \<Rightarrow> combined_gallery_event" where
  "gallery_content c = c\<lparr>cg_new_collections := [], cg_caption := None\<rparr>"

lemma gallery_merge_parts:
  assumes "range_order order es"
  defines "m \<equiv> (\<lambda>cid. merge_collection_events (filter (of_collection cid) es))"
  shows "cg_tokens_added (merge_gallery_events order es)
      = (\<lambda>cid. ed_collection_token_ids (ev_data (cc_event (m cid))))"
    and "cg_collection_notes (merge_gallery_events order es)
      = (\<lambda>cid. if ed_collection_collectors_note (ev_data (cc_event (m cid))) = '''' then None
               else Some (ed_collection_collectors_note (ev_data (cc_event (m cid)))))"
    and "cg_new_collections (merge_gallery_events order es) = filter (\<lambda>cid. cc_is_new (m cid)) order"
    and "gallery_head (merge_gallery_events order es)
      = gallery_head (fst (gallery_events es (empty_gallery_event, Map.empty)))"
proof -
  let ?g = "gallery_events es (empty_gallery_event, Map.empty)"
  have order: "distinct order" "set order = {cid. filter (of_collection cid) es \<noteq> []}"
    using assms(1) by (simp_all add: range_order_iff)
  have ms: "map (\<lambda>cid. merge_collection_events (the (snd ?g cid))) order = map m order"
    using merged_collection(1) [OF assms(1)] by (simp add: m_def)
  have ids: "\<forall>cid \<in> set order. ev_collection_id (cc_event (m cid)) = cid"
    using merged_collection(2) [OF assms(1)] by (simp add: m_def)
  have merged: "merge_gallery_events order es
      = (fold add_collection (map m order) (fst ?g))\<lparr>cg_event_ids := map ev_id es\<rparr>"
    by (simp add: merge_gallery_events_def split_beta ms)
  have none: "ed_collection_token_ids (ev_data (cc_event (m cid))) = None \<and>
      ed_collection_collectors_note (ev_data (cc_event (m cid))) = ''''" if "cid \<notin> set order" for cid
    using that order(2) by (simp add: m_def merge_collection_events_def zero_event_def zero_event_data_def)
  note parts = fold_add_collection [OF order(1) ids refl, of "fst ?g"]
  note unset = gallery_unset [of es empty_gallery_event Map.empty]
  show "cg_tokens_added (merge_gallery_events order es)
      = (\<lambda>cid. ed_collection_token_ids (ev_data (cc_event (m cid))))"
    using parts none unset by (auto simp: merged fun_eq_iff empty_gallery_event_def)
  show "cg_collection_notes (merge_gallery_events order es)
      = (\<lambda>cid. if ed_collection_collectors_note (ev_data (cc_event (m cid))) = '''' then None
               else Some (ed_collection_collectors_note (ev_data (cc_event (m cid)))))"
    using parts none unset by (auto simp: merged fun_eq_iff empty_gallery_event_def)
  show "cg_new_collections (merge_gallery_events order es) = filter (\<lambda>cid. cc_is_new (m cid)) order"
    using parts unset by (simp add: merged empty_gallery_event_def)
  show "gallery_head (merge_gallery_events order es) = gallery_head (fst ?g)"
    using parts by (simp add: merged gallery_head_def)
qed

text \<open>
  Property C38. Whatever the order in which Go visits the collections, the merged gallery event
  gives each collection the tokens of its last event that carries tokens and the last
  collector's note, lists the collections that were created once each, and names every event.
\<close>

theorem gallery_merge_collections:
  assumes "range_order order es"
  shows "cg_tokens_added (merge_gallery_events order es) cid
      = (case last_satisfying carries_tokens (filter (of_collection cid) es) of
           None \<Rightarrow> None | Some e \<Rightarrow> ed_collection_token_ids (ev_data e)) \<and>
    cg_collection_notes (merge_gallery_events order es) cid
      = (case last_satisfying carries_note (filter (of_collection cid) es) of
           None \<Rightarrow> None
         | Some e \<Rightarrow> if ed_collection_collectors_note (ev_data e) = '''' then None
                     else Some (ed_collection_collectors_note (ev_data e))) \<and>
    distinct (cg_new_collections (merge_gallery_events order es)) \<and>
    set (cg_new_collections (merge_gallery_events order es))
      = {cid. \<exists>e \<in> set es. of_collection cid e \<and> ev_action e = action_collection_created} \<and>
    cg_event_ids (merge_gallery_events order es) = map ev_id es"
proof -
  have "{cid. filter (of_collection cid) es \<noteq> []} \<inter>
      {cid. cc_is_new (merge_collection_events (filter (of_collection cid) es))}
    = {cid. \<exists>e \<in> set es. of_collection cid e \<and> ev_action e = action_collection_created}"
    by (auto simp: merge_collection_data(2) filter_empty_conv)
  with assms have "set (cg_new_collections (merge_gallery_events order es))
      = {cid. \<exists>e \<in> set es. of_collection cid e \<and> ev_action e = action_collection_created}"
    by (simp add: gallery_merge_parts(3) [OF assms] range_order_iff Int_def)
  moreover have "cg_event_ids (merge_gallery_events order es) = map ev_id es"
    by (simp add: merge_gallery_events_def split_beta)
  ultimately show ?thesis
    using assms
    by (simp add: gallery_merge_parts [OF assms] merge_collection_data(3,4) range_order_iff split: option.split)
qed

text \<open>
  Two visits of the collections in different orders give the same gallery event up to
  the order of its new collections and up to its caption, which comes from the collection
  visited last that has one.
\<close>

theorem gallery_merge_order_independent:
  assumes "range_order order es" and "range_order order' es"
  shows "gallery_content (merge_gallery_events order es) = gallery_content (merge_gallery_events order' es) \<and>
    mset (cg_new_collections (merge_gallery_events order es))
      = mset (cg_new_collections (merge_gallery_events order' es))"
proof -
  have "mset order = mset order'"
    using assms by (metis range_order_iff set_eq_iff_mset_eq_distinct)
  then have "mset (cg_new_collections (merge_gallery_events order es))
      = mset (cg_new_collections (merge_gallery_events order' es))"
    by (simp add: gallery_merge_parts(3) assms mset_filter)
  moreover have "gallery_head (merge_gallery_events order es) = gallery_head (merge_gallery_events order' es)"
    using gallery_merge_parts(4) assms by simp
  moreover have "cg_event_ids (merge_gallery_events order es) = cg_event_ids (merge_gallery_events order' es)"
    by (simp add: merge_gallery_events_def split_beta)
  ultimately show ?thesis
    using gallery_merge_parts(1,2) [OF assms(1)] gallery_merge_parts(1,2) [OF assms(2)]
    by (simp add: gallery_content_def gallery_head_def)
qed

definition sample_gallery_events :: "event list" where
  "sample_gallery_events =
     [zero_event\<lparr>ev_id := ''e1'', ev_collection_id := ''c1'', ev_action := action_collection_created\<rparr>,
      zero_event\<lparr>ev_id := ''e2'', ev_collection_id := ''c2'', ev_action := action_tokens_added_to_collection,
        ev_data := zero_event_data\<lparr>ed_collection_token_ids := Some [''t'']\<rparr>\<rparr>]"

lemma sample_gallery_order:
  "range_order [''c1'', ''c2''] sample_gallery_events" "range_order [''c2'', ''c1''] sample_gallery_events"
  by (auto simp: range_order_iff sample_gallery_events_def of_collection_def zero_event_def action_defs)

theorem gallery_merge_collections_witness:
  "cg_tokens_added (merge_gallery_events [''c2'', ''c1''] sample_gallery_events) ''c2'' = Some [''t''] \<and>
   set (cg_new_collections (merge_gallery_events [''c2'', ''c1''] sample_gallery_events)) = {''c1''}"
  using gallery_merge_collections [OF sample_gallery_order(2), of "''c2''"]
  by (auto simp: sample_gallery_events_def of_collection_def carries_tokens_def zero_event_def action_defs
      last_satisfying_def first_satisfying_def)

theorem gallery_merge_order_independent_witness:
  "gallery_content (merge_gallery_events [''c1'', ''c2''] sample_gallery_events)
     = gallery_content (merge_gallery_events [''c2'', ''c1''] sample_gallery_events)"
  using gallery_merge_order_independent [OF sample_gallery_order] by simp

lemma gallery_pointers:
  "cg_caption (fst (gallery_events es (c, groups))) =
     (if es = [] then cg_caption c
      else if cg_caption c \<noteq> None \<or> (\<exists>e \<in> set es. ns_string (ev_caption e) \<noteq> '''')
      then Some (ns_string (ev_caption (last es))) else None) \<and>
   cg_group_id (fst (gallery_events es (c, groups))) =
     (if es = [] then cg_group_id c
      else if cg_group_id c \<noteq> None \<or> (\<exists>e \<in> set es. ns_valid (ev_group_id e))
      then Some (ns_string (ev_group_id (last es))) else None)"
proof (induction es arbitrary: c groups)
  case (Cons e es)
  have "cg_caption (gallery_event_fields e c) = (if ns_string (ev_caption e) \<noteq> '''' \<or> cg_caption c \<noteq> None
      then Some (ns_string (ev_caption e)) else None)"
    "cg_group_id (gallery_event_fields e c) = (if ns_valid (ev_group_id e) \<or> cg_group_id c \<noteq> None
      then Some (ns_string (ev_group_id e)) else None)"
    by (simp_all add: gallery_event_fields_def)
  then show ?case by (auto simp: Let_def Cons.IH)
qed simp

text \<open>
  The caption and the group of a merged gallery event are those of its last event as soon
  as any event has one, because the code keeps pointers into its loop variable: without events
  of collections, whose captions are merged separately, the caption of an earlier event is
  lost when the last event has none.
\<close>

theorem gallery_caption_of_last_event:
  assumes "range_order [] es" and "es \<noteq> []"
  shows "cg_caption (merge_gallery_events [] es)
      = (if \<exists>e \<in> set es. ns_string (ev_caption e) \<noteq> '''' then Some (ns_string (ev_caption (last es))) else None) \<and>
    cg_group_id (merge_gallery_events [] es)
      = (if \<exists>e \<in> set es. ns_valid (ev_group_id e) then Some (ns_string (ev_group_id (last es))) else None)"
  using gallery_pointers [of es empty_gallery_event Map.empty] assms(2)
  by (simp add: merge_gallery_events_def split_beta empty_gallery_event_def)

theorem gallery_caption_of_last_event_witness:
  "cg_caption (merge_gallery_events []
     [zero_event\<lparr>ev_action := action_gallery_info_updated, ev_caption := \<lparr>ns_string = ''gm'', ns_valid = True\<rparr>\<rparr>,
      zero_event\<lparr>ev_action := action_gallery_info_updated\<rparr>]) = Some ''''"
proof -
  let ?es = "[zero_event\<lparr>ev_action := action_gallery_info_updated, ev_caption := \<lparr>ns_string = ''gm'', ns_valid = True\<rparr>\<rparr>,
      zero_event\<lparr>ev_action := action_gallery_info_updated\<rparr>]"
  have "range_order [] ?es" by (simp add: range_order_iff of_collection_def)
  from gallery_caption_of_last_event [OF this] show ?thesis by (simp add: zero_event_def zero_null_string_def)
qed

end
