(* ===== verification/FeedEvents.thy ===== *)
theory FeedEvents
  imports FeedMergeProps
begin

text \<open>
  \<^verbatim>\<open>feed/event.go\<close>: whether an event, or a group of events, becomes an event of the feed. The
  queries, the feed's table and the generated id are the fields of \<open>feed_env\<close>.
\<close>

section \<open>Groups and segments of actions\<close>

definition grouping_config :: "(string \<times> string list) list" where
  "grouping_config = [(action_gallery_updated,
     [action_collection_updated, action_collection_created, action_tokens_added_to_collection,
      action_collectors_note_added_to_token, action_collectors_note_added_to_collection,
      action_gallery_info_updated])]"

definition create_event_groups :: "(string \<times> string list) list \<Rightarrow> string \<Rightarrow> string option" where
  "create_event_groups config =
     fold (\<lambda>(parent, actions) m. fold (\<lambda>a m. m(a \<mapsto> parent)) actions m) config Map.empty"

definition event_groups :: "string \<Rightarrow> string option" where
  "event_groups = create_event_groups grouping_config"

datatype segment = NoSegment | ActorActionSegment | ActorSubjectSegment | ActorSubjectActionSegment
  | ActorGallerySegment

definition event_segments :: "string \<Rightarrow> segment option" where
  "event_segments = [action_user_followed_users \<mapsto> ActorActionSegment]"

definition get_actions :: "string \<Rightarrow> string list" where
  "get_actions action = (case map_of grouping_config action of Some as \<Rightarrow> as | None \<Rightarrow> [action])"

definition get_segment :: "string \<Rightarrow> segment" where
  "get_segment action =
     (let a = (case event_groups action of Some parent \<Rightarrow> parent | None \<Rightarrow> action) in
      case event_segments a of Some s \<Rightarrow> s | None \<Rightarrow> NoSegment)"

section \<open>Building events of the feed\<close>

record feed_event =
  fv_id :: string
  fv_owner_id :: string
  fv_action :: string
  fv_event_time :: go_time
  fv_event_ids :: "string list"
  fv_caption :: null_string
  fv_group_id :: null_string
  fv_user_followed_ids :: "string list"
  fv_user_followed_back :: "bool list"
  fv_gallery :: "combined_gallery_event option"

text \<open>
  \<open>fv_gallery\<close> stands for the gallery fields of \<^verbatim>\<open>FeedEventData\<close>, copied one by one from the
  merged event.
\<close>

record feed_env =
  fe_get :: "string \<Rightarrow> event outcome"
  fe_blocked :: "string \<Rightarrow> bool outcome"
  fe_has_later :: "null_string \<Rightarrow> string \<Rightarrow> bool outcome"
  fe_group :: "null_string \<Rightarrow> event list outcome"
  fe_group_actor :: "null_string \<Rightarrow> null_string outcome"
  fe_window :: "string \<Rightarrow> string list \<Rightarrow> event list outcome"
  fe_gallery_window :: "string \<Rightarrow> string \<Rightarrow> string list \<Rightarrow> event list outcome"
  fe_actor_action_active :: "event \<Rightarrow> string list \<Rightarrow> bool outcome"
  fe_actor_subject_active :: "event \<Rightarrow> bool outcome"
  fe_actor_subject_action_active :: "event \<Rightarrow> string list \<Rightarrow> bool outcome"
  fe_actor_gallery_active :: "event \<Rightarrow> bool outcome"
  fe_add :: "feed_event \<Rightarrow> feed_event outcome"
  fe_new_id :: string
  fe_order :: "event list \<Rightarrow> string list"

definition null_str_to_dbid :: "null_string \<Rightarrow> string" where
  "null_str_to_dbid s = (if ns_valid s then ns_string s else '''')"

definition str_ptr_to_null_str :: "string option \<Rightarrow> null_string" where
  "str_ptr_to_null_str s = (case s of
     Some t \<Rightarrow> \<lparr>ns_string = t, ns_valid = True\<rparr> | None \<Rightarrow> zero_null_string)"

definition is_still_editing :: "feed_env \<Rightarrow> event \<Rightarrow> bool outcome" where
  "is_still_editing env e =
     (case get_segment (ev_action e) of
        ActorActionSegment \<Rightarrow> fe_actor_action_active env e (get_actions (ev_action e))
      | ActorSubjectSegment \<Rightarrow> fe_actor_subject_active env e
      | ActorSubjectActionSegment \<Rightarrow> fe_actor_subject_action_active env e (get_actions (ev_action e))
      | ActorGallerySegment \<Rightarrow> fe_actor_gallery_active env e
      | NoSegment \<Rightarrow> Ok False)"

definition can_event :: "feed_env \<Rightarrow> event \<Rightarrow> bool outcome" where
  "can_event env e = bind_out (is_still_editing env e) (\<lambda>editing. Ok (\<not> editing))"

definition create_gallery_updated_from_events :: "feed_env \<Rightarrow> event list \<Rightarrow> feed_event option outcome" where
  "create_gallery_updated_from_events env events =
     (if events = [] then Ok None
      else (let merged = merge_gallery_events (fe_order env events) events in
            if cg_event_ids merged = [] then Ok None
            else map_ok Some (fe_add env \<lparr>fv_id = fe_new_id env, fv_owner_id = cg_actor_id merged,
              fv_action = action_gallery_updated, fv_event_time = cg_event_time merged,
              fv_event_ids = cg_event_ids merged, fv_caption = str_ptr_to_null_str (cg_caption merged),
              fv_group_id = str_ptr_to_null_str (cg_group_id merged), fv_user_followed_ids = [],
              fv_user_followed_back = [], fv_gallery = Some merged\<rparr>)))"

definition create_gallery_updated_feed_event :: "feed_env \<Rightarrow> event \<Rightarrow> feed_event option outcome" where
  "create_gallery_updated_feed_event env e =
     bind_out
       (if ns_string (ev_group_id e) \<noteq> '''' then fe_group env (ev_group_id e)
        else fe_gallery_window env (ev_id e) (ev_gallery_id e) (get_actions action_gallery_updated))
       (create_gallery_updated_from_events env)"

definition create_user_followed_users_feed_event :: "feed_env \<Rightarrow> event \<Rightarrow> feed_event option outcome" where
  "create_user_followed_users_feed_event env e =
     bind_out
       (if ns_string (ev_group_id e) \<noteq> '''' then fe_group env (ev_group_id e)
        else fe_window env (ev_id e) [ev_action e])
       (\<lambda>events.
         let merged = merge_follow_events events in
         if length (cf_followed_ids merged) < 1 then Ok None
         else map_ok Some (fe_add env \<lparr>fv_id = fe_new_id env,
           fv_owner_id = null_str_to_dbid (ev_actor_id (cf_event merged)), fv_action = ev_action (cf_event merged),
           fv_event_time = ev_created_at (cf_event merged), fv_event_ids = cf_event_ids merged,
           fv_caption = zero_null_string, fv_group_id = zero_null_string,
           fv_user_followed_ids = cf_followed_ids merged, fv_user_followed_back = cf_followed_back merged,
           fv_gallery = None\<rparr>))"

definition create_feed_event :: "feed_env \<Rightarrow> event \<Rightarrow> feed_event option outcome" where
  "create_feed_event env e =
     (if ev_action e = action_user_followed_users then create_user_followed_users_feed_event env e
      else if ev_action e \<in> set [action_collectors_note_added_to_token, action_gallery_info_updated,
             action_tokens_added_to_collection, action_collectors_note_added_to_collection,
             action_collection_created]
      then create_gallery_updated_feed_event env e
      else Err (ErrText ''unhandable single event''))"

definition create_grouped_from_event :: "feed_env \<Rightarrow> event \<Rightarrow> feed_event option outcome" where
  "create_grouped_from_event env e =
     (if event_groups (ev_action e) = Some action_gallery_updated then create_gallery_updated_feed_event env e
      else Err (ErrText ''unhandable group event''))"

definition create_grouped_from_events :: "feed_env \<Rightarrow> event list \<Rightarrow> string \<Rightarrow> feed_event option outcome" where
  "create_grouped_from_events env events action =
     (if action = action_gallery_updated then create_gallery_updated_from_events env events
      else Err (ErrText ''unhandable group event''))"

definition new_feed_event_from_event :: "feed_env \<Rightarrow> event \<Rightarrow> feed_event option outcome" where
  "new_feed_event_from_event env e =
     bind_out (fe_blocked env (ns_string (ev_actor_id e))) (\<lambda>blocked.
       if blocked then Ok None
       else bind_out
         (if ns_string (ev_group_id e) \<noteq> '''' then fe_has_later env (ev_group_id e) (ev_id e) else Ok False)
         (\<lambda>wait.
           if wait then Ok None
           else bind_out (can_event env e) (\<lambda>can.
             if \<not> can then Ok None
             else if ns_string (ev_caption e) \<noteq> '''' \<or> event_groups (ev_action e) = None
             then create_feed_event env e
             else create_grouped_from_event env e)))"

definition new_feed_event_from_task :: "feed_env \<Rightarrow> string \<Rightarrow> feed_event option outcome" where
  "new_feed_event_from_task env event_id = bind_out (fe_get env event_id) (new_feed_event_from_event env)"

definition new_feed_event_from_group :: "feed_env \<Rightarrow> string \<Rightarrow> string \<Rightarrow> feed_event option outcome" where
  "new_feed_event_from_group env group_id action =
     bind_out (fe_group_actor env (str_ptr_to_null_str (Some group_id))) (\<lambda>actor.
       bind_out (fe_blocked env (ns_string actor)) (\<lambda>blocked.
         if blocked then Ok None
         else bind_out (fe_group env (str_ptr_to_null_str (Some group_id))) (\<lambda>events.
           create_grouped_from_events env events action)))"

section \<open>Properties\<close>

lemma event_groups_iff:
  "event_groups a = Some action_gallery_updated \<longleftrightarrow> a \<in> set (get_actions action_gallery_updated)"
  "event_groups a = None \<longleftrightarrow> a \<notin> set (get_actions action_gallery_updated)"
  by (auto simp: event_groups_def create_event_groups_def grouping_config_def get_actions_def)

lemma gallery_actions_not_active:
  "a \<in> set (get_actions action_gallery_updated) \<Longrightarrow> get_segment a = NoSegment"
  by (simp add: get_segment_def event_groups_iff(1) [symmetric] event_segments_def)
    (simp add: action_defs)

text \<open>
  An event adds nothing to the feed when its actor is blocked, when a later event of its
  group is still to come, or when the actor is still editing: whatever the feed's table does,
  the result is no event and no error.
\<close>

theorem suppressed_events_add_nothing:
  assumes "fe_blocked env (ns_string (ev_actor_id e)) = Ok blocked"
    and "ns_string (ev_group_id e) \<noteq> '''' \<Longrightarrow> fe_has_later env (ev_group_id e) (ev_id e) = Ok later"
    and "is_still_editing env e = Ok editing"
    and "blocked \<or> ns_string (ev_group_id e) \<noteq> '''' \<and> later \<or> editing"
  shows "new_feed_event_from_event (env\<lparr>fe_add := table\<rparr>) e = Ok None"
proof -
  have "is_still_editing (env\<lparr>fe_add := table\<rparr>) e = is_still_editing env e"
    by (simp add: is_still_editing_def split: segment.split)
  with assms show ?thesis
    by (cases "ns_string (ev_group_id e) = ''''") (auto simp: new_feed_event_from_event_def can_event_def)
qed

definition sample_feed_env :: "bool \<Rightarrow> feed_env" where
  "sample_feed_env blocked = \<lparr>fe_get = \<lambda>i. Ok zero_event, fe_blocked = \<lambda>a. Ok blocked, fe_has_later = \<lambda>g i. Ok False,
     fe_group = \<lambda>g. Ok sample_gallery_events, fe_group_actor = \<lambda>g. Ok zero_null_string,
     fe_window = \<lambda>i as. Ok [], fe_gallery_window = \<lambda>i g as. Ok [], fe_actor_action_active = \<lambda>e as. Ok False,
     fe_actor_subject_active = \<lambda>e. Ok False, fe_actor_subject_action_active = \<lambda>e as. Ok False,
     fe_actor_gallery_active = \<lambda>e. Ok False, fe_add = Ok, fe_new_id = ''f1'', fe_order = \<lambda>es. [''c1'', ''c2'']\<rparr>"

definition sample_grouped_event :: event where
  "sample_grouped_event = zero_event\<lparr>ev_group_id := \<lparr>ns_string = ''g'', ns_valid = True\<rparr>,
     ev_action := action_collection_created\<rparr>"

theorem suppressed_events_add_nothing_witness:
  "new_feed_event_from_event ((sample_feed_env True)\<lparr>fe_add := \<lambda>fv. Err IoEOF\<rparr>) sample_grouped_event = Ok None"
  by (rule suppressed_events_add_nothing [where blocked = True and later = False and editing = False])
    (simp_all add: sample_feed_env_def is_still_editing_def split: segment.split)

text \<open>
  The event of the feed for a group of gallery edits. A captioned event takes the other way
  through \<^verbatim>\<open>NewFeedEventFromEvent\<close>, as a single event, and gives the same event of the feed for
  its group, except for the action \<open>CollectionUpdated\<close>, which that way has no case for.
\<close>

definition gallery_group_event :: "feed_env \<Rightarrow> event list \<Rightarrow> feed_event" where
  "gallery_group_event env es = (let m = merge_gallery_events (fe_order env es) es in
     \<lparr>fv_id = fe_new_id env, fv_owner_id = cg_actor_id m, fv_action = action_gallery_updated,
      fv_event_time = cg_event_time m, fv_event_ids = map ev_id es,
      fv_caption = str_ptr_to_null_str (cg_caption m), fv_group_id = str_ptr_to_null_str (cg_group_id m),
      fv_user_followed_ids = [], fv_user_followed_back = [], fv_gallery = Some m\<rparr>)"

lemma built_gallery_event:
  assumes "fe_blocked env (ns_string (ev_actor_id e)) = Ok False"
    and "ns_string (ev_group_id e) \<noteq> ''''" and "fe_has_later env (ev_group_id e) (ev_id e) = Ok False"
    and "ev_action e \<in> set (get_actions action_gallery_updated)"
    and "fe_group env (ev_group_id e) = Ok es" and "es \<noteq> []"
  shows "new_feed_event_from_event env e =
    (if ns_string (ev_caption e) \<noteq> '''' \<and> ev_action e = action_collection_updated
     then Err (ErrText ''unhandable single event'')
     else map_ok Some (fe_add env (gallery_group_event env es)))"
proof -
  have ids: "cg_event_ids (merge_gallery_events (fe_order env es) es) = map ev_id es"
    by (simp add: merge_gallery_events_def split_beta)
  have "can_event env e = Ok True"
    using gallery_actions_not_active [OF assms(4)] by (simp add: can_event_def is_still_editing_def)
  moreover have "event_groups (ev_action e) = Some action_gallery_updated"
    using assms(4) by (simp add: event_groups_iff)
  moreover have "create_feed_event env e = (if ev_action e = action_collection_updated
      then Err (ErrText ''unhandable single event'') else create_gallery_updated_feed_event env e)"
    using assms(4) by (auto simp: create_feed_event_def get_actions_def grouping_config_def action_defs)
  ultimately show ?thesis
    using assms
    by (simp add: new_feed_event_from_event_def create_grouped_from_event_def
        create_gallery_updated_feed_event_def create_gallery_updated_from_events_def gallery_group_event_def ids Let_def)
qed

text \<open>
  Property C39. An event without a caption, of an actor who is not blocked, that is the last of a
  non-empty group of gallery edits, gives one event of the feed, of the merged owner and time, that names
  all events of the group and carries their merged collections, caption and group.
\<close>

theorem grouped_gallery_event:
  assumes "fe_blocked env (ns_string (ev_actor_id e)) = Ok False" and "ns_string (ev_caption e) = ''''"
    and "ns_string (ev_group_id e) \<noteq> ''''" and "fe_has_later env (ev_group_id e) (ev_id e) = Ok False"
    and "ev_action e \<in> set (get_actions action_gallery_updated)"
    and "fe_group env (ev_group_id e) = Ok es" and "es \<noteq> []"
  shows "new_feed_event_from_event env e = map_ok Some (fe_add env \<lparr>fv_id = fe_new_id env,
       fv_owner_id = cg_actor_id (merge_gallery_events (fe_order env es) es),
       fv_action = action_gallery_updated,
       fv_event_time = cg_event_time (merge_gallery_events (fe_order env es) es),
       fv_event_ids = map ev_id es,
       fv_caption = str_ptr_to_null_str (cg_caption (merge_gallery_events (fe_order env es) es)),
       fv_group_id = str_ptr_to_null_str (cg_group_id (merge_gallery_events (fe_order env es) es)),
       fv_user_followed_ids = [], fv_user_followed_back = [],
       fv_gallery = Some (merge_gallery_events (fe_order env es) es)\<rparr>)"
  using built_gallery_event [OF assms(1,3-7)] assms(2) by (simp add: gallery_group_event_def Let_def)

theorem grouped_gallery_event_witness:
  "map_ok (map_option fv_event_ids) (new_feed_event_from_event (sample_feed_env False) sample_grouped_event)
    = Ok (Some [''e1'', ''e2''])"
proof -
  have "ev_action sample_grouped_event \<in> set (get_actions action_gallery_updated)"
    by (simp add: sample_grouped_event_def get_actions_def grouping_config_def)
  with grouped_gallery_event [of "sample_feed_env False" sample_grouped_event sample_gallery_events]
  show ?thesis
    by (simp add: sample_feed_env_def sample_grouped_event_def sample_gallery_events_def zero_event_def
        zero_null_string_def)
qed

end
