(* ===== verification/Recommend.thy ===== *)
theory Recommend
  imports UtilProps "HOL-Library.Multiset"
begin

text \<open>
  \<^verbatim>\<open>service/recommend\<close>: recommendations of users to follow, by random walks over the graph of
  follows. Random draws, the float arithmetic of the step allocation and the orders in which
  Go visits maps are arguments; the channel and the ticker of \<^verbatim>\<open>Loop\<close> are not modelled, what
  it does with a message is.
\<close>

section \<open>The graph\<close>

record follow =
  fl_follower :: string
  fl_followee :: string
  fl_last_updated :: int

record graph =
  gr_neighbors :: "string \<Rightarrow> string list option"
  gr_indegrees :: "string \<Rightarrow> nat option"

definition indegree :: "(string \<Rightarrow> nat option) \<Rightarrow> string \<Rightarrow> nat" where
  "indegree m i = (case m i of None \<Rightarrow> 0 | Some n \<Rightarrow> n)"

definition add_follow :: "follow \<Rightarrow> graph \<Rightarrow> graph" where
  "add_follow f g =
     g\<lparr>gr_neighbors := (gr_neighbors g)(fl_follower f \<mapsto>
          (case gr_neighbors g (fl_follower f) of None \<Rightarrow> [] | Some ns \<Rightarrow> ns) @ [fl_followee f]),
       gr_indegrees := (gr_indegrees g)(fl_followee f \<mapsto> indegree (gr_indegrees g) (fl_followee f) + 1)\<rparr>"

definition generate_graph :: "follow list \<Rightarrow> graph" where
  "generate_graph follows = fold add_follow follows \<lparr>gr_neighbors = Map.empty, gr_indegrees = Map.empty\<rparr>"

text \<open>The graph in memory: a concurrent map of nodes, with the metadata under a key of its own.\<close>

record graph_store =
  gs_nodes :: "string \<Rightarrow> string list option"
  gs_metadata :: "(string \<Rightarrow> nat option) option"

text \<open>\<^verbatim>\<open>LoadFunc\<close> panics on a query error; it stores every node and removes none.\<close>

definition load_graph :: "follow list outcome \<Rightarrow> graph_store \<Rightarrow> graph_store outcome" where
  "load_graph source gs =
     (case source of
        Ok follows \<Rightarrow>
          (let g = generate_graph follows in
           Ok \<lparr>gs_nodes = gs_nodes gs ++ gr_neighbors g, gs_metadata = Some (gr_indegrees g)\<rparr>)
      | Err e \<Rightarrow> Panic (PanicErr e)
      | Panic p \<Rightarrow> Panic p)"

definition read_neighbors :: "graph_store \<Rightarrow> string \<Rightarrow> string list" where
  "read_neighbors gs node = (case gs_nodes gs node of None \<Rightarrow> [] | Some ns \<Rightarrow> ns)"

definition read_metadata :: "graph_store \<Rightarrow> (string \<Rightarrow> nat option) outcome" where
  "read_metadata gs = (case gs_metadata gs of
     None \<Rightarrow> Panic (PanicText ''no metadata for graph!'') | Some m \<Rightarrow> Ok m)"

section \<open>One walk\<close>

definition max_depth :: nat where
  "max_depth = 10"

record walk_state =
  wk_current :: string
  wk_depth :: nat
  wk_visited :: "(string \<times> string) set"
  wk_visits :: "string \<Rightarrow> nat option"

text \<open>\<open>draw k\<close> is what \<^verbatim>\<open>rng.Intn\<close> returns in the step, for a bound \<open>k\<close>.\<close>

definition walk_step :: "graph_store \<Rightarrow> string set \<Rightarrow> string \<Rightarrow> string \<Rightarrow> (nat \<Rightarrow> nat) \<Rightarrow> walk_state \<Rightarrow> walk_state" where
  "walk_step gs current_edges origin start draw w =
     (let ns = read_neighbors gs (wk_current w) in
      if ns = [] then w\<lparr>wk_current := start, wk_depth := 0\<rparr>
      else
        (let nxt = ns ! draw (length ns);
             e = (wk_current w, nxt);
             fresh = (e \<notin> wk_visited w);
             visits = (if fresh \<and> nxt \<noteq> origin \<and> nxt \<notin> current_edges
                       then (wk_visits w)(nxt \<mapsto> indegree (wk_visits w) nxt + 1) else wk_visits w);
             reset = (wk_depth w + 1 > max_depth)
         in \<lparr>wk_current = (if reset then start else nxt), wk_depth = (if reset then 0 else wk_depth w + 1),
             wk_visited = (if fresh then insert e (wk_visited w) else wk_visited w), wk_visits = visits\<rparr>))"

fun walk_loop :: "nat \<Rightarrow> graph_store \<Rightarrow> string set \<Rightarrow> string \<Rightarrow> string \<Rightarrow> (nat \<Rightarrow> nat \<Rightarrow> nat) \<Rightarrow> walk_state \<Rightarrow> walk_state" where
  "walk_loop 0 gs current_edges origin start draws w = w"
| "walk_loop (Suc n) gs current_edges origin start draws w =
     walk_loop n gs current_edges origin start draws (walk_step gs current_edges origin start (draws n) w)"

definition start_walk :: "string \<Rightarrow> walk_state" where
  "start_walk start = \<lparr>wk_current = start, wk_depth = 0, wk_visited = {}, wk_visits = Map.empty\<rparr>"

definition walk :: "graph_store \<Rightarrow> string set \<Rightarrow> string \<Rightarrow> string \<Rightarrow> int \<Rightarrow> (nat \<Rightarrow> nat \<Rightarrow> nat)
    \<Rightarrow> string \<Rightarrow> nat option" where
  "walk gs current_edges origin start steps draws =
     (if read_neighbors gs start = [] then Map.empty
      else wk_visits (walk_loop (nat steps) gs current_edges origin start draws (start_walk start)))"

section \<open>All walks of a user\<close>

record query_node =
  qn_id :: string
  qn_weight :: int

definition total_walks :: nat where
  "total_walks = 30"

text \<open>
  The float arithmetic of \<^verbatim>\<open>allocateSteps\<close>: \<open>scale max n\<close> is the scale factor of a node with
  indegree \<open>n\<close>, \<open>share weight factor total\<close> the steps of a node.
\<close>

record step_floats =
  sf_scale :: "nat \<Rightarrow> nat \<Rightarrow> int"
  sf_share :: "int \<Rightarrow> int \<Rightarrow> int \<Rightarrow> int"

definition allocate_steps :: "step_floats \<Rightarrow> (string \<Rightarrow> nat option) \<Rightarrow> query_node list \<Rightarrow> string \<Rightarrow> int option" where
  "allocate_steps sf indegrees nodes =
     (let degrees = map (\<lambda>n. indegree indegrees (qn_id n)) nodes;
          max_indegree = fold max degrees 0;
          factors = map (sf_scale sf max_indegree) degrees;
          total = sum_list factors
      in fold (\<lambda>(n, f) m. m(qn_id n \<mapsto> sf_share sf (qn_weight n) f total)) (zip nodes factors) Map.empty)"

text \<open>\<open>order\<close> sorts the nodes by their random keys.\<close>

definition weighted_sample :: "(query_node list \<Rightarrow> query_node list) \<Rightarrow> query_node list \<Rightarrow> query_node list" where
  "weighted_sample order nodes =
     (if length nodes < total_walks then nodes else take total_walks (order nodes))"

text \<open>\<open>int(math.Sqrt(float64(n)))\<close>, which is exact below \<open>2 ^ 52\<close>.\<close>

fun isqrt_from :: "nat \<Rightarrow> nat \<Rightarrow> nat" where
  "isqrt_from 0 n = 0"
| "isqrt_from (Suc k) n = (if Suc k * Suc k \<le> n then Suc k else isqrt_from k n)"

definition isqrt :: "nat \<Rightarrow> nat" where
  "isqrt n = isqrt_from n n"

type_synonym walks = "(query_node \<times> (string \<Rightarrow> nat option)) list"

definition put_walk :: "query_node \<Rightarrow> (string \<Rightarrow> nat option) \<Rightarrow> walks \<Rightarrow> walks" where
  "put_walk q v ws = (q, v) # filter (\<lambda>w. fst w \<noteq> q) ws"

definition total_visits :: "walks \<Rightarrow> string \<Rightarrow> nat" where
  "total_visits ws node = sum_list (map (\<lambda>(q, v). case v node of None \<Rightarrow> 0 | Some c \<Rightarrow> isqrt c) ws)"

definition visited_nodes :: "walks \<Rightarrow> string set" where
  "visited_nodes ws = (\<Union>(q, v) \<in> set ws. dom v)"

record walk_env =
  we_floats :: step_floats
  we_sample :: "query_node list \<Rightarrow> query_node list"
  we_draws :: "nat \<Rightarrow> nat \<Rightarrow> nat \<Rightarrow> nat"
  we_range :: "walks \<Rightarrow> string list"

text \<open>\<open>we_range\<close> is the order in which the visited nodes come out of the map before they are sorted.\<close>

fun run_walks :: "walk_env \<Rightarrow> graph_store \<Rightarrow> string set \<Rightarrow> string \<Rightarrow> (string \<Rightarrow> int option) \<Rightarrow> nat
    \<Rightarrow> query_node list \<Rightarrow> walks \<Rightarrow> walks" where
  "run_walks env gs current_edges origin steps i [] ws = ws"
| "run_walks env gs current_edges origin steps i (n # ns) ws =
     run_walks env gs current_edges origin steps (Suc i) ns
       (put_walk n (walk gs current_edges origin (qn_id n)
          (case steps (qn_id n) of None \<Rightarrow> 0 | Some s \<Rightarrow> s) (we_draws env i)) ws)"

definition walk_from :: "walk_env \<Rightarrow> graph_store \<Rightarrow> string \<Rightarrow> query_node list \<Rightarrow> string list outcome" where
  "walk_from env gs origin query_nodes =
     (if query_nodes = [] then Ok []
      else
        (let current_edges = qn_id ` set query_nodes;
             nodes = weighted_sample (we_sample env) query_nodes
         in bind_out (read_metadata gs) (\<lambda>indegrees.
              let steps = allocate_steps (we_floats env) indegrees nodes;
                  ws = run_walks env gs current_edges origin steps 0 nodes []
              in Ok (sort_key (\<lambda>n. - int (total_visits ws n ^ 2)) (we_range env ws)))))"

section \<open>Recommendations\<close>

definition one_week :: int where
  "one_week = 7 * 24 * 3600 * 1000000000"

text \<open>\<^verbatim>\<open>Time.Sub\<close> on nanoseconds since year 1, saturating at the range of a duration.\<close>

definition time_sub :: "int \<Rightarrow> int \<Rightarrow> int" where
  "time_sub a b = max (- (2 ^ 63)) (min (2 ^ 63 - 1) (a - b))"

definition latest_follow :: "follow list \<Rightarrow> int" where
  "latest_follow follows =
     fold (\<lambda>f latest. if time_sub (fl_last_updated f) latest > 0 then fl_last_updated f else latest) follows 0"

definition follow_score :: "int \<Rightarrow> follow \<Rightarrow> int" where
  "follow_score latest f =
     (let recency = time_sub latest (fl_last_updated f) in
      if recency < one_week then 8
      else if recency < 2 * one_week then 4
      else if recency < 4 * one_week then 2
      else 1)"

definition recommend :: "walk_env \<Rightarrow> graph_store \<Rightarrow> string \<Rightarrow> follow list \<Rightarrow> string list outcome" where
  "recommend env gs user follows =
     walk_from env gs user
       (map (\<lambda>f. \<lparr>qn_id = fl_followee f, qn_weight = follow_score (latest_follow follows) f\<rparr>) follows)"

text \<open>
  The result, and the message that is sent to be saved, if any. \<open>bootstrap\<close> is the fallback of
  a user the walks give nothing for.
\<close>

definition recommend_from_following :: "walk_env \<Rightarrow> string list outcome option \<Rightarrow> graph_store \<Rightarrow> string \<Rightarrow> follow list
    \<Rightarrow> (string list \<times> (string \<times> string list) option) outcome" where
  "recommend_from_following env bootstrap gs user follows =
     (let fallback = (case bootstrap of
            Some b \<Rightarrow> bind_out b (\<lambda>ids. Ok (ids, None)) | None \<Rightarrow> Ok ([], None)) in
      if follows = [] then fallback
      else bind_out (recommend env gs user follows) (\<lambda>ids.
        if ids = [] then fallback
        else (let ids' = (if length ids > 100 then take 100 ids else ids) in Ok (ids', Some (user, ids')))))"

text \<open>The rows \<^verbatim>\<open>SaveResultFunc\<close> writes: user, recommended user, count; their ids are generated.\<close>

definition save_result_rows :: "string \<Rightarrow> string list \<Rightarrow> (string \<times> string \<times> int) list" where
  "save_result_rows user ids = map (\<lambda>i. (user, i, 1)) (fst (dedupe ids True))"

section \<open>Shuffling in partitions\<close>

text \<open>The halving of the partition size until it is at most the number of ids.\<close>

function shrink :: "nat \<Rightarrow> int \<Rightarrow> int" where
  "shrink len sz = (if int len < sz then shrink len (go_quot sz 2) else sz)"
  by pat_completeness auto
termination
  by (relation "measure (\<lambda>(len, s). nat s)") (auto simp: go_quot_def sgn_if)

declare shrink.simps [simp del]

text \<open>
  The loop over partitions. It does not end with size 0, so it is partial; \<open>mix\<close> is what
  \<^verbatim>\<open>rand.Shuffle\<close> makes of a partition.
\<close>

partial_function (option) shuffle_loop :: "(nat \<Rightarrow> 'a list \<Rightarrow> 'a list) \<Rightarrow> nat \<Rightarrow> nat \<Rightarrow> 'a list \<Rightarrow> 'a list option" where
  "shuffle_loop mix sz i ids =
     (if i < length ids
      then shuffle_loop mix sz (i + sz)
        (take i ids @ mix i (take sz (drop i ids)) @ drop (i + sz) ids)
      else Some ids)"

definition shuffle_ids :: "(nat \<Rightarrow> 'a list \<Rightarrow> 'a list) \<Rightarrow> 'a list \<Rightarrow> int \<Rightarrow> 'a list outcome option" where
  "shuffle_ids mix ids n =
     (if length ids \<le> 1 then Some (Ok ids)
      else (let sz = shrink (length ids) n in
            if sz < 0 then Some (Panic MakesliceLen)
            else map_option Ok (shuffle_loop mix (nat sz) 0 ids)))"

definition recommend_from_following_shuffled :: "walk_env \<Rightarrow> (nat \<Rightarrow> string list \<Rightarrow> string list)
    \<Rightarrow> string list outcome option \<Rightarrow> graph_store \<Rightarrow> string \<Rightarrow> follow list \<Rightarrow> string list outcome option" where
  "recommend_from_following_shuffled env mix bootstrap gs user follows =
     (case recommend_from_following env bootstrap gs user follows of
        Ok (ids, _) \<Rightarrow> shuffle_ids mix ids 24
      | Err e \<Rightarrow> Some (Err e)
      | Panic p \<Rightarrow> Some (Panic p))"

end
