(* ===== verification/RecommendProps.thy ===== *)
theory RecommendProps
  imports Recommend "HOL-Library.List_Lexorder" "HOL-Library.Char_ord"
begin

text \<open>
  What the walks can and cannot recommend: an invariant of the walk, lifted to the ranked
  result, and the partitions of the shuffle.
\<close>

section \<open>The graph\<close>

lemma generate_graph_fold:
  "gr_neighbors (fold add_follow fs g) a =
     (case (gr_neighbors g a, filter (\<lambda>f. fl_follower f = a) fs) of
        (old, []) \<Rightarrow> old
      | (old, new) \<Rightarrow> Some ((case old of None \<Rightarrow> [] | Some ns \<Rightarrow> ns) @ map fl_followee new))"
  "indegree (gr_indegrees (fold add_follow fs g)) b =
     indegree (gr_indegrees g) b + length (filter (\<lambda>f. fl_followee f = b) fs)"
proof -
  show "gr_neighbors (fold add_follow fs g) a =
     (case (gr_neighbors g a, filter (\<lambda>f. fl_follower f = a) fs) of
        (old, []) \<Rightarrow> old
      | (old, new) \<Rightarrow> Some ((case old of None \<Rightarrow> [] | Some ns \<Rightarrow> ns) @ map fl_followee new))"
    by (induction fs arbitrary: g) (auto simp: add_follow_def split: list.split option.split)
  show "indegree (gr_indegrees (fold add_follow fs g)) b =
     indegree (gr_indegrees g) b + length (filter (\<lambda>f. fl_followee f = b) fs)"
    by (induction fs arbitrary: g) (auto simp: add_follow_def indegree_def)
qed

text \<open>
  Loading the graph gives a follower its followees in the order of the query and counts
  followers exactly, but a user who follows nobody any more keeps the neighbours of the
  previous load, because a load only adds nodes.
\<close>

theorem load_graph_neighbors:
  assumes "load_graph (Ok follows) gs = Ok gs'"
  shows "read_neighbors gs' a =
      (if \<exists>f \<in> set follows. fl_follower f = a
       then map fl_followee (filter (\<lambda>f. fl_follower f = a) follows) else read_neighbors gs a) \<and>
    (\<exists>m. read_metadata gs' = Ok m \<and> indegree m b = length (filter (\<lambda>f. fl_followee f = b) follows))"
proof -
  let ?g = "\<lparr>gr_neighbors = Map.empty, gr_indegrees = Map.empty\<rparr>"
  have gs': "gs_nodes gs' = gs_nodes gs ++ gr_neighbors (fold add_follow follows ?g)"
    "gs_metadata gs' = Some (gr_indegrees (fold add_follow follows ?g))"
    using assms by (auto simp: load_graph_def generate_graph_def Let_def)
  show ?thesis
    using generate_graph_fold(1) [of follows ?g a] generate_graph_fold(2) [of follows ?g b]
    by (auto simp: read_neighbors_def read_metadata_def gs' map_add_def indegree_def filter_empty_conv
        split: list.splits)
qed

theorem load_graph_neighbors_witness:
  "read_neighbors \<lparr>gs_nodes = [''a'' \<mapsto> [''b'']], gs_metadata = Some Map.empty\<rparr> ''a'' = [''b'']"
  using load_graph_neighbors [of "[]" "\<lparr>gs_nodes = [''a'' \<mapsto> [''b'']], gs_metadata = None\<rparr>"
      "\<lparr>gs_nodes = [''a'' \<mapsto> [''b'']], gs_metadata = Some Map.empty\<rparr>" "''a''" "''a''"]
  by (simp add: load_graph_def generate_graph_def read_neighbors_def)

section \<open>Walks\<close>

definition follows_edge :: "graph_store \<Rightarrow> (string \<times> string) set" where
  "follows_edge gs = {(a, b). b \<in> set (read_neighbors gs a)}"

definition draws_in_range :: "(nat \<Rightarrow> nat) \<Rightarrow> bool" where
  "draws_in_range draw \<longleftrightarrow> (\<forall>k > 0. draw k < k)"

definition walk_inv :: "graph_store \<Rightarrow> string set \<Rightarrow> string \<Rightarrow> string \<Rightarrow> walk_state \<Rightarrow> bool" where
  "walk_inv gs cur origin start w \<longleftrightarrow>
     (start, wk_current w) \<in> follows_edge gs ^^ wk_depth w \<and> wk_depth w \<le> max_depth \<and>
     finite (wk_visited w) \<and>
     (\<forall>(a, b) \<in> wk_visited w. \<exists>k \<le> max_depth. (start, a) \<in> follows_edge gs ^^ k \<and> (a, b) \<in> follows_edge gs) \<and>
     (\<forall>b. wk_visits w b = (if b \<noteq> origin \<and> b \<notin> cur \<and> (\<exists>a. (a, b) \<in> wk_visited w)
        then Some (card {a. (a, b) \<in> wk_visited w}) else None))"

lemma finite_sources: "finite E \<Longrightarrow> finite {a. (a, b) \<in> E}"
  by (rule finite_subset [of _ "fst ` E"]) force+

lemma card_insert_source:
  assumes "finite E" and "(a, b) \<notin> E"
  shows "card {x. (x, b) \<in> insert (a, b) E} = Suc (card {x. (x, b) \<in> E})"
proof -
  have "{x. (x, b) \<in> insert (a, b) E} = insert a {x. (x, b) \<in> E}" by auto
  with assms finite_sources [of E b] show ?thesis by simp
qed

lemma walk_step_inv:
  assumes "walk_inv gs cur origin start w" and "draws_in_range draw"
  shows "walk_inv gs cur origin start (walk_step gs cur origin start draw w)"
proof (cases "read_neighbors gs (wk_current w) = []")
  case True
  with assms(1) show ?thesis by (simp add: walk_step_def walk_inv_def)
next
  case False
  define nxt where "nxt = read_neighbors gs (wk_current w) ! draw (length (read_neighbors gs (wk_current w)))"
  have e: "(wk_current w, nxt) \<in> follows_edge gs"
    using False assms(2) by (simp add: follows_edge_def nxt_def draws_in_range_def)
  note inv = assms(1) [unfolded walk_inv_def]
  have hop: "(start, nxt) \<in> follows_edge gs ^^ Suc (wk_depth w)" using inv e by auto
  have src: "\<exists>k \<le> max_depth. (start, wk_current w) \<in> follows_edge gs ^^ k \<and> (wk_current w, nxt) \<in> follows_edge gs"
    using inv e by blast
  let ?e = "(wk_current w, nxt)"
  have other: "{a. (a, b) \<in> insert ?e (wk_visited w)} = {a. (a, b) \<in> wk_visited w}" if "b \<noteq> nxt" for b
    using that by auto
  have visits: "(if ?e \<notin> wk_visited w \<and> nxt \<noteq> origin \<and> nxt \<notin> cur
        then (wk_visits w)(nxt \<mapsto> indegree (wk_visits w) nxt + 1) else wk_visits w) b
      = (if b \<noteq> origin \<and> b \<notin> cur \<and> (\<exists>a. (a, b) \<in> insert ?e (wk_visited w))
         then Some (card {a. (a, b) \<in> insert ?e (wk_visited w)}) else None)" for b
  proof (cases "b = nxt")
    case True
    have v: "wk_visits w nxt = (if nxt \<noteq> origin \<and> nxt \<notin> cur \<and> (\<exists>a. (a, nxt) \<in> wk_visited w)
        then Some (card {a. (a, nxt) \<in> wk_visited w}) else None)" using inv by blast
    show ?thesis
    proof (cases "?e \<in> wk_visited w")
      case old: True
      then show ?thesis using v True by (auto simp: insert_absorb)
    next
      case new: False
      have "card {a. (a, nxt) \<in> wk_visited w} = indegree (wk_visits w) nxt" if "nxt \<noteq> origin" "nxt \<notin> cur"
        using v that finite_sources [of "wk_visited w" nxt] by (auto simp: indegree_def)
      with card_insert_source [of "wk_visited w" "wk_current w" nxt] inv new True v show ?thesis by auto
    qed
  next
    case False
    then show ?thesis using inv other [OF False] by auto
  qed
  have w': "walk_step gs cur origin start draw w =
      \<lparr>wk_current = (if wk_depth w + 1 > max_depth then start else nxt),
       wk_depth = (if wk_depth w + 1 > max_depth then 0 else wk_depth w + 1),
       wk_visited = insert ?e (wk_visited w),
       wk_visits = (if ?e \<notin> wk_visited w \<and> nxt \<noteq> origin \<and> nxt \<notin> cur
        then (wk_visits w)(nxt \<mapsto> indegree (wk_visits w) nxt + 1) else wk_visits w)\<rparr>"
    using False by (auto simp: walk_step_def Let_def nxt_def [symmetric] insert_absorb)
  show ?thesis
    unfolding w' walk_inv_def
    using inv hop src visits by (auto simp del: relpow.simps(2))
qed

lemma walk_loop_inv:
  "walk_inv gs cur origin start w \<Longrightarrow> (\<And>i. draws_in_range (draws i)) \<Longrightarrow>
    walk_inv gs cur origin start (walk_loop n gs cur origin start draws w)"
  by (induction n arbitrary: w) (simp_all add: walk_step_inv)

lemma walk_final_inv:
  assumes "\<And>i. draws_in_range (draws i)" and "walk gs cur origin start steps draws b = Some c"
  obtains w where "walk_inv gs cur origin start w" "wk_visits w b = Some c"
proof
  have "walk_inv gs cur origin start (start_walk start)"
    by (simp add: walk_inv_def start_walk_def)
  then show "walk_inv gs cur origin start (walk_loop (nat steps) gs cur origin start draws (start_walk start))"
    using assms(1) by (rule walk_loop_inv)
  show "wk_visits (walk_loop (nat steps) gs cur origin start draws (start_walk start)) b = Some c"
    using assms(2) by (simp add: walk_def split: if_splits)
qed

text \<open>
  Whatever is drawn, a walk counts only nodes that are neither the user nor a node the
  user follows already, and that are at most \<open>max_depth + 1\<close> follows away from its start, one
  more than the depth the code's comment names; the count of a node is at most the number of
  nodes that follow it.
\<close>

theorem walk_visits_sound:
  assumes "\<And>i. draws_in_range (draws i)" and "walk gs cur origin start steps draws b = Some c"
    and "finite {a. (a, b) \<in> follows_edge gs}"
  shows "b \<noteq> origin \<and> b \<notin> cur \<and> (\<exists>k \<le> max_depth + 1. (start, b) \<in> follows_edge gs ^^ k) \<and>
    0 < c \<and> c \<le> card {a. (a, b) \<in> follows_edge gs}"
proof -
  obtain w where w: "walk_inv gs cur origin start w" "wk_visits w b = Some c"
    using walk_final_inv assms(1,2) by blast
  note inv = w(1) [unfolded walk_inv_def]
  have "wk_visits w b = (if b \<noteq> origin \<and> b \<notin> cur \<and> (\<exists>a. (a, b) \<in> wk_visited w)
      then Some (card {a. (a, b) \<in> wk_visited w}) else None)" using inv by blast
  with w(2) have b: "b \<noteq> origin" "b \<notin> cur" and c: "c = card {a. (a, b) \<in> wk_visited w}"
    and "\<exists>a. (a, b) \<in> wk_visited w"
    by (auto split: if_splits)
  then obtain a where a: "(a, b) \<in> wk_visited w" by blast
  with inv obtain k where "k \<le> max_depth" "(start, a) \<in> follows_edge gs ^^ k" "(a, b) \<in> follows_edge gs"
    by blast
  then have "(start, b) \<in> follows_edge gs ^^ Suc k" "Suc k \<le> max_depth + 1" by auto
  moreover have "{a. (a, b) \<in> wk_visited w} \<subseteq> {a. (a, b) \<in> follows_edge gs}" using inv by blast
  then have "c \<le> card {a. (a, b) \<in> follows_edge gs}" unfolding c using assms(3) by (rule card_mono [rotated])
  moreover have "finite (wk_visited w)" using inv by (elim conjE)
  then have "finite {a. (a, b) \<in> wk_visited w}" by (rule finite_sources)
  with a have "0 < c" unfolding c by (metis card_gt_0_iff empty_iff mem_Collect_eq)
  ultimately show ?thesis using b by blast
qed

definition sample_store :: graph_store where
  "sample_store = \<lparr>gs_nodes = [''a'' \<mapsto> [''b''], ''b'' \<mapsto> [''c'']], gs_metadata = Some [''b'' \<mapsto> 1, ''c'' \<mapsto> 1]\<rparr>"

theorem walk_visits_sound_witness:
  "walk sample_store {''b''} ''a'' ''b'' 2 (\<lambda>i k. 0) ''c'' = Some 1 \<and> ''c'' \<noteq> ''a'' \<and> ''c'' \<notin> {''b''}"
proof -
  have w: "walk sample_store {''b''} ''a'' ''b'' 2 (\<lambda>i k. 0) ''c'' = Some 1"
    by (simp add: walk_def numeral_2_eq_2 walk_step_def sample_store_def read_neighbors_def start_walk_def
        max_depth_def indegree_def Let_def)
  have "{a. (a, ''c'') \<in> follows_edge sample_store} \<subseteq> {''b''}"
    by (auto simp: follows_edge_def read_neighbors_def sample_store_def split: if_splits)
  then have "finite {a. (a, ''c'') \<in> follows_edge sample_store}" using finite_subset by blast
  with walk_visits_sound [OF _ w] w show ?thesis by (simp add: draws_in_range_def)
qed

section \<open>Ranking\<close>

lemma finite_walk:
  assumes "\<And>i. draws_in_range (draws i)"
  shows "finite (dom (walk gs cur origin start steps draws))"
proof (cases "read_neighbors gs start = []")
  case False
  let ?w = "walk_loop (nat steps) gs cur origin start draws (start_walk start)"
  have "walk_inv gs cur origin start ?w"
    by (rule walk_loop_inv [OF _ assms]) (simp add: walk_inv_def start_walk_def)
  then have "finite (wk_visited ?w)" and v: "\<forall>b. wk_visits ?w b = (if b \<noteq> origin \<and> b \<notin> cur \<and>
      (\<exists>a. (a, b) \<in> wk_visited ?w) then Some (card {a. (a, b) \<in> wk_visited ?w}) else None)"
    unfolding walk_inv_def by blast+
  moreover have "dom (wk_visits ?w) \<subseteq> snd ` wk_visited ?w" using v by (force split: if_splits)
  ultimately have "finite (dom (wk_visits ?w))" by (meson finite_imageI finite_subset)
  with False show ?thesis by (simp add: walk_def)
qed (simp add: walk_def)

lemma visited_put_walk: "visited_nodes (put_walk q v ws) \<subseteq> dom v \<union> visited_nodes ws"
  by (auto simp: visited_nodes_def put_walk_def)

lemma run_walks_visited:
  assumes "\<And>i j. draws_in_range (we_draws env i j)"
    and "finite (visited_nodes ws) \<and> (\<forall>b \<in> visited_nodes ws. b \<noteq> origin \<and> b \<notin> cur)"
  shows "finite (visited_nodes (run_walks env gs cur origin steps i ns ws)) \<and>
    (\<forall>b \<in> visited_nodes (run_walks env gs cur origin steps i ns ws). b \<noteq> origin \<and> b \<notin> cur)"
  using assms(2)
proof (induction ns arbitrary: ws i)
  case (Cons n ns)
  have fin: "finite (dom (walk gs cur origin (qn_id n) m (we_draws env i)))" for m
    by (rule finite_walk) (rule assms(1))
  have "b \<noteq> origin \<and> b \<notin> cur"
    if "walk gs cur origin (qn_id n) m (we_draws env i) b = Some c" for b m c
  proof -
    note walked = that
    obtain w where "walk_inv gs cur origin (qn_id n) w" "wk_visits w b = Some c"
      using walk_final_inv [OF assms(1) walked] by blast
    then show ?thesis unfolding walk_inv_def by (metis option.distinct(1))
  qed
  then have new: "\<forall>b \<in> dom (walk gs cur origin (qn_id n) m (we_draws env i)). b \<noteq> origin \<and> b \<notin> cur" for m
    by blast
  let ?ws = "put_walk n (walk gs cur origin (qn_id n)
      (case steps (qn_id n) of None \<Rightarrow> 0 | Some s \<Rightarrow> s) (we_draws env i)) ws"
  have "\<forall>b \<in> visited_nodes ?ws. b \<noteq> origin \<and> b \<notin> cur"
    using visited_put_walk new Cons.prems by (meson UnE subsetD)
  moreover have "finite (visited_nodes ?ws)"
    by (rule finite_subset [OF visited_put_walk]) (use fin Cons.prems in simp)
  ultimately have "finite (visited_nodes ?ws) \<and> (\<forall>b \<in> visited_nodes ?ws. b \<noteq> origin \<and> b \<notin> cur)" by blast
  from Cons.IH [OF this] show ?case by simp
qed simp

definition ranges_over_visits :: "walk_env \<Rightarrow> bool" where
  "ranges_over_visits env \<longleftrightarrow> (\<forall>ws. finite (visited_nodes ws) \<longrightarrow>
     distinct (we_range env ws) \<and> set (we_range env ws) = visited_nodes ws)"

text \<open>
  The ranked recommendations of a user never contain the user or anyone the user follows,
  contain nobody twice, and are saved as they are returned, at most a hundred of them, unless
  they come from the fallback.
\<close>

theorem recommendations_are_new:
  assumes "\<And>i j. draws_in_range (we_draws env i j)" and "ranges_over_visits env"
    and "recommend_from_following env bootstrap gs user follows = Ok (ids, Some (u, saved))"
  shows "user \<notin> set ids \<and> set ids \<inter> fl_followee ` set follows = {} \<and> distinct ids \<and> length ids \<le> 100 \<and>
    ids \<noteq> [] \<and> u = user \<and> save_result_rows user saved = map (\<lambda>i. (user, i, 1)) ids"
proof -
  obtain ranked where r: "recommend env gs user follows = Ok ranked" "ranked \<noteq> []" "u = user"
    "ids = (if length ranked > 100 then take 100 ranked else ranked)" "saved = ids" "follows \<noteq> []"
    using assms(3)
    by (cases "recommend env gs user follows")
      (auto simp: recommend_from_following_def Let_def split: if_splits option.splits)
  let ?qs = "map (\<lambda>f. \<lparr>qn_id = fl_followee f, qn_weight = follow_score (latest_follow follows) f\<rparr>) follows"
  have cur: "qn_id ` set ?qs = fl_followee ` set follows" by (simp add: image_image)
  have "walk_from env gs user ?qs = Ok ranked" "?qs \<noteq> []" using r(1,6) by (simp_all add: recommend_def)
  then obtain i steps ns where ranked: "ranked = sort_key
      (\<lambda>n. - int (total_visits (run_walks env gs (fl_followee ` set follows) user steps i ns []) n ^ 2))
      (we_range env (run_walks env gs (fl_followee ` set follows) user steps i ns []))"
    unfolding walk_from_def Let_def cur by (auto split: if_splits)
  define ws where "ws = run_walks env gs (fl_followee ` set follows) user steps i ns []"
  have ws: "ranked = sort_key (\<lambda>n. - int (total_visits ws n ^ 2)) (we_range env ws)"
    "finite (visited_nodes ws)" "\<forall>b \<in> visited_nodes ws. b \<noteq> user \<and> b \<notin> fl_followee ` set follows"
    unfolding ws_def using ranked run_walks_visited [OF assms(1), of "[]"]
    by (simp_all add: visited_nodes_def)
  have "set ranked = visited_nodes ws" "distinct ranked"
    using assms(2) ws(2) by (simp_all add: ws(1) ranges_over_visits_def)
  then have "set ids \<subseteq> visited_nodes ws" "distinct ids" "length ids \<le> 100" "ids \<noteq> []"
    using r(2,4) set_take_subset [of 100 ranked] by (auto split: if_splits)
  moreover from this have "fst (dedupe ids True) = ids"
    using dedupe_distinct [of ids True] by simp
  ultimately show ?thesis using ws(3) r(3,5) by (auto simp: save_result_rows_def)
qed

text \<open>The visited nodes of a list of walks in some fixed order, for the witness.\<close>

definition sample_walk_env :: walk_env where
  "sample_walk_env = \<lparr>we_floats = \<lparr>sf_scale = \<lambda>m n. 1, sf_share = \<lambda>w f t. 1\<rparr>, we_sample = \<lambda>ns. ns,
     we_draws = \<lambda>i j k. 0,
     we_range = \<lambda>ws. sorted_list_of_set (visited_nodes ws)\<rparr>"

theorem recommendations_are_new_witness:
  "recommend_from_following sample_walk_env None sample_store ''a'' [\<lparr>fl_follower = ''a'', fl_followee = ''b'', fl_last_updated = 5\<rparr>]
     = Ok ([''c''], Some (''a'', [''c''])) \<and> ''a'' \<notin> set [''c'']"
proof -
  let ?f = "\<lparr>fl_follower = ''a'', fl_followee = ''b'', fl_last_updated = 5\<rparr>"
  have r: "recommend_from_following sample_walk_env None sample_store ''a'' [?f]
     = Ok ([''c''], Some (''a'', [''c'']))"
    by (simp add: recommend_from_following_def recommend_def walk_from_def sample_walk_env_def
        read_metadata_def weighted_sample_def total_walks_def allocate_steps_def walk_def
        walk_step_def sample_store_def read_neighbors_def start_walk_def max_depth_def indegree_def Let_def
        put_walk_def visited_nodes_def total_visits_def)
  have "ranges_over_visits sample_walk_env" by (simp add: ranges_over_visits_def sample_walk_env_def)
  with recommendations_are_new [OF _ _ r] r show ?thesis by (simp add: sample_walk_env_def draws_in_range_def)
qed

section \<open>Scores and shuffles\<close>

text \<open>
  A follow that is more recent never weighs less, and the latest one weighs most.
\<close>

theorem follow_score_monotone:
  assumes "fl_last_updated f \<le> fl_last_updated g"
  shows "follow_score latest f \<le> follow_score latest g \<and> follow_score latest f \<in> {1, 2, 4, 8} \<and>
    (fl_last_updated g \<ge> latest \<longrightarrow> follow_score latest g = 8)"
proof -
  have m: "time_sub latest (fl_last_updated g) \<le> time_sub latest (fl_last_updated f)"
    using assms by (auto simp: time_sub_def)
  have "time_sub latest (fl_last_updated g) \<le> 0" if "fl_last_updated g \<ge> latest"
    using that by (simp add: time_sub_def)
  with m show ?thesis by (auto simp: follow_score_def Let_def one_week_def)
qed

lemma shrink_bounds:
  assumes "0 < sz" "2 \<le> len"
  shows "0 < shrink len sz \<and> shrink len sz \<le> int len"
  using assms
proof (induction len sz rule: shrink.induct)
  case (1 len sz)
  have "go_quot sz 2 = sz div 2" using 1(2) by (simp add: go_quot_def)
  with 1 show ?case by (subst (1 2) shrink.simps) auto
qed

lemma shuffle_loop_result:
  assumes "0 < sz" and mix: "\<And>i xs. mset (mix i xs) = mset xs"
  shows "\<exists>ids'. shuffle_loop mix sz i ids = Some ids' \<and> length ids' = length ids \<and> take i ids' = take i ids \<and>
    (\<forall>b. take sz (drop (i + b * sz) ids') = mix (i + b * sz) (take sz (drop (i + b * sz) ids)))"
proof (induction "length ids - i" arbitrary: i ids rule: less_induct)
  case less
  show ?case
  proof (cases "i < length ids")
    case False
    have "mix j [] = []" for j using mix [of j "[]"] by simp
    with False show ?thesis by (subst shuffle_loop.simps) simp
  next
    case True
    let ?ids = "take i ids @ mix i (take sz (drop i ids)) @ drop (i + sz) ids"
    have l: "length (mix i (take sz (drop i ids))) = length (take sz (drop i ids))"
      by (rule mset_eq_length) (rule mix)
    have len: "length ?ids = length ids" using True l by auto
    have "length ?ids - (i + sz) < length ids - i" using True assms(1) len by linarith
    from less.hyps [OF this] obtain ids' where ids': "shuffle_loop mix sz (i + sz) ?ids = Some ids'"
      "length ids' = length ?ids" "take (i + sz) ids' = take (i + sz) ?ids"
      "\<forall>b. take sz (drop (i + sz + b * sz) ids') = mix (i + sz + b * sz) (take sz (drop (i + sz + b * sz) ?ids))" by blast
    have "take i ids' = take i (take (i + sz) ids')" by simp
    also have "\<dots> = take i ids" unfolding ids'(3) using True by simp
    finally have pre: "take i ids' = take i ids" .
    have "take sz (drop i ids') = drop i (take (i + sz) ids')" by (simp add: take_drop add.commute)
    also have "\<dots> = take sz (mix i (take sz (drop i ids)))"
      unfolding ids'(3) using True l by (auto simp: take_drop add.commute)
    finally have first: "take sz (drop i ids') = mix i (take sz (drop i ids))"
      using l by simp
    have "take sz (drop (i + b * sz) ids') = mix (i + b * sz) (take sz (drop (i + b * sz) ids))" for b
    proof (cases b)
      case (Suc c)
      have "drop (i + sz + c * sz) ?ids = drop (i + sz + c * sz) ids"
        using True l by (cases "sz \<le> length ids - i") (auto simp: add.commute)
      moreover have "i + b * sz = i + sz + c * sz" using Suc by simp
      ultimately show ?thesis using ids'(4) by (simp only: )
    qed (use first in simp)
    with ids'(1,2) len pre True show ?thesis by (subst shuffle_loop.simps) auto
  qed
qed

lemma shrink_halves:
  assumes "0 < sz" "2 \<le> len"
  shows "\<exists>k. nat (shrink len sz) = nat sz div 2 ^ k \<and> (\<forall>j < k. len < nat sz div 2 ^ j)"
  using assms
proof (induction len sz rule: shrink.induct)
  case (1 len sz)
  show ?case
  proof (cases "int len < sz")
    case False
    then show ?thesis by (subst shrink.simps) (auto intro: exI [of _ 0])
  next
    case True
    have half: "go_quot sz 2 = sz div 2" using 1(2) by (simp add: go_quot_def)
    have "0 < go_quot sz 2" using True 1(3) by (simp add: half)
    from "1.IH" [OF _ this 1(3)] True 1(2) obtain k where
      k: "nat (shrink len (sz div 2)) = nat (sz div 2) div 2 ^ k" "\<forall>j < k. len < nat (sz div 2) div 2 ^ j"
      by (auto simp: half)
    have div: "nat (sz div 2) div 2 ^ j = nat sz div 2 ^ Suc j" for j
      using 1(2) by (simp add: nat_div_distrib div_mult2_eq)
    have "nat (shrink len sz) = nat sz div 2 ^ Suc k"
      using True 1(2) k(1) by (subst shrink.simps) (simp add: half div)
    moreover have "len < nat sz div 2 ^ j" if "j < Suc k" for j
      using that True k(2) by (cases j) (auto simp: div)
    ultimately show ?thesis by blast
  qed
qed

text \<open>
  Property C40. For a positive size \<^verbatim>\<open>Shuffle\<close> returns. A list of at most one id stays as it is; in
  a longer one the size is halved (rounding down) as long as it exceeds the number of ids, the
  list is cut into partitions of the resulting size, the last one possibly shorter, and each
  partition is shuffled once, so that no id leaves its partition.
\<close>

theorem shuffle_stays_in_partitions:
  assumes "0 < n" and "\<And>i xs. mset (mix i xs) = mset xs"
  shows "\<exists>ids' sz k. shuffle_ids mix ids n = Some (Ok ids') \<and> mset ids' = mset ids \<and>
    (length ids \<le> 1 \<longrightarrow> ids' = ids) \<and>
    (1 < length ids \<longrightarrow> 0 < sz \<and> sz \<le> length ids \<and> sz = nat n div 2 ^ k \<and> (\<forall>j < k. length ids < nat n div 2 ^ j) \<and>
      (\<forall>b. take sz (drop (b * sz) ids') = mix (b * sz) (take sz (drop (b * sz) ids))))"
proof (cases "length ids \<le> 1")
  case True
  then show ?thesis by (auto simp: shuffle_ids_def)
next
  case False
  let ?sz = "nat (shrink (length ids) n)"
  have sz: "0 < ?sz" "\<not> shrink (length ids) n < 0" "?sz \<le> length ids"
    using shrink_bounds [of n "length ids"] assms(1) False by auto
  obtain k where k: "?sz = nat n div 2 ^ k" "\<forall>j < k. length ids < nat n div 2 ^ j"
    using shrink_halves [of n "length ids"] assms(1) False by auto
  from shuffle_loop_result [where mix = mix, OF sz(1) assms(2), of 0 ids] obtain ids' where
    r: "shuffle_loop mix ?sz 0 ids = Some ids'" "length ids' = length ids"
    "\<forall>b. take ?sz (drop (b * ?sz) ids') = mix (b * ?sz) (take ?sz (drop (b * ?sz) ids))" by auto
  have "mset (take (b * ?sz) ids') = mset (take (b * ?sz) ids)" for b
  proof (induction b)
    case (Suc b)
    have "take (Suc b * ?sz) xs = take (b * ?sz) xs @ take ?sz (drop (b * ?sz) xs)" for xs :: "'a list"
      by (simp only: mult_Suc add.commute [of ?sz] take_add)
    with Suc r(3) assms(2) show ?case by simp
  qed simp
  from this [of "length ids"] have "mset ids' = mset ids"
    using sz(1) r(2) by (simp add: take_all)
  moreover have "shuffle_ids mix ids n = Some (Ok ids')"
    using r(1) sz(2) False by (simp add: shuffle_ids_def Let_def)
  ultimately show ?thesis
    using r(3) sz(1,3) k False by (intro exI [of _ ids'] exI [of _ ?sz] exI [of _ k]) simp
qed

theorem follow_score_monotone_witness:
  "follow_score 9000000000000000 \<lparr>fl_follower = ''a'', fl_followee = ''b'', fl_last_updated = 5\<rparr>
    \<le> follow_score 9000000000000000 \<lparr>fl_follower = ''a'', fl_followee = ''c'', fl_last_updated = 6\<rparr>"
  using follow_score_monotone [of "\<lparr>fl_follower = ''a'', fl_followee = ''b'', fl_last_updated = 5\<rparr>"
      "\<lparr>fl_follower = ''a'', fl_followee = ''c'', fl_last_updated = 6\<rparr>" 9000000000000000] by simp

theorem shuffle_stays_in_partitions_witness:
  "\<exists>ids' sz. shuffle_ids (\<lambda>i. rev) ''abcde'' 24 = Some (Ok ids') \<and> mset ids' = mset ''abcde'' \<and> 0 < sz \<and> sz \<le> 5 \<and>
     take sz ids' = rev (take sz ''abcde'')"
proof -
  obtain ids' sz where "shuffle_ids (\<lambda>i. rev) ''abcde'' 24 = Some (Ok ids')" "mset ids' = mset ''abcde''" "0 < sz" "sz \<le> 5"
    "\<forall>b. take sz (drop (b * sz) ids') = rev (take sz (drop (b * sz) ''abcde''))"
    using shuffle_stays_in_partitions [of 24 "\<lambda>i. rev" "''abcde''"] by auto
  moreover from this(5) have "take sz ids' = rev (take sz ''abcde'')" by (metis drop0 mult_0)
  ultimately show ?thesis by blast
qed

end
