(* ===== verification/GoSort.thy ===== *)
theory GoSort
  imports Main "HOL-Library.List_Lexorder" "HOL-Library.Char_ord" "HOL-Library.Product_Lexorder"
    "HOL-Library.Multiset"
begin

text \<open>
  Go's \<^verbatim>\<open>sort.SliceStable\<close> with the comparison as an argument, as the code passes it, and its
  agreement with the library's \<open>sort_key\<close> when the comparison is the order of a key. Go
  compares strings byte by byte, which is the order of List\_Lexorder on characters.
\<close>

fun insert_stable :: "('a \<Rightarrow> 'a \<Rightarrow> bool) \<Rightarrow> 'a \<Rightarrow> 'a list \<Rightarrow> 'a list" where
  "insert_stable lt x [] = [x]"
| "insert_stable lt x (y # ys) = (if lt y x then y # insert_stable lt x ys else x # y # ys)"

definition slice_stable :: "('a \<Rightarrow> 'a \<Rightarrow> bool) \<Rightarrow> 'a list \<Rightarrow> 'a list" where
  "slice_stable lt xs = foldr (insert_stable lt) xs []"

lemma slice_stable_key:
  assumes "\<And>x y. lt x y \<longleftrightarrow> f x < (f y :: 'k :: linorder)"
  shows "slice_stable lt xs = sort_key f xs"
proof -
  have "insert_stable lt x ys = insort_key f x ys" for x ys
    using assms by (induction ys) auto
  then have "insert_stable lt = insort_key f" by blast
  then show ?thesis by (simp add: slice_stable_def sort_key_def)
qed

text \<open>With distinct keys the result does not depend on the order of the input.\<close>

lemma sort_key_unique_keys:
  assumes "mset xs = mset ys" and "distinct (map f xs)"
  shows "sort_key f xs = sort_key f ys"
proof (rule map_inj_on)
  have sorted: "sort (map f zs) = map f (sort_key f zs)" for zs
    by (rule properties_for_sort) simp_all
  have "mset (sort (map f ys)) = mset (map f xs)" using assms(1) by simp
  then have "sort (map f xs) = sort (map f ys)" by (rule properties_for_sort) simp
  with sorted [of xs] sorted [of ys] show "map f (sort_key f xs) = map f (sort_key f ys)" by simp
  have "inj_on f (set xs)" using assms(2) by (simp add: distinct_map)
  moreover have "set ys = set xs" using assms(1) by (metis mset_eq_setD)
  ultimately show "inj_on f (set (sort_key f xs) \<union> set (sort_key f ys))" by simp
qed

end
