(* ===== verification/TokenUpsert.thy ===== *)
theory TokenUpsert
  imports UtilProps TokenIds GoSort
begin

text \<open>
  \<^verbatim>\<open>service/multichain/operation/operation.go\<close>: tokens, definitions and community memberships
  are sorted and turned into the columns of one bulk upsert each. The queries and the generated
  ids are the fields of \<open>upsert_env\<close>; the argument \<open>ul\<close> is \<^verbatim>\<open>strings.ToLower\<close> on strings that
  are not ASCII.
\<close>

section \<open>Rows\<close>

record token_identifiers =
  ti_token_id :: string
  ti_contract_address :: string
  ti_chain :: int

record token_row =
  tk_version :: i32
  tk_collectors_note :: string
  tk_quantity :: string
  tk_block_number :: i64
  tk_owner_user_id :: string
  tk_owned_by_wallets :: "string list"
  tk_is_creator_token :: bool
  tk_token_definition_id :: string
  tk_contract_id :: string

record upsert_token =
  ut_token :: token_row
  ut_identifiers :: token_identifiers

record fallback_media =
  fm_image_url :: string
  fm_width :: int
  fm_height :: int

record definition_row =
  df_id :: string
  df_name :: null_string
  df_description :: null_string
  df_token_type :: string
  df_token_id :: string
  df_external_url :: null_string
  df_chain :: int
  df_metadata :: json_val
  df_fallback_media :: fallback_media
  df_contract_address :: string
  df_contract_id :: string
  df_is_fxhash :: bool

record membership_row =
  mb_token_definition_id :: string
  mb_token_id :: string

record token_upsert_deletion =
  del_creator_status :: bool
  del_holder_status :: bool
  del_only_from_user_id :: "string option"
  del_only_from_contracts :: "string list"
  del_only_from_chains :: "int list"

record token_upsert_params =
  up_set_creator_fields :: bool
  up_set_holder_fields :: bool
  up_optional_delete :: "token_upsert_deletion option"

section \<open>The columns of the queries\<close>

record delete_params =
  dp_remove_creator_status :: bool
  dp_remove_holder_status :: bool
  dp_only_from_user_id :: null_string
  dp_only_from_chains :: "i32 list"
  dp_only_from_contract_ids :: "string list"
  dp_timestamp :: int

definition to_params :: "token_upsert_deletion \<Rightarrow> int \<Rightarrow> delete_params" where
  "to_params d upsert_time =
     \<lparr>dp_remove_creator_status = del_creator_status d, dp_remove_holder_status = del_holder_status d,
      dp_only_from_user_id =
        \<lparr>ns_string = (case del_only_from_user_id d of Some u \<Rightarrow> dbid_string u | None \<Rightarrow> ''''),
         ns_valid = (del_only_from_user_id d \<noteq> None)\<rparr>,
      dp_only_from_chains = map_without_error (del_only_from_chains d) word_of_int,
      dp_only_from_contract_ids = stringers_to_strings dbid_string (del_only_from_contracts d),
      dp_timestamp = upsert_time\<rparr>"

record tokens_params =
  tp_set_holder_fields :: bool
  tp_set_creator_fields :: bool
  tp_dbid :: "string list"
  tp_version :: "i32 list"
  tp_collectors_note :: "string list"
  tp_quantity :: "string list"
  tp_block_number :: "i64 list"
  tp_owner_user_id :: "string list"
  tp_owned_by_wallets :: "string list"
  tp_wallets_start_idx :: "i32 list"
  tp_wallets_end_idx :: "i32 list"
  tp_is_creator_token :: "bool list"
  tp_token_id :: "string list"
  tp_contract_address :: "string list"
  tp_chain :: "i32 list"
  tp_definition_id :: "string list"
  tp_contract_id :: "string list"

record definitions_params =
  dfp_dbid :: "string list"
  dfp_name :: "string list"
  dfp_description :: "string list"
  dfp_token_type :: "string list"
  dfp_token_id :: "string list"
  dfp_external_url :: "string list"
  dfp_chain :: "i32 list"
  dfp_fallback_media :: "string list"
  dfp_contract_address :: "string list"
  dfp_contract_id :: "string list"
  dfp_metadata :: "string list"
  dfp_is_fxhash :: "bool list"

record 'n memberships_params =
  mp_dbid :: "string list"
  mp_token_definition_id :: "string list"
  mp_token_id :: "'n list"
  mp_contract_id :: "string list"

text \<open>
  What the operations use of the database and of libraries: the queries, the time a returned
  row was synced, the JSON columns and the numeric column of a decimal token id.
\<close>

record ('d, 'm, 'n) upsert_env =
  ue_new_id :: "nat \<Rightarrow> string"
  ue_current_time :: "int outcome"
  ue_upsert_tokens :: "tokens_params \<Rightarrow> 'd list outcome"
  ue_last_synced :: "'d \<Rightarrow> int"
  ue_upsert_definitions :: "definitions_params \<Rightarrow> (definition_row \<times> bool) list outcome"
  ue_upsert_memberships :: "'n memberships_params \<Rightarrow> 'm list outcome"
  ue_media_json :: "fallback_media \<Rightarrow> string outcome"
  ue_metadata_json :: "json_val \<Rightarrow> string outcome"
  ue_numeric :: "string \<Rightarrow> 'n outcome"

section \<open>Token definitions\<close>

definition definition_before :: "definition_row \<Rightarrow> definition_row \<Rightarrow> bool" where
  "definition_before a b =
     (if df_chain a \<noteq> df_chain b then df_chain a < df_chain b
      else if df_contract_address a \<noteq> df_contract_address b then df_contract_address a < df_contract_address b
      else df_token_id a < df_token_id b)"

definition append_definition :: "(string \<Rightarrow> string) \<Rightarrow> ('d, 'm, 'n) upsert_env \<Rightarrow> string \<Rightarrow> definition_row
    \<Rightarrow> definitions_params \<Rightarrow> definitions_params outcome" where
  "append_definition ul env new_id t p =
     bind_out (ue_media_json env (df_fallback_media t)) (\<lambda>media.
       bind_out (ue_metadata_json env (df_metadata t)) (\<lambda>meta.
         Ok \<lparr>dfp_dbid = dfp_dbid p @ [new_id],
             dfp_name = dfp_name p @ [ns_string (df_name t)],
             dfp_description = dfp_description p @ [ns_string (df_description t)],
             dfp_token_type = dfp_token_type p @ [df_token_type t],
             dfp_token_id = dfp_token_id p @ [hex_string ul (df_token_id t)],
             dfp_external_url = dfp_external_url p @ [ns_string (df_external_url t)],
             dfp_chain = dfp_chain p @ [word_of_int (df_chain t)],
             dfp_fallback_media = dfp_fallback_media p @ [media],
             dfp_contract_address = dfp_contract_address p @ [df_contract_address t],
             dfp_contract_id = dfp_contract_id p @ [dbid_string (df_contract_id t)],
             dfp_metadata = dfp_metadata p @ [meta],
             dfp_is_fxhash = dfp_is_fxhash p @ [df_is_fxhash t]\<rparr>))"

fun append_definitions :: "(string \<Rightarrow> string) \<Rightarrow> ('d, 'm, 'n) upsert_env \<Rightarrow> nat \<Rightarrow> definition_row list
    \<Rightarrow> definitions_params \<Rightarrow> definitions_params outcome" where
  "append_definitions ul env i [] p = Ok p"
| "append_definitions ul env i (t # ts) p =
     bind_out (append_definition ul env (ue_new_id env i) t p) (append_definitions ul env (Suc i) ts)"

definition insert_token_definitions :: "(string \<Rightarrow> string) \<Rightarrow> ('d, 'm, 'n) upsert_env \<Rightarrow> definition_row list
    \<Rightarrow> (definition_row list \<times> bool list) outcome" where
  "insert_token_definitions ul env tokens =
     bind_out (append_definitions ul env 0 (slice_stable definition_before tokens)
         \<lparr>dfp_dbid = [], dfp_name = [], dfp_description = [], dfp_token_type = [], dfp_token_id = [],
          dfp_external_url = [], dfp_chain = [], dfp_fallback_media = [], dfp_contract_address = [],
          dfp_contract_id = [], dfp_metadata = [], dfp_is_fxhash = []\<rparr>)
       (\<lambda>p. bind_out (ue_upsert_definitions env p) (\<lambda>added. Ok (map fst added, map snd added)))"

section \<open>Community memberships\<close>

definition membership_before :: "membership_row \<Rightarrow> membership_row \<Rightarrow> bool" where
  "membership_before a b \<longleftrightarrow> mb_token_definition_id a < mb_token_definition_id b"

text \<open>The sort permutes the memberships and leaves \<open>contract_ids\<close> as they are.\<close>

fun append_memberships :: "('d, 'm, 'n) upsert_env \<Rightarrow> nat \<Rightarrow> membership_row list \<Rightarrow> string list
    \<Rightarrow> 'n memberships_params \<Rightarrow> 'n memberships_params outcome" where
  "append_memberships env i [] contract_ids p = Ok p"
| "append_memberships env i (m # ms) contract_ids p =
     bind_out (ue_numeric env (mb_token_id m)) (\<lambda>n.
       append_memberships env (Suc i) ms contract_ids
         \<lparr>mp_dbid = mp_dbid p @ [ue_new_id env i],
          mp_token_definition_id = mp_token_definition_id p @ [dbid_string (mb_token_definition_id m)],
          mp_token_id = mp_token_id p @ [n],
          mp_contract_id = mp_contract_id p @ [dbid_string (contract_ids ! i)]\<rparr>)"

definition insert_token_community_memberships :: "('d, 'm, 'n) upsert_env \<Rightarrow> membership_row list \<Rightarrow> string list
    \<Rightarrow> 'm list outcome" where
  "insert_token_community_memberships env memberships contract_ids =
     (if length memberships \<noteq> length contract_ids
      then Panic (PanicText (''len of memberships and contractIDs must be equal; expected '' @
        itoa (int (length memberships)) @ ''; got '' @ itoa (int (length contract_ids)) @ '';''))
      else bind_out (append_memberships env 0 (slice_stable membership_before memberships) contract_ids
          \<lparr>mp_dbid = [], mp_token_definition_id = [], mp_token_id = [], mp_contract_id = []\<rparr>)
        (ue_upsert_memberships env))"

section \<open>Tokens\<close>

definition exclude_zero_quantity_tokens :: "upsert_token list \<Rightarrow> upsert_token list" where
  "exclude_zero_quantity_tokens tokens =
     fst (util_filter tokens (\<lambda>t. \<not> (tk_quantity (ut_token t) = '''' \<or> tk_quantity (ut_token t) = ''0'')) False)"

definition token_before :: "upsert_token \<Rightarrow> upsert_token \<Rightarrow> bool" where
  "token_before a b =
     (if tk_owner_user_id (ut_token a) \<noteq> tk_owner_user_id (ut_token b)
      then tk_owner_user_id (ut_token a) < tk_owner_user_id (ut_token b)
      else if ti_chain (ut_identifiers a) \<noteq> ti_chain (ut_identifiers b)
      then ti_chain (ut_identifiers a) < ti_chain (ut_identifiers b)
      else if ti_contract_address (ut_identifiers a) \<noteq> ti_contract_address (ut_identifiers b)
      then ti_contract_address (ut_identifiers a) < ti_contract_address (ut_identifiers b)
      else ti_token_id (ut_identifiers a) < ti_token_id (ut_identifiers b))"

text \<open>Postgres indexes arrays from 1.\<close>

definition append_indices :: "i32 list \<times> i32 list \<Rightarrow> nat \<Rightarrow> i32 list \<times> i32 list" where
  "append_indices idx entry_length =
     (case idx of (starts, ends) \<Rightarrow>
        let start = (if length ends > 0 then ends ! (length ends - 1) + 1 else 1) in
        (starts @ [start], ends @ [start + word_of_nat entry_length - 1]))"

definition append_dbid_list :: "string list \<Rightarrow> string list \<Rightarrow> i32 list \<times> i32 list
    \<Rightarrow> string list \<times> i32 list \<times> i32 list" where
  "append_dbid_list dest src idx = (dest @ map dbid_string src, append_indices idx (length src))"

definition append_token :: "(string \<Rightarrow> string) \<Rightarrow> string \<Rightarrow> upsert_token \<Rightarrow> tokens_params \<Rightarrow> tokens_params" where
  "append_token ul new_id ut p =
     (let t = ut_token ut; tid = ut_identifiers ut in
      case append_dbid_list (tp_owned_by_wallets p) (tk_owned_by_wallets t)
          (tp_wallets_start_idx p, tp_wallets_end_idx p) of
        (wallets, starts, ends) \<Rightarrow>
          p\<lparr>tp_dbid := tp_dbid p @ [new_id],
            tp_version := tp_version p @ [tk_version t],
            tp_collectors_note := tp_collectors_note p @ [tk_collectors_note t],
            tp_token_id := tp_token_id p @ [hex_string ul (ti_token_id tid)],
            tp_quantity := tp_quantity p @ [hexstr_string ul (tk_quantity t)],
            tp_block_number := tp_block_number p @ [tk_block_number t],
            tp_owner_user_id := tp_owner_user_id p @ [dbid_string (tk_owner_user_id t)],
            tp_owned_by_wallets := wallets,
            tp_wallets_start_idx := starts,
            tp_wallets_end_idx := ends,
            tp_chain := tp_chain p @ [word_of_int (ti_chain tid)],
            tp_contract_address := tp_contract_address p @ [ti_contract_address tid],
            tp_is_creator_token := tp_is_creator_token p @ [tk_is_creator_token t],
            tp_definition_id := tp_definition_id p @ [dbid_string (tk_token_definition_id t)],
            tp_contract_id := tp_contract_id p @ [dbid_string (tk_contract_id t)]\<rparr>)"

fun append_tokens :: "(string \<Rightarrow> string) \<Rightarrow> (nat \<Rightarrow> string) \<Rightarrow> nat \<Rightarrow> upsert_token list \<Rightarrow> tokens_params \<Rightarrow> tokens_params" where
  "append_tokens ul new_id i [] p = p"
| "append_tokens ul new_id i (t # ts) p = append_tokens ul new_id (Suc i) ts (append_token ul (new_id i) t p)"

definition tokens_params_of :: "(string \<Rightarrow> string) \<Rightarrow> (nat \<Rightarrow> string) \<Rightarrow> token_upsert_params \<Rightarrow> upsert_token list
    \<Rightarrow> tokens_params" where
  "tokens_params_of ul new_id opt tokens = append_tokens ul new_id 0 (slice_stable token_before tokens)
     \<lparr>tp_set_holder_fields = up_set_holder_fields opt, tp_set_creator_fields = up_set_creator_fields opt,
      tp_dbid = [], tp_version = [], tp_collectors_note = [], tp_quantity = [], tp_block_number = [],
      tp_owner_user_id = [], tp_owned_by_wallets = [], tp_wallets_start_idx = [], tp_wallets_end_idx = [],
      tp_is_creator_token = [], tp_token_id = [], tp_contract_address = [], tp_chain = [],
      tp_definition_id = [], tp_contract_id = []\<rparr>"

definition insert_tokens :: "(string \<Rightarrow> string) \<Rightarrow> ('d, 'm, 'n) upsert_env \<Rightarrow> upsert_token list \<Rightarrow> token_upsert_params
    \<Rightarrow> (int \<times> 'd list) outcome" where
  "insert_tokens ul env all_tokens opt =
     (let tokens = exclude_zero_quantity_tokens all_tokens in
      if tokens = [] then map_ok (\<lambda>now. (now, [])) (ue_current_time env)
      else bind_out (ue_upsert_tokens env (tokens_params_of ul (ue_new_id env) opt tokens)) (\<lambda>added.
        if added = [] then map_ok (\<lambda>now. (now, [])) (ue_current_time env)
        else Ok (ue_last_synced env (added ! 0), added)))"

end
