(* ===== verification/TokenUpsertProps.thy ===== *)
theory TokenUpsertProps
  imports TokenUpsert
begin

text \<open>
  What the bulk upserts send: sorted and aligned columns, the wallets of every token as a slice
  of one array, and the pairs of definitions and contracts of the memberships.
\<close>

section \<open>Sorting\<close>

definition token_key :: "upsert_token \<Rightarrow> string \<times> int \<times> string \<times> string" where
  "token_key t = (tk_owner_user_id (ut_token t), ti_chain (ut_identifiers t),
     ti_contract_address (ut_identifiers t), ti_token_id (ut_identifiers t))"

lemma sort_tokens: "slice_stable token_before tokens = sort_key token_key tokens"
  by (rule slice_stable_key) (auto simp: token_before_def token_key_def less_prod_def')

lemma sort_memberships: "slice_stable membership_before ms = sort_key mb_token_definition_id ms"
  by (rule slice_stable_key) (simp add: membership_before_def)

lemma exclude_zero_filter:
  "exclude_zero_quantity_tokens tokens = filter (\<lambda>t. tk_quantity (ut_token t) \<notin> {'''', ''0''}) tokens"
  by (simp add: exclude_zero_quantity_tokens_def util_filter_result)

lemma map_dbid_string [simp]: "map dbid_string ids = ids"
  by (induction ids) (simp_all add: dbid_string_def)

section \<open>The columns\<close>

text \<open>The wallets of all tokens in one array, and where those of the \<open>i\<close>th token lie.\<close>

abbreviation wallets_of :: "upsert_token \<Rightarrow> string list" where
  "wallets_of t \<equiv> tk_owned_by_wallets (ut_token t)"

definition wallet_offset :: "upsert_token list \<Rightarrow> nat \<Rightarrow> nat" where
  "wallet_offset ts i = sum_list (map (\<lambda>t. length (wallets_of t)) (take i ts))"

lemma wallet_offset_simps [simp]:
  "wallet_offset ts 0 = 0"
  "wallet_offset (t # ts) (Suc i) = length (wallets_of t) + wallet_offset ts i"
  by (simp_all add: wallet_offset_def)

definition indices_inv :: "tokens_params \<Rightarrow> bool" where
  "indices_inv p \<longleftrightarrow> length (tp_wallets_start_idx p) = length (tp_wallets_end_idx p) \<and>
     (if tp_wallets_end_idx p = [] then tp_owned_by_wallets p = []
      else last (tp_wallets_end_idx p) = word_of_nat (length (tp_owned_by_wallets p)))"

lemma append_token_indices:
  assumes "indices_inv p"
  shows "indices_inv (append_token ul i t p)"
    and "tp_wallets_start_idx (append_token ul i t p)
      = tp_wallets_start_idx p @ [word_of_nat (length (tp_owned_by_wallets p)) + 1]"
    and "tp_wallets_end_idx (append_token ul i t p)
      = tp_wallets_end_idx p @ [word_of_nat (length (tp_owned_by_wallets p) + length (wallets_of t))]"
    and "tp_owned_by_wallets (append_token ul i t p) = tp_owned_by_wallets p @ wallets_of t"
  using assms
  by (auto simp: indices_inv_def append_token_def append_dbid_list_def append_indices_def Let_def
      last_conv_nth dbid_string_def split: if_splits)

lemma append_tokens_indices:
  assumes "indices_inv p"
  shows "tp_wallets_start_idx (append_tokens ul ids i ts p) = tp_wallets_start_idx p @
      map (\<lambda>j. word_of_nat (length (tp_owned_by_wallets p) + wallet_offset ts j) + 1) [0..<length ts] \<and>
    tp_wallets_end_idx (append_tokens ul ids i ts p) = tp_wallets_end_idx p @
      map (\<lambda>j. word_of_nat (length (tp_owned_by_wallets p) + wallet_offset ts (Suc j))) [0..<length ts] \<and>
    tp_owned_by_wallets (append_tokens ul ids i ts p)
      = tp_owned_by_wallets p @ concat (map wallets_of ts)"
  using assms
proof (induction ts arbitrary: i p)
  case (Cons t ts)
  note step = append_token_indices [OF Cons.prems, of ul "ids i" t]
  have "map f [0..<Suc (length ts)] = f 0 # map (\<lambda>j. f (Suc j)) [0..<length ts]" for f :: "nat \<Rightarrow> i32"
    by (simp only: map_upt_Suc)
  then show ?case using Cons.IH [OF step(1)] step(2-4) by (simp add: add.assoc del: upt_Suc)
qed simp

text \<open>The other columns: one entry per token, in the same order.\<close>

lemma append_tokens_columns:
  "tp_owner_user_id (append_tokens ul ids i ts p) = tp_owner_user_id p @ map (\<lambda>t. tk_owner_user_id (ut_token t)) ts"
  "tp_chain (append_tokens ul ids i ts p) = tp_chain p @ map (\<lambda>t. word_of_int (ti_chain (ut_identifiers t))) ts"
  "tp_contract_address (append_tokens ul ids i ts p)
    = tp_contract_address p @ map (\<lambda>t. ti_contract_address (ut_identifiers t)) ts"
  "tp_token_id (append_tokens ul ids i ts p)
    = tp_token_id p @ map (\<lambda>t. hex_string ul (ti_token_id (ut_identifiers t))) ts"
  "tp_quantity (append_tokens ul ids i ts p) = tp_quantity p @ map (\<lambda>t. hexstr_string ul (tk_quantity (ut_token t))) ts"
  "tp_is_creator_token (append_tokens ul ids i ts p)
    = tp_is_creator_token p @ map (\<lambda>t. tk_is_creator_token (ut_token t)) ts"
  "tp_definition_id (append_tokens ul ids i ts p)
    = tp_definition_id p @ map (\<lambda>t. tk_token_definition_id (ut_token t)) ts"
  "tp_contract_id (append_tokens ul ids i ts p) = tp_contract_id p @ map (\<lambda>t. tk_contract_id (ut_token t)) ts"
  "tp_dbid (append_tokens ul ids i ts p) = tp_dbid p @ map ids [i..<i + length ts]"
  by (induction ts arbitrary: i p)
    (simp_all add: append_token_def append_dbid_list_def append_indices_def dbid_string_def Let_def
      upt_conv_Cons del: upt_Suc)

section \<open>Properties of the upsert of tokens\<close>

text \<open>A slice of a Postgres array, with both ends included and counted from 1.\<close>

definition pg_slice :: "'a list \<Rightarrow> i32 \<Rightarrow> i32 \<Rightarrow> 'a list" where
  "pg_slice xs lo hi = take (nat (sint hi - sint lo + 1)) (drop (nat (sint lo) - 1) xs)"

lemma concat_slice:
  "i < length ts \<Longrightarrow> take (length (wallets_of (ts ! i))) (drop (wallet_offset ts i) (concat (map wallets_of ts)))
     = wallets_of (ts ! i)"
  by (induction ts arbitrary: i) (auto simp: nth_Cons' wallet_offset_def take_Cons' split: nat.splits)

lemma wallet_offset_Suc:
  "i < length ts \<Longrightarrow> wallet_offset ts (Suc i) = wallet_offset ts i + length (wallets_of (ts ! i))"
  by (simp add: wallet_offset_def take_Suc_conv_app_nth)

lemma wallet_offset_bound:
  "wallet_offset ts i \<le> sum_list (map (\<lambda>t. length (wallets_of t)) ts)"
proof -
  have "sum_list (map f ts) = sum_list (map f (take i ts)) + sum_list (map f (drop i ts))"
    for f :: "upsert_token \<Rightarrow> nat"
    by (metis append_take_drop_id map_append sum_list_append)
  then show ?thesis by (simp add: wallet_offset_def)
qed

lemma sint_word_of_nat: "n < 2 ^ 31 \<Longrightarrow> sint (word_of_nat n :: i32) = int n"
  by (simp add: signed_of_nat signed_take_bit_int_eq_self)

text \<open>
  The wallets of every token survive the flattening into one array: the slice between the two
  indices of a row, as the query takes it, holds the wallets of the token of that row. The
  total number of wallets has to stay below \<open>2 ^ 31 - 1\<close>, because the indices are 32-bit.
\<close>

theorem wallet_slices_roundtrip:
  assumes "sum_list (map (\<lambda>t. length (wallets_of t)) tokens) < 2 ^ 31 - 1" and "i < length tokens"
  shows "pg_slice (tp_owned_by_wallets (tokens_params_of ul ids opt tokens))
      (tp_wallets_start_idx (tokens_params_of ul ids opt tokens) ! i)
      (tp_wallets_end_idx (tokens_params_of ul ids opt tokens) ! i)
    = wallets_of (sort_key token_key tokens ! i)"
proof -
  define ts where "ts = sort_key token_key tokens"
  let ?p = "tokens_params_of ul ids opt tokens"
  have p: "tp_owned_by_wallets ?p = concat (map wallets_of ts)"
    "tp_wallets_start_idx ?p = map (\<lambda>j. word_of_nat (wallet_offset ts j) + 1) [0..<length ts]"
    "tp_wallets_end_idx ?p = map (\<lambda>j. word_of_nat (wallet_offset ts (Suc j))) [0..<length ts]"
    unfolding tokens_params_of_def sort_tokens ts_def [symmetric]
    by (subst append_tokens_indices, simp add: indices_inv_def, simp)+
  have "mset ts = mset tokens" by (simp add: ts_def)
  then have total: "sum_list (map (\<lambda>t. length (wallets_of t)) ts) < 2 ^ 31 - 1"
    using assms(1) by (metis mset_map sum_mset_sum_list)
  have len: "i < length ts" using assms(2) by (simp add: ts_def)
  have "wallet_offset ts (Suc i) < 2 ^ 31" "wallet_offset ts i + 1 < 2 ^ 31"
    using total wallet_offset_bound [of ts "Suc i"] wallet_offset_bound [of ts i] by linarith+
  then have "sint (word_of_nat (wallet_offset ts (Suc i)) :: i32) = int (wallet_offset ts (Suc i))"
    "sint (word_of_nat (wallet_offset ts i) + 1 :: i32) = int (wallet_offset ts i + 1)"
    using sint_word_of_nat [of "wallet_offset ts i + 1"] by (simp_all add: sint_word_of_nat add.commute)
  then have "pg_slice (tp_owned_by_wallets ?p) (tp_wallets_start_idx ?p ! i) (tp_wallets_end_idx ?p ! i)
      = take (length (wallets_of (ts ! i))) (drop (wallet_offset ts i) (concat (map wallets_of ts)))"
    using len by (simp add: p pg_slice_def wallet_offset_Suc nat_add_distrib)
  then show ?thesis using concat_slice [OF len] by (simp add: ts_def)
qed

text \<open>
  Property C34. Every batch is written in one order: two calls with the same tokens, in whatever order, send
  the same query, as long as no two tokens agree in owner, chain, contract and token id.
\<close>

theorem insert_tokens_order_independent:
  assumes "mset tokens = mset tokens'" and "distinct (map token_key (exclude_zero_quantity_tokens tokens))"
  shows "insert_tokens ul env tokens opt = insert_tokens ul env tokens' opt"
proof -
  have m: "mset (exclude_zero_quantity_tokens tokens) = mset (exclude_zero_quantity_tokens tokens')"
    using assms(1) by (simp add: exclude_zero_filter)
  then have "exclude_zero_quantity_tokens tokens = [] \<longleftrightarrow> exclude_zero_quantity_tokens tokens' = []"
    by (metis mset_zero_iff)
  with sort_key_unique_keys [OF m assms(2)] show ?thesis
    by (simp add: insert_tokens_def Let_def tokens_params_of_def sort_tokens)
qed

definition sample_token :: "string \<Rightarrow> string \<Rightarrow> string list \<Rightarrow> upsert_token" where
  "sample_token owner tid wallets =
     \<lparr>ut_token = \<lparr>tk_version = 0, tk_collectors_note = '''', tk_quantity = ''1'', tk_block_number = 0,
        tk_owner_user_id = owner, tk_owned_by_wallets = wallets, tk_is_creator_token = False,
        tk_token_definition_id = '''', tk_contract_id = ''''\<rparr>,
      ut_identifiers = \<lparr>ti_token_id = tid, ti_contract_address = ''c'', ti_chain = 0\<rparr>\<rparr>"

definition holder_upsert :: token_upsert_params where
  "holder_upsert = \<lparr>up_set_creator_fields = False, up_set_holder_fields = True, up_optional_delete = None\<rparr>"

lemma sample_keys:
  "sort_key token_key [sample_token ''b'' ''1'' [''w3''], sample_token ''a'' ''1'' [''w1'', ''w2'']]
     = [sample_token ''a'' ''1'' [''w1'', ''w2''], sample_token ''b'' ''1'' [''w3'']]"
  "token_key (sample_token u t ws) = (u, 0, ''c'', t)"
  by (simp_all add: token_key_def sample_token_def)

theorem wallet_slices_roundtrip_witness:
  "pg_slice
     (tp_owned_by_wallets (tokens_params_of id (\<lambda>i. ''id'') holder_upsert
       [sample_token ''b'' ''1'' [''w3''], sample_token ''a'' ''1'' [''w1'', ''w2'']]))
     (tp_wallets_start_idx (tokens_params_of id (\<lambda>i. ''id'') holder_upsert
       [sample_token ''b'' ''1'' [''w3''], sample_token ''a'' ''1'' [''w1'', ''w2'']]) ! 0)
     (tp_wallets_end_idx (tokens_params_of id (\<lambda>i. ''id'') holder_upsert
       [sample_token ''b'' ''1'' [''w3''], sample_token ''a'' ''1'' [''w1'', ''w2'']]) ! 0)
   = [''w1'', ''w2'']"
  using wallet_slices_roundtrip [of "[sample_token ''b'' ''1'' [''w3''], sample_token ''a'' ''1'' [''w1'', ''w2'']]" 0
      id "\<lambda>i. ''id''" holder_upsert]
  unfolding sample_keys(1)
  by (simp add: sample_token_def)

text \<open>For the witnesses: a database that gives back what it is sent.\<close>

definition echo_env :: "(tokens_params, string \<times> string, string) upsert_env" where
  "echo_env = \<lparr>ue_new_id = \<lambda>i. itoa (int i), ue_current_time = Ok 0, ue_upsert_tokens = \<lambda>p. Ok [p],
     ue_last_synced = \<lambda>d. 7, ue_upsert_definitions = \<lambda>p. Ok [],
     ue_upsert_memberships = \<lambda>p. Ok (zip (mp_token_definition_id p) (mp_contract_id p)),
     ue_media_json = \<lambda>m. Ok ''null'', ue_metadata_json = \<lambda>m. Ok ''null'', ue_numeric = Ok\<rparr>"

theorem insert_tokens_order_independent_witness:
  "insert_tokens id echo_env [sample_token ''b'' ''1'' [''w3''], sample_token ''a'' ''1'' []] holder_upsert
     = insert_tokens id echo_env [sample_token ''a'' ''1'' [], sample_token ''b'' ''1'' [''w3'']] holder_upsert"
  by (rule insert_tokens_order_independent)
    (simp_all add: exclude_zero_filter sample_keys sample_token_def [of _ _ "_ :: string list"] token_key_def)

section \<open>Community memberships\<close>

lemma append_memberships_columns:
  assumes "\<forall>m \<in> set ms. is_ok (ue_numeric env (mb_token_id m))" and "i + length ms = length cids"
  shows "\<exists>ns. append_memberships env i ms cids p = Ok
    \<lparr>mp_dbid = mp_dbid p @ map (ue_new_id env) [i..<length cids],
     mp_token_definition_id = mp_token_definition_id p @ map mb_token_definition_id ms,
     mp_token_id = mp_token_id p @ ns, mp_contract_id = mp_contract_id p @ drop i cids\<rparr>"
  using assms
proof (induction ms arbitrary: i p)
  case (Cons m ms)
  obtain n where n: "ue_numeric env (mb_token_id m) = Ok n" using Cons.prems(1) by (auto simp: is_ok_iff)
  let ?p = "\<lparr>mp_dbid = mp_dbid p @ [ue_new_id env i],
     mp_token_definition_id = mp_token_definition_id p @ [dbid_string (mb_token_definition_id m)],
     mp_token_id = mp_token_id p @ [n], mp_contract_id = mp_contract_id p @ [dbid_string (cids ! i)]\<rparr>"
  have i: "i < length cids" using Cons.prems(2) by simp
  from Cons.IH [of "Suc i" ?p] Cons.prems n i show ?case
    by (auto simp: dbid_string_def Cons_nth_drop_Suc upt_conv_Cons simp del: upt_Suc)
qed (simp add: exI [of _ "[]"])

lemma zip_set_eq_iff:
  assumes "length bs = length as" "length cs = length as" "distinct as"
  shows "set (zip as bs) = set (zip as cs) \<longleftrightarrow> bs = cs"
proof
  assume eq: "set (zip as bs) = set (zip as cs)"
  show "bs = cs"
  proof (rule nth_equalityI)
    fix i assume i: "i < length bs"
    with assms have "(as ! i, bs ! i) \<in> set (zip as cs)"
      using eq by (metis in_set_zip fst_conv snd_conv)
    then obtain j where "j < length as" "as ! j = as ! i" "cs ! j = bs ! i"
      using assms by (auto simp: in_set_zip)
    then show "bs ! i = cs ! i" using assms i by (metis nth_eq_iff_index_eq)
  qed (simp add: assms)
qed simp

text \<open>The contracts, carried along when the definitions are sorted by their ids.\<close>

definition sorted_along :: "string list \<Rightarrow> string list \<Rightarrow> string list" where
  "sorted_along ids cids = map snd (sort_key fst (zip ids cids))"

lemma sorted_along_pairs:
  assumes "length ids = length cids"
  shows "set (zip (sort ids) (sorted_along ids cids)) = set (zip ids cids)" and "length (sorted_along ids cids) = length cids"
proof -
  let ?z = "sort_key fst (zip ids cids)"
  have "mset (map fst ?z) = mset (map fst (zip ids cids))" by (simp only: mset_map mset_sort)
  then have "sort ids = map fst ?z" using assms by (intro properties_for_sort) simp_all
  then have "zip (sort ids) (sorted_along ids cids) = ?z" by (simp add: sorted_along_def zip_map_fst_snd)
  then show "set (zip (sort ids) (sorted_along ids cids)) = set (zip ids cids)" by simp
  show "length (sorted_along ids cids) = length cids" using assms by (simp add: sorted_along_def)
qed

lemma sorted_along_sorted: "length ids = length cids \<Longrightarrow> sorted ids \<Longrightarrow> sorted_along ids cids = cids"
  by (simp add: sorted_along_def sort_key_id_if_sorted)

text \<open>
  Property C36. The memberships of a batch of different definitions are sorted by definition id, the
  contract ids passed beside them, which the query reads by the same index, are not. So the query
  relates each definition to the contract it was passed with exactly when the contracts, had they
  been carried along with that sort, would have come out in the order in which they were passed;
  as they do when the definitions came in sorted order, or all with one contract.
\<close>

theorem memberships_keep_contracts_iff_sorted:
  assumes "length ms = length cids" and "distinct (map mb_token_definition_id ms)"
    and "\<forall>m \<in> set ms. is_ok (ue_numeric env (mb_token_id m))"
  shows "\<exists>p. insert_token_community_memberships env ms cids = ue_upsert_memberships env p \<and>
    mp_token_definition_id p = sort (map mb_token_definition_id ms) \<and> mp_contract_id p = cids \<and>
    (set (zip (mp_token_definition_id p) (mp_contract_id p)) = set (zip (map mb_token_definition_id ms) cids)
      \<longleftrightarrow> sorted_along (map mb_token_definition_id ms) cids = cids)"
proof -
  let ?s = "sort_key mb_token_definition_id ms" and ?ids = "map mb_token_definition_id ms"
  let ?e = "\<lparr>mp_dbid = [], mp_token_definition_id = [], mp_token_id = [], mp_contract_id = []\<rparr>"
  from append_memberships_columns [of ?s env 0 cids ?e] assms(1,3) obtain p where
    p: "append_memberships env 0 ?s cids ?e = Ok p"
    "mp_token_definition_id p = map mb_token_definition_id ?s" "mp_contract_id p = cids" by auto
  have ids: "map mb_token_definition_id ?s = sort ?ids"
    by (rule sym, rule properties_for_sort) simp_all
  have "length ?ids = length cids" using assms(1) by simp
  note along = sorted_along_pairs [OF this]
  have "set (zip (sort ?ids) cids) = set (zip ?ids cids) \<longleftrightarrow> cids = sorted_along ?ids cids"
    unfolding along(1) [symmetric] using assms(1,2) along(2) by (intro zip_set_eq_iff) simp_all
  with p show ?thesis
    using assms(1)
    by (intro exI [of _ p]) (auto simp: insert_token_community_memberships_def sort_memberships ids)
qed

text \<open>Three definitions, two of one contract, and two swapped ones.\<close>

theorem memberships_keep_contracts_iff_sorted_witness:
  "insert_token_community_memberships echo_env
     [\<lparr>mb_token_definition_id = ''d2'', mb_token_id = ''1''\<rparr>, \<lparr>mb_token_definition_id = ''d1'', mb_token_id = ''1''\<rparr>,
      \<lparr>mb_token_definition_id = ''d3'', mb_token_id = ''1''\<rparr>]
     [''c2'', ''c1'', ''c1'']
   = Ok [(''d1'', ''c2''), (''d2'', ''c1''), (''d3'', ''c1'')] \<and>
   sorted_along [''d2'', ''d1'', ''d3''] [''c2'', ''c1'', ''c1''] \<noteq> [''c2'', ''c1'', ''c1'']"
  using memberships_keep_contracts_iff_sorted
    [of "[\<lparr>mb_token_definition_id = ''d2'', mb_token_id = ''1''\<rparr>, \<lparr>mb_token_definition_id = ''d1'', mb_token_id = ''1''\<rparr>,
        \<lparr>mb_token_definition_id = ''d3'', mb_token_id = ''1''\<rparr>]"
      "[''c2'', ''c1'', ''c1'']" echo_env]
  by (auto simp: echo_env_def sorted_along_def)

end
