(* ===== verification/MediaUrls.thy ===== *)
theory MediaUrls
  imports UtilProps MediaTypes
begin

text \<open>
  \<^verbatim>\<open>service/media/media.go\<close> and \<^verbatim>\<open>service/rpc/arweave\<close>: which URLs of a token's metadata hold
  its image and its animation, and the media type behind a URL. The requests for headers, the
  completion order of concurrent requests and the library's content sniffing are arguments;
  \<open>ef\<close> is \<^verbatim>\<open>strings.EqualFold\<close> and \<open>lower\<close> is \<^verbatim>\<open>strings.ToLower\<close>.
\<close>

section \<open>Content types\<close>

definition raw_format_to_media_type :: "string \<Rightarrow> media_type" where
  "raw_format_to_media_type format =
     (if format \<in> set [''jpeg'', ''png'', ''image'', ''jpg'', ''webp''] then ''image''
      else if format = ''gif'' then ''gif''
      else if format \<in> set [''video'', ''mp4'', ''quicktime''] then ''video''
      else if format \<in> set [''audio'', ''mp3'', ''wav''] then ''audio''
      else if format = ''pdf'' then ''pdf''
      else if format \<in> set [''html'', ''iframe''] then ''html''
      else if format \<in> set [''svg'', ''svg+xml''] then ''svg''
      else ''unknown'')"

definition postfixes_to_media_types :: "string \<Rightarrow> (media_type \<times> string) option" where
  "postfixes_to_media_types = map_of
     [(''jpg'', ''image'', ''image/jpeg''), (''jpeg'', ''image'', ''image/jpeg''), (''png'', ''image'', ''image/png''),
      (''webp'', ''image'', ''image/webp''), (''gif'', ''gif'', ''image/gif''), (''mp4'', ''video'', ''video/mp4''),
      (''webm'', ''video'', ''video/webm''), (''glb'', ''animation'', ''model/gltf-binary''),
      (''gltf'', ''animation'', ''model/gltf+json''), (''svg'', ''image'', ''image/svg+xml''),
      (''pdf'', ''pdf'', ''application/pdf''), (''html'', ''html'', ''text/html'')]"

definition cut_at :: "char \<Rightarrow> string \<Rightarrow> string" where
  "cut_at c s = (case find_index (\<lambda>x. x = c) s of None \<Rightarrow> s | Some i \<Rightarrow> take i s)"

definition media_from_content_type :: "string \<Rightarrow> media_type" where
  "media_from_content_type content_type =
     (let splt = str_split (cut_at CHR '';'' (trim_space content_type)) ''/'';
          typ = splt ! 0;
          sub_type = (if length splt = 2 then splt ! 1 else '''')
      in if typ = ''image''
         then (if sub_type \<in> set [''svg'', ''svg+xml''] then ''svg''
               else if sub_type = ''gif'' then ''gif'' else ''image'')
         else if typ = ''video'' then ''video''
         else if typ = ''audio'' then ''audio''
         else if typ = ''text'' then (if sub_type = ''html'' then ''html'' else ''text'')
         else if typ = ''application'' \<and> sub_type = ''pdf'' then ''pdf''
         else ''unknown'')"

definition gltf_fields :: "string list" where
  "gltf_fields = [''scene'', ''scenes'', ''nodes'', ''meshes'', ''accessors'', ''bufferViews'', ''buffers'',
     ''materials'', ''textures'', ''images'', ''samplers'', ''cameras'', ''skins'', ''animations'',
     ''extensions'', ''extras'']"

text \<open>
  \<open>buf\<close> is the slice and \<open>spare\<close> what its array holds behind it: slicing may reach up to the
  capacity. \<open>is_svg\<close> says whether the XML parser finds an svg element, \<open>detected\<close> is the
  answer of \<^verbatim>\<open>http.DetectContentType\<close>.
\<close>

definition slice_to :: "nat \<Rightarrow> string \<Rightarrow> string \<Rightarrow> string outcome" where
  "slice_to n buf spare =
     (if n \<le> length buf + length spare then Ok (take n (buf @ spare)) else Panic SliceBounds)"

definition sniff_media_type :: "(string \<Rightarrow> string \<Rightarrow> bool) \<Rightarrow> bool \<Rightarrow> string \<Rightarrow> string \<Rightarrow> string
    \<Rightarrow> (media_type \<times> string) outcome" where
  "sniff_media_type ef is_svg detected buf spare =
     (if is_svg then Ok (''svg'', ''image/svg+xml'')
      else (let content_type = cut_at CHR '';'' (trim_space detected) in
        if content_type = ''application/octet-stream'' \<or> content_type = ''text/plain''
        then bind_out (slice_to 4 buf spare) (\<lambda>head.
               if ef head ''glTF'' then Ok (''animation'', ''model/gltf+binary'')
               else bind_out (slice_to 20 buf spare) (\<lambda>start.
                 if has_prefix (trim_space start) ''{'' \<and> contains_any_string (trim_space buf) gltf_fields
                 then Ok (''animation'', ''model/gltf+json'')
                 else Ok (media_from_content_type content_type, content_type)))
        else Ok (media_from_content_type content_type, content_type)))"

section \<open>URLs in the metadata of a token\<close>

definition search_depth :: int where
  "search_depth = 5"

text \<open>The text of a JSON string; other values fail the type assertion.\<close>

definition json_string :: "json_val \<Rightarrow> string option" where
  "json_string v = (case v of JStr s \<Rightarrow> Some s | _ \<Rightarrow> None)"

definition json_field :: "(string \<times> json_val) list \<Rightarrow> string \<Rightarrow> json_val" where
  "json_field m k = (case map_of m k of Some v \<Rightarrow> v | None \<Rightarrow> JNull)"

definition meta_media :: "(string \<times> json_val) list \<Rightarrow> string \<times> string" where
  "meta_media metadata =
     (case json_field metadata ''media'' of
        JObj m \<Rightarrow>
          (let media_type = (case json_string (json_field m ''mimeType'') of
                 Some mime \<Rightarrow> media_from_content_type mime | None \<Rightarrow> '''') in
           case json_string (json_field m ''uri'') of
             Some uri \<Rightarrow> (if media_type \<in> set [''image'', ''svg'', ''gif''] then (uri, '''') else ('''', uri))
           | None \<Rightarrow> ('''', ''''))
      | _ \<Rightarrow> ('''', ''''))"

fun keyword_url :: "(string \<Rightarrow> json_val) \<Rightarrow> (string \<Rightarrow> bool) \<Rightarrow> string list \<Rightarrow> (string \<times> string) option" where
  "keyword_url get ok [] = None"
| "keyword_url get ok (k # ks) =
     (case json_string (get k) of
        Some it \<Rightarrow> if ok it then Some (k, it) else keyword_url get ok ks
      | None \<Rightarrow> keyword_url get ok ks)"

definition err_no_media_urls :: gerror where
  "err_no_media_urls = ErrText ''no media URLs found in metadata''"

text \<open>The image keyword, image URL, animation keyword and animation URL.\<close>

definition find_media_urls_keys :: "(string \<Rightarrow> string \<Rightarrow> bool) \<Rightarrow> (string \<Rightarrow> string) \<Rightarrow> (string \<times> json_val) list
    \<Rightarrow> string list \<Rightarrow> string list \<Rightarrow> (string \<times> string \<times> string \<times> string) outcome" where
  "find_media_urls_keys ef lower metadata img_keywords anim_keywords =
     (let (img0, anim0) = meta_media metadata;
          get = (\<lambda>k. get_value_from_map_unsafe ef lower metadata k search_depth);
          (img_key, img) = (case keyword_url get (\<lambda>it. it \<noteq> '''') img_keywords of
             Some r \<Rightarrow> r | None \<Rightarrow> ('''', img0));
          (anim_key, anim) = (case keyword_url get (\<lambda>it. it \<noteq> '''' \<and> it \<noteq> anim0) anim_keywords of
             Some r \<Rightarrow> r | None \<Rightarrow> ('''', anim0))
      in if img = '''' \<and> anim = '''' then Err err_no_media_urls else Ok (img_key, img, anim_key, anim))"

definition find_media_urls :: "(string \<Rightarrow> string \<Rightarrow> bool) \<Rightarrow> (string \<Rightarrow> string) \<Rightarrow> (string \<times> json_val) list
    \<Rightarrow> string list \<Rightarrow> string list \<Rightarrow> (string \<times> string) outcome" where
  "find_media_urls ef lower metadata img_keywords anim_keywords =
     map_ok (\<lambda>(_, img, _, anim). (img, anim)) (find_media_urls_keys ef lower metadata img_keywords anim_keywords)"

definition find_media_urls_chain :: "(string \<Rightarrow> string \<Rightarrow> bool) \<Rightarrow> (string \<Rightarrow> string) \<Rightarrow> (string \<times> json_val) list
    \<Rightarrow> chain \<Rightarrow> (string \<times> string) outcome" where
  "find_media_urls_chain ef lower metadata c =
     (case chain_base_keywords c of (imgs, anims) \<Rightarrow> find_media_urls ef lower metadata imgs anims)"

definition find_media_urls_keys_chain :: "(string \<Rightarrow> string \<Rightarrow> bool) \<Rightarrow> (string \<Rightarrow> string) \<Rightarrow> (string \<times> json_val) list
    \<Rightarrow> chain \<Rightarrow> (string \<times> string \<times> string \<times> string) outcome" where
  "find_media_urls_keys_chain ef lower metadata c =
     (case chain_base_keywords c of (imgs, anims) \<Rightarrow> find_media_urls_keys ef lower metadata imgs anims)"

section \<open>The media type behind a URL\<close>

record http_header =
  hh_content_type :: string
  hh_content_length :: string

definition parse_content_type :: "http_header \<Rightarrow> string" where
  "parse_content_type h = cut_at CHR '';'' (trim_space (hh_content_type h))"

definition parse_content_length :: "(string \<Rightarrow> gerror) \<Rightarrow> http_header \<Rightarrow> int outcome" where
  "parse_content_length atoi_error h =
     (if hh_content_length h \<noteq> ''''
      then (case atoi (hh_content_length h) of
              Some n \<Rightarrow> Ok n
            | None \<Rightarrow> Err (atoi_error (hh_content_length h)))
      else Ok 0)"

text \<open>\<^verbatim>\<open>FirstNonErrorWithValue\<close> on the outcomes in the order in which they arrive.\<close>

fun first_non_error :: "(gerror list \<Rightarrow> gerror) \<Rightarrow> (gerror \<Rightarrow> bool) \<Rightarrow> gerror list \<Rightarrow> 'a outcome list \<Rightarrow> 'a outcome" where
  "first_non_error join return_on_error errs [] = Err (join errs)"
| "first_non_error join return_on_error errs (Ok v # rs) = Ok v"
| "first_non_error join return_on_error errs (Err e # rs) =
     (if return_on_error e then Err e else first_non_error join return_on_error (errs @ [e]) rs)"
| "first_non_error join return_on_error errs (Panic p # rs) = Panic p"

definition is_arweave_url :: "string \<Rightarrow> bool" where
  "is_arweave_url u \<longleftrightarrow> has_prefix u ''ar://'' \<or> has_prefix u ''arweave://''"

definition arweave_uri_from :: "string \<Rightarrow> string" where
  "arweave_uri_from u = trim_prefix (trim_prefix (trim_space u) ''arweave://'') ''ar://''"

definition arweave_default_gateway_from :: "string \<Rightarrow> string" where
  "arweave_default_gateway_from u = ''https://arweave.net/'' @ arweave_uri_from u"

definition best_gateway_node_from :: "string \<Rightarrow> string" where
  "best_gateway_node_from u = (if is_arweave_url u then arweave_default_gateway_from u else u)"

record media_env =
  me_ipfs_header :: "string \<Rightarrow> http_header outcome"
  me_http_header :: "string \<Rightarrow> http_header outcome"
  me_atoi_error :: "string \<Rightarrow> gerror"
  me_join :: "gerror list \<Rightarrow> gerror"
  me_not_found :: "gerror \<Rightarrow> bool"
  me_http_first :: "string \<Rightarrow> bool"

text \<open>
  The media type, content type and length that a header gives; \<open>me_http_first\<close> says which of
  the two concurrent requests for a gateway URL ends first.
\<close>

definition header_prediction :: "media_env \<Rightarrow> http_header \<Rightarrow> (media_type \<times> string \<times> int option) outcome" where
  "header_prediction env h =
     bind_out (parse_content_length (me_atoi_error env) h) (\<lambda>n.
       Ok (media_from_content_type (parse_content_type h), parse_content_type h, Some n))"

definition predict_media_type :: "media_env \<Rightarrow> string \<Rightarrow> (media_type \<times> string \<times> int option) outcome" where
  "predict_media_type env url =
     (let spl = str_split url ''.'';
          known = (if length spl > 1
            then postfixes_to_media_types (str_split (last spl) ''?'' ! 0) else None)
      in case known of
        Some (mt, ct) \<Rightarrow> Ok (mt, ct, None)
      | None \<Rightarrow>
          (let uri_type = token_uri_type url; mt = uri_to_media_type uri_type in
           if media_is_valid mt then Ok (mt, media_to_content_type mt, Some (int (length url)))
           else if uri_type = ''ipfs''
           then bind_out (me_ipfs_header env (trim_prefix url ''ipfs://'')) (header_prediction env)
           else if uri_type = ''ipfs-gateway''
           then (let by_ipfs = bind_out (me_ipfs_header env (get_uri_path url False)) (header_prediction env);
                     by_http = bind_out (me_http_header env url) (header_prediction env)
                 in first_non_error (me_join env) (me_not_found env) []
                      (if me_http_first env url then [by_http, by_ipfs] else [by_ipfs, by_http]))
           else if uri_type = ''arweave''
           then bind_out (me_http_header env (best_gateway_node_from url)) (header_prediction env)
           else if uri_type \<in> set [''http'', ''ipfs-api'', ''arweave-gateway'']
           then bind_out (me_http_header env url) (header_prediction env)
           else Ok (''unknown'', '''', None)))"

definition predict_true_urls :: "media_env \<Rightarrow> string \<Rightarrow> string \<Rightarrow> (string \<times> string) outcome" where
  "predict_true_urls env cur_img cur_v =
     (case predict_media_type env cur_img of
        Ok (img_type, _) \<Rightarrow>
          (case predict_media_type env cur_v of
             Ok (v_type, _) \<Rightarrow>
               if media_is_animation_like img_type \<and> \<not> media_is_animation_like v_type then Ok (cur_v, cur_img)
               else if \<not> media_is_valid img_type \<or> \<not> media_is_valid v_type then Ok (cur_img, cur_v)
               else if media_is_more_priority_than img_type v_type then Ok (cur_v, cur_img)
               else Ok (cur_img, cur_v)
           | Err e \<Rightarrow> Ok (cur_img, cur_v)
           | Panic p \<Rightarrow> Panic p)
      | Err e \<Rightarrow> Ok (cur_img, cur_v)
      | Panic p \<Rightarrow> Panic p)"

definition predict_media_urls :: "(string \<Rightarrow> string \<Rightarrow> bool) \<Rightarrow> (string \<Rightarrow> string) \<Rightarrow> media_env
    \<Rightarrow> (string \<times> json_val) list \<Rightarrow> string list \<Rightarrow> string list \<Rightarrow> (string \<times> string) outcome" where
  "predict_media_urls ef lower env metadata img_keywords anim_keywords =
     bind_out (find_media_urls ef lower metadata img_keywords anim_keywords)
       (\<lambda>(img, anim). predict_true_urls env img anim)"

end
