(* ===== verification/MediaUrlsProps.thy ===== *)
theory MediaUrlsProps
  imports MediaUrls
begin

text \<open>Which URLs are chosen, and which of two URLs becomes the animation.\<close>

text \<open>
  The keyword and text a search has to choose: the first keyword with a usable text, or the given
  text without a keyword when there is none.
\<close>

definition chosen_url :: "(string \<Rightarrow> json_val) \<Rightarrow> (string \<Rightarrow> bool) \<Rightarrow> string list \<Rightarrow> string \<Rightarrow> string \<times> string \<Rightarrow> bool" where
  "chosen_url get ok ks d r \<longleftrightarrow>
     (\<exists>pre post it. ks = pre @ fst r # post \<and> r = (fst r, it) \<and> json_string (get (fst r)) = Some it \<and> ok it \<and>
        (\<forall>k \<in> set pre. \<forall>it'. json_string (get k) = Some it' \<longrightarrow> \<not> ok it')) \<or>
     r = ('''', d) \<and> (\<forall>k \<in> set ks. \<forall>it. json_string (get k) = Some it \<longrightarrow> \<not> ok it)"

lemma chosen_url_Cons:
  assumes unusable: "\<forall>it. json_string (get k) = Some it \<longrightarrow> \<not> ok it" and "chosen_url get ok ks d r"
  shows "chosen_url get ok (k # ks) d r"
proof -
  from assms(2) consider
    (found) pre post it where "ks = pre @ fst r # post" "r = (fst r, it)" "json_string (get (fst r)) = Some it" "ok it"
      "\<forall>k \<in> set pre. \<forall>it'. json_string (get k) = Some it' \<longrightarrow> \<not> ok it'"
  | (none) "r = ('''', d)" "\<forall>k \<in> set ks. \<forall>it. json_string (get k) = Some it \<longrightarrow> \<not> ok it"
    unfolding chosen_url_def by blast
  then show ?thesis
  proof cases
    case found
    then have "k # ks = (k # pre) @ fst r # post"
      "\<forall>x \<in> set (k # pre). \<forall>it'. json_string (get x) = Some it' \<longrightarrow> \<not> ok it'" using unusable by simp_all
    with found(2-4) show ?thesis unfolding chosen_url_def by blast
  next
    case none
    with unusable show ?thesis unfolding chosen_url_def by simp
  qed
qed

lemma keyword_url_chosen:
  "chosen_url get ok ks d (case keyword_url get ok ks of Some r \<Rightarrow> r | None \<Rightarrow> ('''', d))"
proof (induction ks)
  case (Cons k ks)
  show ?case
  proof (cases "\<exists>it. json_string (get k) = Some it \<and> ok it")
    case True
    then obtain it where it: "json_string (get k) = Some it" "ok it" by blast
    then have "k # ks = [] @ k # ks" "\<forall>k' \<in> set []. \<forall>it'. json_string (get k') = Some it' \<longrightarrow> \<not> ok it'" by simp_all
    with it have "chosen_url get ok (k # ks) d (k, it)" unfolding chosen_url_def fst_conv by blast
    then show ?thesis using it by simp
  next
    case False
    then have "keyword_url get ok (k # ks) = keyword_url get ok ks" by (auto split: option.split)
    then show ?thesis using False chosen_url_Cons [OF _ Cons.IH] by auto
  qed
qed (simp add: chosen_url_def)

lemma priority_animation_like:
  assumes "media_is_animation_like a" and "\<not> media_is_animation_like b"
  shows "media_priority a \<le> media_priority b"
proof -
  have "media_priority a \<le> 3"
    using assms(1) by (auto simp: media_is_animation_like_def media_priority_def media_type_priorities_def)
  moreover have "4 \<le> media_priority b"
    using assms(2) by (auto simp: media_is_animation_like_def media_priority_def media_type_priorities_def)
  ultimately show ?thesis by simp
qed

text \<open>
  When both media types are known, the URL that \<^verbatim>\<open>predictTrueURLs\<close> returns as the animation has
  the type with the higher priority, the two URLs are the given ones, and an unknown or invalid
  type leaves them as they were unless the image is the only animation.
\<close>

theorem predicted_animation_has_priority:
  assumes "predict_media_type env img = Ok (img_type, x)" and "predict_media_type env v = Ok (v_type, y)"
    and "media_is_valid img_type" and "media_is_valid v_type"
  shows "\<exists>a b ta tb xa xb. predict_true_urls env img v = Ok (a, b) \<and> (a, b) \<in> {(img, v), (v, img)} \<and>
    predict_media_type env a = Ok (ta, xa) \<and> predict_media_type env b = Ok (tb, xb) \<and>
    media_priority tb \<le> media_priority ta"
proof -
  have more: "media_is_more_priority_than m o' \<longleftrightarrow> media_priority m \<le> media_priority o'" for m o'
    by (simp add: media_is_more_priority_than_def more_priority_loop_iff media_priority_def)
  show ?thesis
    using assms priority_animation_like [of img_type v_type]
    by (auto simp: predict_true_urls_def more)
qed

definition offline_env :: media_env where
  "offline_env = \<lparr>me_ipfs_header = \<lambda>u. Err IoEOF, me_http_header = \<lambda>u. Err IoEOF,
     me_atoi_error = \<lambda>s. IoEOF, me_join = \<lambda>es. IoEOF, me_not_found = \<lambda>e. False, me_http_first = \<lambda>u. False\<rparr>"

theorem predicted_animation_has_priority_witness:
  "\<exists>a b. predict_true_urls offline_env ''x.mp4'' ''y.png'' = Ok (a, b) \<and> (a, b) \<in> {(''x.mp4'', ''y.png''), (''y.png'', ''x.mp4'')}"
proof -
  have p: "predict_media_type offline_env ''x.mp4'' = Ok (''video'', ''video/mp4'', None)"
    "predict_media_type offline_env ''y.png'' = Ok (''image'', ''image/png'', None)" by code_simp+
  have v: "media_is_valid ''video''" "media_is_valid ''image''" by (simp_all add: media_is_valid_def)
  from predicted_animation_has_priority [OF p v] show ?thesis by blast
qed

text \<open>
  Property C35. The image is the text of the first image keyword that has a non-empty one, the animation the
  first non-empty text of an animation keyword that differs from the URI of the media object; without such
  a keyword they are what the media object gives. The search fails exactly when both are empty.
\<close>

theorem media_urls_first_keyword:
  "\<exists>ik img ak anim.
    chosen_url (\<lambda>k. get_value_from_map_unsafe ef lower metadata k search_depth) (\<lambda>it. it \<noteq> '''') imgs
      (fst (meta_media metadata)) (ik, img) \<and>
    chosen_url (\<lambda>k. get_value_from_map_unsafe ef lower metadata k search_depth)
      (\<lambda>it. it \<noteq> '''' \<and> it \<noteq> snd (meta_media metadata)) anims (snd (meta_media metadata)) (ak, anim) \<and>
    find_media_urls_keys ef lower metadata imgs anims =
      (if img = '''' \<and> anim = '''' then Err err_no_media_urls else Ok (ik, img, ak, anim))"
proof -
  let ?get = "\<lambda>k. get_value_from_map_unsafe ef lower metadata k search_depth"
  let ?i = "case keyword_url ?get (\<lambda>it. it \<noteq> '''') imgs of
    Some r \<Rightarrow> r | None \<Rightarrow> ('''', fst (meta_media metadata))"
  let ?a = "case keyword_url ?get (\<lambda>it. it \<noteq> '''' \<and> it \<noteq> snd (meta_media metadata)) anims of
    Some r \<Rightarrow> r | None \<Rightarrow> ('''', snd (meta_media metadata))"
  obtain ik img where i: "?i = (ik, img)" by (rule prod.exhaust)
  obtain ak anim where a: "?a = (ak, anim)" by (rule prod.exhaust)
  note r = i a
  have "find_media_urls_keys ef lower metadata imgs anims =
      (if img = '''' \<and> anim = '''' then Err err_no_media_urls else Ok (ik, img, ak, anim))"
    unfolding find_media_urls_keys_def Let_def split_beta r by simp
  moreover have "chosen_url ?get (\<lambda>it. it \<noteq> '''') imgs (fst (meta_media metadata)) (ik, img)"
    unfolding r(1) [symmetric] by (rule keyword_url_chosen)
  moreover have "chosen_url ?get (\<lambda>it. it \<noteq> '''' \<and> it \<noteq> snd (meta_media metadata)) anims
      (snd (meta_media metadata)) (ak, anim)"
    unfolding r(2) [symmetric] by (rule keyword_url_chosen)
  ultimately show ?thesis by blast
qed

end
