(* ===== verification/Platform.thy ===== *)
theory Platform
  imports MediaUrls TokenUpsert Wallets
begin

text \<open>
  \<^verbatim>\<open>platform/platform.go\<close>: contracts and platforms the code treats specially. \<open>ul\<close> is
  \<^verbatim>\<open>strings.ToLower\<close> on strings that are not ASCII.
\<close>

record contract_identifiers =
  ci_contract_address :: string
  ci_chain :: chain

definition new_contract_identifiers :: "string \<Rightarrow> chain \<Rightarrow> contract_identifiers" where
  "new_contract_identifiers address c = \<lparr>ci_contract_address = address, ci_chain = c\<rparr>"

text \<open>A contract, with the columns of \<^verbatim>\<open>db.Contract\<close> the sync reads or writes.\<close>

record contract_row =
  co_id :: string
  co_name :: null_string
  co_symbol :: null_string
  co_address :: string
  co_creator_address :: string
  co_chain :: chain
  co_profile_image_url :: null_string
  co_description :: null_string
  co_owner_address :: string
  co_is_provider_marked_spam :: bool
  co_override_creator_user_id :: string
  co_l1_chain :: chain

definition prohibition_contract :: contract_identifiers where
  "prohibition_contract = new_contract_identifiers ''0x47a91457a3a1f700097199fd63c039c4784384ab'' chain_arbitrum"

definition ens_contract :: contract_identifiers where
  "ens_contract = new_contract_identifiers ''0x57f1887a8bf19b14fc0df6fd9b2acc9af147ea85'' chain_eth"

definition fxhash_tezos_contracts :: "contract_identifiers list" where
  "fxhash_tezos_contracts = map (\<lambda>a. new_contract_identifiers a chain_tezos)
     [''KT1KEa8z6vWXDJrVqtMrAeDVzsvxat3kHaCE'', ''KT1U6EHmNxJTkvaWJ4ThczG4FSDaHC21ssvi'',
      ''KT1EfsNuqwLAWDd3o4pvfUx1CAh5GMdTrRvr'', ''KT1GtbuswcNMGhHF2TSuH1Yfaqn16do8Qtva'']"

definition hic_et_nunc_contracts :: "contract_identifiers list" where
  "hic_et_nunc_contracts = map (\<lambda>a. new_contract_identifiers a chain_tezos)
     [''KT1RJ6PbjHpwc3M5rw5s2Nbmefwbuwbdxton'', ''KT19xbD2xn6A81an18S35oKtnkFNr9CVwY5m'']"

definition grails_contracts :: "contract_identifiers list" where
  "grails_contracts = map (\<lambda>a. new_contract_identifiers a chain_eth)
     [''0xb6329bd2741c4e5e91e26c4e653db643e74b2b19'', ''0xd78afb925a21f87fa0e35abae2aead3f70ced96b'',
      ''0x503a3039e9ce236e9a12e4008aecbb1fd8b384a3'', ''0x069eeda3395242bd0d382e3ec5738704569b8885'',
      ''0x92a50fe6ede411bd26e171b97472e24d245349b8'']"

definition is_ens :: "chain \<Rightarrow> string \<Rightarrow> bool" where
  "is_ens c address \<longleftrightarrow> new_contract_identifiers address c = ens_contract"

definition is_prohibition :: "chain \<Rightarrow> string \<Rightarrow> bool" where
  "is_prohibition c address \<longleftrightarrow> new_contract_identifiers address c = prohibition_contract"

definition is_hic_et_nunc :: "chain \<Rightarrow> string \<Rightarrow> bool" where
  "is_hic_et_nunc c address \<longleftrightarrow> contains_elem hic_et_nunc_contracts (new_contract_identifiers address c)"

definition is_fxhash_tezos :: "chain \<Rightarrow> string \<Rightarrow> bool" where
  "is_fxhash_tezos c address \<longleftrightarrow>
     c = chain_tezos \<and> contains_elem fxhash_tezos_contracts (new_contract_identifiers address c)"

definition is_fxhash_eth :: "(string \<Rightarrow> string) \<Rightarrow> chain \<Rightarrow> string \<Rightarrow> bool outcome" where
  "is_fxhash_eth ul c contract_symbol =
     bind_out (l1_chain c) (\<lambda>lc. bind_out (l1_chain chain_eth) (\<lambda>le.
       Ok (lc = le \<and> to_lower ul contract_symbol = ''fxgen'')))"

definition is_fxhash :: "(string \<Rightarrow> string) \<Rightarrow> contract_row \<Rightarrow> bool outcome" where
  "is_fxhash ul c =
     (if is_fxhash_tezos (co_chain c) (co_address c) then Ok True
      else is_fxhash_eth ul (co_chain c) (ns_string (co_symbol c)))"

definition is_fxhash_signed_tezos :: "(string \<Rightarrow> string) \<Rightarrow> chain \<Rightarrow> string \<Rightarrow> string \<Rightarrow> bool" where
  "is_fxhash_signed_tezos ul c address token_name \<longleftrightarrow>
     \<not> is_fxhash_tezos c address \<or> to_lower ul token_name \<noteq> ''[waiting to be signed]''"

definition is_fxhash_signed_eth :: "(string \<Rightarrow> string) \<Rightarrow> chain \<Rightarrow> string \<Rightarrow> (string \<times> json_val) list \<Rightarrow> bool outcome" where
  "is_fxhash_signed_eth ul c contract_symbol metadata =
     bind_out (is_fxhash_eth ul c contract_symbol) (\<lambda>fx.
       Ok (\<not> fx \<or> json_field metadata ''authenticityHash'' \<notin> {JStr '''', JNull}))"

definition is_fxhash_signed :: "(string \<Rightarrow> string) \<Rightarrow> definition_row \<Rightarrow> contract_row \<Rightarrow> (string \<times> json_val) list
    \<Rightarrow> bool outcome" where
  "is_fxhash_signed ul td c m =
     (if df_is_fxhash td then Ok True
      else if df_chain td = chain_tezos
      then Ok (is_fxhash_signed_tezos ul (df_chain td) (df_contract_address td) (ns_string (df_name td)))
      else if df_chain td = chain_eth then is_fxhash_signed_eth ul (df_chain td) (ns_string (co_symbol c)) m
      else Ok True)"

definition is_grails :: "chain \<Rightarrow> string \<Rightarrow> string \<Rightarrow> bool" where
  "is_grails c address symbol =
     (if contains_elem grails_contracts (new_contract_identifiers address c) then True
      else if \<not> has_prefix symbol ''GRAILS'' then False
      else (let season = trim_prefix symbol ''GRAILS'' in
            if season \<noteq> trim_prefix season ''0'' then False
            else if atoi season = None then False
            else c = chain_eth))"

definition keywords_for :: "definition_row \<Rightarrow> string list \<times> string list" where
  "keywords_for td =
     (case chain_base_keywords (df_chain td) of (img, anim) \<Rightarrow>
        if is_hic_et_nunc (df_chain td) (df_contract_address td)
        then ([''displayUri'', ''artifactUri'', ''image''] @ img, anim)
        else if df_is_fxhash td
        then ([''displayUri'', ''artifactUri'', ''image'', ''thumbnailUri'', ''uri''] @ img,
              [''artifactUri'', ''displayUri''] @ anim)
        else (img, anim))"

section \<open>Signed fxhash tokens\<close>

text \<open>
  The check for fxhash tokens that still wait to be signed never finds one: a definition is
  marked as fxhash exactly when its contract is, and a marked definition counts as signed
  whatever its name and metadata say.
\<close>

theorem fxhash_always_signed:
  assumes "is_fxhash ul c = Ok (df_is_fxhash td)"
    and "df_chain td = co_chain c" and "df_contract_address td = co_address c"
  shows "is_fxhash_signed ul td c m = Ok True"
  using assms
  by (auto simp: is_fxhash_signed_def is_fxhash_def is_fxhash_signed_tezos_def is_fxhash_signed_eth_def
      is_fxhash_eth_def split: if_splits)

definition sample_contract :: "chain \<Rightarrow> string \<Rightarrow> contract_row" where
  "sample_contract c address = \<lparr>co_id = ''co'', co_name = to_null_string '''' True, co_symbol = to_null_string '''' True,
     co_address = address, co_creator_address = '''', co_chain = c, co_profile_image_url = to_null_string '''' True,
     co_description = to_null_string '''' True, co_owner_address = '''', co_is_provider_marked_spam = False,
     co_override_creator_user_id = '''', co_l1_chain = c\<rparr>"

definition sample_definition :: "chain \<Rightarrow> string \<Rightarrow> string \<Rightarrow> bool \<Rightarrow> definition_row" where
  "sample_definition c address name fxhash = \<lparr>df_id = ''df'', df_name = to_null_string name True,
     df_description = to_null_string '''' True, df_token_type = ''ERC-721'', df_token_id = ''1'',
     df_external_url = to_null_string '''' True, df_chain = c, df_metadata = JNull,
     df_fallback_media = \<lparr>fm_image_url = '''', fm_width = 0, fm_height = 0\<rparr>,
     df_contract_address = address, df_contract_id = ''co'', df_is_fxhash = fxhash\<rparr>"

theorem fxhash_always_signed_witness:
  "is_fxhash_signed id (sample_definition chain_tezos ''KT1KEa8z6vWXDJrVqtMrAeDVzsvxat3kHaCE'' ''[WAITING TO BE SIGNED]'' True)
     (sample_contract chain_tezos ''KT1KEa8z6vWXDJrVqtMrAeDVzsvxat3kHaCE'') [] = Ok True"
proof (rule fxhash_always_signed)
  show "is_fxhash id (sample_contract chain_tezos ''KT1KEa8z6vWXDJrVqtMrAeDVzsvxat3kHaCE'')
    = Ok (df_is_fxhash (sample_definition chain_tezos ''KT1KEa8z6vWXDJrVqtMrAeDVzsvxat3kHaCE'' ''[WAITING TO BE SIGNED]'' True))"
    by code_simp
qed (simp_all add: sample_contract_def sample_definition_def)

end
