(* ===== verification/TokenSync.thy ===== *)
theory TokenSync
  imports Platform "HOL-Library.AList"
begin

text \<open>
  The core of \<^verbatim>\<open>service/multichain/multichain.go\<close>: the wallets of a user on a chain, the
  definitions, tokens and contracts that are made of what a provider returns, and the upserts of
  a batch of users. A Go map is an association list in the order in which its keys were
  first stored; \<open>order\<close> is the order in which a loop over it visits its entries. \<open>ul\<close> is
  \<^verbatim>\<open>strings.ToLower\<close> on strings that are not ASCII, \<open>ef\<close> is \<^verbatim>\<open>strings.EqualFold\<close>.
\<close>

section \<open>What providers return\<close>

record chain_token =
  ct_name :: string
  ct_description :: string
  ct_token_type :: string
  ct_token_id :: string
  ct_quantity :: string
  ct_owner_address :: string
  ct_metadata :: json_val
  ct_contract_address :: string
  ct_fallback_media :: fallback_media
  ct_external_url :: string
  ct_block_number :: u64

record chain_contract =
  ch_symbol :: string
  ch_name :: string
  ch_description :: string
  ch_profile_image_url :: string
  ch_owner_address :: string
  ch_address :: string
  ch_is_spam :: "bool option"

record wallet =
  wa_id :: string
  wa_address :: string
  wa_chain :: chain
  wa_l1_chain :: chain

record sync_user =
  us_id :: string
  us_wallets :: "wallet list"

section \<open>Wallets\<close>

definition al_list :: "('k \<times> 'v list) list \<Rightarrow> 'k \<Rightarrow> 'v list" where
  "al_list m k = (case map_of m k of Some vs \<Rightarrow> vs | None \<Rightarrow> [])"

definition al_append :: "'k \<Rightarrow> 'v \<Rightarrow> ('k \<times> 'v list) list \<Rightarrow> ('k \<times> 'v list) list" where
  "al_append k v m = AList.update k (al_list m k @ [v]) m"

fun match_wallets :: "(chain list \<Rightarrow> chain list) \<Rightarrow> chain \<Rightarrow> wallet list \<Rightarrow> (chain \<times> string list) list
    \<Rightarrow> (chain \<times> string list) list outcome" where
  "match_wallets order c [] matches = Ok matches"
| "match_wallets order c (w # ws) matches =
     (if wa_chain w = c then match_wallets order c ws (al_append c (wa_address w) matches)
      else bind_out (l1_chain_group order c) (\<lambda>overrides.
        if contains_elem overrides (wa_chain w) then match_wallets order c ws (al_append c (wa_address w) matches)
        else match_wallets order c ws matches))"

fun match_chains :: "(chain list \<Rightarrow> chain list) \<Rightarrow> wallet list \<Rightarrow> chain list \<Rightarrow> (chain \<times> string list) list
    \<Rightarrow> (chain \<times> string list) list outcome" where
  "match_chains order wallets [] matches = Ok matches"
| "match_chains order wallets (c # cs) matches =
     bind_out (match_wallets order c wallets matches) (match_chains order wallets cs)"

definition matching_wallets :: "(chain list \<Rightarrow> chain list) \<Rightarrow> wallet list \<Rightarrow> chain list
    \<Rightarrow> (chain \<times> string list) list outcome" where
  "matching_wallets order wallets cs =
     map_ok (map (\<lambda>(c, addresses). (c, fst (dedupe addresses True)))) (match_chains order wallets cs [])"

definition matching_wallets_chain :: "(chain list \<Rightarrow> chain list) \<Rightarrow> wallet list \<Rightarrow> chain \<Rightarrow> string list outcome" where
  "matching_wallets_chain order wallets c = map_ok (\<lambda>m. al_list m c) (matching_wallets order wallets [c])"

section \<open>Token definitions\<close>

definition new_token_identifiers :: "(string \<Rightarrow> string) \<Rightarrow> string \<Rightarrow> string \<Rightarrow> chain \<Rightarrow> token_identifiers outcome" where
  "new_token_identifiers ul contract_address token_id c =
     map_ok (\<lambda>n. \<lparr>ti_token_id = int_text 16 n, ti_contract_address = contract_address, ti_chain = c\<rparr>)
       (hex_big_int ul token_id)"

definition json_fields :: "json_val \<Rightarrow> (string \<times> json_val) list" where
  "json_fields v = (case v of JObj m \<Rightarrow> m | _ \<Rightarrow> [])"

definition zero_media :: fallback_media where
  "zero_media = \<lparr>fm_image_url = '''', fm_width = 0, fm_height = 0\<rparr>"

definition media_servable :: "fallback_media \<Rightarrow> bool" where
  "media_servable m \<longleftrightarrow> fm_image_url m \<noteq> ''''"

definition token_to_token_definition :: "(string \<Rightarrow> string) \<Rightarrow> chain_token \<Rightarrow> contract_row \<Rightarrow> definition_row outcome" where
  "token_to_token_definition ul t c =
     map_ok (\<lambda>fx. \<lparr>df_id = '''', df_name = to_null_string (ct_name t) True,
         df_description = to_null_string (ct_description t) True, df_token_type = ct_token_type t,
         df_token_id = ct_token_id t, df_external_url = to_null_string (ct_external_url t) True,
         df_chain = co_chain c, df_metadata = ct_metadata t, df_fallback_media = ct_fallback_media t,
         df_contract_address = chain_normalize_address ul (co_chain c) (ct_contract_address t),
         df_contract_id = co_id c, df_is_fxhash = fx\<rparr>) (is_fxhash ul c)"

definition merge_null_strings :: "null_string \<Rightarrow> null_string \<Rightarrow> null_string" where
  "merge_null_strings a b = to_null_string (first_non_empty_string [ns_string a, ns_string b]) True"

definition merge_token_definitions :: "(string \<Rightarrow> string \<Rightarrow> bool) \<Rightarrow> (string \<Rightarrow> string) \<Rightarrow> definition_row \<Rightarrow> definition_row
    \<Rightarrow> definition_row" where
  "merge_token_definitions ef ul a b =
     a\<lparr>df_name := merge_null_strings (df_name a) (df_name b),
       df_description := merge_null_strings (df_description a) (df_description b),
       df_external_url := merge_null_strings (df_external_url a) (df_external_url b),
       df_fallback_media := fst (find_first zero_media [df_fallback_media a, df_fallback_media b] media_servable),
       df_is_fxhash := (df_is_fxhash a \<or> df_is_fxhash b),
       df_metadata := fst (find_first JNull [df_metadata a, df_metadata b]
         (\<lambda>m. is_ok (find_media_urls_chain ef (to_lower ul) (json_fields m) (df_chain a))))\<rparr>"

definition contracts_by_chain_address :: "(string \<Rightarrow> string) \<Rightarrow> contract_row list
    \<Rightarrow> (chain_address \<rightharpoonup> contract_row) outcome" where
  "contracts_by_chain_address ul existing =
     map_ok (\<lambda>cas. fold (\<lambda>(ca, c) m. m(ca \<mapsto> c)) (zip cas existing) Map.empty)
       (map_out (\<lambda>c. new_chain_address ul (co_address c) (co_chain c)) existing)"

fun add_definitions :: "(string \<Rightarrow> string \<Rightarrow> bool) \<Rightarrow> (string \<Rightarrow> string) \<Rightarrow> chain \<Rightarrow> (chain_address \<rightharpoonup> contract_row)
    \<Rightarrow> chain_token list \<Rightarrow> (token_identifiers \<times> definition_row) list
    \<Rightarrow> (token_identifiers \<times> definition_row) list outcome" where
  "add_definitions ef ul c contracts [] result = Ok result"
| "add_definitions ef ul c contracts (t # ts) result =
     (let normalized = chain_normalize_address ul c (ct_contract_address t) in
      bind_out (new_token_identifiers ul normalized (ct_token_id t) c) (\<lambda>ti.
        bind_out (new_chain_address ul normalized c) (\<lambda>ca.
          case contracts ca of
            None \<Rightarrow> Panic (PanicText (''contract '' @ chain_address_string ca @ '' should have already been inserted''))
          | Some co \<Rightarrow>
              bind_out (token_to_token_definition ul t co) (\<lambda>new.
                add_definitions ef ul c contracts ts
                  (AList.update ti (case map_of result ti of
                     None \<Rightarrow> new | Some old \<Rightarrow> merge_token_definitions ef ul old new) result)))))"

definition chain_tokens_to_definitions :: "(string \<Rightarrow> string \<Rightarrow> bool) \<Rightarrow> (string \<Rightarrow> string)
    \<Rightarrow> ((token_identifiers \<times> definition_row) list \<Rightarrow> (token_identifiers \<times> definition_row) list)
    \<Rightarrow> chain \<Rightarrow> chain_token list \<Rightarrow> contract_row list \<Rightarrow> definition_row list outcome" where
  "chain_tokens_to_definitions ef ul order c tokens existing =
     bind_out (contracts_by_chain_address ul existing) (\<lambda>contracts.
       map_ok (\<lambda>result. map_values (order result)) (add_definitions ef ul c contracts tokens []))"

section \<open>Tokens of a user\<close>

definition contracts_by_address :: "(string \<Rightarrow> string) \<Rightarrow> contract_row list \<Rightarrow> (string \<rightharpoonup> contract_row)" where
  "contracts_by_address ul existing =
     fold (\<lambda>c m. m(chain_normalize_address ul (co_chain c) (co_address c) \<mapsto> c)) existing Map.empty"

definition wallets_by_address :: "(string \<Rightarrow> string) \<Rightarrow> wallet list \<Rightarrow> (string \<rightharpoonup> wallet)" where
  "wallets_by_address ul wallets =
     fold (\<lambda>w m. m(chain_normalize_address ul (wa_chain w) (wa_address w) \<mapsto> w)) wallets Map.empty"

definition created_by :: "(string \<Rightarrow> string) \<Rightarrow> sync_user \<Rightarrow> contract_row \<Rightarrow> bool" where
  "created_by ul user c =
     (if co_override_creator_user_id c \<noteq> '''' then co_override_creator_user_id c = us_id user
      else (let creator = (if co_owner_address c = '''' then co_creator_address c else co_owner_address c) in
        case wallets_by_address ul (us_wallets user) (chain_normalize_address ul (co_chain c) creator) of
          Some w \<Rightarrow> wa_l1_chain w = co_l1_chain c
        | None \<Rightarrow> False))"

definition created_contracts :: "(string \<Rightarrow> string) \<Rightarrow> sync_user \<Rightarrow> contract_row list \<Rightarrow> (string \<rightharpoonup> bool)" where
  "created_contracts ul user existing =
     fold (\<lambda>c m. m(chain_normalize_address ul (co_chain c) (co_address c) \<mapsto> created_by ul user c)) existing Map.empty"

definition dedupe_wallets :: "wallet list \<Rightarrow> wallet list" where
  "dedupe_wallets wallets =
     fst (dedupe_with_translate wallets False (\<lambda>w. itoa (wa_chain w) @ '':'' @ wa_address w))"

record seen =
  se_tokens :: "(token_identifiers \<times> upsert_token) list"
  se_wallets :: "token_identifiers \<Rightarrow> wallet list"
  se_quantities :: "token_identifiers \<rightharpoonup> string"

definition see_token :: "(string \<Rightarrow> string) \<Rightarrow> chain \<Rightarrow> (string \<rightharpoonup> wallet) \<Rightarrow> (string \<rightharpoonup> bool) \<Rightarrow> sync_user
    \<Rightarrow> contract_row \<Rightarrow> token_identifiers \<Rightarrow> chain_token \<Rightarrow> seen \<Rightarrow> seen" where
  "see_token ul c wallets created user contract ti t s =
     (let token = (case map_of (se_tokens s) ti of
            Some ut \<Rightarrow> ut
          | None \<Rightarrow> \<lparr>ut_token = \<lparr>tk_version = 0, tk_collectors_note = '''', tk_quantity = '''',
                tk_block_number = ct_block_number t, tk_owner_user_id = us_id user, tk_owned_by_wallets = [],
                tk_is_creator_token = (case created (ti_contract_address ti) of Some b \<Rightarrow> b | None \<Rightarrow> False),
                tk_token_definition_id = '''', tk_contract_id = co_id contract\<rparr>, ut_identifiers = ti\<rparr>);
          found = (\<exists>w \<in> set (se_wallets s ti). wa_address w = ct_owner_address t);
          quantities = (if found then se_quantities s
            else (se_quantities s)(ti \<mapsto> (case se_quantities s ti of
              Some q \<Rightarrow> hexstr_add ul q (ct_quantity t) | None \<Rightarrow> ct_quantity t)));
          owners = (case wallets (chain_normalize_address ul c (ct_owner_address t)) of
            Some w \<Rightarrow> (se_wallets s)(ti := dedupe_wallets (se_wallets s ti @ [w])) | None \<Rightarrow> se_wallets s)
      in \<lparr>se_tokens = AList.update ti
            (token\<lparr>ut_token := (ut_token token)
              \<lparr>tk_owned_by_wallets := map_without_error (owners ti) wa_id,
               tk_quantity := (case quantities ti of Some q \<Rightarrow> q | None \<Rightarrow> '''')\<rparr>\<rparr>) (se_tokens s),
          se_wallets = owners, se_quantities = quantities\<rparr>)"

fun see_tokens :: "(string \<Rightarrow> string) \<Rightarrow> chain \<Rightarrow> (string \<rightharpoonup> contract_row) \<Rightarrow> (string \<rightharpoonup> wallet)
    \<Rightarrow> (string \<rightharpoonup> bool) \<Rightarrow> sync_user \<Rightarrow> chain_token list \<Rightarrow> seen \<Rightarrow> seen outcome" where
  "see_tokens ul c contracts wallets created user [] s = Ok s"
| "see_tokens ul c contracts wallets created user (t # ts) s =
     (if hexstr_big_int ul (ct_quantity t) = 0 then see_tokens ul c contracts wallets created user ts s
      else (let normalized = chain_normalize_address ul c (ct_contract_address t) in
        bind_out (new_token_identifiers ul normalized (ct_token_id t) c) (\<lambda>ti.
          case contracts normalized of
            None \<Rightarrow> Panic (PanicText (''no persisted contract for chain='' @ chain_string c @ '', address='' @ normalized))
          | Some contract \<Rightarrow>
              see_tokens ul c contracts wallets created user ts
                (see_token ul c wallets created user contract ti t s))))"

definition chain_tokens_to_tokens :: "(string \<Rightarrow> string)
    \<Rightarrow> ((token_identifiers \<times> upsert_token) list \<Rightarrow> (token_identifiers \<times> upsert_token) list)
    \<Rightarrow> chain \<Rightarrow> chain_token list \<Rightarrow> contract_row list \<Rightarrow> sync_user \<Rightarrow> upsert_token list outcome" where
  "chain_tokens_to_tokens ul order c tokens existing user =
     map_ok (\<lambda>s. map_values (order (se_tokens s)))
       (see_tokens ul c (contracts_by_address ul existing) (wallets_by_address ul (us_wallets user))
         (created_contracts ul user existing) user tokens
         \<lparr>se_tokens = [], se_wallets = \<lambda>_. [], se_quantities = Map.empty\<rparr>)"

section \<open>Contracts\<close>

definition unknown_contract_names :: "string list" where
  "unknown_contract_names = [''unidentified contract'', ''unknown contract'', ''unknown'']"

definition zero_contract :: contract_row where
  "zero_contract = \<lparr>co_id = '''', co_name = \<lparr>ns_string = '''', ns_valid = False\<rparr>,
     co_symbol = \<lparr>ns_string = '''', ns_valid = False\<rparr>, co_address = '''', co_creator_address = '''', co_chain = 0,
     co_profile_image_url = \<lparr>ns_string = '''', ns_valid = False\<rparr>,
     co_description = \<lparr>ns_string = '''', ns_valid = False\<rparr>, co_owner_address = '''',
     co_is_provider_marked_spam = False, co_override_creator_user_id = '''', co_l1_chain = 0\<rparr>"

definition merge_contracts :: "(string \<Rightarrow> string) \<Rightarrow> contract_row \<Rightarrow> contract_row \<Rightarrow> contract_row" where
  "merge_contracts ul a b =
     a\<lparr>co_name := fst (find_first \<lparr>ns_string = '''', ns_valid = False\<rparr> [co_name a, co_name b]
         (\<lambda>s. ns_string s \<noteq> '''' \<and> \<not> contains_elem unknown_contract_names (to_lower ul (ns_string s)))),
       co_symbol := merge_null_strings (co_symbol a) (co_symbol b),
       co_owner_address := first_non_empty_string [co_owner_address a, co_owner_address b],
       co_description := merge_null_strings (co_description a) (co_description b),
       co_profile_image_url := merge_null_strings (co_profile_image_url a) (co_profile_image_url b),
       co_is_provider_marked_spam := (co_is_provider_marked_spam a \<or> co_is_provider_marked_spam b)\<rparr>"

definition contract_of_chain :: "(string \<Rightarrow> string) \<Rightarrow> chain \<Rightarrow> chain_contract \<Rightarrow> contract_row" where
  "contract_of_chain ul c ch =
     zero_contract\<lparr>co_symbol := to_null_string_empty_null (ch_symbol ch),
       co_name := to_null_string_empty_null (ch_name ch),
       co_owner_address := chain_normalize_address ul c (ch_owner_address ch),
       co_profile_image_url := to_null_string_empty_null (ch_profile_image_url ch),
       co_description := to_null_string_empty_null (ch_description ch),
       co_is_provider_marked_spam := from_pointer False (ch_is_spam ch)\<rparr>"

definition add_contract :: "(string \<Rightarrow> string) \<Rightarrow> chain \<Rightarrow> chain_contract \<Rightarrow> (string \<times> contract_row) list
    \<Rightarrow> (string \<times> contract_row) list" where
  "add_contract ul c ch result =
     (let normalized = chain_normalize_address ul c (ch_address ch) in
      AList.update normalized
        (merge_contracts ul (case map_of result normalized of Some co \<Rightarrow> co | None \<Rightarrow> zero_contract)
          (contract_of_chain ul c ch)) result)"

definition chain_contracts_to_contracts :: "(string \<Rightarrow> string)
    \<Rightarrow> ((string \<times> contract_row) list \<Rightarrow> (string \<times> contract_row) list) \<Rightarrow> chain \<Rightarrow> chain_contract list
    \<Rightarrow> contract_row list outcome" where
  "chain_contracts_to_contracts ul order c contracts =
     map_out (\<lambda>(address, co). map_ok (\<lambda>lc. zero_contract\<lparr>co_chain := c, co_l1_chain := lc, co_address := address,
         co_symbol := co_symbol co, co_name := co_name co, co_profile_image_url := co_profile_image_url co,
         co_owner_address := co_owner_address co, co_description := co_description co,
         co_is_provider_marked_spam := co_is_provider_marked_spam co\<rparr>) (l1_chain c))
       (order (fold (add_contract ul c) contracts []))"

end
