(* ===== verification/Commands.thy ===== *)
theory Commands
  imports Prelude
begin

text \<open>
  Code that gives commands to the outside: a call yields the commands it gave, in order, beside
  its outcome. A command that fails is still given; a failed call gives no further commands.
\<close>

type_synonym ('c, 'a) commanded = "'c list \<times> 'a outcome"

fun run_then :: "('c, 'a) commanded \<Rightarrow> ('a \<Rightarrow> ('c, 'b) commanded) \<Rightarrow> ('c, 'b) commanded" where
  "run_then (cs, Ok x) f = (case f x of (ds, r) \<Rightarrow> (cs @ ds, r))"
| "run_then (cs, Err e) f = (cs, Err e)"
| "run_then (cs, Panic p) f = (cs, Panic p)"

definition calls :: "'c \<Rightarrow> 'a outcome \<Rightarrow> ('c, 'a) commanded" where
  "calls c r = ([c], r)"

definition silent :: "'a outcome \<Rightarrow> ('c, 'a) commanded" where
  "silent r = ([], r)"

text \<open>A call whose error is reported and otherwise ignored.\<close>

definition reported :: "unit outcome \<Rightarrow> unit outcome" where
  "reported r = (case r of Panic p \<Rightarrow> Panic p | _ \<Rightarrow> Ok ())"

definition wrap_error :: "(gerror \<Rightarrow> gerror) \<Rightarrow> 'a outcome \<Rightarrow> 'a outcome" where
  "wrap_error w r = (case r of Err e \<Rightarrow> Err (w e) | _ \<Rightarrow> r)"

lemma run_then_eq:
  "run_then m f = (fst m @ (case snd m of Ok x \<Rightarrow> fst (f x) | _ \<Rightarrow> []),
     case snd m of Ok x \<Rightarrow> snd (f x) | Err e \<Rightarrow> Err e | Panic p \<Rightarrow> Panic p)"
  by (cases "(m, f)" rule: run_then.cases) (auto split: prod.splits)

lemmas run_defs = run_then_eq calls_def silent_def

lemma set_run_then:
  "c \<in> set (fst (run_then m f)) \<longleftrightarrow> c \<in> set (fst m) \<or> (\<exists>x. snd m = Ok x \<and> c \<in> set (fst (f x)))"
  by (cases "snd m") (auto simp: run_then_eq)

lemma run_then_Ok:
  "run_then m f = (cs, Ok y) \<longleftrightarrow>
     (\<exists>x ds es. m = (ds, Ok x) \<and> f x = (es, Ok y) \<and> cs = ds @ es)"
  by (cases "(m, f)" rule: run_then.cases) (auto split: prod.splits)

lemma run_then_silent [simp]:
  "run_then (silent (Ok x)) f = f x" "run_then (silent (Err e)) f = silent (Err e)"
  "run_then (silent (Panic p)) f = silent (Panic p)"
  by (simp_all add: run_defs)

lemma calls_Ok [simp]: "calls c r = (cs, Ok x) \<longleftrightarrow> cs = [c] \<and> r = Ok x"
  and silent_Ok [simp]: "silent r = (cs, Ok x) \<longleftrightarrow> cs = [] \<and> r = Ok x"
  by (auto simp: calls_def silent_def)

lemma reported_ok [simp]: "reported (Err e) = Ok ()" "reported (Ok u) = Ok ()"
  by (simp_all add: reported_def)

lemma commands_of [simp]: "fst (silent r) = []" "fst (calls d r) = [d]"
  by (simp_all add: silent_def calls_def)

lemma outcome_of [simp]: "snd (silent r) = r" "snd (calls d r) = r"
  by (simp_all add: silent_def calls_def)

end
