(* ===== verification/TokenSyncFlow.thy ===== *)
theory TokenSyncFlow
  imports TokenSync Commands
begin

text \<open>
  The flow of a sync in \<^verbatim>\<open>service/multichain/multichain.go\<close>: contracts and their communities,
  the upserts of a batch of users, the loop that receives the pages of the providers, and the deletion that follows in a
  sync that replaces tokens. A call
  yields the commands it gave to the database and the task queue, in order, beside its
  outcome; the answers to commands are the fields of \<open>sync_env\<close>, and
  \<open>sy_wrap\<close> is \<^verbatim>\<open>fmt.Errorf\<close> with \<^verbatim>\<open>%w\<close>. The communities of art
  platforms (\<^verbatim>\<open>artblocks.go\<close>) are one of these answers.
\<close>

section \<open>Commands\<close>

record community_row =
  cm_id :: string
  cm_name :: string
  cm_description :: string
  cm_type :: int
  cm_key1 :: string
  cm_key2 :: string
  cm_contract_id :: string
  cm_profile_image_url :: null_string

record creators_params =
  kp_ids :: "string list"
  kp_creator_type :: "i32 list"
  kp_community_id :: "string list"
  kp_creator_address :: "string list"
  kp_address_chain :: "i32 list"
  kp_address_l1_chain :: "i32 list"

record contract_memberships_params =
  cp_ids :: "string list"
  cp_contract_id :: "string list"
  cp_community_id :: "string list"

datatype sync_command =
    UpsertContracts "contract_row list" bool
  | UpsertCommunities "community_row list"
  | UpsertCreators creators_params
  | UpsertContractMemberships contract_memberships_params
  | UpsertDefinitions "definition_row list"
  | SubmitNewTokens "string list"
  | UpsertMemberships "membership_row list" "string list"
  | UpsertTokens "upsert_token list" token_upsert_params
  | ProcessCommunities "contract_row list"
  | DeleteTokens delete_params

record ('d, 'm, 'n) sync_env =
  sy_upsert :: "('d, 'm, 'n) upsert_env"
  sy_contracts :: "contract_row list \<Rightarrow> bool \<Rightarrow> contract_row list outcome"
  sy_communities :: "community_row list \<Rightarrow> community_row list outcome"
  sy_creators :: "creators_params \<Rightarrow> unit outcome"
  sy_contract_memberships :: "contract_memberships_params \<Rightarrow> unit outcome"
  sy_submit :: "string list \<Rightarrow> unit outcome"
  sy_art_communities :: "contract_row list \<Rightarrow> 'd list \<Rightarrow> unit outcome"
  sy_delete :: "delete_params \<Rightarrow> int outcome"
  sy_owner :: "'d \<Rightarrow> string"
  sy_wrap :: "string \<Rightarrow> gerror \<Rightarrow> gerror"
  sy_token_order :: "(token_identifiers \<times> upsert_token) list \<Rightarrow> (token_identifiers \<times> upsert_token) list"
  sy_definition_order :: "(token_identifiers \<times> definition_row) list \<Rightarrow> (token_identifiers \<times> definition_row) list"
  sy_contract_order :: "(string \<times> contract_row) list \<Rightarrow> (string \<times> contract_row) list"

type_synonym 'a run = "(sync_command, 'a) commanded"

section \<open>Contracts and their communities\<close>

definition community_type_contract :: int where
  "community_type_contract = 0"

definition community_creator_type_provider :: int where
  "community_creator_type_provider = 1"

definition contract_communities :: "(nat \<Rightarrow> string) \<Rightarrow> contract_row list \<Rightarrow> community_row list" where
  "contract_communities new_id contracts =
     map (\<lambda>(i, c). \<lparr>cm_id = new_id i, cm_name = ns_string (co_name c), cm_description = ns_string (co_description c),
        cm_type = community_type_contract, cm_key1 = itoa (co_chain c), cm_key2 = co_address c,
        cm_contract_id = co_id c, cm_profile_image_url = co_profile_image_url c\<rparr>) (enumerate 0 contracts)"

definition community_by_contract :: "community_row list \<Rightarrow> (string \<rightharpoonup> community_row)" where
  "community_by_contract communities = fold (\<lambda>c m. m(cm_contract_id c \<mapsto> c)) communities Map.empty"

definition community_by_key :: "community_row list \<Rightarrow> (int \<times> string \<times> string \<rightharpoonup> community_row)" where
  "community_by_key communities = fold (\<lambda>c m. m((cm_type c, cm_key1 c, cm_key2 c) \<mapsto> c)) communities Map.empty"

fun append_creators :: "(nat \<Rightarrow> string) \<Rightarrow> (string \<rightharpoonup> community_row) \<Rightarrow> nat \<Rightarrow> contract_row list \<Rightarrow> creators_params
    \<Rightarrow> creators_params outcome" where
  "append_creators new_id by_contract i [] p = Ok p"
| "append_creators new_id by_contract i (c # cs) p =
     (case find_first '''' [co_owner_address c, co_creator_address c] (\<lambda>a. a \<noteq> '''') of
        (creator, False) \<Rightarrow> append_creators new_id by_contract i cs p
      | (creator, True) \<Rightarrow>
          (case by_contract (co_id c) of
             None \<Rightarrow> append_creators new_id by_contract i cs p
           | Some community \<Rightarrow>
               bind_out (l1_chain (co_chain c)) (\<lambda>lc.
                 append_creators new_id by_contract (Suc i) cs
                   \<lparr>kp_ids = kp_ids p @ [new_id i],
                    kp_creator_type = kp_creator_type p @ [word_of_int community_creator_type_provider],
                    kp_community_id = kp_community_id p @ [cm_id community],
                    kp_creator_address = kp_creator_address p @ [creator],
                    kp_address_chain = kp_address_chain p @ [word_of_int (co_chain c)],
                    kp_address_l1_chain = kp_address_l1_chain p @ [word_of_int lc]\<rparr>)))"

fun append_contract_memberships :: "(nat \<Rightarrow> string) \<Rightarrow> (int \<times> string \<times> string \<rightharpoonup> community_row) \<Rightarrow> nat
    \<Rightarrow> contract_row list \<Rightarrow> contract_memberships_params \<Rightarrow> contract_memberships_params outcome" where
  "append_contract_memberships new_id by_key i [] p = Ok p"
| "append_contract_memberships new_id by_key i (c # cs) p =
     (case by_key (community_type_contract, itoa (co_chain c), co_address c) of
        None \<Rightarrow> Err (ErrText (''couldn't find community with type: 0, key: 0:'' @ itoa (co_chain c) @ '':'' @
          co_address c @ '':: for contract ID: '' @ co_id c))
      | Some community \<Rightarrow>
          append_contract_memberships new_id by_key (Suc i) cs
            \<lparr>cp_ids = cp_ids p @ [new_id i], cp_contract_id = cp_contract_id p @ [co_id c],
             cp_community_id = cp_community_id p @ [cm_id community]\<rparr>)"

definition process_contract_communities :: "('d, 'm, 'n) sync_env \<Rightarrow> contract_row list \<Rightarrow> community_row list run" where
  "process_contract_communities env contracts =
     (let new_id = ue_new_id (sy_upsert env); rows = contract_communities new_id contracts in
      run_then (calls (UpsertCommunities rows) (sy_communities env rows)) (\<lambda>communities.
        run_then (silent (append_creators new_id (community_by_contract communities) 0 contracts
            \<lparr>kp_ids = [], kp_creator_type = [], kp_community_id = [], kp_creator_address = [],
             kp_address_chain = [], kp_address_l1_chain = []\<rparr>)) (\<lambda>creators.
          run_then (if kp_ids creators \<noteq> []
              then calls (UpsertCreators creators) (reported (sy_creators env creators)) else silent (Ok ())) (\<lambda>_.
            run_then (silent (append_contract_memberships new_id (community_by_key communities) 0 contracts
                \<lparr>cp_ids = [], cp_contract_id = [], cp_community_id = []\<rparr>)) (\<lambda>p.
              run_then (calls (UpsertContractMemberships p) (sy_contract_memberships env p)) (\<lambda>_.
                silent (Ok communities)))))))"

definition process_contracts :: "(string \<Rightarrow> string) \<Rightarrow> ('d, 'm, 'n) sync_env \<Rightarrow> chain \<Rightarrow> chain_contract list \<Rightarrow> bool
    \<Rightarrow> contract_row list run" where
  "process_contracts ul env c contracts can_overwrite =
     run_then (silent (chain_contracts_to_contracts ul (sy_contract_order env) c contracts)) (\<lambda>rows.
       run_then (calls (UpsertContracts rows can_overwrite) (sy_contracts env rows can_overwrite)) (\<lambda>added.
         run_then (process_contract_communities env added) (\<lambda>_. silent (Ok added))))"

section \<open>A batch of users\<close>

definition dedupe_token_definitions :: "(string \<Rightarrow> string) \<Rightarrow> definition_row list \<Rightarrow> definition_row list" where
  "dedupe_token_definitions ul defs =
     map_without_error
       (fst (dedupe_with_translate
         (map_without_error defs (\<lambda>d. (d, itoa (df_chain d) @ '':'' @ df_contract_id d @ '':'' @
            hex_string ul (df_token_id d))))
         False snd)) fst"

definition dedupe_token_instances :: "(string \<Rightarrow> string) \<Rightarrow> upsert_token list \<Rightarrow> upsert_token list" where
  "dedupe_token_instances ul tokens =
     map_without_error
       (fst (dedupe_with_translate
         (map_without_error tokens (\<lambda>t. (t, itoa (ti_chain (ut_identifiers t)) @ '':'' @
            tk_contract_id (ut_token t) @ '':'' @ hex_string ul (ti_token_id (ut_identifiers t)) @ '':'' @
            tk_owner_user_id (ut_token t))))
         False snd)) fst"

fun collect_users :: "(string \<Rightarrow> string \<Rightarrow> bool) \<Rightarrow> (string \<Rightarrow> string) \<Rightarrow> ('d, 'm, 'n) sync_env \<Rightarrow> chain
    \<Rightarrow> contract_row list \<Rightarrow> (sync_user \<times> chain_token list) list \<Rightarrow> (upsert_token list \<times> definition_row list) outcome"
where
  "collect_users ef ul env c contracts [] = Ok ([], [])"
| "collect_users ef ul env c contracts ((user, tokens) # users) =
     bind_out (chain_tokens_to_tokens ul (sy_token_order env) c tokens contracts user) (\<lambda>toks.
       bind_out (chain_tokens_to_definitions ef ul (sy_definition_order env) c tokens contracts) (\<lambda>defs.
         map_ok (\<lambda>(toks', defs'). (toks @ toks', defs @ defs')) (collect_users ef ul env c contracts users)))"

definition membership_of :: "(string \<Rightarrow> string) \<Rightarrow> definition_row \<Rightarrow> membership_row outcome" where
  "membership_of ul d =
     map_ok (\<lambda>n. \<lparr>mb_token_definition_id = df_id d, mb_token_id = n\<rparr>) (hex_to_decimal ul (df_token_id d))"

definition definition_ids :: "definition_row list \<Rightarrow> (token_identifiers \<rightharpoonup> string)" where
  "definition_ids added =
     fold (\<lambda>d m. m(\<lparr>ti_token_id = df_token_id d, ti_contract_address = df_contract_address d, ti_chain = df_chain d\<rparr>
       \<mapsto> df_id d)) added Map.empty"

definition with_definition_id :: "(token_identifiers \<rightharpoonup> string) \<Rightarrow> upsert_token \<Rightarrow> upsert_token" where
  "with_definition_id ids t = t\<lparr>ut_token := (ut_token t)
     \<lparr>tk_token_definition_id := (case ids (ut_identifiers t) of Some i \<Rightarrow> i | None \<Rightarrow> '''')\<rparr>\<rparr>"

definition new_definition_ids :: "definition_row list \<Rightarrow> bool list \<Rightarrow> string list" where
  "new_definition_ids added is_new = map (\<lambda>(d, n). df_id d) (filter snd (zip added is_new))"

text \<open>
  The result is the new tokens of each user and the error that comes back beside them: the
  error of the communities stays in the named result \<^verbatim>\<open>err\<close> until the last return.
\<close>

definition process_tokens_for_users :: "(string \<Rightarrow> string \<Rightarrow> bool) \<Rightarrow> (string \<Rightarrow> string) \<Rightarrow> ('d, 'm, 'n) sync_env \<Rightarrow> chain
    \<Rightarrow> (sync_user \<times> chain_token list) list \<Rightarrow> contract_row list \<Rightarrow> token_upsert_params
    \<Rightarrow> ((string \<rightharpoonup> 'd list) \<times> gerror option) run" where
  "process_tokens_for_users ef ul env c users contracts params =
     run_then (silent (collect_users ef ul env c contracts users)) (\<lambda>(tokens, defs).
       let defs' = dedupe_token_definitions ul defs in
       run_then (calls (UpsertDefinitions defs') (insert_token_definitions ul (sy_upsert env) defs')) (\<lambda>(added, is_new).
         run_then (silent (map_out (membership_of ul) added)) (\<lambda>memberships.
           let new_ids = new_definition_ids added is_new; contract_ids = map df_contract_id added in
           run_then (calls (SubmitNewTokens new_ids) (reported (sy_submit env new_ids))) (\<lambda>_.
             run_then (calls (UpsertMemberships memberships contract_ids)
                 (insert_token_community_memberships (sy_upsert env) memberships contract_ids)) (\<lambda>_.
               let tokens' = map (with_definition_id (definition_ids added)) (dedupe_token_instances ul tokens) in
               run_then (calls (UpsertTokens tokens' params) (insert_tokens ul (sy_upsert env) tokens' params))
                 (\<lambda>(upsert_time, added_tokens).
                   let communities = sy_art_communities env contracts added_tokens;
                       err = (case communities of
                         Err e \<Rightarrow> Some (sy_wrap env ''failed to process token communities'' e) | _ \<Rightarrow> None);
                       by_user = fold (\<lambda>t m. m(sy_owner env t \<mapsto>
                         (case m (sy_owner env t) of None \<Rightarrow> [] | Some ts \<Rightarrow> ts) @ [t])) added_tokens Map.empty in
                   run_then (calls (ProcessCommunities contracts) (reported communities)) (\<lambda>_.
                     case up_optional_delete params of
                       None \<Rightarrow> silent (Ok (by_user, err))
                     | Some d \<Rightarrow>
                         run_then (calls (DeleteTokens (to_params d upsert_time))
                             (wrap_error (sy_wrap env ''failed to delete tokens'') (sy_delete env (to_params d upsert_time))))
                           (\<lambda>_. silent (Ok (by_user, err))))))))))"

definition process_tokens_for_user :: "(string \<Rightarrow> string \<Rightarrow> bool) \<Rightarrow> (string \<Rightarrow> string) \<Rightarrow> ('d, 'm, 'n) sync_env \<Rightarrow> chain
    \<Rightarrow> sync_user \<Rightarrow> chain_token list \<Rightarrow> contract_row list \<Rightarrow> token_upsert_params \<Rightarrow> 'd list run" where
  "process_tokens_for_user ef ul env c user tokens contracts params =
     run_then (process_tokens_for_users ef ul env c [(user, tokens)] contracts params) (\<lambda>(by_user, err).
       silent (case err of
         Some e \<Rightarrow> Err e
       | None \<Rightarrow> Ok (case by_user (us_id user) of None \<Rightarrow> [] | Some ts \<Rightarrow> ts)))"

definition creator_upsert :: token_upsert_params where
  "creator_upsert = \<lparr>up_set_creator_fields = True, up_set_holder_fields = False, up_optional_delete = None\<rparr>"

definition holder_upsert_params :: token_upsert_params where
  "holder_upsert_params = \<lparr>up_set_creator_fields = False, up_set_holder_fields = True, up_optional_delete = None\<rparr>"

definition add_creator_tokens_of_contracts_to_user :: "(string \<Rightarrow> string \<Rightarrow> bool) \<Rightarrow> (string \<Rightarrow> string)
    \<Rightarrow> ('d, 'm, 'n) sync_env \<Rightarrow> sync_user \<Rightarrow> chain \<Rightarrow> chain_token list \<Rightarrow> contract_row list \<Rightarrow> 'd list run" where
  "add_creator_tokens_of_contracts_to_user ef ul env user c tokens contracts =
     process_tokens_for_user ef ul env c user tokens contracts creator_upsert"

definition add_holder_tokens_to_user :: "(string \<Rightarrow> string \<Rightarrow> bool) \<Rightarrow> (string \<Rightarrow> string)
    \<Rightarrow> ('d, 'm, 'n) sync_env \<Rightarrow> sync_user \<Rightarrow> chain \<Rightarrow> chain_token list \<Rightarrow> contract_row list \<Rightarrow> 'd list run" where
  "add_holder_tokens_to_user ef ul env user c tokens contracts =
     process_tokens_for_user ef ul env c user tokens contracts holder_upsert_params"

section \<open>Receiving pages\<close>

text \<open>
  What the \<^verbatim>\<open>select\<close> of \<^verbatim>\<open>receiveProviderData\<close> takes in one round; a closed error channel is
  always ready and taking it changes nothing.
\<close>

datatype provider_input =
    Page chain "chain_token list" "chain_contract list"
  | PagesClosed
  | ProviderError gerror
  | ErrorsClosed
  | ContextDone gerror

fun receive_provider_data :: "(string \<Rightarrow> string) \<Rightarrow> ('d, 'm, 'n) sync_env
    \<Rightarrow> (chain \<Rightarrow> chain_token list \<Rightarrow> contract_row list \<Rightarrow> 'd list run) \<Rightarrow> provider_input list \<Rightarrow> 'd list
    \<Rightarrow> ('d list \<times> contract_row list) run option" where
  "receive_provider_data ul env add_tokens [] new_tokens = None"
| "receive_provider_data ul env add_tokens (i # is) new_tokens =
     (case i of
        Page c tokens contracts \<Rightarrow>
          (case run_then (process_contracts ul env c contracts False) (\<lambda>rows. add_tokens c tokens rows) of
             (cs, Ok added) \<Rightarrow>
               map_option (\<lambda>(ds, r). (cs @ ds, r)) (receive_provider_data ul env add_tokens is (new_tokens @ added))
           | (cs, Err e) \<Rightarrow> Some (cs, Err e)
           | (cs, Panic p) \<Rightarrow> Some (cs, Panic p))
      | PagesClosed \<Rightarrow> Some ([], Ok (new_tokens, []))
      | ProviderError e \<Rightarrow> Some ([], Err e)
      | ErrorsClosed \<Rightarrow> receive_provider_data ul env add_tokens is new_tokens
      | ContextDone e \<Rightarrow> Some ([], Err e))"

definition add_holder_tokens_for_user :: "(string \<Rightarrow> string \<Rightarrow> bool) \<Rightarrow> (string \<Rightarrow> string) \<Rightarrow> ('d, 'm, 'n) sync_env
    \<Rightarrow> sync_user \<Rightarrow> provider_input list \<Rightarrow> ('d list \<times> contract_row list) run option" where
  "add_holder_tokens_for_user ef ul env user inputs =
     receive_provider_data ul env (add_holder_tokens_to_user ef ul env user) inputs []"

definition add_creator_tokens_for_user :: "(string \<Rightarrow> string \<Rightarrow> bool) \<Rightarrow> (string \<Rightarrow> string) \<Rightarrow> ('d, 'm, 'n) sync_env
    \<Rightarrow> sync_user \<Rightarrow> provider_input list \<Rightarrow> ('d list \<times> contract_row list) run option" where
  "add_creator_tokens_for_user ef ul env user inputs =
     receive_provider_data ul env (add_creator_tokens_of_contracts_to_user ef ul env user) inputs []"

section \<open>Replacing the tokens of a user\<close>

text \<open>\<open>start\<close> is the time at which the call began, read before anything is received.\<close>

definition replace_creator_tokens_for_user :: "(string \<Rightarrow> string \<Rightarrow> bool) \<Rightarrow> (string \<Rightarrow> string) \<Rightarrow> ('d, 'm, 'n) sync_env
    \<Rightarrow> sync_user \<Rightarrow> string list \<Rightarrow> chain list \<Rightarrow> int \<Rightarrow> provider_input list
    \<Rightarrow> ('d list \<times> contract_row list) run option" where
  "replace_creator_tokens_for_user ef ul env user only_for_contract_ids on_chains start inputs =
     map_option (\<lambda>received. run_then received (\<lambda>(new_tokens, current_contracts).
       let contract_ids = (if only_for_contract_ids \<noteq> [] then map_without_error only_for_contract_ids dbid_string
             else map_without_error current_contracts (\<lambda>c. dbid_string (co_id c)));
           p = \<lparr>dp_remove_creator_status = True, dp_remove_holder_status = False,
             dp_only_from_user_id = to_null_string (dbid_string (us_id user)) True,
             dp_only_from_chains = map_without_error on_chains word_of_int,
             dp_only_from_contract_ids = contract_ids, dp_timestamp = start\<rparr>
       in run_then (calls (DeleteTokens p) (sy_delete env p)) (\<lambda>_. silent (Ok (new_tokens, current_contracts)))))
     (add_creator_tokens_for_user ef ul env user inputs)"

definition replace_holder_tokens_for_user :: "(string \<Rightarrow> string \<Rightarrow> bool) \<Rightarrow> (string \<Rightarrow> string) \<Rightarrow> ('d, 'm, 'n) sync_env
    \<Rightarrow> sync_user \<Rightarrow> chain list \<Rightarrow> int \<Rightarrow> provider_input list \<Rightarrow> ('d list \<times> contract_row list) run option" where
  "replace_holder_tokens_for_user ef ul env user on_chains start inputs =
     map_option (\<lambda>received. run_then received (\<lambda>(new_tokens, current_contracts).
       let p = \<lparr>dp_remove_creator_status = False, dp_remove_holder_status = True,
             dp_only_from_user_id = to_null_string (dbid_string (us_id user)) True,
             dp_only_from_chains = map_without_error on_chains word_of_int,
             dp_only_from_contract_ids = map_without_error current_contracts (\<lambda>c. dbid_string (co_id c)), dp_timestamp = start\<rparr>
       in run_then (calls (DeleteTokens p) (sy_delete env p)) (\<lambda>_. silent (Ok (new_tokens, current_contracts)))))
     (add_holder_tokens_for_user ef ul env user inputs)"

section \<open>Deletions in the table\<close>

text \<open>
  The columns of tokens and of their definitions that \<^verbatim>\<open>DeleteTokensBeforeTimestamp\<close> reads and writes.
  A token is a holder's when a wallet owns it (a generated column).
\<close>

record stored_token =
  sk_definition_id :: string
  sk_owner_user_id :: string
  sk_owned_by_wallets :: "string list"
  sk_is_creator_token :: bool
  sk_deleted :: bool
  sk_last_synced :: int
  sk_last_updated :: int

record stored_definition =
  sd_id :: string
  sd_contract_id :: string
  sd_chain :: i32
  sd_deleted :: bool

definition is_holder_token :: "stored_token \<Rightarrow> bool" where
  "is_holder_token t \<longleftrightarrow> sk_owned_by_wallets t \<noteq> []"

definition is_deleted_by :: "delete_params \<Rightarrow> stored_definition \<Rightarrow> stored_token \<Rightarrow> bool" where
  "is_deleted_by p td t \<longleftrightarrow>
     (ns_valid (dp_only_from_user_id p) \<or> length (dp_only_from_contract_ids p) > 0) \<and>
     (\<not> ns_valid (dp_only_from_user_id p) \<or> sk_owner_user_id t = ns_string (dp_only_from_user_id p)) \<and>
     (length (dp_only_from_contract_ids p) = 0 \<or> sd_contract_id td \<in> set (dp_only_from_contract_ids p)) \<and>
     (length (dp_only_from_chains p) = 0 \<or> sd_chain td \<in> set (dp_only_from_chains p)) \<and>
     (dp_remove_holder_status p \<and> is_holder_token t \<or> dp_remove_creator_status p \<and> sk_is_creator_token t) \<and>
     sk_definition_id t = sd_id td \<and> \<not> sk_deleted t \<and> \<not> sd_deleted td \<and> sk_last_synced t < dp_timestamp p"

definition delete_tokens_before_timestamp :: "delete_params \<Rightarrow> int \<Rightarrow> stored_definition list \<Rightarrow> stored_token list \<Rightarrow> stored_token list" where
  "delete_tokens_before_timestamp p now defs tokens =
     map (\<lambda>t. if \<exists>td \<in> set defs. is_deleted_by p td t
       then t\<lparr>sk_owned_by_wallets := (if dp_remove_holder_status p then [] else sk_owned_by_wallets t),
              sk_is_creator_token := (if dp_remove_creator_status p then False else sk_is_creator_token t),
              sk_last_updated := now\<rparr>
       else t) tokens"

end
