(* ===== verification/TokenSyncProps.thy ===== *)
theory TokenSyncProps
  imports TokenSyncFlow TokenUpsertProps
begin

text \<open>What a sync writes, in which order, and what it deletes.\<close>

section \<open>Commands of a batch\<close>

fun is_delete :: "sync_command \<Rightarrow> bool" where
  "is_delete (DeleteTokens _) = True"
| "is_delete _ = False"

definition last_delete :: "sync_command list \<Rightarrow> bool" where
  "last_delete cs \<longleftrightarrow> (\<exists>before after. cs = before @ after \<and> (\<forall>c \<in> set before. \<not> is_delete c) \<and> length after \<le> 1)"

lemma last_delete_append:
  assumes "\<forall>c \<in> set bs. \<not> is_delete c" and "last_delete cs"
  shows "last_delete (bs @ cs)"
proof -
  from assms(2) obtain before after where "cs = before @ after" "\<forall>c \<in> set before. \<not> is_delete c" "length after \<le> 1"
    unfolding last_delete_def by blast
  with assms(1) have "bs @ cs = (bs @ before) @ after \<and> (\<forall>c \<in> set (bs @ before). \<not> is_delete c) \<and> length after \<le> 1"
    by auto
  then show ?thesis unfolding last_delete_def by blast
qed

lemma last_delete_short [simp]: "last_delete []" "last_delete [c]"
  unfolding last_delete_def by force+

lemma last_delete_plain: "\<forall>c \<in> set bs. \<not> is_delete c \<Longrightarrow> last_delete bs"
  using last_delete_append [of bs "[]"] by simp

lemma last_delete_run_then:
  assumes "\<forall>c \<in> set (fst m). \<not> is_delete c" and "\<And>x. last_delete (fst (f x))"
  shows "last_delete (fst (run_then m f))"
  using assms last_delete_append last_delete_plain by (cases "snd m") (auto simp: run_then_eq)

lemma process_last_delete: "last_delete (fst (process_tokens_for_users ef ul env c users contracts params))"
  unfolding process_tokens_for_users_def Let_def split_beta
  by (intro last_delete_run_then) (auto simp: run_then_eq split: option.split outcome.split)

lemma last_delete_split:
  assumes "last_delete cs" and "DeleteTokens p \<in> set cs"
  shows "\<exists>before. cs = before @ [DeleteTokens p] \<and> (\<forall>d. DeleteTokens d \<notin> set before)"
proof -
  from assms(1) obtain before after where ba: "cs = before @ after" "\<forall>c \<in> set before. \<not> is_delete c" "length after \<le> 1"
    unfolding last_delete_def by blast
  then have "DeleteTokens d \<notin> set before" for d by (metis is_delete.simps(1))
  with ba assms(2) show ?thesis by (cases after) auto
qed

text \<open>
  With an optional deletion, which no caller of \<^verbatim>\<open>processTokensForUser\<close> asks for, tokens are deleted
  only after the upsert of the fetched tokens succeeded, and only those that were last synced
  before the time the database gave for that upsert. The deletion is the last command, and the
  only one of its kind.
\<close>

lemma delete_only_after_upsert:
  assumes "process_tokens_for_users ef ul env c users contracts params = (cs, r)" and "DeleteTokens p \<in> set cs"
  shows "\<exists>before tokens upsert_time added. cs = before @ [DeleteTokens p] \<and>
    (\<forall>d. DeleteTokens d \<notin> set before) \<and> UpsertTokens tokens params \<in> set before \<and>
    insert_tokens ul (sy_upsert env) tokens params = Ok (upsert_time, added) \<and> dp_timestamp p = upsert_time"
proof -
  have "DeleteTokens p \<in> set (fst (process_tokens_for_users ef ul env c users contracts params))"
    using assms by simp
  then have "\<exists>tokens upsert_time added.
      UpsertTokens tokens params \<in> set (fst (process_tokens_for_users ef ul env c users contracts params)) \<and>
      insert_tokens ul (sy_upsert env) tokens params = Ok (upsert_time, added) \<and> dp_timestamp p = upsert_time"
    unfolding process_tokens_for_users_def
    by (simp add: set_run_then calls_def silent_def Let_def split_beta)
      (fastforce simp: set_run_then calls_def silent_def to_params_def split: option.splits)
  then obtain tokens upsert_time added where up: "UpsertTokens tokens params \<in> set cs"
    "insert_tokens ul (sy_upsert env) tokens params = Ok (upsert_time, added)" "dp_timestamp p = upsert_time"
    using assms(1) by auto
  have "last_delete cs" using process_last_delete [of ef ul env c users contracts params] assms(1) by simp
  from last_delete_split [OF this assms(2)] obtain before where
    l: "cs = before @ [DeleteTokens p]" "\<forall>d. DeleteTokens d \<notin> set before" by blast
  from up(1) l have "UpsertTokens tokens params \<in> set before" by simp
  with up l show ?thesis by blast
qed

lemma collect_users_communities [simp]:
  "collect_users ef ul (env\<lparr>sy_art_communities := f\<rparr>) c contracts users = collect_users ef ul env c contracts users"
  by (induction users) auto

text \<open>
  An error of the art communities, which is meant to be reported only, fails the sync of the
  user: the same commands are given and the tokens are written, but the caller gets the error.
\<close>

theorem community_error_fails_sync:
  assumes "process_tokens_for_user ef ul (env\<lparr>sy_art_communities := \<lambda>_ _. Ok ()\<rparr>) c user tokens contracts params
      = (cs, Ok ts)"
  shows "process_tokens_for_user ef ul (env\<lparr>sy_art_communities := \<lambda>_ _. Err e\<rparr>) c user tokens contracts params
      = (cs, Err (sy_wrap env ''failed to process token communities'' e)) \<and>
    (\<exists>rows. UpsertTokens rows params \<in> set cs)"
  using assms
  unfolding process_tokens_for_user_def process_tokens_for_users_def
  by (auto simp: run_then_Ok Let_def split: prod.splits option.splits)
    (auto simp: run_then_eq calls_def silent_def Let_def)

section \<open>A sample sync\<close>

definition sample_upsert_env :: "(string, unit, string) upsert_env" where
  "sample_upsert_env = \<lparr>ue_new_id = \<lambda>i. ''n'' @ itoa (int i), ue_current_time = Ok 0,
     ue_upsert_tokens = \<lambda>p. Ok (tp_owner_user_id p), ue_last_synced = \<lambda>d. 7,
     ue_upsert_definitions = \<lambda>p. Ok (map (\<lambda>(i, a, t). (\<lparr>df_id = i, df_name = to_null_string '''' True,
       df_description = to_null_string '''' True, df_token_type = '''', df_token_id = t,
       df_external_url = to_null_string '''' True, df_chain = 0, df_metadata = JNull, df_fallback_media = zero_media,
       df_contract_address = a, df_contract_id = ''k1'', df_is_fxhash = False\<rparr>, True))
       (zip (dfp_dbid p) (zip (dfp_contract_address p) (dfp_token_id p)))),
     ue_upsert_memberships = \<lambda>p. Ok [], ue_media_json = \<lambda>m. Ok ''null'', ue_metadata_json = \<lambda>m. Ok ''null'',
     ue_numeric = Ok\<rparr>"

definition sample_sync_env :: "(string, unit, string) sync_env" where
  "sample_sync_env = \<lparr>sy_upsert = sample_upsert_env, sy_contracts = \<lambda>rows b. Ok rows, sy_communities = Ok,
     sy_creators = \<lambda>p. Ok (), sy_contract_memberships = \<lambda>p. Ok (), sy_submit = \<lambda>ids. Ok (),
     sy_art_communities = \<lambda>_ _. Ok (), sy_delete = \<lambda>p. Ok 1, sy_owner = \<lambda>d. d, sy_wrap = \<lambda>s e. ErrText s,
     sy_token_order = \<lambda>m. m, sy_definition_order = \<lambda>m. m, sy_contract_order = \<lambda>m. m\<rparr>"

definition sample_user :: sync_user where
  "sample_user = \<lparr>us_id = ''u1'', us_wallets = [\<lparr>wa_id = ''w1'', wa_address = ''0xa'', wa_chain = 0, wa_l1_chain = 0\<rparr>]\<rparr>"

definition sample_chain_token :: "string \<Rightarrow> string \<Rightarrow> chain_token" where
  "sample_chain_token owner quantity = \<lparr>ct_name = '''', ct_description = '''', ct_token_type = ''ERC-1155'',
     ct_token_id = ''1f'', ct_quantity = quantity, ct_owner_address = owner, ct_metadata = JNull,
     ct_contract_address = ''0xC'', ct_fallback_media = zero_media, ct_external_url = '''', ct_block_number = 0\<rparr>"

definition sample_contracts :: "contract_row list" where
  "sample_contracts = [zero_contract\<lparr>co_id := ''k1'', co_address := ''0xc''\<rparr>]"

definition replacing_upsert :: token_upsert_params where
  "replacing_upsert = \<lparr>up_set_creator_fields = False, up_set_holder_fields = True,
     up_optional_delete = Some \<lparr>del_creator_status = False, del_holder_status = True, del_only_from_user_id = Some ''u1'',
       del_only_from_contracts = [], del_only_from_chains = [0]\<rparr>\<rparr>"

lemma sample_sync:
  "snd (process_tokens_for_user (\<lambda>a b. a = b) id (sample_sync_env\<lparr>sy_art_communities := \<lambda>_ _. Ok ()\<rparr>) 0 sample_user
     [sample_chain_token ''0xa'' ''2''] sample_contracts replacing_upsert) = Ok [''u1'']"
  by code_simp

theorem community_error_fails_sync_witness:
  "\<exists>cs rows. process_tokens_for_user (\<lambda>a b. a = b) id (sample_sync_env\<lparr>sy_art_communities := \<lambda>_ _. Err IoEOF\<rparr>) 0
      sample_user [sample_chain_token ''0xa'' ''2''] sample_contracts replacing_upsert
    = (cs, Err (ErrText ''failed to process token communities'')) \<and> UpsertTokens rows replacing_upsert \<in> set cs"
proof -
  obtain cs where "process_tokens_for_user (\<lambda>a b. a = b) id (sample_sync_env\<lparr>sy_art_communities := \<lambda>_ _. Ok ()\<rparr>) 0
      sample_user [sample_chain_token ''0xa'' ''2''] sample_contracts replacing_upsert = (cs, Ok [''u1''])"
    using sample_sync by (metis prod.collapse)
  from community_error_fails_sync [OF this, of IoEOF] show ?thesis by (auto simp: sample_sync_env_def)
qed

section \<open>Syncs that add and syncs that replace\<close>

lemma process_contracts_no_delete: "DeleteTokens p \<notin> set (fst (process_contracts ul env c contracts w))"
  by (simp add: process_contracts_def process_contract_communities_def set_run_then Let_def split: if_split)

lemma process_user_no_delete:
  assumes "up_optional_delete params = None"
  shows "DeleteTokens p \<notin> set (fst (process_tokens_for_user ef ul env c user tokens contracts params))"
  by (simp add: process_tokens_for_user_def process_tokens_for_users_def set_run_then Let_def split_beta assms)

lemma received:
  assumes "receive_provider_data ul env add_tokens inputs new_tokens = Some (cs, r)"
    and "\<And>c tokens rows. DeleteTokens p \<notin> set (fst (add_tokens c tokens rows))"
  shows "DeleteTokens p \<notin> set cs \<and> (\<forall>x. r = Ok x \<longrightarrow> snd x = [])"
  using assms
proof (induction ul env add_tokens inputs new_tokens arbitrary: cs r rule: receive_provider_data.induct)
  case (2 ul env add_tokens i "is" new_tokens)
  show ?case
  proof (cases i)
    case (Page c tokens contracts)
    let ?m = "run_then (process_contracts ul env c contracts False) (\<lambda>rows. add_tokens c tokens rows)"
    obtain cs0 r0 where m: "?m = (cs0, r0)" by force
    then have no: "DeleteTokens p \<notin> set cs0"
      using "2.prems"(2) process_contracts_no_delete [of p ul env c contracts False]
        set_run_then [of "DeleteTokens p" "process_contracts ul env c contracts False" "\<lambda>rows. add_tokens c tokens rows"] by simp
    show ?thesis
    proof (cases r0)
      case (Ok added)
      with "2.prems"(1) m obtain ds where ds: "receive_provider_data ul env add_tokens is (new_tokens @ added) = Some (ds, r)"
        "cs = cs0 @ ds" by (auto simp: Page split: option.splits)
      from "2.IH"(1) [OF Page m [symmetric] Ok ds(1) "2.prems"(2)] ds(2) no show ?thesis by simp
    qed (use "2.prems"(1) m no in \<open>auto simp: Page\<close>)
  next
    case ErrorsClosed
    with 2 show ?thesis by auto
  qed (use "2.prems" in auto)
qed simp

lemma added_without_delete:
  assumes "add_holder_tokens_for_user ef ul env user inputs = Some (cs, r) \<or> add_creator_tokens_for_user ef ul env user inputs = Some (cs, r)"
  shows "DeleteTokens p \<notin> set cs \<and> (\<forall>x. r = Ok x \<longrightarrow> snd x = [])"
proof -
  have *: "DeleteTokens p \<notin> set (fst (add_holder_tokens_to_user ef ul env user c tokens rows))"
    "DeleteTokens p \<notin> set (fst (add_creator_tokens_of_contracts_to_user ef ul env user c tokens rows))" for c tokens rows
    by (simp_all add: add_holder_tokens_to_user_def add_creator_tokens_of_contracts_to_user_def holder_upsert_params_def creator_upsert_def
        process_user_no_delete)
  from assms show ?thesis
    unfolding add_holder_tokens_for_user_def add_creator_tokens_for_user_def
    by (auto dest: received [OF _ *(1)] received [OF _ *(2)])
qed

text \<open>
  The live tokens of a user, on some chains and of some contracts (of all when none is named),
  that were synced last before a time.
\<close>

definition stale :: "string \<Rightarrow> string list \<Rightarrow> chain list \<Rightarrow> int \<Rightarrow> stored_definition list \<Rightarrow> stored_token \<Rightarrow> bool" where
  "stale user contracts on_chains start defs t \<longleftrightarrow> sk_owner_user_id t = user \<and> \<not> sk_deleted t \<and> sk_last_synced t < start \<and>
     (\<exists>td \<in> set defs. sd_id td = sk_definition_id t \<and> \<not> sd_deleted td \<and>
       (contracts = [] \<or> sd_contract_id td \<in> set contracts) \<and> (on_chains = [] \<or> sd_chain td \<in> word_of_int ` set on_chains))"

lemma deleted_holders:
  "delete_tokens_before_timestamp \<lparr>dp_remove_creator_status = False, dp_remove_holder_status = True,
      dp_only_from_user_id = to_null_string user True, dp_only_from_chains = map word_of_int on_chains,
      dp_only_from_contract_ids = contracts, dp_timestamp = start\<rparr> now defs tokens =
    map (\<lambda>t. if stale user contracts on_chains start defs t \<and> sk_owned_by_wallets t \<noteq> []
      then t\<lparr>sk_owned_by_wallets := [], sk_last_updated := now\<rparr> else t) tokens" if "user \<noteq> ''''"
  using that unfolding delete_tokens_before_timestamp_def
  by (intro map_cong) (auto simp: is_deleted_by_def is_holder_token_def stale_def to_null_string_def)

lemma deleted_creators:
  "delete_tokens_before_timestamp \<lparr>dp_remove_creator_status = True, dp_remove_holder_status = False,
      dp_only_from_user_id = to_null_string user True, dp_only_from_chains = map word_of_int on_chains,
      dp_only_from_contract_ids = contracts, dp_timestamp = start\<rparr> now defs tokens =
    map (\<lambda>t. if stale user contracts on_chains start defs t \<and> sk_is_creator_token t
      then t\<lparr>sk_is_creator_token := False, sk_last_updated := now\<rparr> else t) tokens" if "user \<noteq> ''''"
  using that unfolding delete_tokens_before_timestamp_def
  by (intro map_cong) (auto simp: is_deleted_by_def is_holder_token_def stale_def to_null_string_def)

text \<open>
  Property C33. For a user with an id: syncs that add holder or creator tokens delete nothing. A sync that replaces them
  gives the same commands and then, exactly when all of these succeeded, one deletion: of the
  user's live tokens on the given chains, and for creators of the given contracts, those that
  were synced last before the sync began lose their wallets, or their creator status, and every
  other token stays as it is. Without given contracts the deletion is not restricted to the
  contracts that were received.
\<close>

theorem replacing_sync_deletes_stale:
  assumes "us_id user \<noteq> ''''"
    and h: "add_holder_tokens_for_user ef ul env user inputs = Some (cs, r)"
    and c: "add_creator_tokens_for_user ef ul env user inputs = Some (cs', r')"
  shows "(\<forall>p. DeleteTokens p \<notin> set cs \<union> set cs') \<and>
    (\<exists>p. map_option fst (replace_holder_tokens_for_user ef ul env user on_chains start inputs)
           = Some (cs @ (if is_ok r then [DeleteTokens p] else [])) \<and>
       (\<forall>now defs tokens. delete_tokens_before_timestamp p now defs tokens =
          map (\<lambda>t. if stale (us_id user) [] on_chains start defs t \<and> sk_owned_by_wallets t \<noteq> []
            then t\<lparr>sk_owned_by_wallets := [], sk_last_updated := now\<rparr> else t) tokens)) \<and>
    (\<exists>p. map_option fst (replace_creator_tokens_for_user ef ul env user contracts on_chains start inputs)
           = Some (cs' @ (if is_ok r' then [DeleteTokens p] else [])) \<and>
       (\<forall>now defs tokens. delete_tokens_before_timestamp p now defs tokens =
          map (\<lambda>t. if stale (us_id user) contracts on_chains start defs t \<and> sk_is_creator_token t
            then t\<lparr>sk_is_creator_token := False, sk_last_updated := now\<rparr> else t) tokens))"
proof (intro conjI)
  show "\<forall>p. DeleteTokens p \<notin> set cs \<union> set cs'"
    using added_without_delete [OF disjI1 [OF h]] added_without_delete [OF disjI2 [OF c]] by blast
  let ?p = "\<lparr>dp_remove_creator_status = False, dp_remove_holder_status = True,
      dp_only_from_user_id = to_null_string (us_id user) True, dp_only_from_chains = map word_of_int on_chains,
      dp_only_from_contract_ids = [], dp_timestamp = start\<rparr>"
  have "\<forall>x. r = Ok x \<longrightarrow> snd x = []" using added_without_delete [OF disjI1 [OF h]] by blast
  then have "map_option fst (replace_holder_tokens_for_user ef ul env user on_chains start inputs)
      = Some (cs @ (if is_ok r then [DeleteTokens ?p] else []))"
    by (cases r) (auto simp: replace_holder_tokens_for_user_def h run_then_eq is_ok_def map_without_error_def dbid_string_def Let_def split: outcome.split)
  then show "\<exists>p. map_option fst (replace_holder_tokens_for_user ef ul env user on_chains start inputs)
           = Some (cs @ (if is_ok r then [DeleteTokens p] else [])) \<and>
       (\<forall>now defs tokens. delete_tokens_before_timestamp p now defs tokens =
          map (\<lambda>t. if stale (us_id user) [] on_chains start defs t \<and> sk_owned_by_wallets t \<noteq> []
            then t\<lparr>sk_owned_by_wallets := [], sk_last_updated := now\<rparr> else t) tokens)"
    using deleted_holders [OF assms(1)] by blast
  let ?q = "\<lparr>dp_remove_creator_status = True, dp_remove_holder_status = False,
      dp_only_from_user_id = to_null_string (us_id user) True, dp_only_from_chains = map word_of_int on_chains,
      dp_only_from_contract_ids = contracts, dp_timestamp = start\<rparr>"
  have "\<forall>x. r' = Ok x \<longrightarrow> snd x = []" using added_without_delete [OF disjI2 [OF c]] by blast
  then have "map_option fst (replace_creator_tokens_for_user ef ul env user contracts on_chains start inputs)
      = Some (cs' @ (if is_ok r' then [DeleteTokens ?q] else []))"
    by (cases r'; cases "contracts = []")
      (auto simp: replace_creator_tokens_for_user_def c run_then_eq is_ok_def map_without_error_def dbid_string_def Let_def split: outcome.split)
  then show "\<exists>p. map_option fst (replace_creator_tokens_for_user ef ul env user contracts on_chains start inputs)
           = Some (cs' @ (if is_ok r' then [DeleteTokens p] else [])) \<and>
       (\<forall>now defs tokens. delete_tokens_before_timestamp p now defs tokens =
          map (\<lambda>t. if stale (us_id user) contracts on_chains start defs t \<and> sk_is_creator_token t
            then t\<lparr>sk_is_creator_token := False, sk_last_updated := now\<rparr> else t) tokens)"
    using deleted_creators [OF assms(1)] by blast
qed


text \<open>A page with one token and its contract, received by a sync that replaces.\<close>

definition sample_inputs :: "provider_input list" where
  "sample_inputs = [Page 0 [sample_chain_token ''0xa'' ''2'']
     [\<lparr>ch_symbol = '''', ch_name = '''', ch_description = '''', ch_profile_image_url = '''', ch_owner_address = '''',
       ch_address = ''0xC'', ch_is_spam = None\<rparr>], PagesClosed]"

definition old_token :: stored_token where
  "old_token = \<lparr>sk_definition_id = ''d1'', sk_owner_user_id = ''u1'', sk_owned_by_wallets = [''w1''], sk_is_creator_token = False,
     sk_deleted = False, sk_last_synced = 3, sk_last_updated = 3\<rparr>"

definition old_definition :: stored_definition where
  "old_definition = \<lparr>sd_id = ''d1'', sd_contract_id = ''k9'', sd_chain = 0, sd_deleted = False\<rparr>"

lemma sample_received:
  "case add_holder_tokens_for_user (\<lambda>a b. a = b) id sample_sync_env sample_user sample_inputs of
     Some (cs, r) \<Rightarrow> is_ok r | None \<Rightarrow> False"
  "case add_creator_tokens_for_user (\<lambda>a b. a = b) id sample_sync_env sample_user sample_inputs of
     Some (cs, r) \<Rightarrow> is_ok r | None \<Rightarrow> False"
  by code_simp+

theorem replacing_sync_deletes_stale_witness:
  "\<exists>cs p. map_option fst (replace_holder_tokens_for_user (\<lambda>a b. a = b) id sample_sync_env sample_user [0] 5 sample_inputs)
      = Some (cs @ [DeleteTokens p]) \<and> (\<forall>d. DeleteTokens d \<notin> set cs) \<and>
    delete_tokens_before_timestamp p 9 [old_definition] [old_token, old_token\<lparr>sk_last_synced := 5\<rparr>] =
      [old_token\<lparr>sk_owned_by_wallets := [], sk_last_updated := 9\<rparr>, old_token\<lparr>sk_last_synced := 5\<rparr>]"
proof -
  obtain cs r where h: "add_holder_tokens_for_user (\<lambda>a b. a = b) id sample_sync_env sample_user sample_inputs = Some (cs, r)" "is_ok r"
    using sample_received(1) by (auto split: option.splits)
  obtain cs' r' where c: "add_creator_tokens_for_user (\<lambda>a b. a = b) id sample_sync_env sample_user sample_inputs = Some (cs', r')"
    using sample_received(2) by (auto split: option.splits)
  have "us_id sample_user \<noteq> ''''" by (simp add: sample_user_def)
  from replacing_sync_deletes_stale [OF this h(1) c, of "[0]" 5 "[]"] obtain p where
    no: "\<forall>d. DeleteTokens d \<notin> set cs"
    and run: "map_option fst (replace_holder_tokens_for_user (\<lambda>a b. a = b) id sample_sync_env sample_user [0] 5 sample_inputs)
      = Some (cs @ [DeleteTokens p])"
    and deletes: "\<forall>now defs tokens. delete_tokens_before_timestamp p now defs tokens =
          map (\<lambda>t. if stale (us_id sample_user) [] [0] 5 defs t \<and> sk_owned_by_wallets t \<noteq> []
            then t\<lparr>sk_owned_by_wallets := [], sk_last_updated := now\<rparr> else t) tokens"
    using h(2) by auto
  have "stale (us_id sample_user) [] [0] 5 [old_definition] old_token"
    "\<not> stale (us_id sample_user) [] [0] 5 [old_definition] (old_token\<lparr>sk_last_synced := 5\<rparr>)" "sk_owned_by_wallets old_token \<noteq> []"
    by (simp_all add: stale_def sample_user_def old_token_def old_definition_def)
  with no run deletes show ?thesis by auto
qed

end
