(* ===== verification/NotificationData.thy ===== *)
theory NotificationData
  imports FeedMerge TokenProps
begin

text \<open>
  \<^verbatim>\<open>service/persist/notification.go\<close>: the data of a notification, how the data of two
  notifications of a group are joined, and the platforms of an announcement. A nil slice and
  an empty one behave alike here.
\<close>

section \<open>Announcements\<close>

definition announcement_platforms :: "string list" where
  "announcement_platforms = [''Web'', ''Mobile'', ''All'']"

definition announcement_platform_is_valid :: "string \<Rightarrow> bool" where
  "announcement_platform_is_valid a \<longleftrightarrow> a \<in> set announcement_platforms"

definition announcement_platform_unmarshal_gql :: "(string \<Rightarrow> string) \<Rightarrow> string \<Rightarrow> go_any \<Rightarrow> string outcome" where
  "announcement_platform_unmarshal_gql ul old v =
     (case v of
        AnyString n \<Rightarrow>
          (let l = to_lower ul n in
           if l = ''web'' then Ok ''Web''
           else if l = ''all'' then Ok ''All''
           else if l = ''mobile'' then Ok ''Mobile''
           else Err (ErrText (''invalid announcement platform: '' @ n)))
      | _ \<Rightarrow> Err (ErrText ''chain must be a string''))"

definition announcement_platform_marshal_gql :: "string \<Rightarrow> string outcome" where
  "announcement_platform_marshal_gql c =
     (if c = ''Web'' then Ok (quoted ''Web'')
      else if c = ''Mobile'' then Ok (quoted ''Mobile'')
      else if c = ''All'' then Ok (quoted ''All'')
      else Panic (PanicText ''invalid announcement platform''))"

definition announcement_text :: "string \<Rightarrow> string" where
  "announcement_text c = (case announcement_platform_marshal_gql c of Ok t \<Rightarrow> t | _ \<Rightarrow> '''')"

lemma announcement_texts [gql_simps]:
  "to_lower ul ''Web'' = ''web''" "to_lower ul ''All'' = ''all''" "to_lower ul ''Mobile'' = ''mobile''"
  by code_simp+

interpretation announcement_platform: gql_enum announcement_text "announcement_platform_unmarshal_gql ul"
    announcement_platform_is_valid for ul
proof
  show "\<exists>t. announcement_text c = quoted t \<and> (\<forall>old. announcement_platform_unmarshal_gql ul old (AnyString t) = Ok c)"
    if "announcement_platform_is_valid c" for c
    using that by (auto simp: announcement_platform_is_valid_def announcement_platforms_def announcement_text_def
        announcement_platform_marshal_gql_def announcement_platform_unmarshal_gql_def gql_simps quoted_def Let_def)
  show "\<exists>e. announcement_platform_unmarshal_gql ul old v = Err e" if "\<And>s. v \<noteq> AnyString s" for v old
    using that by (cases v) (auto simp: announcement_platform_unmarshal_gql_def)
  show "c = old \<or> announcement_platform_is_valid c"
    if "announcement_platform_unmarshal_gql ul old (AnyString s) = Ok c" for old s c
    using that by (auto simp: announcement_platform_unmarshal_gql_def announcement_platform_is_valid_def
        announcement_platforms_def Let_def split: if_splits)
qed

record announcement_details =
  an_platform :: string
  an_internal_id :: string
  an_image_url :: string
  an_title :: string
  an_description :: string
  an_cta_text :: string
  an_cta_link :: string
  an_push_text :: string

section \<open>The data of a notification\<close>

text \<open>\<open>nd_farcaster_joined\<close> is the user of \<^verbatim>\<open>UserFromFarcasterJoinedDetails\<close>.\<close>

record notification_data =
  nd_authed_viewer_ids :: "string list"
  nd_unauthed_viewer_ids :: "string list"
  nd_follower_ids :: "string list"
  nd_admirer_ids :: "string list"
  nd_followed_back :: bool
  nd_refollowed :: bool
  nd_new_token_id :: string
  nd_new_token_quantity :: string
  nd_original_comment_id :: string
  nd_activity_badge_threshold :: int
  nd_new_top_active_user :: bool
  nd_announcement :: "announcement_details option"
  nd_farcaster_joined :: "string option"

definition zero_notification_data :: notification_data where
  "zero_notification_data = \<lparr>nd_authed_viewer_ids = [], nd_unauthed_viewer_ids = [], nd_follower_ids = [],
     nd_admirer_ids = [], nd_followed_back = False, nd_refollowed = False, nd_new_token_id = '''',
     nd_new_token_quantity = '''', nd_original_comment_id = '''', nd_activity_badge_threshold = 0,
     nd_new_top_active_user = False, nd_announcement = None, nd_farcaster_joined = None\<rparr>"

definition unique_dbids :: "string list \<Rightarrow> string list" where
  "unique_dbids ids = remove_duplicates_loop {} [] ids"

definition unique_strings :: "string list \<Rightarrow> string list" where
  "unique_strings strs = remove_duplicates_loop {} [] strs"

interpretation unique_dbids: first_occurrences unique_dbids "\<lambda>d. d"
  by unfold_locales (simp_all add: unique_dbids_def remove_duplicates_loop_snoc)

interpretation unique_strings: first_occurrences unique_strings "\<lambda>d. d"
  by unfold_locales (simp_all add: unique_strings_def remove_duplicates_loop_snoc)

definition validate_data :: "notification_data \<Rightarrow> notification_data" where
  "validate_data n = zero_notification_data
     \<lparr>nd_admirer_ids := unique_dbids (nd_admirer_ids n),
      nd_follower_ids := unique_dbids (nd_follower_ids n),
      nd_authed_viewer_ids := unique_dbids (nd_authed_viewer_ids n),
      nd_unauthed_viewer_ids := unique_strings (nd_unauthed_viewer_ids n),
      nd_new_token_id := nd_new_token_id n,
      nd_new_token_quantity := nd_new_token_quantity n,
      nd_original_comment_id := nd_original_comment_id n,
      nd_followed_back := nd_followed_back n,
      nd_refollowed := nd_refollowed n,
      nd_activity_badge_threshold := nd_activity_badge_threshold n,
      nd_new_top_active_user := nd_new_top_active_user n,
      nd_announcement := nd_announcement n\<rparr>"

definition concat_data :: "(string \<Rightarrow> string) \<Rightarrow> notification_data \<Rightarrow> notification_data \<Rightarrow> notification_data" where
  "concat_data ul n other = validate_data (zero_notification_data
     \<lparr>nd_admirer_ids := nd_admirer_ids other @ nd_admirer_ids n,
      nd_follower_ids := nd_follower_ids other @ nd_follower_ids n,
      nd_authed_viewer_ids := nd_authed_viewer_ids other @ nd_authed_viewer_ids n,
      nd_unauthed_viewer_ids := nd_unauthed_viewer_ids other @ nd_unauthed_viewer_ids n,
      nd_followed_back := (nd_followed_back other \<or> nd_followed_back n),
      nd_refollowed := (nd_refollowed other \<or> nd_refollowed n),
      nd_new_token_quantity := hexstr_add ul (nd_new_token_quantity other) (nd_new_token_quantity n),
      nd_new_token_id := first_non_empty_string [nd_new_token_id other, nd_new_token_id n],
      nd_original_comment_id := first_non_empty_string [nd_original_comment_id other, nd_original_comment_id n],
      nd_activity_badge_threshold := fst (find_first 0
        [nd_activity_badge_threshold other, nd_activity_badge_threshold n] (\<lambda>i. i > 0)),
      nd_new_top_active_user := (nd_new_top_active_user other \<or> nd_new_top_active_user n),
      nd_announcement := (if nd_announcement other \<noteq> None then nd_announcement other else nd_announcement n)\<rparr>)"

end
