(* ===== verification/World.thy ===== *)
theory World
  imports Prelude
begin

text \<open>
  Code that acts on the world outside (a database, queues, a clock): an act takes the state of
  the world and yields its outcome and the state after it. Acts in sequence stop at the first
  error or panic, and what was done before stays done.
\<close>

type_synonym ('s, 'a) act = "'s \<Rightarrow> 'a outcome \<times> 's"

definition give :: "'a outcome \<Rightarrow> ('s, 'a) act" where
  "give r = (\<lambda>s. (r, s))"

definition act_then :: "('s, 'a) act \<Rightarrow> ('a \<Rightarrow> ('s, 'b) act) \<Rightarrow> ('s, 'b) act" where
  "act_then m f = (\<lambda>s. case m s of
     (Ok x, s1) \<Rightarrow> f x s1 | (Err e, s1) \<Rightarrow> (Err e, s1) | (Panic p, s1) \<Rightarrow> (Panic p, s1))"

text \<open>The error as a value, for code that looks at it before it goes on.\<close>

definition attempt :: "('s, 'a) act \<Rightarrow> ('s, gerror + 'a) act" where
  "attempt m = (\<lambda>s. case m s of
     (Ok x, s1) \<Rightarrow> (Ok (Inr x), s1) | (Err e, s1) \<Rightarrow> (Ok (Inl e), s1) | (Panic p, s1) \<Rightarrow> (Panic p, s1))"

text \<open>The error is reported or dropped, and a default takes the place of the value.\<close>

definition or_else :: "('s, 'a) act \<Rightarrow> 'a \<Rightarrow> ('s, 'a) act" where
  "or_else m d = (\<lambda>s. case m s of
     (Ok x, s1) \<Rightarrow> (Ok x, s1) | (Err e, s1) \<Rightarrow> (Ok d, s1) | (Panic p, s1) \<Rightarrow> (Panic p, s1))"

text \<open>
  A call nobody waits for: its error is not seen. Its panic is not seen either where the
  goroutine belongs to a pool that catches panics (\<open>forgotten\<close>); that of a plain goroutine ends
  the program (\<open>detached\<close>).
\<close>

definition forgotten :: "('s, unit) act \<Rightarrow> ('s, unit) act" where
  "forgotten m = (\<lambda>s. (Ok (), snd (m s)))"

definition detached :: "('s, unit) act \<Rightarrow> ('s, unit) act" where
  "detached m = (\<lambda>s. case m s of (Panic p, s1) \<Rightarrow> (Panic p, s1) | (r, s1) \<Rightarrow> (Ok (), s1))"

definition wrapped :: "(gerror \<Rightarrow> gerror) \<Rightarrow> ('s, 'a) act \<Rightarrow> ('s, 'a) act" where
  "wrapped w m = (\<lambda>s. case m s of (Err e, s1) \<Rightarrow> (Err (w e), s1) | r \<Rightarrow> r)"

text \<open>A deferred call runs after the act however it ends, and its own error is dropped.\<close>

definition deferring :: "('s, 'a) act \<Rightarrow> ('s \<Rightarrow> 's) \<Rightarrow> ('s, 'a) act" where
  "deferring m d = (\<lambda>s. case m s of (r, s1) \<Rightarrow> (r, d s1))"

definition look :: "('s \<Rightarrow> 'a) \<Rightarrow> ('s, 'a) act" where
  "look f = (\<lambda>s. (Ok (f s), s))"

fun each :: "('a \<Rightarrow> ('s, unit) act) \<Rightarrow> 'a list \<Rightarrow> ('s, unit) act" where
  "each f [] = give (Ok ())"
| "each f (x # xs) = act_then (f x) (\<lambda>_. each f xs)"

named_theorems act_defs

lemma act_then_give [simp]:
  "act_then (give (Ok x)) f = f x" "act_then (give (Err e)) f = give (Err e)"
  "act_then (give (Panic p)) f = give (Panic p)"
  by (simp_all add: act_then_def give_def)

lemma act_then_apply:
  "act_then m f s = (case fst (m s) of Ok x \<Rightarrow> f x (snd (m s)) | Err e \<Rightarrow> (Err e, snd (m s)) | Panic p \<Rightarrow> (Panic p, snd (m s)))"
  by (cases "m s"; cases "fst (m s)") (auto simp: act_then_def)

lemma act_then_assoc: "act_then (act_then m f) g = act_then m (\<lambda>x. act_then (f x) g)"
  by (rule ext) (simp add: act_then_apply split: outcome.split)

lemma give_apply [simp, act_defs]: "give r s = (r, s)"
  by (simp add: give_def)

lemma look_apply [simp, act_defs]: "look f s = (Ok (f s), s)"
  by (simp add: look_def)

lemma act_then_look [simp]: "act_then (look f) g s = g (f s) s"
  by (simp add: act_then_def)

lemma act_then_Ok_iff:
  "act_then m f s = (Ok y, t) \<longleftrightarrow> (\<exists>x s1. m s = (Ok x, s1) \<and> f x s1 = (Ok y, t))"
  by (cases "m s"; cases "fst (m s)") (auto simp: act_then_def)

lemma act_then_after: "m s = (Ok x, t) \<Longrightarrow> act_then m f s = f x t"
  by (simp add: act_then_def)

lemma or_else_after: "m s = (Ok x, t) \<Longrightarrow> or_else m d s = (Ok x, t)"
  by (simp add: or_else_def)

lemma or_else_not_Err [simp]: "or_else m d s \<noteq> (Err e, t)"
  by (cases "m s"; cases "fst (m s)") (auto simp: or_else_def)

lemma act_then_cong:
  "m s = m' s \<Longrightarrow> (\<And>x t. m s = (Ok x, t) \<Longrightarrow> f x t = f' x t) \<Longrightarrow> act_then m f s = act_then m' f' s"
  by (cases "m' s"; cases "fst (m' s)") (auto simp: act_then_def)

text \<open>A property of the world that every single act keeps is kept by what is built of them.\<close>

definition keeps :: "('s \<Rightarrow> bool) \<Rightarrow> ('s, 'a) act \<Rightarrow> bool" where
  "keeps I m \<longleftrightarrow> (\<forall>s. I s \<longrightarrow> I (snd (m s)))"

lemma keeps_give [intro, simp]: "keeps I (give r)"
  by (simp add: keeps_def)

lemma keeps_look [intro, simp]: "keeps I (look f)"
  by (simp add: keeps_def)

lemma keeps_then [intro]: "keeps I m \<Longrightarrow> (\<And>x. keeps I (f x)) \<Longrightarrow> keeps I (act_then m f)"
  by (auto simp: keeps_def act_then_apply split: outcome.split)

lemma keeps_attempt [intro]: "keeps I m \<Longrightarrow> keeps I (attempt m)"
  by (auto simp: keeps_def attempt_def split: prod.split outcome.split)

lemma keeps_or_else [intro]: "keeps I m \<Longrightarrow> keeps I (or_else m d)"
  by (auto simp: keeps_def or_else_def split: prod.split outcome.split)

lemma keeps_wrapped [intro]: "keeps I m \<Longrightarrow> keeps I (wrapped w m)"
  by (auto simp: keeps_def wrapped_def split: prod.split outcome.split)

lemma keeps_forgotten [intro]: "keeps I m \<Longrightarrow> keeps I (forgotten m)"
  by (simp add: keeps_def forgotten_def)

lemma keeps_detached [intro]: "keeps I m \<Longrightarrow> keeps I (detached m)"
  by (auto simp: keeps_def detached_def split: prod.split outcome.split)

lemma keeps_each [intro]: "(\<And>x. x \<in> set xs \<Longrightarrow> keeps I (f x)) \<Longrightarrow> keeps I (each f xs)"
  by (induction xs) auto

end
