(* ===== verification/Notifications.thy ===== *)
theory Notifications
  imports NotificationData World Retry
begin

text \<open>
  \<^verbatim>\<open>service/notifications/notifications.go\<close>: a notification is stored alone or joined with a
  recent one, pushed to the devices of its owner within rate limits, and published. The
  database, the limiters, the task queue, pubsub and the clock are the fields of
  \<open>notif_world\<close>; times are nanoseconds. \<open>ul\<close> is \<^verbatim>\<open>strings.ToLower\<close> on strings that are not ASCII.
\<close>

section \<open>Actions\<close>

definition action_admired_feed_event :: string where "action_admired_feed_event = ''AdmiredFeedEvent''"
definition action_admired_post :: string where "action_admired_post = ''AdmiredPost''"
definition action_admired_token :: string where "action_admired_token = ''AdmiredToken''"
definition action_admired_comment :: string where "action_admired_comment = ''AdmiredComment''"
definition action_commented_on_feed_event :: string where "action_commented_on_feed_event = ''CommentedOnFeedEvent''"
definition action_commented_on_post :: string where "action_commented_on_post = ''CommentedOnPost''"
definition action_reply_to_comment :: string where "action_reply_to_comment = ''RepliedToComment''"
definition action_mention_user :: string where "action_mention_user = ''MentionUser''"
definition action_mention_community :: string where "action_mention_community = ''MentionCommunity''"
definition action_viewed_gallery :: string where "action_viewed_gallery = ''ViewedGallery''"
definition action_new_tokens_received :: string where "action_new_tokens_received = ''NewTokensReceived''"
definition action_user_posted_your_work :: string where "action_user_posted_your_work = ''UserPostedYourWork''"
definition action_user_posted_first_post :: string where "action_user_posted_first_post = ''UserPostedFirstPost''"
definition action_top_activity_badge :: string where "action_top_activity_badge = ''ActivityBadgeReceived''"
definition action_announcement :: string where "action_announcement = ''Announcement''"
definition action_farcaster_joined :: string where "action_farcaster_joined = ''UserFromFarcasterJoined''"

lemmas notif_action_defs = action_admired_feed_event_def action_admired_post_def action_admired_token_def
  action_admired_comment_def action_commented_on_feed_event_def action_commented_on_post_def
  action_reply_to_comment_def action_mention_user_def action_mention_community_def action_viewed_gallery_def
  action_new_tokens_received_def action_user_posted_your_work_def action_user_posted_first_post_def
  action_top_activity_badge_def action_announcement_def action_farcaster_joined_def action_user_followed_users_def

definition admire_actions :: "string list" where
  "admire_actions = [action_admired_feed_event, action_admired_post, action_admired_token, action_admired_comment]"

section \<open>Times\<close>

definition minute :: int where "minute = 60 * 10 ^ 9"
definition hour :: int where "hour = 60 * minute"

definition view_window :: int where "view_window = 24 * hour"
definition default_grouped_window :: int where "default_grouped_window = 10 * minute"
definition max_lock_timeout :: int where "max_lock_timeout = 2 * minute"

definition group_window :: "string \<Rightarrow> int" where
  "group_window action =
     (if action \<in> set [action_admired_comment, action_admired_post, action_admired_token] then 24 * hour
      else default_grouped_window)"

text \<open>\<^verbatim>\<open>time.Since\<close> saturates at the ends of a duration.\<close>

definition time_since :: "int \<Rightarrow> int \<Rightarrow> int" where
  "time_since now t = max (- (2 ^ 63)) (min (2 ^ 63 - 1) (now - t))"

definition zero_time :: int where "zero_time = - 62135596800 * 10 ^ 9"

text \<open>
  The time library of the week: the civil day of an instant in the clock's own zone and in
  America/Los_Angeles, as days since 1970-01-01, and the instant at which a day begins there.
\<close>

record week_clock =
  wc_own_day :: "int \<Rightarrow> int"
  wc_pst_day :: "int \<Rightarrow> int"
  wc_pst_midnight :: "int \<Rightarrow> int"

definition weekday :: "int \<Rightarrow> int" where
  "weekday day = (day + 4) mod 7"

definition week_start_day :: "week_clock \<Rightarrow> int \<Rightarrow> int" where
  "week_start_day wc t = wc_pst_day wc t - weekday (wc_own_day wc t)"

definition beginning_of_week :: "week_clock \<Rightarrow> int \<Rightarrow> int" where
  "beginning_of_week wc t = wc_pst_midnight wc (week_start_day wc t)"

section \<open>Rows, parameters and the world\<close>

record notification =
  no_id :: string
  no_owner_id :: string
  no_created_at :: int
  no_action :: string
  no_data :: notification_data
  no_event_ids :: "string list"
  no_feed_event_id :: string
  no_comment_id :: string
  no_gallery_id :: string
  no_amount :: i32
  no_post_id :: string
  no_token_id :: string
  no_mention_id :: string
  no_community_id :: string

definition zero_notification :: notification where
  "zero_notification = \<lparr>no_id = '''', no_owner_id = '''', no_created_at = zero_time, no_action = '''',
     no_data = zero_notification_data, no_event_ids = [], no_feed_event_id = '''', no_comment_id = '''',
     no_gallery_id = '''', no_amount = 0, no_post_id = '''', no_token_id = '''', no_mention_id = '''',
     no_community_id = ''''\<rparr>"

datatype create_query = CreateAdmire | CreateComment | CreateSimple | CreateViewGallery | CreateToken
  | CreateMentionUser | CreateCommunity | CreateUserPostedYourWork | CreatePost

record create_params =
  cn_query :: create_query
  cn_id :: string
  cn_owner_id :: string
  cn_action :: string
  cn_data :: notification_data
  cn_event_ids :: "string list"
  cn_feed_event :: null_string
  cn_post :: null_string
  cn_token :: null_string
  cn_comment :: null_string
  cn_gallery_id :: string
  cn_amount :: i32
  cn_mention_id :: string
  cn_community_id :: string

record recent_params =
  rp_owner_id :: string
  rp_action :: string
  rp_token_id :: string
  rp_only_for_feed_event :: bool
  rp_feed_event_id :: string
  rp_only_for_post :: bool
  rp_post_id :: string
  rp_only_for_comment :: bool
  rp_comment_id :: string

record update_params =
  un_id :: string
  un_data :: notification_data
  un_amount :: i32
  un_event_ids :: "string list"

record announcement_params =
  ap_ids :: "string list"
  ap_action :: string
  ap_data :: notification_data
  ap_event_ids :: "string list"
  ap_internal :: string

record push_message =
  pm_push_token_id :: string
  pm_title :: string
  pm_body :: string
  pm_action :: string
  pm_notification_id :: string
  pm_sound :: bool
  pm_badge :: int

record notif_user =
  nu_id :: string
  nu_username :: null_string
  nu_created_at :: int

record notif_comment =
  nc_actor_id :: string
  nc_comment :: string

record notif_post =
  np_actor_id :: string
  np_caption :: null_string

record named_row =
  nr_id :: string
  nr_name :: string

record 's notif_world =
  nw_new_id :: "('s, string) act"
  nw_now :: "'s \<Rightarrow> int"
  nw_clock :: week_clock
  nw_create :: "create_params \<Rightarrow> ('s, notification) act"
  nw_create_announcements :: "announcement_params \<Rightarrow> ('s, notification list) act"
  nw_update :: "update_params \<Rightarrow> ('s, unit) act"
  nw_most_recent :: "recent_params \<Rightarrow> ('s, notification) act"
  nw_most_recent_token :: "recent_params \<Rightarrow> ('s, notification) act"
  nw_after :: "string \<Rightarrow> string \<Rightarrow> int \<Rightarrow> ('s, notification list) act"
  nw_by_id :: "string \<Rightarrow> ('s, notification) act"
  nw_count_users :: "('s, int) act"
  nw_count_unseen :: "string \<Rightarrow> ('s, int) act"
  nw_user :: "string \<Rightarrow> ('s, notif_user) act"
  nw_comment :: "string \<Rightarrow> ('s, notif_comment) act"
  nw_post :: "string \<Rightarrow> ('s, notif_post) act"
  nw_feed_event_collection :: "string \<Rightarrow> ('s, string) act"
  nw_collection :: "string \<Rightarrow> ('s, named_row) act"
  nw_community :: "string \<Rightarrow> ('s, named_row) act"
  nw_token_definition :: "string \<Rightarrow> 's \<Rightarrow> (gerror + named_row) \<times> 's"
  nw_push_tokens :: "string \<Rightarrow> ('s, string list) act"
  nw_limit :: "string \<Rightarrow> string \<Rightarrow> ('s, bool) act"
  nw_push_task :: "push_message \<Rightarrow> ('s, unit) act"
  nw_publish :: "string \<Rightarrow> string \<Rightarrow> ('s, unit) act"
  nw_json :: "notification \<Rightarrow> string outcome"
  nw_env :: "string \<Rightarrow> string"
  nw_unescape :: "string \<Rightarrow> string"
  nw_lock :: "string \<Rightarrow> int \<Rightarrow> 's \<Rightarrow> bool \<times> 's"
  nw_unlock :: "string \<Rightarrow> 's \<Rightarrow> 's"
  nw_sleep :: "int \<Rightarrow> 's \<Rightarrow> 's"
  nw_intn :: "int \<Rightarrow> int"
  nw_wrap :: "string \<Rightarrow> gerror \<Rightarrow> gerror"

section \<open>Rate limits\<close>

definition limiter_comments :: string where "limiter_comments = ''comments''"
definition limiter_admires :: string where "limiter_admires = ''admires''"
definition limiter_follows :: string where "limiter_follows = ''follows''"
definition limiter_tokens :: string where "limiter_tokens = ''tokens''"
definition limiter_feed_entities :: string where "limiter_feed_entities = ''feedEntities''"
definition limiter_users :: string where "limiter_users = ''users''"

definition is_action_allowed :: "'s notif_world \<Rightarrow> string \<Rightarrow> string \<Rightarrow> ('s, bool) act" where
  "is_action_allowed w limiter key = or_else (nw_limit w limiter key) False"

definition try_key :: "'s notif_world \<Rightarrow> string \<Rightarrow> string \<Rightarrow> gerror \<Rightarrow> ('s, unit) act" where
  "try_key w limiter key err =
     act_then (is_action_allowed w limiter key) (\<lambda>ok. give (if ok then Ok () else Err err))"

definition three_part_key :: "string \<Rightarrow> string \<Rightarrow> string \<Rightarrow> string" where
  "three_part_key a b c = dbid_string a @ '':'' @ dbid_string b @ '':'' @ dbid_string c"

definition try_comment :: "'s notif_world \<Rightarrow> string \<Rightarrow> string \<Rightarrow> string \<Rightarrow> ('s, unit) act" where
  "try_comment w sender receiver feed_event =
     try_key w limiter_comments (three_part_key sender receiver feed_event)
       (ErrRateLimited limiter_comments sender receiver feed_event '''' '''')"

definition try_feed_entity :: "'s notif_world \<Rightarrow> string \<Rightarrow> string \<Rightarrow> string \<Rightarrow> ('s, unit) act" where
  "try_feed_entity w sender receiver post =
     try_key w limiter_feed_entities (three_part_key sender receiver post)
       (ErrRateLimited limiter_feed_entities sender receiver post '''' '''')"

definition try_admire :: "'s notif_world \<Rightarrow> string \<Rightarrow> string \<Rightarrow> string \<Rightarrow> ('s, unit) act" where
  "try_admire w sender receiver feed_event =
     try_key w limiter_admires (three_part_key sender receiver feed_event)
       (ErrRateLimited limiter_admires sender receiver feed_event '''' '''')"

definition try_admire_comment :: "'s notif_world \<Rightarrow> string \<Rightarrow> string \<Rightarrow> string \<Rightarrow> ('s, unit) act" where
  "try_admire_comment w sender receiver comment =
     try_key w limiter_admires (three_part_key sender receiver comment)
       (ErrRateLimited limiter_admires sender receiver '''' '''' comment)"

definition try_admire_token :: "'s notif_world \<Rightarrow> string \<Rightarrow> string \<Rightarrow> string \<Rightarrow> ('s, unit) act" where
  "try_admire_token w sender receiver token =
     try_key w limiter_admires (three_part_key sender receiver token)
       (ErrRateLimited limiter_admires sender receiver '''' token '''')"

definition try_follow :: "'s notif_world \<Rightarrow> string \<Rightarrow> string \<Rightarrow> ('s, unit) act" where
  "try_follow w sender receiver =
     try_key w limiter_follows (sender @ '':'' @ receiver) (ErrRateLimited limiter_follows sender receiver '''' '''' '''')"

definition try_tokens :: "'s notif_world \<Rightarrow> string \<Rightarrow> string \<Rightarrow> ('s, unit) act" where
  "try_tokens w sender token =
     try_key w limiter_tokens (sender @ '':'' @ token) (ErrRateLimited limiter_follows sender '''' '''' '''' '''')"

definition try_users :: "'s notif_world \<Rightarrow> string \<Rightarrow> ('s, unit) act" where
  "try_users w sender = try_key w limiter_users sender (ErrRateLimited limiter_users sender '''' '''' '''' '''')"

section \<open>The text of a notification\<close>

record user_facing =
  uf_actor :: string
  uf_action :: string
  uf_collection_name :: string
  uf_collection_id :: string
  uf_preview :: string

definition user_facing_of :: "string \<Rightarrow> string \<Rightarrow> string \<Rightarrow> user_facing" where
  "user_facing_of actor act preview = \<lparr>uf_actor = actor, uf_action = act, uf_collection_name = '''',
     uf_collection_id = '''', uf_preview = preview\<rparr>"

definition user_facing_string :: "(string \<Rightarrow> string) \<Rightarrow> user_facing \<Rightarrow> string" where
  "user_facing_string unescape u =
     (let cur = uf_actor u @ '' '' @ uf_action u;
          cur1 = (if uf_collection_name u \<noteq> '''' then cur @ '' '' @ uf_collection_name u else cur);
          cur2 = (if uf_preview u \<noteq> '''' then cur1 @ '': '' @ uf_preview u else cur1)
      in unescape cur2)"

definition first_id :: "string list \<Rightarrow> string outcome" where
  "first_id ids = (case ids of [] \<Rightarrow> Panic IndexRange | i # _ \<Rightarrow> Ok i)"

definition preview_text :: "string \<Rightarrow> string outcome" where
  "preview_text s = truncate_with_ellipsis s 40"

definition no_username :: "notif_user \<Rightarrow> gerror" where
  "no_username u = ErrText (''user with ID='' @ nu_id u @ '' has no username'')"

definition username_of :: "notif_user \<Rightarrow> string outcome" where
  "username_of u = (if ns_valid (nu_username u) then Ok (ns_string (nu_username u)) else Err (no_username u))"

definition err_name_not_available :: gerror where
  "err_name_not_available = ErrText ''name not available''"

definition name_retry :: retry where
  "name_retry = \<lparr>min_wait = 5, max_wait = 30, max_retries = 3\<rparr>"

text \<open>The loop that asks again for the name of a token, on the row it has, whether it has a name, and the world.\<close>

definition ask_for_name :: "'s notif_world \<Rightarrow> string \<Rightarrow> named_row \<times> bool \<times> 's \<Rightarrow> gerror option \<times> named_row \<times> bool \<times> 's" where
  "ask_for_name w token = (\<lambda>(td, found, s). case nw_token_definition w token s of
     (Inl e, s1) \<Rightarrow> (Some e, \<lparr>nr_id = '''', nr_name = ''''\<rparr>, found, s1)
   | (Inr td1, s1) \<Rightarrow> if nr_name td1 = '''' then (Some err_name_not_available, td1, found, s1) else (None, td1, True, s1))"

definition token_name :: "'s notif_world \<Rightarrow> string \<Rightarrow> ('s, named_row \<times> bool) act" where
  "token_name w token = (\<lambda>s. case nw_token_definition w token s of
     (Inl e, s1) \<Rightarrow> (Err e, s1)
   | (Inr td, s1) \<Rightarrow>
       if nr_name td \<noteq> '''' then (Ok (td, True), s1)
       else (case retry_func (nw_intn w) (ask_for_name w token) (\<lambda>e. e = err_name_not_available) name_retry
               (td, False, nw_sleep w (5 * 10 ^ 9) s1) of
             (Panic p, _, _, _, s2) \<Rightarrow> (Panic p, s2)
           | (_, _, td1, found, s2) \<Rightarrow> (Ok (td1, found), s2)))"

definition admire_facing :: "'s notif_world \<Rightarrow> notification \<Rightarrow> ('s, user_facing) act" where
  "admire_facing w n =
     act_then
       (if no_action n = action_admired_feed_event
        then act_then (wrapped (nw_wrap w (''failed to get feed event for admire '' @ no_feed_event_id n))
                 (nw_feed_event_collection w (no_feed_event_id n))) (\<lambda>cid.
               act_then (or_else (nw_collection w cid) \<lparr>nr_id = '''', nr_name = ''''\<rparr>) (\<lambda>c.
                 give (Ok (if nr_id c \<noteq> '''' \<and> nr_name c \<noteq> ''''
                   then \<lparr>uf_actor = '''', uf_action = ''admired your additions to'', uf_collection_name = nr_name c,
                         uf_collection_id = nr_id c, uf_preview = ''''\<rparr>
                   else user_facing_of '''' ''admired your gallery update'' ''''))))
        else give (Ok (user_facing_of ''''
               (if no_action n = action_admired_token then ''bookmarked your token''
                else if no_action n = action_admired_comment then ''admired your comment''
                else ''admired your post'') '''')))
       (\<lambda>data. let admirers = nd_admirer_ids (no_data n) in
         if length admirers > 1 then give (Ok (data\<lparr>uf_actor := itoa (int (length admirers)) @ '' collectors''\<rparr>))
         else act_then (give (first_id admirers)) (\<lambda>a. act_then (nw_user w a) (\<lambda>u.
           give (Ok (data\<lparr>uf_actor := ns_string (nu_username u)\<rparr>)))))"

definition follow_facing :: "'s notif_world \<Rightarrow> notification \<Rightarrow> ('s, user_facing) act" where
  "follow_facing w n = (case nd_follower_ids (no_data n) of
     [] \<Rightarrow> give (Err (ErrText ''no follower ids''))
   | [f] \<Rightarrow> act_then (wrapped (nw_wrap w (''failed to get user for follower '' @ f)) (nw_user w f)) (\<lambda>u.
       give (Ok (user_facing_of (ns_string (nu_username u))
         (if nd_followed_back (no_data n) then ''followed you back'' else ''followed you'') '''')))
   | fs \<Rightarrow> give (Ok (user_facing_of (itoa (int (length fs)) @ '' users'') ''followed you'' '''')))"

definition comment_facing :: "'s notif_world \<Rightarrow> notification \<Rightarrow> ('s, user_facing) act" where
  "comment_facing w n =
     act_then (wrapped (nw_wrap w (''failed to get comment for comment '' @ no_comment_id n)) (nw_comment w (no_comment_id n))) (\<lambda>c.
       act_then (wrapped (nw_wrap w (''failed to get user for comment actor '' @ nc_actor_id c)) (nw_user w (nc_actor_id c))) (\<lambda>u.
         act_then (or_else (nw_feed_event_collection w (no_feed_event_id n)) '''') (\<lambda>cid.
           if no_action n = action_commented_on_feed_event \<and> cid \<noteq> ''''
           then act_then (wrapped (nw_wrap w (''failed to get collection for comment '' @ cid)) (nw_collection w cid)) (\<lambda>col.
                  act_then (give (preview_text (nc_comment c))) (\<lambda>p.
                    give (Ok \<lparr>uf_actor = ns_string (nu_username u), uf_action = ''commented on your additions to'',
                      uf_collection_name = nr_name col, uf_collection_id = nr_id col, uf_preview = p\<rparr>)))
           else act_then (give (preview_text (nc_comment c))) (\<lambda>p.
                  give (Ok (user_facing_of (ns_string (nu_username u))
                    (if no_action n = action_commented_on_feed_event then ''commented on your gallery update''
                     else ''commented on your post'') p))))))"

definition viewed_facing :: "'s notif_world \<Rightarrow> notification \<Rightarrow> ('s, user_facing) act" where
  "viewed_facing w n =
     (let authed = nd_authed_viewer_ids (no_data n); unauthed = nd_unauthed_viewer_ids (no_data n) in
      if length authed + length unauthed > 1
      then give (Ok (user_facing_of (itoa (int (length authed + length unauthed)) @ '' collectors'') ''viewed your gallery'' ''''))
      else if length authed = 1
      then act_then (wrapped (nw_wrap w (''failed to get user for viewer '' @ hd authed)) (nw_user w (hd authed))) (\<lambda>u.
             give (Ok (user_facing_of (ns_string (nu_username u)) ''viewed your gallery'' '''')))
      else if length unauthed = 1 then give (Ok (user_facing_of ''Someone'' ''viewed your gallery'' ''''))
      else give (Err (ErrText ''no viewer ids'')))"

definition mention_facing :: "'s notif_world \<Rightarrow> notification \<Rightarrow> ('s, user_facing) act" where
  "mention_facing w n =
     act_then
       (if no_comment_id n \<noteq> ''''
        then act_then (nw_comment w (no_comment_id n)) (\<lambda>c.
               act_then (give (preview_text (nc_comment c))) (\<lambda>p. act_then (nw_user w (nc_actor_id c)) (\<lambda>u. give (Ok (u, p)))))
        else if no_post_id n \<noteq> ''''
        then act_then (nw_post w (no_post_id n)) (\<lambda>c.
               act_then (give (preview_text (ns_string (np_caption c)))) (\<lambda>p. act_then (nw_user w (np_actor_id c)) (\<lambda>u. give (Ok (u, p)))))
        else give (Err (ErrText ''no comment or post id provided for mention notification'')))
       (\<lambda>(u, p).
         if p = '''' then give (Err (ErrText ''no push data found for mention notification''))
         else act_then (give (username_of u)) (\<lambda>name.
           if no_action n = action_mention_community
           then act_then (nw_community w (no_community_id n)) (\<lambda>c.
                  give (Ok (user_facing_of name (''mentioned your community @'' @ nr_name c @ '' in a comment'') p)))
           else give (Ok (user_facing_of name ''mentioned you in a comment'' p))))"

definition post_author :: "'s notif_world \<Rightarrow> notification \<Rightarrow> ('s, notif_post \<times> notif_user) act" where
  "post_author w n = act_then (nw_post w (no_post_id n)) (\<lambda>p.
     act_then (nw_user w (np_actor_id p)) (\<lambda>u. give (Ok (p, u))))"

definition comment_author :: "'s notif_world \<Rightarrow> notification \<Rightarrow> ('s, notif_comment \<times> notif_user) act" where
  "comment_author w n = act_then (nw_comment w (no_comment_id n)) (\<lambda>c.
     act_then (nw_user w (nc_actor_id c)) (\<lambda>u. give (Ok (c, u))))"

definition notification_to_user_facing_data :: "'s notif_world \<Rightarrow> notification \<Rightarrow> ('s, user_facing) act" where
  "notification_to_user_facing_data w n =
     (let a = no_action n in
      if a \<in> set admire_actions then admire_facing w n
      else if a = action_user_followed_users then follow_facing w n
      else if a \<in> set [action_commented_on_feed_event, action_commented_on_post] then comment_facing w n
      else if a = action_viewed_gallery then viewed_facing w n
      else if a \<in> set [action_mention_user, action_mention_community] then mention_facing w n
      else if a = action_reply_to_comment
      then act_then (comment_author w n) (\<lambda>(c, u). act_then (give (username_of u)) (\<lambda>name.
             act_then (give (preview_text (nc_comment c))) (\<lambda>p. give (Ok (user_facing_of name ''replied to your comment'' p)))))
      else if a = action_new_tokens_received
      then act_then (token_name w (nd_new_token_id (no_data n))) (\<lambda>(td, found).
             act_then (give (preview_text (nr_name td))) (\<lambda>name.
               give (Ok (user_facing_of ''You''
                 (if found then ''just collected '' @ name @ ''. Tap to share now.''
                  else ''just collected an NFT. Tap to share now.'') ''''))))
      else if a = action_user_posted_your_work
      then act_then (post_author w n) (\<lambda>(p, u). act_then (give (username_of u)) (\<lambda>name.
             act_then (nw_community w (no_community_id n)) (\<lambda>c.
               act_then (give (preview_text (ns_string (np_caption p)))) (\<lambda>t.
                 give (Ok \<lparr>uf_actor = name, uf_action = ''posted your work'', uf_collection_name = nr_name c,
                           uf_collection_id = nr_id c, uf_preview = t\<rparr>)))))
      else if a = action_user_posted_first_post
      then act_then (post_author w n) (\<lambda>(p, u). act_then (give (username_of u)) (\<lambda>name.
             act_then (give (preview_text (ns_string (np_caption p)))) (\<lambda>t.
               give (Ok (user_facing_of name ''made their first post'' t)))))
      else if a = action_top_activity_badge
      then give (Ok (user_facing_of ''You'' ''received a new badge for being amongst the top active users on Gallery this week!'' ''''))
      else if a = action_announcement
      then (case nd_announcement (no_data n) of
              None \<Rightarrow> give (Panic NilDeref)
            | Some d \<Rightarrow> give (Ok (user_facing_of '''' (an_push_text d) '''')))
      else if a = action_farcaster_joined
      then (case nd_farcaster_joined (no_data n) of
              None \<Rightarrow> give (Panic NilDeref)
            | Some i \<Rightarrow> act_then (nw_user w i) (\<lambda>u. act_then (give (username_of u)) (\<lambda>name.
                give (Ok (user_facing_of name ''from Farcaster is now on Gallery'' '''')))))
      else give (Err (ErrText (''unknown action '' @ a))))"

section \<open>Push messages\<close>

definition mention_actor :: "'s notif_world \<Rightarrow> notification \<Rightarrow> ('s, notif_user) act" where
  "mention_actor w n =
     (if no_comment_id n \<noteq> '''' then act_then (comment_author w n) (\<lambda>(_, u). give (Ok u))
      else if no_post_id n \<noteq> '''' then act_then (post_author w n) (\<lambda>(_, u). give (Ok u))
      else give (Err (ErrText ''no comment or post id provided for mention notification'')))"

text \<open>The rate limits of \<^verbatim>\<open>createPushMessage\<close>, by action.\<close>

definition push_allowed :: "'s notif_world \<Rightarrow> notification \<Rightarrow> ('s, unit) act" where
  "push_allowed w n =
     (let a = no_action n; owner = no_owner_id n; admirer = act_then (give (first_id (nd_admirer_ids (no_data n)))) (nw_user w) in
      if a = action_admired_feed_event \<or> a = action_admired_post
      then act_then admirer (\<lambda>u. try_admire w (nu_id u) owner (no_feed_event_id n))
      else if a = action_admired_token
      then act_then admirer (\<lambda>u. try_admire_token w (nu_id u) owner (no_token_id n))
      else if a = action_admired_comment
      then act_then admirer (\<lambda>u. try_admire_comment w (nu_id u) owner (no_token_id n))
      else if a = action_commented_on_feed_event \<or> a = action_commented_on_post
      then act_then (comment_author w n) (\<lambda>(_, u). try_comment w (nu_id u) owner (no_feed_event_id n))
      else if a = action_user_followed_users
      then act_then (act_then (give (first_id (nd_follower_ids (no_data n)))) (nw_user w)) (\<lambda>u.
             act_then (look (nw_now w)) (\<lambda>now.
               if time_since now (nu_created_at u) < 24 * hour then give (Err ErrAccountTooNew)
               else try_follow w (nu_id u) owner))
      else if a = action_new_tokens_received then try_tokens w owner (nd_new_token_id (no_data n))
      else if a = action_reply_to_comment
      then act_then (comment_author w n) (\<lambda>(_, u). try_feed_entity w (nu_id u) owner (no_post_id n))
      else if a \<in> set [action_mention_user, action_mention_community]
      then act_then (mention_actor w n) (\<lambda>u. try_feed_entity w (nu_id u) owner (no_post_id n))
      else if a = action_user_posted_your_work
      then act_then (post_author w n) (\<lambda>(_, u). try_feed_entity w (nu_id u) owner (no_post_id n))
      else if a = action_top_activity_badge then try_users w owner
      else if a \<in> set [action_announcement, action_farcaster_joined, action_user_posted_first_post] then give (Ok ())
      else give (Err (ErrText (''unsupported notification action: '' @ a))))"

definition create_push_message :: "'s notif_world \<Rightarrow> notification \<Rightarrow> ('s, push_message) act" where
  "create_push_message w n =
     act_then (nw_count_unseen w (no_owner_id n)) (\<lambda>badge.
       act_then (notification_to_user_facing_data w n) (\<lambda>facing.
         act_then (push_allowed w n) (\<lambda>_.
           give (Ok \<lparr>pm_push_token_id = '''', pm_title = ''Gallery'', pm_body = user_facing_string (nw_unescape w) facing,
             pm_action = no_action n, pm_notification_id = no_id n, pm_sound = True, pm_badge = badge\<rparr>))))"

definition push_actions :: "string list" where
  "push_actions = [action_admired_feed_event, action_commented_on_feed_event, action_user_followed_users,
     action_new_tokens_received, action_commented_on_post, action_admired_post, action_admired_token,
     action_admired_comment, action_user_posted_your_work, action_mention_user, action_mention_community,
     action_user_posted_first_post, action_announcement, action_farcaster_joined]"

definition action_supports_push_notifications :: "string \<Rightarrow> bool" where
  "action_supports_push_notifications a \<longleftrightarrow> a \<in> set push_actions"

fun is_rate_limited :: "gerror \<Rightarrow> bool" where
  "is_rate_limited (ErrRateLimited l s r f t c) = True"
| "is_rate_limited _ = False"

definition send_push_notifications :: "'s notif_world \<Rightarrow> notification \<Rightarrow> ('s, unit) act" where
  "send_push_notifications w n =
     (if \<not> action_supports_push_notifications (no_action n) then give (Ok ())
      else act_then (wrapped (nw_wrap w (''couldn't get push tokens for userID '' @ no_owner_id n)) (nw_push_tokens w (no_owner_id n)))
        (\<lambda>tokens. if tokens = [] then give (Ok ())
          else act_then (attempt (create_push_message w n)) (\<lambda>r. case r of
              Inl e \<Rightarrow> if is_rate_limited e \<or> e = ErrAccountTooNew then give (Ok ())
                       else give (Err (nw_wrap w ''couldn't create push message'' e))
            | Inr message \<Rightarrow>
                each (\<lambda>t. or_else (nw_push_task w (message\<lparr>pm_push_token_id := t\<rparr>)) ()) tokens)))"

section \<open>Storing and publishing\<close>

definition no_null :: null_string where
  "no_null = \<lparr>ns_string = '''', ns_valid = False\<rparr>"

definition valid_null :: "string \<Rightarrow> null_string" where
  "valid_null s = \<lparr>ns_string = s, ns_valid = True\<rparr>"

definition plain_create :: "create_query \<Rightarrow> string \<Rightarrow> notification \<Rightarrow> create_params" where
  "plain_create q i n = \<lparr>cn_query = q, cn_id = i, cn_owner_id = no_owner_id n, cn_action = no_action n,
     cn_data = no_data n, cn_event_ids = no_event_ids n, cn_feed_event = no_null, cn_post = no_null,
     cn_token = no_null, cn_comment = no_null, cn_gallery_id = '''', cn_amount = 0, cn_mention_id = '''',
     cn_community_id = ''''\<rparr>"

text \<open>
  The parameters of the insert, by action. Columns that are plain ids in one query and nullable
  in another are nullable here, with a plain id always valid.
\<close>

definition create_params_of :: "(string \<Rightarrow> string) \<Rightarrow> string \<Rightarrow> notification \<Rightarrow> create_params outcome" where
  "create_params_of ul i n =
     (let a = no_action n; feed_event = valid_null (no_feed_event_id n); post = valid_null (no_post_id n);
          comment = valid_null (no_comment_id n); opt_feed_event = to_null_string (no_feed_event_id n) True;
          opt_post = to_null_string (no_post_id n) True; opt_comment = to_null_string (no_comment_id n) True in
      if a = action_admired_feed_event then Ok ((plain_create CreateAdmire i n)\<lparr>cn_feed_event := feed_event\<rparr>)
      else if a = action_commented_on_feed_event
      then Ok ((plain_create CreateComment i n)\<lparr>cn_feed_event := feed_event, cn_comment := comment\<rparr>)
      else if a = action_admired_post then Ok ((plain_create CreateAdmire i n)\<lparr>cn_post := post\<rparr>)
      else if a = action_admired_token
      then Ok ((plain_create CreateAdmire i n)\<lparr>cn_token := valid_null (no_token_id n)\<rparr>)
      else if a = action_admired_comment then Ok ((plain_create CreateComment i n)\<lparr>cn_comment := comment\<rparr>)
      else if a = action_commented_on_post
      then Ok ((plain_create CreateComment i n)\<lparr>cn_post := post, cn_comment := comment\<rparr>)
      else if a \<in> set [action_user_followed_users, action_top_activity_badge] then Ok (plain_create CreateSimple i n)
      else if a = action_viewed_gallery
      then Ok ((plain_create CreateViewGallery i n)\<lparr>cn_gallery_id := no_gallery_id n\<rparr>)
      else if a = action_new_tokens_received
      then Ok ((plain_create CreateToken i n)\<lparr>cn_token := valid_null (no_token_id n),
             cn_amount := word_of_int (hexstr_big_int ul (nd_new_token_quantity (no_data n)))\<rparr>)
      else if a = action_reply_to_comment
      then Ok ((plain_create CreateComment i n)\<lparr>cn_comment := comment, cn_feed_event := opt_feed_event, cn_post := opt_post\<rparr>)
      else if a = action_mention_user
      then Ok ((plain_create CreateMentionUser i n)\<lparr>cn_feed_event := opt_feed_event, cn_post := opt_post,
             cn_comment := opt_comment, cn_mention_id := no_mention_id n\<rparr>)
      else if a = action_mention_community
      then Ok ((plain_create CreateCommunity i n)\<lparr>cn_feed_event := opt_feed_event, cn_post := opt_post,
             cn_comment := opt_comment, cn_mention_id := no_mention_id n, cn_community_id := no_community_id n\<rparr>)
      else if a = action_user_posted_your_work
      then Ok ((plain_create CreateUserPostedYourWork i n)\<lparr>cn_post := opt_post, cn_community_id := no_community_id n\<rparr>)
      else if a = action_farcaster_joined then Ok (plain_create CreateSimple i n)
      else if a = action_user_posted_first_post then Ok ((plain_create CreatePost i n)\<lparr>cn_post := post\<rparr>)
      else Err (ErrText (''unknown notification action: '' @ a)))"

definition add_notification :: "(string \<Rightarrow> string) \<Rightarrow> 's notif_world \<Rightarrow> notification \<Rightarrow> ('s, notification) act" where
  "add_notification ul w n =
     act_then (nw_new_id w) (\<lambda>i. act_then (give (create_params_of ul i n)) (nw_create w))"

fun new_ids :: "'s notif_world \<Rightarrow> nat \<Rightarrow> ('s, string list) act" where
  "new_ids w 0 = give (Ok [])"
| "new_ids w (Suc k) = act_then (nw_new_id w) (\<lambda>i. act_then (new_ids w k) (\<lambda>is. give (Ok (i # is))))"

definition add_global_notifications :: "'s notif_world \<Rightarrow> notification \<Rightarrow> ('s, notification list) act" where
  "add_global_notifications w n =
     act_then (nw_count_users w) (\<lambda>count.
       if count < 0 then give (Panic MakesliceLen)
       else act_then (new_ids w (nat count)) (\<lambda>ids.
         case nd_announcement (no_data n) of
           None \<Rightarrow> give (Panic NilDeref)
         | Some d \<Rightarrow> wrapped (nw_wrap w ''failed to create follower notifications'')
             (nw_create_announcements w \<lparr>ap_ids = ids, ap_action = no_action n, ap_data = no_data n,
               ap_event_ids = no_event_ids n, ap_internal = an_internal_id d\<rparr>)))"

definition new_topic :: string where "new_topic = ''PUBSUB_TOPIC_NEW_NOTIFICATIONS''"
definition updated_topic :: string where "updated_topic = ''PUBSUB_TOPIC_UPDATED_NOTIFICATIONS''"

definition push_and_report :: "'s notif_world \<Rightarrow> notification \<Rightarrow> ('s, unit) act" where
  "push_and_report w n = or_else (send_push_notifications w n) ()"

definition publish_notif :: "'s notif_world \<Rightarrow> string \<Rightarrow> string \<Rightarrow> notification \<Rightarrow> ('s, unit) act" where
  "publish_notif w topic msg n =
     act_then (give (nw_json w n)) (\<lambda>marshalled. wrapped (nw_wrap w msg) (nw_publish w (nw_env w topic) marshalled))"

definition send_notification :: "'s notif_world \<Rightarrow> notification \<Rightarrow> ('s, unit) act" where
  "send_notification w n =
     act_then (push_and_report w n) (\<lambda>_. publish_notif w new_topic ''failed to publish new notification'' n)"

definition insert_and_publish_notif :: "(string \<Rightarrow> string) \<Rightarrow> 's notif_world \<Rightarrow> notification \<Rightarrow> ('s, unit) act" where
  "insert_and_publish_notif ul w n =
     act_then (wrapped (nw_wrap w ''failed to create notification'') (add_notification ul w n)) (send_notification w)"

text \<open>
  The pool that sends the announcements is never waited for, so their errors and panics are
  dropped; \<open>order\<close> is the order in which its goroutines run.
\<close>

definition insert_and_publish_announcement_notifs :: "'s notif_world \<Rightarrow> (notification list \<Rightarrow> notification list)
    \<Rightarrow> notification \<Rightarrow> ('s, unit) act" where
  "insert_and_publish_announcement_notifs w order n =
     act_then (wrapped (nw_wrap w ''failed to create notification'') (add_global_notifications w n)) (\<lambda>notifs.
       case nd_announcement (no_data n) of
         None \<Rightarrow> give (Panic NilDeref)
       | Some d \<Rightarrow>
           if (an_platform d = ''All'' \<or> an_platform d = ''Mobile'') \<and> an_push_text d \<noteq> ''''
           then each (\<lambda>m. forgotten (send_notification w m)) (order notifs)
           else give (Ok ()))"

definition grouped_amount :: "(string \<Rightarrow> string) \<Rightarrow> notification \<Rightarrow> notification \<Rightarrow> notification_data \<Rightarrow> i32" where
  "grouped_amount ul n most_recent d =
     (let a = no_action n in
      if a \<in> set admire_actions then word_of_nat (length (nd_admirer_ids d))
      else if a = action_viewed_gallery
      then word_of_nat (length (nd_authed_viewer_ids d) + length (nd_unauthed_viewer_ids d))
      else if a = action_user_followed_users then word_of_nat (length (nd_follower_ids d))
      else if a = action_new_tokens_received then word_of_int \<bar>hexstr_big_int ul (nd_new_token_quantity d)\<bar>
      else no_amount most_recent + no_amount n)"

definition update_and_publish_notif :: "(string \<Rightarrow> string) \<Rightarrow> 's notif_world \<Rightarrow> notification \<Rightarrow> notification \<Rightarrow> ('s, unit) act" where
  "update_and_publish_notif ul w n most_recent =
     (let d = concat_data ul (no_data most_recent) (no_data n) in
      act_then (wrapped (nw_wrap w ''error updating notification'')
          (nw_update w \<lparr>un_id = no_id most_recent, un_data = d, un_amount = grouped_amount ul n most_recent d,
            un_event_ids = no_event_ids n\<rparr>)) (\<lambda>_.
        act_then (push_and_report w n) (\<lambda>_.
          act_then (wrapped (nw_wrap w (''error getting updated notification by '' @ no_id most_recent)) (nw_by_id w (no_id most_recent)))
            (\<lambda>updated. publish_notif w updated_topic ''error publishing updated notification'' updated))))"

section \<open>Handlers\<close>

definition top_activity_handle :: "(string \<Rightarrow> string) \<Rightarrow> 's notif_world \<Rightarrow> notification \<Rightarrow> ('s, unit) act" where
  "top_activity_handle ul w n =
     (if \<not> nd_new_top_active_user (no_data n) then give (Ok ()) else insert_and_publish_notif ul w n)"

definition group_or_insert :: "(string \<Rightarrow> string) \<Rightarrow> 's notif_world \<Rightarrow> notification \<Rightarrow> notification \<Rightarrow> ('s, unit) act" where
  "group_or_insert ul w n cur =
     act_then (look (nw_now w)) (\<lambda>now.
       if time_since now (no_created_at cur) < group_window (no_action n) then update_and_publish_notif ul w n cur
       else insert_and_publish_notif ul w n)"

definition recent_params_of :: "notification \<Rightarrow> recent_params" where
  "recent_params_of n = \<lparr>rp_owner_id = no_owner_id n, rp_action = no_action n, rp_token_id = '''',
     rp_only_for_feed_event = (no_feed_event_id n \<noteq> ''''), rp_feed_event_id = no_feed_event_id n,
     rp_only_for_post = (no_post_id n \<noteq> ''''), rp_post_id = no_post_id n,
     rp_only_for_comment = (no_comment_id n \<noteq> ''''), rp_comment_id = no_comment_id n\<rparr>"

definition owner_grouped_handle :: "(string \<Rightarrow> string) \<Rightarrow> 's notif_world \<Rightarrow> notification \<Rightarrow> ('s, unit) act" where
  "owner_grouped_handle ul w n =
     act_then (or_else (nw_most_recent w (recent_params_of n)) zero_notification) (group_or_insert ul w n)"

definition token_grouped_handle :: "(string \<Rightarrow> string) \<Rightarrow> 's notif_world \<Rightarrow> notification \<Rightarrow> ('s, unit) act" where
  "token_grouped_handle ul w n =
     act_then (or_else (nw_most_recent_token w ((recent_params_of n)\<lparr>rp_token_id := no_token_id n,
         rp_only_for_comment := False, rp_comment_id := ''''\<rparr>)) zero_notification) (group_or_insert ul w n)"

definition unseen_viewers :: "(notification \<Rightarrow> string list) \<Rightarrow> notification list \<Rightarrow> string list \<Rightarrow> string list" where
  "unseen_viewers viewers notifs ids = filter (\<lambda>i. \<forall>n \<in> set notifs. \<not> contains_elem (viewers n) i) ids"

definition new_viewers :: "notification list \<Rightarrow> notification_data \<Rightarrow> notification_data" where
  "new_viewers notifs d = d
     \<lparr>nd_unauthed_viewer_ids := unseen_viewers (\<lambda>n. nd_unauthed_viewer_ids (no_data n)) notifs (nd_unauthed_viewer_ids d),
      nd_authed_viewer_ids := unseen_viewers (\<lambda>n. nd_authed_viewer_ids (no_data n)) notifs (nd_authed_viewer_ids d)\<rparr>"

definition viewed_handle :: "(string \<Rightarrow> string) \<Rightarrow> 's notif_world \<Rightarrow> notification \<Rightarrow> ('s, unit) act" where
  "viewed_handle ul w n =
     act_then (look (nw_now w)) (\<lambda>start.
       act_then (or_else (nw_after w (no_owner_id n) (no_action n) (beginning_of_week (nw_clock w) start)) []) (\<lambda>notifs.
         case notifs of
           [] \<Rightarrow> insert_and_publish_notif ul w n
         | recent # _ \<Rightarrow>
             (let n' = n\<lparr>no_data := new_viewers notifs (no_data n)\<rparr> in
              act_then (look (nw_now w)) (\<lambda>now.
                if time_since now (no_created_at recent) < view_window then update_and_publish_notif ul w n' recent
                else insert_and_publish_notif ul w n'))))"

section \<open>Dispatch\<close>

datatype notif_handler = OwnerGrouped | Single | TopActivity | TokenGrouped | Viewed | AnnouncementHandler

definition handler_of :: "string \<Rightarrow> notif_handler option" where
  "handler_of a =
     (if a \<in> set [action_user_followed_users, action_admired_feed_event, action_admired_post, action_admired_comment]
      then Some OwnerGrouped
      else if a \<in> set [action_commented_on_feed_event, action_commented_on_post, action_reply_to_comment,
             action_mention_user, action_mention_community, action_user_posted_your_work, action_farcaster_joined,
             action_user_posted_first_post]
      then Some Single
      else if a = action_top_activity_badge then Some TopActivity
      else if a \<in> set [action_new_tokens_received, action_admired_token] then Some TokenGrouped
      else if a = action_viewed_gallery then Some Viewed
      else if a = action_announcement then Some AnnouncementHandler
      else None)"

fun handle_notif :: "(string \<Rightarrow> string) \<Rightarrow> 's notif_world \<Rightarrow> (notification list \<Rightarrow> notification list) \<Rightarrow> notif_handler
    \<Rightarrow> notification \<Rightarrow> ('s, unit) act" where
  "handle_notif ul w order OwnerGrouped n = owner_grouped_handle ul w n"
| "handle_notif ul w order Single n = insert_and_publish_notif ul w n"
| "handle_notif ul w order TopActivity n = top_activity_handle ul w n"
| "handle_notif ul w order TokenGrouped n = token_grouped_handle ul w n"
| "handle_notif ul w order Viewed n = viewed_handle ul w n"
| "handle_notif ul w order AnnouncementHandler n = insert_and_publish_announcement_notifs w order n"

definition lock_key_string :: "notification \<Rightarrow> string" where
  "lock_key_string n = no_owner_id n @ '':'' @ no_action n"

text \<open>The error of \<^verbatim>\<open>Obtain\<close> is dropped, so the handler also runs without the lock.\<close>

definition dispatch_notif :: "(string \<Rightarrow> string) \<Rightarrow> 's notif_world \<Rightarrow> (notification list \<Rightarrow> notification list)
    \<Rightarrow> notification \<Rightarrow> ('s, unit) act" where
  "dispatch_notif ul w order n =
     (case handler_of (no_action n) of
        None \<Rightarrow> give (Ok ())
      | Some h \<Rightarrow> (\<lambda>s. case nw_lock w (lock_key_string n) max_lock_timeout s of
          (obtained, s1) \<Rightarrow>
            deferring (handle_notif ul w order h n) (if obtained then nw_unlock w (lock_key_string n) else id) s1))"

end
