(* ===== verification/NotificationProps.thy ===== *)
theory NotificationProps
  imports Notifications
begin

text \<open>
  What the notifications promise: nobody is counted twice in a group, a viewer shows up once a
  week, and where the rate limits of pushes and the start of the week differ from what they
  are meant to be.
\<close>

section \<open>The table of notifications\<close>

text \<open>
  The contract of the queries: the table newest first, an insert on top of it with the data it
  was given and a new primary key, an update that \<^verbatim>\<open>UpdateNotification\<close> only makes when the amount
  changes, and reads. Everything else leaves the table alone.
\<close>

definition updated_row :: "update_params \<Rightarrow> notification \<Rightarrow> notification" where
  "updated_row u r = (if no_id r = un_id u \<and> no_amount r \<noteq> un_amount u
     then r\<lparr>no_data := un_data u, no_amount := un_amount u, no_event_ids := no_event_ids r @ un_event_ids u\<rparr> else r)"

definition leaves :: "('s \<Rightarrow> 't) \<Rightarrow> ('s, 'a) act \<Rightarrow> bool" where
  "leaves t m \<longleftrightarrow> (\<forall>s. t (snd (m s)) = t s)"

lemma leaves_keeps: "leaves t m \<longleftrightarrow> (\<forall>x. keeps (\<lambda>s. t s = x) m)"
  by (auto simp: leaves_def keeps_def)

lemma leaves_give [simp]: "leaves t (give r)"
  and leaves_look [simp]: "leaves t (look f)"
  by (simp_all add: leaves_def)

lemma leaves_then: "leaves t m \<Longrightarrow> (\<And>x. leaves t (f x)) \<Longrightarrow> leaves t (act_then m f)"
  unfolding leaves_keeps by auto

lemma leaves_attempt: "leaves t m \<Longrightarrow> leaves t (attempt m)"
  unfolding leaves_keeps by auto

lemma leaves_or_else: "leaves t m \<Longrightarrow> leaves t (or_else m d)"
  unfolding leaves_keeps by auto

lemma leaves_wrapped: "leaves t m \<Longrightarrow> leaves t (wrapped e m)"
  unfolding leaves_keeps by auto

lemma leaves_each: "(\<And>x. leaves t (g x)) \<Longrightarrow> leaves t (each g xs)"
  unfolding leaves_keeps by auto

lemma leaves_if: "leaves t m \<Longrightarrow> leaves t m' \<Longrightarrow> leaves t (if b then m else m')"
  by simp

lemma leaves_pair: "(\<And>x y. leaves t (f x y)) \<Longrightarrow> leaves t (case p of (x, y) \<Rightarrow> f x y)"
  by (cases p) simp

lemmas leaves_intros = leaves_then leaves_attempt leaves_or_else leaves_wrapped leaves_each

lemma leavesD: "leaves t m \<Longrightarrow> m s = (r, s1) \<Longrightarrow> t s1 = t s"
  unfolding leaves_def by (metis snd_conv)

lemma leaves_snd: "leaves t m \<Longrightarrow> t (snd (m s)) = t s"
  by (simp add: leaves_def)

lemma updated_row_fields [simp]:
  "no_id (updated_row u r) = no_id r" "no_owner_id (updated_row u r) = no_owner_id r"
  "no_action (updated_row u r) = no_action r" "no_created_at (updated_row u r) = no_created_at r"
  by (simp_all add: updated_row_def)

locale notification_table =
  fixes w :: "'s notif_world" and table :: "'s \<Rightarrow> notification list"
  assumes created: "nw_create w p s = (Ok r, s1) \<Longrightarrow>
      table s1 = r # table s \<and> no_owner_id r = cn_owner_id p \<and> no_action r = cn_action p \<and> no_data r = cn_data p \<and>
      no_id r \<notin> no_id ` set (table s) \<and> (cn_query p \<noteq> CreateToken \<longrightarrow> no_amount r = 1)"
    and not_created: "\<not> is_ok (fst (nw_create w p s)) \<Longrightarrow> table (snd (nw_create w p s)) = table s"
    and changed: "fst (nw_update w u s) = Ok () \<Longrightarrow> table (snd (nw_update w u s)) = map (updated_row u) (table s)"
    and not_changed: "fst (nw_update w u s) \<noteq> Ok () \<Longrightarrow> table (snd (nw_update w u s)) = table s"
    and read_after: "fst (nw_after w owner a t s) = Ok rs \<Longrightarrow>
      set rs = set (filter (\<lambda>r. no_owner_id r = owner \<and> no_action r = a \<and> t < no_created_at r) (table s))"
    and most_recent: "fst (nw_most_recent w q s) = Ok r \<Longrightarrow>
      r \<in> set (table s) \<and> no_owner_id r = rp_owner_id q \<and> no_action r = rp_action q"
    and most_recent_token: "fst (nw_most_recent_token w q s) = Ok r \<Longrightarrow>
      r \<in> set (table s) \<and> no_owner_id r = rp_owner_id q \<and> no_action r = rp_action q"
    and reads: "leaves table (nw_new_id w)" "leaves table (nw_most_recent_token w q)" "leaves table (nw_after w owner a t)" "leaves table (nw_by_id w i)"
      "leaves table (nw_most_recent w q)" "leaves table (nw_push_tokens w i)" "leaves table (nw_count_unseen w i)"
      "leaves table (nw_user w i)" "leaves table (nw_comment w i)" "leaves table (nw_post w i)"
      "leaves table (nw_feed_event_collection w i)" "leaves table (nw_collection w i)" "leaves table (nw_community w i)" "leaves table (nw_limit w i k)"
      "leaves table (nw_push_task w m)" "leaves table (nw_publish w i k)"
    and lock_leaves: "table (snd (nw_lock w k d s)) = table s" "table (nw_unlock w k s) = table s"
begin

lemma publish_leaves: "leaves table (publish_notif w topic msg n)"
  unfolding publish_notif_def by (intro leaves_intros leaves_give reads)

lemma facing_leaves:
  assumes "no_action n \<noteq> action_new_tokens_received"
  shows "leaves table (notification_to_user_facing_data w n)"
proof -
  note intros = leaves_intros leaves_give reads
  have "leaves table (admire_facing w n)" "leaves table (follow_facing w n)" "leaves table (comment_facing w n)"
    "leaves table (viewed_facing w n)" "leaves table (mention_facing w n)" "leaves table (post_author w n)"
    "leaves table (comment_author w n)"
    unfolding admire_facing_def follow_facing_def comment_facing_def viewed_facing_def mention_facing_def
      post_author_def comment_author_def Let_def
    by (auto intro!: intros split: prod.split list.split)
  then show ?thesis
    unfolding notification_to_user_facing_data_def Let_def
    using assms by (auto intro!: intros split: prod.split option.split)
qed

lemma allowed_leaves: "leaves table (push_allowed w n)"
proof -
  note intros = leaves_intros leaves_give leaves_look leaves_if leaves_pair reads
  have "leaves table (try_key w l k e)" for l k e
    unfolding try_key_def is_action_allowed_def by (intro intros)
  then have tried: "leaves table (try_comment w a b c)" "leaves table (try_feed_entity w a b c)"
    "leaves table (try_admire w a b c)" "leaves table (try_admire_comment w a b c)" "leaves table (try_admire_token w a b c)"
    "leaves table (try_follow w a b)" "leaves table (try_tokens w a b)" "leaves table (try_users w a)" for a b c
    by (simp_all add: try_comment_def try_feed_entity_def try_admire_def try_admire_comment_def try_admire_token_def
        try_follow_def try_tokens_def try_users_def)
  have authors: "leaves table (post_author w n)" "leaves table (comment_author w n)"
    unfolding post_author_def comment_author_def by (intro intros)+
  then have "leaves table (mention_actor w n)"
    unfolding mention_actor_def by (intro intros)
  then show ?thesis
    unfolding push_allowed_def Let_def by (intro intros tried authors)
qed

lemma send_leaves:
  assumes "no_action n \<noteq> action_new_tokens_received"
  shows "leaves table (send_push_notifications w n)" "leaves table (send_notification w n)"
proof -
  note intros = leaves_intros leaves_give reads
  show push: "leaves table (send_push_notifications w n)"
    unfolding send_push_notifications_def create_push_message_def
    by (auto intro!: intros facing_leaves [OF assms] allowed_leaves split: sum.split)
  show "leaves table (send_notification w n)"
    unfolding send_notification_def push_and_report_def by (intro intros push publish_leaves)
qed

lemma table_after_create:
  "table (snd (nw_create w p s)) = table s \<and> \<not> is_ok (fst (nw_create w p s)) \<or>
   (\<exists>r. fst (nw_create w p s) = Ok r \<and> table (snd (nw_create w p s)) = r # table s \<and>
      no_owner_id r = cn_owner_id p \<and> no_action r = cn_action p \<and> no_data r = cn_data p \<and>
      no_id r \<notin> no_id ` set (table s) \<and> (cn_query p \<noteq> CreateToken \<longrightarrow> no_amount r = 1))"
proof (cases "fst (nw_create w p s)")
  case (Ok r)
  then have "nw_create w p s = (Ok r, snd (nw_create w p s))" by (metis prod.collapse)
  from created [OF this] Ok show ?thesis by blast
qed (use not_created [of p s] in auto)

text \<open>What an insert adds: the notification as a row of its own, or nothing when something fails first.\<close>

lemma table_after_insert:
  assumes "no_action n \<noteq> action_new_tokens_received"
  shows "table (snd (insert_and_publish_notif ul w n s)) = table s \<and> fst (insert_and_publish_notif ul w n s) \<noteq> Ok () \<or>
    (\<exists>r. table (snd (insert_and_publish_notif ul w n s)) = r # table s \<and> no_owner_id r = no_owner_id n \<and>
      no_action r = no_action n \<and> no_data r = no_data n \<and> no_id r \<notin> no_id ` set (table s) \<and> no_amount r = 1)"
proof -
  let ?add = "wrapped (nw_wrap w ''failed to create notification'') (add_notification ul w n)"
  have add: "table (snd (?add s)) = table s \<and> \<not> is_ok (fst (?add s)) \<or>
    (\<exists>r. fst (?add s) = Ok r \<and> table (snd (?add s)) = r # table s \<and> no_owner_id r = no_owner_id n \<and>
      no_action r = no_action n \<and> no_data r = no_data n \<and> no_id r \<notin> no_id ` set (table s) \<and> no_amount r = 1)"
  proof (cases "nw_new_id w s")
    case (Pair ri s1)
    have t: "table s1 = table s" by (rule leavesD [OF reads(1) Pair])
    show ?thesis
    proof (cases ri)
      case (Ok i)
      show ?thesis
      proof (cases "create_params_of ul i n")
        case p: (Ok p)
        have "cn_owner_id p = no_owner_id n \<and> cn_action p = no_action n \<and> cn_data p = no_data n \<and> cn_query p \<noteq> CreateToken"
          using p assms by (auto simp: create_params_of_def plain_create_def Let_def split: if_splits)
        with table_after_create [of p s1] t show ?thesis
          by (auto simp: wrapped_def add_notification_def act_then_apply Pair Ok p split: prod.split outcome.split)
      qed (auto simp: wrapped_def add_notification_def act_then_apply Pair Ok t)
    qed (auto simp: wrapped_def add_notification_def act_then_apply Pair t)
  qed
  have "insert_and_publish_notif ul w n s = (case fst (?add s) of Ok r \<Rightarrow> send_notification w r (snd (?add s))
      | Err e \<Rightarrow> (Err e, snd (?add s)) | Panic p \<Rightarrow> (Panic p, snd (?add s)))"
    unfolding insert_and_publish_notif_def by (rule act_then_apply)
  with add show ?thesis
    using leaves_snd [OF send_leaves(2)] assms by (auto simp: is_ok_def split: outcome.splits)
qed

lemma table_after_update_and_publish:
  assumes "no_action n \<noteq> action_new_tokens_received"
  shows "table (snd (update_and_publish_notif ul w n recent s)) = table s \<and>
      fst (update_and_publish_notif ul w n recent s) \<noteq> Ok () \<or>
    table (snd (update_and_publish_notif ul w n recent s)) = map (updated_row \<lparr>un_id = no_id recent, un_data = concat_data ul (no_data recent) (no_data n),
      un_amount = grouped_amount ul n recent (concat_data ul (no_data recent) (no_data n)),
      un_event_ids = no_event_ids n\<rparr>) (table s)"
proof -
  let ?u = "\<lparr>un_id = no_id recent, un_data = concat_data ul (no_data recent) (no_data n),
      un_amount = grouped_amount ul n recent (concat_data ul (no_data recent) (no_data n)),
      un_event_ids = no_event_ids n\<rparr>"
  let ?up = "wrapped (nw_wrap w ''error updating notification'') (nw_update w ?u)"
  have up: "snd (?up s) = snd (nw_update w ?u s)" "fst (?up s) = Ok () \<longleftrightarrow> fst (nw_update w ?u s) = Ok ()"
    by (auto simp: wrapped_def split: prod.split outcome.split)
  have "leaves table (act_then (push_and_report w n) (\<lambda>_.
          act_then (wrapped e (nw_by_id w (no_id recent)))
            (\<lambda>updated. publish_notif w updated_topic ''error publishing updated notification'' updated)))" for e
    unfolding push_and_report_def by (intro leaves_intros reads publish_leaves send_leaves(1) [OF assms])
  then have "table (snd (update_and_publish_notif ul w n recent s)) = table (snd (?up s)) \<and>
      (fst (update_and_publish_notif ul w n recent s) = Ok () \<longrightarrow> fst (?up s) = Ok ())"
    unfolding update_and_publish_notif_def Let_def act_then_apply [of ?up]
    by (auto simp: leaves_def split: outcome.split)
  then show ?thesis using changed [of ?u s] not_changed [of ?u s] up by metis
qed

lemma table_after_dispatch:
  assumes "handler_of (no_action n) = Some h" and "\<And>t. table t = table s \<Longrightarrow> P (table (snd (handle_notif ul w order h n t)))"
  shows "P (table (snd (dispatch_notif ul w order n s)))"
proof (cases "nw_lock w (lock_key_string n) max_lock_timeout s")
  case (Pair obtained s1)
  then have "table s1 = table s" using lock_leaves(1) by (metis snd_conv)
  from assms(2) [OF this] show ?thesis
    by (cases "handle_notif ul w order h n s1") (simp add: dispatch_notif_def assms(1) Pair deferring_def lock_leaves(2))
qed

end

section \<open>Views of a week\<close>

definition week_rows :: "int \<Rightarrow> string \<Rightarrow> notification list \<Rightarrow> notification list" where
  "week_rows t0 owner rows =
     filter (\<lambda>r. no_owner_id r = owner \<and> no_action r = action_viewed_gallery \<and> t0 < no_created_at r) rows"

definition authed_of :: "notification \<Rightarrow> string list" where "authed_of r = nd_authed_viewer_ids (no_data r)"
definition unauthed_of :: "notification \<Rightarrow> string list" where "unauthed_of r = nd_unauthed_viewer_ids (no_data r)"

text \<open>Every viewer is in at most one row, and once in it.\<close>

definition each_once :: "(notification \<Rightarrow> string list) \<Rightarrow> notification list \<Rightarrow> bool" where
  "each_once viewers rows \<longleftrightarrow> (\<forall>r \<in> set rows. distinct (viewers r)) \<and>
     (\<forall>r \<in> set rows. \<forall>r' \<in> set rows. no_id r \<noteq> no_id r' \<longrightarrow> set (viewers r) \<inter> set (viewers r') = {})"

definition viewers_once :: "int \<Rightarrow> string \<Rightarrow> notification list \<Rightarrow> bool" where
  "viewers_once t0 owner rows \<longleftrightarrow> distinct (map no_id rows) \<and>
     each_once authed_of (week_rows t0 owner rows) \<and> each_once unauthed_of (week_rows t0 owner rows)"

lemma each_once_insert:
  assumes "each_once viewers rows" and "distinct (viewers r)"
    and "\<And>r'. r' \<in> set rows \<Longrightarrow> set (viewers r) \<inter> set (viewers r') = {}"
  shows "each_once viewers (r # rows)"
  using assms unfolding each_once_def by (auto simp: Int_commute)

lemma each_once_update:
  assumes "each_once viewers rows" and "distinct (map no_id rows)" and "r \<in> set rows"
    and u: "\<And>x. x \<in> set rows \<Longrightarrow> no_id (f x) = no_id x" "\<And>x. x \<in> set rows \<Longrightarrow> no_id x \<noteq> no_id r \<Longrightarrow> f x = x"
    and d: "distinct (viewers (f r))" "set (viewers (f r)) \<subseteq> set (viewers r) \<union> new"
    and "\<And>x. x \<in> set rows \<Longrightarrow> no_id x \<noteq> no_id r \<Longrightarrow> new \<inter> set (viewers x) = {}"
  shows "each_once viewers (map f rows)"
proof -
  have same: "x = r" if "x \<in> set rows" "no_id x = no_id r" for x
    using that assms(2,3) by (auto simp: distinct_map inj_on_def)
  have cases: "x = r \<or> f x = x \<and> no_id x \<noteq> no_id r" if "x \<in> set rows" for x using same u(2) that by blast
  have dis: "set (viewers (f r)) \<inter> set (viewers x) = {}" if "x \<in> set rows" "no_id x \<noteq> no_id r" for x
    using that assms(1,3,8) d(2) unfolding each_once_def by fastforce
  show ?thesis unfolding each_once_def
  proof (intro conjI ballI impI)
    fix y assume "y \<in> set (map f rows)"
    then obtain x where "x \<in> set rows" "y = f x" by auto
    with cases [of x] d(1) assms(1) show "distinct (viewers y)" unfolding each_once_def by metis
  next
    fix y y' assume y: "y \<in> set (map f rows)" "y' \<in> set (map f rows)" "no_id y \<noteq> no_id y'"
    then obtain x x' where x: "x \<in> set rows" "y = f x" "x' \<in> set rows" "y' = f x'" by auto
    with y(3) u(1) have ne: "no_id x \<noteq> no_id x'" by metis
    from cases [OF x(1)] cases [OF x(3)] ne x assms(1) dis show "set (viewers y) \<inter> set (viewers y') = {}"
      unfolding each_once_def by (metis Int_commute)
  qed
qed

lemma unseen_viewers_set: "set (unseen_viewers viewers notifs ids) = set ids - (\<Union>n \<in> set notifs. set (viewers n))"
  by (auto simp: unseen_viewers_def contains_elem_iff)

lemma unseen_viewers_distinct: "distinct ids \<Longrightarrow> distinct (unseen_viewers viewers notifs ids)"
  by (simp add: unseen_viewers_def)

lemma concat_data_viewers:
  "nd_authed_viewer_ids (concat_data ul d other) = unique_dbids (nd_authed_viewer_ids other @ nd_authed_viewer_ids d)"
  "nd_unauthed_viewer_ids (concat_data ul d other) = unique_strings (nd_unauthed_viewer_ids other @ nd_unauthed_viewer_ids d)"
  "nd_admirer_ids (concat_data ul d other) = unique_dbids (nd_admirer_ids other @ nd_admirer_ids d)"
  "nd_follower_ids (concat_data ul d other) = unique_dbids (nd_follower_ids other @ nd_follower_ids d)"
  unfolding concat_data_def validate_data_def zero_notification_data_def by simp_all

lemma unique_sets [simp]:
  "set (unique_dbids xs) = set xs" "distinct (unique_dbids xs)" "set (unique_strings xs) = set xs" "distinct (unique_strings xs)"
  using unique_dbids.keys_kept [of xs] unique_dbids.keys_distinct [of xs]
    unique_strings.keys_kept [of xs] unique_strings.keys_distinct [of xs] by simp_all

context notification_table
begin

lemma viewed_handle_once:
  assumes once: "viewers_once t0 owner (table s)" and n: "no_action n = action_viewed_gallery" "no_owner_id n = owner"
    "distinct (authed_of n)" "distinct (unauthed_of n)"
    and week: "beginning_of_week (nw_clock w) (nw_now w s) = t0"
    and answered: "is_ok (fst (nw_after w owner action_viewed_gallery t0 s))"
  shows "viewers_once t0 owner (table (snd (viewed_handle ul w n s)))"
proof -
  from answered obtain notifs s1 where after: "nw_after w owner action_viewed_gallery t0 s = (Ok notifs, s1)"
    by (metis is_ok_iff prod.collapse)
  then have notifs: "set notifs = set (week_rows t0 owner (table s))"
    using read_after [of owner action_viewed_gallery t0 s notifs] by (simp add: week_rows_def)
  have t1: "table s1 = table s" by (rule leavesD [OF reads(3) after])
  have quiet: "no_action (n\<lparr>no_data := d\<rparr>) \<noteq> action_new_tokens_received" for d
    by (simp add: n(1) notif_action_defs)
  have inserted: "viewers_once t0 owner (table (snd (insert_and_publish_notif ul w m s1)))"
    if m: "no_action m = action_viewed_gallery" "no_owner_id m = owner" "distinct (authed_of m)" "distinct (unauthed_of m)"
      "\<And>r. r \<in> set notifs \<Longrightarrow> set (authed_of m) \<inter> set (authed_of r) = {}"
      "\<And>r. r \<in> set notifs \<Longrightarrow> set (unauthed_of m) \<inter> set (unauthed_of r) = {}" for m
  proof -
    have "no_action m \<noteq> action_new_tokens_received" using m(1) by (simp add: notif_action_defs)
    from table_after_insert [OF this, of ul s1] consider
      "table (snd (insert_and_publish_notif ul w m s1)) = table s"
    | r where "table (snd (insert_and_publish_notif ul w m s1)) = r # table s" "no_owner_id r = owner"
        "no_action r = action_viewed_gallery" "no_data r = no_data m" "no_id r \<notin> no_id ` set (table s)"
      using t1 m(1,2) by auto
    then show ?thesis
    proof cases
      case 2
      have "each_once authed_of (week_rows t0 owner (r # table s))" "each_once unauthed_of (week_rows t0 owner (r # table s))"
        using once m 2 each_once_insert [of authed_of "week_rows t0 owner (table s)" r]
          each_once_insert [of unauthed_of "week_rows t0 owner (table s)" r]
        by (auto simp: viewers_once_def week_rows_def authed_of_def unauthed_of_def notifs)
      with 2 once show ?thesis by (simp add: viewers_once_def)
    qed (use once in simp)
  qed
  let ?n = "n\<lparr>no_data := new_viewers notifs (no_data n)\<rparr>"
  have new: "authed_of ?n = unseen_viewers authed_of notifs (authed_of n)"
    "unauthed_of ?n = unseen_viewers unauthed_of notifs (unauthed_of n)"
    by (simp_all add: authed_of_def [abs_def] unauthed_of_def [abs_def] new_viewers_def)
  show ?thesis
  proof (cases notifs)
    case Nil
    then have "viewed_handle ul w n s = insert_and_publish_notif ul w n s1"
      by (simp add: viewed_handle_def week n after act_then_apply or_else_def)
    with inserted [of n] n Nil show ?thesis by simp
  next
    case (Cons recent rest)
    have after': "or_else (nw_after w owner action_viewed_gallery t0) [] s = (Ok notifs, s1)"
      by (simp add: or_else_def after)
    have step: "viewed_handle ul w n s = (if time_since (nw_now w s1) (no_created_at recent) < view_window
        then update_and_publish_notif ul w ?n recent s1 else insert_and_publish_notif ul w ?n s1)"
      by (simp add: viewed_handle_def week n act_then_after [of "or_else _ _" s, OF after'] Cons Let_def)
    have ins: "viewers_once t0 owner (table (snd (insert_and_publish_notif ul w ?n s1)))"
      using n by (intro inserted) (auto simp: new unseen_viewers_set unseen_viewers_distinct)
    have upd: "viewers_once t0 owner (table (snd (update_and_publish_notif ul w ?n recent s1)))"
    proof -
      define u where "u = \<lparr>un_id = no_id recent, un_data = concat_data ul (no_data recent) (no_data ?n),
        un_amount = grouped_amount ul ?n recent (concat_data ul (no_data recent) (no_data ?n)), un_event_ids = no_event_ids ?n\<rparr>"
      from table_after_update_and_publish [OF quiet, of ul _ recent s1] t1
      have t: "table (snd (update_and_publish_notif ul w ?n recent s1)) \<in> {table s, map (updated_row u) (table s)}"
        by (auto simp: u_def)
      have rows: "week_rows t0 owner (map (updated_row u) (table s)) = map (updated_row u) (week_rows t0 owner (table s))"
        by (simp add: week_rows_def filter_map o_def)
      have ids: "distinct (map (no_id \<circ> updated_row u) (table s))" using once by (simp add: viewers_once_def o_def)
      have "distinct (map no_id (week_rows t0 owner (table s)))"
        using once by (simp add: viewers_once_def week_rows_def distinct_map_filter)
      moreover have recent: "recent \<in> set (week_rows t0 owner (table s))" using notifs by (auto simp: Cons)
      moreover have "set (authed_of (updated_row u recent)) \<subseteq> set (authed_of recent) \<union> set (authed_of ?n)"
        "set (unauthed_of (updated_row u recent)) \<subseteq> set (unauthed_of recent) \<union> set (unauthed_of ?n)"
        by (auto simp: updated_row_def u_def authed_of_def unauthed_of_def concat_data_viewers)
      moreover have "each_once authed_of (week_rows t0 owner (table s))" "each_once unauthed_of (week_rows t0 owner (table s))"
        using once by (simp_all add: viewers_once_def)
      moreover from this have "distinct (authed_of (updated_row u recent))" "distinct (unauthed_of (updated_row u recent))"
        using recent by (auto simp: updated_row_def u_def authed_of_def unauthed_of_def concat_data_viewers each_once_def)
      ultimately have "each_once authed_of (map (updated_row u) (week_rows t0 owner (table s)))"
        "each_once unauthed_of (map (updated_row u) (week_rows t0 owner (table s)))"
        by (intro each_once_update [where r = recent and new = "set (authed_of ?n)"]
            each_once_update [where r = recent and new = "set (unauthed_of ?n)"];
          auto simp: updated_row_def u_def new unseen_viewers_set notifs)+
      with t ids once rows show ?thesis unfolding viewers_once_def by auto
    qed
    show ?thesis using ins upd by (simp add: step)
  qed
qed

lemma dispatch_keeps_viewers:
  assumes once: "viewers_once t0 owner (table s)" and n: "no_action n = action_viewed_gallery" "no_owner_id n = owner"
    "distinct (authed_of n)" "distinct (unauthed_of n)"
    and week: "\<And>s. beginning_of_week (nw_clock w) (nw_now w s) = t0"
    and answered: "\<And>s. is_ok (fst (nw_after w owner action_viewed_gallery t0 s))"
  shows "viewers_once t0 owner (table (snd (dispatch_notif ul w order n s)))"
proof (rule table_after_dispatch)
  show "handler_of (no_action n) = Some Viewed" using n by (simp add: handler_of_def notif_action_defs)
  show "viewers_once t0 owner (table (snd (handle_notif ul w order Viewed n t)))" if "table t = table s" for t
    using viewed_handle_once [OF _ n week answered] once that by simp
qed

end

section \<open>Counting the users of a group\<close>

definition users_of :: "string \<Rightarrow> notification_data \<Rightarrow> string list" where
  "users_of a d = (if a = action_user_followed_users then nd_follower_ids d else nd_admirer_ids d)"

definition counted :: "string \<Rightarrow> notification list \<Rightarrow> bool" where
  "counted a rows \<longleftrightarrow> (\<forall>r \<in> set rows. no_action r = a \<longrightarrow>
     distinct (users_of a (no_data r)) \<and> no_amount r = word_of_nat (length (users_of a (no_data r))))"

definition user_recorded :: "string \<Rightarrow> string \<Rightarrow> string \<Rightarrow> notification list \<Rightarrow> bool" where
  "user_recorded a owner u rows \<longleftrightarrow> (\<exists>r \<in> set rows. no_owner_id r = owner \<and> no_action r = a \<and> u \<in> set (users_of a (no_data r)))"

definition user_groups :: "string list" where
  "user_groups = action_user_followed_users # admire_actions"

lemma users_of_concat: "users_of a (concat_data ul d other) = unique_dbids (users_of a other @ users_of a d)"
  by (simp add: users_of_def concat_data_viewers)

lemma grouped_amount_users:
  "a \<in> set user_groups \<Longrightarrow> no_action n = a \<Longrightarrow> grouped_amount ul n r d = word_of_nat (length (users_of a d))"
  by (auto simp: user_groups_def admire_actions_def grouped_amount_def users_of_def notif_action_defs)

context notification_table
begin

text \<open>What \<^verbatim>\<open>ownerGroupedNotificationHandler\<close> and \<^verbatim>\<open>tokenIDGroupedNotificationHandler\<close> do once they have the recent row.\<close>

lemma group_or_insert_counted:
  assumes group: "no_action n = a" "a \<in> set user_groups" "users_of a (no_data n) = [u]" and inv: "counted a (table s)"
    and cur: "cur \<in> set (table s) \<and> no_owner_id cur = no_owner_id n \<and> no_action cur = a \<or> cur = zero_notification"
    and clock: "zero_time + 24 * hour \<le> nw_now w s"
  shows "counted a (table (snd (group_or_insert ul w n cur s)))"
    "fst (group_or_insert ul w n cur s) = Ok () \<Longrightarrow> user_recorded a (no_owner_id n) u (table (snd (group_or_insert ul w n cur s)))"
proof -
  have quiet: "no_action n \<noteq> action_new_tokens_received"
    using group by (auto simp: user_groups_def admire_actions_def notif_action_defs)
  define d where "d = concat_data ul (no_data cur) (no_data n)"
  define up where "up = \<lparr>un_id = no_id cur, un_data = d, un_amount = grouped_amount ul n cur d, un_event_ids = no_event_ids n\<rparr>"
  have d: "users_of a d = unique_dbids (u # users_of a (no_data cur))" by (simp add: d_def users_of_concat group)
  have amount: "un_amount up = word_of_nat (length (users_of a d))"
    by (simp add: up_def grouped_amount_users group)
  have new: "counted a (table (snd (insert_and_publish_notif ul w n s))) \<and>
    (fst (insert_and_publish_notif ul w n s) = Ok () \<longrightarrow>
      user_recorded a (no_owner_id n) u (table (snd (insert_and_publish_notif ul w n s))))"
    using table_after_insert [OF quiet, of ul s] inv group by (auto simp: counted_def user_recorded_def)
  have old: "counted a (table (snd (update_and_publish_notif ul w n cur s))) \<and>
    (fst (update_and_publish_notif ul w n cur s) = Ok () \<longrightarrow>
      user_recorded a (no_owner_id n) u (table (snd (update_and_publish_notif ul w n cur s))))"
    if c: "cur \<in> set (table s)" "no_owner_id cur = no_owner_id n" "no_action cur = a"
  proof -
    have "distinct (users_of a (no_data (updated_row up x))) \<and>
        no_amount (updated_row up x) = word_of_nat (length (users_of a (no_data (updated_row up x))))"
      if "x \<in> set (table s)" "no_action x = a" for x
      using inv that amount d by (cases "no_id x = un_id up \<and> no_amount x \<noteq> un_amount up")
        (simp_all add: updated_row_def counted_def up_def)
    then have "counted a (map (updated_row up) (table s))" by (simp add: counted_def)
    moreover have "u \<in> set (users_of a (no_data (updated_row up cur)))"
    proof (cases "no_amount cur = un_amount up")
      case True
      have old: "no_amount cur = word_of_nat (length (users_of a (no_data cur)))" "distinct (users_of a (no_data cur))"
        using inv c by (auto simp: counted_def)
      have "u \<in> set (users_of a (no_data cur))"
      proof (rule ccontr)
        assume "u \<notin> set (users_of a (no_data cur))"
        then have "length (users_of a d) = Suc (length (users_of a (no_data cur)))"
          using old(2) distinct_card [of "unique_dbids (u # users_of a (no_data cur))"] by (simp add: d distinct_card)
        with True amount old(1) show False by simp
      qed
      with True show ?thesis by (simp add: updated_row_def)
    qed (simp add: updated_row_def up_def d)
    ultimately show ?thesis
      using table_after_update_and_publish [OF quiet, of ul cur s] inv c
      by (auto simp: user_recorded_def up_def d_def)
  qed
  have window: "group_window a \<le> 24 * hour"
    by (simp add: group_window_def default_grouped_window_def hour_def minute_def)
  have late: "\<not> time_since (nw_now w s) zero_time < group_window a"
    using clock window by (simp add: time_since_def hour_def minute_def)
  have "group_or_insert ul w n cur s = (if time_since (nw_now w s) (no_created_at cur) < group_window a
      then update_and_publish_notif ul w n cur s else insert_and_publish_notif ul w n s)"
    by (simp add: group_or_insert_def group)
  with cur late new old show "counted a (table (snd (group_or_insert ul w n cur s)))"
    "fst (group_or_insert ul w n cur s) = Ok () \<Longrightarrow> user_recorded a (no_owner_id n) u (table (snd (group_or_insert ul w n cur s)))"
    by (auto simp: zero_notification_def)
qed

lemma dispatch_counts_users:
  assumes group: "no_action n = a" "a \<in> set user_groups" "users_of a (no_data n) = [u]" and inv: "counted a (table s)"
    and clock: "\<And>s. zero_time + 24 * hour \<le> nw_now w s"
  shows "counted a (table (snd (dispatch_notif ul w order n s)))"
    "fst (dispatch_notif ul w order n s) = Ok () \<Longrightarrow> user_recorded a (no_owner_id n) u (table (snd (dispatch_notif ul w order n s)))"
proof -
  obtain ok s1 where lock: "nw_lock w (lock_key_string n) max_lock_timeout s = (ok, s1)" by (cases "nw_lock w (lock_key_string n) max_lock_timeout s")
  then have t1: "table s1 = table s" using lock_leaves(1) by (metis snd_conv)
  define found where "found t t' cur \<longleftrightarrow> table t' = table t \<and> cur \<in> set (table t) \<and> no_owner_id cur = no_owner_id n \<and> no_action cur = a"
    for t t' cur
  let ?pt = "(recent_params_of n)\<lparr>rp_token_id := no_token_id n, rp_only_for_comment := False, rp_comment_id := []\<rparr>"
  have pars: "rp_owner_id (recent_params_of n) = no_owner_id n" "rp_action (recent_params_of n) = a"
    by (simp_all add: recent_params_of_def group)
  have query: "found t t' cur" if "nw_most_recent w (recent_params_of n) t = (Ok cur, t')" for t t' cur
    using most_recent [of "recent_params_of n" t cur] leavesD [OF reads(5) that] that pars by (simp add: found_def)
  have token_query: "found t t' cur" if "nw_most_recent_token w ?pt t = (Ok cur, t')" for t t' cur
    using most_recent_token [of ?pt t cur] leavesD [OF reads(2) that] that pars by (simp add: found_def)
  obtain h q where h: "handler_of (no_action n) = Some h"
    and handle: "handle_notif ul w order h n = act_then (or_else q zero_notification) (group_or_insert ul w n)"
    and q: "\<And>t cur t'. q t = (Ok cur, t') \<Longrightarrow> found t t' cur" "leaves table q"
  proof (cases "a = action_admired_token")
    case True
    then have "handler_of (no_action n) = Some TokenGrouped" by (simp add: group(1) handler_of_def notif_action_defs)
    from that [OF this _ token_query reads(2)] show ?thesis by (simp add: token_grouped_handle_def)
  next
    case False
    with group(2) have "handler_of (no_action n) = Some OwnerGrouped"
      by (auto simp: user_groups_def admire_actions_def handler_of_def group(1))
    from that [OF this _ query reads(5)] show ?thesis by (simp add: owner_grouped_handle_def)
  qed
  obtain res s2 where ran: "handle_notif ul w order h n s1 = (res, s2)" by (cases "handle_notif ul w order h n s1")
  have s2: "counted a (table s2) \<and> (res = Ok () \<longrightarrow> user_recorded a (no_owner_id n) u (table s2))"
  proof (cases "q s1")
    case (Pair r t)
    have t: "table t = table s1" by (rule leavesD [OF q(2) Pair])
    have inv': "counted a (table t)" using inv t1 t by simp
    note go = group_or_insert_counted [OF group inv' _ clock, of _ ul]
    have handled: "counted a (table (snd (group_or_insert ul w n cur t))) \<and> (fst (group_or_insert ul w n cur t) = Ok () \<longrightarrow>
        user_recorded a (no_owner_id n) u (table (snd (group_or_insert ul w n cur t))))"
      if "r = Ok cur \<or> cur = zero_notification" for cur
      using that go t Pair q(1) [of s1 cur t] by (auto simp: found_def)
    show ?thesis
    proof (cases r)
      case (Ok cur)
      with handled [of cur] ran show ?thesis by (simp add: handle act_then_def or_else_def Pair)
    next
      case (Err e)
      with handled [of zero_notification] ran show ?thesis by (simp add: handle act_then_def or_else_def Pair)
    next
      case (Panic p)
      with ran inv' show ?thesis by (auto simp: handle act_then_def or_else_def Pair)
    qed
  qed
  have "dispatch_notif ul w order n s = (res, if ok then nw_unlock w (lock_key_string n) s2 else s2)"
    by (simp add: dispatch_notif_def h lock deferring_def ran)
  with s2 show "counted a (table (snd (dispatch_notif ul w order n s)))"
    "fst (dispatch_notif ul w order n s) = Ok () \<Longrightarrow> user_recorded a (no_owner_id n) u (table (snd (dispatch_notif ul w order n s)))"
    by (simp_all add: lock_leaves(2) split: if_splits)
qed

text \<open>A view by somebody who was seen this week, when the newest row is old: a row with no viewers.\<close>

lemma viewed_handle_seen:
  assumes n: "no_action n = action_viewed_gallery" and week: "beginning_of_week (nw_clock w) (nw_now w s) = t0"
    and after: "nw_after w (no_owner_id n) action_viewed_gallery t0 s = (Ok (recent # rest), s1)"
    and old: "\<not> time_since (nw_now w s1) (no_created_at recent) < view_window"
    and seen: "set (authed_of n) \<subseteq> (\<Union>r \<in> set (recent # rest). set (authed_of r))"
      "set (unauthed_of n) \<subseteq> (\<Union>r \<in> set (recent # rest). set (unauthed_of r))"
    and ran: "fst (viewed_handle ul w n s) = Ok ()"
  shows "\<exists>r. table (snd (viewed_handle ul w n s)) = r # table s \<and> authed_of r = [] \<and> unauthed_of r = [] \<and> no_amount r = 1"
proof -
  let ?n = "n\<lparr>no_data := new_viewers (recent # rest) (no_data n)\<rparr>"
  have after': "or_else (nw_after w (no_owner_id n) action_viewed_gallery t0) [] s = (Ok (recent # rest), s1)"
    by (simp add: or_else_def after)
  have step: "viewed_handle ul w n s = insert_and_publish_notif ul w ?n s1"
    using old by (simp add: viewed_handle_def week n act_then_after [of "or_else _ _" s, OF after'] Let_def)
  have none: "authed_of ?n = []" "unauthed_of ?n = []"
    using seen unseen_viewers_set [of authed_of "recent # rest"] unseen_viewers_set [of unauthed_of "recent # rest"]
    by (auto simp: authed_of_def [abs_def] unauthed_of_def [abs_def] new_viewers_def simp flip: set_empty)
  have "no_action ?n \<noteq> action_new_tokens_received" by (simp add: n notif_action_defs)
  from table_after_insert [OF this, of ul s1] ran none leavesD [OF reads(3) after] show ?thesis
    by (auto simp: step authed_of_def unauthed_of_def)
qed

text \<open>A new viewer of such a row within its 24 hours: the amount stays 1, so the update is not made.\<close>

lemma viewed_handle_lost:
  assumes n: "no_action n = action_viewed_gallery" "authed_of n = [v]" "unauthed_of n = []"
    and week: "beginning_of_week (nw_clock w) (nw_now w s) = t0"
    and after: "nw_after w (no_owner_id n) action_viewed_gallery t0 s = (Ok (recent # rest), s1)"
    and new: "time_since (nw_now w s1) (no_created_at recent) < view_window"
    and empty: "authed_of recent = []" "unauthed_of recent = []"
    and unseen: "\<forall>r \<in> set rest. v \<notin> set (authed_of r)"
    and amount: "\<forall>r \<in> set (table s). no_id r = no_id recent \<longrightarrow> no_amount r = 1"
  shows "table (snd (viewed_handle ul w n s)) = table s"
proof -
  let ?n = "n\<lparr>no_data := new_viewers (recent # rest) (no_data n)\<rparr>"
  let ?d = "concat_data ul (no_data recent) (no_data ?n)"
  have after': "or_else (nw_after w (no_owner_id n) action_viewed_gallery t0) [] s = (Ok (recent # rest), s1)"
    by (simp add: or_else_def after)
  have step: "viewed_handle ul w n s = update_and_publish_notif ul w ?n recent s1"
    using new by (simp add: viewed_handle_def week n act_then_after [of "or_else _ _" s, OF after'] Let_def)
  have viewers: "nd_authed_viewer_ids (no_data ?n) = [v]" "nd_unauthed_viewer_ids (no_data ?n) = []"
    using n(2,3) empty unseen
    by (auto simp: new_viewers_def authed_of_def unauthed_of_def unseen_viewers_def contains_elem_iff)
  have "unique_dbids [v] = [v]" "unique_strings [] = []"
    by (simp_all add: unique_dbids_def unique_strings_def)
  then have "grouped_amount ul ?n recent ?d = 1"
    using viewers empty by (simp add: grouped_amount_def n(1) admire_actions_def notif_action_defs concat_data_viewers
        authed_of_def unauthed_of_def)
  then have same: "map (updated_row \<lparr>un_id = no_id recent, un_data = ?d, un_amount = grouped_amount ul ?n recent ?d, un_event_ids = no_event_ids ?n\<rparr>)
      (table s1) = table s1"
    using amount leavesD [OF reads(3) after] by (intro map_idI) (auto simp: updated_row_def)
  have "no_action ?n \<noteq> action_new_tokens_received" by (simp add: n notif_action_defs)
  from table_after_update_and_publish [OF this, of ul recent s1] same leavesD [OF reads(3) after] show ?thesis
    unfolding step by metis
qed

end

end
