(* ===== verification/SortWrt.thy ===== *)
theory SortWrt
  imports "HOL-Library.Multiset"
begin

text \<open>
  \<^verbatim>\<open>ORDER BY\<close> over an order that need not be total: rows that are not ordered keep the order of
  the table. Over a strict total order the result is the only sorted list of these rows.
\<close>

fun insort_wrt :: "('a \<Rightarrow> 'a \<Rightarrow> bool) \<Rightarrow> 'a \<Rightarrow> 'a list \<Rightarrow> 'a list" where
  "insort_wrt lt x [] = [x]"
| "insort_wrt lt x (y # ys) = (if lt y x then y # insort_wrt lt x ys else x # y # ys)"

definition sort_wrt :: "('a \<Rightarrow> 'a \<Rightarrow> bool) \<Rightarrow> 'a list \<Rightarrow> 'a list" where
  "sort_wrt lt xs = foldr (insort_wrt lt) xs []"

definition strict_on :: "('a \<Rightarrow> 'a \<Rightarrow> bool) \<Rightarrow> 'a set \<Rightarrow> bool" where
  "strict_on lt A \<longleftrightarrow> (\<forall>x \<in> A. \<not> lt x x) \<and> (\<forall>x \<in> A. \<forall>y \<in> A. \<forall>z \<in> A. lt x y \<longrightarrow> lt y z \<longrightarrow> lt x z) \<and>
     (\<forall>x \<in> A. \<forall>y \<in> A. x \<noteq> y \<longrightarrow> lt x y \<or> lt y x)"

lemma strict_on_subset: "strict_on lt B \<Longrightarrow> A \<subseteq> B \<Longrightarrow> strict_on lt A"
  unfolding strict_on_def by (meson subsetD)

lemma strict_on_flip: "strict_on lt A \<Longrightarrow> strict_on (\<lambda>x y. lt y x) A"
  unfolding strict_on_def by blast

lemma strict_onD:
  assumes "strict_on lt A"
  shows "x \<in> A \<Longrightarrow> \<not> lt x x" "x \<in> A \<Longrightarrow> y \<in> A \<Longrightarrow> z \<in> A \<Longrightarrow> lt x y \<Longrightarrow> lt y z \<Longrightarrow> lt x z"
    "x \<in> A \<Longrightarrow> y \<in> A \<Longrightarrow> x \<noteq> y \<Longrightarrow> lt x y \<or> lt y x"
proof -
  note order = assms [unfolded strict_on_def]
  show "x \<in> A \<Longrightarrow> \<not> lt x x" by (rule order [THEN conjunct1, rule_format])
  show "x \<in> A \<Longrightarrow> y \<in> A \<Longrightarrow> z \<in> A \<Longrightarrow> lt x y \<Longrightarrow> lt y z \<Longrightarrow> lt x z"
    by (rule order [THEN conjunct2, THEN conjunct1, rule_format])
  show "x \<in> A \<Longrightarrow> y \<in> A \<Longrightarrow> x \<noteq> y \<Longrightarrow> lt x y \<or> lt y x"
    by (rule order [THEN conjunct2, THEN conjunct2, rule_format])
qed

lemma insort_wrt_set [simp]: "set (insort_wrt lt x xs) = insert x (set xs)"
  by (induction xs) auto

lemma insort_wrt_mset [simp]: "mset (insort_wrt lt x xs) = add_mset x (mset xs)"
  by (induction xs) auto

lemma sort_wrt_Cons: "sort_wrt lt (x # xs) = insort_wrt lt x (sort_wrt lt xs)" "sort_wrt lt [] = []"
  by (simp_all add: sort_wrt_def)

lemma sort_wrt_mset [simp]: "mset (sort_wrt lt xs) = mset xs"
  by (induction xs) (simp_all add: sort_wrt_Cons)

lemma sort_wrt_set [simp]: "set (sort_wrt lt xs) = set xs"
  by (rule mset_eq_setD) simp

lemma insort_wrt_sorted:
  assumes "strict_on lt (insert x (set xs))" and "x \<notin> set xs" and "sorted_wrt lt xs"
  shows "sorted_wrt lt (insort_wrt lt x xs)"
  using assms
proof (induction xs)
  case (Cons y ys)
  have tot: "lt x y \<or> lt y x" using strict_onD(3) [OF Cons.prems(1), of x y] Cons.prems(2) by simp
  have after: "lt x z" if "lt x y" "z \<in> set ys" for z
    using strict_onD(2) [OF Cons.prems(1), of x y z] Cons.prems(3) that by simp
  have "sorted_wrt lt (insort_wrt lt x ys)"
    using Cons.IH Cons.prems(2,3) strict_on_subset [OF Cons.prems(1), of "insert x (set ys)"] by auto
  with tot after Cons.prems(3) show ?case by auto
qed simp

lemma sort_wrt_sorted: "strict_on lt (set xs) \<Longrightarrow> distinct xs \<Longrightarrow> sorted_wrt lt (sort_wrt lt xs)"
proof (induction xs)
  case (Cons x xs)
  then have "strict_on lt (set xs)" by (metis set_subset_Cons strict_on_subset)
  with Cons insort_wrt_sorted [of lt x "sort_wrt lt xs"] show ?case by (simp add: sort_wrt_Cons)
qed (simp add: sort_wrt_def)

lemma sorted_wrt_unique:
  assumes "sorted_wrt lt xs" and "sorted_wrt lt ys" and "set xs = set ys" and "strict_on lt (set xs)"
  shows "xs = ys"
  using assms
proof (induction xs arbitrary: ys)
  case (Cons x xs)
  then obtain y ys' where ys: "ys = y # ys'" by (cases ys) auto
  note order = strict_onD [OF Cons.prems(4)]
  have "x = y"
  proof (rule ccontr)
    assume "x \<noteq> y"
    then have "y \<in> set xs" "x \<in> set ys'" using Cons.prems(3) ys by auto
    then have "lt x y" "lt y x" using Cons.prems(1,2) ys by simp_all
    with order(2) [of x y x] order(1) [of x] \<open>y \<in> set xs\<close> show False by simp
  qed
  moreover have "x \<notin> set xs" using Cons.prems(1) order(1) by auto
  moreover have "y \<notin> set ys'" using Cons.prems(2) order(1) ys calculation(1) by auto
  ultimately have "set xs = set ys'" using Cons.prems(3) ys by auto
  moreover have "strict_on lt (set xs)" using Cons.prems(4) by (metis set_subset_Cons strict_on_subset)
  ultimately show ?case using Cons.IH [of ys'] Cons.prems(1,2) ys \<open>x = y\<close> by simp
qed simp

lemma sort_wrt_filter:
  assumes "strict_on lt (set xs)" and "distinct xs"
  shows "sort_wrt lt (filter P xs) = filter P (sort_wrt lt xs)"
proof (rule sorted_wrt_unique)
  have "strict_on lt (set (filter P xs))" using assms(1) by (rule strict_on_subset) auto
  then show "sorted_wrt lt (sort_wrt lt (filter P xs))" "strict_on lt (set (sort_wrt lt (filter P xs)))"
    using assms(2) by (simp_all add: sort_wrt_sorted)
qed (simp_all add: assms sort_wrt_sorted sorted_wrt_filter)

lemma sort_wrt_flip:
  assumes "strict_on lt (set xs)" and "distinct xs"
  shows "sort_wrt (\<lambda>x y. lt y x) xs = rev (sort_wrt lt xs)"
proof (rule sorted_wrt_unique)
  show "sorted_wrt (\<lambda>x y. lt y x) (sort_wrt (\<lambda>x y. lt y x) xs)"
    using strict_on_flip [OF assms(1)] assms(2) by (rule sort_wrt_sorted)
  show "strict_on (\<lambda>x y. lt y x) (set (sort_wrt (\<lambda>x y. lt y x) xs))"
    using strict_on_flip [OF assms(1)] by simp
qed (use sort_wrt_sorted [OF assms] in \<open>simp_all add: sorted_wrt_rev\<close>)

end
