(* ===== verification/NotificationTable.thy ===== *)
theory NotificationTable
  imports NotificationProps SortWrt
begin

text \<open>
  The queries of \<^verbatim>\<open>db/gen/coredb/query.sql.go\<close> on the table \<^verbatim>\<open>notifications\<close>, as functions of
  its rows. An empty id in a row stands for NULL: the foreign keys let no other empty id in.
  The connection, the foreign keys to other tables, the server's clock, the collation of ids,
  the users and the text of a JSON value that is not a string are the fields of \<open>notif_db\<close>.
\<close>

section \<open>JSON columns\<close>

datatype json_val = JText string | JTexts "string list" | JInt int | JBool bool | JObject "(string \<times> json_val) list"

definition text_field :: "string \<Rightarrow> string \<Rightarrow> (string \<times> json_val) list" where
  "text_field k s = (if s = '''' then [] else [(k, JText s)])"

definition texts_field :: "string \<Rightarrow> string list \<Rightarrow> (string \<times> json_val) list" where
  "texts_field k xs = (if xs = [] then [] else [(k, JTexts xs)])"

definition bool_field :: "string \<Rightarrow> bool \<Rightarrow> (string \<times> json_val) list" where
  "bool_field k b = (if b then [(k, JBool True)] else [])"

definition announcement_json :: "announcement_details \<Rightarrow> (string \<times> json_val) list" where
  "announcement_json d =
     [(''platform'', JText (an_platform d)), (''internal_id'', JText (an_internal_id d))]
     @ text_field ''image_url'' (an_image_url d) @ text_field ''title'' (an_title d)
     @ text_field ''description'' (an_description d) @ text_field ''cta_text'' (an_cta_text d)
     @ text_field ''cta_link'' (an_cta_link d) @ text_field ''push_notification_text'' (an_push_text d)"

definition data_json :: "notification_data \<Rightarrow> (string \<times> json_val) list" where
  "data_json d =
     texts_field ''viewer_ids'' (nd_authed_viewer_ids d)
     @ texts_field ''unauthed_viewer_ids'' (nd_unauthed_viewer_ids d)
     @ texts_field ''follower_ids'' (nd_follower_ids d) @ texts_field ''admirer_ids'' (nd_admirer_ids d)
     @ bool_field ''followed_back'' (nd_followed_back d) @ bool_field ''refollowed'' (nd_refollowed d)
     @ text_field ''new_token_id'' (nd_new_token_id d)
     @ text_field ''new_token_quantity'' (nd_new_token_quantity d)
     @ text_field ''original_comment_id'' (nd_original_comment_id d)
     @ (if nd_activity_badge_threshold d = 0 then []
        else [(''activity_badge_threshold'', JInt (nd_activity_badge_threshold d))])
     @ bool_field ''new_top_active_user'' (nd_new_top_active_user d)
     @ (case nd_announcement d of None \<Rightarrow> [] | Some a \<Rightarrow> [(''announcement_details'', JObject (announcement_json a))])
     @ (case nd_farcaster_joined d of None \<Rightarrow> []
        | Some u \<Rightarrow> [(''user_from_farcaster_joined_details'', JObject [(''user_id'', JText u)])])"

text \<open>The operator \<^verbatim>\<open>->>\<close> on an object.\<close>

definition json_text :: "(json_val \<Rightarrow> string) \<Rightarrow> (string \<times> json_val) list \<Rightarrow> string \<Rightarrow> string option" where
  "json_text render flds k = (case map_of flds k of
     None \<Rightarrow> None | Some (JText s) \<Rightarrow> Some s | Some v \<Rightarrow> Some (render v))"

section \<open>Rows\<close>

record notification_row = notification +
  nx_deleted :: bool
  nx_seen :: bool
  nx_last_updated :: int

record 'b notif_db =
  db_connect :: "('b, unit) act"
  db_refers :: "create_params \<Rightarrow> ('b, unit) act"
  db_now :: "'b \<Rightarrow> int"
  db_users :: "'b \<Rightarrow> string list"
  db_id_less :: "string \<Rightarrow> string \<Rightarrow> bool"
  db_json_text :: "json_val \<Rightarrow> string"

type_synonym 'b notif_tables = "notification_row list \<times> 'b"

text \<open>What reaches the code of a row: the columns without those it does not look at.\<close>

definition scanned :: "notification_row \<Rightarrow> notification" where
  "scanned r = notification.truncate r"

lemma scanned_fields [simp]:
  "no_id (scanned r) = no_id r" "no_owner_id (scanned r) = no_owner_id r" "no_created_at (scanned r) = no_created_at r"
  "no_action (scanned r) = no_action r" "no_data (scanned r) = no_data r" "no_event_ids (scanned r) = no_event_ids r"
  "no_amount (scanned r) = no_amount r"
  by (simp_all add: scanned_def notification.truncate_def)

definition outside :: "('b, 'a) act \<Rightarrow> ('b notif_tables, 'a) act" where
  "outside m = (\<lambda>(rows, b). case m b of (r, b1) \<Rightarrow> (r, (rows, b1)))"

definition statement :: "'b notif_db \<Rightarrow> (notification_row list \<Rightarrow> 'b \<Rightarrow> 'a outcome \<times> notification_row list)
    \<Rightarrow> ('b notif_tables, 'a) act" where
  "statement db f = act_then (outside (db_connect db)) (\<lambda>_ (rows, b).
     case f rows b of (r, rows1) \<Rightarrow> (r, (rows1, b)))"

definition select_rows :: "'b notif_db \<Rightarrow> (notification_row list \<Rightarrow> 'a outcome) \<Rightarrow> ('b notif_tables, 'a) act" where
  "select_rows db f = statement db (\<lambda>rows b. (f rows, rows))"

definition one_row :: "notification_row list \<Rightarrow> notification outcome" where
  "one_row rows = (case rows of [] \<Rightarrow> Err ErrNoRows | r # _ \<Rightarrow> Ok (scanned r))"

definition null_text :: "null_string \<Rightarrow> string" where
  "null_text s = (if ns_valid s then ns_string s else '''')"

definition column_is :: "string \<Rightarrow> string \<Rightarrow> bool" where
  "column_is col v \<longleftrightarrow> col \<noteq> '''' \<and> col = v"

text \<open>Rows with the same time are left in the order of the table.\<close>

definition newest_first :: "notification_row list \<Rightarrow> notification_row list" where
  "newest_first rows = sort_key (\<lambda>r. - no_created_at r) rows"

section \<open>Inserts\<close>

definition inserted_row :: "int \<Rightarrow> create_params \<Rightarrow> notification_row" where
  "inserted_row now p = \<lparr>no_id = cn_id p, no_owner_id = cn_owner_id p, no_created_at = now,
     no_action = cn_action p, no_data = cn_data p, no_event_ids = cn_event_ids p, no_feed_event_id = '''',
     no_comment_id = '''', no_gallery_id = '''', no_amount = 1, no_post_id = '''', no_token_id = '''',
     no_mention_id = '''', no_community_id = '''', nx_deleted = False, nx_seen = False, nx_last_updated = now\<rparr>"

definition create_admire_notification :: "int \<Rightarrow> create_params \<Rightarrow> notification_row" where
  "create_admire_notification now p = (inserted_row now p)
     \<lparr>no_feed_event_id := null_text (cn_feed_event p), no_post_id := null_text (cn_post p), no_token_id := null_text (cn_token p)\<rparr>"

definition create_comment_notification :: "int \<Rightarrow> create_params \<Rightarrow> notification_row" where
  "create_comment_notification now p = (inserted_row now p)
     \<lparr>no_feed_event_id := null_text (cn_feed_event p), no_post_id := null_text (cn_post p), no_comment_id := null_text (cn_comment p)\<rparr>"

definition create_community_notification :: "int \<Rightarrow> create_params \<Rightarrow> notification_row" where
  "create_community_notification now p = (inserted_row now p)
     \<lparr>no_feed_event_id := null_text (cn_feed_event p), no_post_id := null_text (cn_post p), no_comment_id := null_text (cn_comment p),
      no_community_id := cn_community_id p, no_mention_id := cn_mention_id p\<rparr>"

definition create_user_posted_your_work_notification :: "int \<Rightarrow> create_params \<Rightarrow> notification_row" where
  "create_user_posted_your_work_notification now p = (inserted_row now p)
     \<lparr>no_post_id := null_text (cn_post p), no_community_id := cn_community_id p\<rparr>"

definition create_simple_notification :: "int \<Rightarrow> create_params \<Rightarrow> notification_row" where
  "create_simple_notification now p = inserted_row now p"

definition create_token_notification :: "int \<Rightarrow> create_params \<Rightarrow> notification_row" where
  "create_token_notification now p = (inserted_row now p)\<lparr>no_token_id := null_text (cn_token p), no_amount := cn_amount p\<rparr>"

definition create_mention_user_notification :: "int \<Rightarrow> create_params \<Rightarrow> notification_row" where
  "create_mention_user_notification now p = (inserted_row now p)
     \<lparr>no_feed_event_id := null_text (cn_feed_event p), no_post_id := null_text (cn_post p), no_comment_id := null_text (cn_comment p),
      no_mention_id := cn_mention_id p\<rparr>"

definition create_view_gallery_notification :: "int \<Rightarrow> create_params \<Rightarrow> notification_row" where
  "create_view_gallery_notification now p = (inserted_row now p)\<lparr>no_gallery_id := cn_gallery_id p\<rparr>"

definition create_post_notification :: "int \<Rightarrow> create_params \<Rightarrow> notification_row" where
  "create_post_notification now p = (inserted_row now p)\<lparr>no_post_id := null_text (cn_post p)\<rparr>"

definition created_row :: "int \<Rightarrow> create_params \<Rightarrow> notification_row" where
  "created_row now p = (case cn_query p of
     CreateAdmire \<Rightarrow> create_admire_notification now p
   | CreateComment \<Rightarrow> create_comment_notification now p
   | CreateSimple \<Rightarrow> create_simple_notification now p
   | CreateViewGallery \<Rightarrow> create_view_gallery_notification now p
   | CreateToken \<Rightarrow> create_token_notification now p
   | CreateMentionUser \<Rightarrow> create_mention_user_notification now p
   | CreateCommunity \<Rightarrow> create_community_notification now p
   | CreateUserPostedYourWork \<Rightarrow> create_user_posted_your_work_notification now p
   | CreatePost \<Rightarrow> create_post_notification now p)"

text \<open>The ids an insert refers to; an empty one that is not NULL is in no other table.\<close>

definition references :: "create_params \<Rightarrow> string list" where
  "references p = map ns_string (filter ns_valid [cn_feed_event p, cn_post p, cn_token p, cn_comment p])
     @ (case cn_query p of
          CreateViewGallery \<Rightarrow> [cn_gallery_id p]
        | CreateMentionUser \<Rightarrow> [cn_mention_id p]
        | CreateCommunity \<Rightarrow> [cn_mention_id p, cn_community_id p]
        | CreateUserPostedYourWork \<Rightarrow> [cn_community_id p]
        | _ \<Rightarrow> [])"

definition foreign_key_violation :: gerror where
  "foreign_key_violation = ErrText ''insert or update on table \"notifications\" violates foreign key constraint''"

definition primary_key_violation :: gerror where
  "primary_key_violation = ErrText ''duplicate key value violates unique constraint \"notifications_pkey\"''"

definition create_row :: "'b notif_db \<Rightarrow> create_params \<Rightarrow> ('b notif_tables, notification) act" where
  "create_row db p = act_then (outside (db_refers db p)) (\<lambda>_. statement db (\<lambda>rows b.
     let r = created_row (db_now db b) p in
     if '''' \<in> set (references p) then (Err foreign_key_violation, rows)
     else if no_id r \<in> no_id ` set rows then (Err primary_key_violation, rows)
     else (Ok (scanned r), r # rows)))"

definition announcement_row :: "int \<Rightarrow> announcement_params \<Rightarrow> string \<times> string \<Rightarrow> notification_row" where
  "announcement_row now p = (\<lambda>(i, owner). \<lparr>no_id = i, no_owner_id = owner, no_created_at = now,
     no_action = ap_action p, no_data = ap_data p, no_event_ids = ap_event_ids p, no_feed_event_id = '''',
     no_comment_id = '''', no_gallery_id = '''', no_amount = 1, no_post_id = '''', no_token_id = '''',
     no_mention_id = '''', no_community_id = '''', nx_deleted = False, nx_seen = False, nx_last_updated = now\<rparr>)"

text \<open>The subquery of \<^verbatim>\<open>NOT EXISTS\<close>: a row of the user whose data has the internal id.\<close>

definition already_announced :: "(json_val \<Rightarrow> string) \<Rightarrow> announcement_params \<Rightarrow> notification_row list \<Rightarrow> string \<Rightarrow> bool" where
  "already_announced render p rows user \<longleftrightarrow>
     (\<exists>r \<in> set rows. no_owner_id r = user \<and> json_text render (data_json (no_data r)) ''internal_id'' = Some (ap_internal p))"

definition create_announcement_rows :: "'b notif_db \<Rightarrow> announcement_params \<Rightarrow> ('b notif_tables, notification list) act" where
  "create_announcement_rows db p = statement db (\<lambda>rows b.
     let new = map (announcement_row (db_now db b) p)
           (filter (\<lambda>(i, user). \<not> already_announced (db_json_text db) p rows user)
             (zip (sort_wrt (db_id_less db) (ap_ids p)) (db_users db b))) in
     if \<not> distinct (map no_id new) \<or> no_id ` set new \<inter> no_id ` set rows \<noteq> {} then (Err primary_key_violation, rows)
     else (Ok (map scanned new), rev new @ rows))"

section \<open>Updates\<close>

definition update_row :: "int \<Rightarrow> update_params \<Rightarrow> notification_row \<Rightarrow> notification_row" where
  "update_row now u r = (if no_id r = un_id u \<and> \<not> nx_deleted r \<and> no_amount r \<noteq> un_amount u
     then r\<lparr>no_data := un_data u, no_event_ids := no_event_ids r @ un_event_ids u, no_amount := un_amount u,
            nx_last_updated := now, nx_seen := False\<rparr>
     else r)"

definition update_notification :: "'b notif_db \<Rightarrow> update_params \<Rightarrow> ('b notif_tables, unit) act" where
  "update_notification db u = statement db (\<lambda>rows b. (Ok (), map (update_row (db_now db b) u) rows))"

definition unseen_of :: "string \<Rightarrow> notification_row \<Rightarrow> bool" where
  "unseen_of owner r \<longleftrightarrow> no_owner_id r = owner \<and> \<not> nx_seen r"

definition clear_notifications_for_user :: "'b notif_db \<Rightarrow> string \<Rightarrow> ('b notif_tables, notification list) act" where
  "clear_notifications_for_user db owner = statement db (\<lambda>rows b.
     (Ok (map scanned (filter (unseen_of owner) rows)),
      map (\<lambda>r. if unseen_of owner r then r\<lparr>nx_seen := True\<rparr> else r) rows))"

section \<open>Reads\<close>

definition matches_recent :: "recent_params \<Rightarrow> notification_row \<Rightarrow> bool" where
  "matches_recent q r \<longleftrightarrow> no_owner_id r = rp_owner_id q \<and> no_action r = rp_action q \<and> \<not> nx_deleted r \<and>
     (rp_only_for_feed_event q \<longrightarrow> column_is (no_feed_event_id r) (rp_feed_event_id q)) \<and>
     (rp_only_for_post q \<longrightarrow> column_is (no_post_id r) (rp_post_id q))"

definition get_most_recent_notification :: "'b notif_db \<Rightarrow> recent_params \<Rightarrow> ('b notif_tables, notification) act" where
  "get_most_recent_notification db q = select_rows db (\<lambda>rows. one_row (newest_first
     (filter (\<lambda>r. matches_recent q r \<and> (rp_only_for_comment q \<longrightarrow> column_is (no_comment_id r) (rp_comment_id q))) rows)))"

definition get_most_recent_token_notification :: "'b notif_db \<Rightarrow> recent_params \<Rightarrow> ('b notif_tables, notification) act" where
  "get_most_recent_token_notification db q = select_rows db (\<lambda>rows. one_row (newest_first
     (filter (\<lambda>r. matches_recent q r \<and> column_is (no_token_id r) (rp_token_id q)) rows)))"

definition get_notification_by_id :: "'b notif_db \<Rightarrow> string \<Rightarrow> ('b notif_tables, notification) act" where
  "get_notification_by_id db i = select_rows db (\<lambda>rows. one_row (filter (\<lambda>r. no_id r = i \<and> \<not> nx_deleted r) rows))"

definition get_notifications_after :: "'b notif_db \<Rightarrow> string \<Rightarrow> string \<Rightarrow> int \<Rightarrow> ('b notif_tables, notification list) act" where
  "get_notifications_after db owner a t = select_rows db (\<lambda>rows. Ok (map scanned (newest_first
     (filter (\<lambda>r. no_owner_id r = owner \<and> no_action r = a \<and> \<not> nx_deleted r \<and> t < no_created_at r) rows))))"

definition count_user_notifications :: "'b notif_db \<Rightarrow> string \<Rightarrow> ('b notif_tables, int) act" where
  "count_user_notifications db owner = select_rows db (\<lambda>rows.
     Ok (int (length (filter (\<lambda>r. no_owner_id r = owner \<and> \<not> nx_deleted r) rows))))"

definition count_user_unseen_notifications :: "'b notif_db \<Rightarrow> string \<Rightarrow> ('b notif_tables, int) act" where
  "count_user_unseen_notifications db owner = select_rows db (\<lambda>rows.
     Ok (int (length (filter (\<lambda>r. unseen_of owner r \<and> \<not> nx_deleted r) rows))))"

definition get_recent_unseen_notifications :: "'b notif_db \<Rightarrow> string \<Rightarrow> int \<Rightarrow> i32 \<Rightarrow> ('b notif_tables, notification list) act" where
  "get_recent_unseen_notifications db owner t limit = select_rows db (\<lambda>rows.
     if sint limit < 0 then Err (ErrText ''LIMIT must not be negative'')
     else Ok (map scanned (take (nat (sint limit)) (newest_first
       (filter (\<lambda>r. unseen_of owner r \<and> \<not> nx_deleted r \<and> t < no_created_at r) rows)))))"

definition count_all_users :: "'b notif_db \<Rightarrow> ('b notif_tables, int) act" where
  "count_all_users db = statement db (\<lambda>rows b. (Ok (int (length (db_users db b))), rows))"

section \<open>The world of the notifications on its tables\<close>

definition on_tables :: "'b notif_db \<Rightarrow> 'b notif_world \<Rightarrow> 'b notif_tables notif_world" where
  "on_tables db w =
     \<lparr>nw_new_id = outside (nw_new_id w), nw_now = (\<lambda>s. nw_now w (snd s)), nw_clock = nw_clock w,
      nw_create = create_row db, nw_create_announcements = create_announcement_rows db,
      nw_update = update_notification db, nw_most_recent = get_most_recent_notification db,
      nw_most_recent_token = get_most_recent_token_notification db, nw_after = get_notifications_after db,
      nw_by_id = get_notification_by_id db, nw_count_users = count_all_users db,
      nw_count_unseen = count_user_unseen_notifications db,
      nw_user = (\<lambda>i. outside (nw_user w i)), nw_comment = (\<lambda>i. outside (nw_comment w i)),
      nw_post = (\<lambda>i. outside (nw_post w i)), nw_feed_event_collection = (\<lambda>i. outside (nw_feed_event_collection w i)),
      nw_collection = (\<lambda>i. outside (nw_collection w i)), nw_community = (\<lambda>i. outside (nw_community w i)),
      nw_token_definition = (\<lambda>i (rows, b). case nw_token_definition w i b of (r, b1) \<Rightarrow> (r, (rows, b1))),
      nw_push_tokens = (\<lambda>i. outside (nw_push_tokens w i)), nw_limit = (\<lambda>l k. outside (nw_limit w l k)),
      nw_push_task = (\<lambda>m. outside (nw_push_task w m)), nw_publish = (\<lambda>t m. outside (nw_publish w t m)),
      nw_json = nw_json w, nw_env = nw_env w, nw_unescape = nw_unescape w,
      nw_lock = (\<lambda>k d (rows, b). case nw_lock w k d b of (ok, b1) \<Rightarrow> (ok, (rows, b1))),
      nw_unlock = (\<lambda>k (rows, b). (rows, nw_unlock w k b)), nw_sleep = (\<lambda>d (rows, b). (rows, nw_sleep w d b)),
      nw_intn = nw_intn w, nw_wrap = nw_wrap w\<rparr>"

section \<open>The contract of the table\<close>

text \<open>The rows that are not deleted are what the notifications see of the table.\<close>

definition live_rows :: "'b notif_tables \<Rightarrow> notification list" where
  "live_rows s = map scanned (filter (\<lambda>r. \<not> nx_deleted r) (fst s))"

lemma outside_apply: "outside m (rows, b) = (fst (m b), (rows, snd (m b)))"
  by (simp add: outside_def split: prod.split)

lemma outside_leaves [simp]: "leaves live_rows (outside m)"
  by (simp add: leaves_def live_rows_def outside_apply split_paired_all)

lemma statement_apply: "statement db f (rows, b) =
    (case db_connect db b of
       (Ok _, b1) \<Rightarrow> (fst (f rows b1), (snd (f rows b1), b1))
     | (Err e, b1) \<Rightarrow> (Err e, (rows, b1))
     | (Panic p, b1) \<Rightarrow> (Panic p, (rows, b1)))"
  by (auto simp: statement_def act_then_apply outside_apply split: prod.split outcome.split)

lemma select_rows_leaves [simp]: "leaves live_rows (select_rows db f)"
  by (auto simp: leaves_def select_rows_def statement_apply live_rows_def split_paired_all split: prod.split outcome.split)

lemma select_rows_Ok: "fst (select_rows db f s) = Ok x \<Longrightarrow> f (fst s) = Ok x"
  by (cases s) (auto simp: select_rows_def statement_apply split: prod.splits outcome.splits)

definition answers :: "'b notif_db \<Rightarrow> bool" where
  "answers db \<longleftrightarrow> (\<forall>b. fst (db_connect db b) = Ok ())"

lemma select_rows_answers: "answers db \<Longrightarrow> fst (select_rows db f s) = f (fst s)"
proof -
  obtain rows b where s: "s = (rows, b)" by (cases s)
  assume "answers db"
  then obtain b1 where "db_connect db b = (Ok (), b1)" by (metis answers_def prod.collapse)
  then show "fst (select_rows db f s) = f (fst s)" by (simp add: s select_rows_def statement_apply)
qed

lemma live_update_row:
  "map scanned (filter (\<lambda>r. \<not> nx_deleted r) (map (update_row now u) rows)) =
   map (updated_row u) (map scanned (filter (\<lambda>r. \<not> nx_deleted r) rows))"
proof -
  have "nx_deleted (update_row now u r) = nx_deleted r" for r by (simp add: update_row_def)
  moreover have "scanned (update_row now u r) = updated_row u (scanned r)" if "\<not> nx_deleted r" for r
    using that by (cases r) (simp add: update_row_def updated_row_def scanned_def notification.defs)
  ultimately show ?thesis by (induction rows) auto
qed

lemma created_row_fields:
  "no_id (created_row now p) = cn_id p" "no_owner_id (created_row now p) = cn_owner_id p"
  "no_action (created_row now p) = cn_action p" "no_data (created_row now p) = cn_data p"
  "nx_deleted (created_row now p) = False"
  "cn_query p \<noteq> CreateToken \<Longrightarrow> no_amount (created_row now p) = 1"
  unfolding created_row_def create_admire_notification_def create_comment_notification_def create_simple_notification_def
    create_view_gallery_notification_def create_token_notification_def create_mention_user_notification_def
    create_community_notification_def create_user_posted_your_work_notification_def create_post_notification_def
    inserted_row_def
  by (cases "cn_query p"; simp)+

lemma newest_first_set [simp]: "set (newest_first rows) = set rows"
  by (simp add: newest_first_def)

lemma one_row_Ok: "one_row rows = Ok r \<Longrightarrow> \<exists>x \<in> set rows. r = scanned x"
  by (auto simp: one_row_def split: list.splits)

lemma create_row_created:
  assumes "create_row db p s = (Ok r, s1)"
  shows "live_rows s1 = r # live_rows s" "no_owner_id r = cn_owner_id p" "no_action r = cn_action p"
    "no_data r = cn_data p" "no_id r \<notin> no_id ` set (live_rows s)" "cn_query p \<noteq> CreateToken \<Longrightarrow> no_amount r = 1"
proof -
  obtain rows b where s: "s = (rows, b)" by (cases s)
  from assms obtain b2 where r: "r = scanned (created_row (db_now db b2) p)" and fresh: "cn_id p \<notin> no_id ` set rows"
    and s1: "s1 = (created_row (db_now db b2) p # rows, b2)"
    by (auto simp: create_row_def act_then_apply outside_apply s statement_apply Let_def created_row_fields
        split: outcome.splits prod.splits if_splits)
  show "live_rows s1 = r # live_rows s" by (simp add: live_rows_def s s1 r created_row_fields)
  show "no_id r \<notin> no_id ` set (live_rows s)" using fresh by (auto simp: live_rows_def s r created_row_fields)
  show "no_owner_id r = cn_owner_id p" "no_action r = cn_action p" "no_data r = cn_data p"
    "cn_query p \<noteq> CreateToken \<Longrightarrow> no_amount r = 1"
    by (simp_all add: r created_row_fields)
qed

lemma create_row_not_created: "\<not> is_ok (fst (create_row db p s)) \<Longrightarrow> live_rows (snd (create_row db p s)) = live_rows s"
  by (cases s) (auto simp: create_row_def act_then_apply outside_apply statement_apply Let_def live_rows_def is_ok_def
      split: outcome.splits prod.splits if_splits)

lemma update_notification_changed:
  "fst (update_notification db u s) = Ok () \<Longrightarrow> live_rows (snd (update_notification db u s)) = map (updated_row u) (live_rows s)"
  "fst (update_notification db u s) \<noteq> Ok () \<Longrightarrow> live_rows (snd (update_notification db u s)) = live_rows s"
proof -
  obtain rows b where s: "s = (rows, b)" by (cases s)
  show "fst (update_notification db u s) = Ok () \<Longrightarrow> live_rows (snd (update_notification db u s)) = map (updated_row u) (live_rows s)"
    using live_update_row [of _ u rows]
    by (auto simp: s update_notification_def statement_apply live_rows_def simp del: map_map split: outcome.splits prod.splits)
  show "fst (update_notification db u s) \<noteq> Ok () \<Longrightarrow> live_rows (snd (update_notification db u s)) = live_rows s"
    by (auto simp: s update_notification_def statement_apply live_rows_def split: outcome.splits prod.splits)
qed

interpretation table: notification_table "on_tables db w" live_rows for db w
proof
  fix p s r s1 u owner a t rs q
  show "live_rows s1 = r # live_rows s \<and> no_owner_id r = cn_owner_id p \<and> no_action r = cn_action p \<and> no_data r = cn_data p \<and>
      no_id r \<notin> no_id ` set (live_rows s) \<and> (cn_query p \<noteq> CreateToken \<longrightarrow> no_amount r = 1)"
    if "nw_create (on_tables db w) p s = (Ok r, s1)"
    using create_row_created [of db p s r s1] that by (simp add: on_tables_def)
  show "live_rows (snd (nw_create (on_tables db w) p s)) = live_rows s" if "\<not> is_ok (fst (nw_create (on_tables db w) p s))"
    using create_row_not_created that by (simp add: on_tables_def)
  show "live_rows (snd (nw_update (on_tables db w) u s)) = map (updated_row u) (live_rows s)"
    if "fst (nw_update (on_tables db w) u s) = Ok ()"
    using update_notification_changed(1) that by (simp add: on_tables_def)
  show "live_rows (snd (nw_update (on_tables db w) u s)) = live_rows s"
    if "fst (nw_update (on_tables db w) u s) \<noteq> Ok ()"
    using update_notification_changed(2) that by (simp add: on_tables_def)
  show "set rs = set (filter (\<lambda>r. no_owner_id r = owner \<and> no_action r = a \<and> t < no_created_at r) (live_rows s))"
    if "fst (nw_after (on_tables db w) owner a t s) = Ok rs"
    using select_rows_Ok [of db _ s rs] that by (auto simp: on_tables_def get_notifications_after_def live_rows_def dest!: select_rows_Ok)
  show "r \<in> set (live_rows s) \<and> no_owner_id r = rp_owner_id q \<and> no_action r = rp_action q"
    if "fst (nw_most_recent (on_tables db w) q s) = Ok r"
    using that by (auto simp: on_tables_def get_most_recent_notification_def live_rows_def matches_recent_def
        dest!: select_rows_Ok one_row_Ok)
  show "r \<in> set (live_rows s) \<and> no_owner_id r = rp_owner_id q \<and> no_action r = rp_action q"
    if "fst (nw_most_recent_token (on_tables db w) q s) = Ok r"
    using that by (auto simp: on_tables_def get_most_recent_token_notification_def live_rows_def matches_recent_def
        dest!: select_rows_Ok one_row_Ok)
  show "live_rows (snd (nw_lock (on_tables db w) k d s)) = live_rows s" "live_rows (nw_unlock (on_tables db w) k s) = live_rows s" for k d
    by (cases s; simp add: on_tables_def live_rows_def split: prod.split)+
qed (simp_all add: on_tables_def get_notifications_after_def get_notification_by_id_def get_most_recent_notification_def
    get_most_recent_token_notification_def count_user_unseen_notifications_def)

end
