(* ===== verification/NotificationApi.thy ===== *)
theory NotificationApi
  imports NotificationTable PaginationProps Validate "HOL-Library.List_Lexorder" "HOL-Library.Char_ord"
begin

text \<open>
  \<^verbatim>\<open>publicapi/notifications.go\<close>: the viewer's notifications a page at a time, with the number of
  unseen ones, on the tables of the database. The properties of notifications follow.
\<close>

section \<open>Who asks\<close>

text \<open>The values of the gin context, None where the key was never set.\<close>

record auth_ctx =
  ax_error :: "gerror option option"
  ax_user :: "string option"

definition must_get :: "string \<Rightarrow> 'a option \<Rightarrow> 'a outcome" where
  "must_get key v = (case v of None \<Rightarrow> Panic (PanicText (''Key '' @ quoted key @ '' does not exist'')) | Some x \<Rightarrow> Ok x)"

definition get_authenticated_user_id :: "auth_ctx \<Rightarrow> string outcome" where
  "get_authenticated_user_id c = bind_out (must_get ''auth.auth_error'' (ax_error c)) (\<lambda>e. case e of
     Some err \<Rightarrow> Err err
   | None \<Rightarrow> must_get ''auth.user_id'' (ax_user c))"

section \<open>Pages\<close>

text \<open>The instants of the database, in nanoseconds since 1970, as times in UTC.\<close>

definition epoch_seconds :: int where "epoch_seconds = 62135596800"

definition go_time_at :: "int \<Rightarrow> go_time" where
  "go_time_at t = \<lparr>t_sec = word_of_int (t div 10 ^ 9 + epoch_seconds), t_nsec = word_of_int (t mod 10 ^ 9), t_zone = UTC\<rparr>"

definition instant_of :: "go_time \<Rightarrow> int" where
  "instant_of g = (sint (t_sec g) - epoch_seconds) * 10 ^ 9 + sint (t_nsec g)"

text \<open>The order of \<^verbatim>\<open>(created_at, id)\<close>.\<close>

definition key_less :: "'b notif_db \<Rightarrow> int \<times> string \<Rightarrow> int \<times> string \<Rightarrow> bool" where
  "key_less db x y \<longleftrightarrow> fst x < fst y \<or> fst x = fst y \<and> db_id_less db (snd x) (snd y)"

definition row_key :: "notification_row \<Rightarrow> int \<times> string" where
  "row_key r = (no_created_at r, no_id r)"

definition live_row_of :: "string \<Rightarrow> notification_row \<Rightarrow> bool" where
  "live_row_of owner r \<longleftrightarrow> no_owner_id r = owner \<and> \<not> nx_deleted r"

definition page_order :: "'b notif_db \<Rightarrow> bool \<Rightarrow> notification_row \<Rightarrow> notification_row \<Rightarrow> bool" where
  "page_order db forward r q = (if forward then key_less db (row_key r) (row_key q) else key_less db (row_key q) (row_key r))"

definition user_notifications_page :: "'b notif_db \<Rightarrow> (notification_row \<Rightarrow> bool) \<Rightarrow> time_id_paging_params
    \<Rightarrow> notification_row list \<Rightarrow> notification list outcome" where
  "user_notifications_page db chosen p rows =
     (if sint (tip_limit p) < 0 then Err (ErrText ''LIMIT must not be negative'')
      else Ok (map scanned (take (nat (sint (tip_limit p))) (sort_wrt (page_order db (tip_forward p))
        (filter (\<lambda>r. chosen r
             \<and> key_less db (row_key r) (instant_of (tip_before_time p), tip_before_id p)
             \<and> key_less db (instant_of (tip_after_time p), tip_after_id p) (row_key r)) rows)))))"

definition get_user_notifications :: "'b notif_db \<Rightarrow> string \<Rightarrow> time_id_paging_params \<Rightarrow> ('b notif_tables, notification list) act" where
  "get_user_notifications db owner p = select_rows db (user_notifications_page db (live_row_of owner) p)"

definition get_user_unseen_notifications :: "'b notif_db \<Rightarrow> string \<Rightarrow> time_id_paging_params \<Rightarrow> ('b notif_tables, notification list) act" where
  "get_user_unseen_notifications db owner p =
     select_rows db (user_notifications_page db (\<lambda>r. live_row_of owner r \<and> \<not> nx_seen r) p)"

text \<open>The state after a read: only the connection was used.\<close>

definition after_read :: "'b notif_db \<Rightarrow> 'b notif_tables \<Rightarrow> 'b notif_tables" where
  "after_read db s = snd (outside (db_connect db) s)"

text \<open>
  \<open>check_user\<close>, \<open>check_count\<close> and \<open>check_struct\<close> are the validator, as in \<^verbatim>\<open>validate\<close>. The world after
  an error is that of a page whose queries were both made.
\<close>

definition get_viewer_notifications :: "'b notif_db \<Rightarrow> (string \<Rightarrow> string \<Rightarrow> string option)
    \<Rightarrow> (int option \<Rightarrow> string \<Rightarrow> string option) \<Rightarrow> (report list \<Rightarrow> gerror option) \<Rightarrow> auth_ctx
    \<Rightarrow> string option \<Rightarrow> string option \<Rightarrow> int option \<Rightarrow> int option
    \<Rightarrow> ('b notif_tables, notification list \<times> page_info \<times> int) act" where
  "get_viewer_notifications db check_user check_count check_struct ctx before after first lst =
     act_then (give (get_authenticated_user_id ctx)) (\<lambda>user.
       act_then (give (validate_fields check_user [(''userID'', user, ''required'')])) (\<lambda>_.
         act_then (give (validate_pagination_params check_count check_struct first lst)) (\<lambda>_.
           act_then (\<lambda>s. (time_id_paginate (\<lambda>p. fst (get_user_notifications db user p s))
                 (\<lambda>n. Ok (go_time_at (no_created_at n), no_id n))
                 (Some (fst (count_user_notifications db user (after_read db s))))
                 before after first lst [], after_read db (after_read db s)))
             (\<lambda>(notifs, info). act_then (count_user_unseen_notifications db user) (\<lambda>unseen.
               give (Ok (notifs, info, unseen)))))))"

definition get_notification_by_id_api :: "'b notif_db \<Rightarrow> string \<Rightarrow> ('b notif_tables, notification) act" where
  "get_notification_by_id_api db i = get_notification_by_id db i"

definition clear_user_notifications :: "'b notif_db \<Rightarrow> auth_ctx \<Rightarrow> ('b notif_tables, notification list) act" where
  "clear_user_notifications db ctx = act_then (give (get_authenticated_user_id ctx)) (clear_notifications_for_user db)"

section \<open>The pages of the table\<close>

definition viewer_rows :: "'b notif_db \<Rightarrow> string \<Rightarrow> notification_row list \<Rightarrow> notification list" where
  "viewer_rows db owner rows = map scanned (sort_wrt (page_order db True) (filter (live_row_of owner) rows))"

definition viewer_table :: "'b notif_db \<Rightarrow> string \<Rightarrow> notification_row list \<Rightarrow> (notification, time_id_cursor) key_table" where
  "viewer_table db owner rows = \<lparr>tb_less = \<lambda>x y. key_less db (instant_of (ti_time x), ti_id x) (instant_of (ti_time y), ti_id y),
     tb_key = \<lambda>n. \<lparr>ti_time = go_time_at (no_created_at n), ti_id = no_id n\<rparr>, tb_rows = viewer_rows db owner rows\<rparr>"

text \<open>The collation orders the ids, the ids are a key, and the rows lie between the default cursors.\<close>

definition pageable :: "'b notif_db \<Rightarrow> string \<Rightarrow> notification_row list \<Rightarrow> bool" where
  "pageable db owner rows \<longleftrightarrow> strict_on (db_id_less db) UNIV \<and> distinct (map no_id rows) \<and>
     (\<forall>r \<in> set rows. live_row_of owner r \<longrightarrow> no_id r \<noteq> [] \<and> length (no_id r) \<le> 2 ^ 48 \<and>
        instant_of default_cursor_after_time < no_created_at r \<and> no_created_at r < instant_of default_cursor_before_time)"

lemma default_instants:
  "instant_of default_cursor_after_time = 3661000000001" "instant_of default_cursor_before_time = 32503683661000000001"
  by (simp_all add: instant_of_def default_cursor_after_time_def default_cursor_before_time_def epoch_seconds_def)

lemma instant_go_time:
  assumes "instant_of default_cursor_after_time < t" and "t < instant_of default_cursor_before_time"
  shows "instant_of (go_time_at t) = t" "time_ok (go_time_at t)"
proof -
  have bounds: "0 \<le> t div 10 ^ 9" "t div 10 ^ 9 < 10 ^ 11"
    using assms by (simp_all add: default_instants)
  then have sec: "sint (word_of_int (t div 10 ^ 9 + epoch_seconds) :: i64) = t div 10 ^ 9 + epoch_seconds"
    by (simp only: sint_sbintrunc') (simp add: signed_take_bit_int_eq_self epoch_seconds_def)
  have nsec: "0 \<le> t mod 10 ^ 9" "t mod 10 ^ 9 < 10 ^ 9" by simp_all
  then have nsec': "sint (word_of_int (t mod 10 ^ 9) :: i32) = t mod 10 ^ 9"
    by (simp only: sint_sbintrunc') (simp add: signed_take_bit_int_eq_self)
  show "instant_of (go_time_at t) = t"
    by (simp only: instant_of_def go_time_at_def go_time.simps sec nsec') simp
  have "uint (word_of_int (t mod 10 ^ 9) :: i32) = t mod 10 ^ 9"
    using nsec by (simp only: uint_word_of_int) (simp add: take_bit_int_eq_self)
  then have "unat (word_of_int (t mod 10 ^ 9) :: i32) < 10 ^ 9"
    using nsec(2) by (simp only: unat_eq_nat_uint) simp
  then show "time_ok (go_time_at t)" by (simp add: time_ok_def go_time_at_def)
qed

lemma key_less_strict:
  assumes "strict_on (db_id_less db) UNIV"
  shows "\<not> key_less db x x" "key_less db x y \<Longrightarrow> key_less db y z \<Longrightarrow> key_less db x z"
    "x \<noteq> y \<Longrightarrow> key_less db x y \<or> key_less db y x"
proof -
  note order = strict_onD [OF assms, simplified]
  show "\<not> key_less db x x" by (simp add: key_less_def order(1))
  show "key_less db x y \<Longrightarrow> key_less db y z \<Longrightarrow> key_less db x z" by (auto simp: key_less_def intro: order(2))
  show "x \<noteq> y \<Longrightarrow> key_less db x y \<or> key_less db y x"
    using order(3) by (cases x; cases y) (auto simp: key_less_def)
qed

lemma page_order_strict:
  assumes "strict_on (db_id_less db) UNIV" and "distinct (map no_id xs)"
  shows "strict_on (page_order db True) (set xs)"
proof -
  have "row_key r \<noteq> row_key q" if "r \<in> set xs" "q \<in> set xs" "r \<noteq> q" for r q
    using that assms(2) by (auto simp: row_key_def distinct_map inj_on_def)
  with key_less_strict [OF assms(1)] show ?thesis
    unfolding strict_on_def page_order_def if_True by blast
qed

lemma user_page_window:
  assumes ok: "pageable db owner rows" and "0 \<le> sint (tip_limit p)"
  shows "user_notifications_page db (live_row_of owner) p rows = Ok (key_window (viewer_table db owner rows)
      \<lparr>ti_time = tip_after_time p, ti_id = tip_after_id p\<rparr> \<lparr>ti_time = tip_before_time p, ti_id = tip_before_id p\<rparr>
      (tip_limit p) (tip_forward p))"
proof -
  let ?live = "filter (live_row_of owner) rows" and ?lt = "page_order db True"
  define in_page where "in_page r \<longleftrightarrow> key_less db (row_key r) (instant_of (tip_before_time p), tip_before_id p) \<and>
    key_less db (instant_of (tip_after_time p), tip_after_id p) (row_key r)" for r
  have ids: "distinct (map no_id ?live)" using ok by (simp add: pageable_def distinct_map_filter)
  have strict: "strict_on ?lt (set ?live)" by (rule page_order_strict [OF _ ids]) (use ok in \<open>simp add: pageable_def\<close>)
  have dist: "distinct ?live" using ids by (simp add: distinct_map)
  have at: "instant_of (go_time_at (no_created_at r)) = no_created_at r" if "r \<in> set ?live" for r
    using ok that by (auto simp: pageable_def intro: instant_go_time)
  have window: "filter (\<lambda>n. tb_less (viewer_table db owner rows) \<lparr>ti_time = tip_after_time p, ti_id = tip_after_id p\<rparr> (tb_key (viewer_table db owner rows) n)
        \<and> tb_less (viewer_table db owner rows) (tb_key (viewer_table db owner rows) n) \<lparr>ti_time = tip_before_time p, ti_id = tip_before_id p\<rparr>)
      (viewer_rows db owner rows) = map scanned (filter in_page (sort_wrt ?lt ?live))"
    unfolding viewer_rows_def filter_map
    by (intro arg_cong [where f = "map scanned"] filter_cong) (auto simp: viewer_table_def in_page_def row_key_def at)
  have sorted: "sort_wrt (page_order db (tip_forward p)) (filter in_page ?live)
      = (if tip_forward p then filter in_page (sort_wrt ?lt ?live) else rev (filter in_page (sort_wrt ?lt ?live)))"
  proof (cases "tip_forward p")
    case False
    have "page_order db False = (\<lambda>x y. ?lt y x)" by (simp add: page_order_def fun_eq_iff)
    moreover have "strict_on ?lt (set (filter in_page ?live))" using strict by (rule strict_on_subset) auto
    ultimately show ?thesis
      using False dist by (simp only: sort_wrt_flip sort_wrt_filter [OF strict dist] distinct_filter if_False)
  qed (simp only: sort_wrt_filter [OF strict dist] if_True)
  have chosen: "filter (\<lambda>r. live_row_of owner r \<and> in_page r) rows = filter in_page ?live" by simp
  have rows: "tb_rows (viewer_table db owner rows) = viewer_rows db owner rows" by (simp add: viewer_table_def)
  have "user_notifications_page db (live_row_of owner) p rows = Ok (map scanned (take (nat (sint (tip_limit p)))
      (if tip_forward p then filter in_page (sort_wrt ?lt ?live) else rev (filter in_page (sort_wrt ?lt ?live)))))"
    using assms(2) by (simp only: user_notifications_page_def in_page_def [symmetric] chosen sorted not_less [symmetric] if_False)
  then show ?thesis
    by (simp only: key_window_def rows window Let_def) (simp add: take_map rev_map)
qed

lemma keyset_paginate_cong:
  assumes "query_limit first lst = Ok limit" and "q1 limit (first \<noteq> None) = q2 limit (first \<noteq> None)"
  shows "keyset_paginate q1 pn cf before after first lst = keyset_paginate q2 pn cf before after first lst"
  using assms by (simp add: keyset_paginate_def Let_def)

lemma time_id_paginate_cong:
  assumes "query_limit first lst = Ok limit" and "\<And>p. tip_limit p = limit \<Longrightarrow> q1 p = q2 p"
  shows "time_id_paginate q1 c cf before after first lst opts = time_id_paginate q2 c cf before after first lst opts"
  unfolding time_id_paginate_def Let_def
  by (rule keyset_paginate_cong [OF assms(1)]) (auto simp: time_id_query_def assms(2) intro!: arg_cong2 [where f = bind_out] ext)

lemma viewer_table_ok:
  assumes ok: "pageable db owner rows"
  shows "table_ok time_id_valid
     \<lparr>ti_time = default_cursor_after_time, ti_id = default_cursor_after_id\<rparr>
     \<lparr>ti_time = default_cursor_before_time, ti_id = default_cursor_before_id\<rparr> (viewer_table db owner rows)"
proof -
  let ?live = "filter (live_row_of owner) rows"
  have strict: "strict_on (db_id_less db) UNIV" and ids: "distinct (map no_id ?live)"
    using ok by (simp_all add: pageable_def distinct_map_filter)
  have at: "instant_of (go_time_at (no_created_at r)) = no_created_at r" "time_ok (go_time_at (no_created_at r))"
    "no_id r \<noteq> []" "length (no_id r) \<le> 2 ^ 48"
    "instant_of default_cursor_after_time < no_created_at r" "no_created_at r < instant_of default_cursor_before_time"
    if "r \<in> set ?live" for r
    using ok that instant_go_time [of "no_created_at r"] by (auto simp: pageable_def)
  have "sorted_wrt (page_order db True) (sort_wrt (page_order db True) ?live)"
    using page_order_strict [OF strict ids] ids by (simp add: sort_wrt_sorted distinct_map)
  then have "sorted_wrt (\<lambda>r q. key_less db (instant_of (go_time_at (no_created_at r)), no_id r)
        (instant_of (go_time_at (no_created_at q)), no_id q)) (sort_wrt (page_order db True) ?live)"
    by (rule sorted_wrt_mono_rel [rotated]) (simp add: page_order_def row_key_def at)
  then show ?thesis
    unfolding table_ok_def viewer_table_def key_table.simps viewer_rows_def sorted_wrt_map
    using key_less_strict [OF strict] at
    by (auto simp: time_id_valid_def key_less_def [of _ "(_, default_cursor_after_id)"] key_less_def [of _ _ "(_, default_cursor_before_id)"])
qed

lemma get_viewer_notifications_page:
  assumes ok: "pageable db user rows" and f: "page_limit_ok f"
    and ctx: "ax_error ctx = Some None" "ax_user ctx = Some user" "check_user user ''required'' = None"
    and valid: "validate_pagination_params check_count check_struct (Some f) None = Ok ()"
    and conn: "answers db"
  shows "map_ok (\<lambda>(ns, info, k). (ns, info)) (fst (get_viewer_notifications db check_user check_count check_struct ctx None c (Some f) None (rows, b)))
    = time_id_page (viewer_table db user rows) (int (length (filter (live_row_of user) rows))) None c (Some f) None"
proof -
  note reads = select_rows_answers [OF conn]
  have count: "fst (count_user_notifications db user (after_read db (rows, b))) = Ok (int (length (filter (live_row_of user) rows)))"
    by (simp add: count_user_notifications_def reads live_row_of_def [abs_def] after_read_def outside_apply)
  have unseen: "fst (count_user_unseen_notifications db user s)
      = Ok (int (length (filter (\<lambda>r. unseen_of user r \<and> \<not> nx_deleted r) (fst s))))" for s
    by (simp add: count_user_unseen_notifications_def reads)
  have page: "time_id_paginate (\<lambda>p. fst (get_user_notifications db user p (rows, b))) (\<lambda>n. Ok (go_time_at (no_created_at n), no_id n))
        (Some (Ok (int (length (filter (live_row_of user) rows))))) None c (Some f) None []
      = time_id_page (viewer_table db user rows) (int (length (filter (live_row_of user) rows))) None c (Some f) None"
    unfolding time_id_page_def
  proof (subst time_id_paginate_cong [of _ _ "word_of_int (1 + f)"])
    show "query_limit (Some f) None = Ok (word_of_int (1 + f))" by (simp add: query_limit_def)
    show "fst (get_user_notifications db user p (rows, b)) = Ok (key_window (viewer_table db user rows)
        \<lparr>ti_time = tip_after_time p, ti_id = tip_after_id p\<rparr> \<lparr>ti_time = tip_before_time p, ti_id = tip_before_id p\<rparr>
        (tip_limit p) (tip_forward p))" if "tip_limit p = word_of_int (1 + f)" for p
      unfolding get_user_notifications_def reads fst_conv
      by (rule user_page_window [OF ok]) (use f in \<open>simp only: that sint_page_limit, simp add: page_limit_ok_def\<close>)
  qed (simp add: viewer_table_def)
  have who: "get_authenticated_user_id ctx = Ok user" by (simp add: get_authenticated_user_id_def must_get_def ctx)
  have fields: "validate_fields check_user [(''userID'', user, ''required'')] = Ok ()"
    by (simp add: validate_fields_def ctx(3))
  show ?thesis
    unfolding get_viewer_notifications_def who fields valid act_then_give
    using unseen [of "after_read db (after_read db (rows, b))"] by (cases "time_id_page (viewer_table db user rows) (int (length (filter (live_row_of user) rows))) None c (Some f) None")
      (auto simp: act_then_apply count page map_ok_def split: outcome.split)
qed

section \<open>A small world for the witnesses\<close>

text \<open>The outside is a counter that the server's clock and the new ids read; every answer is an empty one.\<close>

definition sample_db :: "int notif_db" where
  "sample_db = \<lparr>db_connect = \<lambda>b. (Ok (), b + 1), db_refers = \<lambda>p b. (Ok (), b), db_now = \<lambda>b. 4 * 10 ^ 12 + b,
     db_users = \<lambda>b. [''ann'', ''bob''], db_id_less = (<), db_json_text = \<lambda>v. ''''\<rparr>"

definition sample_world :: "int notif_world" where
  "sample_world = \<lparr>nw_new_id = \<lambda>b. (Ok (''n'' @ itoa b), b + 1), nw_now = \<lambda>b. 4 * 10 ^ 12,
     nw_clock = \<lparr>wc_own_day = \<lambda>t. t div (24 * hour), wc_pst_day = \<lambda>t. t div (24 * hour), wc_pst_midnight = \<lambda>d. d * (24 * hour)\<rparr>,
     nw_create = \<lambda>p b. (Err ErrNoRows, b), nw_create_announcements = \<lambda>p b. (Err ErrNoRows, b), nw_update = \<lambda>u b. (Ok (), b),
     nw_most_recent = \<lambda>q b. (Err ErrNoRows, b), nw_most_recent_token = \<lambda>q b. (Err ErrNoRows, b),
     nw_after = \<lambda>u a t b. (Ok [], b), nw_by_id = \<lambda>i b. (Err ErrNoRows, b), nw_count_users = \<lambda>b. (Ok 2, b),
     nw_count_unseen = \<lambda>u b. (Ok 0, b),
     nw_user = \<lambda>i b. (Ok \<lparr>nu_id = i, nu_username = \<lparr>ns_string = i, ns_valid = True\<rparr>, nu_created_at = 0\<rparr>, b),
     nw_comment = \<lambda>i b. (Err ErrNoRows, b), nw_post = \<lambda>i b. (Err ErrNoRows, b), nw_feed_event_collection = \<lambda>i b. (Err ErrNoRows, b),
     nw_collection = \<lambda>i b. (Err ErrNoRows, b), nw_community = \<lambda>i b. (Err ErrNoRows, b),
     nw_token_definition = \<lambda>i b. (Inl ErrNoRows, b), nw_push_tokens = \<lambda>i b. (Ok [], b), nw_limit = \<lambda>l k b. (Ok True, b),
     nw_push_task = \<lambda>m b. (Ok (), b), nw_publish = \<lambda>t m b. (Ok (), b), nw_json = \<lambda>n. Ok '''', nw_env = \<lambda>k. k,
     nw_unescape = \<lambda>t. t, nw_lock = \<lambda>k d b. (True, b), nw_unlock = \<lambda>k b. b, nw_sleep = \<lambda>d b. b, nw_intn = \<lambda>n. 0, nw_wrap = \<lambda>t e. e\<rparr>"

definition sample_row :: "string \<Rightarrow> int \<Rightarrow> notification_row" where
  "sample_row i t = \<lparr>no_id = i, no_owner_id = ''ann'', no_created_at = t, no_action = action_viewed_gallery,
     no_data = zero_notification_data, no_event_ids = [], no_feed_event_id = '''', no_comment_id = '''', no_gallery_id = '''',
     no_amount = 1, no_post_id = '''', no_token_id = '''', no_mention_id = '''', no_community_id = '''',
     nx_deleted = False, nx_seen = False, nx_last_updated = t\<rparr>"

definition sample_view :: "string \<Rightarrow> notification" where
  "sample_view v = zero_notification\<lparr>no_owner_id := ''ann'', no_action := action_viewed_gallery, no_gallery_id := ''g'',
     no_data := zero_notification_data\<lparr>nd_authed_viewer_ids := [v]\<rparr>\<rparr>"

definition sample_admire :: "string \<Rightarrow> notification" where
  "sample_admire v = zero_notification\<lparr>no_owner_id := ''ann'', no_action := action_admired_post, no_post_id := ''p'',
     no_data := zero_notification_data\<lparr>nd_admirer_ids := [v]\<rparr>\<rparr>"

lemma sample_answers: "answers sample_db"
  by (simp add: answers_def sample_db_def)

lemma sample_pageable: "pageable sample_db ''ann'' [sample_row ''b'' (5 * 10 ^ 12), sample_row ''a'' (5 * 10 ^ 12)]"
  by (auto simp: pageable_def strict_on_def sample_db_def sample_row_def live_row_of_def default_instants)

section \<open>Properties\<close>

text \<open>
  Property C32. \<^verbatim>\<open>GetViewerNotifications\<close> on the SQL of \<^verbatim>\<open>GetUserNotifications\<close>: a user who asks for
  \<open>f\<close> notifications and follows the end cursors gets, in pages of at most \<open>f\<close>, every notification
  of theirs that is not deleted, exactly once, in the order of \<open>(created_at, id)\<close>, although the
  query filters, sorts and limits anew for every page.
\<close>

theorem viewer_notifications_complete:
  assumes "pageable db user rows" and "page_limit_ok f" and "answers db"
    and "ax_error ctx = Some None" and "ax_user ctx = Some user" and "check_user user ''required'' = None"
    and "validate_pagination_params check_count check_struct (Some f) None = Ok ()"
  shows "mset (viewer_rows db user rows) = mset (map scanned (filter (live_row_of user) rows)) \<and>
    (\<exists>pages. follow_next (Suc (length (viewer_rows db user rows)))
       (\<lambda>c. map_ok (\<lambda>(ns, info, k). (ns, info))
          (fst (get_viewer_notifications db check_user check_count check_struct ctx None c (Some f) None (rows, b)))) None = Some pages
     \<and> concat pages = viewer_rows db user rows \<and> (\<forall>p \<in> set pages. length p \<le> nat f))"
  using time_id_pages.visits_all_forward [OF viewer_table_ok [OF assms(1)] assms(2), of "int (length (filter (live_row_of user) rows))"]
  unfolding get_viewer_notifications_page [of db user rows f ctx check_user, OF assms(1,2,4-7,3)]
  by (simp add: viewer_rows_def viewer_table_def [of db user rows])

theorem viewer_notifications_complete_witness:
  "\<exists>pages. follow_next 3 (\<lambda>c. map_ok (\<lambda>(ns, info, k). (ns, info))
      (fst (get_viewer_notifications sample_db (\<lambda>v t. None) (\<lambda>v t. None) (\<lambda>rs. None) \<lparr>ax_error = Some None, ax_user = Some ''ann''\<rparr>
        None c (Some 1) None ([sample_row ''b'' (5 * 10 ^ 12), sample_row ''a'' (5 * 10 ^ 12)], 0)))) None = Some pages
    \<and> map no_id (concat pages) = [''a'', ''b'']"
proof -
  let ?rows = "[sample_row ''b'' (5 * 10 ^ 12), sample_row ''a'' (5 * 10 ^ 12)]"
  have rows: "map no_id (viewer_rows sample_db ''ann'' ?rows) = [''a'', ''b'']" "length (viewer_rows sample_db ''ann'' ?rows) = 2"
    by (simp_all add: viewer_rows_def sample_row_def live_row_of_def sort_wrt_def page_order_def key_less_def row_key_def sample_db_def)
  have "validate_pagination_params (\<lambda>v t. None) (\<lambda>rs. None) (Some 1) None = Ok ()"
    by (simp add: validate_pagination_params_def validate_fields_def connection_pagination_params_validator_def)
  from viewer_notifications_complete [OF sample_pageable _ sample_answers _ _ _ this,
      of "\<lparr>ax_error = Some None, ax_user = Some ''ann''\<rparr>" "\<lambda>v t. None" 0] rows
  show ?thesis by (auto simp: page_limit_ok_def numeral_3_eq_3 simp del: follow_next.simps)
qed

end
