(* ===== verification/EventStore.thy ===== *)
theory EventStore
  imports FeedEvents NotificationApi
begin

text \<open>
  The tables of events and of feed events: \<^verbatim>\<open>service/persist/postgres/event.go\<close>, \<^verbatim>\<open>feed.go\<close> and their
  queries in \<^verbatim>\<open>db/gen/coredb/query.sql.go\<close>. An empty id in a row stands for NULL.
\<close>

section \<open>Rows\<close>

definition resource_user :: int where "resource_user = 0"
definition resource_token :: int where "resource_token = 1"
definition resource_collection :: int where "resource_collection = 2"
definition resource_gallery :: int where "resource_gallery = 3"
definition resource_admire :: int where "resource_admire = 4"
definition resource_comment :: int where "resource_comment = 5"
definition resource_community :: int where "resource_community = 6"
definition resource_post :: int where "resource_post = 7"
definition resource_all_users :: int where "resource_all_users = 8"

lemmas resource_defs = resource_user_def resource_token_def resource_collection_def resource_gallery_def
  resource_admire_def resource_comment_def resource_community_def resource_post_def resource_all_users_def

text \<open>
  The columns of an event, and the fields of its data, that the merging of events does not look
  at. The data is JSON in the table and comes back as it was.
\<close>

record db_event = event +
  de_resource_type :: int
  de_user_id :: string
  de_comment_id :: string
  de_admire_id :: string
  de_feed_event_id :: string
  de_external_id :: null_string
  de_post_id :: string
  de_mention_id :: string
  de_community_id :: string
  de_deleted :: bool
  de_new_token_id :: string
  de_new_token_quantity :: string
  de_badge_threshold :: int
  de_new_top_active_user :: bool
  de_announcement :: "announcement_details option"

definition zero_db_event :: db_event where
  "zero_db_event = event.extend zero_event \<lparr>de_resource_type = 0, de_user_id = '''', de_comment_id = '''', de_admire_id = '''',
     de_feed_event_id = '''', de_external_id = zero_null_string, de_post_id = '''', de_mention_id = '''',
     de_community_id = '''', de_deleted = False, de_new_token_id = '''', de_new_token_quantity = '''',
     de_badge_threshold = 0, de_new_top_active_user = False, de_announcement = None\<rparr>"

definition with_data_of :: "db_event \<Rightarrow> db_event \<Rightarrow> db_event" where
  "with_data_of e r = r\<lparr>ev_data := ev_data e, de_new_token_id := de_new_token_id e, de_new_token_quantity := de_new_token_quantity e,
     de_badge_threshold := de_badge_threshold e, de_new_top_active_user := de_new_top_active_user e, de_announcement := de_announcement e\<rparr>"

section \<open>Inserts\<close>

text \<open>
  The parameters of the queries are given as an event that has only these fields; the columns an
  insert does not name are NULL in the row, and \<open>now\<close> is the server's time. Every insert of the
  queries sets the first six columns of \<open>event_columns\<close> and most set the data, group and caption.
\<close>

definition event_columns :: "go_time \<Rightarrow> db_event \<Rightarrow> db_event" where
  "event_columns now p = zero_db_event\<lparr>ev_id := ev_id p, ev_actor_id := ev_actor_id p, ev_action := ev_action p,
     de_resource_type := de_resource_type p, ev_created_at := now\<rparr>"

definition described_event :: "go_time \<Rightarrow> db_event \<Rightarrow> db_event" where
  "described_event now p = with_data_of p ((event_columns now p)\<lparr>ev_group_id := ev_group_id p, ev_caption := ev_caption p\<rparr>)"

definition create_user_event :: "go_time \<Rightarrow> db_event \<Rightarrow> db_event" where
  "create_user_event now p = (described_event now p)\<lparr>de_user_id := de_user_id p, ev_subject_id := de_user_id p,
     de_post_id := de_post_id p, de_comment_id := de_comment_id p, de_feed_event_id := de_feed_event_id p, de_mention_id := de_mention_id p\<rparr>"

definition create_token_event :: "go_time \<Rightarrow> db_event \<Rightarrow> db_event" where
  "create_token_event now p = (described_event now p)\<lparr>ev_token_id := ev_token_id p, ev_subject_id := ev_token_id p,
     ev_gallery_id := ev_gallery_id p, ev_collection_id := ev_collection_id p\<rparr>"

definition create_collection_event :: "go_time \<Rightarrow> db_event \<Rightarrow> db_event" where
  "create_collection_event now p = (described_event now p)\<lparr>ev_collection_id := ev_collection_id p, ev_subject_id := ev_collection_id p,
     ev_gallery_id := ev_gallery_id p\<rparr>"

definition create_gallery_event :: "go_time \<Rightarrow> db_event \<Rightarrow> db_event" where
  "create_gallery_event now p = (described_event now p)\<lparr>ev_gallery_id := ev_gallery_id p, ev_subject_id := ev_gallery_id p,
     de_external_id := de_external_id p\<rparr>"

definition create_community_event :: "go_time \<Rightarrow> db_event \<Rightarrow> db_event" where
  "create_community_event now p = (described_event now p)\<lparr>de_community_id := de_community_id p, ev_subject_id := de_community_id p,
     de_post_id := de_post_id p, de_comment_id := de_comment_id p, de_feed_event_id := de_feed_event_id p, de_mention_id := de_mention_id p\<rparr>"

definition create_post_event :: "go_time \<Rightarrow> db_event \<Rightarrow> db_event" where
  "create_post_event now p = (event_columns now p)\<lparr>de_user_id := de_user_id p, ev_subject_id := ev_subject_id p, de_post_id := de_post_id p\<rparr>"

definition create_data_only_event :: "go_time \<Rightarrow> db_event \<Rightarrow> db_event" where
  "create_data_only_event now p = (described_event now p)\<lparr>ev_subject_id := ev_subject_id p\<rparr>"

definition create_admire_event :: "go_time \<Rightarrow> db_event \<Rightarrow> db_event" where
  "create_admire_event now p = (described_event now p)\<lparr>de_admire_id := de_admire_id p, de_feed_event_id := de_feed_event_id p,
     de_post_id := de_post_id p, ev_token_id := ev_token_id p, de_comment_id := de_comment_id p, ev_subject_id := ev_subject_id p\<rparr>"

definition create_comment_event :: "go_time \<Rightarrow> db_event \<Rightarrow> db_event" where
  "create_comment_event now p = (described_event now p)\<lparr>de_comment_id := de_comment_id p, de_feed_event_id := de_feed_event_id p,
     de_post_id := de_post_id p, de_mention_id := de_mention_id p, ev_subject_id := ev_subject_id p\<rparr>"

section \<open>The repository\<close>

text \<open>
  \<open>new_id\<close> is \<^verbatim>\<open>persist.GenerateID\<close>; \<open>insert\<close> runs one of the queries above: it gets the row that the
  query makes of the server's time.
\<close>

record 's event_repo =
  er_new_id :: "('s, string) act"
  er_insert :: "(go_time \<Rightarrow> db_event) \<Rightarrow> ('s, db_event) act"

definition event_params :: "string \<Rightarrow> db_event \<Rightarrow> db_event" where
  "event_params i e = with_data_of e (zero_db_event\<lparr>ev_id := i, ev_actor_id := ev_actor_id e, ev_action := ev_action e,
     de_resource_type := de_resource_type e, ev_group_id := ev_group_id e, ev_caption := ev_caption e\<rparr>)"

definition insert_event :: "'s event_repo \<Rightarrow> (go_time \<Rightarrow> db_event \<Rightarrow> db_event) \<Rightarrow> (string \<Rightarrow> db_event) \<Rightarrow> ('s, db_event) act" where
  "insert_event r query params = act_then (er_new_id r) (\<lambda>i. er_insert r (\<lambda>now. query now (params i)))"

definition add_user_event :: "'s event_repo \<Rightarrow> db_event \<Rightarrow> ('s, db_event) act" where
  "add_user_event r e = insert_event r create_user_event (\<lambda>i. (event_params i e)\<lparr>de_post_id := de_post_id e,
     de_comment_id := de_comment_id e, de_feed_event_id := de_feed_event_id e, de_mention_id := de_mention_id e, de_user_id := ev_subject_id e\<rparr>)"

definition add_token_event :: "'s event_repo \<Rightarrow> db_event \<Rightarrow> ('s, db_event) act" where
  "add_token_event r e = insert_event r create_token_event (\<lambda>i. (event_params i e)\<lparr>ev_token_id := ev_subject_id e,
     ev_gallery_id := ns_string (str_ptr_to_null_str (string_to_pointer_if_not_empty (ev_gallery_id e))),
     ev_collection_id := ns_string (str_ptr_to_null_str (string_to_pointer_if_not_empty (ev_collection_id e)))\<rparr>)"

definition add_collection_event :: "'s event_repo \<Rightarrow> db_event \<Rightarrow> ('s, db_event) act" where
  "add_collection_event r e = insert_event r create_collection_event (\<lambda>i. (event_params i e)\<lparr>ev_collection_id := ev_subject_id e,
     ev_gallery_id := ev_gallery_id e\<rparr>)"

definition add_admire_event :: "'s event_repo \<Rightarrow> db_event \<Rightarrow> ('s, db_event) act" where
  "add_admire_event r e = insert_event r create_admire_event (\<lambda>i. (event_params i e)\<lparr>de_admire_id := de_admire_id e,
     de_feed_event_id := de_feed_event_id e, de_post_id := de_post_id e, ev_subject_id := ev_subject_id e,
     ev_token_id := ev_token_id e, de_comment_id := de_comment_id e\<rparr>)"

definition add_comment_event :: "'s event_repo \<Rightarrow> db_event \<Rightarrow> ('s, db_event) act" where
  "add_comment_event r e = insert_event r create_comment_event (\<lambda>i. (event_params i e)\<lparr>de_comment_id := de_comment_id e,
     de_feed_event_id := de_feed_event_id e, de_post_id := de_post_id e, ev_subject_id := ev_subject_id e, de_mention_id := de_mention_id e\<rparr>)"

definition add_gallery_event :: "'s event_repo \<Rightarrow> db_event \<Rightarrow> ('s, db_event) act" where
  "add_gallery_event r e = insert_event r create_gallery_event (\<lambda>i. (event_params i e)\<lparr>ev_gallery_id := ev_gallery_id e,
     de_external_id := de_external_id e\<rparr>)"

definition add_community_event :: "'s event_repo \<Rightarrow> db_event \<Rightarrow> ('s, db_event) act" where
  "add_community_event r e = insert_event r create_community_event (\<lambda>i. (event_params i e)\<lparr>de_post_id := de_post_id e,
     de_comment_id := de_comment_id e, de_feed_event_id := de_feed_event_id e, de_mention_id := de_mention_id e,
     de_community_id := de_community_id e\<rparr>)"

definition add_post_event :: "'s event_repo \<Rightarrow> db_event \<Rightarrow> ('s, db_event) act" where
  "add_post_event r e = insert_event r create_post_event (\<lambda>i. zero_db_event\<lparr>ev_id := i, ev_actor_id := ev_actor_id e,
     ev_action := ev_action e, de_resource_type := de_resource_type e, de_user_id := de_user_id e, ev_subject_id := ev_subject_id e,
     de_post_id := de_post_id e\<rparr>)"

definition add_data_only_event :: "'s event_repo \<Rightarrow> db_event \<Rightarrow> ('s, db_event) act" where
  "add_data_only_event r e = insert_event r create_data_only_event (\<lambda>i. (event_params i e)\<lparr>ev_subject_id := ev_subject_id e\<rparr>)"

definition unknown_resource_type :: "int \<Rightarrow> gerror" where
  "unknown_resource_type t = ErrText (''unknown resource type: '' @ itoa t)"

definition add_event :: "'s event_repo \<Rightarrow> db_event \<Rightarrow> ('s, db_event) act" where
  "add_event r e =
     (let t = de_resource_type e in
      if t = resource_user then add_user_event r e
      else if t = resource_token then add_token_event r e
      else if t = resource_collection then add_collection_event r e
      else if t = resource_admire then add_admire_event r e
      else if t = resource_comment then add_comment_event r e
      else if t = resource_gallery then add_gallery_event r e
      else if t = resource_community then add_community_event r e
      else if t = resource_post then add_post_event r e
      else if t = resource_all_users then add_data_only_event r e
      else give (Err (unknown_resource_type t)))"

section \<open>Queries of the events\<close>

definition null_is :: "null_string \<Rightarrow> null_string \<Rightarrow> bool" where
  "null_is col v \<longleftrightarrow> ns_valid col \<and> ns_valid v \<and> ns_string col = ns_string v"

definition event_at :: "db_event \<Rightarrow> int" where
  "event_at e = instant_of (ev_created_at e)"

text \<open>The order of \<^verbatim>\<open>(created_at, id)\<close>; \<open>lt\<close> is the collation of ids.\<close>

definition event_before :: "(string \<Rightarrow> string \<Rightarrow> bool) \<Rightarrow> db_event \<Rightarrow> db_event \<Rightarrow> bool" where
  "event_before lt e f \<longleftrightarrow> event_at e < event_at f \<or> event_at e = event_at f \<and> lt (ev_id e) (ev_id f)"

definition get_event :: "string \<Rightarrow> db_event list \<Rightarrow> db_event outcome" where
  "get_event i rows = (case filter (\<lambda>e. ev_id e = i \<and> \<not> de_deleted e) rows of [] \<Rightarrow> Err ErrNoRows | e # _ \<Rightarrow> Ok e)"

definition get_events_in_group :: "(string \<Rightarrow> string \<Rightarrow> bool) \<Rightarrow> null_string \<Rightarrow> db_event list \<Rightarrow> db_event list" where
  "get_events_in_group lt g rows =
     sort_wrt (event_before lt) (filter (\<lambda>e. null_is (ev_group_id e) g \<and> \<not> de_deleted e) rows)"

definition get_actor_for_group :: "(string \<Rightarrow> string \<Rightarrow> bool) \<Rightarrow> null_string \<Rightarrow> db_event list \<Rightarrow> null_string outcome" where
  "get_actor_for_group lt g rows =
     (case get_events_in_group lt g rows of [] \<Rightarrow> Err ErrNoRows | e # _ \<Rightarrow> Ok (ev_actor_id e))"

definition has_later_grouped_event :: "(string \<Rightarrow> string \<Rightarrow> bool) \<Rightarrow> null_string \<Rightarrow> string \<Rightarrow> db_event list \<Rightarrow> bool" where
  "has_later_grouped_event lt g i rows \<longleftrightarrow> (\<exists>e \<in> set rows. \<not> de_deleted e \<and> null_is (ev_group_id e) g \<and> lt i (ev_id e))"

definition in_span :: "int \<Rightarrow> int \<Rightarrow> db_event \<Rightarrow> bool" where
  "in_span start stop e \<longleftrightarrow> \<not> de_deleted e \<and> start < event_at e \<and> event_at e \<le> stop"

definition is_actor_action_active :: "null_string \<Rightarrow> string list \<Rightarrow> int \<Rightarrow> int \<Rightarrow> db_event list \<Rightarrow> bool" where
  "is_actor_action_active actor actions start stop rows \<longleftrightarrow>
     (\<exists>e \<in> set rows. in_span start stop e \<and> null_is (ev_actor_id e) actor \<and> ev_action e \<in> set actions)"

definition is_actor_subject_active :: "null_string \<Rightarrow> string \<Rightarrow> int \<Rightarrow> int \<Rightarrow> db_event list \<Rightarrow> bool" where
  "is_actor_subject_active actor subject start stop rows \<longleftrightarrow>
     (\<exists>e \<in> set rows. in_span start stop e \<and> null_is (ev_actor_id e) actor \<and> column_is (ev_subject_id e) subject)"

definition is_actor_gallery_active :: "null_string \<Rightarrow> string \<Rightarrow> int \<Rightarrow> int \<Rightarrow> db_event list \<Rightarrow> bool" where
  "is_actor_gallery_active actor gallery start stop rows \<longleftrightarrow>
     (\<exists>e \<in> set rows. in_span start stop e \<and> null_is (ev_actor_id e) actor \<and> column_is (ev_gallery_id e) gallery)"

definition is_actor_subject_action_active :: "null_string \<Rightarrow> string \<Rightarrow> string list \<Rightarrow> int \<Rightarrow> int \<Rightarrow> db_event list \<Rightarrow> bool" where
  "is_actor_subject_action_active actor subject actions start stop rows \<longleftrightarrow>
     (\<exists>e \<in> set rows. in_span start stop e \<and> null_is (ev_actor_id e) actor \<and> column_is (ev_subject_id e) subject \<and> ev_action e \<in> set actions)"

text \<open>
  The recursive queries: an event follows one that is in the activity. Each round of the recursion
  adds what follows the rows found so far; \<open>gallery\<close> is set by the query for galleries.
\<close>

record window_params =
  wp_id :: string
  wp_span :: int
  wp_actions :: "string list"
  wp_include_subject :: bool
  wp_gallery :: "string option"

definition window_step :: "window_params \<Rightarrow> db_event \<Rightarrow> db_event \<Rightarrow> bool" where
  "window_step p a e \<longleftrightarrow> null_is (ev_actor_id e) (ev_actor_id a) \<and> ev_action e \<in> set (wp_actions p) \<and>
     (case wp_gallery p of None \<Rightarrow> True | Some g \<Rightarrow> column_is (ev_gallery_id e) g) \<and>
     event_at e < event_at a \<and> event_at a - wp_span p \<le> event_at e \<and> \<not> de_deleted e \<and> \<not> ns_valid (ev_caption e) \<and>
     (wp_include_subject p \<longrightarrow> column_is (ev_subject_id e) (ev_subject_id a))"

definition activity_round :: "window_params \<Rightarrow> db_event list \<Rightarrow> db_event list \<Rightarrow> db_event list" where
  "activity_round p rows acc = filter (\<lambda>e. e \<in> set acc \<or> (\<exists>a \<in> set acc. window_step p a e)) rows"

fun activity_rounds :: "nat \<Rightarrow> window_params \<Rightarrow> db_event list \<Rightarrow> db_event list \<Rightarrow> db_event list" where
  "activity_rounds 0 p rows acc = acc"
| "activity_rounds (Suc n) p rows acc = activity_rounds n p rows (activity_round p rows acc)"

definition activity :: "window_params \<Rightarrow> db_event list \<Rightarrow> db_event list" where
  "activity p rows = activity_rounds (length rows) p rows (filter (\<lambda>e. ev_id e = wp_id p \<and> \<not> de_deleted e) rows)"

definition window_of :: "(string \<Rightarrow> string \<Rightarrow> bool) \<Rightarrow> window_params \<Rightarrow> db_event list \<Rightarrow> db_event list" where
  "window_of lt p rows = sort_wrt (event_before lt) (filter (\<lambda>e. ev_id e \<in> ev_id ` set (activity p rows)) rows)"

definition second :: int where "second = 10 ^ 9"

definition events_in_window :: "(string \<Rightarrow> string \<Rightarrow> bool) \<Rightarrow> string \<Rightarrow> int \<Rightarrow> string list \<Rightarrow> bool \<Rightarrow> db_event list \<Rightarrow> db_event list" where
  "events_in_window lt i secs actions include_subject rows = window_of lt
     \<lparr>wp_id = i, wp_span = secs * second, wp_actions = actions, wp_include_subject = include_subject, wp_gallery = None\<rparr> rows"

definition events_in_window_for_gallery :: "(string \<Rightarrow> string \<Rightarrow> bool) \<Rightarrow> string \<Rightarrow> string \<Rightarrow> int \<Rightarrow> string list \<Rightarrow> bool
    \<Rightarrow> db_event list \<Rightarrow> db_event list" where
  "events_in_window_for_gallery lt i gallery secs actions include_subject rows = window_of lt
     \<lparr>wp_id = i, wp_span = secs * second, wp_actions = actions, wp_include_subject = include_subject, wp_gallery = Some gallery\<rparr> rows"

definition update_event_caption_by_group :: "null_string \<Rightarrow> null_string \<Rightarrow> db_event list \<Rightarrow> db_event list" where
  "update_event_caption_by_group caption g rows =
     map (\<lambda>e. if null_is (ev_group_id e) g \<and> \<not> de_deleted e then e\<lparr>ev_caption := caption\<rparr> else e) rows"

section \<open>Queries of the feed\<close>

record feed_row = feed_event +
  fr_deleted :: bool

definition is_feed_event_exists_for_group :: "null_string \<Rightarrow> feed_row list \<Rightarrow> bool" where
  "is_feed_event_exists_for_group g feed \<longleftrightarrow> (\<exists>f \<in> set feed. \<not> fr_deleted f \<and> null_is (fv_group_id f) g)"

definition more_than_one_row :: gerror where
  "more_than_one_row = ErrText ''more than one row returned by a subquery used as an expression''"

text \<open>
  The subquery is an expression: without a row it is NULL, with more than one the statement fails.
  It does not look at \<^verbatim>\<open>deleted\<close>, and it is only evaluated for rows that are updated.
\<close>

definition update_feed_event_caption_by_group :: "null_string \<Rightarrow> db_event list \<Rightarrow> feed_row list \<Rightarrow> (feed_event \<times> feed_row list) outcome" where
  "update_feed_event_caption_by_group g events feed =
     (let captions = map ev_caption (filter (\<lambda>e. null_is (ev_group_id e) g) events);
          hit = (\<lambda>f. null_is (fv_group_id f) g \<and> \<not> fr_deleted f);
          caption = (case captions of [] \<Rightarrow> zero_null_string | c # _ \<Rightarrow> c) in
      if \<not> (\<exists>f \<in> set feed. hit f) then Err ErrNoRows
      else if length captions > 1 then Err more_than_one_row
      else let feed' = map (\<lambda>f. if hit f then f\<lparr>fv_caption := caption\<rparr> else f) feed in
        Ok (feed_event.truncate (hd (filter hit feed')), feed'))"

definition create_feed_row :: "string \<Rightarrow> feed_event \<Rightarrow> feed_row list \<Rightarrow> feed_event \<times> feed_row list" where
  "create_feed_row i f feed = (let f' = f\<lparr>fv_id := i\<rparr> in (f', feed_event.extend f' \<lparr>fr_deleted = False\<rparr> # feed))"

section \<open>The builder of feed events on the tables\<close>

text \<open>
  \<^verbatim>\<open>EventBuilder\<close> with the queries above: \<open>secs\<close> is \<^verbatim>\<open>FEED_WINDOW_SIZE\<close>. The tables are those before
  the call, and \<open>i\<close> is the id of the row that may be added.
\<close>

record feed_tables =
  ft_events :: "db_event list"
  ft_feed :: "feed_row list"

definition feed_env_on :: "(string \<Rightarrow> string \<Rightarrow> bool) \<Rightarrow> int \<Rightarrow> (string \<Rightarrow> bool outcome) \<Rightarrow> (event list \<Rightarrow> string list) \<Rightarrow> string
    \<Rightarrow> feed_tables \<Rightarrow> feed_env" where
  "feed_env_on lt secs blocked order i t =
     (let rows = ft_events t; stop = (\<lambda>e. instant_of (ev_created_at e) + secs * second); plain = map event.truncate in
      \<lparr>fe_get = \<lambda>j. map_ok event.truncate (get_event j rows),
       fe_blocked = blocked,
       fe_has_later = \<lambda>g j. Ok (has_later_grouped_event lt g j rows),
       fe_group = \<lambda>g. Ok (plain (get_events_in_group lt g rows)),
       fe_group_actor = \<lambda>g. get_actor_for_group lt g rows,
       fe_window = \<lambda>j as. Ok (plain (events_in_window lt j secs as False rows)),
       fe_gallery_window = \<lambda>j g as. Ok (plain (events_in_window_for_gallery lt j g secs as False rows)),
       fe_actor_action_active = \<lambda>e as. Ok (is_actor_action_active (ev_actor_id e) as (instant_of (ev_created_at e)) (stop e) rows),
       fe_actor_subject_active = \<lambda>e. Ok (is_actor_subject_active (ev_actor_id e) (ev_subject_id e) (instant_of (ev_created_at e)) (stop e) rows),
       fe_actor_subject_action_active = \<lambda>e as. Ok (is_actor_subject_action_active (ev_actor_id e) (ev_subject_id e) as (instant_of (ev_created_at e)) (stop e) rows),
       fe_actor_gallery_active = \<lambda>e. Ok (is_actor_gallery_active (ev_actor_id e) (ev_gallery_id e) (instant_of (ev_created_at e)) (stop e) rows),
       fe_add = \<lambda>f. Ok (fst (create_feed_row i f (ft_feed t))), fe_new_id = i, fe_order = order\<rparr>)"

end
