(* ===== verification/NotificationSafety.thy ===== *)
theory NotificationSafety
  imports NotificationApi
begin

text \<open>
  What notifications promise on the tables of the database: nobody is counted twice in a group,
  a viewer shows up once a week; and where a view is lost, an announcement is sent again, and
  the rate limits and the start of the week are not what they are meant to be.
\<close>

section \<open>Groups\<close>

definition dispatch_each :: "(string \<Rightarrow> string) \<Rightarrow> 's notif_world \<Rightarrow> (notification list \<Rightarrow> notification list)
    \<Rightarrow> notification list \<Rightarrow> ('s, unit) act" where
  "dispatch_each ul w order ns = each (\<lambda>n. forgotten (dispatch_notif ul w order n)) ns"

lemma keeps_notifications_after: "answers db \<Longrightarrow> is_ok (fst (nw_after (on_tables db w) owner a t s))"
  by (simp add: on_tables_def get_notifications_after_def select_rows_answers is_ok_def)

text \<open>
  Property C7. Views of a week: while the week lasts and the database answers, any sequence of
  dispatched view notifications of a gallery owner, whatever their errors, leaves every viewer in
  at most one row of that owner and once in it, and the ids of the rows a key.
\<close>

theorem viewers_once_a_week:
  assumes "viewers_once t0 owner (live_rows s)" and "answers db"
    and "\<forall>b. beginning_of_week (nw_clock w) (nw_now w b) = t0"
    and "\<forall>n \<in> set ns. no_action n = action_viewed_gallery \<and> no_owner_id n = owner \<and> distinct (authed_of n) \<and> distinct (unauthed_of n)"
  shows "viewers_once t0 owner (live_rows (snd (dispatch_each ul (on_tables db w) order ns s)))"
proof -
  have "beginning_of_week (nw_clock (on_tables db w)) (nw_now (on_tables db w) s) = t0" for s
    using assms(3) by (simp add: on_tables_def)
  then have "keeps (\<lambda>s. viewers_once t0 owner (live_rows s)) (dispatch_each ul (on_tables db w) order ns)"
    unfolding dispatch_each_def
    by (intro keeps_each keeps_forgotten)
      (use assms(4) keeps_notifications_after [OF assms(2)] in \<open>auto simp: keeps_def intro!: table.dispatch_keeps_viewers\<close>)
  with assms(1) show ?thesis unfolding keeps_def by blast
qed

theorem viewers_once_a_week_witness:
  "viewers_once (- (4 * 24 * hour)) ''ann'' (live_rows (snd (dispatch_each id (on_tables sample_db sample_world) id
     [sample_view ''bob'', sample_view ''cat'', sample_view ''bob''] ([], 0))))"
  by (rule viewers_once_a_week)
    (simp_all add: sample_answers live_rows_def viewers_once_def each_once_def week_rows_def sample_view_def zero_notification_data_def
      authed_of_def unauthed_of_def sample_world_def beginning_of_week_def week_start_day_def weekday_def hour_def minute_def)

text \<open>
  Property C31. Groups of admirers and followers: in every row of the action the users are
  distinct and the amount is their number, dispatching a notification of one more user keeps
  that, and when the dispatch returns without an error the user is in a row of the owner.
\<close>

theorem group_users_counted_once:
  assumes "no_action n = a" and "a \<in> set user_groups" and "users_of a (no_data n) = [u]" and "counted a (live_rows s)"
    and "\<forall>b. zero_time + 24 * hour \<le> nw_now w b"
  shows "counted a (live_rows (snd (dispatch_notif ul (on_tables db w) order n s))) \<and>
    (fst (dispatch_notif ul (on_tables db w) order n s) = Ok () \<longrightarrow>
      user_recorded a (no_owner_id n) u (live_rows (snd (dispatch_notif ul (on_tables db w) order n s))))"
  using table.dispatch_counts_users [OF assms(1-4), of db w ul order] assms(5) by (simp add: on_tables_def)

theorem group_users_counted_once_witness:
  "counted action_admired_post (live_rows (snd (dispatch_notif id (on_tables sample_db sample_world) id (sample_admire ''bob'') ([], 0))))"
  by (rule group_users_counted_once [where u = "''bob''", THEN conjunct1])
    (simp_all add: sample_admire_def zero_notification_def user_groups_def admire_actions_def users_of_def notif_action_defs
      live_rows_def counted_def sample_world_def zero_time_def hour_def minute_def)

section \<open>A view that is lost\<close>

lemma on_tables_week:
  "beginning_of_week (nw_clock (on_tables db w)) (nw_now (on_tables db w) s) = beginning_of_week (nw_clock w) (nw_now w (snd s))"
  "nw_after (on_tables db w) = get_notifications_after db" "nw_now (on_tables db w) s = nw_now w (snd s)" "nw_clock (on_tables db w) = nw_clock w"
  by (simp_all add: on_tables_def)

text \<open>
  A view by people who were all seen this week, when the newest row of the week is
  24 hours old, opens a new row that has no viewers but, by the column's default, the amount 1.
\<close>

theorem seen_view_opens_empty_group:
  assumes "no_action n = action_viewed_gallery"
    and "get_notifications_after db (no_owner_id n) action_viewed_gallery (beginning_of_week (nw_clock w) (nw_now w (snd s))) s
      = (Ok (recent # rest), s1)"
    and "\<not> time_since (nw_now w (snd s1)) (no_created_at recent) < view_window"
    and "set (authed_of n) \<subseteq> (\<Union>r \<in> set (recent # rest). set (authed_of r))"
    and "set (unauthed_of n) \<subseteq> (\<Union>r \<in> set (recent # rest). set (unauthed_of r))"
    and "fst (viewed_handle ul (on_tables db w) n s) = Ok ()"
  shows "\<exists>r. live_rows (snd (viewed_handle ul (on_tables db w) n s)) = r # live_rows s \<and>
    authed_of r = [] \<and> unauthed_of r = [] \<and> no_amount r = 1"
  using assms by (intro table.viewed_handle_seen [where ?t0.0 = "beginning_of_week (nw_clock w) (nw_now w (snd s))"])
    (simp_all add: on_tables_week)

lemma sample_view_fields [simp]:
  "no_owner_id (sample_view v) = ''ann''" "no_action (sample_view v) = action_viewed_gallery"
  "authed_of (sample_view v) = [v]" "unauthed_of (sample_view v) = []"
  by (simp_all add: sample_view_def authed_of_def unauthed_of_def zero_notification_data_def)

definition seen_row :: notification_row where
  "seen_row = (sample_row ''n9'' 1)\<lparr>no_data := zero_notification_data\<lparr>nd_authed_viewer_ids := [''bob'']\<rparr>\<rparr>"

definition late_world :: "int notif_world" where
  "late_world = sample_world\<lparr>nw_now := \<lambda>b. 2 + 24 * hour\<rparr>"

lemma sample_after:
  "get_notifications_after sample_db ''ann'' action_viewed_gallery t ([r], b) =
     (Ok (if no_owner_id r = ''ann'' \<and> no_action r = action_viewed_gallery \<and> \<not> nx_deleted r \<and> t < no_created_at r then [scanned r] else []), ([r], b + 1))"
  by (simp add: get_notifications_after_def select_rows_def statement_apply sample_db_def newest_first_def)

lemma late_week: "beginning_of_week (nw_clock late_world) (nw_now late_world b) = - (96 * hour)"
  by (simp add: late_world_def sample_world_def beginning_of_week_def week_start_day_def weekday_def hour_def minute_def)

theorem seen_view_opens_empty_group_witness:
  "\<exists>r. live_rows (snd (viewed_handle id (on_tables sample_db late_world) (sample_view ''bob'') ([seen_row], 0))) = [r, scanned seen_row] \<and>
    authed_of r = [] \<and> unauthed_of r = [] \<and> no_amount r = 1"
proof -
  have "fst (viewed_handle id (on_tables sample_db late_world) (sample_view ''bob'') ([seen_row], 0)) = Ok ()"
    by code_simp
  moreover have "live_rows ([seen_row], 0) = [scanned seen_row]" by (simp add: live_rows_def seen_row_def sample_row_def)
  moreover have "\<not> time_since (nw_now late_world b) (no_created_at (scanned seen_row)) < view_window" for b
    by (simp add: late_world_def seen_row_def sample_row_def time_since_def view_window_def hour_def minute_def)
  moreover have "get_notifications_after sample_db ''ann'' action_viewed_gallery (- (96 * hour)) ([seen_row], 0) = (Ok [scanned seen_row], ([seen_row], 1))"
    by (simp add: sample_after seen_row_def sample_row_def hour_def minute_def)
  ultimately show ?thesis
    using seen_view_opens_empty_group [of "sample_view ''bob''" sample_db late_world "([seen_row], 0)" "scanned seen_row" "[]" "([seen_row], 1)" id]
      late_week sample_view_fields by (auto simp: seen_row_def authed_of_def unauthed_of_def)
qed

text \<open>
  The next new viewer within 24 hours of such a row is lost: with one viewer the
  amount would be 1, which it already is, and \<^verbatim>\<open>UpdateNotification\<close> changes nothing then.
\<close>

theorem view_lost_in_empty_group:
  assumes "no_action n = action_viewed_gallery" and "authed_of n = [v]" and "unauthed_of n = []"
    and "get_notifications_after db (no_owner_id n) action_viewed_gallery (beginning_of_week (nw_clock w) (nw_now w (snd s))) s
      = (Ok (recent # rest), s1)"
    and "time_since (nw_now w (snd s1)) (no_created_at recent) < view_window"
    and "authed_of recent = []" and "unauthed_of recent = []" and "\<forall>r \<in> set rest. v \<notin> set (authed_of r)"
    and "\<forall>r \<in> set (live_rows s). no_id r = no_id recent \<longrightarrow> no_amount r = 1"
  shows "live_rows (snd (viewed_handle ul (on_tables db w) n s)) = live_rows s"
  using assms by (intro table.viewed_handle_lost [where ?t0.0 = "beginning_of_week (nw_clock w) (nw_now w (snd s))" and v = v])
    (simp_all add: on_tables_week)

theorem view_lost_in_empty_group_witness:
  "live_rows (snd (viewed_handle id (on_tables sample_db late_world) (sample_view ''cat'') ([sample_row ''n9'' (24 * hour)], 0)))
     = [scanned (sample_row ''n9'' (24 * hour))]"
proof -
  let ?s = "([sample_row ''n9'' (24 * hour)], 0 :: int)"
  have r: "scanned (sample_row ''n9'' (24 * hour)) = zero_notification\<lparr>no_id := ''n9'', no_owner_id := ''ann'', no_created_at := 24 * hour,
      no_action := action_viewed_gallery, no_amount := 1\<rparr>"
    by (simp add: sample_row_def scanned_def notification.defs zero_notification_def)
  have "live_rows (snd (viewed_handle id (on_tables sample_db late_world) (sample_view ''cat'') ?s)) = live_rows ?s"
  proof (rule view_lost_in_empty_group [of "sample_view ''cat''" "''cat''" sample_db late_world ?s
        "scanned (sample_row ''n9'' (24 * hour))" "[]" "([sample_row ''n9'' (24 * hour)], 1)" id])
    show "get_notifications_after sample_db (no_owner_id (sample_view ''cat'')) action_viewed_gallery
        (beginning_of_week (nw_clock late_world) (nw_now late_world (snd ?s))) ?s
      = (Ok [scanned (sample_row ''n9'' (24 * hour))], ([sample_row ''n9'' (24 * hour)], 1))"
      unfolding late_week by (simp add: sample_after sample_view_def sample_row_def hour_def minute_def)
  qed (simp_all add: r sample_view_def late_world_def zero_notification_def live_rows_def sample_row_def
        time_since_def view_window_def hour_def minute_def authed_of_def unauthed_of_def zero_notification_data_def)
  then show ?thesis by (simp add: live_rows_def sample_row_def)
qed

section \<open>Announcements\<close>

lemma internal_id_is_nested: "json_text render (data_json d) ''internal_id'' = None"
  by (simp add: json_text_def data_json_def texts_field_def text_field_def bool_field_def map_add_def split: option.split)

lemma never_already_announced: "\<not> already_announced render p rows user"
  by (simp add: already_announced_def internal_id_is_nested)

text \<open>
  An announcement is inserted for every user each time: \<^verbatim>\<open>NOT EXISTS\<close> looks for the
  internal id at the top of the data, where it never is, so whenever the query of
  \<^verbatim>\<open>CreateAnnouncementNotifications\<close> succeeds it makes a row for every user the ids suffice for,
  also for users who have one for this announcement.
\<close>

theorem announcement_repeats:
  assumes "create_announcement_rows db p s = (Ok notifs, s1)"
  shows "map no_owner_id notifs = take (length (ap_ids p)) (db_users db (snd s1))"
proof -
  have "map no_owner_id (map scanned (map (announcement_row now p) (zip ids users))) = take (length ids) users" for now ids users
  proof -
    have "map no_owner_id (map scanned (map (announcement_row now p) (zip ids users))) = map snd (zip ids users)"
      by (simp add: announcement_row_def split_def)
    then show ?thesis by (simp only: map_snd_zip_take) (metis min.commute take_all_iff take_take linorder_le_cases min_def)
  qed
  moreover have "length (sort_wrt (db_id_less db) (ap_ids p)) = length (ap_ids p)"
    by (metis size_mset sort_wrt_mset)
  ultimately show ?thesis using assms
    by (cases s) (auto simp: create_announcement_rows_def statement_apply never_already_announced Let_def
        simp del: map_map split: prod.splits outcome.splits if_splits)
qed

definition sample_announcement :: announcement_params where
  "sample_announcement = \<lparr>ap_ids = [''y'', ''x''], ap_action = action_announcement,
     ap_data = zero_notification_data\<lparr>nd_announcement := Some \<lparr>an_platform = ''All'', an_internal_id = ''sale'', an_image_url = '''',
       an_title = '''', an_description = '''', an_cta_text = '''', an_cta_link = '''', an_push_text = ''''\<rparr>\<rparr>,
     ap_event_ids = [], ap_internal = ''sale''\<rparr>"

theorem announcement_repeats_witness:
  "\<exists>notifs s1. create_announcement_rows sample_db sample_announcement
      ([announcement_row 5 sample_announcement (''w'', ''bob'')], 0) = (Ok notifs, s1) \<and> map no_owner_id notifs = [''ann'', ''bob'']"
proof -
  let ?s = "([announcement_row 5 sample_announcement (''w'', ''bob'')], 0 :: int)"
  have "\<exists>notifs s1. create_announcement_rows sample_db sample_announcement ?s = (Ok notifs, s1)"
    by (simp add: create_announcement_rows_def statement_apply sample_db_def never_already_announced sample_announcement_def
        sort_wrt_def announcement_row_def)
  then obtain notifs s1 where made: "create_announcement_rows sample_db sample_announcement ?s = (Ok notifs, s1)" by blast
  from announcement_repeats [OF made] made show ?thesis by (simp add: sample_db_def sample_announcement_def)
qed

section \<open>Rate limits and weeks\<close>

text \<open>
  The rate limit of a push about an admired comment or post does not depend on the
  comment or the post: one admirer has a single allowance for all comments of an owner, and one
  for all posts, where \<^verbatim>\<open>tryAdmireComment\<close> and \<^verbatim>\<open>tryAdmire\<close> are keyed by what was admired.
\<close>

theorem admire_limit_ignores_target:
  assumes "no_action n \<in> {action_admired_comment, action_admired_post}"
  shows "push_allowed w (n\<lparr>no_comment_id := c, no_post_id := p\<rparr>) = push_allowed w n"
proof -
  have others: "action_admired_comment \<noteq> action_admired_feed_event" "action_admired_comment \<noteq> action_admired_post"
    "action_admired_comment \<noteq> action_admired_token"
    by (simp_all add: action_admired_comment_def action_admired_feed_event_def action_admired_post_def action_admired_token_def)
  from assms consider "no_action n = action_admired_comment" | "no_action n = action_admired_post" by auto
  moreover have same: "no_action (n\<lparr>no_comment_id := c, no_post_id := p\<rparr>) = no_action n"
    "no_owner_id (n\<lparr>no_comment_id := c, no_post_id := p\<rparr>) = no_owner_id n" "no_data (n\<lparr>no_comment_id := c, no_post_id := p\<rparr>) = no_data n"
    "no_token_id (n\<lparr>no_comment_id := c, no_post_id := p\<rparr>) = no_token_id n"
    "no_feed_event_id (n\<lparr>no_comment_id := c, no_post_id := p\<rparr>) = no_feed_event_id n" by simp_all
  ultimately show ?thesis
    unfolding push_allowed_def Let_def by cases (simp_all only: same others if_True if_False simp_thms)
qed

theorem admire_limit_ignores_target_witness:
  "push_allowed sample_world ((sample_admire ''bob'')\<lparr>no_comment_id := '''', no_post_id := ''another''\<rparr>) = push_allowed sample_world (sample_admire ''bob'')"
  by (rule admire_limit_ignores_target) (simp add: sample_admire_def)

text \<open>
  The week of views starts on a Sunday exactly when the civil days of the clock's
  own zone and of Pacific time have the same weekday; between midnight UTC and midnight PST a
  server that runs in UTC starts the week on the Saturday before.
\<close>

theorem week_starts_on_sunday_iff:
  "weekday (week_start_day wc t) = 0 \<longleftrightarrow> weekday (wc_own_day wc t) = weekday (wc_pst_day wc t)"
proof -
  have "weekday (week_start_day wc t) = ((wc_pst_day wc t + 4) - (wc_own_day wc t + 4) mod 7) mod 7"
    unfolding weekday_def week_start_day_def by (simp only: diff_add_eq)
  also have "\<dots> = ((wc_pst_day wc t + 4) - (wc_own_day wc t + 4)) mod 7" by (rule mod_diff_right_eq)
  also have "\<dots> = 0 \<longleftrightarrow> weekday (wc_pst_day wc t) = weekday (wc_own_day wc t)"
    unfolding weekday_def mod_eq_dvd_iff by (simp only: dvd_eq_mod_eq_0)
  finally show ?thesis by auto
qed

end
