(* ===== verification/Events.thy ===== *)
theory Events
  imports EventStore NotificationSafety Validate "HOL-Library.AList"
begin

text \<open>
  \<^verbatim>\<open>event/event.go\<close>: an event is validated, stored and handed to the handlers registered for
  its action, which build events of the feed, send tasks, or dispatch notifications.
\<close>

section \<open>Handlers and registrations\<close>

datatype event_handler = FeedHandler | SlackHandler | NotificationHandler | UserPostedNotificationHandler
  | AnnouncementNotificationHandler | UserCreatedNotificationHandler

record event_dispatcher =
  dp_delayed :: "string \<rightharpoonup> event_handler"
  dp_immediate :: "string \<rightharpoonup> event_handler"
  dp_group :: "string \<rightharpoonup> event_handler"

definition new_event_dispatcher :: event_dispatcher where
  "new_event_dispatcher = \<lparr>dp_delayed = Map.empty, dp_immediate = Map.empty, dp_group = Map.empty\<rparr>"

record event_sender =
  es_feed :: event_dispatcher
  es_notifications :: event_dispatcher
  es_delayed :: "string set"
  es_immediate :: "string set"
  es_group :: "string set"

definition new_event_sender :: event_sender where
  "new_event_sender = \<lparr>es_feed = new_event_dispatcher, es_notifications = new_event_dispatcher,
     es_delayed = {}, es_immediate = {}, es_group = {}\<rparr>"

text \<open>The dispatcher is given by reference: the field of the sender that it is.\<close>

datatype which_dispatcher = FeedDispatcher | NotificationDispatcher

fun update_dispatcher :: "which_dispatcher \<Rightarrow> (event_dispatcher \<Rightarrow> event_dispatcher) \<Rightarrow> event_sender \<Rightarrow> event_sender" where
  "update_dispatcher FeedDispatcher f s = s\<lparr>es_feed := f (es_feed s)\<rparr>"
| "update_dispatcher NotificationDispatcher f s = s\<lparr>es_notifications := f (es_notifications s)\<rparr>"

definition add_delayed_handler :: "which_dispatcher \<Rightarrow> string \<Rightarrow> event_handler \<Rightarrow> event_sender \<Rightarrow> event_sender" where
  "add_delayed_handler d a h s =
     (let s1 = update_dispatcher d (\<lambda>p. p\<lparr>dp_delayed := (dp_delayed p)(a \<mapsto> h)\<rparr>) s in s1\<lparr>es_delayed := insert a (es_delayed s1)\<rparr>)"

definition add_immediate_handler :: "which_dispatcher \<Rightarrow> string \<Rightarrow> event_handler \<Rightarrow> event_sender \<Rightarrow> event_sender" where
  "add_immediate_handler d a h s =
     (let s1 = update_dispatcher d (\<lambda>p. p\<lparr>dp_immediate := (dp_immediate p)(a \<mapsto> h)\<rparr>) s in s1\<lparr>es_immediate := insert a (es_immediate s1)\<rparr>)"

definition add_group_handler :: "which_dispatcher \<Rightarrow> string \<Rightarrow> event_handler \<Rightarrow> event_sender \<Rightarrow> event_sender" where
  "add_group_handler d a h s =
     (let s1 = update_dispatcher d (\<lambda>p. p\<lparr>dp_group := (dp_group p)(a \<mapsto> h)\<rparr>) s in s1\<lparr>es_group := insert a (es_group s1)\<rparr>)"

definition action_user_created :: string where "action_user_created = ''UserCreated''"
definition action_user_posted :: string where "action_user_posted = ''UserPosted''"

definition feed_delayed_registrations :: "(string \<times> event_handler) list" where
  "feed_delayed_registrations =
     map (\<lambda>a. (a, FeedHandler)) [action_user_created, action_user_followed_users, action_collectors_note_added_to_token,
       action_collection_created, action_collectors_note_added_to_collection, action_tokens_added_to_collection,
       action_gallery_updated, action_gallery_info_updated]
     @ [(action_user_posted, SlackHandler)]"

definition feed_immediate_registrations :: "(string \<times> event_handler) list" where
  "feed_immediate_registrations =
     map (\<lambda>a. (a, FeedHandler)) [action_collection_created, action_tokens_added_to_collection,
       action_collectors_note_added_to_collection, action_gallery_info_updated, action_collectors_note_added_to_token]"

definition notification_registrations :: "(string \<times> event_handler) list" where
  "notification_registrations =
     map (\<lambda>a. (a, NotificationHandler)) [action_user_followed_users, action_admired_feed_event, action_admired_token,
       action_admired_post, action_admired_comment, action_viewed_gallery, action_commented_on_feed_event,
       action_commented_on_post, action_reply_to_comment, action_mention_user, action_mention_community,
       action_new_tokens_received, action_user_posted_your_work]
     @ [(action_user_posted, UserPostedNotificationHandler), (action_top_activity_badge, NotificationHandler),
        (action_announcement, AnnouncementNotificationHandler), (action_user_created, UserCreatedNotificationHandler)]"

definition register :: "(string \<Rightarrow> event_handler \<Rightarrow> event_sender \<Rightarrow> event_sender) \<Rightarrow> (string \<times> event_handler) list
    \<Rightarrow> event_sender \<Rightarrow> event_sender" where
  "register add rs s = fold (\<lambda>(a, h). add a h) rs s"

definition event_sender_of_add_to :: event_sender where
  "event_sender_of_add_to =
     register (add_delayed_handler NotificationDispatcher) notification_registrations
       (add_group_handler FeedDispatcher action_gallery_updated FeedHandler
         (register (add_immediate_handler FeedDispatcher) feed_immediate_registrations
           (register (add_delayed_handler FeedDispatcher) feed_delayed_registrations new_event_sender)))"

section \<open>What the handlers call\<close>

text \<open>
  The tables of events and of the feed, the dataloaders, farcaster, the queries of users and the
  task queue. A creator is the user and the community; the loads of many keys yield an outcome
  for each. \<open>eo_recipients\<close> is the order in which a map of recipients is gone through,
  \<open>eo_arrival\<close> the order in which parallel calls end, and \<open>eo_feed_first\<close> whether the feed's part
  of a delayed dispatch ends before that of the notifications.
\<close>

record 's event_ops =
  eo_repo :: "'s event_repo"
  eo_feed :: "'s \<Rightarrow> feed_env"
  eo_feed_added :: "feed_event \<Rightarrow> 's \<Rightarrow> 's"
  eo_set_captions :: "null_string \<Rightarrow> null_string \<Rightarrow> ('s, unit) act"
  eo_feed_exists :: "null_string \<Rightarrow> ('s, bool) act"
  eo_set_feed_caption :: "null_string \<Rightarrow> ('s, feed_event) act"
  eo_feed_task :: "string \<Rightarrow> ('s, unit) act"
  eo_feedbot_task :: "string \<Rightarrow> string \<Rightarrow> ('s, unit) act"
  eo_slack_task :: "string \<Rightarrow> ('s, unit) act"
  eo_gallery_owner :: "string \<Rightarrow> ('s, string) act"
  eo_comment_actor :: "string \<Rightarrow> ('s, string) act"
  eo_feed_event_owner :: "string \<Rightarrow> ('s, string) act"
  eo_post :: "string \<Rightarrow> ('s, string \<times> string list) act"
  eo_token_owner :: "string \<Rightarrow> ('s, string) act"
  eo_creators :: "string \<Rightarrow> ('s, (string \<times> string) list) act"
  eo_token_definitions :: "string list \<Rightarrow> ('s, (gerror + string) list) act"
  eo_communities :: "string list \<Rightarrow> ('s, (gerror + string list) list) act"
  eo_all_creators :: "string list \<Rightarrow> ('s, (gerror + (string \<times> string) list) list) act"
  eo_count_posts :: "string \<Rightarrow> ('s, int) act"
  eo_followers :: "string \<Rightarrow> ('s, string list) act"
  eo_farcaster_id :: "string \<Rightarrow> ('s, string) act"
  eo_farcaster_followers :: "string \<Rightarrow> ('s, string list) act"
  eo_users_by_farcaster :: "string list \<Rightarrow> ('s, string list) act"
  eo_recipients :: "notification list \<Rightarrow> notification list"
  eo_arrival :: "db_event list \<Rightarrow> db_event list"
  eo_feed_first :: bool

text \<open>The dispatch of a notification is given as an act.\<close>

type_synonym 's notify = "notification \<Rightarrow> ('s, unit) act"

section \<open>The handler of the feed\<close>

definition handled_by_feed_service :: "string \<Rightarrow> bool" where
  "handled_by_feed_service a \<longleftrightarrow> a = action_user_followed_users"

definition feed_handle_delayed :: "'s event_ops \<Rightarrow> db_event \<Rightarrow> ('s, unit) act" where
  "feed_handle_delayed ops e =
     (if \<not> handled_by_feed_service (ev_action e) then give (Ok ()) else eo_feed_task ops (ev_id e))"

text \<open>What \<^verbatim>\<open>EventBuilder\<close> yields, and the feed's table with the event that it added.\<close>

definition built :: "'s event_ops \<Rightarrow> (feed_env \<Rightarrow> feed_event option outcome) \<Rightarrow> ('s, feed_event option) act" where
  "built ops build s = (let r = build (eo_feed ops s) in
     (r, case r of Ok (Some f) \<Rightarrow> eo_feed_added ops f s | _ \<Rightarrow> s))"

definition feed_handle_immediate :: "'s event_ops \<Rightarrow> db_event \<Rightarrow> ('s, feed_event option) act" where
  "feed_handle_immediate ops e = built ops (\<lambda>env. new_feed_event_from_event env (event.truncate e))"

definition group_text :: "string \<Rightarrow> null_string" where
  "group_text g = str_ptr_to_null_str (Some g)"

definition feed_handle_group :: "'s event_ops \<Rightarrow> string \<Rightarrow> string \<Rightarrow> ('s, feed_event option) act" where
  "feed_handle_group ops g a =
     act_then (eo_feed_exists ops (group_text g)) (\<lambda>exists.
       if exists then act_then (eo_set_feed_caption ops (group_text g)) (\<lambda>f. give (Ok (Some f)))
       else act_then (built ops (\<lambda>env. new_feed_event_from_group env g a)) (\<lambda>f.
         case f of
           None \<Rightarrow> give (Ok None)
         | Some fe \<Rightarrow> act_then (or_else (eo_feedbot_task ops (fv_id fe) (fv_action fe)) ()) (\<lambda>_. give (Ok f))))"

section \<open>The handler of notifications\<close>

definition null_str_to_str :: "null_string \<Rightarrow> string" where
  "null_str_to_str s = (if ns_valid s then ns_string s else '''')"

definition no_owner_found :: "string \<Rightarrow> gerror" where
  "no_owner_found a = ErrText (''no owner found for event: '' @ a)"

definition post_actor :: "'s event_ops \<Rightarrow> string \<Rightarrow> ('s, string) act" where
  "post_actor ops i = act_then (eo_post ops i) (\<lambda>p. give (Ok (fst p)))"

definition first_creator :: "(string \<times> string) list \<Rightarrow> string" where
  "first_creator creators = (case creators of [] \<Rightarrow> '''' | c # _ \<Rightarrow> fst c)"

definition find_owner_for_notification_from_event :: "'s event_ops \<Rightarrow> db_event \<Rightarrow> ('s, string) act" where
  "find_owner_for_notification_from_event ops e =
     (let t = de_resource_type e in
      if t = resource_gallery then eo_gallery_owner ops (ev_gallery_id e)
      else if t = resource_comment then
        (if ev_action e = action_reply_to_comment then eo_comment_actor ops (ev_subject_id e)
         else if de_feed_event_id e \<noteq> '''' then eo_feed_event_owner ops (de_feed_event_id e)
         else if de_post_id e \<noteq> '''' then post_actor ops (de_post_id e)
         else give (Err (no_owner_found (ev_action e))))
      else if t = resource_admire then
        (if ev_action e = action_admired_token then eo_token_owner ops (ev_subject_id e)
         else if de_feed_event_id e \<noteq> '''' then eo_feed_event_owner ops (de_feed_event_id e)
         else if de_post_id e \<noteq> '''' then post_actor ops (de_post_id e)
         else if de_comment_id e \<noteq> '''' then eo_comment_actor ops (de_comment_id e)
         else give (Err (no_owner_found (ev_action e))))
      else if t = resource_user then give (Ok (ev_subject_id e))
      else if t = resource_token then give (Ok (ns_string (ev_actor_id e)))
      else if t = resource_community then
        act_then (or_else (eo_creators ops (de_community_id e)) []) (\<lambda>cs. give (Ok (first_creator cs)))
      else give (Err (no_owner_found (ev_action e))))"

definition create_notification_data_for_event :: "db_event \<Rightarrow> notification_data" where
  "create_notification_data_for_event e =
     (let a = ev_action e; d = zero_notification_data; actor = ns_string (ev_actor_id e); actor_id = null_str_to_dbid (ev_actor_id e) in
      if a = action_viewed_gallery then
        d\<lparr>nd_authed_viewer_ids := (if actor \<noteq> '''' then [actor_id] else []),
          nd_unauthed_viewer_ids := (if ns_string (de_external_id e) \<noteq> '''' then [null_str_to_str (de_external_id e)] else [])\<rparr>
      else if a \<in> set admire_actions then d\<lparr>nd_admirer_ids := (if actor \<noteq> '''' then [actor_id] else [])\<rparr>
      else if a = action_user_followed_users then
        d\<lparr>nd_follower_ids := (if actor \<noteq> '''' then [actor_id] else []),
          nd_followed_back := ed_user_followed_back (ev_data e), nd_refollowed := ed_user_refollowed (ev_data e)\<rparr>
      else if a = action_new_tokens_received then
        d\<lparr>nd_new_token_id := de_new_token_id e, nd_new_token_quantity := de_new_token_quantity e\<rparr>
      else if a = action_reply_to_comment then d\<lparr>nd_original_comment_id := ev_subject_id e\<rparr>
      else if a = action_top_activity_badge then
        d\<lparr>nd_activity_badge_threshold := de_badge_threshold e, nd_new_top_active_user := de_new_top_active_user e\<rparr>
      else d)"

definition notification_of_event :: "string \<Rightarrow> db_event \<Rightarrow> notification" where
  "notification_of_event owner e = zero_notification
     \<lparr>no_owner_id := owner, no_action := ev_action e, no_data := create_notification_data_for_event e, no_event_ids := [ev_id e],
      no_gallery_id := ev_gallery_id e, no_feed_event_id := de_feed_event_id e, no_post_id := de_post_id e,
      no_comment_id := de_comment_id e, no_token_id := ev_token_id e, no_community_id := de_community_id e,
      no_mention_id := de_mention_id e\<rparr>"

definition notification_handle_delayed :: "'s event_ops \<Rightarrow> 's notify \<Rightarrow> db_event \<Rightarrow> ('s, unit) act" where
  "notification_handle_delayed ops notify e =
     act_then (find_owner_for_notification_from_event ops e) (\<lambda>owner.
       if owner = '''' then give (Ok ())
       else if null_str_to_str (ev_actor_id e) = owner \<and> ev_action e \<noteq> action_new_tokens_received \<and> ev_action e \<noteq> action_top_activity_badge
       then give (Ok ())
       else if ev_action e = action_viewed_gallery \<and> ns_string (ev_actor_id e) = '''' then give (Ok ())
       else notify (notification_of_event owner e))"

definition announcement_handle_delayed :: "'s notify \<Rightarrow> db_event \<Rightarrow> ('s, unit) act" where
  "announcement_handle_delayed notify e = notify (zero_notification
     \<lparr>no_action := ev_action e, no_event_ids := [ev_id e], no_data := zero_notification_data\<lparr>nd_announcement := de_announcement e\<rparr>\<rparr>)"

definition slack_handle_delayed :: "'s event_ops \<Rightarrow> db_event \<Rightarrow> ('s, unit) act" where
  "slack_handle_delayed ops e = eo_slack_task ops (de_post_id e)"

section \<open>A user joins\<close>

definition joined_notification :: "db_event \<Rightarrow> string \<Rightarrow> notification" where
  "joined_notification e follower = zero_notification
     \<lparr>no_owner_id := follower, no_action := action_farcaster_joined, no_event_ids := [ev_id e],
      no_data := zero_notification_data\<lparr>nd_farcaster_joined := Some (de_user_id e)\<rparr>\<rparr>"

definition user_created_handle_delayed :: "'s event_ops \<Rightarrow> 's notify \<Rightarrow> db_event \<Rightarrow> ('s, unit) act" where
  "user_created_handle_delayed ops notify e =
     act_then (attempt (eo_farcaster_id ops (de_user_id e))) (\<lambda>r.
       case r of
         Inl err \<Rightarrow> give (if err = ErrNotOnFarcaster then Ok () else Err err)
       | Inr fid \<Rightarrow>
           act_then (eo_farcaster_followers ops fid) (\<lambda>fids.
             act_then (eo_users_by_farcaster ops fids) (\<lambda>users.
               if users = [] then give (Ok ())
               else act_then (eo_followers ops (de_user_id e)) (\<lambda>current.
                 each (\<lambda>u. if u \<in> set current then give (Ok ()) else or_else (notify (joined_notification e u)) ()) users))))"

section \<open>A user posts\<close>

text \<open>A map from users to notifications, its entries in any order.\<close>

type_synonym recipients = "(string \<times> notification) list"

definition loaded :: "(gerror + 'a) list \<Rightarrow> 'a list" where
  "loaded rs = concat (map (\<lambda>r. case r of Inl _ \<Rightarrow> [] | Inr x \<Rightarrow> [x]) rs)"

definition your_work_notification :: "db_event \<Rightarrow> string \<times> string \<Rightarrow> notification" where
  "your_work_notification e = (\<lambda>(creator, community). zero_notification
     \<lparr>no_owner_id := creator, no_action := action_user_posted_your_work, no_post_id := de_post_id e,
      no_event_ids := [ev_id e], no_community_id := community\<rparr>)"

definition recipients_of_your_work :: "'s event_ops \<Rightarrow> db_event \<Rightarrow> ('s, recipients) act" where
  "recipients_of_your_work ops e =
     act_then (eo_post ops (de_post_id e)) (\<lambda>(author, tokens).
       act_then (eo_token_definitions ops tokens) (\<lambda>definitions.
         act_then (eo_communities ops (loaded definitions)) (\<lambda>communities.
           act_then (eo_all_creators ops (concat (loaded communities))) (\<lambda>creators.
             give (Ok (fold (\<lambda>c m. if fst c \<noteq> '''' \<and> fst c \<noteq> author then AList.update (fst c) (your_work_notification e c) m else m)
               (concat (loaded creators)) []))))))"

definition first_post_notification :: "db_event \<Rightarrow> string \<Rightarrow> notification" where
  "first_post_notification e follower = zero_notification
     \<lparr>no_owner_id := follower, no_action := action_user_posted_first_post, no_post_id := de_post_id e, no_event_ids := [ev_id e]\<rparr>"

definition recipients_of_first_post :: "'s event_ops \<Rightarrow> db_event \<Rightarrow> ('s, recipients) act" where
  "recipients_of_first_post ops e =
     (let actor = ns_string (ev_actor_id e) in
      act_then (eo_count_posts ops actor) (\<lambda>posts.
        if posts \<noteq> 1 then give (Ok [])
        else act_then (eo_followers ops actor) (\<lambda>followers.
          act_then (attempt (eo_farcaster_id ops actor)) (\<lambda>r.
            case r of
              Inl err \<Rightarrow> give (if err = ErrNotOnFarcaster then Ok [] else Err err)
            | Inr fid \<Rightarrow>
                act_then (eo_farcaster_followers ops fid) (\<lambda>fids.
                  act_then (eo_users_by_farcaster ops fids) (\<lambda>users.
                    give (Ok (fold (\<lambda>u. AList.update u (first_post_notification e u))
                      (followers @ filter (\<lambda>u. u \<notin> set followers) users) []))))))))"

definition user_posted_handle_delayed :: "'s event_ops \<Rightarrow> 's notify \<Rightarrow> db_event \<Rightarrow> ('s, unit) act" where
  "user_posted_handle_delayed ops notify e =
     act_then (or_else (recipients_of_your_work ops e) []) (\<lambda>your_work.
       act_then (or_else (recipients_of_first_post ops e) []) (\<lambda>first_post.
         each (\<lambda>n. or_else (notify n) ()) (eo_recipients ops (map snd (fold (\<lambda>(u, n). AList.update u n) your_work first_post)))))"

section \<open>Dispatchers\<close>

fun handle_delayed :: "'s event_ops \<Rightarrow> 's notify \<Rightarrow> event_handler \<Rightarrow> db_event \<Rightarrow> ('s, unit) act" where
  "handle_delayed ops notify FeedHandler e = feed_handle_delayed ops e"
| "handle_delayed ops notify SlackHandler e = slack_handle_delayed ops e"
| "handle_delayed ops notify NotificationHandler e = notification_handle_delayed ops notify e"
| "handle_delayed ops notify UserPostedNotificationHandler e = user_posted_handle_delayed ops notify e"
| "handle_delayed ops notify AnnouncementNotificationHandler e = announcement_handle_delayed notify e"
| "handle_delayed ops notify UserCreatedNotificationHandler e = user_created_handle_delayed ops notify e"

definition dispatcher_delayed :: "'s event_ops \<Rightarrow> 's notify \<Rightarrow> event_dispatcher \<Rightarrow> db_event \<Rightarrow> ('s, unit) act" where
  "dispatcher_delayed ops notify d e =
     (case dp_delayed d (ev_action e) of None \<Rightarrow> give (Ok ()) | Some h \<Rightarrow> handle_delayed ops notify h e)"

text \<open>
  Only the feed's handler is an immediate one or one of groups. A result is an interface: None
  is nil, and \<open>Some None\<close> a nil pointer, which is not nil as an interface. The calls run beside each
  other and their results come in the order in which they end; all calls run, and the first error
  that comes is returned.
\<close>

definition is_feed_handler :: "event_handler option \<Rightarrow> bool" where
  "is_feed_handler h \<longleftrightarrow> h = Some FeedHandler"

fun collect_results :: "'s event_ops \<Rightarrow> db_event list \<Rightarrow> feed_event option option outcome \<Rightarrow> ('s, feed_event option option) act" where
  "collect_results ops [] r = give r"
| "collect_results ops (e # es) r = act_then (attempt (feed_handle_immediate ops e)) (\<lambda>x.
     collect_results ops es (case (r, x) of (Ok _, Inr f) \<Rightarrow> Ok (Some f) | (Ok _, Inl err) \<Rightarrow> Err err | _ \<Rightarrow> r))"

definition dispatcher_immediate :: "'s event_ops \<Rightarrow> event_dispatcher \<Rightarrow> db_event list \<Rightarrow> ('s, feed_event option option) act" where
  "dispatcher_immediate ops d events =
     collect_results ops (eo_arrival ops (filter (\<lambda>e. is_feed_handler (dp_immediate d (ev_action e))) events)) (Ok None)"

definition dispatcher_group :: "'s event_ops \<Rightarrow> event_dispatcher \<Rightarrow> string \<Rightarrow> string \<Rightarrow> ('s, feed_event option option) act" where
  "dispatcher_group ops d g a =
     (if is_feed_handler (dp_group d a) then act_then (feed_handle_group ops g a) (\<lambda>f. give (Ok (Some f)))
      else give (Ok None))"

text \<open>\<^verbatim>\<open>feedEvent.(*db.FeedEvent)\<close> panics on a nil interface.\<close>

definition as_feed_event :: "feed_event option option \<Rightarrow> feed_event option outcome" where
  "as_feed_event r = (case r of None \<Rightarrow> Panic TypeAssertion | Some f \<Rightarrow> Ok f)"

section \<open>The sender\<close>

definition in_apostrophes :: "string \<Rightarrow> string" where
  "in_apostrophes s = CHR 0x27 # s @ [CHR 0x27]"

definition validation_error :: "report list \<Rightarrow> gerror" where
  "validation_error rs = ErrText (concat (map (\<lambda>(field, tag, _). ''Key: '' @ in_apostrophes (''Event.'' @ field)
     @ '' Error:Field validation for '' @ in_apostrophes field @ '' failed on the '' @ in_apostrophes tag @ '' tag'') rs))"

definition validate_event :: "db_event \<Rightarrow> unit outcome" where
  "validate_event e = (case event_validator (ev_action e) of [] \<Rightarrow> Ok () | rs \<Rightarrow> Err (validation_error rs))"

text \<open>
  Both acts run, in either order, and the first error of them is returned; a panic of a goroutine
  of the \<^verbatim>\<open>errgroup\<close> ends the program. The first error also cancels the context of the other act,
  whose calls may then fail: each of them is an act of the world, which may fail in any state.
\<close>

definition both_acts :: "('s, unit) act \<Rightarrow> ('s, unit) act \<Rightarrow> ('s, unit) act" where
  "both_acts m n = act_then (attempt m) (\<lambda>r. act_then (attempt n) (\<lambda>r'.
     give (case (r, r') of (Inl err, _) \<Rightarrow> Err err | (_, Inl err) \<Rightarrow> Err err | _ \<Rightarrow> Ok ())))"

definition dispatch_delayed :: "'s event_ops \<Rightarrow> 's notify \<Rightarrow> event_sender \<Rightarrow> db_event \<Rightarrow> ('s, unit) act" where
  "dispatch_delayed ops notify sender e =
     act_then (give (validate_event e)) (\<lambda>_.
       if ev_action e \<notin> es_delayed sender then give (Ok ())
       else act_then (add_event (eo_repo ops) e) (\<lambda>stored.
         let feed = dispatcher_delayed ops notify (es_feed sender) stored;
             notifications = dispatcher_delayed ops notify (es_notifications sender) stored
         in if eo_feed_first ops then both_acts feed notifications else both_acts notifications feed))"

text \<open>The check of the events ends at the first one that is not valid or has no handler.\<close>

fun check_immediate :: "event_sender \<Rightarrow> db_event list \<Rightarrow> bool outcome" where
  "check_immediate sender [] = Ok True"
| "check_immediate sender (e # es) = bind_out (validate_event e) (\<lambda>_.
     if ev_action e \<notin> es_immediate sender then Ok False else check_immediate sender es)"

fun add_events :: "'s event_repo \<Rightarrow> db_event list \<Rightarrow> ('s, db_event list) act" where
  "add_events r [] = give (Ok [])"
| "add_events r (e # es) = act_then (add_event r e) (\<lambda>x. act_then (add_events r es) (\<lambda>xs. give (Ok (x # xs))))"

text \<open>The dispatcher of notifications has no immediate handlers and none of groups; its call is not waited for.\<close>

definition dispatch_immediate :: "'s event_ops \<Rightarrow> event_sender \<Rightarrow> db_event list \<Rightarrow> ('s, feed_event option) act" where
  "dispatch_immediate ops sender events =
     act_then (give (check_immediate sender events)) (\<lambda>handable.
       if \<not> handable then give (Ok None)
       else act_then (add_events (eo_repo ops) events) (\<lambda>stored.
         act_then (detached (act_then (dispatcher_immediate ops (es_notifications sender) stored) (\<lambda>_. give (Ok ())))) (\<lambda>_.
           act_then (dispatcher_immediate ops (es_feed sender) stored) (\<lambda>r. give (as_feed_event r)))))"

definition dispatch_group :: "'s event_ops \<Rightarrow> event_sender \<Rightarrow> string \<Rightarrow> string \<Rightarrow> string option \<Rightarrow> ('s, feed_event option) act" where
  "dispatch_group ops sender g a caption =
     (if a \<notin> es_group sender then give (Ok None)
      else act_then (if caption \<noteq> None then eo_set_captions ops (str_ptr_to_null_str caption) (group_text g) else give (Ok ())) (\<lambda>_.
        act_then (detached (act_then (dispatcher_group ops (es_notifications sender) g a) (\<lambda>_. give (Ok ())))) (\<lambda>_.
          act_then (dispatcher_group ops (es_feed sender) g a) (\<lambda>r. give (as_feed_event r)))))"

text \<open>The error is reported. A call of \<^verbatim>\<open>go PushEvent\<close> is not waited for, but its panic ends the program.\<close>

definition push_event :: "'s event_ops \<Rightarrow> 's notify \<Rightarrow> event_sender \<Rightarrow> db_event \<Rightarrow> ('s, unit) act" where
  "push_event ops notify sender e = or_else (dispatch_delayed ops notify sender e) ()"

definition dispatch_event :: "'s event_ops \<Rightarrow> 's notify \<Rightarrow> event_sender \<Rightarrow> db_event \<Rightarrow> ('s, unit) act" where
  "dispatch_event ops notify sender e = detached (push_event ops notify sender e)"

definition dispatch_captioned :: "'s event_ops \<Rightarrow> 's notify \<Rightarrow> event_sender \<Rightarrow> db_event \<Rightarrow> string option \<Rightarrow> ('s, feed_event option) act" where
  "dispatch_captioned ops notify sender e caption =
     (if caption \<noteq> None then dispatch_immediate ops sender [e\<lparr>ev_caption := str_ptr_to_null_str caption\<rparr>]
      else act_then (detached (push_event ops notify sender e)) (\<lambda>_. give (Ok None)))"

definition dispatch_many :: "'s event_ops \<Rightarrow> 's notify \<Rightarrow> event_sender \<Rightarrow> db_event list \<Rightarrow> string option \<Rightarrow> ('s, unit) act" where
  "dispatch_many ops notify sender events edit_id =
     each (\<lambda>e. detached (push_event ops notify sender e))
       (eo_arrival ops (map (\<lambda>e. e\<lparr>ev_group_id := str_ptr_to_null_str edit_id\<rparr>) events))"

end
