(* ===== verification/EventStoreProps.thy ===== *)
theory EventStoreProps
  imports EventStore FeedMergeProps
begin

text \<open>
  The recursive query of a window collects the uninterrupted activity before an event, and the
  windows of the last events of the sessions of a user partition the user's events, so that each
  follow is in exactly one event of the feed.
\<close>

section \<open>The recursion of a window\<close>

inductive in_activity :: "window_params \<Rightarrow> db_event list \<Rightarrow> db_event \<Rightarrow> bool" for p rows where
  seed: "e \<in> set rows \<Longrightarrow> ev_id e = wp_id p \<Longrightarrow> \<not> de_deleted e \<Longrightarrow> in_activity p rows e"
| earlier: "in_activity p rows a \<Longrightarrow> e \<in> set rows \<Longrightarrow> window_step p a e \<Longrightarrow> in_activity p rows e"

lemma activity_round_set: "set (activity_round p rows acc) = {e \<in> set rows. e \<in> set acc \<or> (\<exists>a \<in> set acc. window_step p a e)}"
  by (auto simp: activity_round_def)

lemma activity_round_fixed: "set (activity_round p rows acc) = set acc \<Longrightarrow> activity_round p rows (activity_round p rows acc) = activity_round p rows acc"
  by (subst (1 3) activity_round_def) (simp add: activity_round_def)

lemma activity_rounds_end: "activity_rounds (Suc n) p rows acc = activity_round p rows (activity_rounds n p rows acc)"
  by (induction n arbitrary: acc) simp_all

lemma activity_rounds_in: "set acc \<subseteq> set rows \<Longrightarrow> set (activity_rounds n p rows acc) \<subseteq> set rows"
proof (induction n arbitrary: acc)
  case (Suc n)
  show ?case using Suc.IH [of "activity_round p rows acc"] by (auto simp: activity_round_set)
qed simp

lemma activity_rounds_grow:
  assumes "set acc \<subseteq> set rows"
  shows "set (activity_round p rows (activity_rounds n p rows acc)) = set (activity_rounds n p rows acc)
    \<or> n \<le> card (set (activity_rounds n p rows acc))"
proof (induction n)
  case (Suc n)
  let ?b = "activity_rounds n p rows acc"
  show ?case
  proof (cases "set (activity_round p rows ?b) = set ?b")
    case True
    have "activity_round p rows (activity_round p rows ?b) = activity_round p rows ?b" by (rule activity_round_fixed [OF True])
    then show ?thesis unfolding activity_rounds_end by simp
  next
    case False
    have "set ?b \<subseteq> set (activity_round p rows ?b)"
      using activity_rounds_in [OF assms, of n p] by (auto simp: activity_round_set)
    with False have "card (set ?b) < card (set (activity_round p rows ?b))"
      by (intro psubset_card_mono) auto
    with Suc False show ?thesis unfolding activity_rounds_end by auto
  qed
qed simp

lemma activity_closed:
  assumes "set acc \<subseteq> set rows"
  shows "set (activity_round p rows (activity_rounds (length rows) p rows acc)) = set (activity_rounds (length rows) p rows acc)"
proof -
  let ?b = "activity_rounds (length rows) p rows acc"
  have sub: "set ?b \<subseteq> set rows" by (rule activity_rounds_in [OF assms])
  from activity_rounds_grow [OF assms, of p "length rows"] show ?thesis
  proof
    assume "length rows \<le> card (set ?b)"
    then have "set ?b = set rows" using sub card_length [of rows] by (intro card_subset_eq) (auto intro: le_antisym card_mono order_trans)
    then show ?thesis by (auto simp: activity_round_set)
  qed
qed

lemma activity_sound:
  assumes "\<And>e. e \<in> set acc \<Longrightarrow> in_activity p rows e"
  shows "e \<in> set (activity_rounds n p rows acc) \<Longrightarrow> in_activity p rows e"
  using assms
proof (induction n arbitrary: acc)
  case (Suc n)
  show ?case
    by (rule Suc.IH [of "activity_round p rows acc"]) (use Suc.prems in \<open>auto simp: activity_round_set intro: earlier\<close>)
qed simp

lemma activity_chain: "e \<in> set (activity p rows) \<longleftrightarrow> in_activity p rows e"
proof
  let ?seed = "filter (\<lambda>e. ev_id e = wp_id p \<and> \<not> de_deleted e) rows"
  assume "e \<in> set (activity p rows)"
  then show "in_activity p rows e"
    unfolding activity_def by (rule activity_sound [rotated]) (auto intro: seed)
next
  let ?seed = "filter (\<lambda>e. ev_id e = wp_id p \<and> \<not> de_deleted e) rows"
  have closed: "set (activity_round p rows (activity p rows)) = set (activity p rows)"
    unfolding activity_def by (rule activity_closed) auto
  have keep: "set acc \<subseteq> set rows \<Longrightarrow> set acc \<subseteq> set (activity_rounds n p rows acc)" for acc n
  proof (induction n arbitrary: acc)
    case (Suc n)
    have "set acc \<subseteq> set (activity_round p rows acc)" "set (activity_round p rows acc) \<subseteq> set rows"
      using Suc.prems by (auto simp: activity_round_set)
    with Suc.IH [of "activity_round p rows acc"] show ?case by auto
  qed simp
  assume "in_activity p rows e"
  then show "e \<in> set (activity p rows)"
  proof induction
    case (seed e)
    then show ?case using keep [of ?seed "length rows"] by (auto simp: activity_def)
  next
    case (earlier a e)
    then show ?case using closed by (auto simp: activity_round_set)
  qed
qed

lemma activity_set: "set (activity p rows) = {e. in_activity p rows e}"
  by (simp add: set_eq_iff activity_chain)

lemma window_of_set:
  assumes "distinct (map ev_id rows)"
  shows "set (window_of lt p rows) = {e. in_activity p rows e}"
proof -
  have mem: "e \<in> set rows" if "in_activity p rows e" for e using that by cases auto
  have key: "in_activity p rows e" if "e \<in> set rows" "in_activity p rows x" "ev_id e = ev_id x" for e x
  proof -
    have "e = x" using that(1) mem [OF that(2)] assms that(3) by (auto simp: distinct_map dest: inj_onD)
    with that(2) show ?thesis by simp
  qed
  have "set (window_of lt p rows) = {e \<in> set rows. \<exists>x. in_activity p rows x \<and> ev_id e = ev_id x}"
    by (auto simp: window_of_def activity_set)
  also have "\<dots> = {e. in_activity p rows e}" by (blast intro: mem key)
  finally show ?thesis .
qed

text \<open>
  What the query is for, without its recursion. An event may join the window of \<open>z\<close> when it is an
  event of the same actor with one of the actions, neither deleted nor captioned, and of the
  same subject or the given gallery where the query asks for it. It joins when the activity of
  such events from its time on is not interrupted for longer than the span before \<open>z\<close>.
\<close>

definition may_join :: "db_event \<Rightarrow> string list \<Rightarrow> bool \<Rightarrow> string option \<Rightarrow> db_event \<Rightarrow> bool" where
  "may_join z actions subj gallery e \<longleftrightarrow>
     null_is (ev_actor_id e) (ev_actor_id z) \<and> ev_action e \<in> set actions \<and>
     \<not> de_deleted e \<and> \<not> ns_valid (ev_caption e) \<and>
     (subj \<longrightarrow> column_is (ev_subject_id e) (ev_subject_id z)) \<and>
     (case gallery of None \<Rightarrow> True | Some g \<Rightarrow> column_is (ev_gallery_id e) g)"

definition uninterrupted :: "int \<Rightarrow> db_event \<Rightarrow> db_event list \<Rightarrow> db_event \<Rightarrow> bool" where
  "uninterrupted span z joining e \<longleftrightarrow> event_at e < event_at z \<and>
     (\<forall>y \<in> set joining. event_at e \<le> event_at y \<and> event_at y < event_at z \<longrightarrow>
       (\<exists>x \<in> set (z # joining). event_at y < event_at x \<and> event_at x \<le> event_at y + span \<and> event_at x \<le> event_at z))"

definition in_window :: "int \<Rightarrow> db_event \<Rightarrow> string list \<Rightarrow> bool \<Rightarrow> string option \<Rightarrow> db_event list \<Rightarrow> db_event \<Rightarrow> bool" where
  "in_window span z actions subj gallery rows e \<longleftrightarrow> e = z \<or>
     (let joining = filter (may_join z actions subj gallery) rows
      in e \<in> set joining \<and> uninterrupted span z joining e)"

lemma window_step_may_join:
  assumes "x = z \<or> may_join z actions subj gallery x"
  shows "window_step \<lparr>wp_id = i, wp_span = span, wp_actions = actions, wp_include_subject = subj, wp_gallery = gallery\<rparr> x e
    \<longleftrightarrow> may_join z actions subj gallery e \<and> event_at e < event_at x \<and> event_at x \<le> event_at e + span"
  using assms by (auto simp: window_step_def may_join_def null_is_def column_is_def split: option.splits)

lemma in_activity_window:
  assumes key: "distinct (map ev_id rows)" and z: "z \<in> set rows" "\<not> de_deleted z"
  defines "p \<equiv> \<lambda>span actions subj gallery. \<lparr>wp_id = ev_id z, wp_span = span, wp_actions = actions,
    wp_include_subject = subj, wp_gallery = gallery\<rparr>"
  shows "in_activity (p span actions subj gallery) rows e \<longleftrightarrow> in_window span z actions subj gallery rows e"
proof
  let ?p = "p span actions subj gallery" and ?J = "filter (may_join z actions subj gallery) rows"
  assume "in_activity ?p rows e"
  then show "in_window span z actions subj gallery rows e"
  proof induction
    case (seed e)
    then have "e = z" using key z(1) by (auto simp: p_def distinct_map dest: inj_onD)
    then show ?case by (simp add: in_window_def)
  next
    case (earlier x e)
    from earlier.IH have x: "x = z \<or> (x \<in> set ?J \<and> uninterrupted span z ?J x)"
      by (simp add: in_window_def Let_def)
    then have step: "may_join z actions subj gallery e" "event_at e < event_at x" "event_at x \<le> event_at e + span"
      using earlier.hyps(3) window_step_may_join [of x z actions subj gallery] by (auto simp: p_def)
    have "x \<in> set (z # ?J)" "event_at x \<le> event_at z" using x by (auto simp: uninterrupted_def)
    moreover have "\<exists>w \<in> set (z # ?J). event_at y < event_at w \<and> event_at w \<le> event_at y + span \<and> event_at w \<le> event_at z"
      if y: "y \<in> set ?J" "event_at e \<le> event_at y" "event_at y < event_at z" for y
    proof (cases "event_at y < event_at x")
      case True
      with step y x calculation show ?thesis by (intro bexI [of _ x]) auto
    next
      case False
      with x y show ?thesis by (auto simp: uninterrupted_def)
    qed
    ultimately show ?case
      using step earlier.hyps(2) by (auto simp: in_window_def Let_def uninterrupted_def)
  qed
next
  let ?p = "p span actions subj gallery" and ?J = "filter (may_join z actions subj gallery) rows"
  have zin: "in_activity ?p rows z" using z by (intro seed) (simp_all add: p_def)
  have join: "in_activity ?p rows e" if "e \<in> set ?J" "uninterrupted span z ?J e" for e
    using that
  proof (induction "nat (event_at z - event_at e)" arbitrary: e rule: less_induct)
    case less
    then obtain x where x: "x \<in> set (z # ?J)" "event_at e < event_at x" "event_at x \<le> event_at e + span"
        "event_at x \<le> event_at z"
      unfolding uninterrupted_def by blast
    show ?case
    proof (cases "event_at x < event_at z")
      case True
      then have xJ: "x \<in> set ?J" using x(1) by auto
      have "uninterrupted span z ?J x"
        using less.prems(2) True x(2) unfolding uninterrupted_def by (meson less_imp_le order_trans)
      then have "in_activity ?p rows x" using less.hyps [OF _ xJ] x(2) True by simp
      then show ?thesis
        by (rule earlier) (use less.prems(1) xJ x in \<open>auto simp: p_def window_step_may_join [of x z actions subj gallery]\<close>)
    next
      case False
      show ?thesis
        by (rule earlier [OF zin])
          (use less.prems x False in \<open>auto simp: p_def window_step_may_join [of z z] uninterrupted_def\<close>)
    qed
  qed
  assume "in_window span z actions subj gallery rows e"
  with zin join show "in_activity ?p rows e" by (auto simp: in_window_def Let_def)
qed

text \<open>
  Property C10. On a table whose ids are a key, \<^verbatim>\<open>GetEventsInWindow\<close> for an event that is not
  deleted returns this event and exactly those earlier events of the same actor with one of the
  actions (neither deleted nor captioned, and of the same subject where that is asked for) from
  which on such activity is never interrupted for longer than the span before the event.
  \<^verbatim>\<open>GetGalleryEventsInWindow\<close> does so for the events of one gallery.
\<close>

theorem window_is_uninterrupted_activity:
  assumes "distinct (map ev_id rows)" and "z \<in> set rows" and "\<not> de_deleted z"
  shows "(e \<in> set (events_in_window lt (ev_id z) secs actions subj rows)
      \<longleftrightarrow> in_window (secs * second) z actions subj None rows e)
    \<and> (e \<in> set (events_in_window_for_gallery lt (ev_id z) g secs actions subj rows)
      \<longleftrightarrow> in_window (secs * second) z actions subj (Some g) rows e)"
  by (simp add: events_in_window_def events_in_window_for_gallery_def window_of_set [OF assms(1)]
      in_activity_window [OF assms])

section \<open>Sessions\<close>

text \<open>
  The events of a user for one action, with the span of the feed's window: the last event of a
  session is one that no other event follows within the span.
\<close>

definition user_events :: "null_string \<Rightarrow> string \<Rightarrow> db_event list \<Rightarrow> db_event list" where
  "user_events actor a rows = filter (\<lambda>e. \<not> de_deleted e \<and> null_is (ev_actor_id e) actor \<and> ev_action e = a) rows"

definition session_params :: "int \<Rightarrow> string \<Rightarrow> db_event \<Rightarrow> window_params" where
  "session_params span a z = \<lparr>wp_id = ev_id z, wp_span = span, wp_actions = [a], wp_include_subject = False, wp_gallery = None\<rparr>"

definition ends_session :: "int \<Rightarrow> string \<Rightarrow> db_event list \<Rightarrow> db_event \<Rightarrow> bool" where
  "ends_session span a rows z \<longleftrightarrow> \<not> is_actor_action_active (ev_actor_id z) [a] (event_at z) (event_at z + span) rows"

text \<open>Ids are a key, and the events of the user have no caption and come at different times.\<close>

definition sessions_ok :: "null_string \<Rightarrow> string \<Rightarrow> db_event list \<Rightarrow> bool" where
  "sessions_ok actor a rows \<longleftrightarrow> distinct (map ev_id rows) \<and>
     (\<forall>e \<in> set (user_events actor a rows). \<not> ns_valid (ev_caption e)) \<and>
     inj_on event_at (set (user_events actor a rows))"

lemma same_actor: "null_is x y \<Longrightarrow> null_is z y \<longleftrightarrow> null_is z x"
  by (auto simp: null_is_def)

lemma session_step:
  assumes "sessions_ok actor a rows" and "z \<in> set (user_events actor a rows)" and "x \<in> set (user_events actor a rows)"
  shows "window_step (session_params span a y) x z \<longleftrightarrow> event_at z < event_at x \<and> event_at x \<le> event_at z + span"
  using assms by (auto simp: window_step_def session_params_def sessions_ok_def user_events_def null_is_def)

lemma in_session_user:
  assumes "in_activity (session_params span a y) rows e" and "y \<in> set (user_events actor a rows)"
    and "distinct (map ev_id rows)"
  shows "e \<in> set (user_events actor a rows) \<and> event_at e \<le> event_at y"
  using assms
proof induction
  case (seed e)
  then have "e = y" by (auto simp: session_params_def user_events_def distinct_map inj_on_def)
  with seed show ?case by simp
next
  case (earlier x e)
  then show ?case by (auto simp: window_step_def session_params_def user_events_def null_is_def)
qed

lemma session_end_bounds:
  assumes ok: "sessions_ok actor a rows" and z: "z \<in> set (user_events actor a rows)" "ends_session span a rows z"
    and y: "y \<in> set (user_events actor a rows)"
  shows "in_activity (session_params span a y) rows e \<Longrightarrow> event_at e \<le> event_at z \<Longrightarrow> event_at y \<le> event_at z"
proof (induction rule: in_activity.induct)
  case (seed e)
  then have "e = y" using ok y by (auto simp: session_params_def user_events_def sessions_ok_def distinct_map inj_on_def)
  with seed show ?case by simp
next
  case (earlier x e)
  have x: "x \<in> set (user_events actor a rows)"
    using in_session_user [OF earlier.hyps(1) y] ok by (simp add: sessions_ok_def)
  show ?case
  proof (cases "event_at x \<le> event_at z")
    case False
    have "event_at x \<le> event_at e + span"
      using earlier.hyps(3) by (simp add: window_step_def session_params_def)
    with False earlier.prems have "in_span (event_at z) (event_at z + span) x"
      using x by (simp add: in_span_def user_events_def)
    moreover have "null_is (ev_actor_id x) (ev_actor_id z)" "ev_action x = a" "x \<in> set rows"
      using x z by (auto simp: user_events_def null_is_def)
    ultimately show ?thesis using z(2) by (auto simp: ends_session_def is_actor_action_active_def)
  qed (use earlier.IH in simp)
qed

lemma session_exists:
  assumes ok: "sessions_ok actor a rows"
  shows "x \<in> set (user_events actor a rows) \<Longrightarrow>
    \<exists>z \<in> set (user_events actor a rows). ends_session span a rows z \<and> in_activity (session_params span a z) rows x"
proof (induction "card {e \<in> set (user_events actor a rows). event_at x < event_at e}" arbitrary: x rule: less_induct)
  case (less x)
  show ?case
  proof (cases "ends_session span a rows x")
    case True
    have "in_activity (session_params span a x) rows x"
      by (rule seed) (use less.prems in \<open>auto simp: user_events_def session_params_def\<close>)
    with True less.prems show ?thesis by blast
  next
    case False
    then obtain y where y: "y \<in> set (user_events actor a rows)" "event_at x < event_at y" "event_at y \<le> event_at x + span"
      using less.prems by (auto simp: ends_session_def is_actor_action_active_def in_span_def user_events_def null_is_def)
    have "{e \<in> set (user_events actor a rows). event_at y < event_at e} \<subset> {e \<in> set (user_events actor a rows). event_at x < event_at e}"
      using y by auto
    then have "card {e \<in> set (user_events actor a rows). event_at y < event_at e} < card {e \<in> set (user_events actor a rows). event_at x < event_at e}"
      by (intro psubset_card_mono) auto
    from less.hyps [OF this y(1)] obtain z where z: "z \<in> set (user_events actor a rows)" "ends_session span a rows z"
      "in_activity (session_params span a z) rows y" by blast
    moreover have "window_step (session_params span a z) y x" using session_step [OF ok less.prems y(1)] y by simp
    ultimately show ?thesis using less.prems by (auto simp: user_events_def intro: earlier)
  qed
qed

lemma session_unique:
  assumes ok: "sessions_ok actor a rows"
    and y: "y \<in> set (user_events actor a rows)" "ends_session span a rows y" "in_activity (session_params span a y) rows x"
    and z: "z \<in> set (user_events actor a rows)" "ends_session span a rows z" "in_activity (session_params span a z) rows x"
  shows "y = z"
proof -
  have "event_at x \<le> event_at y" "event_at x \<le> event_at z"
    using in_session_user [OF y(3,1)] in_session_user [OF z(3,1)] ok by (simp_all add: sessions_ok_def)
  then have "event_at y = event_at z"
    using session_end_bounds [OF ok y(1,2) z(1,3)] session_end_bounds [OF ok z(1,2) y(1,3)] by linarith
  then show ?thesis using ok y(1) z(1) by (auto simp: sessions_ok_def inj_on_def)
qed

section \<open>Follows in the feed\<close>

lemma window_set:
  assumes "distinct (map ev_id rows)"
  shows "set (events_in_window lt (ev_id z) secs [a] False rows) = {e. in_activity (session_params (secs * second) a z) rows e}"
  using window_of_set [OF assms] by (simp add: events_in_window_def session_params_def)

lemma truncated_event [simp]:
  "ev_id (event.truncate e) = ev_id e" "ev_actor_id (event.truncate e) = ev_actor_id e" "ev_action (event.truncate e) = ev_action e"
  "ev_group_id (event.truncate e) = ev_group_id e" "ev_created_at (event.truncate e) = ev_created_at e"
  "ev_caption (event.truncate e) = ev_caption e" "ev_data (event.truncate e) = ev_data e" "ev_subject_id (event.truncate e) = ev_subject_id e"
  by (simp_all add: event.defs)

lemma merged_follow_ids:
  "cf_event_ids (merge_follow_events es) = map ev_id (filter (\<lambda>e. \<not> ed_user_refollowed (ev_data e)) es)"
  "length (cf_followed_ids (merge_follow_events es)) = length (filter (\<lambda>e. \<not> ed_user_refollowed (ev_data e)) es)"
  using follow_fold [of es "\<lparr>cf_event = zero_event, cf_event_ids = [], cf_followed_ids = [], cf_followed_back = []\<rparr>"]
  by (simp_all add: merge_follow_events_def Let_def)

lemma follow_task:
  fixes z :: db_event and fs lt secs t
  assumes "blocked (ns_string (ev_actor_id z)) = Ok False" and "ns_string (ev_group_id z) = ''''"
    and a: "ev_action z = action_user_followed_users"
  defines firsts: "fs \<equiv> filter (\<lambda>e. \<not> ed_user_refollowed (ev_data e))
    (events_in_window lt (ev_id z) secs [action_user_followed_users] False (ft_events t))"
  shows "\<exists>f. new_feed_event_from_event (feed_env_on lt secs blocked order i t) (event.truncate z) =
      Ok (if ends_session (secs * second) action_user_followed_users (ft_events t) z \<and> fs \<noteq> [] then Some f else None)
    \<and> fv_event_ids f = map ev_id fs"
proof -
  let ?env = "feed_env_on lt secs blocked order i t"
  have single: "get_actions action_user_followed_users = [action_user_followed_users]"
    "event_groups action_user_followed_users = None"
    by (simp_all add: get_actions_def grouping_config_def event_groups_iff action_defs)
  then have segment: "get_segment action_user_followed_users = ActorActionSegment"
    by (simp add: get_segment_def event_segments_def)
  have can: "can_event ?env (event.truncate z) = Ok (ends_session (secs * second) action_user_followed_users (ft_events t) z)"
    by (simp add: can_event_def is_still_editing_def a segment single feed_env_on_def Let_def ends_session_def event_at_def)
  have blk: "fe_blocked ?env (ns_string (ev_actor_id z)) = Ok False" using assms(1) by (simp add: feed_env_on_def Let_def)
  let ?es = "map event.truncate (events_in_window lt (ev_id z) secs [action_user_followed_users] False (ft_events t))"
  let ?m = "merge_follow_events ?es"
  let ?f = "\<lparr>fv_id = i, fv_owner_id = null_str_to_dbid (ev_actor_id (cf_event ?m)), fv_action = ev_action (cf_event ?m),
      fv_event_time = ev_created_at (cf_event ?m), fv_event_ids = cf_event_ids ?m, fv_caption = zero_null_string, fv_group_id = zero_null_string,
      fv_user_followed_ids = cf_followed_ids ?m, fv_user_followed_back = cf_followed_back ?m, fv_gallery = None\<rparr>"
  have ids: "map ev_id (filter (\<lambda>e. \<not> ed_user_refollowed (ev_data e)) ?es) = map ev_id fs"
    "length (cf_followed_ids ?m) = length fs"
    by (simp_all add: merged_follow_ids firsts filter_map o_def)
  have len: "cf_followed_ids ?m = [] \<longleftrightarrow> fs = []" using ids(2) by (metis length_0_conv)
  have "create_feed_event ?env (event.truncate z) = (if fs = [] then Ok None else Ok (Some ?f))"
    using assms(2) len by (simp add: create_feed_event_def a create_user_followed_users_feed_event_def feed_env_on_def
        create_feed_row_def Let_def map_ok_def)
  then have "new_feed_event_from_event ?env (event.truncate z) =
      Ok (if ends_session (secs * second) action_user_followed_users (ft_events t) z \<and> fs \<noteq> [] then Some ?f else None)"
    using assms(2) can single(2) blk by (simp add: new_feed_event_from_event_def a)
  then show ?thesis using ids(1) by (intro exI [of _ ?f]) (simp add: merged_follow_ids)
qed

text \<open>
  Property C9. When the builder has looked at all the follows of a user, on a table whose ids are a
  key, with no two follows at the same time and no captions or groups, each follow that is not a
  repeated one is in the event of the feed of exactly one of them: no follow is lost between two
  windows and none is shown twice.
\<close>

theorem follows_in_one_feed_event:
  assumes ok: "sessions_ok actor action_user_followed_users (ft_events t)"
    and blocked: "blocked (ns_string actor) = Ok False"
    and alone: "\<forall>e \<in> set (user_events actor action_user_followed_users (ft_events t)). ns_string (ev_group_id e) = ''''"
    and x: "x \<in> set (user_events actor action_user_followed_users (ft_events t))" "\<not> ed_user_refollowed (ev_data x)"
  shows "\<exists>!z. z \<in> set (user_events actor action_user_followed_users (ft_events t)) \<and>
    (\<exists>f. new_feed_event_from_event (feed_env_on lt secs blocked order i t) (event.truncate z) = Ok (Some f) \<and> ev_id x \<in> set (fv_event_ids f))"
proof -
  let ?a = action_user_followed_users and ?rows = "ft_events t"
  let ?U = "set (user_events actor ?a ?rows)" and ?p = "session_params (secs * second) ?a"
  let ?ends = "\<lambda>z. ends_session (secs * second) ?a ?rows z \<and> in_activity (?p z) ?rows x"
  have key: "distinct (map ev_id ?rows)" using ok by (simp add: sessions_ok_def)
  have holds: "(\<exists>f. new_feed_event_from_event (feed_env_on lt secs blocked order i t) (event.truncate z) = Ok (Some f)
      \<and> ev_id x \<in> set (fv_event_ids f)) \<longleftrightarrow> ?ends z" if z: "z \<in> ?U" for z
  proof -
    let ?fs = "filter (\<lambda>e. \<not> ed_user_refollowed (ev_data e)) (events_in_window lt (ev_id z) secs [?a] False ?rows)"
    have "blocked (ns_string (ev_actor_id z)) = Ok False" "ns_string (ev_group_id z) = ''''" "ev_action z = ?a"
      using z blocked alone by (auto simp: user_events_def null_is_def)
    from follow_task [where blocked = blocked and z = z and lt = lt and secs = secs and t = t and order = order and i = i, OF this] obtain f where
      f: "new_feed_event_from_event (feed_env_on lt secs blocked order i t) (event.truncate z) =
        Ok (if ends_session (secs * second) ?a ?rows z \<and> ?fs \<noteq> [] then Some f else None)" "fv_event_ids f = map ev_id ?fs" by blast
    have "ev_id x \<in> ev_id ` set ?fs \<longleftrightarrow> in_activity (?p z) ?rows x"
    proof
      assume "ev_id x \<in> ev_id ` set ?fs"
      then obtain e where e: "in_activity (?p z) ?rows e" "ev_id e = ev_id x" by (auto simp: window_set [OF key])
      then have "e \<in> set ?rows" by (cases rule: in_activity.cases) auto
      with e x key have "e = x" by (auto simp: user_events_def distinct_map dest: inj_onD)
      with e show "in_activity (?p z) ?rows x" by simp
    qed (use x in \<open>auto simp: window_set [OF key]\<close>)
    with f show ?thesis by (cases "?fs = []") auto
  qed
  obtain z where z: "z \<in> ?U" "?ends z" using session_exists [OF ok x(1)] by blast
  show ?thesis
  proof (intro ex1I [of _ z] conjI)
    fix y assume y: "y \<in> ?U \<and> (\<exists>f. new_feed_event_from_event (feed_env_on lt secs blocked order i t) (event.truncate y) = Ok (Some f)
      \<and> ev_id x \<in> set (fv_event_ids f))"
    then have "?ends y" using holds [of y] by blast
    with y z show "y = z" using session_unique [OF ok, of y _ x z] by blast
  qed (use z holds [of z] in blast)+
qed

text \<open>Two follows within the window and one after it; the middle one is the end of the first session.\<close>

definition follow_at :: "string \<Rightarrow> int \<Rightarrow> db_event" where
  "follow_at i at = zero_db_event\<lparr>ev_id := i, ev_actor_id := \<lparr>ns_string = ''u'', ns_valid = True\<rparr>,
     ev_action := action_user_followed_users, ev_created_at := go_time_at at, ev_subject_id := ''v''\<rparr>"

definition follow_tables :: feed_tables where
  "follow_tables = \<lparr>ft_events = [follow_at ''a'' 1000000000, follow_at ''b'' 3000000000, follow_at ''c'' 9000000000], ft_feed = []\<rparr>"

lemma follow_fields: "ev_id (follow_at i n) = i" "ev_actor_id (follow_at i n) = \<lparr>ns_string = ''u'', ns_valid = True\<rparr>"
  "ev_action (follow_at i n) = action_user_followed_users" "ev_caption (follow_at i n) = zero_null_string"
  "ev_group_id (follow_at i n) = zero_null_string" "ev_data (follow_at i n) = zero_event_data" "\<not> de_deleted (follow_at i n)"
  "event_at (follow_at i n) = instant_of (go_time_at n)"
  by (simp_all add: follow_at_def zero_db_event_def event.defs zero_event_def event_at_def)

lemma instant_at: "instant_of (go_time_at 1000000000) = 1000000000" "instant_of (go_time_at 3000000000) = 3000000000"
  "instant_of (go_time_at 9000000000) = 9000000000"
  by (simp_all add: instant_of_def go_time_at_def epoch_seconds_def)

lemma follow_events: "user_events \<lparr>ns_string = ''u'', ns_valid = True\<rparr> action_user_followed_users (ft_events follow_tables) = ft_events follow_tables"
  by (simp add: user_events_def follow_tables_def follow_fields null_is_def)

lemma follow_tables_ok: "sessions_ok \<lparr>ns_string = ''u'', ns_valid = True\<rparr> action_user_followed_users (ft_events follow_tables)"
  unfolding sessions_ok_def follow_events
  by (auto simp: follow_tables_def follow_fields instant_at zero_null_string_def inj_on_def)

theorem window_is_uninterrupted_activity_witness:
  "(follow_at ''a'' 1000000000 \<in> set (events_in_window (\<lambda>_ _. False) ''b'' 5 [action_user_followed_users] False (ft_events follow_tables))) \<and>
   (follow_at ''b'' 3000000000 \<notin> set (events_in_window (\<lambda>_ _. False) ''c'' 5 [action_user_followed_users] False (ft_events follow_tables)))"
proof -
  note w = window_is_uninterrupted_activity [of "ft_events follow_tables", where lt = "\<lambda>_ _. False" and secs = 5
      and actions = "[action_user_followed_users]" and subj = False]
  have key: "distinct (map ev_id (ft_events follow_tables))" by (simp add: follow_tables_def follow_fields)
  have "in_window (5 * second) (follow_at ''b'' 3000000000) [action_user_followed_users] False None
      (ft_events follow_tables) (follow_at ''a'' 1000000000)"
    by (simp add: in_window_def uninterrupted_def may_join_def follow_tables_def follow_fields null_is_def
        zero_null_string_def instant_at second_def)
  moreover have "\<not> in_window (5 * second) (follow_at ''c'' 9000000000) [action_user_followed_users] False None
      (ft_events follow_tables) (follow_at ''b'' 3000000000)"
  proof -
    have "ev_id (follow_at ''b'' 3000000000) \<noteq> ev_id (follow_at ''c'' 9000000000)" by (simp add: follow_fields)
    then have "follow_at ''b'' 3000000000 \<noteq> follow_at ''c'' 9000000000" by auto
    then show ?thesis
      by (simp add: in_window_def uninterrupted_def may_join_def follow_tables_def follow_fields null_is_def
          zero_null_string_def instant_at second_def)
  qed
  ultimately show ?thesis
    using w [OF key, of "follow_at ''b'' 3000000000"] w [OF key, of "follow_at ''c'' 9000000000"]
    by (simp add: follow_tables_def follow_fields)
qed

theorem follows_in_one_feed_event_witness:
  "\<exists>!z. z \<in> set (ft_events follow_tables) \<and>
    (\<exists>f. new_feed_event_from_event (feed_env_on (\<lambda>_ _. False) 5 (\<lambda>_. Ok False) (\<lambda>_. []) ''f'' follow_tables) (event.truncate z) = Ok (Some f)
      \<and> ''a'' \<in> set (fv_event_ids f))"
  using follows_in_one_feed_event [where blocked = "\<lambda>_. Ok False" and x = "follow_at ''a'' 1000000000" and lt = "\<lambda>_ _. False"
      and secs = 5 and order = "\<lambda>_. []" and i = "''f''", OF follow_tables_ok]
  unfolding follow_events follow_fields
  by (simp add: follow_tables_def follow_fields zero_null_string_def zero_event_data_def)

end
