(* ===== verification/EventTables.thy ===== *)
theory EventTables
  imports Events EventStoreProps
begin

text \<open>
  The calls of the event handlers on the tables of events and of the feed, beside the rest of the
  world, and on the table of notifications beside both.
\<close>

section \<open>Calls beside a table\<close>

definition beside :: "('c, 'a) act \<Rightarrow> ('t \<times> 'c, 'a) act" where
  "beside m = (\<lambda>(t, c). case m c of (r, c1) \<Rightarrow> (r, (t, c1)))"

lemma beside_apply: "beside m (t, c) = (fst (m c), (t, snd (m c)))"
  by (simp add: beside_def split: prod.split)

lemma beside_fst [simp]: "fst (snd (beside m s)) = fst s"
  by (cases s) (simp add: beside_apply)

text \<open>A repository, and all calls, beside a table they do not use.\<close>

definition beside_ops :: "'c event_ops \<Rightarrow> ('t \<times> 'c) event_ops" where
  "beside_ops ops =
     \<lparr>eo_repo = \<lparr>er_new_id = beside (er_new_id (eo_repo ops)), er_insert = (\<lambda>row. beside (er_insert (eo_repo ops) row))\<rparr>,
      eo_feed = (\<lambda>s. eo_feed ops (snd s)), eo_feed_added = (\<lambda>f (t, c). (t, eo_feed_added ops f c)),
      eo_set_captions = (\<lambda>c g. beside (eo_set_captions ops c g)), eo_feed_exists = (\<lambda>g. beside (eo_feed_exists ops g)),
      eo_set_feed_caption = (\<lambda>g. beside (eo_set_feed_caption ops g)), eo_feed_task = (\<lambda>i. beside (eo_feed_task ops i)),
      eo_feedbot_task = (\<lambda>i a. beside (eo_feedbot_task ops i a)), eo_slack_task = (\<lambda>i. beside (eo_slack_task ops i)),
      eo_gallery_owner = (\<lambda>i. beside (eo_gallery_owner ops i)), eo_comment_actor = (\<lambda>i. beside (eo_comment_actor ops i)),
      eo_feed_event_owner = (\<lambda>i. beside (eo_feed_event_owner ops i)), eo_post = (\<lambda>i. beside (eo_post ops i)),
      eo_token_owner = (\<lambda>i. beside (eo_token_owner ops i)), eo_creators = (\<lambda>i. beside (eo_creators ops i)),
      eo_token_definitions = (\<lambda>is. beside (eo_token_definitions ops is)), eo_communities = (\<lambda>is. beside (eo_communities ops is)),
      eo_all_creators = (\<lambda>is. beside (eo_all_creators ops is)), eo_count_posts = (\<lambda>i. beside (eo_count_posts ops i)),
      eo_followers = (\<lambda>i. beside (eo_followers ops i)), eo_farcaster_id = (\<lambda>i. beside (eo_farcaster_id ops i)),
      eo_farcaster_followers = (\<lambda>i. beside (eo_farcaster_followers ops i)),
      eo_users_by_farcaster = (\<lambda>is. beside (eo_users_by_farcaster ops is)),
      eo_recipients = eo_recipients ops, eo_arrival = eo_arrival ops, eo_feed_first = eo_feed_first ops\<rparr>"

section \<open>The tables of events and of the feed\<close>

text \<open>
  The connection, the foreign keys, the server's clock, the collation of ids, the size of the
  feed's window in seconds, the query of blocked users, and the order of maps and the fresh id of
  \<open>feed_env_on\<close>.
\<close>

record 'c event_db =
  eb_connect :: "('c, unit) act"
  eb_refers :: "db_event \<Rightarrow> ('c, unit) act"
  eb_now :: "'c \<Rightarrow> int"
  eb_id_less :: "string \<Rightarrow> string \<Rightarrow> bool"
  eb_window_seconds :: int
  eb_blocked :: "'c \<Rightarrow> string \<Rightarrow> bool outcome"
  eb_map_order :: "event list \<Rightarrow> string list"
  eb_feed_id :: "'c \<Rightarrow> string"

type_synonym 'c event_state = "feed_tables \<times> 'c"

definition on_events :: "'c event_db \<Rightarrow> (feed_tables \<Rightarrow> 'a outcome \<times> feed_tables) \<Rightarrow> ('c event_state, 'a) act" where
  "on_events eb f = act_then (beside (eb_connect eb)) (\<lambda>_ (t, c). case f t of (r, t1) \<Rightarrow> (r, (t1, c)))"

definition events_key_violation :: gerror where
  "events_key_violation = ErrText ''duplicate key value violates unique constraint \"events_pkey\"''"

definition insert_event_row :: "'c event_db \<Rightarrow> (go_time \<Rightarrow> db_event) \<Rightarrow> ('c event_state, db_event) act" where
  "insert_event_row eb row = act_then (look (\<lambda>s. row (go_time_at (eb_now eb (snd s))))) (\<lambda>e.
     act_then (beside (eb_refers eb e)) (\<lambda>_. on_events eb (\<lambda>t.
       if ev_id e \<in> ev_id ` set (ft_events t) then (Err events_key_violation, t)
       else (Ok e, t\<lparr>ft_events := e # ft_events t\<rparr>))))"

definition set_feed_caption_on :: "null_string \<Rightarrow> feed_tables \<Rightarrow> feed_event outcome \<times> feed_tables" where
  "set_feed_caption_on g t = (case update_feed_event_caption_by_group g (ft_events t) (ft_feed t) of
     Ok (f, feed) \<Rightarrow> (Ok f, t\<lparr>ft_feed := feed\<rparr>) | Err e \<Rightarrow> (Err e, t) | Panic p \<Rightarrow> (Panic p, t))"

definition ops_on_tables :: "'c event_db \<Rightarrow> 'c event_ops \<Rightarrow> 'c event_state event_ops" where
  "ops_on_tables eb ops = (beside_ops ops)
     \<lparr>eo_repo := \<lparr>er_new_id = beside (er_new_id (eo_repo ops)), er_insert = insert_event_row eb\<rparr>,
      eo_feed := (\<lambda>(t, c). feed_env_on (eb_id_less eb) (eb_window_seconds eb) (eb_blocked eb c) (eb_map_order eb) (eb_feed_id eb c) t),
      eo_feed_added := (\<lambda>f (t, c). (t\<lparr>ft_feed := snd (create_feed_row (fv_id f) f (ft_feed t))\<rparr>, c)),
      eo_set_captions := (\<lambda>caption g. on_events eb (\<lambda>t. (Ok (), t\<lparr>ft_events := update_event_caption_by_group caption g (ft_events t)\<rparr>))),
      eo_feed_exists := (\<lambda>g. on_events eb (\<lambda>t. (Ok (is_feed_event_exists_for_group g (ft_feed t)), t))),
      eo_set_feed_caption := (\<lambda>g. on_events eb (set_feed_caption_on g))\<rparr>"

text \<open>On the three tables.\<close>

type_synonym 'c all_tables = "notification_row list \<times> 'c event_state"

definition ops_on_all_tables :: "'c event_db \<Rightarrow> 'c event_ops \<Rightarrow> 'c all_tables event_ops" where
  "ops_on_all_tables eb ops = beside_ops (ops_on_tables eb ops)"

definition beside_db :: "'c notif_db \<Rightarrow> ('t \<times> 'c) notif_db" where
  "beside_db db = \<lparr>db_connect = beside (db_connect db), db_refers = (\<lambda>p. beside (db_refers db p)), db_now = (\<lambda>s. db_now db (snd s)),
     db_users = (\<lambda>s. db_users db (snd s)), db_id_less = db_id_less db, db_json_text = db_json_text db\<rparr>"

definition beside_world :: "'c notif_world \<Rightarrow> ('t \<times> 'c) notif_world" where
  "beside_world w =
     \<lparr>nw_new_id = beside (nw_new_id w), nw_now = (\<lambda>s. nw_now w (snd s)), nw_clock = nw_clock w,
      nw_create = (\<lambda>p. beside (nw_create w p)), nw_create_announcements = (\<lambda>p. beside (nw_create_announcements w p)),
      nw_update = (\<lambda>u. beside (nw_update w u)), nw_most_recent = (\<lambda>q. beside (nw_most_recent w q)),
      nw_most_recent_token = (\<lambda>q. beside (nw_most_recent_token w q)), nw_after = (\<lambda>u a t. beside (nw_after w u a t)),
      nw_by_id = (\<lambda>i. beside (nw_by_id w i)), nw_count_users = beside (nw_count_users w),
      nw_count_unseen = (\<lambda>u. beside (nw_count_unseen w u)),
      nw_user = (\<lambda>i. beside (nw_user w i)), nw_comment = (\<lambda>i. beside (nw_comment w i)),
      nw_post = (\<lambda>i. beside (nw_post w i)), nw_feed_event_collection = (\<lambda>i. beside (nw_feed_event_collection w i)),
      nw_collection = (\<lambda>i. beside (nw_collection w i)), nw_community = (\<lambda>i. beside (nw_community w i)),
      nw_token_definition = (\<lambda>i (t, c). case nw_token_definition w i c of (r, c1) \<Rightarrow> (r, (t, c1))),
      nw_push_tokens = (\<lambda>i. beside (nw_push_tokens w i)), nw_limit = (\<lambda>l k. beside (nw_limit w l k)),
      nw_push_task = (\<lambda>m. beside (nw_push_task w m)), nw_publish = (\<lambda>t m. beside (nw_publish w t m)),
      nw_json = nw_json w, nw_env = nw_env w, nw_unescape = nw_unescape w,
      nw_lock = (\<lambda>k d (t, c). case nw_lock w k d c of (ok, c1) \<Rightarrow> (ok, (t, c1))),
      nw_unlock = (\<lambda>k (t, c). (t, nw_unlock w k c)), nw_sleep = (\<lambda>d (t, c). (t, nw_sleep w d c)),
      nw_intn = nw_intn w, nw_wrap = nw_wrap w\<rparr>"

definition notify_on_tables :: "(string \<Rightarrow> string) \<Rightarrow> 'c notif_db \<Rightarrow> 'c notif_world
    \<Rightarrow> (notification list \<Rightarrow> notification list) \<Rightarrow> 'c all_tables notify" where
  "notify_on_tables ul db w order = dispatch_notif ul (on_tables (beside_db db) (beside_world w)) order"

lemma beside_answers [simp]: "answers (beside_db db) \<longleftrightarrow> answers db"
  by (auto simp: answers_def beside_db_def beside_apply)

section \<open>The contract of the repository\<close>

text \<open>An insert that succeeds returns the row that its query makes at some time.\<close>

locale event_repository =
  fixes repo :: "'s event_repo"
  assumes inserted: "er_insert repo row s = (Ok e, s1) \<Longrightarrow> \<exists>now. e = row now"

text \<open>
  What a row keeps of the event it was added for. The subject is the event's own, but for
  events about galleries and communities, whose inserts take the id of the gallery or the
  community. Each type but the one for all users has a column of its own, which names the
  subject or, for admires, comments and posts, the object that the event is about. Groups,
  captions and data are kept, but for posts, whose insert has no such columns.
\<close>

definition subject_of :: "db_event \<Rightarrow> string" where
  "subject_of e =
     (if de_resource_type e = resource_gallery then ev_gallery_id e
      else if de_resource_type e = resource_community then de_community_id e
      else ev_subject_id e)"

definition names_its_object :: "db_event \<Rightarrow> db_event \<Rightarrow> bool" where
  "names_its_object e x \<longleftrightarrow>
     (let t = de_resource_type e in
      if t = resource_user then de_user_id x = ev_subject_id e
      else if t = resource_token then ev_token_id x = ev_subject_id e
      else if t = resource_collection then ev_collection_id x = ev_subject_id e
      else if t = resource_gallery then ev_gallery_id x = ev_gallery_id e
      else if t = resource_community then de_community_id x = de_community_id e
      else if t = resource_admire then de_admire_id x = de_admire_id e
      else if t = resource_comment then de_comment_id x = de_comment_id e
      else if t = resource_post then de_post_id x = de_post_id e \<and> de_user_id x = de_user_id e
      else t = resource_all_users)"

definition keeps_description :: "db_event \<Rightarrow> db_event \<Rightarrow> bool" where
  "keeps_description e x \<longleftrightarrow>
     (if de_resource_type e = resource_post
      then ev_group_id x = zero_null_string \<and> ev_caption x = zero_null_string \<and> ev_data x = ev_data zero_db_event
      else ev_group_id x = ev_group_id e \<and> ev_caption x = ev_caption e \<and> ev_data x = ev_data e)"

definition stored_as :: "db_event \<Rightarrow> db_event \<Rightarrow> bool" where
  "stored_as e x \<longleftrightarrow> ev_actor_id x = ev_actor_id e \<and> ev_action x = ev_action e \<and> de_resource_type x = de_resource_type e \<and>
     0 \<le> de_resource_type x \<and> de_resource_type x \<le> 8 \<and> ev_subject_id x = subject_of e \<and>
     names_its_object e x \<and> keeps_description e x \<and> \<not> de_deleted x"

lemma event_fields [simp]:
  "ev_id zero_db_event = ''''" "ev_actor_id zero_db_event = zero_null_string" "ev_subject_id zero_db_event = ''''"
  "ev_group_id zero_db_event = zero_null_string" "ev_caption zero_db_event = zero_null_string"
  "de_resource_type zero_db_event = 0" "de_deleted zero_db_event = False" "de_post_id zero_db_event = ''''"
  "ev_gallery_id zero_db_event = ''''" "de_external_id zero_db_event = zero_null_string"
  by (simp_all add: zero_db_event_def event.defs zero_event_def)

lemma with_data_fields [simp]:
  "ev_id (with_data_of e r) = ev_id r" "ev_actor_id (with_data_of e r) = ev_actor_id r" "ev_action (with_data_of e r) = ev_action r"
  "ev_subject_id (with_data_of e r) = ev_subject_id r" "de_resource_type (with_data_of e r) = de_resource_type r"
  "de_deleted (with_data_of e r) = de_deleted r" "ev_group_id (with_data_of e r) = ev_group_id r" "ev_caption (with_data_of e r) = ev_caption r"
  "ev_data (with_data_of e r) = ev_data e" "de_user_id (with_data_of e r) = de_user_id r" "ev_token_id (with_data_of e r) = ev_token_id r"
  "ev_collection_id (with_data_of e r) = ev_collection_id r" "de_community_id (with_data_of e r) = de_community_id r"
  "de_admire_id (with_data_of e r) = de_admire_id r" "de_comment_id (with_data_of e r) = de_comment_id r"
  "de_post_id (with_data_of e r) = de_post_id r" "ev_gallery_id (with_data_of e r) = ev_gallery_id r" "de_external_id (with_data_of e r) = de_external_id r"
  by (simp_all add: with_data_of_def)

lemmas event_inserts = create_user_event_def create_token_event_def create_collection_event_def create_gallery_event_def
  create_community_event_def create_post_event_def create_data_only_event_def create_admire_event_def create_comment_event_def
  described_event_def event_columns_def event_params_def

lemmas event_adds = add_user_event_def add_token_event_def add_collection_event_def add_admire_event_def add_comment_event_def
  add_gallery_event_def add_community_event_def add_post_event_def add_data_only_event_def

context event_repository
begin

lemma insert_event_row:
  assumes "insert_event repo query params s = (Ok x, s1)"
  shows "\<exists>i now. x = query now (params i)"
  using assms unfolding insert_event_def act_then_Ok_iff by (blast dest: inserted)

lemma added:
  assumes "add_event repo e s = (Ok x, s1)"
  shows "stored_as e x"
proof -
  have "de_resource_type e \<in> {0, 1, 2, 3, 4, 5, 6, 7, 8}"
    using assms by (auto simp: add_event_def Let_def resource_defs split: if_splits)
  then show ?thesis
    using assms by - (elim insertE emptyE; simp add: add_event_def event_adds resource_defs; drule insert_event_row; elim exE;
        simp add: stored_as_def subject_of_def names_its_object_def keeps_description_def resource_defs event_inserts)
qed

end

lemma insert_event_row_ok:
  assumes "er_insert (eo_repo (ops_on_tables eb ops)) row s = (Ok e, s1)"
  shows "\<exists>now. e = row now"
  using assms by (cases s) (auto simp: ops_on_tables_def insert_event_row_def on_events_def act_then_Ok_iff split: if_splits prod.splits)

interpretation stored_events: event_repository "eo_repo (ops_on_tables eb ops)" for eb ops
  by unfold_locales (rule insert_event_row_ok)

interpretation all_events: event_repository "eo_repo (ops_on_all_tables eb ops)" for eb ops
proof
  fix row s e s1
  assume "er_insert (eo_repo (ops_on_all_tables eb ops)) row s = (Ok e, s1)"
  then have "er_insert (eo_repo (ops_on_tables eb ops)) row (snd s) = (Ok e, snd s1)"
    by (cases s) (simp add: ops_on_all_tables_def beside_ops_def beside_apply prod_eq_iff)
  then show "\<exists>now. e = row now" by (rule insert_event_row_ok)
qed

section \<open>What the calls leave alone\<close>

lemma beside_leaves [simp]: "leaves fst (beside m)"
  by (simp add: leaves_def)

lemma beside_calls_leave [simp]:
  "leaves fst (er_new_id (eo_repo (beside_ops ops)))" "leaves fst (er_insert (eo_repo (beside_ops ops)) row)"
  "leaves fst (eo_set_captions (beside_ops ops) c g)" "leaves fst (eo_feed_exists (beside_ops ops) g)"
  "leaves fst (eo_set_feed_caption (beside_ops ops) g)" "leaves fst (eo_feed_task (beside_ops ops) i)"
  "leaves fst (eo_feedbot_task (beside_ops ops) i a)" "leaves fst (eo_slack_task (beside_ops ops) i)"
  "leaves fst (eo_gallery_owner (beside_ops ops) i)" "leaves fst (eo_comment_actor (beside_ops ops) i)"
  "leaves fst (eo_feed_event_owner (beside_ops ops) i)" "leaves fst (eo_post (beside_ops ops) i)"
  "leaves fst (eo_token_owner (beside_ops ops) i)" "leaves fst (eo_creators (beside_ops ops) i)"
  "leaves fst (eo_token_definitions (beside_ops ops) is)" "leaves fst (eo_communities (beside_ops ops) is)"
  "leaves fst (eo_all_creators (beside_ops ops) is)" "leaves fst (eo_count_posts (beside_ops ops) i)"
  "leaves fst (eo_followers (beside_ops ops) i)" "leaves fst (eo_farcaster_id (beside_ops ops) i)"
  "leaves fst (eo_farcaster_followers (beside_ops ops) i)" "leaves fst (eo_users_by_farcaster (beside_ops ops) is)"
  by (simp_all add: beside_ops_def)

lemma added_leaves: "leaves fst (add_event (eo_repo (beside_ops ops)) e)"
  by (simp add: add_event_def event_adds insert_event_def Let_def leaves_if leaves_then)

lemma owner_leaves: "leaves fst (find_owner_for_notification_from_event (beside_ops ops) e)"
  by (simp add: find_owner_for_notification_from_event_def post_actor_def Let_def leaves_if leaves_then leaves_or_else)

end
