(* ===== verification/EventSafety.thy ===== *)
theory EventSafety
  imports EventTables
begin

text \<open>
  What the dispatch of events promises on the tables: what a stored event keeps, that views are
  counted once and nobody hears of what they did themselves; and where a group's caption, a first
  post and a caption of one event do not get where they are meant to.
\<close>

section \<open>What is registered\<close>

lemma register_delayed:
  "register (add_delayed_handler d) rs s = (update_dispatcher d (\<lambda>p. p\<lparr>dp_delayed := dp_delayed p ++ map_of (rev rs)\<rparr>) s)
     \<lparr>es_delayed := fst ` set rs \<union> es_delayed s\<rparr>"
proof (induction rs arbitrary: s)
  case Nil
  show ?case by (cases d) (simp_all add: register_def)
next
  case (Cons r rs)
  show ?case
    using Cons [of "add_delayed_handler d (fst r) (snd r) s"]
    by (cases d) (simp_all add: register_def add_delayed_handler_def split_def map_of_append Let_def)
qed

lemma register_immediate:
  "register (add_immediate_handler d) rs s = (update_dispatcher d (\<lambda>p. p\<lparr>dp_immediate := dp_immediate p ++ map_of (rev rs)\<rparr>) s)
     \<lparr>es_immediate := fst ` set rs \<union> es_immediate s\<rparr>"
proof (induction rs arbitrary: s)
  case Nil
  show ?case by (cases d) (simp_all add: register_def)
next
  case (Cons r rs)
  show ?case
    using Cons [of "add_immediate_handler d (fst r) (snd r) s"]
    by (cases d) (simp_all add: register_def add_immediate_handler_def split_def map_of_append Let_def)
qed

lemmas registered = event_sender_of_add_to_def register_delayed register_immediate add_group_handler_def
  new_event_sender_def new_event_dispatcher_def

lemma sender_delayed:
  "dp_delayed (es_feed event_sender_of_add_to) = map_of (rev feed_delayed_registrations)"
  "dp_delayed (es_notifications event_sender_of_add_to) = map_of (rev notification_registrations)"
  "es_delayed event_sender_of_add_to = fst ` set notification_registrations \<union> fst ` set feed_delayed_registrations"
  by (simp_all add: registered Let_def)

lemma sender_immediate:
  "dp_immediate (es_feed event_sender_of_add_to) = map_of (rev feed_immediate_registrations)"
  "dp_immediate (es_notifications event_sender_of_add_to) = Map.empty"
  "es_immediate event_sender_of_add_to = fst ` set feed_immediate_registrations"
  by (simp_all add: registered Let_def)

lemma sender_group:
  "dp_group (es_feed event_sender_of_add_to) = [action_gallery_updated \<mapsto> FeedHandler]"
  "dp_group (es_notifications event_sender_of_add_to) = Map.empty"
  "es_group event_sender_of_add_to = {action_gallery_updated}"
  by (simp_all add: registered Let_def)

lemma views_registered:
  "dp_delayed (es_feed event_sender_of_add_to) action_viewed_gallery = None"
  "dp_delayed (es_notifications event_sender_of_add_to) action_viewed_gallery = Some NotificationHandler"
  by (simp_all add: sender_delayed feed_delayed_registrations_def notification_registrations_def notif_action_defs
      action_defs action_user_created_def action_user_posted_def)

section \<open>Views\<close>

context notification_table
begin

lemma viewed_handle_other:
  assumes ids: "distinct (map no_id (table s))" and n: "no_action n = action_viewed_gallery" "no_owner_id n \<noteq> owner"
    and week: "beginning_of_week (nw_clock w) (nw_now w s) = t0"
  shows "week_rows t owner (table (snd (viewed_handle ul w n s))) = week_rows t owner (table s) \<and>
    distinct (map no_id (table (snd (viewed_handle ul w n s))))"
proof -
  obtain notifs s1 where after: "or_else (nw_after w (no_owner_id n) action_viewed_gallery t0) [] s = (Ok notifs, s1) \<and>
      set notifs \<subseteq> {r \<in> set (table s). no_owner_id r = no_owner_id n} \<and> table s1 = table s \<or>
    (\<exists>p. or_else (nw_after w (no_owner_id n) action_viewed_gallery t0) [] s = (Panic p, s1) \<and> table s1 = table s)"
  proof (cases "nw_after w (no_owner_id n) action_viewed_gallery t0 s")
    case (Pair rs s1)
    with read_after [of "no_owner_id n" action_viewed_gallery t0 s] leavesD [OF reads(3) Pair] that
    show ?thesis by (cases rs) (auto simp: or_else_def)
  qed
  have quiet: "no_action (n\<lparr>no_data := d\<rparr>) \<noteq> action_new_tokens_received" for d
    by (simp add: n(1) notif_action_defs)
  have inserted: "week_rows t owner (table (snd (insert_and_publish_notif ul w m s1))) = week_rows t owner (table s) \<and>
      distinct (map no_id (table (snd (insert_and_publish_notif ul w m s1))))"
    if "table s1 = table s" "m = n\<lparr>no_data := d\<rparr>" for m d
    using table_after_insert [of m ul s1] that ids n quiet [of d] by (auto simp: week_rows_def)
  have updated: "week_rows t owner (table (snd (update_and_publish_notif ul w m recent s1))) = week_rows t owner (table s) \<and>
      distinct (map no_id (table (snd (update_and_publish_notif ul w m recent s1))))"
    if t: "table s1 = table s" and m: "m = n\<lparr>no_data := d\<rparr>" and r: "recent \<in> set (table s)" "no_owner_id recent = no_owner_id n" for m d recent
  proof -
    have "updated_row u x = x" if "x \<in> set (table s)" "no_owner_id x = owner" "un_id u = no_id recent" for u x
    proof -
      have inj: "inj_on no_id (set (table s))" using ids by (simp add: distinct_map)
      have "no_id x \<noteq> no_id recent" using inj_onD [OF inj _ that(1) r(1)] that(2) r(2) n(2) by auto
      then show ?thesis by (simp add: updated_row_def that(3))
    qed
    then have same: "week_rows t owner (map (updated_row u) (table s)) = week_rows t owner (table s)" if "un_id u = no_id recent" for u
      using that by (simp add: week_rows_def filter_map o_def) (rule map_idI, simp)
    have "no_action m \<noteq> action_new_tokens_received" using quiet m by simp
    from table_after_update_and_publish [OF this, of ul recent s1] consider
      "table (snd (update_and_publish_notif ul w m recent s1)) = table s"
    | u where "table (snd (update_and_publish_notif ul w m recent s1)) = map (updated_row u) (table s)" "un_id u = no_id recent"
      unfolding t by force
    then show ?thesis by cases (simp_all add: same ids o_def)
  qed
  from after show ?thesis
  proof
    assume a: "or_else (nw_after w (no_owner_id n) action_viewed_gallery t0) [] s = (Ok notifs, s1) \<and>
      set notifs \<subseteq> {r \<in> set (table s). no_owner_id r = no_owner_id n} \<and> table s1 = table s"
    then have step: "viewed_handle ul w n s = (case notifs of [] \<Rightarrow> insert_and_publish_notif ul w n s1
       | recent # _ \<Rightarrow> if time_since (nw_now w s1) (no_created_at recent) < view_window
           then update_and_publish_notif ul w (n\<lparr>no_data := new_viewers notifs (no_data n)\<rparr>) recent s1
           else insert_and_publish_notif ul w (n\<lparr>no_data := new_viewers notifs (no_data n)\<rparr>) s1)"
      by (simp add: viewed_handle_def week n(1) act_then_after [of "or_else _ _" s] Let_def split: list.split)
    show ?thesis
      unfolding step using a inserted [of n "no_data n"] by (auto simp: inserted updated split: list.split)
  next
    assume "\<exists>p. or_else (nw_after w (no_owner_id n) action_viewed_gallery t0) [] s = (Panic p, s1) \<and> table s1 = table s"
    then show ?thesis using ids by (auto simp: viewed_handle_def week n(1) act_then_apply)
  qed
qed

lemma dispatch_keeps_all_viewers:
  assumes once: "\<forall>owner. viewers_once t0 owner (table s)" and n: "no_action n = action_viewed_gallery"
    "distinct (authed_of n)" "distinct (unauthed_of n)"
    and week: "\<And>s. beginning_of_week (nw_clock w) (nw_now w s) = t0"
    and answered: "\<And>owner s. is_ok (fst (nw_after w owner action_viewed_gallery t0 s))"
  shows "\<forall>owner. viewers_once t0 owner (table (snd (dispatch_notif ul w order n s)))"
proof
  fix owner
  show "viewers_once t0 owner (table (snd (dispatch_notif ul w order n s)))"
  proof (cases "no_owner_id n = owner")
    case True
    show ?thesis by (rule dispatch_keeps_viewers) (use assms True in auto)
  next
    case False
    show ?thesis
    proof (rule table_after_dispatch)
      show "handler_of (no_action n) = Some Viewed" using n by (simp add: handler_of_def notif_action_defs)
      fix t assume t: "table t = table s"
      have v: "viewers_once t0 owner (table t)" using once t by simp
      with viewed_handle_other [of t n owner t0 t0 ul] n(1) False week
      show "viewers_once t0 owner (table (snd (handle_notif ul w order Viewed n t)))"
        by (simp add: viewers_once_def)
    qed
  qed
qed

end

lemma fst_invariant: "leaves fst m \<Longrightarrow> keeps (\<lambda>s. P (live_rows s)) m"
  by (simp add: leaves_def keeps_def live_rows_def)

lemma keeps_both: "keeps I m \<Longrightarrow> keeps I n \<Longrightarrow> keeps I (both_acts m n)"
  unfolding both_acts_def by (intro keeps_then keeps_attempt keeps_give)

lemma keeps_then_result:
  assumes "keeps I m" and "\<And>s x s1. m s = (Ok x, s1) \<Longrightarrow> keeps I (f x)"
  shows "keeps I (act_then m f)"
  unfolding keeps_def
proof (intro allI impI)
  fix s assume "I s"
  with assms(1) have "I (snd (m s))" by (simp add: keeps_def)
  then show "I (snd (act_then m f s))"
    using assms(2) [of s _ "snd (m s)"] by (cases "m s"; cases "fst (m s)") (auto simp: act_then_apply keeps_def)
qed

text \<open>
  A dispatch keeps what the handlers of the two dispatchers keep, on the event as it is stored.
\<close>

lemma dispatch_keeps:
  assumes "\<And>x. stored_as e x \<Longrightarrow> keeps (\<lambda>s. P (live_rows s)) (dispatcher_delayed (ops_on_all_tables eb ops) notify (es_feed sender) x)"
    and "\<And>x. stored_as e x \<Longrightarrow> keeps (\<lambda>s. P (live_rows s)) (dispatcher_delayed (ops_on_all_tables eb ops) notify (es_notifications sender) x)"
  shows "keeps (\<lambda>s. P (live_rows s)) (dispatch_event (ops_on_all_tables eb ops) notify sender e)"
proof -
  have "keeps (\<lambda>s. P (live_rows s)) (act_then (add_event (eo_repo (ops_on_all_tables eb ops)) e) (\<lambda>stored.
         let feed = dispatcher_delayed (ops_on_all_tables eb ops) notify (es_feed sender) stored;
             notifications = dispatcher_delayed (ops_on_all_tables eb ops) notify (es_notifications sender) stored
         in if b then both_acts feed notifications else both_acts notifications feed))" for b
  proof (rule keeps_then_result)
    show "keeps (\<lambda>s. P (live_rows s)) (add_event (eo_repo (ops_on_all_tables eb ops)) e)"
      unfolding ops_on_all_tables_def by (rule fst_invariant [OF added_leaves])
    fix s x s1 assume "add_event (eo_repo (ops_on_all_tables eb ops)) e s = (Ok x, s1)"
    then have "stored_as e x" by (rule all_events.added)
    from assms [OF this] show "keeps (\<lambda>s. P (live_rows s)) (let feed = dispatcher_delayed (ops_on_all_tables eb ops) notify (es_feed sender) x;
             notifications = dispatcher_delayed (ops_on_all_tables eb ops) notify (es_notifications sender) x
         in if b then both_acts feed notifications else both_acts notifications feed)"
      by (simp add: keeps_both Let_def)
  qed
  then show ?thesis
    unfolding dispatch_event_def push_event_def dispatch_delayed_def
    by (intro keeps_detached keeps_or_else keeps_then [OF keeps_give]) simp
qed

text \<open>
  Property C8. Views reach the notifications once: whatever view events are dispatched on the
  tables, in whatever order their handlers end and whatever fails outside, as long as the week
  lasts and the table of notifications answers, every viewer of every owner's galleries stays in
  at most one row of the owner's views of the week.
\<close>

theorem view_events_counted_once:
  assumes "\<forall>owner. viewers_once t0 owner (live_rows s)" and "answers db"
    and "\<forall>b. beginning_of_week (nw_clock w) (nw_now w b) = t0"
    and "\<forall>e \<in> set es. ev_action e = action_viewed_gallery"
  shows "viewers_once t0 owner (live_rows (snd
    (each (dispatch_event (ops_on_all_tables eb ops) (notify_on_tables ul db w order) event_sender_of_add_to) es s)))"
proof -
  let ?I = "\<lambda>s. \<forall>owner. viewers_once t0 owner (live_rows s)"
  let ?ops = "ops_on_all_tables eb ops" and ?notify = "notify_on_tables ul db w order"
  have week: "beginning_of_week (nw_clock (on_tables (beside_db db) (beside_world w))) (nw_now (on_tables (beside_db db) (beside_world w)) s) = t0" for s
    by (simp add: on_tables_def beside_world_def assms(3))
  have notified: "keeps ?I (?notify (notification_of_event who x))" if "ev_action x = action_viewed_gallery" for who x
    unfolding keeps_def notify_on_tables_def
    using that by (intro allI impI table.dispatch_keeps_all_viewers keeps_notifications_after week)
      (auto simp: assms(2) notification_of_event_def authed_of_def unauthed_of_def create_notification_data_for_event_def)
  have "keeps ?I (dispatch_event ?ops ?notify event_sender_of_add_to e)" if "e \<in> set es" for e
  proof (rule dispatch_keeps [where P = "\<lambda>rows. \<forall>owner. viewers_once t0 owner rows"])
    fix x assume "stored_as e x"
    with that assms(4) have x: "ev_action x = action_viewed_gallery" by (simp add: stored_as_def)
    then show "keeps ?I (dispatcher_delayed ?ops ?notify (es_feed event_sender_of_add_to) x)"
      by (simp add: dispatcher_delayed_def views_registered)
    have "keeps ?I (find_owner_for_notification_from_event ?ops x)"
      unfolding ops_on_all_tables_def by (rule fst_invariant [OF owner_leaves])
    then show "keeps ?I (dispatcher_delayed ?ops ?notify (es_notifications event_sender_of_add_to) x)"
      using x by (simp add: dispatcher_delayed_def views_registered notification_handle_delayed_def keeps_then notified)
  qed
  then have "keeps ?I (each (dispatch_event ?ops ?notify event_sender_of_add_to) es)" by (rule keeps_each)
  with assms(1) show ?thesis unfolding keeps_def by blast
qed

definition sample_ops :: "int event_ops" where
  "sample_ops = \<lparr>eo_repo = \<lparr>er_new_id = \<lambda>b. (Ok (''e'' @ itoa b), b + 1), er_insert = \<lambda>row b. (Err ErrNoRows, b)\<rparr>,
     eo_feed = \<lambda>b. feed_env_on (<) 60 (\<lambda>_. Ok False) (\<lambda>_. []) ''f'' \<lparr>ft_events = [], ft_feed = []\<rparr>, eo_feed_added = \<lambda>f b. b,
     eo_set_captions = \<lambda>c g b. (Ok (), b), eo_feed_exists = \<lambda>g b. (Ok False, b), eo_set_feed_caption = \<lambda>g b. (Err ErrNoRows, b),
     eo_feed_task = \<lambda>i b. (Ok (), b), eo_feedbot_task = \<lambda>i a b. (Ok (), b), eo_slack_task = \<lambda>i b. (Ok (), b),
     eo_gallery_owner = \<lambda>i b. (Ok ''ann'', b), eo_comment_actor = \<lambda>i b. (Ok ''ann'', b), eo_feed_event_owner = \<lambda>i b. (Ok ''ann'', b),
     eo_post = \<lambda>i b. (Ok (''ann'', [''t'']), b), eo_token_owner = \<lambda>i b. (Ok ''ann'', b), eo_creators = \<lambda>i b. (Ok [(''eve'', i)], b),
     eo_token_definitions = \<lambda>is b. (Ok (map Inr is), b), eo_communities = \<lambda>is b. (Ok (map (\<lambda>i. Inr [i]) is), b),
     eo_all_creators = \<lambda>is b. (Ok (map (\<lambda>i. Inr [(''eve'', i)]) is), b), eo_count_posts = \<lambda>u b. (Ok 1, b),
     eo_followers = \<lambda>u b. (Ok [''bob''], b), eo_farcaster_id = \<lambda>u b. (Ok ''7'', b), eo_farcaster_followers = \<lambda>i b. (Ok [''8''], b),
     eo_users_by_farcaster = \<lambda>is b. (Ok [''bob'', ''eve''], b), eo_recipients = \<lambda>ns. ns, eo_arrival = \<lambda>es. es, eo_feed_first = True\<rparr>"

definition sample_event_db :: "int event_db" where
  "sample_event_db = \<lparr>eb_connect = \<lambda>b. (Ok (), b), eb_refers = \<lambda>e b. (Ok (), b), eb_now = \<lambda>b. 4 * 10 ^ 12 + b * 10 ^ 6, eb_id_less = (<),
     eb_window_seconds = 60, eb_blocked = \<lambda>b u. Ok False, eb_map_order = \<lambda>_. [], eb_feed_id = \<lambda>b. ''f'' @ itoa b\<rparr>"

definition view_event :: "string \<Rightarrow> db_event" where
  "view_event u = zero_db_event\<lparr>ev_actor_id := \<lparr>ns_string = u, ns_valid = True\<rparr>, ev_action := action_viewed_gallery,
     de_resource_type := resource_gallery, ev_gallery_id := ''g''\<rparr>"

definition no_tables :: "int all_tables" where
  "no_tables = ([], \<lparr>ft_events = [], ft_feed = []\<rparr>, 0)"

theorem view_events_counted_once_witness:
  "viewers_once (- (4 * 24 * hour)) ''ann'' (live_rows (snd (each (dispatch_event (ops_on_all_tables sample_event_db sample_ops)
     (notify_on_tables id sample_db sample_world id) event_sender_of_add_to) [view_event ''bob'', view_event ''cat'', view_event ''bob''] no_tables)))"
  by (rule view_events_counted_once)
    (simp_all add: sample_answers no_tables_def live_rows_def viewers_once_def each_once_def week_rows_def view_event_def
      sample_world_def beginning_of_week_def week_start_day_def weekday_def hour_def minute_def)

section \<open>Events of one's own\<close>




section \<open>What is stored\<close>

text \<open>
  Property C12. An event that is added is the newest row of the table, under an id that no other
  row has, not deleted, by the actor, with the action and the type of resource of the event that
  was given, which is one of the nine types there are. Its subject is the given subject, but the
  given gallery or community for events about these. The column of its type holds the subject
  or, for admires, comments and posts, the given admire, comment or post (and, for posts, the
  user). Group, caption and data are those given, and none for posts.
\<close>

theorem added_event_typed:
  assumes "add_event (eo_repo (ops_on_tables eb ops)) e s = (Ok x, s1)"
  shows "stored_as e x \<and> ft_events (fst s1) = x # ft_events (fst s) \<and> ev_id x \<notin> ev_id ` set (ft_events (fst s))"
proof -
  have *: "ft_events (fst s1) = x # ft_events (fst s) \<and> ev_id x \<notin> ev_id ` set (ft_events (fst s))"
    if "insert_event (eo_repo (ops_on_tables eb ops)) query params s = (Ok x, s1)" for query params
    using that by (cases s) (auto simp: insert_event_def ops_on_tables_def insert_event_row_def on_events_def act_then_Ok_iff beside_apply
        split: if_splits prod.splits)
  have "de_resource_type e \<in> {0, 1, 2, 3, 4, 5, 6, 7, 8}"
    using stored_events.added [OF assms] by (auto simp: stored_as_def)
  then show ?thesis
    using assms stored_events.added [OF assms]
    by - (elim insertE emptyE; simp add: add_event_def event_adds resource_defs; drule *; simp)
qed

definition one_event :: "int event_state" where
  "one_event = (\<lparr>ft_events = [view_event ''cat''], ft_feed = []\<rparr>, 0)"

theorem added_event_typed_witness:
  "\<exists>x s1. add_event (eo_repo (ops_on_tables sample_event_db sample_ops)) (view_event ''bob'') one_event = (Ok x, s1) \<and>
     ft_events (fst s1) = [x, view_event ''cat''] \<and> ev_action x = action_viewed_gallery \<and>
     ev_subject_id x = ev_gallery_id (view_event ''bob'') \<and> ev_gallery_id x = ev_gallery_id (view_event ''bob'')"
proof -
  have "is_ok (fst (add_event (eo_repo (ops_on_tables sample_event_db sample_ops)) (view_event ''bob'') one_event))"
    by code_simp
  then obtain x s1 where *: "add_event (eo_repo (ops_on_tables sample_event_db sample_ops)) (view_event ''bob'') one_event = (Ok x, s1)"
    by (metis is_ok_iff prod.collapse)
  from added_event_typed [OF *] * show ?thesis
    by (auto simp: one_event_def stored_as_def subject_of_def names_its_object_def view_event_def resource_defs)
qed

section \<open>Posts\<close>

text \<open>A map of recipients has an entry for each user, whose notification is for that user.\<close>

definition recipients_ok :: "string \<Rightarrow> recipients \<Rightarrow> bool" where
  "recipients_ok a m \<longleftrightarrow> distinct (map fst m) \<and> (\<forall>(u, n) \<in> set m. no_owner_id n = u \<and> no_action n = a)"

lemma update_recipient:
  assumes "recipients_ok a m" and "no_owner_id n = u" and "no_action n = a"
  shows "recipients_ok a (AList.update u n m) \<and> fst ` set (AList.update u n m) = insert u (fst ` set m)"
proof -
  have "set (AList.update u n m) \<subseteq> insert (u, n) (set m)"
    by (induction m) auto
  moreover have "distinct (map fst (AList.update u n m))" using assms(1) by (simp add: recipients_ok_def AList.distinct_update)
  ultimately show ?thesis using assms by (auto simp: recipients_ok_def AList.dom_update)
qed

lemma fold_recipients:
  assumes "recipients_ok a m" and "\<And>x. x \<in> set xs \<Longrightarrow> no_owner_id (render x) = user x \<and> no_action (render x) = a"
  shows "recipients_ok a (fold (\<lambda>x m. if keep x then AList.update (user x) (render x) m else m) xs m) \<and>
    fst ` set (fold (\<lambda>x m. if keep x then AList.update (user x) (render x) m else m) xs m) = user ` set (filter keep xs) \<union> fst ` set m"
  using assms
proof (induction xs arbitrary: m)
  case (Cons x xs)
  show ?case
  proof (cases "keep x")
    case True
    with update_recipient [OF Cons.prems(1), of "render x" "user x"] Cons.prems(2) [of x]
      Cons.IH [of "AList.update (user x) (render x) m"] Cons.prems(2)
    show ?thesis by auto
  qed (use Cons.IH [of m] Cons.prems in auto)
qed simp

text \<open>What holds of every value that an act returns.\<close>

definition returns :: "('s, 'a) act \<Rightarrow> ('a \<Rightarrow> bool) \<Rightarrow> bool" where
  "returns m P \<longleftrightarrow> (\<forall>s x s1. m s = (Ok x, s1) \<longrightarrow> P x)"

lemma returns_then: "(\<And>x. returns (f x) P) \<Longrightarrow> returns (act_then m f) P"
  by (auto simp: returns_def act_then_Ok_iff)

lemma returns_give [simp]: "returns (give r) P \<longleftrightarrow> (\<forall>x. r = Ok x \<longrightarrow> P x)"
  by (auto simp: returns_def)

lemma your_work_ok: "returns (recipients_of_your_work ops e) (recipients_ok action_user_posted_your_work)"
proof -
  have "recipients_ok action_user_posted_your_work (fold (\<lambda>c m. if fst c \<noteq> '''' \<and> fst c \<noteq> author
      then AList.update (fst c) (your_work_notification e c) m else m) cs [])" for author cs
    using fold_recipients [of action_user_posted_your_work "[]" cs "your_work_notification e" fst "\<lambda>c. fst c \<noteq> '''' \<and> fst c \<noteq> author"]
    by (auto simp: recipients_ok_def your_work_notification_def split_def)
  then show ?thesis
    unfolding recipients_of_your_work_def by (intro returns_then) (auto intro!: returns_then split: prod.split)
qed

lemma first_post_map:
  "recipients_ok action_user_posted_first_post (fold (\<lambda>u. AList.update u (first_post_notification e u)) us []) \<and>
   fst ` set (fold (\<lambda>u. AList.update u (first_post_notification e u)) us []) = set us"
  using fold_recipients [of action_user_posted_first_post "[]" us "first_post_notification e" "\<lambda>u. u" "\<lambda>u. True"]
  by (simp add: recipients_ok_def first_post_notification_def)

lemma first_post_ok: "returns (recipients_of_first_post ops e) (recipients_ok action_user_posted_first_post)"
proof -
  have "recipients_ok action_user_posted_first_post []" by (simp add: recipients_ok_def)
  then show ?thesis
    unfolding recipients_of_first_post_def Let_def
    using first_post_map by (intro returns_then) (auto intro!: returns_then simp del: fold_append split: sum.split)
qed

lemma merged_recipients:
  assumes "recipients_ok a m" and "recipients_ok b f"
  shows "distinct (map fst (fold (\<lambda>(u, n). AList.update u n) m f)) \<and>
    map_of (fold (\<lambda>(u, n). AList.update u n) m f) = map_of f ++ map_of m"
proof -
  have gen: "distinct (map fst (fold (\<lambda>(u, n). AList.update u n) m f)) \<and>
      map_of (fold (\<lambda>(u, n). AList.update u n) m f) = map_of f ++ map_of (rev m)" if "distinct (map fst f)" for m f
    using that
  proof (induction m arbitrary: f)
    case (Cons x m)
    obtain u n where x: "x = (u, n)" by (cases x)
    have "distinct (map fst (AList.update u n f))" using Cons.prems by (rule AList.distinct_update)
    note IH = Cons.IH [OF this]
    have "map_of (fold (\<lambda>(u, n). AList.update u n) m (AList.update u n f)) = map_of f ++ [u \<mapsto> n] ++ map_of (rev m)"
      unfolding IH [THEN conjunct2] AList.update_conv' map_add_upd map_add_empty by (rule refl)
    also have "\<dots> = map_of f ++ map_of (rev (x # m))" by (simp only: x rev.simps map_of_append map_of.simps map_add_assoc fst_conv snd_conv)
    finally show ?case using IH by (simp add: x)
  qed simp
  have "map_of (rev m) = map_of m" using assms(1) by (subst map_of_inject_set) (simp_all add: recipients_ok_def rev_map [symmetric])
  with gen [of f m] assms(2) show ?thesis by (simp add: recipients_ok_def)
qed

text \<open>
  Property C13. A post is told to each user once: when the two lists of recipients are found, the
  notifications are those of an association of the users to one notification each, in which the
  creators hear that their work was posted and only the others that it is a first post.
\<close>

theorem posted_notifies_each_once:
  assumes "recipients_of_your_work ops e s = (Ok your_work, s1)" and "recipients_of_first_post ops e s1 = (Ok first_post, s2)"
  shows "\<exists>ns. user_posted_handle_delayed ops notify e s = each (\<lambda>n. or_else (notify n) ()) (eo_recipients ops ns) s2 \<and>
    distinct (map no_owner_id ns) \<and> no_owner_id ` set ns = fst ` set your_work \<union> fst ` set first_post \<and>
    filter (\<lambda>n. no_action n \<noteq> (if no_owner_id n \<in> fst ` set your_work then action_user_posted_your_work
      else action_user_posted_first_post)) ns = []"
proof -
  let ?m = "fold (\<lambda>(u, n). AList.update u n) your_work first_post"
  have ok: "recipients_ok action_user_posted_your_work your_work" "recipients_ok action_user_posted_first_post first_post"
    using your_work_ok [of ops e] first_post_ok [of ops e] assms unfolding returns_def by blast+
  then have d: "distinct (map fst your_work)" "distinct (map fst first_post)" by (simp_all add: recipients_ok_def)
  have m: "distinct (map fst ?m)" "map_of ?m = map_of first_post ++ map_of your_work"
    using merged_recipients [OF ok] by simp_all
  have entry: "no_owner_id n = u \<and> no_action n = (if u \<in> fst ` set your_work then action_user_posted_your_work
      else action_user_posted_first_post)" if "(u, n) \<in> set ?m" for u n
  proof -
    have "(map_of first_post ++ map_of your_work) u = Some n" using that m by (metis map_of_is_SomeI)
    then have "map_of your_work u = Some n \<or> u \<notin> fst ` set your_work \<and> map_of first_post u = Some n"
      by (auto simp: map_add_Some_iff map_of_eq_None_iff)
    then show ?thesis using ok by (auto simp: recipients_ok_def image_iff dest!: map_of_SomeD)
  qed
  have owners: "map no_owner_id (map snd ?m) = map fst ?m"
    using entry by (auto simp del: fold_simps)
  have keys: "fst ` set ?m = fst ` set your_work \<union> fst ` set first_post"
    using m(2) by (metis dom_map_add dom_map_of_conv_image_fst)
  show ?thesis
  proof (intro exI conjI)
    show "user_posted_handle_delayed ops notify e s = each (\<lambda>n. or_else (notify n) ()) (eo_recipients ops (map snd ?m)) s2"
      using assms by (simp add: user_posted_handle_delayed_def act_then_apply or_else_def)
    show "distinct (map no_owner_id (map snd ?m))" unfolding owners by (rule m(1))
    show "no_owner_id ` set (map snd ?m) = fst ` set your_work \<union> fst ` set first_post"
      using keys owners by (metis list.set_map)
    show "filter (\<lambda>n. no_action n \<noteq> (if no_owner_id n \<in> fst ` set your_work then action_user_posted_your_work
      else action_user_posted_first_post)) (map snd ?m) = []"
    proof -
      have "no_action n = (if no_owner_id n \<in> fst ` set your_work then action_user_posted_your_work
        else action_user_posted_first_post)" if "n \<in> set (map snd ?m)" for n
      proof -
        from that obtain u where "(u, n) \<in> set ?m" by auto
        from entry [OF this] show ?thesis by simp
      qed
      then show ?thesis unfolding filter_empty_conv by blast
    qed
  qed
qed

definition posted_event :: db_event where
  "posted_event = zero_db_event\<lparr>ev_id := ''e1'', ev_actor_id := \<lparr>ns_string = ''ann'', ns_valid = True\<rparr>, ev_action := action_user_posted,
     de_resource_type := resource_post, de_post_id := ''p''\<rparr>"

lemma posted_samples:
  "recipients_of_your_work sample_ops posted_event 0 = (Ok [(''eve'', your_work_notification posted_event (''eve'', ''t''))], 0)"
  "recipients_of_first_post sample_ops posted_event 0 =
     (Ok [(''bob'', first_post_notification posted_event ''bob''), (''eve'', first_post_notification posted_event ''eve'')], 0)"
  by (simp_all add: recipients_of_your_work_def recipients_of_first_post_def sample_ops_def act_then_apply attempt_def loaded_def
      posted_event_def Let_def)

definition count_notices :: "int notify" where
  "count_notices n = (\<lambda>s. (Ok (), s + 1))"

theorem posted_notifies_each_once_witness:
  "\<exists>ns. user_posted_handle_delayed sample_ops count_notices posted_event 0 = each (\<lambda>n. or_else (count_notices n) ()) ns 0 \<and>
     distinct (map no_owner_id ns) \<and> no_owner_id ` set ns = {''eve'', ''bob''}"
  using posted_notifies_each_once [OF posted_samples, of count_notices] by (auto simp: sample_ops_def)

text \<open>
  Property C14. The followers who hear of a first post are those on farcaster as well as those on
  Gallery, but only when the author is on farcaster too: otherwise nobody hears of it, whoever
  follows the author on Gallery.
\<close>

theorem first_post_needs_farcaster:
  assumes "eo_count_posts ops (ns_string (ev_actor_id e)) s = (Ok n, s1)" and "eo_followers ops (ns_string (ev_actor_id e)) s1 = (Ok followers, s2)"
    and "eo_farcaster_id ops (ns_string (ev_actor_id e)) s2 = (r, s3)" and "n = 1"
  shows "case r of
      Ok fid \<Rightarrow> \<forall>fids s4 users s5. eo_farcaster_followers ops fid s3 = (Ok fids, s4) \<longrightarrow> eo_users_by_farcaster ops fids s4 = (Ok users, s5) \<longrightarrow>
        (\<exists>m. recipients_of_first_post ops e s = (Ok m, s5) \<and> fst ` set m = set followers \<union> set users)
    | Err err \<Rightarrow> recipients_of_first_post ops e s = (if err = ErrNotOnFarcaster then Ok [] else Err err, s3)
    | Panic p \<Rightarrow> recipients_of_first_post ops e s = (Panic p, s3)"
  using assms first_post_map
  by (auto simp: recipients_of_first_post_def act_then_apply attempt_def Let_def simp del: fold_append split: outcome.split)

theorem first_post_needs_farcaster_witness:
  "recipients_of_first_post (sample_ops\<lparr>eo_farcaster_id := \<lambda>u b. (Err ErrNotOnFarcaster, b)\<rparr>) posted_event 0 = (Ok [], 0) \<and>
   fst (eo_followers sample_ops ''ann'' 0) = Ok [''bob'']"
  using first_post_needs_farcaster [of "sample_ops\<lparr>eo_farcaster_id := \<lambda>u b. (Err ErrNotOnFarcaster, b)\<rparr>" posted_event 0 1 0
      "[''bob'']" 0 "Err ErrNotOnFarcaster" 0]
  by (simp add: sample_ops_def)

section \<open>Captions\<close>

text \<open>
  Property C15. A group of two or more events cannot be dispatched again: once the feed has an
  event for it, the statement that copies the caption compares a column with a subquery of several
  rows and fails, after the captions of the events were set.
\<close>

theorem group_dispatched_again_fails:
  assumes "\<forall>c. fst (eb_connect eb c) = Ok ()"
    and "is_feed_event_exists_for_group (group_text g) (ft_feed t)"
    and "1 < length (filter (\<lambda>e. null_is (ev_group_id e) (group_text g)) (ft_events t))"
  shows "fst (dispatch_group (ops_on_tables eb ops) event_sender_of_add_to g action_gallery_updated caption (t, c)) = Err more_than_one_row"
proof -
  let ?ops = "ops_on_tables eb ops"
  have ask: "\<exists>c1. on_events eb f (u, c) = (fst (f u), (snd (f u), c1))" for f :: "feed_tables \<Rightarrow> 'z outcome \<times> feed_tables" and u c
    using assms(1) by (cases "eb_connect eb c") (auto simp: on_events_def act_then_apply beside_apply split: prod.split outcome.split dest!: spec [of _ c])
  have none: "dispatcher_group ?ops (es_notifications event_sender_of_add_to) g action_gallery_updated s = (Ok None, s)" for s
    by (simp add: dispatcher_group_def sender_group is_feed_handler_def)
  have group: "fst (dispatcher_group ?ops (es_feed event_sender_of_add_to) g action_gallery_updated (u, c)) = Err more_than_one_row"
    if u: "is_feed_event_exists_for_group (group_text g) (ft_feed u)"
      "1 < length (filter (\<lambda>e. null_is (ev_group_id e) (group_text g)) (ft_events u))" for u c
  proof -
    obtain c1 where exists: "eo_feed_exists ?ops (group_text g) (u, c) = (Ok True, (u, c1))"
      using ask [of "\<lambda>t. (Ok (is_feed_event_exists_for_group (group_text g) (ft_feed t)), t)" u c] u(1) by (auto simp: ops_on_tables_def)
    have "fst (set_feed_caption_on (group_text g) u) = Err more_than_one_row"
      using u by (auto simp: set_feed_caption_on_def update_feed_event_caption_by_group_def is_feed_event_exists_for_group_def Let_def)
    then have "fst (eo_set_feed_caption ?ops (group_text g) (u, c1)) = Err more_than_one_row"
      using ask [of "set_feed_caption_on (group_text g)" u c1] by (auto simp: ops_on_tables_def)
    with exists show ?thesis
      by (auto simp: dispatcher_group_def sender_group is_feed_handler_def feed_handle_group_def act_then_apply split: outcome.split)
  qed
  have "\<exists>u c1. (if caption \<noteq> None then eo_set_captions ?ops (str_ptr_to_null_str caption) (group_text g) else give (Ok ())) (t, c) = (Ok (), (u, c1)) \<and>
      ft_feed u = ft_feed t \<and> length (filter (\<lambda>e. null_is (ev_group_id e) (group_text g)) (ft_events u)) =
        length (filter (\<lambda>e. null_is (ev_group_id e) (group_text g)) (ft_events t))"
  proof (cases caption)
    case (Some x)
    let ?f = "\<lambda>t. (Ok (), t\<lparr>ft_events := update_event_caption_by_group (str_ptr_to_null_str caption) (group_text g) (ft_events t)\<rparr>)"
    obtain c1 where "eo_set_captions ?ops (str_ptr_to_null_str caption) (group_text g) (t, c) = (Ok (), (snd (?f t), c1))"
      using ask [of ?f t c] by (auto simp: ops_on_tables_def)
    then show ?thesis
      by (auto simp: Some update_event_caption_by_group_def filter_map o_def intro!: arg_cong [where f = length] filter_cong)
  qed auto
  then obtain u c1 where u: "(if caption \<noteq> None then eo_set_captions ?ops (str_ptr_to_null_str caption) (group_text g) else give (Ok ())) (t, c) = (Ok (), (u, c1))"
    "ft_feed u = ft_feed t" "length (filter (\<lambda>e. null_is (ev_group_id e) (group_text g)) (ft_events u)) =
        length (filter (\<lambda>e. null_is (ev_group_id e) (group_text g)) (ft_events t))" by blast
  have "fst (dispatcher_group ?ops (es_feed event_sender_of_add_to) g action_gallery_updated (u, c1)) = Err more_than_one_row"
    using group [of u c1] u(2,3) assms(2,3) by simp
  moreover define pre where "pre = (if caption \<noteq> None then eo_set_captions ?ops (str_ptr_to_null_str caption) (group_text g) else give (Ok ()))"
  moreover have "dispatch_group ?ops event_sender_of_add_to g action_gallery_updated caption = act_then pre (\<lambda>_.
      act_then (detached (act_then (dispatcher_group ?ops (es_notifications event_sender_of_add_to) g action_gallery_updated) (\<lambda>_. give (Ok ()))))
      (\<lambda>_. act_then (dispatcher_group ?ops (es_feed event_sender_of_add_to) g action_gallery_updated) (\<lambda>r. give (as_feed_event r))))"
    by (simp add: dispatch_group_def sender_group pre_def)
  moreover have "pre (t, c) = (Ok (), (u, c1))" unfolding pre_def by (rule u(1))
  ultimately show ?thesis by (simp add: act_then_apply detached_def none)
qed

definition gallery_edit :: "string \<Rightarrow> db_event" where
  "gallery_edit i = zero_db_event\<lparr>ev_id := i, ev_actor_id := \<lparr>ns_string = ''u'', ns_valid = True\<rparr>, ev_action := action_gallery_info_updated,
     de_resource_type := resource_gallery, ev_gallery_id := ''g'', ev_group_id := group_text ''x''\<rparr>"

definition edited_tables :: feed_tables where
  "edited_tables = \<lparr>ft_events = [gallery_edit ''a'', gallery_edit ''b''],
     ft_feed = [\<lparr>fv_id = ''f'', fv_owner_id = ''u'', fv_action = action_gallery_updated, fv_event_time = go_time_at 0,
       fv_event_ids = [''a'', ''b''], fv_caption = zero_null_string, fv_group_id = group_text ''x'', fv_user_followed_ids = [],
       fv_user_followed_back = [], fv_gallery = None, fr_deleted = False\<rparr>]\<rparr>"

theorem group_dispatched_again_fails_witness:
  "fst (dispatch_group (ops_on_tables sample_event_db sample_ops) event_sender_of_add_to ''x'' action_gallery_updated (Some ''new'')
     (edited_tables, 0)) = Err more_than_one_row"
  by (rule group_dispatched_again_fails)
    (simp_all add: edited_tables_def gallery_edit_def is_feed_event_exists_for_group_def sample_event_db_def group_text_def
      null_is_def str_ptr_to_null_str_def)

text \<open>
  Property C16. A captioned event whose action the feed handles at once is stored with its caption
  and becomes an event of the feed in the same call: the result, its errors and panics are those of
  these two steps, and the assertion about the type of the result never fails.
\<close>

theorem captioned_is_stored_and_built:
  assumes "ev_action e \<in> es_immediate event_sender_of_add_to" and "\<forall>es. mset (eo_arrival ops es) = mset es"
  shows "dispatch_captioned (ops_on_tables eb ops) notify event_sender_of_add_to e (Some c) =
    act_then (add_event (eo_repo (ops_on_tables eb ops)) (e\<lparr>ev_caption := str_ptr_to_null_str (Some c)\<rparr>))
      (feed_handle_immediate (ops_on_tables eb ops))"
proof
  fix s
  let ?ops = "ops_on_tables eb ops" and ?e = "e\<lparr>ev_caption := str_ptr_to_null_str (Some c)\<rparr>"
  have arrival: "eo_arrival ?ops [] = []" "eo_arrival ?ops [x] = [x]" for x
    using assms(2) [rule_format, of "[]"] assms(2) [rule_format, of "[x]"]
    by (simp_all add: ops_on_tables_def beside_ops_def mset_single_iff_right)
  have feed: "is_feed_handler (dp_immediate (es_feed event_sender_of_add_to) a)" "a \<noteq> ''''"
    if "a \<in> es_immediate event_sender_of_add_to" for a
    using that by (auto simp: sender_immediate feed_immediate_registrations_def is_feed_handler_def action_defs)
  have "dispatch_captioned ?ops notify event_sender_of_add_to e (Some c) s = (case add_event (eo_repo ?ops) ?e s of
      (Ok x, s1) \<Rightarrow> act_then (dispatcher_immediate ?ops (es_feed event_sender_of_add_to) [x]) (\<lambda>r. give (as_feed_event r)) s1
    | (Err err, s1) \<Rightarrow> (Err err, s1) | (Panic p, s1) \<Rightarrow> (Panic p, s1))"
    using assms(1) feed(2) [OF assms(1)]
    by (auto simp: dispatch_captioned_def dispatch_immediate_def validate_event_def event_validator_def act_then_apply detached_def
        dispatcher_immediate_def [of _ "es_notifications _"] sender_immediate(2) is_feed_handler_def arrival
        split: prod.split outcome.split)
  also have "\<dots> = (case add_event (eo_repo ?ops) ?e s of
      (Ok x, s1) \<Rightarrow> feed_handle_immediate ?ops x s1 | (Err err, s1) \<Rightarrow> (Err err, s1) | (Panic p, s1) \<Rightarrow> (Panic p, s1))"
  proof -
    obtain r s1 where Pair: "add_event (eo_repo ?ops) ?e s = (r, s1)" by (rule prod.exhaust)
    show ?thesis
    proof (cases r)
      case (Ok x)
      with Pair have "stored_as ?e x" by (auto intro: stored_events.added)
      then have "is_feed_handler (dp_immediate (es_feed event_sender_of_add_to) (ev_action x))"
        using feed(1) [OF assms(1)] by (simp add: stored_as_def)
      then show ?thesis
        by (cases "feed_handle_immediate ?ops x s1"; cases "fst (feed_handle_immediate ?ops x s1)")
          (simp_all add: Pair Ok dispatcher_immediate_def arrival act_then_apply attempt_def as_feed_event_def)
    qed (simp_all add: Pair)
  qed
  finally show "dispatch_captioned ?ops notify event_sender_of_add_to e (Some c) s =
      act_then (add_event (eo_repo ?ops) ?e) (feed_handle_immediate ?ops) s"
    by (simp add: act_then_def)
qed

theorem captioned_is_stored_and_built_witness:
  "dispatch_captioned (ops_on_tables sample_event_db sample_ops) (\<lambda>n. give (Ok ())) event_sender_of_add_to (gallery_edit '''') (Some ''new'') =
    act_then (add_event (eo_repo (ops_on_tables sample_event_db sample_ops)) ((gallery_edit '''')\<lparr>ev_caption := str_ptr_to_null_str (Some ''new'')\<rparr>))
      (feed_handle_immediate (ops_on_tables sample_event_db sample_ops))"
  by (rule captioned_is_stored_and_built)
    (simp_all add: gallery_edit_def sender_immediate feed_immediate_registrations_def sample_ops_def)

end
