(* ===== verification/GalleryTables.thy ===== *)
theory GalleryTables
  imports EventTables
begin

text \<open>
  Collections of tokens and the galleries that list them: the layouts of
  \<^verbatim>\<open>service/persist/collection.go\<close> and the SQL of \<^verbatim>\<open>db/gen/coredb\<close> and
  \<^verbatim>\<open>service/persist/postgres/collection.go\<close> on the two tables.
\<close>

section \<open>Layouts\<close>

record section_layout =
  sl_columns :: i32
  sl_whitespace :: "int list"

record token_layout =
  tl_columns :: int
  tl_whitespace :: "int list"
  tl_sections :: "int list"
  tl_section_layout :: "section_layout list"

definition min_columns :: int where "min_columns = 0"
definition max_columns :: int where "max_columns = 10"
definition default_columns :: i32 where "default_columns = 3"
definition max_whitespace :: int where "max_whitespace = 1000"
definition max_tokens_per_section :: int where "max_tokens_per_section = 1000"

definition standardize_collection_sections :: "int list \<Rightarrow> int list" where
  "standardize_collection_sections sections =
     (case sections of [] \<Rightarrow> [0] | s # _ \<Rightarrow> if s \<noteq> 0 then 0 # sections else sections)"

text \<open>The number of tokens in a section; \<open>n\<close> is the number of tokens.\<close>

definition tokens_in_section :: "nat \<Rightarrow> nat \<Rightarrow> int list \<Rightarrow> int outcome" where
  "tokens_in_section pos n sections =
     (if pos + 1 \<ge> length sections then
        (if pos \<ge> length sections then Panic IndexRange
         else if sections ! pos < 0 \<or> sections ! pos > int n then Panic SliceBounds
         else Ok (int n - sections ! pos))
      else Ok (sections ! (pos + 1) - sections ! pos))"

fun spaced :: "string list \<Rightarrow> string" where
  "spaced [] = ''''"
| "spaced [x] = x"
| "spaced (x # y # xs) = x @ '' '' @ spaced (y # xs)"

definition invalid_layout :: "string \<Rightarrow> section_layout \<Rightarrow> gerror" where
  "invalid_layout reason l = ErrText (''invalid layout: '' @ reason @ '' - {Columns:'' @ itoa (sint (sl_columns l))
     @ '' Whitespace:['' @ spaced (map itoa (sl_whitespace l)) @ '']}'')"

definition columns_reason :: string where
  "columns_reason = ''columns must be between '' @ itoa min_columns @ ''-'' @ itoa max_columns"

definition whitespace_reason :: string where
  "whitespace_reason = ''up to '' @ itoa max_whitespace @ '' whitespace blocks permitted''"

definition position_reason :: "nat \<Rightarrow> int \<Rightarrow> string" where
  "position_reason i idx = ''position of whitespace at '' @ itoa (int i) @ '' is invalid: '' @ itoa idx"

definition section_reason :: string where
  "section_reason = ''up to '' @ itoa max_tokens_per_section @ '' tokens per section permitted''"

fun bad_whitespace :: "nat \<Rightarrow> int \<Rightarrow> int list \<Rightarrow> (nat \<times> int) option" where
  "bad_whitespace i tokens_in [] = None"
| "bad_whitespace i tokens_in (idx # ws) = (if idx > tokens_in then Some (i, idx) else bad_whitespace (i + 1) tokens_in ws)"

definition validate_section_layout :: "section_layout \<Rightarrow> int \<Rightarrow> section_layout outcome" where
  "validate_section_layout l tokens_in =
     (if sint (sl_columns l) < min_columns \<or> sint (sl_columns l) > max_columns then Err (invalid_layout columns_reason l)
      else (let l1 = (if sl_columns l = 0 then l\<lparr>sl_columns := default_columns\<rparr> else l) in
        if int (length (sl_whitespace l1)) > max_whitespace then Err (invalid_layout whitespace_reason l1)
        else case bad_whitespace 0 tokens_in (sl_whitespace l1) of
          Some (i, idx) \<Rightarrow> Err (invalid_layout (position_reason i idx) l1)
        | None \<Rightarrow> if tokens_in > max_tokens_per_section then Err (invalid_layout section_reason l1) else Ok l1))"

fun validate_sections :: "nat \<Rightarrow> nat \<Rightarrow> int list \<Rightarrow> section_layout list \<Rightarrow> section_layout list outcome" where
  "validate_sections pos n sections [] = Ok []"
| "validate_sections pos n sections (l # ls) =
     bind_out (tokens_in_section pos n sections) (\<lambda>tokens_in.
       bind_out (validate_section_layout l tokens_in) (\<lambda>l1.
         map_ok ((#) l1) (validate_sections (pos + 1) n sections ls)))"

definition validate_layout :: "token_layout \<Rightarrow> string list \<Rightarrow> token_layout outcome" where
  "validate_layout layout tokens =
     map_ok (\<lambda>ls. layout\<lparr>tl_section_layout := ls\<rparr>)
       (validate_sections 0 (length tokens) (tl_sections layout) (tl_section_layout layout))"

section \<open>Rows\<close>

text \<open>Settings are a map from tokens, its entries in any order: whether to render live, and high definition.\<close>

type_synonym token_settings = "(string \<times> bool \<times> bool) list"

text \<open>The columns, without the times; NULL in a list of ids acts as an empty list.\<close>

record collection_row =
  co_id :: string
  co_deleted :: bool
  co_owner :: string
  co_nfts :: "string list"
  co_version :: int
  co_hidden :: bool
  co_note :: null_string
  co_name :: null_string
  co_layout :: token_layout
  co_settings :: token_settings
  co_gallery :: string

record gallery_row =
  ga_id :: string
  ga_deleted :: bool
  ga_owner :: string
  ga_collections :: "string list"
  ga_name :: string
  ga_description :: string
  ga_hidden :: bool
  ga_position :: string

record token_owner_row =
  to_id :: string
  to_owner :: string
  to_deleted :: bool

text \<open>The empty id stands for a featured gallery that is NULL.\<close>

record gallery_tables =
  gt_collections :: "collection_row list"
  gt_galleries :: "gallery_row list"
  gt_tokens :: "token_owner_row list"
  gt_featured :: "string \<Rightarrow> string"

definition on_gallery :: "(gallery_row \<Rightarrow> bool) \<Rightarrow> (gallery_row \<Rightarrow> gallery_row) \<Rightarrow> gallery_tables \<Rightarrow> gallery_tables" where
  "on_gallery p f t = t\<lparr>gt_galleries := map (\<lambda>g. if p g then f g else g) (gt_galleries t)\<rparr>"

definition on_collection :: "(collection_row \<Rightarrow> bool) \<Rightarrow> (collection_row \<Rightarrow> collection_row) \<Rightarrow> gallery_tables \<Rightarrow> gallery_tables" where
  "on_collection p f t = t\<lparr>gt_collections := map (\<lambda>c. if p c then f c else c) (gt_collections t)\<rparr>"

definition first_row :: "'a list \<Rightarrow> 'a outcome" where
  "first_row rows = (case rows of [] \<Rightarrow> Err ErrNoRows | r # _ \<Rightarrow> Ok r)"

section \<open>Reads\<close>

definition live_gallery :: "string \<Rightarrow> gallery_row \<Rightarrow> bool" where
  "live_gallery i g \<longleftrightarrow> ga_id g = i \<and> \<not> ga_deleted g"

definition live_collection :: "string \<Rightarrow> collection_row \<Rightarrow> bool" where
  "live_collection i c \<longleftrightarrow> co_id c = i \<and> \<not> co_deleted c"

definition get_gallery_by_id :: "string \<Rightarrow> gallery_tables \<Rightarrow> gallery_row outcome" where
  "get_gallery_by_id i t = first_row (filter (live_gallery i) (gt_galleries t))"

definition get_collection_by_id :: "string \<Rightarrow> gallery_tables \<Rightarrow> collection_row outcome" where
  "get_collection_by_id i t = first_row (filter (live_collection i) (gt_collections t))"

definition get_collection_tokens :: "string \<Rightarrow> gallery_tables \<Rightarrow> string list outcome" where
  "get_collection_tokens i t = map_ok co_nfts (get_collection_by_id i t)"

definition get_gallery_id_by_collection_id :: "string \<Rightarrow> gallery_tables \<Rightarrow> string outcome" where
  "get_gallery_id_by_collection_id i t = map_ok co_gallery (get_collection_by_id i t)"

definition user_owns_collection :: "string \<Rightarrow> string \<Rightarrow> gallery_tables \<Rightarrow> bool" where
  "user_owns_collection i user t \<longleftrightarrow> (\<exists>c \<in> set (gt_collections t). live_collection i c \<and> co_owner c = user)"

definition user_owns_gallery :: "string \<Rightarrow> string \<Rightarrow> gallery_tables \<Rightarrow> bool" where
  "user_owns_gallery i user t \<longleftrightarrow> (\<exists>g \<in> set (gt_galleries t). live_gallery i g \<and> ga_owner g = user)"

definition check_user_owns_all_tokens :: "string \<Rightarrow> string list \<Rightarrow> gallery_tables \<Rightarrow> bool" where
  "check_user_owns_all_tokens user ids t \<longleftrightarrow>
     length ids = length (filter (\<lambda>r. to_id r \<in> set ids \<and> to_owner r = user \<and> \<not> to_deleted r) (gt_tokens t))"

text \<open>A gallery that lists a collection, and the collections that a gallery lists, in order.\<close>

definition get_gallery_by_collection_id :: "string \<Rightarrow> gallery_tables \<Rightarrow> gallery_row outcome" where
  "get_gallery_by_collection_id i t = first_row (filter (\<lambda>g. \<not> ga_deleted g \<and> i \<in> set (ga_collections g))
     (if \<exists>c \<in> set (gt_collections t). live_collection i c then gt_galleries t else []))"

definition get_collections_by_gallery_id :: "string \<Rightarrow> gallery_tables \<Rightarrow> collection_row list" where
  "get_collections_by_gallery_id i t = concat (map (\<lambda>g. concat (map (\<lambda>c. filter (live_collection c) (gt_collections t)) (ga_collections g)))
     (filter (live_gallery i) (gt_galleries t)))"

definition collections_of_gallery :: "string \<Rightarrow> string list \<Rightarrow> gallery_tables \<Rightarrow> nat" where
  "collections_of_gallery i ids t =
     length (filter (\<lambda>c. co_id c \<in> set ids \<and> co_gallery c = i \<and> \<not> co_deleted c) (gt_collections t))"

definition gallery_repo_check_own_collections :: "string \<Rightarrow> string list \<Rightarrow> gallery_tables \<Rightarrow> int" where
  "gallery_repo_check_own_collections user ids t =
     int (length (filter (\<lambda>c. co_id c \<in> set ids \<and> co_owner c = user) (gt_collections t)))"

definition user_has_duplicate_gallery_positions :: "string \<Rightarrow> gallery_tables \<Rightarrow> bool" where
  "user_has_duplicate_gallery_positions user t \<longleftrightarrow>
     \<not> distinct (map ga_position (filter (\<lambda>g. ga_owner g = user \<and> \<not> ga_deleted g) (gt_galleries t)))"

section \<open>Writes\<close>

definition gallery_key_violation :: gerror where
  "gallery_key_violation = ErrText ''duplicate key value violates unique constraint \"galleries_pkey\"''"

definition collection_key_violation :: gerror where
  "collection_key_violation = ErrText ''duplicate key value violates unique constraint \"collections_pkey\"''"

definition collection_gallery_violation :: gerror where
  "collection_gallery_violation = ErrText ''insert or update on table \"collections\" violates foreign key constraint''"

definition gallery_repo_create :: "gallery_row \<Rightarrow> gallery_tables \<Rightarrow> gallery_row outcome \<times> gallery_tables" where
  "gallery_repo_create g t =
     (if ga_id g \<in> ga_id ` set (gt_galleries t) then (Err gallery_key_violation, t)
      else (Ok g, t\<lparr>gt_galleries := g # gt_galleries t\<rparr>))"

definition gallery_repo_delete :: "string \<Rightarrow> string \<Rightarrow> gallery_tables \<Rightarrow> gallery_tables" where
  "gallery_repo_delete i user t = on_gallery (\<lambda>g. ga_id g = i \<and>
       (\<exists>h \<in> set (gt_galleries t). ga_owner h = user \<and> \<not> ga_deleted h \<and> ga_id h \<noteq> i) \<and> gt_featured t user \<noteq> i)
     (\<lambda>g. g\<lparr>ga_deleted := True\<rparr>) t"

text \<open>The writes with \<^verbatim>\<open>:execrows\<close> also yield the number of rows.\<close>

definition rows_of_gallery :: "(gallery_row \<Rightarrow> bool) \<Rightarrow> gallery_tables \<Rightarrow> int" where
  "rows_of_gallery p t = int (length (filter p (gt_galleries t)))"

definition gallery_repo_update :: "string \<Rightarrow> string list \<Rightarrow> gallery_tables \<Rightarrow> int \<times> gallery_tables" where
  "gallery_repo_update i ids t =
     (let p = (\<lambda>g. ga_id g = i \<and> collections_of_gallery i ids t = length ids) in
      (rows_of_gallery p t, on_gallery p (\<lambda>g. g\<lparr>ga_collections := ids\<rparr>) t))"

definition gallery_repo_add_collections :: "string \<Rightarrow> string list \<Rightarrow> gallery_tables \<Rightarrow> int \<times> gallery_tables" where
  "gallery_repo_add_collections i ids t =
     (let p = (\<lambda>g. ga_id g = i \<and> collections_of_gallery i ids t = length ids) in
      (rows_of_gallery p t, on_gallery p (\<lambda>g. g\<lparr>ga_collections := ids @ ga_collections g\<rparr>) t))"

definition update_gallery_collections :: "string \<Rightarrow> string list \<Rightarrow> gallery_tables \<Rightarrow> gallery_tables" where
  "update_gallery_collections i ids t =
     on_gallery (\<lambda>g. live_gallery i g \<and> collections_of_gallery i ids t = length ids) (\<lambda>g. g\<lparr>ga_collections := ids\<rparr>) t"

definition update_gallery_info :: "string \<Rightarrow> string \<times> bool \<Rightarrow> string \<times> bool \<Rightarrow> gallery_tables \<Rightarrow> gallery_tables" where
  "update_gallery_info i name description t = on_gallery (live_gallery i)
     (\<lambda>g. g\<lparr>ga_name := (if snd name then fst name else ga_name g),
            ga_description := (if snd description then fst description else ga_description g)\<rparr>) t"

definition update_gallery_hidden :: "string \<Rightarrow> bool \<Rightarrow> gallery_tables \<Rightarrow> gallery_row outcome \<times> gallery_tables" where
  "update_gallery_hidden i hidden t =
     (let t1 = on_gallery (live_gallery i) (\<lambda>g. g\<lparr>ga_hidden := hidden\<rparr>) t in (get_gallery_by_id i t1, t1))"

text \<open>When an id is given twice the server may take either of its entries; here it is the first.\<close>

definition update_gallery_positions :: "(string \<times> string) list \<Rightarrow> string \<Rightarrow> gallery_tables \<Rightarrow> gallery_tables" where
  "update_gallery_positions positions user t =
     on_gallery (\<lambda>g. ga_id g \<in> fst ` set positions \<and> \<not> ga_deleted g \<and> ga_owner g = user)
       (\<lambda>g. g\<lparr>ga_position := the (map_of positions (ga_id g))\<rparr>) t"

definition add_collection_to_gallery :: "string \<Rightarrow> string \<Rightarrow> gallery_tables \<Rightarrow> gallery_tables" where
  "add_collection_to_gallery c i t = on_gallery (live_gallery i) (\<lambda>g. g\<lparr>ga_collections := ga_collections g @ [c]\<rparr>) t"

definition remove_collection_from_gallery :: "string \<Rightarrow> string \<Rightarrow> gallery_tables \<Rightarrow> gallery_tables" where
  "remove_collection_from_gallery c i t = on_gallery (live_gallery i) (\<lambda>g. g\<lparr>ga_collections := removeAll c (ga_collections g)\<rparr>) t"

definition insert_collection :: "collection_row \<Rightarrow> gallery_tables \<Rightarrow> string outcome \<times> gallery_tables" where
  "insert_collection c t =
     (if co_id c \<in> co_id ` set (gt_collections t) then (Err collection_key_violation, t)
      else if co_gallery c \<notin> ga_id ` set (gt_galleries t) then (Err collection_gallery_violation, t)
      else (Ok (co_id c), t\<lparr>gt_collections := c # gt_collections t\<rparr>))"

definition delete_collections :: "string list \<Rightarrow> gallery_tables \<Rightarrow> gallery_tables" where
  "delete_collections ids t = on_collection (\<lambda>c. co_id c \<in> set ids) (\<lambda>c. c\<lparr>co_deleted := True\<rparr>) t"

record collection_info =
  cu_id :: string
  cu_name :: string
  cu_note :: string
  cu_layout :: token_layout
  cu_settings :: token_settings
  cu_hidden :: bool

definition some_text :: "string \<Rightarrow> null_string" where
  "some_text s = \<lparr>ns_string = s, ns_valid = True\<rparr>"

text \<open>What \<^verbatim>\<open>persist.NullString.Value\<close> gives the server.\<close>

definition stored_text :: "string \<Rightarrow> null_string" where
  "stored_text s = some_text (to_valid_utf8 (replace_all s escaped_nul []))"

definition update_collections_info :: "collection_info list \<Rightarrow> gallery_tables \<Rightarrow> gallery_tables" where
  "update_collections_info infos t =
     on_collection (\<lambda>c. co_id c \<in> cu_id ` set infos \<and> \<not> co_deleted c)
       (\<lambda>c. let i = hd (filter (\<lambda>i. cu_id i = co_id c) infos) in
          c\<lparr>co_note := some_text (cu_note i), co_layout := cu_layout i, co_settings := cu_settings i, co_hidden := cu_hidden i,
            co_name := some_text (cu_name i), co_version := 1\<rparr>) t"

definition update_collection_tokens :: "string \<Rightarrow> string list \<Rightarrow> gallery_tables \<Rightarrow> gallery_tables" where
  "update_collection_tokens i ids t = on_collection (live_collection i) (\<lambda>c. c\<lparr>co_nfts := ids\<rparr>) t"

definition update_collection_gallery :: "string \<Rightarrow> string \<Rightarrow> gallery_tables \<Rightarrow> unit outcome \<times> gallery_tables" where
  "update_collection_gallery i gallery t =
     (if gallery \<notin> ga_id ` set (gt_galleries t) \<and> (\<exists>c \<in> set (gt_collections t). live_collection i c) then (Err collection_gallery_violation, t)
      else (Ok (), on_collection (live_collection i) (\<lambda>c. c\<lparr>co_gallery := gallery\<rparr>) t))"

text \<open>The statements of \<^verbatim>\<open>CollectionTokenRepository\<close> that a user gives for one of their collections.\<close>

definition own_collection :: "string \<Rightarrow> string \<Rightarrow> collection_row \<Rightarrow> bool" where
  "own_collection i user c \<longleftrightarrow> co_id c = i \<and> co_owner c = user"

definition update_own :: "string \<Rightarrow> string \<Rightarrow> (collection_row \<Rightarrow> collection_row) \<Rightarrow> gallery_tables \<Rightarrow> int \<times> gallery_tables" where
  "update_own i user f t = (int (length (filter (own_collection i user) (gt_collections t))), on_collection (own_collection i user) f t)"

end
