(* ===== verification/GalleryApi.thy ===== *)
theory GalleryApi
  imports GalleryTables
begin

text \<open>
  The operations of users on collections and galleries: \<^verbatim>\<open>publicapi/collection.go\<close>,
  \<^verbatim>\<open>publicapi/gallery.go\<close> and the repositories they call.
\<close>

section \<open>The world\<close>

text \<open>
  \<open>gw_connect\<close> is asked for every statement, and at the beginning and end of a transaction;
  \<open>gw_check\<close> and \<open>gw_check_struct\<close> are the validation library, \<open>gw_sanitize\<close> its neighbour that cleans
  text. Events are handed to \<open>gw_dispatch\<close> and the others.
\<close>

datatype field_value = VText string | VOptText "string option" | VTexts "string list" | VInts "int list" | VPositions "(string \<times> string) list"

record 'c gallery_world =
  gw_connect :: "('c, unit) act"
  gw_new_id :: "('c, string) act"
  gw_check :: "field_value \<Rightarrow> string \<Rightarrow> string option"
  gw_check_struct :: "report list \<Rightarrow> gerror option"
  gw_sanitize :: "string \<Rightarrow> string"
  gw_dispatch :: "db_event \<Rightarrow> ('c, unit) act"
  gw_dispatch_captioned :: "db_event \<Rightarrow> string option \<Rightarrow> ('c, feed_event option) act"
  gw_dispatch_many :: "db_event list \<Rightarrow> string option \<Rightarrow> ('c, unit) act"
  gw_dispatch_group :: "string \<Rightarrow> string \<Rightarrow> string option \<Rightarrow> ('c, feed_event option) act"

type_synonym 'c gallery_state = "gallery_tables \<times> 'c"

definition on_galleries :: "'c gallery_world \<Rightarrow> (gallery_tables \<Rightarrow> 'a outcome \<times> gallery_tables) \<Rightarrow> ('c gallery_state, 'a) act" where
  "on_galleries w f = act_then (beside (gw_connect w)) (\<lambda>_ (t, c). case f t of (r, t1) \<Rightarrow> (r, (t1, c)))"

definition ask_galleries :: "'c gallery_world \<Rightarrow> (gallery_tables \<Rightarrow> 'a outcome) \<Rightarrow> ('c gallery_state, 'a) act" where
  "ask_galleries w f = on_galleries w (\<lambda>t. (f t, t))"

definition write_galleries :: "'c gallery_world \<Rightarrow> (gallery_tables \<Rightarrow> gallery_tables) \<Rightarrow> ('c gallery_state, unit) act" where
  "write_galleries w f = on_galleries w (\<lambda>t. (Ok (), f t))"

text \<open>A transaction whose body or commit fails leaves the tables as they were: the deferred rollback.\<close>

definition in_transaction :: "'c gallery_world \<Rightarrow> ('c gallery_state, 'a) act \<Rightarrow> ('c gallery_state, 'a) act" where
  "in_transaction w m = act_then (beside (gw_connect w)) (\<lambda>_ (t, c). case act_then m (\<lambda>x. act_then (beside (gw_connect w)) (\<lambda>_. give (Ok x))) (t, c) of
     (Ok x, s) \<Rightarrow> (Ok x, s) | (r, (_, c1)) \<Rightarrow> (r, (t, c1)))"

definition check_fields :: "'c gallery_world \<Rightarrow> (string \<times> field_value \<times> string) list \<Rightarrow> ('c gallery_state, unit) act" where
  "check_fields w flds = give (validate_fields (gw_check w) flds)"

definition required_id :: "string \<Rightarrow> string \<Rightarrow> string \<times> field_value \<times> string" where
  "required_id name i = (name, VText i, ''required'')"

definition viewer :: "auth_ctx \<Rightarrow> ('s, string) act" where
  "viewer ctx = give (get_authenticated_user_id ctx)"

section \<open>Repositories\<close>

definition gallery_not_found :: "string \<Rightarrow> gerror" where
  "gallery_not_found i = ErrText (''gallery not found with ID: '' @ i @ '' CollectionID: '')"

definition collection_not_found :: "string \<Rightarrow> gerror" where
  "collection_not_found i = ErrText (''collection not found by id: '' @ i)"

definition gallery_not_found_by_collection :: "string \<Rightarrow> gerror" where
  "gallery_not_found_by_collection c = ErrText (''gallery not found with ID:  CollectionID: '' @ c)"

text \<open>
  The data loaders, which give an error of their own for a row that is missing. They gather reads
  in batches with the answers of single reads, and mutations use them without their cache.
\<close>

definition missing_as :: "gerror \<Rightarrow> ('s, 'a) act \<Rightarrow> ('s, 'a) act" where
  "missing_as e m = wrapped (\<lambda>x. if x = ErrNoRows then e else x) m"

definition load_gallery :: "'c gallery_world \<Rightarrow> string \<Rightarrow> ('c gallery_state, gallery_row) act" where
  "load_gallery w i = missing_as (gallery_not_found i) (ask_galleries w (get_gallery_by_id i))"

definition load_gallery_of_collection :: "'c gallery_world \<Rightarrow> string \<Rightarrow> ('c gallery_state, gallery_row) act" where
  "load_gallery_of_collection w i = missing_as (gallery_not_found_by_collection i) (ask_galleries w (get_gallery_by_collection_id i))"

definition load_collection :: "'c gallery_world \<Rightarrow> string \<Rightarrow> ('c gallery_state, collection_row) act" where
  "load_collection w i = missing_as (collection_not_found i) (ask_galleries w (get_collection_by_id i))"

definition colls_not_owned_by_user :: gerror where
  "colls_not_owned_by_user = ErrText ''collections not owned by user''"

definition ensure_colls_owned_by_user :: "'c gallery_world \<Rightarrow> string list \<Rightarrow> string \<Rightarrow> ('c gallery_state, unit) act" where
  "ensure_colls_owned_by_user w ids user =
     act_then (ask_galleries w (\<lambda>t. Ok (gallery_repo_check_own_collections user ids t))) (\<lambda>n.
       give (if n \<noteq> int (length ids) then Err colls_not_owned_by_user else Ok ()))"

definition some_rows :: "'c gallery_world \<Rightarrow> gerror \<Rightarrow> (gallery_tables \<Rightarrow> int \<times> gallery_tables) \<Rightarrow> ('c gallery_state, unit) act" where
  "some_rows w err f =
     act_then (on_galleries w (\<lambda>t. case f t of (n, t1) \<Rightarrow> (Ok n, t1))) (\<lambda>n. give (if n = 0 then Err err else Ok ()))"

definition gallery_repo_update_collections :: "'c gallery_world \<Rightarrow> string \<Rightarrow> string \<Rightarrow> string list \<Rightarrow> ('c gallery_state, unit) act" where
  "gallery_repo_update_collections w i user ids =
     act_then (ensure_colls_owned_by_user w ids user) (\<lambda>_. some_rows w (gallery_not_found i) (gallery_repo_update i ids))"

definition add_collections :: "'c gallery_world \<Rightarrow> string \<Rightarrow> string \<Rightarrow> string list \<Rightarrow> ('c gallery_state, unit) act" where
  "add_collections w i user ids =
     act_then (ensure_colls_owned_by_user w ids user) (\<lambda>_. some_rows w (gallery_not_found i) (gallery_repo_add_collections i ids))"

definition create_collection_row :: "'c gallery_world \<Rightarrow> (string \<Rightarrow> collection_row) \<Rightarrow> ('c gallery_state, string) act" where
  "create_collection_row w row = act_then (beside (gw_new_id w)) (\<lambda>i. on_galleries w (insert_collection (row i)))"

definition update_own_collection :: "'c gallery_world \<Rightarrow> string \<Rightarrow> string \<Rightarrow> (collection_row \<Rightarrow> collection_row) \<Rightarrow> ('c gallery_state, unit) act" where
  "update_own_collection w i user f = some_rows w (collection_not_found i) (update_own i user f)"

section \<open>Collections\<close>

definition sections_tag :: "token_layout \<Rightarrow> string list \<Rightarrow> string" where
  "sections_tag layout tokens =
     (let n = int (length tokens) in
      ''unique,sorted_asc,lte='' @ itoa n @ '',min=1,max=100,len='' @ itoa (int (length (tl_section_layout layout)))
        @ '',dive,gte=0,lte='' @ itoa (n - 1))"

definition tokens_fields :: "string list \<Rightarrow> token_layout \<Rightarrow> (string \<times> field_value \<times> string) list" where
  "tokens_fields tokens layout =
     [(''tokens'', VTexts tokens, ''required,unique,min=1,max=1000''),
      (''sections'', VInts (tl_sections layout), sections_tag layout tokens)]"

definition caption_fields :: "string option \<Rightarrow> (string \<times> field_value \<times> string) list" where
  "caption_fields caption = (case caption of None \<Rightarrow> [] | Some c \<Rightarrow> [(''caption'', VText (trim_space c), ''required,caption'')])"

definition clean_caption :: "'c gallery_world \<Rightarrow> string option \<Rightarrow> string option" where
  "clean_caption w caption = map_option (\<lambda>c. gw_sanitize w (trim_space c)) caption"

definition err_tokens_not_owned :: gerror where
  "err_tokens_not_owned = ErrText ''not all tokens are owned by user''"

text \<open>What \<^verbatim>\<open>CreateCollection\<close> and \<^verbatim>\<open>UpdateCollectionTokens\<close> check of the tokens, the layout and the caller.\<close>

definition check_tokens :: "'c gallery_world \<Rightarrow> auth_ctx \<Rightarrow> (string \<times> field_value \<times> string) list \<Rightarrow> string list \<Rightarrow> token_layout \<Rightarrow> token_settings
    \<Rightarrow> ('c gallery_state, token_layout \<times> string) act" where
  "check_tokens w ctx flds tokens layout settings =
     act_then (check_fields w flds) (\<lambda>_.
       act_then (give (case gw_check_struct w (collection_token_settings_validator tokens (map fst settings)) of None \<Rightarrow> Ok () | Some e \<Rightarrow> Err e)) (\<lambda>_.
         act_then (give (validate_layout layout tokens)) (\<lambda>layout1.
           act_then (viewer ctx) (\<lambda>user.
             act_then (ask_galleries w (\<lambda>t. Ok (check_user_owns_all_tokens user tokens t))) (\<lambda>owns.
               give (if \<not> owns then Err err_tokens_not_owned else Ok (layout1, user)))))))"

definition collection_event :: "string \<Rightarrow> string \<Rightarrow> string \<Rightarrow> string \<Rightarrow> db_event" where
  "collection_event a user collection gallery = zero_db_event\<lparr>ev_actor_id := str_ptr_to_null_str (Some user), ev_action := a,
     de_resource_type := resource_collection, ev_collection_id := collection, ev_gallery_id := gallery, ev_subject_id := collection\<rparr>"

definition create_collection :: "'c gallery_world \<Rightarrow> auth_ctx \<Rightarrow> string \<Rightarrow> string \<Rightarrow> string \<Rightarrow> string list \<Rightarrow> token_layout \<Rightarrow> token_settings
    \<Rightarrow> string option \<Rightarrow> ('c gallery_state, collection_row \<times> feed_event option) act" where
  "create_collection w ctx gallery name note tokens layout settings caption =
     act_then (check_tokens w ctx ([required_id ''galleryID'' gallery, (''name'', VText name, ''collection_name''),
         (''collectorsNote'', VText note, ''collection_note'')] @ tokens_fields tokens layout @ caption_fields caption) tokens layout settings)
       (\<lambda>(layout1, user).
         let name1 = gw_sanitize w (trim_space name); note1 = gw_sanitize w note in
         act_then (create_collection_row w (\<lambda>i. \<lparr>co_id = i, co_deleted = False, co_owner = user, co_nfts = tokens, co_version = 1,
             co_hidden = False, co_note = stored_text note1, co_name = stored_text name1, co_layout = layout1, co_settings = settings,
             co_gallery = gallery\<rparr>)) (\<lambda>i.
           act_then (add_collections w gallery user [i]) (\<lambda>_.
             act_then (load_collection w i) (\<lambda>c.
               act_then (beside (gw_dispatch_captioned w ((collection_event action_collection_created user i gallery)
                   \<lparr>ev_data := zero_event_data\<lparr>ed_collection_token_ids := Some (co_nfts c), ed_collection_collectors_note := note1\<rparr>\<rparr>)
                   (clean_caption w caption)))
                 (\<lambda>f. give (Ok (c, f)))))))"

definition delete_collection :: "'c gallery_world \<Rightarrow> auth_ctx \<Rightarrow> string \<Rightarrow> ('c gallery_state, unit) act" where
  "delete_collection w ctx i =
     act_then (check_fields w [required_id ''collectionID'' i]) (\<lambda>_.
       act_then (viewer ctx) (\<lambda>user. update_own_collection w i user (\<lambda>c. c\<lparr>co_deleted := True\<rparr>)))"

definition update_collection_info :: "'c gallery_world \<Rightarrow> auth_ctx \<Rightarrow> string \<Rightarrow> string \<Rightarrow> string \<Rightarrow> ('c gallery_state, unit) act" where
  "update_collection_info w ctx i name note =
     act_then (check_fields w [required_id ''collectionID'' i, (''name'', VText name, ''collection_name''),
         (''collectorsNote'', VText note, ''collection_note'')]) (\<lambda>_.
       let name1 = gw_sanitize w name; note1 = gw_sanitize w note in
       act_then (viewer ctx) (\<lambda>user.
         act_then (update_own_collection w i user (\<lambda>c. c\<lparr>co_note := stored_text note1, co_name := stored_text name1\<rparr>)) (\<lambda>_.
           act_then (ask_galleries w (get_gallery_id_by_collection_id i)) (\<lambda>gallery.
             beside (gw_dispatch w ((collection_event action_collectors_note_added_to_collection user i gallery)
               \<lparr>ev_data := zero_event_data\<lparr>ed_collection_collectors_note := note1\<rparr>\<rparr>))))))"

definition update_collection_tokens_of :: "'c gallery_world \<Rightarrow> auth_ctx \<Rightarrow> string \<Rightarrow> string list \<Rightarrow> token_layout \<Rightarrow> token_settings
    \<Rightarrow> string option \<Rightarrow> ('c gallery_state, feed_event option) act" where
  "update_collection_tokens_of w ctx i tokens layout settings caption =
     act_then (check_tokens w ctx ([required_id ''collectionID'' i] @ tokens_fields tokens layout @ caption_fields caption) tokens layout settings)
       (\<lambda>(layout1, user).
         act_then (update_own_collection w i user (\<lambda>c. c\<lparr>co_nfts := tokens, co_layout := layout1, co_settings := settings, co_version := 1\<rparr>)) (\<lambda>_.
           act_then (ask_galleries w (get_gallery_id_by_collection_id i)) (\<lambda>gallery.
             beside (gw_dispatch_captioned w ((collection_event action_tokens_added_to_collection user i gallery)
               \<lparr>ev_data := zero_event_data\<lparr>ed_collection_token_ids := Some tokens\<rparr>\<rparr>) (clean_caption w caption)))))"

definition update_collection_hidden :: "'c gallery_world \<Rightarrow> auth_ctx \<Rightarrow> string \<Rightarrow> bool \<Rightarrow> ('c gallery_state, unit) act" where
  "update_collection_hidden w ctx i hidden =
     act_then (check_fields w [required_id ''collectionID'' i]) (\<lambda>_.
       act_then (viewer ctx) (\<lambda>user. update_own_collection w i user (\<lambda>c. c\<lparr>co_hidden := hidden\<rparr>)))"

definition not_owner_of_collection :: "string \<Rightarrow> gerror" where
  "not_owner_of_collection i = ErrText (''user does not own collection: '' @ i)"

definition not_owner_of_gallery :: "string \<Rightarrow> gerror" where
  "not_owner_of_gallery i = ErrText (''user does not own gallery: '' @ i)"

definition move_collection :: "'c gallery_world \<Rightarrow> auth_ctx \<Rightarrow> string \<Rightarrow> string \<Rightarrow> ('c gallery_state, string) act" where
  "move_collection w ctx i gallery =
     act_then (check_fields w [required_id ''collectionID'' i, required_id ''galleryID'' gallery]) (\<lambda>_.
       act_then (viewer ctx) (\<lambda>user.
         act_then (ask_galleries w (\<lambda>t. Ok (user_owns_collection i user t))) (\<lambda>owns_collection.
           if \<not> owns_collection then give (Err (not_owner_of_collection i))
           else act_then (ask_galleries w (\<lambda>t. Ok (user_owns_gallery gallery user t))) (\<lambda>owns_gallery.
             if \<not> owns_gallery then give (Err (not_owner_of_gallery gallery))
             else in_transaction w (act_then (ask_galleries w (get_collection_by_id i)) (\<lambda>cur.
               act_then (on_galleries w (update_collection_gallery i gallery)) (\<lambda>_.
                 act_then (write_galleries w (add_collection_to_gallery i gallery)) (\<lambda>_.
                   act_then (write_galleries w (remove_collection_from_gallery i (co_gallery cur))) (\<lambda>_.
                     give (Ok (co_gallery cur)))))))))))"

definition get_collection :: "'c gallery_world \<Rightarrow> string \<Rightarrow> ('c gallery_state, collection_row) act" where
  "get_collection w i = act_then (check_fields w [required_id ''collectionID'' i]) (\<lambda>_. load_collection w i)"

fun get_collections_by_ids :: "'c gallery_world \<Rightarrow> string list \<Rightarrow> ('c gallery_state, (gerror + collection_row) list) act" where
  "get_collections_by_ids w [] = give (Ok [])"
| "get_collections_by_ids w (i # is) =
     act_then (attempt (get_collection w i)) (\<lambda>r. act_then (get_collections_by_ids w is) (\<lambda>rs. give (Ok (r # rs))))"

definition get_collections_of_gallery :: "'c gallery_world \<Rightarrow> string \<Rightarrow> ('c gallery_state, collection_row list) act" where
  "get_collections_of_gallery w i = act_then (check_fields w [required_id ''galleryID'' i])
     (\<lambda>_. ask_galleries w (\<lambda>t. Ok (get_collections_by_gallery_id i t)))"

section \<open>Galleries\<close>

record section_layout_input =
  si_columns :: int
  si_whitespace :: "int list"

record layout_input =
  li_sections :: "int list"
  li_section_layout :: "section_layout_input list"

text \<open>Settings as they come: the token, whether to render live, and high definition.\<close>

type_synonym settings_input = "(string \<times> bool \<times> bool) list"

record created_collection_input =
  ni_name :: string
  ni_note :: string
  ni_tokens :: "string list"
  ni_layout :: layout_input
  ni_settings :: settings_input
  ni_hidden :: bool
  ni_given_id :: string

record updated_collection_input =
  ui_id :: string
  ui_name :: string
  ui_note :: string
  ui_tokens :: "string list"
  ui_layout :: layout_input
  ui_settings :: settings_input
  ui_hidden :: bool

record update_gallery_input =
  ug_gallery :: string
  ug_name :: "string option"
  ug_description :: "string option"
  ug_deleted :: "string list"
  ug_updated :: "updated_collection_input list"
  ug_created :: "created_collection_input list"
  ug_order :: "string list"
  ug_edit_id :: "string option"

definition model_to_token_layout :: "layout_input \<Rightarrow> token_layout" where
  "model_to_token_layout u = \<lparr>tl_columns = 0, tl_whitespace = [], tl_sections = standardize_collection_sections (li_sections u),
     tl_section_layout = map (\<lambda>l. \<lparr>sl_columns = word_of_int (si_columns l), sl_whitespace = si_whitespace l\<rparr>) (li_section_layout u)\<rparr>"

definition model_to_token_settings :: "settings_input \<Rightarrow> token_settings" where
  "model_to_token_settings u = fold (\<lambda>(token, flags) m. AList.update token flags m) u []"

definition create_gallery :: "'c gallery_world \<Rightarrow> auth_ctx \<Rightarrow> string option \<Rightarrow> string option \<Rightarrow> string \<Rightarrow> ('c gallery_state, gallery_row) act" where
  "create_gallery w ctx name description position =
     act_then (check_fields w [(''name'', VOptText name, ''max=200''), (''description'', VOptText description, ''max=1200''),
         (''position'', VText position, ''required'')]) (\<lambda>_.
       act_then (viewer ctx) (\<lambda>user.
         act_then (beside (gw_new_id w)) (\<lambda>i. on_galleries w (gallery_repo_create
           \<lparr>ga_id = i, ga_deleted = False, ga_owner = user, ga_collections = [], ga_name = from_pointer '''' name,
            ga_description = from_pointer '''' description, ga_hidden = False, ga_position = position\<rparr>))))"

definition info_of :: "updated_collection_input \<Rightarrow> collection_info" where
  "info_of u = \<lparr>cu_id = ui_id u, cu_name = ui_name u, cu_note = ui_note u, cu_layout = model_to_token_layout (ui_layout u),
     cu_settings = model_to_token_settings (ui_settings u), cu_hidden = ui_hidden u\<rparr>"

fun note_events :: "'c gallery_world \<Rightarrow> string \<Rightarrow> string \<Rightarrow> updated_collection_input list \<Rightarrow> ('c gallery_state, db_event list) act" where
  "note_events w user gallery [] = give (Ok [])"
| "note_events w user gallery (u # us) =
     act_then (ask_galleries w (get_collection_by_id (ui_id u))) (\<lambda>c.
       act_then (note_events w user gallery us) (\<lambda>es.
         give (Ok ((if ui_note u \<noteq> '''' \<and> ui_note u \<noteq> ns_string (co_note c)
           then [(collection_event action_collectors_note_added_to_collection user (ui_id u) gallery)
                   \<lparr>ev_data := zero_event_data\<lparr>ed_collection_collectors_note := ui_note u\<rparr>\<rparr>] else []) @ es))))"

fun token_events :: "'c gallery_world \<Rightarrow> string \<Rightarrow> string \<Rightarrow> updated_collection_input list \<Rightarrow> ('c gallery_state, db_event list) act" where
  "token_events w user gallery [] = give (Ok [])"
| "token_events w user gallery (u # us) =
     act_then (ask_galleries w (get_collection_tokens (ui_id u))) (\<lambda>cur.
       act_then (write_galleries w (update_collection_tokens (ui_id u) (ui_tokens u))) (\<lambda>_.
         act_then (token_events w user gallery us) (\<lambda>es.
           let diff = difference cur (ui_tokens u) in
           give (Ok ((if diff \<noteq> [] then [(collection_event action_tokens_added_to_collection user (ui_id u) gallery)
                   \<lparr>ev_data := zero_event_data\<lparr>ed_collection_token_ids := Some diff\<rparr>\<rparr>] else []) @ es)))))"

definition update_collections_info_and_tokens :: "'c gallery_world \<Rightarrow> string \<Rightarrow> string \<Rightarrow> updated_collection_input list
    \<Rightarrow> ('c gallery_state, db_event list) act" where
  "update_collections_info_and_tokens w user gallery us =
     act_then (note_events w user gallery us) (\<lambda>notes.
       act_then (write_galleries w (update_collections_info (map info_of us))) (\<lambda>_.
         act_then (token_events w user gallery us) (\<lambda>tokens. give (Ok (notes @ tokens)))))"

text \<open>Creates the collections in turn; yields the events and the map from given ids to ids.\<close>

fun create_collections :: "'c gallery_world \<Rightarrow> string \<Rightarrow> string \<Rightarrow> string \<Rightarrow> created_collection_input list
    \<Rightarrow> ('c gallery_state, db_event list \<times> (string \<rightharpoonup> string)) act" where
  "create_collections w user owner gallery [] = give (Ok ([], Map.empty))"
| "create_collections w user owner gallery (c # cs) =
     act_then (create_collection_row w (\<lambda>i. \<lparr>co_id = i, co_deleted = False, co_owner = owner, co_nfts = ni_tokens c, co_version = 1,
         co_hidden = ni_hidden c, co_note = some_text (ni_note c), co_name = some_text (ni_name c),
         co_layout = model_to_token_layout (ni_layout c), co_settings = model_to_token_settings (ni_settings c), co_gallery = gallery\<rparr>)) (\<lambda>i.
       act_then (beside (gw_new_id w)) (\<lambda>event_id.
         act_then (create_collections w user owner gallery cs) (\<lambda>(es, ids).
           give (Ok ((collection_event action_collection_created user i gallery)\<lparr>ev_id := event_id,
               ev_data := zero_event_data\<lparr>ed_collection_token_ids := Some (ni_tokens c), ed_collection_collectors_note := ni_note c\<rparr>\<rparr> # es,
             if ni_given_id c \<in> dom ids then ids else ids(ni_given_id c \<mapsto> i))))))"

definition changed_text :: "string option \<Rightarrow> string \<Rightarrow> string option" where
  "changed_text new cur = (case new of None \<Rightarrow> None | Some x \<Rightarrow> if x \<noteq> cur then Some x else None)"

definition info_events :: "string \<Rightarrow> update_gallery_input \<Rightarrow> gallery_row \<Rightarrow> string \<Rightarrow> db_event list" where
  "info_events user u cur event_id =
     (let name = changed_text (ug_name u) (ga_name cur); description = changed_text (ug_description u) (ga_description cur) in
      if name \<noteq> None \<or> description \<noteq> None
      then [zero_db_event\<lparr>ev_id := event_id, ev_actor_id := str_ptr_to_null_str (Some user), ev_action := action_gallery_info_updated,
              de_resource_type := resource_gallery, ev_gallery_id := ug_gallery u, ev_subject_id := ug_gallery u,
              ev_data := zero_event_data\<lparr>ed_gallery_name := name, ed_gallery_description := description\<rparr>\<rparr>]
      else [])"

definition not_gallery_owner :: "string \<Rightarrow> string \<Rightarrow> gerror" where
  "not_gallery_owner user i = ErrText (''user '' @ user @ '' is not the owner of gallery '' @ i)"

definition changed_info :: "update_gallery_input \<Rightarrow> bool" where
  "changed_info u \<longleftrightarrow> ug_name u \<noteq> None \<or> ug_description u \<noteq> None"

text \<open>What an update does in its transaction; it yields the events to dispatch.\<close>

definition edit_gallery :: "'c gallery_world \<Rightarrow> string \<Rightarrow> gallery_row \<Rightarrow> update_gallery_input \<Rightarrow> ('c gallery_state, db_event list) act" where
  "edit_gallery w user cur u =
     act_then (if ug_deleted u \<noteq> [] then write_galleries w (delete_collections (ug_deleted u)) else give (Ok ())) (\<lambda>_.
       act_then (create_collections w user (ga_owner cur) (ug_gallery u) (ug_created u)) (\<lambda>(created, ids).
         act_then (if ug_updated u \<noteq> [] then update_collections_info_and_tokens w user (ug_gallery u) (ug_updated u) else give (Ok [])) (\<lambda>updated.
           act_then (write_galleries w (update_gallery_info (ug_gallery u)
               (set_conditional_value (ug_name u) '''' False) (set_conditional_value (ug_description u) '''' False))) (\<lambda>_.
             act_then (if changed_info u then beside (gw_new_id w) else give (Ok '''')) (\<lambda>event_id.
               let order = map (\<lambda>c. case ids c of Some i \<Rightarrow> i | None \<Rightarrow> c) (ug_order u) in
               act_then (if order \<noteq> [] then write_galleries w (update_gallery_collections (ug_gallery u) order) else give (Ok ())) (\<lambda>_.
                 give (Ok (created @ updated @ info_events user u cur event_id))))))))"

definition update_gallery :: "'c gallery_world \<Rightarrow> auth_ctx \<Rightarrow> update_gallery_input \<Rightarrow> ('c gallery_state, gallery_row) act" where
  "update_gallery w ctx u =
     act_then (check_fields w [required_id ''galleryID'' (ug_gallery u), (''name'', VOptText (ug_name u), ''omitempty,max=200''),
         (''description'', VOptText (ug_description u), ''omitempty,max=1200''),
         (''deleted_collections'', VTexts (ug_deleted u), ''omitempty,unique''),
         (''created_collections'', VTexts (map ni_given_id (ug_created u)), ''omitempty,created_collections'')]) (\<lambda>_.
       act_then (load_gallery w (ug_gallery u)) (\<lambda>cur.
         act_then (viewer ctx) (\<lambda>user.
           if ga_owner cur \<noteq> user then give (Err (not_gallery_owner user (ug_gallery u)))
           else act_then (in_transaction w (edit_gallery w user cur u)) (\<lambda>events.
             act_then (load_gallery w (ug_gallery u)) (\<lambda>new.
               act_then (beside (gw_dispatch_many w events (ug_edit_id u))) (\<lambda>_. give (Ok new)))))))"

definition publish_gallery :: "'c gallery_world \<Rightarrow> string \<Rightarrow> string \<Rightarrow> string option \<Rightarrow> ('c gallery_state, unit) act" where
  "publish_gallery w gallery edit_id caption =
     act_then (check_fields w [required_id ''galleryID'' gallery, required_id ''editID'' edit_id]) (\<lambda>_.
       act_then (beside (gw_dispatch_group w edit_id action_gallery_updated caption)) (\<lambda>_. give (Ok ())))"

definition delete_gallery :: "'c gallery_world \<Rightarrow> auth_ctx \<Rightarrow> string \<Rightarrow> ('c gallery_state, unit) act" where
  "delete_gallery w ctx i =
     act_then (check_fields w [required_id ''galleryID'' i]) (\<lambda>_.
       act_then (viewer ctx) (\<lambda>user. write_galleries w (gallery_repo_delete i user)))"

definition get_gallery :: "'c gallery_world \<Rightarrow> string \<Rightarrow> ('c gallery_state, gallery_row) act" where
  "get_gallery w i = act_then (check_fields w [required_id ''galleryID'' i]) (\<lambda>_. load_gallery w i)"

definition get_gallery_of_collection :: "'c gallery_world \<Rightarrow> string \<Rightarrow> ('c gallery_state, gallery_row) act" where
  "get_gallery_of_collection w i = act_then (check_fields w [required_id ''collectionID'' i]) (\<lambda>_. load_gallery_of_collection w i)"

definition get_viewer_gallery_by_id :: "'c gallery_world \<Rightarrow> auth_ctx \<Rightarrow> string \<Rightarrow> ('c gallery_state, gallery_row) act" where
  "get_viewer_gallery_by_id w ctx i =
     act_then (check_fields w [required_id ''galleryID'' i]) (\<lambda>_.
       act_then (attempt (viewer ctx)) (\<lambda>r. case r of
         Inl _ \<Rightarrow> give (Err (gallery_not_found i))
       | Inr user \<Rightarrow> act_then (load_gallery w i) (\<lambda>g.
           give (if user \<noteq> ga_owner g then Err (gallery_not_found i) else Ok g))))"

definition update_gallery_collections_of :: "'c gallery_world \<Rightarrow> auth_ctx \<Rightarrow> string \<Rightarrow> string list \<Rightarrow> ('c gallery_state, unit) act" where
  "update_gallery_collections_of w ctx i ids =
     act_then (check_fields w [required_id ''galleryID'' i, (''collections'', VTexts ids, ''required,unique,max=1000'')]) (\<lambda>_.
       act_then (viewer ctx) (\<lambda>user. gallery_repo_update_collections w i user ids))"

definition update_gallery_info_of :: "'c gallery_world \<Rightarrow> string \<Rightarrow> string option \<Rightarrow> string option \<Rightarrow> ('c gallery_state, unit) act" where
  "update_gallery_info_of w i name description =
     act_then (check_fields w [required_id ''galleryID'' i, (''name'', VOptText name, ''max=200''), (''description'', VOptText description, ''max=1200'')])
       (\<lambda>_. write_galleries w (update_gallery_info i (from_pointer '''' name, name \<noteq> None) (from_pointer '''' description, description \<noteq> None)))"

definition update_gallery_hidden_of :: "'c gallery_world \<Rightarrow> string \<Rightarrow> bool \<Rightarrow> ('c gallery_state, gallery_row) act" where
  "update_gallery_hidden_of w i hidden =
     act_then (check_fields w [required_id ''galleryID'' i]) (\<lambda>_. on_galleries w (update_gallery_hidden i hidden))"

definition positions_not_unique :: "string \<Rightarrow> gerror" where
  "positions_not_unique user = ErrText (''gallery positions are not unique for user '' @ user)"

definition update_gallery_positions_of :: "'c gallery_world \<Rightarrow> auth_ctx \<Rightarrow> (string \<times> string) list \<Rightarrow> ('c gallery_state, unit) act" where
  "update_gallery_positions_of w ctx positions =
     act_then (check_fields w [(''positions'', VPositions positions, ''required,min=1'')]) (\<lambda>_.
       act_then (viewer ctx) (\<lambda>user.
         in_transaction w (act_then (write_galleries w (update_gallery_positions positions user)) (\<lambda>_.
           act_then (ask_galleries w (\<lambda>t. Ok (user_has_duplicate_gallery_positions user t))) (\<lambda>duplicates.
             give (if duplicates then Err (positions_not_unique user) else Ok ()))))))"

text \<open>\<open>authed\<close> is what the context says of the caller, and \<open>external\<close> the id made of the address of one who is not signed in.\<close>

definition view_gallery :: "'c gallery_world \<Rightarrow> auth_ctx \<Rightarrow> bool \<Rightarrow> string option \<Rightarrow> string \<Rightarrow> ('c gallery_state, gallery_row) act" where
  "view_gallery w ctx authed external i =
     act_then (check_fields w [required_id ''galleryID'' i]) (\<lambda>_.
       act_then (load_gallery w i) (\<lambda>g.
         let e = zero_db_event\<lparr>de_resource_type := resource_gallery, ev_subject_id := i, ev_action := action_viewed_gallery, ev_gallery_id := i\<rparr> in
         if authed then
           act_then (viewer ctx) (\<lambda>user.
             if ga_owner g \<noteq> user
             then act_then (beside (gw_dispatch w (e\<lparr>ev_actor_id := str_ptr_to_null_str (Some user)\<rparr>))) (\<lambda>_. give (Ok g))
             else give (Ok g))
         else act_then (beside (gw_dispatch w (e\<lparr>de_external_id := str_ptr_to_null_str external\<rparr>))) (\<lambda>_. give (Ok g))))"

text \<open>The media of other tokens with their times; lists of ids or times that are too short panic.\<close>

fun without_community :: "string list \<Rightarrow> string list \<Rightarrow> 'm list \<Rightarrow> 't list \<Rightarrow> ('m \<times> 't) list outcome" where
  "without_community community ids [] ts = Ok []"
| "without_community community ids (m # ms) ts =
     (case ids of
        [] \<Rightarrow> Panic IndexRange
      | i # ids1 \<Rightarrow>
          if i \<in> set community then without_community community ids1 ms (tl ts)
          else (case ts of [] \<Rightarrow> Panic IndexRange | t # ts1 \<Rightarrow> map_ok ((#) (m, t)) (without_community community ids1 ms ts1)))"

definition get_preview_media_for_community_gallery :: "string list \<Rightarrow> 'm list \<Rightarrow> 't list \<Rightarrow> string list \<Rightarrow> 'm list \<Rightarrow> 't list
    \<Rightarrow> ('m \<times> 't) list outcome" where
  "get_preview_media_for_community_gallery community_ids community_media community_times all_ids all_media all_times =
     (if length community_times < length community_media then Panic IndexRange
      else map_ok ((@) (zip community_media community_times)) (without_community community_ids all_ids all_media all_times))"

end
