(* ===== verification/GalleryRules.thy ===== *)
theory GalleryRules
  imports GalleryApi NotificationProps
begin

text \<open>
  The operations on galleries and collections as steps, and the invariants of the tables that all
  of them keep: a contract of the single writes, from which every operation's follows.
\<close>

section \<open>What holds after an act\<close>

text \<open>
  From \<open>P\<close> an act that ends with a value reaches what \<open>Q\<close> says of it, and one that fails reaches \<open>E\<close>.
\<close>

definition triple :: "('s \<Rightarrow> bool) \<Rightarrow> ('s, 'a) act \<Rightarrow> ('a \<Rightarrow> 's \<Rightarrow> bool) \<Rightarrow> ('s \<Rightarrow> bool) \<Rightarrow> bool" where
  "triple P m Q E \<longleftrightarrow> (\<forall>s. P s \<longrightarrow> (case m s of (Ok x, t) \<Rightarrow> Q x t | (_, t) \<Rightarrow> E t))"

lemma triple_then: "triple P m Q E \<Longrightarrow> (\<And>x. triple (Q x) (f x) R E) \<Longrightarrow> triple P (act_then m f) R E"
  unfolding triple_def by (fastforce simp: act_then_apply split: outcome.splits prod.splits)

lemma triple_give: "(\<And>s x. r = Ok x \<Longrightarrow> P s \<Longrightarrow> Q x s) \<Longrightarrow> (\<And>s. \<not> is_ok r \<Longrightarrow> P s \<Longrightarrow> E s) \<Longrightarrow> triple P (give r) Q E"
  by (cases r) (auto simp: triple_def)

lemma triple_pair: "(\<And>s x. r = Ok x \<Longrightarrow> P s \<Longrightarrow> Q x s) \<Longrightarrow> (\<And>s. \<not> is_ok r \<Longrightarrow> P s \<Longrightarrow> E s) \<Longrightarrow> triple P (Pair r) Q E"
  by (cases r) (auto simp: triple_def)

lemma triple_keeps: "triple I m (\<lambda>_. I) I \<longleftrightarrow> keeps I m"
  unfolding triple_def keeps_def by (fastforce split: outcome.splits prod.splits)

lemma triple_any: "keeps I m \<Longrightarrow> (\<And>s. I s \<Longrightarrow> E s) \<Longrightarrow> triple I m (\<lambda>_. I) E"
  unfolding triple_def keeps_def by (fastforce split: outcome.splits prod.splits)

lemma triple_weaker: "triple P m Q E \<Longrightarrow> (\<And>s. P' s \<Longrightarrow> P s) \<Longrightarrow> (\<And>x s. Q x s \<Longrightarrow> Q' x s) \<Longrightarrow> (\<And>s. E s \<Longrightarrow> E' s) \<Longrightarrow> triple P' m Q' E'"
  unfolding triple_def by (fastforce split: outcome.splits prod.splits)

lemma triple_pure: "(b \<Longrightarrow> triple P m Q E) \<Longrightarrow> triple (\<lambda>s. b \<and> P s) m Q E"
  by (cases b) (simp_all add: triple_def)

section \<open>Statements\<close>

lemma on_galleries_triple:
  assumes "\<And>t x t1. P t \<Longrightarrow> f t = (Ok x, t1) \<Longrightarrow> Q x t1" and "\<And>t. P t \<Longrightarrow> \<not> is_ok (fst (f t)) \<Longrightarrow> E (snd (f t))" and "\<And>t. P t \<Longrightarrow> E t"
  shows "triple (\<lambda>s. P (fst s)) (on_galleries w f) (\<lambda>x s. Q x (fst s)) (\<lambda>s. E (fst s))"
  unfolding triple_def
proof (intro allI impI)
  fix s :: "'b gallery_state" assume P: "P (fst s)"
  obtain r t1 where f: "f (fst s) = (r, t1)" by force
  show "case on_galleries w f s of (Ok x, s1) \<Rightarrow> Q x (fst s1) | (_, s1) \<Rightarrow> E (fst s1)"
    using assms(1) [OF P, of _ t1] assms(2,3) [OF P] f
    by (cases s; cases r) (auto simp: on_galleries_def act_then_apply beside_apply split: outcome.splits)
qed

lemma on_galleries_keeps: "(\<And>t. P t \<Longrightarrow> P (snd (f t))) \<Longrightarrow> keeps (\<lambda>s. P (fst s)) (on_galleries w f)"
  unfolding triple_keeps [symmetric] by (rule on_galleries_triple) (metis snd_conv, auto)

lemma ask_galleries_keeps [simp]: "keeps (\<lambda>s. P (fst s)) (ask_galleries w f)"
  unfolding ask_galleries_def by (rule on_galleries_keeps) simp

lemma write_galleries_keeps: "(\<And>t. P t \<Longrightarrow> P (f t)) \<Longrightarrow> keeps (\<lambda>s. P (fst s)) (write_galleries w f)"
  unfolding write_galleries_def by (rule on_galleries_keeps) simp

lemma beside_keeps [simp]: "keeps (\<lambda>s. P (fst s)) (beside m)"
  by (simp add: keeps_def)

lemma given_keeps [simp]: "keeps I (check_fields w flds)" "keeps I (viewer ctx)"
  by (simp_all add: check_fields_def viewer_def)

text \<open>What a transaction's body breaks on the way it has to mend only when it ends well.\<close>

lemma in_transaction_triple:
  assumes "triple (\<lambda>s. P (fst s)) m (\<lambda>x s. Q x (fst s)) (\<lambda>_. True)" and "\<And>t. P t \<Longrightarrow> E t"
  shows "triple (\<lambda>s. P (fst s)) (in_transaction w m) (\<lambda>x s. Q x (fst s)) (\<lambda>s. E (fst s))"
  unfolding triple_def
proof (intro allI impI)
  fix s :: "'a gallery_state" assume P: "P (fst s)"
  have m: "case m (fst s, c) of (Ok x, s1) \<Rightarrow> Q x (fst s1) | (_, s1) \<Rightarrow> True" for c
    using assms(1) P unfolding triple_def by (metis fst_conv)
  show "case in_transaction w m s of (Ok x, s1) \<Rightarrow> Q x (fst s1) | (_, s1) \<Rightarrow> E (fst s1)"
    using P assms(2) [OF P] m [of "snd (gw_connect w (snd s))"]
    by (cases s) (auto simp: in_transaction_def act_then_apply beside_apply split: outcome.splits prod.splits)
qed

lemma in_transaction_keeps: "keeps (\<lambda>s. P (fst s)) m \<Longrightarrow> keeps (\<lambda>s. P (fst s)) (in_transaction w m)"
  unfolding triple_keeps [symmetric] by (rule in_transaction_triple) (auto elim: triple_weaker)

lemma loads_keep [simp]: "keeps (\<lambda>s. P (fst s)) (load_gallery w i)" "keeps (\<lambda>s. P (fst s)) (load_collection w i)"
  unfolding load_gallery_def load_collection_def missing_as_def by (intro keeps_wrapped ask_galleries_keeps)+

lemma pair_keeps [simp]: "keeps I (Pair r)"
  by (simp add: keeps_def)

lemma some_rows_keeps: "(\<And>t. P t \<Longrightarrow> P (snd (f t))) \<Longrightarrow> keeps (\<lambda>s. P (fst s)) (some_rows w e f)"
  unfolding some_rows_def by (intro keeps_then on_galleries_keeps) (auto split: prod.split_asm prod.split, metis snd_conv)

section \<open>Tables before and after\<close>

text \<open>
  Rules that follow an act from known tables: each statement either leaves off there, or goes on
  with what it read or wrote.
\<close>

lemma tripleD: "triple P m Q E \<Longrightarrow> P s \<Longrightarrow> (case m s of (Ok x, t) \<Rightarrow> Q x t | (_, t) \<Rightarrow> E t)"
  by (simp add: triple_def)

lemma triple_result: "triple (\<lambda>s. fst s = t) m Q E \<Longrightarrow> m (t, c) = (Ok x, s1) \<Longrightarrow> Q x s1"
  using tripleD [of "\<lambda>s. fst s = t" m Q E "(t, c)"] by simp

lemma triple_failure: "triple (\<lambda>s. fst s = t) m Q E \<Longrightarrow> m (t, c) = (r, s1) \<Longrightarrow> \<not> is_ok r \<Longrightarrow> E s1"
  using tripleD [of "\<lambda>s. fst s = t" m Q E "(t, c)"] by (cases r) simp_all

lemma on_at:
  assumes "\<And>x u. f t = (Ok x, u) \<Longrightarrow> triple (\<lambda>s. fst s = u) (g x) R (\<lambda>s. E (fst s))" and "\<And>r u. f t = (r, u) \<Longrightarrow> \<not> is_ok r \<Longrightarrow> E u" and "E t"
  shows "triple (\<lambda>s. fst s = t) (act_then (on_galleries w f) g) R (\<lambda>s. E (fst s))"
proof (rule triple_then)
  show "triple (\<lambda>s. fst s = t) (on_galleries w f) (\<lambda>x s. f t = (Ok x, fst s)) (\<lambda>s. E (fst s))"
    by (rule on_galleries_triple) (use assms(2,3) in \<open>auto simp: prod_eq_iff\<close>)
  show "triple (\<lambda>s. f t = (Ok x, fst s)) (g x) R (\<lambda>s. E (fst s))" for x
    using assms(1) [of x] unfolding triple_def by fastforce
qed

lemma ask_at:
  assumes "\<And>x. f t = Ok x \<Longrightarrow> triple (\<lambda>s. fst s = t) (g x) R (\<lambda>s. E (fst s))" and "E t"
  shows "triple (\<lambda>s. fst s = t) (act_then (ask_galleries w f) g) R (\<lambda>s. E (fst s))"
  unfolding ask_galleries_def by (rule on_at) (use assms in auto)

lemma triple_wrapped: "triple P m Q E \<Longrightarrow> triple P (wrapped h m) Q E"
  unfolding triple_def by (fastforce simp: wrapped_def split: outcome.splits prod.splits)

lemma missing_at:
  assumes "\<And>x. f t = Ok x \<Longrightarrow> triple (\<lambda>s. fst s = t) (g x) R (\<lambda>s. E (fst s))" and "E t"
  shows "triple (\<lambda>s. fst s = t) (act_then (missing_as e (ask_galleries w f)) g) R (\<lambda>s. E (fst s))"
proof (rule triple_then)
  show "triple (\<lambda>s. fst s = t) (missing_as e (ask_galleries w f)) (\<lambda>x s. f t = Ok x \<and> fst s = t) (\<lambda>s. E (fst s))"
    unfolding missing_as_def ask_galleries_def
    by (intro triple_wrapped on_galleries_triple) (use assms(2) in auto)
  show "triple (\<lambda>s. f t = Ok x \<and> fst s = t) (g x) R (\<lambda>s. E (fst s))" for x
    by (rule triple_pure) (rule assms(1))
qed

lemmas load_at = missing_at [where f = "get_gallery_by_id i" and e = "gallery_not_found i" for i, folded load_gallery_def]
  missing_at [where f = "get_collection_by_id i" and e = "collection_not_found i" for i, folded load_collection_def]

lemma write_at:
  assumes "triple (\<lambda>s. fst s = f t) (g ()) R (\<lambda>s. E (fst s))" and "E t"
  shows "triple (\<lambda>s. fst s = t) (act_then (write_galleries w f) g) R (\<lambda>s. E (fst s))"
  unfolding write_galleries_def by (rule on_at) (use assms in auto)

lemma beside_at:
  assumes "\<And>x. triple (\<lambda>s. fst s = t) (g x) R (\<lambda>s. E (fst s))" and "E t"
  shows "triple (\<lambda>s. fst s = t) (act_then (beside m) g) R (\<lambda>s. E (fst s))"
proof (rule triple_then)
  show "triple (\<lambda>s. fst s = t) (beside m) (\<lambda>_ s. fst s = t) (\<lambda>s. E (fst s))"
    using beside_keeps [where P = "\<lambda>u. u = t"] assms(2) by (intro triple_any) simp_all
qed (rule assms(1))

lemma given_at:
  assumes "\<And>x. r = Ok x \<Longrightarrow> triple (\<lambda>s. fst s = t) (g x) R (\<lambda>s. E (fst s))" and "E t"
  shows "triple (\<lambda>s. fst s = t) (act_then (give r) g) R (\<lambda>s. E (fst s))"
  using assms by (cases r) (auto simp: triple_def)

lemma viewer_at:
  assumes "\<And>x. get_authenticated_user_id ctx = Ok x \<Longrightarrow> triple (\<lambda>s. fst s = t) (g x) R (\<lambda>s. E (fst s))" and "E t"
  shows "triple (\<lambda>s. fst s = t) (act_then (viewer ctx) g) R (\<lambda>s. E (fst s))"
  unfolding viewer_def using assms by (rule given_at)

lemma fields_at:
  assumes "triple (\<lambda>s. fst s = t) (g ()) R (\<lambda>s. E (fst s))" and "E t"
  shows "triple (\<lambda>s. fst s = t) (act_then (check_fields w flds) g) R (\<lambda>s. E (fst s))"
  unfolding check_fields_def using assms by (auto intro!: given_at)

lemma end_at: "(\<And>x s. r = Ok x \<Longrightarrow> fst s = t \<Longrightarrow> Q x s) \<Longrightarrow> (\<not> is_ok r \<Longrightarrow> E t) \<Longrightarrow> triple (\<lambda>s. fst s = t) (give r) Q (\<lambda>s. E (fst s))"
  by (rule triple_give) auto

lemma in_transaction_at:
  assumes "triple (\<lambda>s. fst s = t) m (\<lambda>x s. Q x (fst s)) (\<lambda>_. True)" and "\<And>x u. Q x u \<Longrightarrow> triple (\<lambda>s. fst s = u) (g x) R (\<lambda>s. E (fst s))" and "E t"
  shows "triple (\<lambda>s. fst s = t) (act_then (in_transaction w m) g) R (\<lambda>s. E (fst s))"
proof (rule triple_then)
  show "triple (\<lambda>s. fst s = t) (in_transaction w m) (\<lambda>x s. Q x (fst s)) (\<lambda>s. E (fst s))"
    by (rule in_transaction_triple [OF assms(1)]) (simp add: assms(3))
  show "triple (\<lambda>s. Q x (fst s)) (g x) R (\<lambda>s. E (fst s))" for x
    using assms(2) unfolding triple_def by fastforce
qed

lemma if_at: "(b \<Longrightarrow> triple P m Q E) \<Longrightarrow> (\<not> b \<Longrightarrow> triple P m' Q E) \<Longrightarrow> triple P (if b then m else m') Q E"
  by simp

lemma last_at: "triple P (act_then m (\<lambda>x. give (Ok x))) Q E \<Longrightarrow> triple P m Q E"
proof -
  have "act_then m (\<lambda>x. give (Ok x)) = m"
    by (rule ext) (auto simp: act_then_def split: prod.split outcome.split)
  then show "triple P (act_then m (\<lambda>x. give (Ok x))) Q E \<Longrightarrow> triple P m Q E" by simp
qed

lemma write_end: "(\<And>s. fst s = f t \<Longrightarrow> Q () s) \<Longrightarrow> E t \<Longrightarrow> triple (\<lambda>s. fst s = t) (write_galleries w f) Q (\<lambda>s. E (fst s))"
  by (rule last_at) (auto intro!: write_at end_at)

lemmas tables_at = load_at on_at ask_at write_at beside_at viewer_at fields_at given_at end_at write_end if_at

section \<open>Steps\<close>

text \<open>Any request of any caller, and anything else that happens outside the two tables.\<close>

inductive gallery_step :: "'c gallery_world \<Rightarrow> 'c gallery_state \<Rightarrow> 'c gallery_state \<Rightarrow> bool" for w where
  outside: "gallery_step w (t, c) (t, c')"
| gallery_created: "gallery_step w s (snd (create_gallery w ctx name description position s))"
| gallery_updated: "gallery_step w s (snd (update_gallery w ctx u s))"
| gallery_published: "gallery_step w s (snd (publish_gallery w i edit_id caption s))"
| gallery_deleted: "gallery_step w s (snd (delete_gallery w ctx i s))"
| collections_changed: "gallery_step w s (snd (update_gallery_collections_of w ctx i ids s))"
| info_changed: "gallery_step w s (snd (update_gallery_info_of w i name' description s))"
| hidden_changed: "gallery_step w s (snd (update_gallery_hidden_of w i hidden s))"
| positions_changed: "gallery_step w s (snd (update_gallery_positions_of w ctx positions s))"
| gallery_viewed: "gallery_step w s (snd (view_gallery w ctx authed external i s))"
| collection_created: "gallery_step w s (snd (create_collection w ctx i cname note tokens layout settings caption s))"
| collection_deleted: "gallery_step w s (snd (delete_collection w ctx i s))"
| collection_info_changed: "gallery_step w s (snd (update_collection_info w ctx i cname note s))"
| collection_tokens_changed: "gallery_step w s (snd (update_collection_tokens_of w ctx i tokens layout settings caption s))"
| collection_hidden_changed: "gallery_step w s (snd (update_collection_hidden w ctx i hidden s))"
| collection_moved: "gallery_step w s (snd (move_collection w ctx i gallery s))"

section \<open>Invariants\<close>

definition with_collection :: "collection_row \<Rightarrow> gallery_tables \<Rightarrow> gallery_tables" where
  "with_collection c t = t\<lparr>gt_collections := c # gt_collections t\<rparr>"

definition moved :: "string \<Rightarrow> string \<Rightarrow> string \<Rightarrow> gallery_tables \<Rightarrow> gallery_tables" where
  "moved i gallery cur t = remove_collection_from_gallery i cur (add_collection_to_gallery i gallery
     (on_collection (live_collection i) (\<lambda>c. c\<lparr>co_gallery := gallery\<rparr>) t))"

definition same_gallery :: "gallery_row \<Rightarrow> gallery_row \<Rightarrow> bool" where
  "same_gallery g h \<longleftrightarrow> ga_id h = ga_id g \<and> ga_owner h = ga_owner g \<and> ga_collections h = ga_collections g \<and> (ga_deleted g \<longrightarrow> ga_deleted h)"

definition same_collection :: "collection_row \<Rightarrow> collection_row \<Rightarrow> bool" where
  "same_collection c d \<longleftrightarrow> co_id d = co_id c \<and> co_owner d = co_owner c \<and> co_gallery d = co_gallery c"

text \<open>
  What an invariant has to say of the writes: rows that are inserted are new, the list of a
  gallery is only set to live collections of that gallery, and a collection that is created or
  moved is listed along with it.
\<close>

locale gallery_invariant =
  fixes I :: "gallery_tables \<Rightarrow> bool"
  assumes new_gallery: "I t \<Longrightarrow> ga_id g \<notin> ga_id ` set (gt_galleries t) \<Longrightarrow> ga_collections g = [] \<Longrightarrow>
      I (t\<lparr>gt_galleries := g # gt_galleries t\<rparr>)"
    and relisted: "I t \<Longrightarrow> (\<And>g. p g \<Longrightarrow> ga_id g = i \<and> collections_of_gallery i ids t = length ids) \<Longrightarrow>
      I (on_gallery p (\<lambda>g. g\<lparr>ga_collections := ids\<rparr>) t)"
    and gallery_edited: "I t \<Longrightarrow> (\<And>g. same_gallery g (f g)) \<Longrightarrow> I (on_gallery q f t)"
    and collection_edited: "I t \<Longrightarrow> (\<And>c. same_collection c (h c)) \<Longrightarrow> I (on_collection r h t)"
    and new_collection: "I t \<Longrightarrow> co_id c \<notin> co_id ` set (gt_collections t) \<Longrightarrow> I (with_collection c t)"
    and first_listed: "I t \<Longrightarrow> co_id c \<notin> co_id ` set (gt_collections t) \<Longrightarrow>
      I (snd (gallery_repo_add_collections j [co_id c] (with_collection c t)))"
    and collection_moved: "I t \<Longrightarrow> get_collection_by_id k t = Ok cur \<Longrightarrow> I (moved k j (co_gallery cur) t)"
begin

abbreviation kept :: "('c gallery_state, 'a) act \<Rightarrow> bool" where
  "kept \<equiv> keeps (\<lambda>s. I (fst s))"

lemma writes_keep:
  "I t \<Longrightarrow> I (gallery_repo_delete i user t)" "I t \<Longrightarrow> I (update_gallery_info i name description t)"
  "I t \<Longrightarrow> I (snd (update_gallery_hidden i hidden t))" "I t \<Longrightarrow> I (update_gallery_positions positions user t)"
  "I t \<Longrightarrow> I (delete_collections ids t)" "I t \<Longrightarrow> I (update_collections_info infos t)" "I t \<Longrightarrow> I (update_collection_tokens i ids t)"
  unfolding gallery_repo_delete_def update_gallery_info_def update_gallery_hidden_def update_gallery_positions_def
    delete_collections_def update_collections_info_def update_collection_tokens_def
  by (auto intro!: gallery_edited collection_edited simp: same_gallery_def same_collection_def Let_def)

lemma lists_keep: "I t \<Longrightarrow> I (update_gallery_collections i ids t)" "I t \<Longrightarrow> I (snd (gallery_repo_update i ids t))"
  unfolding update_gallery_collections_def gallery_repo_update_def
  by (auto intro!: relisted [where i = i] simp: Let_def live_gallery_def)

lemma inserts_keep: "I t \<Longrightarrow> I (snd (insert_collection c t))" "I t \<Longrightarrow> I (snd (gallery_repo_create g t))" if "ga_collections g = []"
  using new_collection [of t c] new_gallery [of t g] that
  by (auto simp: insert_collection_def gallery_repo_create_def with_collection_def)

lemma own_edits_keep: "(\<And>c. same_collection c (f c)) \<Longrightarrow> kept (update_own_collection w i user f)"
  unfolding update_own_collection_def by (rule some_rows_keeps) (simp add: update_own_def collection_edited)

lemmas kept_intros = keeps_then keeps_attempt write_galleries_keeps on_galleries_keeps in_transaction_keeps own_edits_keep
  writes_keep lists_keep

lemma row_kept: "kept (create_collection_row w row)"
  unfolding create_collection_row_def
  by (intro keeps_then on_galleries_keeps inserts_keep(1) [where g = "undefined\<lparr>ga_collections := []\<rparr>"]) auto

lemma check_tokens_kept: "kept (check_tokens w ctx flds tokens layout settings)"
  unfolding check_tokens_def by (intro keeps_then) simp_all

lemma create_collections_kept: "kept (create_collections w user owner gallery cs)"
  by (induction cs) (auto intro!: keeps_then row_kept)

lemma note_events_kept: "kept (note_events w user gallery us)"
  by (induction us) (auto intro!: keeps_then)

lemma token_events_kept: "kept (token_events w user gallery us)"
  by (induction us) (auto intro!: kept_intros simp: Let_def)

lemma edit_gallery_kept: "kept (edit_gallery w user cur u)"
  unfolding edit_gallery_def update_collections_info_and_tokens_def
  by (auto intro!: kept_intros create_collections_kept note_events_kept token_events_kept simp: Let_def)

lemma update_gallery_kept: "kept (update_gallery w ctx u)"
  unfolding update_gallery_def by (auto intro!: kept_intros edit_gallery_kept)

lemma gallery_edits_kept:
  "kept (create_gallery w ctx name description position)" "kept (delete_gallery w ctx i)"
  "kept (update_gallery_collections_of w ctx i ids)" "kept (update_gallery_info_of w i name description)"
  "kept (update_gallery_hidden_of w i hidden)" "kept (update_gallery_positions_of w ctx positions)"
  "kept (view_gallery w ctx authed external i)" "kept (publish_gallery w i edit_id caption)"
  unfolding create_gallery_def delete_gallery_def update_gallery_collections_of_def update_gallery_info_of_def
    update_gallery_hidden_of_def update_gallery_positions_of_def view_gallery_def publish_gallery_def
    gallery_repo_update_collections_def ensure_colls_owned_by_user_def
  by (auto intro!: kept_intros some_rows_keeps inserts_keep simp: Let_def)

lemma collection_edits_kept:
  "kept (delete_collection w ctx i)" "kept (update_collection_info w ctx i name note)"
  "kept (update_collection_tokens_of w ctx i tokens layout settings caption)" "kept (update_collection_hidden w ctx i hidden)"
  unfolding delete_collection_def update_collection_info_def update_collection_tokens_of_def update_collection_hidden_def
  by (auto intro!: kept_intros check_tokens_kept simp: Let_def same_collection_def)

lemma create_collection_kept: "kept (create_collection (w :: 'd gallery_world) ctx gallery name note tokens layout settings caption)"
proof -
  let ?new = "\<lambda>i t. \<exists>t1 c. I t1 \<and> co_id c = i \<and> i \<notin> co_id ` set (gt_collections t1) \<and> t = with_collection c t1"
  have new: "I t" if "?new i t" for i t
    using that new_collection by blast
  have row: "triple (\<lambda>s. I (fst s)) (create_collection_row w row) (\<lambda>i s. ?new i (fst s)) (\<lambda>s. I (fst s))" if "\<And>i. co_id (row i) = i" for row
    unfolding create_collection_row_def
    by (intro triple_then [where Q = "\<lambda>_ s. I (fst s)"] triple_any on_galleries_triple beside_keeps)
      (auto simp: insert_collection_def with_collection_def that split: if_split_asm, metis that)
  have listed: "triple (\<lambda>s. ?new i (fst s)) (add_collections w gallery user [i]) (\<lambda>_ s. I (fst s)) (\<lambda>s. I (fst s))" for i user
    unfolding add_collections_def ensure_colls_owned_by_user_def some_rows_def
  proof (intro triple_then)
    show "triple (\<lambda>s. ?new i (fst s)) (ask_galleries w (\<lambda>t. Ok (gallery_repo_check_own_collections user [i] t))) (\<lambda>_ s. ?new i (fst s)) (\<lambda>s. I (fst s))"
      by (rule triple_any [OF ask_galleries_keeps]) (rule new)
    show "triple (\<lambda>s. ?new i (fst s)) (give (if n \<noteq> int (length [i]) then Err colls_not_owned_by_user else Ok ())) (\<lambda>_ s. ?new i (fst s)) (\<lambda>s. I (fst s))" for n
      by (rule triple_give) (use new in blast)+
    show "triple (\<lambda>s. ?new i (fst s)) (on_galleries w (\<lambda>t. case gallery_repo_add_collections gallery [i] t of (n, t1) \<Rightarrow> (Ok n, t1))) (\<lambda>_ s. I (fst s)) (\<lambda>s. I (fst s))"
    proof (rule on_galleries_triple)
      fix t x t1 assume "?new i t" "(case gallery_repo_add_collections gallery [i] t of (n, t1) \<Rightarrow> (Ok n, t1)) = (Ok x, t1)"
      then show "I t1" using first_listed by (auto split: prod.split_asm) (metis snd_conv)
    next
      fix t assume t: "?new i t"
      from t show "I t" by (rule new)
      assume "\<not> is_ok (fst (case gallery_repo_add_collections gallery [i] t of (n, t1) \<Rightarrow> (Ok n, t1)))"
      then show "I (snd (case gallery_repo_add_collections gallery [i] t of (n, t1) \<Rightarrow> (Ok n, t1)))" by (simp add: split_def)
    qed
    show "triple (\<lambda>s. I (fst s)) (give (if n = 0 then Err (gallery_not_found gallery) else Ok ())) (\<lambda>_ s. I (fst s)) (\<lambda>s. I (fst s))" for n
      by (rule triple_give) auto
  qed
  have "kept (act_then (create_collection_row w row) (\<lambda>i. act_then (add_collections w gallery user [i]) (f i)))"
    if "\<And>i. co_id (row i) = i" "\<And>i x. kept (f i x)" for row user and f :: "string \<Rightarrow> unit \<Rightarrow> ('d gallery_state, 'e) act"
    unfolding triple_keeps [symmetric]
  proof (rule triple_then [OF row])
    show "triple (\<lambda>s. ?new i (fst s)) (act_then (add_collections w gallery user [i]) (f i)) (\<lambda>_ s. I (fst s)) (\<lambda>s. I (fst s))" for i
      by (rule triple_then [OF listed]) (simp add: triple_keeps that(2))
  qed (rule that(1))
  note created = this
  show ?thesis
    unfolding create_collection_def Let_def
    by (rule keeps_then [OF check_tokens_kept], simp only: split_def, rule created) (auto intro!: keeps_then)
qed

lemma move_collection_kept: "kept (move_collection w ctx i gallery)"
proof -
  have "triple (\<lambda>s. I (fst s)) (act_then (ask_galleries w (get_collection_by_id i)) (\<lambda>cur.
      act_then (on_galleries w (update_collection_gallery i gallery)) (\<lambda>_.
        act_then (write_galleries w (add_collection_to_gallery i gallery)) (\<lambda>_.
          act_then (write_galleries w (remove_collection_from_gallery i (co_gallery cur))) (\<lambda>_. give (Ok (co_gallery cur)))))))
      (\<lambda>_ s. I (fst s)) (\<lambda>_. True)"
    (is "triple _ (act_then _ ?rest) _ _")
  proof (rule triple_then)
    show "triple (\<lambda>s. I (fst s)) (ask_galleries w (get_collection_by_id i)) (\<lambda>cur s. I (fst s) \<and> get_collection_by_id i (fst s) = Ok cur) (\<lambda>_. True)"
      unfolding ask_galleries_def by (rule on_galleries_triple) auto
    show "triple (\<lambda>s. I (fst s) \<and> get_collection_by_id i (fst s) = Ok cur) (?rest cur) (\<lambda>_ s. I (fst s)) (\<lambda>_. True)" for cur
      unfolding write_galleries_def
    proof (intro triple_then)
      show "triple (\<lambda>s. I (fst s) \<and> get_collection_by_id i (fst s) = Ok cur) (on_galleries w (update_collection_gallery i gallery))
         (\<lambda>_ s. \<exists>t1. I t1 \<and> get_collection_by_id i t1 = Ok cur \<and> fst s = on_collection (live_collection i) (\<lambda>c. c\<lparr>co_gallery := gallery\<rparr>) t1) (\<lambda>_. True)"
        by (rule on_galleries_triple) (auto simp: update_collection_gallery_def split: if_split_asm)
      show "triple (\<lambda>s. \<exists>t1. I t1 \<and> get_collection_by_id i t1 = Ok cur \<and> fst s = on_collection (live_collection i) (\<lambda>c. c\<lparr>co_gallery := gallery\<rparr>) t1)
         (on_galleries w (\<lambda>t. (Ok (), add_collection_to_gallery i gallery t)))
         (\<lambda>_ s. I (remove_collection_from_gallery i (co_gallery cur) (fst s))) (\<lambda>_. True)"
        by (rule on_galleries_triple) (use collection_moved in \<open>auto simp: moved_def\<close>)
      show "triple (\<lambda>s. I (remove_collection_from_gallery i (co_gallery cur) (fst s)))
         (on_galleries w (\<lambda>t. (Ok (), remove_collection_from_gallery i (co_gallery cur) t))) (\<lambda>_ s. I (fst s)) (\<lambda>_. True)"
        by (rule on_galleries_triple) auto
    qed (auto intro: triple_give)
  qed
  then have "kept (in_transaction w (act_then (ask_galleries w (get_collection_by_id i)) ?rest))"
    unfolding triple_keeps [symmetric] by (rule in_transaction_triple) simp
  then show ?thesis
    unfolding move_collection_def by (auto intro!: keeps_then)
qed

lemma kept_result: "kept m \<Longrightarrow> I (fst s) \<Longrightarrow> I (fst (snd (m s)))"
  unfolding keeps_def by blast

lemma step_keeps: "gallery_step w s s' \<Longrightarrow> I (fst s) \<Longrightarrow> I (fst s')"
  by (erule gallery_step.cases)
    (auto intro: kept_result gallery_edits_kept collection_edits_kept update_gallery_kept create_collection_kept move_collection_kept)

lemma steps_keep: "(gallery_step w)\<^sup>*\<^sup>* s s' \<Longrightarrow> I (fst s) \<Longrightarrow> I (fst s')"
  by (induction rule: rtranclp_induct) (auto intro: step_keeps)

end

end
