(* ===== verification/GallerySafety.thy ===== *)
theory GallerySafety
  imports GalleryRules "HOL-Library.Sublist"
begin

text \<open>
  What galleries and collections promise: where every token of a collection is laid out, that a
  collection is shown once and rows keep their owners whatever is requested, and which requests
  reach what belongs to other users.
\<close>

section \<open>Sections\<close>

definition section_sizes :: "nat \<Rightarrow> int list \<Rightarrow> int list" where
  "section_sizes n sections = map2 (-) (tl sections @ [int n]) sections"

definition section_fits :: "section_layout \<Rightarrow> int \<Rightarrow> bool" where
  "section_fits l k \<longleftrightarrow> 0 \<le> sint (sl_columns l) \<and> sint (sl_columns l) \<le> 10 \<and> length (sl_whitespace l) \<le> 1000 \<and>
     (\<forall>i \<in> set (sl_whitespace l). i \<le> k) \<and> k \<le> 1000"

definition with_default_columns :: "section_layout \<Rightarrow> section_layout" where
  "with_default_columns l = (if sl_columns l = 0 then l\<lparr>sl_columns := 3\<rparr> else l)"

lemma bad_whitespace_None: "bad_whitespace i k ws = None \<longleftrightarrow> (\<forall>x \<in> set ws. x \<le> k)"
  by (induction ws arbitrary: i) auto

lemma validate_section_layout_fits:
  "is_ok (validate_section_layout l k) \<longleftrightarrow> section_fits l k"
  "validate_section_layout l k = Ok l1 \<Longrightarrow> l1 = with_default_columns l"
  "validate_section_layout l k \<noteq> Panic p"
  using bad_whitespace_None [of 0 k "sl_whitespace l"]
  by (cases "bad_whitespace 0 k (sl_whitespace l)"; force simp: validate_section_layout_def section_fits_def with_default_columns_def
      min_columns_def max_columns_def max_whitespace_def max_tokens_per_section_def default_columns_def Let_def split: if_split_asm)+

lemma tokens_in_section_size:
  assumes "pos < length sections" and "\<forall>x \<in> set sections. 0 \<le> x \<and> x < int n"
  shows "tokens_in_section pos n sections = Ok (section_sizes n sections ! pos)"
proof -
  have "0 \<le> sections ! pos" "sections ! pos < int n" using assms nth_mem by blast+
  then show ?thesis
    using assms(1) by (auto simp: tokens_in_section_def section_sizes_def nth_append nth_tl)
qed

lemma validate_sections_sizes:
  assumes "\<forall>x \<in> set sections. 0 \<le> x \<and> x < int n" and "pos + length ls = length sections"
  shows "\<not> is_panic (validate_sections pos n sections ls) \<and>
    (is_ok (validate_sections pos n sections ls) \<longleftrightarrow> list_all2 section_fits ls (drop pos (section_sizes n sections))) \<and>
    (\<forall>ls1. validate_sections pos n sections ls = Ok ls1 \<longrightarrow> ls1 = map with_default_columns ls)"
  using assms(2)
proof (induction ls arbitrary: pos)
  case Nil
  then show ?case by (simp add: section_sizes_def is_panic_def)
next
  case (Cons l ls)
  let ?k = "section_sizes n sections ! pos"
  have pos: "pos < length sections" using Cons.prems by simp
  have sizes: "drop pos (section_sizes n sections) = ?k # drop (Suc pos) (section_sizes n sections)"
    using pos by (intro Cons_nth_drop_Suc [symmetric]) (auto simp: section_sizes_def)
  have IH: "\<not> is_panic (validate_sections (pos + 1) n sections ls) \<and>
    (is_ok (validate_sections (pos + 1) n sections ls) \<longleftrightarrow> list_all2 section_fits ls (drop (pos + 1) (section_sizes n sections))) \<and>
    (\<forall>ls1. validate_sections (pos + 1) n sections ls = Ok ls1 \<longrightarrow> ls1 = map with_default_columns ls)"
    by (rule Cons.IH) (use Cons.prems in simp)
  show ?case
    using IH validate_section_layout_fits [of l ?k]
    by (cases "validate_section_layout l ?k"; cases "validate_sections (pos + 1) n sections ls")
      (auto simp: tokens_in_section_size [OF pos assms(1)] sizes is_panic_def)
qed

lemma sum_sizes: "sections \<noteq> [] \<Longrightarrow> sum_list (section_sizes n sections) = int n - hd sections"
proof (induction sections)
  case (Cons x xs)
  then show ?case by (cases xs) (auto simp: section_sizes_def)
qed simp

lemma sizes_positive:
  assumes "sorted sections" "distinct sections" "\<forall>x \<in> set sections. x < int n"
  shows "\<forall>k \<in> set (section_sizes n sections). 1 \<le> k"
  using assms
proof (induction sections)
  case (Cons x xs)
  then show ?case by (cases xs) (fastforce simp: section_sizes_def)+
qed (simp add: section_sizes_def)

lemma sint_nonzero: "sint (x :: i32) = 0 \<longleftrightarrow> x = 0"
  by (rule signed_eq_0_iff)

text \<open>
  Property C18. The layout of a collection covers its tokens: when the sections pass the tags of
  the validation and start at 0, as \<^verbatim>\<open>StandardizeCollectionSections\<close> makes them, checking a layout
  never panics; it is accepted exactly when every section fits its tokens; every section has a
  token, the sections together have all of them, and every accepted section has 1 to 10 columns.
\<close>

theorem layout_sections_bounded:
  assumes "tl_sections layout = standardize_collection_sections raw"
    and "sorted (tl_sections layout)" "distinct (tl_sections layout)" "length (tl_section_layout layout) = length (tl_sections layout)"
    and "\<forall>x \<in> set (tl_sections layout). 0 \<le> x \<and> x \<le> int (length tokens) - 1"
  shows "\<not> is_panic (validate_layout layout tokens) \<and>
    (is_ok (validate_layout layout tokens) \<longleftrightarrow>
      list_all2 section_fits (tl_section_layout layout) (section_sizes (length tokens) (tl_sections layout))) \<and>
    (\<forall>k \<in> set (section_sizes (length tokens) (tl_sections layout)). 1 \<le> k) \<and>
    sum_list (section_sizes (length tokens) (tl_sections layout)) = int (length tokens) \<and>
    (\<forall>l. validate_layout layout tokens = Ok l \<longrightarrow> tl_sections l = tl_sections layout \<and>
      (\<forall>x \<in> set (tl_section_layout l). 1 \<le> sint (sl_columns x) \<and> sint (sl_columns x) \<le> 10))"
proof -
  let ?n = "length tokens" and ?sections = "tl_sections layout"
  have starts: "?sections \<noteq> []" "hd ?sections = 0"
    using assms(1) by (auto simp: standardize_collection_sections_def split: list.splits)
  have within: "\<forall>x \<in> set ?sections. 0 \<le> x \<and> x < int ?n" using assms(5) by fastforce
  note checked = validate_sections_sizes [OF within, of 0 "tl_section_layout layout", simplified, OF assms(4)]
  have columns: "1 \<le> sint (sl_columns (with_default_columns x)) \<and> sint (sl_columns (with_default_columns x)) \<le> 10"
    if "section_fits x k" for x k
    using that sint_nonzero [of "sl_columns x"]
    by (auto simp: section_fits_def with_default_columns_def)
  have accepted: "\<forall>x \<in> set (map with_default_columns (tl_section_layout layout)). 1 \<le> sint (sl_columns x) \<and> sint (sl_columns x) \<le> 10"
    if "list_all2 section_fits (tl_section_layout layout) (section_sizes ?n ?sections)"
    using that columns by (fastforce simp: list_all2_conv_all_nth in_set_conv_nth)
  have sizes: "\<forall>k \<in> set (section_sizes ?n ?sections). 1 \<le> k" "sum_list (section_sizes ?n ?sections) = int ?n"
    using sizes_positive [OF assms(2,3), of ?n] within sum_sizes [OF starts(1), of ?n] starts(2) by auto
  show ?thesis
    using checked accepted sizes
    by (cases "validate_sections 0 ?n ?sections (tl_section_layout layout)") (auto simp: validate_layout_def)
qed

definition sample_layout :: token_layout where
  "sample_layout = model_to_token_layout \<lparr>li_sections = [2, 3], li_section_layout =
     [\<lparr>si_columns = 0, si_whitespace = [1]\<rparr>, \<lparr>si_columns = 10, si_whitespace = []\<rparr>, \<lparr>si_columns = 4, si_whitespace = [0, 2]\<rparr>]\<rparr>"

theorem layout_sections_bounded_witness:
  "is_ok (validate_layout sample_layout [''a'', ''b'', ''c'', ''d'', ''e'']) \<and> section_sizes 5 (tl_sections sample_layout) = [2, 1, 2]"
proof -
  have layout: "tl_sections sample_layout = [0, 2, 3]" "tl_sections sample_layout = standardize_collection_sections [2, 3]"
    "tl_section_layout sample_layout = [\<lparr>sl_columns = 0, sl_whitespace = [1]\<rparr>, \<lparr>sl_columns = 10, sl_whitespace = []\<rparr>, \<lparr>sl_columns = 4, sl_whitespace = [0, 2]\<rparr>]"
    by (simp_all add: sample_layout_def model_to_token_layout_def standardize_collection_sections_def)
  from layout_sections_bounded [OF layout(2), of "[''a'', ''b'', ''c'', ''d'', ''e'']"] show ?thesis
    by (simp add: layout section_sizes_def section_fits_def)
qed

section \<open>Every collection is shown once\<close>

text \<open>
  Ids are unique, and a gallery that is not deleted lists, without repetition, collections that
  belong to it.
\<close>

definition homes :: "gallery_tables \<Rightarrow> (string \<times> string) set" where
  "homes t = (\<lambda>c. (co_id c, co_gallery c)) ` set (gt_collections t)"

definition ids_unique :: "gallery_tables \<Rightarrow> bool" where
  "ids_unique t \<longleftrightarrow> distinct (map co_id (gt_collections t)) \<and> distinct (map ga_id (gt_galleries t))"

definition lists_own :: "gallery_tables \<Rightarrow> gallery_row \<Rightarrow> bool" where
  "lists_own t g \<longleftrightarrow> distinct (ga_collections g) \<and> (\<forall>i \<in> set (ga_collections g). (i, ga_id g) \<in> homes t)"

definition listed_ok :: "gallery_tables \<Rightarrow> bool" where
  "listed_ok t \<longleftrightarrow> ids_unique t \<and> (\<forall>g \<in> set (gt_galleries t). \<not> ga_deleted g \<longrightarrow> lists_own t g)"

definition shown_collections :: "gallery_tables \<Rightarrow> string list" where
  "shown_collections t = concat (map ga_collections (filter (\<lambda>g. \<not> ga_deleted g) (gt_galleries t)))"

lemma one_home: "ids_unique t \<Longrightarrow> (i, a) \<in> homes t \<Longrightarrow> (i, b) \<in> homes t \<Longrightarrow> a = b"
  unfolding ids_unique_def homes_def distinct_map inj_on_def by (elim imageE conjE) (metis prod.inject)

lemma listed_okD: "listed_ok t \<Longrightarrow> g \<in> set (gt_galleries t) \<Longrightarrow> \<not> ga_deleted g \<Longrightarrow> lists_own t g"
  by (simp add: listed_ok_def)

lemma shown_once:
  assumes t: "listed_ok t"
  shows "distinct (shown_collections t)"
proof -
  have "distinct (concat (map ga_collections (filter (\<lambda>g. \<not> ga_deleted g) gs)))"
    if "distinct (map ga_id gs)" "set gs \<subseteq> set (gt_galleries t)" for gs
    using that
  proof (induction gs)
    case (Cons g gs)
    have "ga_id g = ga_id h" if "\<not> ga_deleted g" "h \<in> set gs" "\<not> ga_deleted h" "i \<in> set (ga_collections g)" "i \<in> set (ga_collections h)" for h i
      using that listed_okD [OF t, of g] listed_okD [OF t, of h] Cons.prems(2) t
      by (intro one_home [of t i]) (auto simp: lists_own_def listed_ok_def)
    moreover have "ga_id g \<noteq> ga_id h" if "h \<in> set gs" for h
      using that Cons.prems(1) by auto
    ultimately show ?case using Cons listed_okD [OF t, of g] by (fastforce simp: lists_own_def)
  qed simp
  from this [of "gt_galleries t"] t show ?thesis by (simp add: listed_ok_def ids_unique_def shown_collections_def)
qed

lemma collections_of_gallery_all:
  assumes "ids_unique t" and "collections_of_gallery i ids t = length ids"
  shows "distinct ids" and "x \<in> set ids \<Longrightarrow> (x, i) \<in> homes t"
proof -
  let ?rows = "filter (\<lambda>c. co_id c \<in> set ids \<and> co_gallery c = i \<and> \<not> co_deleted c) (gt_collections t)"
  have card: "card (set (map co_id ?rows)) = length ids"
    using assms by (subst distinct_card) (auto simp: collections_of_gallery_def ids_unique_def distinct_map_filter)
  have sub: "set (map co_id ?rows) \<subseteq> set ids" by auto
  have "length ids \<le> card (set ids)" using card_mono [OF finite_set sub] card by simp
  then have len: "card (set ids) = length ids" using card_length [of ids] by simp
  then show "distinct ids" by (rule card_distinct)
  have "set (map co_id ?rows) = set ids"
    by (rule card_subset_eq [OF finite_set sub]) (simp only: len card)
  then show "x \<in> set ids \<Longrightarrow> (x, i) \<in> homes t" by (auto simp: homes_def)
qed

lemma tables_fields [simp]:
  "gt_collections (on_gallery p f t) = gt_collections t" "gt_galleries (on_collection r h t) = gt_galleries t"
  "gt_galleries (on_gallery p f t) = map (\<lambda>g. if p g then f g else g) (gt_galleries t)"
  "gt_collections (on_collection r h t) = map (\<lambda>c. if r c then h c else c) (gt_collections t)"
  "gt_galleries (with_collection c t) = gt_galleries t" "gt_collections (with_collection c t) = c # gt_collections t"
  by (simp_all add: on_gallery_def on_collection_def with_collection_def)

lemma homes_simps [simp]:
  "homes (on_gallery p f t) = homes t" "homes (with_collection c t) = insert (co_id c, co_gallery c) (homes t)"
  by (simp_all add: homes_def)

lemma ids_unique_edits:
  "ids_unique (on_gallery p f t) = ids_unique t" if "\<And>g. ga_id (f g) = ga_id g"
  using that by (simp add: ids_unique_def o_def if_distrib cong: if_cong)

lemma listed_ok_edit:
  assumes "listed_ok t" and "\<And>g. ga_id (f g) = ga_id g"
    and "\<And>g. g \<in> set (gt_galleries t) \<Longrightarrow> p g \<Longrightarrow> \<not> ga_deleted (f g) \<Longrightarrow> lists_own t (f g)"
  shows "listed_ok (on_gallery p f t)"
  using assms by (auto simp: listed_ok_def ids_unique_edits lists_own_def)

lemma listed_ok_with:
  assumes "listed_ok t" and "co_id c \<notin> co_id ` set (gt_collections t)"
  shows "listed_ok (with_collection c t)"
  using assms by (simp add: listed_ok_def ids_unique_def lists_own_def)

lemma listed_ok_first:
  assumes t: "listed_ok t" and c: "co_id c \<notin> co_id ` set (gt_collections t)"
  shows "listed_ok (snd (gallery_repo_add_collections j [co_id c] (with_collection c t)))"
proof -
  have "(co_id c, ga_id g) \<notin> homes t" for g
    using c by (auto simp: homes_def)
  then have fresh: "co_id c \<notin> set (ga_collections g)" if "g \<in> set (gt_galleries t)" "\<not> ga_deleted g" for g
    using listed_okD [OF t that] by (auto simp: lists_own_def)
  show ?thesis
    unfolding gallery_repo_add_collections_def Let_def snd_conv
  proof (rule listed_ok_edit [OF listed_ok_with [OF t c]])
    fix g assume g: "g \<in> set (gt_galleries (with_collection c t))"
      "ga_id g = j \<and> collections_of_gallery j [co_id c] (with_collection c t) = length [co_id c]"
      "\<not> ga_deleted (g\<lparr>ga_collections := [co_id c] @ ga_collections g\<rparr>)"
    then have "(co_id c, j) \<in> homes (with_collection c t)"
      using collections_of_gallery_all(2) [of "with_collection c t" j "[co_id c]" "co_id c"] listed_ok_with [OF t c] by (simp add: listed_ok_def)
    with g fresh [of g] listed_okD [OF t, of g] show "lists_own (with_collection c t) (g\<lparr>ga_collections := [co_id c] @ ga_collections g\<rparr>)"
      by (simp add: lists_own_def)
  qed simp
qed

lemma moved_collections [simp]:
  "gt_collections (moved i j k t) = map (\<lambda>c. if live_collection i c then c\<lparr>co_gallery := j\<rparr> else c) (gt_collections t)"
  by (simp add: moved_def remove_collection_from_gallery_def add_collection_to_gallery_def)

lemma moved_galleries: "gt_galleries (moved i j k t) = map (\<lambda>h. h\<lparr>ga_collections :=
     if live_gallery k h then removeAll i (ga_collections h) else if live_gallery j h then ga_collections h @ [i] else ga_collections h\<rparr>) (gt_galleries t)"
  by (auto simp: moved_def remove_collection_from_gallery_def add_collection_to_gallery_def live_gallery_def)

lemma listed_at_home:
  assumes "listed_ok t" and "cur \<in> set (gt_collections t)" and "g \<in> set (gt_galleries t)" "\<not> ga_deleted g" "co_id cur \<in> set (ga_collections g)"
  shows "co_gallery cur = ga_id g"
  using listed_okD [OF assms(1,3,4)] assms by (intro one_home [of t "co_id cur"]) (auto simp: lists_own_def listed_ok_def homes_def)

lemma collection_found: "get_collection_by_id i t = Ok c \<Longrightarrow> c \<in> set (gt_collections t) \<and> co_id c = i \<and> live_collection i c"
  by (auto simp: get_collection_by_id_def first_row_def live_collection_def filter_eq_Cons_iff split: list.splits)

lemma listed_ok_moved:
  assumes t: "listed_ok t" and cur: "get_collection_by_id i t = Ok cur"
  shows "listed_ok (moved i j (co_gallery cur) t)"
proof -
  let ?u = "on_collection (live_collection i) (\<lambda>c. c\<lparr>co_gallery := j\<rparr>) t"
  have c: "cur \<in> set (gt_collections t)" "co_id cur = i" "live_collection i cur"
    using collection_found [OF cur] by auto
  have here: "(i, j) \<in> homes ?u"
    using c unfolding homes_def by (intro image_eqI [where x = "cur\<lparr>co_gallery := j\<rparr>"]) (auto simp: image_iff intro!: bexI [of _ cur])
  have others: "(x, g) \<in> homes ?u" if "(x, g) \<in> homes t" "x \<noteq> i" for x g
    using that by (force simp: homes_def live_collection_def)
  have unique: "ids_unique ?u"
    using t by (simp add: listed_ok_def ids_unique_def o_def if_distrib cong: if_cong)
  have home: "co_gallery cur = ga_id g" if "g \<in> set (gt_galleries t)" "\<not> ga_deleted g" "i \<in> set (ga_collections g)" for g
    using listed_at_home [OF t c(1) that(1,2)] that(3) c(2) by simp
  let ?listed = "\<lambda>h. if live_gallery (co_gallery cur) h then removeAll i (ga_collections h)
      else if live_gallery j h then ga_collections h @ [i] else ga_collections h"
  have galleries: "gt_galleries (moved i j (co_gallery cur) t) = map (\<lambda>h. h\<lparr>ga_collections := ?listed h\<rparr>) (gt_galleries t)"
    by (rule moved_galleries)
  have "lists_own (moved i j (co_gallery cur) t) (h\<lparr>ga_collections := ?listed h\<rparr>)" if h: "h \<in> set (gt_galleries t)" "\<not> ga_deleted h" for h
  proof (cases "ga_id h = co_gallery cur")
    case True
    with h listed_okD [OF t h] show ?thesis
      by (auto simp: lists_own_def moved_def remove_collection_from_gallery_def add_collection_to_gallery_def live_gallery_def
          distinct_removeAll intro!: others)
  next
    case False
    with home [OF h] have "i \<notin> set (ga_collections h)" by auto
    then have "\<forall>x \<in> set (ga_collections h). (x, ga_id h) \<in> homes ?u"
      using listed_okD [OF t h] others by (auto simp: lists_own_def)
    with False h \<open>i \<notin> _\<close> listed_okD [OF t h] here show ?thesis
      by (auto simp: lists_own_def moved_def remove_collection_from_gallery_def add_collection_to_gallery_def live_gallery_def)
  qed
  moreover have "ids_unique (moved i j (co_gallery cur) t)"
    using unique by (simp add: moved_def remove_collection_from_gallery_def add_collection_to_gallery_def ids_unique_edits)
  ultimately show ?thesis
    unfolding listed_ok_def galleries by auto
qed

interpretation listed: gallery_invariant listed_ok
proof
  fix t and g :: gallery_row assume "listed_ok t" "ga_id g \<notin> ga_id ` set (gt_galleries t)" "ga_collections g = []"
  then show "listed_ok (t\<lparr>gt_galleries := g # gt_galleries t\<rparr>)" by (simp add: listed_ok_def ids_unique_def lists_own_def homes_def)
next
  fix t and p :: "gallery_row \<Rightarrow> bool" and i ids
  assume t: "listed_ok t" and p: "\<And>g. p g \<Longrightarrow> ga_id g = i \<and> collections_of_gallery i ids t = length ids"
  show "listed_ok (on_gallery p (\<lambda>g. g\<lparr>ga_collections := ids\<rparr>) t)"
    using p collections_of_gallery_all [of t i ids] t by (intro listed_ok_edit [OF t]) (auto simp: lists_own_def listed_ok_def)
next
  fix t and f :: "gallery_row \<Rightarrow> gallery_row" and q assume t: "listed_ok t" and f: "\<And>g. same_gallery g (f g)"
  show "listed_ok (on_gallery q f t)"
    using f listed_okD [OF t] by (intro listed_ok_edit [OF t]) (auto simp: same_gallery_def lists_own_def)
next
  fix t and h :: "collection_row \<Rightarrow> collection_row" and r assume t: "listed_ok t" and h: "\<And>c. same_collection c (h c)"
  have "map (\<lambda>c. (co_id c, co_gallery c)) (gt_collections (on_collection r h t)) = map (\<lambda>c. (co_id c, co_gallery c)) (gt_collections t)"
    and "map co_id (gt_collections (on_collection r h t)) = map co_id (gt_collections t)"
    using h by (auto simp: same_collection_def)
  then have "homes (on_collection r h t) = homes t" "map co_id (gt_collections (on_collection r h t)) = map co_id (gt_collections t)"
    unfolding homes_def by (metis list.set_map, simp)
  with t show "listed_ok (on_collection r h t)" unfolding listed_ok_def ids_unique_def lists_own_def by (simp del: tables_fields(4))
qed (simp_all add: listed_ok_with listed_ok_first listed_ok_moved)

text \<open>
  Property C17. A collection is shown once: from tables in which every live gallery lists its own
  collections, whatever requests of whatever callers follow, with whatever errors of the server on
  the way, the lists of the live galleries have no collection twice, neither within one gallery
  nor across galleries and users.
\<close>

theorem collections_shown_once:
  assumes "listed_ok (fst s)" and "(gallery_step w)\<^sup>*\<^sup>* s s'"
  shows "distinct (shown_collections (fst s'))"
  using assms by (intro shown_once) (rule listed.steps_keep)

definition sample_gallery :: "string \<Rightarrow> string \<Rightarrow> string list \<Rightarrow> gallery_row" where
  "sample_gallery i user ids = \<lparr>ga_id = i, ga_deleted = False, ga_owner = user, ga_collections = ids, ga_name = [], ga_description = [],
     ga_hidden = False, ga_position = i\<rparr>"

definition sample_collection :: "string \<Rightarrow> string \<Rightarrow> string \<Rightarrow> collection_row" where
  "sample_collection i user gallery = \<lparr>co_id = i, co_deleted = False, co_owner = user, co_nfts = [''t'' @ i], co_version = 1, co_hidden = False,
     co_note = some_text [], co_name = some_text [], co_layout = sample_layout, co_settings = [], co_gallery = gallery\<rparr>"

text \<open>Ann has two galleries with three collections, Bob one with one.\<close>

definition sample_tables :: gallery_tables where
  "sample_tables = \<lparr>gt_collections = [sample_collection ''c1'' ''ann'' ''g1'', sample_collection ''c2'' ''ann'' ''g1'',
       sample_collection ''c3'' ''ann'' ''g2'', sample_collection ''c4'' ''bob'' ''g3''],
     gt_galleries = [sample_gallery ''g1'' ''ann'' [''c2'', ''c1''], sample_gallery ''g2'' ''ann'' [''c3''], sample_gallery ''g3'' ''bob'' [''c4'']],
     gt_tokens = [\<lparr>to_id = ''tc1'', to_owner = ''ann'', to_deleted = False\<rparr>, \<lparr>to_id = ''tc4'', to_owner = ''bob'', to_deleted = False\<rparr>],
     gt_featured = (\<lambda>_. [])\<rparr>"

text \<open>A server that always answers, a validator that finds nothing, and ids that count up.\<close>

definition calm_world :: "int gallery_world" where
  "calm_world = \<lparr>gw_connect = \<lambda>c. (Ok (), c), gw_new_id = \<lambda>c. (Ok (replicate (Suc (nat c)) CHR ''n''), c + 1), gw_check = \<lambda>_ _. None, gw_check_struct = \<lambda>_. None,
     gw_sanitize = id, gw_dispatch = \<lambda>_ c. (Ok (), c), gw_dispatch_captioned = \<lambda>_ _ c. (Ok None, c), gw_dispatch_many = \<lambda>_ _ c. (Ok (), c),
     gw_dispatch_group = \<lambda>_ _ _ c. (Ok None, c)\<rparr>"

definition as_user :: "string \<Rightarrow> auth_ctx" where
  "as_user u = \<lparr>ax_error = Some None, ax_user = Some u\<rparr>"

lemma as_user [simp]: "get_authenticated_user_id (as_user u) = Ok u" "viewer (as_user u) = give (Ok u)"
  by (simp_all add: as_user_def viewer_def get_authenticated_user_id_def must_get_def)

lemma sample_listed: "listed_ok sample_tables"
  by (simp add: sample_tables_def sample_gallery_def sample_collection_def listed_ok_def ids_unique_def lists_own_def homes_def)

lemma nothing_reported: "validate_fields_loop (\<lambda>_ _. None) flds errs False = Ok ()"
  by (induction flds arbitrary: errs) auto

lemma calm_statements:
  "on_galleries calm_world f (t, c) = (fst (f t), snd (f t), c)" "ask_galleries calm_world g (t, c) = (g t, t, c)"
  "write_galleries calm_world h (t, c) = (Ok (), h t, c)" "check_fields calm_world flds = give (Ok ())"
  "beside (gw_connect calm_world) = give (Ok ())"
  by (auto simp: on_galleries_def ask_galleries_def write_galleries_def check_fields_def calm_world_def act_then_apply beside_apply
      give_def validate_fields_def nothing_reported split: prod.split)

lemma calm_transaction:
  "in_transaction calm_world m (t, c) = (case m (t, c) of (Ok x, s) \<Rightarrow> (Ok x, s) | (r, (_, c1)) \<Rightarrow> (r, (t, c1)))"
  by (simp add: in_transaction_def calm_statements act_then_def split: prod.split outcome.split)

lemma calm_loads:
  "get_gallery_by_id i t = Ok g \<Longrightarrow> load_gallery calm_world i (t, c) = (Ok g, t, c)"
  "get_collection_by_id i t = Ok d \<Longrightarrow> load_collection calm_world i (t, c) = (Ok d, t, c)"
  by (simp_all add: load_gallery_def load_collection_def missing_as_def wrapped_def calm_statements)

theorem collections_shown_once_witness:
  "distinct (shown_collections (fst (snd (move_collection calm_world (as_user ''ann'') ''c1'' ''g2'' (sample_tables, 0)))))"
  by (rule collections_shown_once [where w = calm_world and s = "(sample_tables, 0)"])
    (simp_all add: sample_listed r_into_rtranclp gallery_step.collection_moved)

section \<open>Rows stay with their owners\<close>

definition owners_of_collections :: "gallery_tables \<Rightarrow> (string \<times> string) list" where
  "owners_of_collections t = map (\<lambda>c. (co_id c, co_owner c)) (gt_collections t)"

definition owners_of_galleries :: "gallery_tables \<Rightarrow> (string \<times> string) list" where
  "owners_of_galleries t = map (\<lambda>g. (ga_id g, ga_owner g)) (gt_galleries t)"

definition rows_stay :: "gallery_tables \<Rightarrow> gallery_tables \<Rightarrow> bool" where
  "rows_stay t t1 \<longleftrightarrow> suffix (owners_of_collections t) (owners_of_collections t1) \<and> suffix (owners_of_galleries t) (owners_of_galleries t1)"

lemma owners_edited:
  "(\<And>g. ga_id (f g) = ga_id g \<and> ga_owner (f g) = ga_owner g) \<Longrightarrow> owners_of_galleries (on_gallery p f t) = owners_of_galleries t"
  "(\<And>c. co_id (h c) = co_id c \<and> co_owner (h c) = co_owner c) \<Longrightarrow> owners_of_collections (on_collection r h t) = owners_of_collections t"
  by (simp_all add: owners_of_galleries_def owners_of_collections_def)

lemma owners_elsewhere [simp]:
  "owners_of_collections (on_gallery p f t) = owners_of_collections t" "owners_of_galleries (on_collection r h t) = owners_of_galleries t"
  "owners_of_galleries (with_collection c t) = owners_of_galleries t"
  "owners_of_collections (with_collection c t) = (co_id c, co_owner c) # owners_of_collections t"
  by (simp_all add: owners_of_collections_def owners_of_galleries_def)

interpretation stay: gallery_invariant "rows_stay t" for t
proof
  fix t1 and g :: gallery_row assume "rows_stay t t1"
  then show "rows_stay t (t1\<lparr>gt_galleries := g # gt_galleries t1\<rparr>)"
    by (auto simp: rows_stay_def owners_of_galleries_def owners_of_collections_def intro: suffix_ConsI)
qed (auto simp: rows_stay_def owners_edited same_gallery_def same_collection_def moved_def remove_collection_from_gallery_def
      add_collection_to_gallery_def gallery_repo_add_collections_def Let_def intro: suffix_ConsI)

text \<open>No request takes a row away or gives it to another user.\<close>

lemma owners_stay: "(gallery_step w)\<^sup>*\<^sup>* s s' \<Longrightarrow> rows_stay (fst s) (fst s')"
  by (erule stay.steps_keep) (simp add: rows_stay_def)

section \<open>Collections of others\<close>

definition others :: "string \<Rightarrow> gallery_tables \<Rightarrow> collection_row list" where
  "others user t = filter (\<lambda>c. co_owner c \<noteq> user) (gt_collections t)"

lemma others_edit:
  assumes "\<And>c. c \<in> set (gt_collections t) \<Longrightarrow> r c \<Longrightarrow> co_owner c = user" and "\<And>c. co_owner (h c) = co_owner c"
  shows "others user (on_collection r h t) = others user t"
proof -
  have "filter (\<lambda>c. co_owner c \<noteq> user) (map (\<lambda>c. if r c then h c else c) cs) = filter (\<lambda>c. co_owner c \<noteq> user) cs"
    if "\<forall>c \<in> set cs. r c \<longrightarrow> co_owner c = user" for cs
    using that by (induction cs) (auto simp: assms(2))
  then show ?thesis using assms(1) by (simp add: others_def)
qed

lemma others_elsewhere [simp]: "others user (on_gallery p f t) = others user t"
  by (simp add: others_def)

lemma others_new [simp]: "others user (with_collection c t) = (if co_owner c = user then [] else [c]) @ others user t"
  by (simp add: others_def)

lemma viewer_is: "get_authenticated_user_id ctx = Ok user \<Longrightarrow> act_then (viewer ctx) f = f user"
  by (simp add: viewer_def)

lemma own_edit_isolated:
  assumes "\<And>c. co_owner (f c) = co_owner c"
  shows "keeps (\<lambda>s. others user (fst s) = rows) (update_own_collection w i user f)"
proof -
  have "others user (on_collection (own_collection i user) f t) = others user t" for t
    by (rule others_edit) (simp_all add: assms own_collection_def)
  then show ?thesis
    unfolding update_own_collection_def by (intro some_rows_keeps) (simp add: update_own_def)
qed

lemma check_tokens_user:
  assumes "get_authenticated_user_id ctx = Ok user"
  shows "triple (\<lambda>s. P (fst s)) (check_tokens w ctx flds tokens layout settings) (\<lambda>x s. snd x = user \<and> P (fst s)) (\<lambda>s. P (fst s))"
  unfolding check_tokens_def viewer_is [OF assms]
  by (intro triple_then [where Q = "\<lambda>_ s. P (fst s)"] triple_any given_keeps ask_galleries_keeps keeps_give)
    (auto intro!: triple_give split: if_split_asm)

lemma one_row: "ids_unique t \<Longrightarrow> c \<in> set (gt_collections t) \<Longrightarrow> d \<in> set (gt_collections t) \<Longrightarrow> co_id c = co_id d \<Longrightarrow> c = d"
  by (auto simp: ids_unique_def distinct_map dest: inj_onD)

lemma moved_others:
  assumes "ids_unique t" and "user_owns_collection i user t"
  shows "others user (moved i j k t) = others user t"
proof -
  obtain d where d: "d \<in> set (gt_collections t)" "co_id d = i" "co_owner d = user"
    using assms(2) by (auto simp: user_owns_collection_def live_collection_def)
  have "others user (on_collection (live_collection i) (\<lambda>c. c\<lparr>co_gallery := j\<rparr>) t) = others user t"
  proof (rule others_edit)
    show "co_owner c = user" if "c \<in> set (gt_collections t)" "live_collection i c" for c
      using one_row [OF assms(1) that(1) d(1)] that(2) d(2,3) by (simp add: live_collection_def)
  qed simp
  then show ?thesis
    by (simp add: moved_def remove_collection_from_gallery_def add_collection_to_gallery_def)
qed

text \<open>A move reaches the tables as a whole or not at all.\<close>

lemma move_collection_at:
  assumes "get_authenticated_user_id ctx = Ok user"
  shows "triple (\<lambda>s. fst s = t) (move_collection w ctx i j)
    (\<lambda>old s. \<exists>cur. get_collection_by_id i t = Ok cur \<and> old = co_gallery cur \<and> user_owns_collection i user t \<and> user_owns_gallery j user t \<and>
       fst s = moved i j (co_gallery cur) t) (\<lambda>s. fst s = t)"
  unfolding move_collection_def viewer_is [OF assms]
proof (intro tables_at)
  let ?body = "act_then (ask_galleries w (get_collection_by_id i)) (\<lambda>cur.
      act_then (on_galleries w (update_collection_gallery i j)) (\<lambda>_.
        act_then (write_galleries w (add_collection_to_gallery i j)) (\<lambda>_.
          act_then (write_galleries w (remove_collection_from_gallery i (co_gallery cur))) (\<lambda>_. give (Ok (co_gallery cur))))))"
  have body: "triple (\<lambda>s. fst s = t) ?body (\<lambda>old s. \<exists>cur. get_collection_by_id i t = Ok cur \<and> old = co_gallery cur \<and>
      fst s = moved i j (co_gallery cur) t) (\<lambda>_. True)"
    by (intro tables_at) (auto simp: update_collection_gallery_def moved_def split: if_split_asm)
  show "triple (\<lambda>s. fst s = t) (in_transaction w ?body) (\<lambda>old s. \<exists>cur. get_collection_by_id i t = Ok cur \<and> old = co_gallery cur \<and>
      user_owns_collection i user t \<and> user_owns_gallery j user t \<and> fst s = moved i j (co_gallery cur) t) (\<lambda>s. fst s = t)"
    if "Ok (user_owns_collection i user t) = Ok a" "\<not> \<not> a" "Ok (user_owns_gallery j user t) = Ok b" "\<not> \<not> b" for a b
    using that by (intro in_transaction_triple triple_weaker [OF body]) auto
qed auto

lemma create_isolated:
  assumes "get_authenticated_user_id ctx = Ok user"
  shows "keeps (\<lambda>s. others user (fst s) = rows) (create_collection w ctx j name note tokens layout settings caption)"
  unfolding triple_keeps [symmetric] create_collection_def Let_def split_def
proof (rule triple_then [OF check_tokens_user [OF assms, where P = "\<lambda>t. others user t = rows"]])
  let ?row = "\<lambda>x i. \<lparr>co_id = i, co_deleted = False, co_owner = snd x, co_nfts = tokens, co_version = 1, co_hidden = False,
      co_note = stored_text (gw_sanitize w note), co_name = stored_text (gw_sanitize w (trim_space name)), co_layout = fst x,
      co_settings = settings, co_gallery = j\<rparr>"
  have row: "keeps (\<lambda>s. others user (fst s) = rows) (create_collection_row w (?row x))" if "snd x = user" for x
    unfolding create_collection_row_def
    by (intro keeps_then on_galleries_keeps beside_keeps) (simp add: that insert_collection_def others_def)
  have add: "keeps (\<lambda>s. others user (fst s) = rows) (add_collections w j x [i])" for x i
    unfolding add_collections_def ensure_colls_owned_by_user_def
    by (intro keeps_then some_rows_keeps ask_galleries_keeps keeps_give) (simp add: gallery_repo_add_collections_def Let_def)
  show "triple (\<lambda>s. snd x = user \<and> others user (fst s) = rows)
      (act_then (create_collection_row w (?row x)) (\<lambda>i. act_then (add_collections w j (snd x) [i]) (\<lambda>_. act_then (load_collection w i) (\<lambda>c.
        act_then (beside (gw_dispatch_captioned w ((collection_event action_collection_created (snd x) i j)
          \<lparr>ev_data := zero_event_data\<lparr>ed_collection_token_ids := Some (co_nfts c), ed_collection_collectors_note := gw_sanitize w note\<rparr>\<rparr>)
          (clean_caption w caption))) (\<lambda>f. give (Ok (c, f)))))))
      (\<lambda>_ s. others user (fst s) = rows) (\<lambda>s. others user (fst s) = rows)" (is "triple _ ?m _ _") for x
    by (intro triple_pure iffD2 [OF triple_keeps] keeps_then row add loads_keep beside_keeps keeps_give)
qed

text \<open>
  Property C19. Users edit their own collections: whatever a signed-in user asks of the
  operations on collections, and however they end, the collections of all others stay as they are.
\<close>

theorem collection_edits_isolated:
  assumes "get_authenticated_user_id ctx = Ok user" and "ids_unique (fst s)"
  shows "others user (fst (snd (create_collection w ctx j name note tokens layout settings caption s))) = others user (fst s) \<and>
    others user (fst (snd (delete_collection w ctx i s))) = others user (fst s) \<and>
    others user (fst (snd (update_collection_info w ctx i name note s))) = others user (fst s) \<and>
    others user (fst (snd (update_collection_tokens_of w ctx i tokens layout settings caption s))) = others user (fst s) \<and>
    others user (fst (snd (update_collection_hidden w ctx i hidden s))) = others user (fst s) \<and>
    others user (fst (snd (move_collection w ctx i j s))) = others user (fst s)"
proof -
  have own: "keeps (\<lambda>s. others user (fst s) = rows) (delete_collection w ctx i)" "keeps (\<lambda>s. others user (fst s) = rows) (update_collection_info w ctx i name note)"
    "keeps (\<lambda>s. others user (fst s) = rows) (update_collection_hidden w ctx i hidden)" for rows
    unfolding delete_collection_def update_collection_info_def update_collection_hidden_def viewer_is [OF assms(1)] Let_def
    by (intro keeps_then own_edit_isolated given_keeps ask_galleries_keeps beside_keeps; simp)+
  have tokens: "keeps (\<lambda>s. others user (fst s) = rows) (update_collection_tokens_of w ctx i tokens layout settings caption)" for rows
    unfolding triple_keeps [symmetric] update_collection_tokens_of_def split_def
  proof (rule triple_then [OF check_tokens_user [OF assms(1), where P = "\<lambda>t. others user t = rows"]], goal_cases)
    case (1 x)
    show ?case
      by (intro triple_pure iffD2 [OF triple_keeps] keeps_then own_edit_isolated ask_galleries_keeps beside_keeps) (simp_all add: own_edit_isolated)
  qed
  have "fst (snd (move_collection w ctx i j s)) = fst s \<or> others user (fst (snd (move_collection w ctx i j s))) = others user (fst s)"
    using tripleD [OF move_collection_at [OF assms(1), of "fst s" w i j], of s] moved_others [OF assms(2), of i user j]
    by (auto split: prod.splits outcome.splits)
  with own tokens create_isolated [OF assms(1)] show ?thesis
    unfolding keeps_def by metis
qed

theorem collection_edits_isolated_witness:
  "others ''bob'' (fst (snd (delete_collection calm_world (as_user ''bob'') ''c1'' (sample_tables, 0)))) =
    [sample_collection ''c1'' ''ann'' ''g1'', sample_collection ''c2'' ''ann'' ''g1'', sample_collection ''c3'' ''ann'' ''g2'']"
proof -
  have "others ''bob'' (fst (snd (delete_collection calm_world (as_user ''bob'') ''c1'' (sample_tables, 0)))) = others ''bob'' sample_tables"
    using collection_edits_isolated [of "as_user ''bob''" "''bob''" "(sample_tables, 0)" calm_world _ _ _ _ _ _ _ "''c1''"] sample_listed
    by (auto simp: listed_ok_def)
  then show ?thesis by (simp add: others_def sample_tables_def sample_collection_def)
qed

section \<open>What reaches the galleries of others\<close>

definition sample_one_section :: token_layout where
  "sample_one_section = model_to_token_layout \<lparr>li_sections = [], li_section_layout = [\<lparr>si_columns = 2, si_whitespace = []\<rparr>]\<rparr>"

text \<open>
  Property C22. A new collection is put on top of the gallery that is named, and belongs to the
  caller: nothing else in the galleries changes. Whose gallery it is plays no part.
\<close>

theorem created_collection_listed_first:
  assumes "listed_ok t" and "get_authenticated_user_id ctx = Ok user"
    and "create_collection w ctx j name note tokens layout settings caption (t, c) = (Ok (row, feed), s1)"
  shows "co_owner row = user \<and> co_nfts row = tokens \<and> gt_collections (fst s1) = row # gt_collections t \<and>
    gt_galleries (fst s1) = map (\<lambda>g. if ga_id g = j then g\<lparr>ga_collections := co_id row # ga_collections g\<rparr> else g) (gt_galleries t)"
proof -
  let ?listed = "\<lambda>row. gallery_repo_add_collections j [co_id row] (with_collection row t)"
  let ?Q = "\<lambda>row s. co_id row \<notin> co_id ` set (gt_collections t) \<and> co_owner row = user \<and> co_nfts row = tokens \<and> fst (?listed row) \<noteq> 0 \<and>
      fst s = snd (?listed row)"
  have inserted: "i = co_id row \<and> u = with_collection row t \<and> i \<notin> co_id ` set (gt_collections t)" if "insert_collection row t = (Ok i, u)" for i u row
    using that by (auto simp: insert_collection_def with_collection_def split: if_split_asm)
  have found: "get_collection_by_id i (snd (gallery_repo_add_collections j [i] (with_collection row t))) = Ok row" if "co_id row = i" "\<not> co_deleted row" for i row
    using that by (simp add: get_collection_by_id_def gallery_repo_add_collections_def Let_def live_collection_def first_row_def)
  have "triple (\<lambda>s. fst s = t) (create_collection w ctx j name note tokens layout settings caption) (\<lambda>x s. ?Q (fst x) s) (\<lambda>_. True)"
    unfolding create_collection_def Let_def split_def create_collection_row_def add_collections_def ensure_colls_owned_by_user_def
      some_rows_def act_then_assoc
  proof (rule triple_then [where Q = "\<lambda>x s. snd x = user \<and> fst s = t"], goal_cases)
    case 1
    show ?case using check_tokens_user [OF assms(2), where P = "\<lambda>u. u = t"] by (rule triple_weaker) auto
  next
    case (2 x)
    show ?case
      by (intro triple_pure tables_at) (auto dest!: inserted simp: found split: if_split_asm prod.split_asm)
  qed
  from triple_result [OF this assms(3)] have row: "?Q row s1" by simp
  then have "collections_of_gallery j [co_id row] (with_collection row t) = 1"
    by (auto simp: gallery_repo_add_collections_def Let_def rows_of_gallery_def)
  with row show ?thesis
    by (simp add: gallery_repo_add_collections_def Let_def)
qed

theorem created_collection_listed_first_witness:
  "gt_galleries (fst (snd (create_collection calm_world (as_user ''bob'') ''g1'' ''mine'' [] [''tc4''] sample_one_section [] None (sample_tables, 0)))) =
    [sample_gallery ''g1'' ''ann'' [''n'', ''c2'', ''c1''], sample_gallery ''g2'' ''ann'' [''c3''], sample_gallery ''g3'' ''bob'' [''c4'']]"
proof -
  let ?r = "create_collection calm_world (as_user ''bob'') ''g1'' ''mine'' [] [''tc4''] sample_one_section [] None (sample_tables, 0)"
  have calm: "gw_check_struct calm_world rs = None" "gw_sanitize calm_world = id" "beside (gw_new_id calm_world) (t, c) = (Ok (replicate (Suc (nat c)) CHR ''n''), t, c + 1)"
    "beside (gw_dispatch_captioned calm_world e cap) (t, c) = (Ok None, t, c)" for rs t c e cap
    by (simp_all add: calm_world_def beside_apply)
  have layout: "validate_layout sample_one_section [''tc4''] = Ok sample_one_section"
    by (simp add: sample_one_section_def model_to_token_layout_def standardize_collection_sections_def validate_layout_def tokens_in_section_def
        validate_section_layout_def min_columns_def max_columns_def max_whitespace_def max_tokens_per_section_def)
  have owns: "check_user_owns_all_tokens ''bob'' [''tc4''] sample_tables"
    by (simp add: check_user_owns_all_tokens_def sample_tables_def)
  have row: "insert_collection row sample_tables = (Ok ''n'', with_collection row sample_tables)"
    "gallery_repo_check_own_collections ''bob'' [''n''] (with_collection row sample_tables) = 1"
    "fst (gallery_repo_add_collections ''g1'' [''n''] (with_collection row sample_tables)) = 1"
    "get_collection_by_id ''n'' (snd (gallery_repo_add_collections ''g1'' [''n''] (with_collection row sample_tables))) = Ok row"
    if "co_id row = ''n''" "co_gallery row = ''g1''" "co_owner row = ''bob''" "\<not> co_deleted row" for row
    using that
    by (simp_all add: insert_collection_def gallery_repo_check_own_collections_def gallery_repo_add_collections_def get_collection_by_id_def
        first_row_def live_collection_def with_collection_def Let_def rows_of_gallery_def collections_of_gallery_def sample_tables_def
        sample_collection_def sample_gallery_def on_gallery_def)
  have "\<exists>row. fst ?r = Ok (row, None) \<and> co_id row = ''n''"
    by (simp add: create_collection_def check_tokens_def create_collection_row_def add_collections_def ensure_colls_owned_by_user_def some_rows_def
        calm calm_statements calm_loads act_then_apply layout owns row split_def)
  then obtain row where "?r = (Ok (row, None), snd ?r)" "co_id row = ''n''" by (metis prod.collapse)
  with created_collection_listed_first [OF sample_listed as_user(1) this(1)] show ?thesis
    by (simp add: sample_tables_def sample_gallery_def)
qed

lemma delete_gallery_at:
  assumes "get_authenticated_user_id ctx = Ok user"
  shows "triple (\<lambda>s. fst s = t) (delete_gallery w ctx i) (\<lambda>_ s. fst s = gallery_repo_delete i user t) (\<lambda>_. True)"
  unfolding delete_gallery_def viewer_is [OF assms] by (intro tables_at) simp_all

text \<open>
  Property C21. A deletion asks about the wrong gallery: when a request to delete a gallery ends
  well, the gallery is gone exactly when the caller has another one and does not feature the one
  to delete. Its own owner plays no part, so users can delete each other's galleries.
\<close>

theorem gallery_deletion_ignores_owner:
  assumes "get_authenticated_user_id ctx = Ok user" and "get_gallery_by_id i t = Ok g"
    and "delete_gallery w ctx i (t, c) = (Ok (), s1)"
  shows "get_gallery_by_id i (fst s1) =
    (if (\<exists>h \<in> set (gt_galleries t). ga_owner h = user \<and> \<not> ga_deleted h \<and> ga_id h \<noteq> i) \<and> gt_featured t user \<noteq> i
     then Err ErrNoRows else Ok g)"
proof -
  have "fst s1 = gallery_repo_delete i user t"
    using triple_result [OF delete_gallery_at [OF assms(1)] assms(3)] .
  moreover have "filter (live_gallery i) (map (\<lambda>g. if ga_id g = i \<and> b then g\<lparr>ga_deleted := True\<rparr> else g) gs) =
      (if b then [] else filter (live_gallery i) gs)" for b gs
    by (induction gs) (auto simp: live_gallery_def)
  ultimately show ?thesis
    using assms(2) by (simp add: get_gallery_by_id_def gallery_repo_delete_def first_row_def)
qed

theorem gallery_deletion_ignores_owner_witness:
  "get_gallery_by_id ''g1'' (fst (snd (delete_gallery calm_world (as_user ''bob'') ''g1'' (sample_tables, 0)))) = Err ErrNoRows"
proof -
  have "delete_gallery calm_world (as_user ''bob'') ''g1'' (sample_tables, 0) = (Ok (), gallery_repo_delete ''g1'' ''bob'' sample_tables, 0)"
    by (simp add: delete_gallery_def calm_statements)
  moreover have "get_gallery_by_id ''g1'' sample_tables = Ok (sample_gallery ''g1'' ''ann'' [''c2'', ''c1''])"
    by (simp add: get_gallery_by_id_def sample_tables_def sample_gallery_def live_gallery_def first_row_def)
  moreover have "\<exists>h \<in> set (gt_galleries sample_tables). ga_owner h = ''bob'' \<and> \<not> ga_deleted h \<and> ga_id h \<noteq> ''g1''" "gt_featured sample_tables ''bob'' \<noteq> ''g1''"
    by (simp_all add: sample_tables_def sample_gallery_def)
  ultimately show ?thesis
    using gallery_deletion_ignores_owner [OF as_user(1), of "''g1''" sample_tables _ calm_world "''bob''" 0 "(gallery_repo_delete ''g1'' ''bob'' sample_tables, 0)"]
    by simp
qed

text \<open>
  Property C23. A collection that is moved to the gallery it is in disappears: the gallery is
  first given the collection and then loses it, so that afterwards no gallery shows it although
  it still exists.
\<close>

theorem move_within_gallery_hides:
  assumes "listed_ok t" and "get_authenticated_user_id ctx = Ok user" and "get_collection_by_id i t = Ok cur"
    and "move_collection w ctx i (co_gallery cur) (t, c) = (Ok old, s1)"
  shows "i \<notin> set (shown_collections (fst s1)) \<and> get_collection_by_id i (fst s1) = Ok cur"
proof -
  have s1: "fst s1 = moved i (co_gallery cur) (co_gallery cur) t"
    using triple_result [OF move_collection_at [OF assms(2)] assms(4)] assms(3) by auto
  have "i \<notin> set (ga_collections g)" if g: "g \<in> set (gt_galleries (fst s1))" "\<not> ga_deleted g" for g
    using g listed_at_home [OF assms(1), of cur] collection_found [OF assms(3)]
    by (force simp: s1 moved_galleries live_gallery_def split: if_split_asm)
  moreover have "filter (live_collection i) (map (\<lambda>c. if live_collection i c then c\<lparr>co_gallery := co_gallery cur\<rparr> else c) cs) =
      map (\<lambda>c. c\<lparr>co_gallery := co_gallery cur\<rparr>) (filter (live_collection i) cs)" for cs
    by (induction cs) (auto simp: live_collection_def)
  ultimately show ?thesis
    using assms(3) by (auto simp: shown_collections_def s1 get_collection_by_id_def first_row_def split: list.split_asm)
qed

theorem move_within_gallery_hides_witness:
  "''c1'' \<notin> set (shown_collections (fst (snd (move_collection calm_world (as_user ''ann'') ''c1'' ''g1'' (sample_tables, 0)))))"
proof -
  have c1: "get_collection_by_id ''c1'' sample_tables = Ok (sample_collection ''c1'' ''ann'' ''g1'')"
    by (simp add: get_collection_by_id_def sample_tables_def sample_collection_def live_collection_def first_row_def)
  have "fst (move_collection calm_world (as_user ''ann'') ''c1'' ''g1'' (sample_tables, 0)) = Ok ''g1''"
  proof -
    have owns: "user_owns_collection ''c1'' ''ann'' sample_tables" "user_owns_gallery ''g1'' ''ann'' sample_tables"
      and moves: "fst (update_collection_gallery ''c1'' ''g1'' sample_tables) = Ok ()"
      by (simp_all add: user_owns_collection_def user_owns_gallery_def sample_tables_def sample_collection_def sample_gallery_def
          live_collection_def live_gallery_def update_collection_gallery_def)
    show ?thesis
      by (simp add: move_collection_def calm_statements calm_transaction act_then_apply c1 owns moves) (simp add: sample_collection_def)
  qed
  then show ?thesis
    using move_within_gallery_hides [OF sample_listed _ c1, of "as_user ''ann''" "''ann''" calm_world 0 "''g1''"]
    by (simp add: sample_collection_def prod_eq_iff)
qed

section \<open>Positions\<close>

text \<open>
  Property C24. Reordering keeps positions apart: a request to set positions that ends well
  leaves no two of the caller's galleries at one position, and any other leaves everything as it was.
\<close>

theorem gallery_positions_unique:
  assumes "get_authenticated_user_id ctx = Ok user" and "update_gallery_positions_of w ctx positions (t, c) = (r, s1)"
  shows "if r = Ok () then fst s1 = update_gallery_positions positions user t \<and> \<not> user_has_duplicate_gallery_positions user (fst s1)
    else fst s1 = t"
proof -
  let ?t1 = "update_gallery_positions positions user t"
  have "triple (\<lambda>s. fst s = t) (update_gallery_positions_of w ctx positions)
      (\<lambda>_ s. fst s = ?t1 \<and> \<not> user_has_duplicate_gallery_positions user (fst s)) (\<lambda>s. fst s = t)"
    unfolding update_gallery_positions_of_def viewer_is [OF assms(1)]
  proof (intro fields_at)
    have "triple (\<lambda>s. fst s = t) (act_then (write_galleries w (update_gallery_positions positions user)) (\<lambda>_.
        act_then (ask_galleries w (\<lambda>t. Ok (user_has_duplicate_gallery_positions user t))) (\<lambda>duplicates.
          give (if duplicates then Err (positions_not_unique user) else Ok ()))))
      (\<lambda>_ s. fst s = ?t1 \<and> \<not> user_has_duplicate_gallery_positions user (fst s)) (\<lambda>_. True)"
      by (intro tables_at) (auto split: if_split_asm)
    then show "triple (\<lambda>s. fst s = t) (in_transaction w (act_then (write_galleries w (update_gallery_positions positions user)) (\<lambda>_.
        act_then (ask_galleries w (\<lambda>t. Ok (user_has_duplicate_gallery_positions user t))) (\<lambda>duplicates.
          give (if duplicates then Err (positions_not_unique user) else Ok ())))))
      (\<lambda>_ s. fst s = ?t1 \<and> \<not> user_has_duplicate_gallery_positions user (fst s)) (\<lambda>s. fst s = t)"
      by (rule in_transaction_triple) simp
  qed simp
  note at = this
  show ?thesis
  proof (cases "r = Ok ()")
    case True
    with triple_result [OF at, of c "()" s1] assms(2) show ?thesis by auto
  next
    case False
    then have "\<not> is_ok r" by (cases r) simp_all
    with triple_failure [OF at assms(2)] False show ?thesis by simp
  qed
qed

theorem gallery_positions_unique_witness:
  "\<not> user_has_duplicate_gallery_positions ''ann'' (fst (snd (update_gallery_positions_of calm_world (as_user ''ann'')
     [(''g1'', ''g2''), (''g2'', ''g1''), (''g3'', ''g1'')] (sample_tables, 0)))) \<and>
   fst (snd (update_gallery_positions_of calm_world (as_user ''ann'') [(''g1'', ''g2'')] (sample_tables, 0))) = sample_tables"
proof -
  have "fst (update_gallery_positions_of calm_world (as_user ''ann'') [(''g1'', ''g2''), (''g2'', ''g1''), (''g3'', ''g1'')] (sample_tables, 0)) = Ok ()"
    and "fst (update_gallery_positions_of calm_world (as_user ''ann'') [(''g1'', ''g2'')] (sample_tables, 0)) \<noteq> Ok ()"
    by (simp_all add: update_gallery_positions_of_def calm_statements calm_transaction act_then_apply user_has_duplicate_gallery_positions_def
        update_gallery_positions_def on_gallery_def sample_tables_def sample_gallery_def)
  then show ?thesis
    using gallery_positions_unique [OF as_user(1) prod.collapse [symmetric], of calm_world "''ann''" "[(''g1'', ''g2''), (''g2'', ''g1''), (''g3'', ''g1'')]" sample_tables 0]
      gallery_positions_unique [OF as_user(1) prod.collapse [symmetric], of calm_world "''ann''" "[(''g1'', ''g2'')]" sample_tables 0]
    by auto
qed

section \<open>Updates of a gallery\<close>

text \<open>What an update makes of a collection that is there, whoever owns it.\<close>

definition edited_collection :: "update_gallery_input \<Rightarrow> collection_row \<Rightarrow> collection_row" where
  "edited_collection u c = (if co_deleted c \<or> co_id c \<in> set (ug_deleted u) then c\<lparr>co_deleted := True\<rparr>
     else case find (\<lambda>x. ui_id x = co_id c) (ug_updated u) of
       None \<Rightarrow> c
     | Some x \<Rightarrow> c\<lparr>co_note := some_text (ui_note x), co_layout := model_to_token_layout (ui_layout x),
         co_settings := model_to_token_settings (ui_settings x), co_hidden := ui_hidden x, co_name := some_text (ui_name x),
         co_version := 1, co_nfts := ui_tokens x\<rparr>)"

text \<open>The rows of before, each after \<open>k\<close>, below \<open>n\<close> new ones.\<close>

definition rows_after :: "gallery_tables \<Rightarrow> (collection_row \<Rightarrow> collection_row) \<Rightarrow> nat \<Rightarrow> gallery_tables \<Rightarrow> bool" where
  "rows_after t k n t1 \<longleftrightarrow> n \<le> length (gt_collections t1) \<and> drop n (gt_collections t1) = map k (gt_collections t)"

lemma rows_after_edits:
  "rows_after t k n (on_gallery p f t1) = rows_after t k n t1"
  "rows_after t k n t1 \<Longrightarrow> rows_after t ((\<lambda>c. if r c then h c else c) \<circ> k) n (on_collection r h t1)"
  "rows_after t k n t1 \<Longrightarrow> insert_collection c t1 = (Ok i, t2) \<Longrightarrow> rows_after t k (Suc n) t2"
  by (auto simp: rows_after_def insert_collection_def drop_map split: if_split_asm)

lemma write_after:
  "(\<And>u. P u \<Longrightarrow> Q (f u)) \<Longrightarrow> (triple (\<lambda>s. Q (fst s)) (g ()) R (\<lambda>_. True)) \<Longrightarrow> triple (\<lambda>s. P (fst s)) (act_then (write_galleries w f) g) R (\<lambda>_. True)"
  unfolding write_galleries_def by (rule triple_then [OF on_galleries_triple [where E = "\<lambda>_. True"], of P _ "\<lambda>_. Q"]) auto

lemma ask_after:
  "(\<And>x. triple (\<lambda>s. P (fst s)) (g x) R (\<lambda>_. True)) \<Longrightarrow> triple (\<lambda>s. P (fst s)) (act_then (ask_galleries w f) g) R (\<lambda>_. True)"
  by (rule triple_then [OF triple_any [OF ask_galleries_keeps]]) auto

lemma beside_after:
  "(\<And>x. triple (\<lambda>s. P (fst s)) (g x) R (\<lambda>_. True)) \<Longrightarrow> triple (\<lambda>s. P (fst s)) (act_then (beside m) g) R (\<lambda>_. True)"
  by (rule triple_then [OF triple_any [OF beside_keeps]]) auto

lemma created_after:
  "triple (\<lambda>s. rows_after t k n (fst s)) (create_collections w user owner j cs) (\<lambda>_ s. rows_after t k (n + length cs) (fst s)) (\<lambda>_. True)"
proof (induction cs arbitrary: n)
  case Nil
  show ?case by (auto intro!: triple_pair)
next
  case (Cons x cs)
  have "triple (\<lambda>s. rows_after t k n (fst s)) (create_collection_row w row) (\<lambda>_ s. rows_after t k (Suc n) (fst s)) (\<lambda>_. True)" for row
    unfolding create_collection_row_def
    by (rule beside_after) (rule on_galleries_triple; auto dest: rows_after_edits(3))
  then show ?case
    unfolding create_collections.simps
    by (rule triple_then) (intro beside_after triple_then [OF Cons.IH [of "Suc n"]], simp only: split_def, rule triple_give, auto)
qed

fun tokens_given :: "updated_collection_input list \<Rightarrow> collection_row \<Rightarrow> collection_row" where
  "tokens_given [] c = c"
| "tokens_given (u # us) c = tokens_given us (if live_collection (ui_id u) c then c\<lparr>co_nfts := ui_tokens u\<rparr> else c)"

lemma tokens_after:
  "triple (\<lambda>s. rows_after t k n (fst s)) (token_events w user j us) (\<lambda>_ s. rows_after t (tokens_given us \<circ> k) n (fst s)) (\<lambda>_. True)"
proof (induction us arbitrary: k)
  case Nil
  have "tokens_given [] \<circ> k = k" by (simp add: fun_eq_iff)
  then show ?case by (auto intro!: triple_pair)
next
  case (Cons u us)
  have split: "tokens_given (u # us) \<circ> k = tokens_given us \<circ> ((\<lambda>c. if live_collection (ui_id u) c then c\<lparr>co_nfts := ui_tokens u\<rparr> else c) \<circ> k)"
    by (simp add: fun_eq_iff)
  show ?case
    unfolding split token_events.simps Let_def
    by (intro ask_after write_after [where Q = "rows_after t ((\<lambda>c. if live_collection (ui_id u) c then c\<lparr>co_nfts := ui_tokens u\<rparr> else c) \<circ> k) n"]
        triple_then [OF Cons.IH]) (unfold update_collection_tokens_def, rule rows_after_edits(2), assumption, rule triple_give, simp_all)
qed

lemma tokens_given_find:
  "distinct (map ui_id us) \<Longrightarrow> tokens_given us c = (if co_deleted c then c else
     case find (\<lambda>x. ui_id x = co_id c) us of None \<Rightarrow> c | Some x \<Rightarrow> c\<lparr>co_nfts := ui_tokens x\<rparr>)"
proof (induction us arbitrary: c)
  case (Cons u us)
  have "find (\<lambda>x. ui_id x = ui_id u) us = None" using Cons.prems by (auto simp: find_None_iff) (metis image_eqI)
  with Cons show ?case by (auto simp: live_collection_def split: option.split)
qed simp

lemma first_info:
  "find (\<lambda>x. ui_id x = i) us = Some x \<Longrightarrow> hd (filter (\<lambda>y. cu_id y = i) (map info_of us)) = info_of x"
  by (induction us) (auto simp: info_of_def split: if_split_asm)

lemma has_info: "i \<in> cu_id ` set (map info_of us) \<longleftrightarrow> find (\<lambda>x. ui_id x = i) us \<noteq> None"
  by (auto simp: find_None_iff info_of_def image_iff)

lemma after_ext: "rows_after t k n u \<Longrightarrow> (\<And>c. k' c = k c) \<Longrightarrow> rows_after t k' n u"
  by (simp add: rows_after_def)

lemma edit_gallery_after:
  assumes "distinct (map ui_id (ug_updated u))"
  shows "triple (\<lambda>s. fst s = t) (edit_gallery w user cur u) (\<lambda>_ s. rows_after t (edited_collection u) (length (ug_created u)) (fst s)) (\<lambda>_. True)"
proof -
  let ?n = "length (ug_created u)"
  let ?del = "\<lambda>c. if co_id c \<in> set (ug_deleted u) then c\<lparr>co_deleted := True\<rparr> else c"
  let ?info = "\<lambda>c. if co_id c \<in> cu_id ` set (map info_of (ug_updated u)) \<and> \<not> co_deleted c
     then let i = hd (filter (\<lambda>i. cu_id i = co_id c) (map info_of (ug_updated u))) in
          c\<lparr>co_note := some_text (cu_note i), co_layout := cu_layout i, co_settings := cu_settings i, co_hidden := cu_hidden i,
            co_name := some_text (cu_name i), co_version := 1\<rparr> else c"
  have all: "tokens_given (ug_updated u) \<circ> (?info \<circ> ?del) = edited_collection u"
    by (rule ext) (auto simp: tokens_given_find [OF assms] edited_collection_def has_info first_info info_of_def Let_def simp del: set_map split: option.split)
  have deleted: "triple (\<lambda>s. fst s = t) (if ug_deleted u \<noteq> [] then write_galleries w (delete_collections (ug_deleted u)) else give (Ok ()))
      (\<lambda>_ s. rows_after t ?del 0 (fst s)) (\<lambda>_. True)"
    by (intro tables_at) (auto simp: rows_after_def delete_collections_def)
  have info: "rows_after t (?info \<circ> ?del) ?n (update_collections_info (map info_of (ug_updated u)) t1)" if "rows_after t ?del ?n t1" for t1
    unfolding update_collections_info_def by (rule rows_after_edits(2) [OF that])
  have updated: "triple (\<lambda>s. rows_after t ?del ?n (fst s))
      (if ug_updated u \<noteq> [] then update_collections_info_and_tokens w user (ug_gallery u) (ug_updated u) else give (Ok []))
      (\<lambda>_ s. rows_after t (edited_collection u) ?n (fst s)) (\<lambda>_. True)"
  proof (cases "ug_updated u")
    case Nil
    have "edited_collection u = ?del"
      unfolding all [symmetric] by (rule ext) (simp add: Nil)
    then show ?thesis by (simp only: Nil simp_thms if_False) (rule triple_give, simp_all only: is_ok_simps simp_thms)
  next
    case Cons
    have noted: "keeps (\<lambda>s. rows_after t ?del ?n (fst s)) (note_events w user (ug_gallery u) us)" for us
      by (induction us) (auto intro!: keeps_then)
    have "triple (\<lambda>s. rows_after t ?del ?n (fst s)) (update_collections_info_and_tokens w user (ug_gallery u) (ug_updated u))
      (\<lambda>_ s. rows_after t (edited_collection u) ?n (fst s)) (\<lambda>_. True)"
      unfolding update_collections_info_and_tokens_def
      by (rule triple_then [OF triple_any [OF noted]], simp, rule write_after [where Q = "rows_after t (?info \<circ> ?del) ?n"], erule info,
          rule triple_then [OF tokens_after], rule triple_give) (simp_all only: all is_ok_simps simp_thms)
    with Cons show ?thesis by simp
  qed
  have after: "keeps (\<lambda>s. rows_after t (edited_collection u) ?n (fst s)) (act_then (write_galleries w (update_gallery_info j name description)) (\<lambda>_.
      act_then (if b then beside m else give (Ok [])) f))"
    if "\<And>x. keeps (\<lambda>s. rows_after t (edited_collection u) ?n (fst s)) (f x)" for j name description b m f
    using that by (auto intro!: keeps_then write_galleries_keeps simp: update_gallery_info_def rows_after_edits)
  show ?thesis
    unfolding edit_gallery_def
    by (rule triple_then [OF deleted], rule triple_then [OF created_after [where n = 0]], simp only: split_def add_0, rule triple_then [OF updated],
        rule triple_any [OF after]) (auto intro!: keeps_then write_galleries_keeps simp: update_gallery_collections_def rows_after_edits Let_def)
qed

text \<open>
  Property C20. An update of one's gallery reaches every collection: when it ends well, the rows
  that were there are exactly those that \<open>edited_collection\<close> makes of them, below one new row for
  each that was to be created. The caller owns the gallery, but the collections that are deleted
  or updated may belong to anyone and be in any gallery, and the tokens are not checked.
\<close>

theorem gallery_update_edits_any_collection:
  assumes "update_gallery w ctx u (t, c) = (Ok g, s1)" and "distinct (map ui_id (ug_updated u))"
  shows "rows_after t (edited_collection u) (length (ug_created u)) (fst s1)"
proof -
  have "triple (\<lambda>s. fst s = t) (update_gallery w ctx u) (\<lambda>_ s. rows_after t (edited_collection u) (length (ug_created u)) (fst s)) (\<lambda>_. True)"
    unfolding update_gallery_def
    by (intro tables_at in_transaction_at [OF edit_gallery_after [OF assms(2)]]) auto
  then show ?thesis using assms(1) by (rule triple_result)
qed

definition sample_updated :: updated_collection_input where
  "sample_updated = \<lparr>ui_id = ''c2'', ui_name = ''x'', ui_note = [], ui_tokens = [''tc4''], ui_layout = \<lparr>li_sections = [], li_section_layout = []\<rparr>,
     ui_settings = [], ui_hidden = True\<rparr>"

definition sample_update :: update_gallery_input where
  "sample_update = \<lparr>ug_gallery = ''g3'', ug_name = None, ug_description = None, ug_deleted = [''c1''], ug_updated = [sample_updated],
     ug_created = [], ug_order = [], ug_edit_id = None\<rparr>"

theorem gallery_update_edits_any_collection_witness:
  "map (\<lambda>c. (co_owner c, co_deleted c, co_nfts c)) (gt_collections (fst (snd (update_gallery calm_world (as_user ''bob'') sample_update (sample_tables, 0))))) =
    [(''ann'', True, [''tc1'']), (''ann'', False, [''tc4'']), (''ann'', False, [''tc3'']), (''bob'', False, [''tc4''])]"
proof -
  let ?r = "update_gallery calm_world (as_user ''bob'') sample_update (sample_tables, 0)"
  let ?t1 = "delete_collections [''c1''] sample_tables"
  let ?t2 = "update_collections_info [info_of sample_updated] ?t1"
  let ?t4 = "update_gallery_info ''g3'' ([], False) ([], False) (update_collection_tokens ''c2'' [''tc4''] ?t2)"
  have u: "ug_gallery sample_update = ''g3''" "ug_deleted sample_update = [''c1'']" "ug_updated sample_update = [sample_updated]"
    "ug_created sample_update = []" "ug_order sample_update = []" "ug_name sample_update = None" "ug_description sample_update = None"
    "ui_id sample_updated = ''c2''" "ui_note sample_updated = []" "ui_tokens sample_updated = [''tc4'']"
    by (simp_all add: sample_update_def sample_updated_def)
  have g3: "gt_galleries ?t4 = gt_galleries sample_tables"
    by (simp add: update_gallery_info_def update_collection_tokens_def update_collections_info_def delete_collections_def)
  have found: "get_gallery_by_id ''g3'' sample_tables = Ok (sample_gallery ''g3'' ''bob'' [''c4''])"
    by (simp add: get_gallery_by_id_def first_row_def sample_tables_def sample_gallery_def live_gallery_def)
  have c2: "get_collection_by_id ''c2'' ?t1 = Ok (sample_collection ''c2'' ''ann'' ''g1'')" "is_ok (get_collection_tokens ''c2'' ?t2)"
    by (simp_all add: get_collection_by_id_def get_collection_tokens_def first_row_def delete_collections_def update_collections_info_def
        on_collection_def live_collection_def sample_tables_def sample_collection_def info_of_def sample_updated_def)
  then obtain ids where tokens: "get_collection_tokens ''c2'' ?t2 = Ok ids" by (auto simp: is_ok_iff)
  have found4: "get_gallery_by_id ''g3'' ?t4 = Ok (sample_gallery ''g3'' ''bob'' [''c4''])"
    using found unfolding get_gallery_by_id_def g3 .
  have calm: "gw_dispatch_many calm_world es e = (\<lambda>b. (Ok (), b))" "ga_owner (sample_gallery i o' ids) = o'" for es e i o' ids
    by (simp_all add: calm_world_def sample_gallery_def)
  have "\<exists>g. fst ?r = Ok g"
    by (simp add: update_gallery_def edit_gallery_def update_collections_info_and_tokens_def u calm_statements calm_transaction calm calm_loads
        act_then_apply c2 tokens found found4 set_conditional_value_def changed_info_def beside_apply)
  then obtain g where "?r = (Ok g, snd ?r)" by (metis prod.collapse)
  from gallery_update_edits_any_collection [OF this] show ?thesis
    by (simp add: rows_after_def u sample_tables_def sample_collection_def edited_collection_def)
qed

end
