(* ===== verification/KafkaStream.thy ===== *)
theory KafkaStream
  imports World GoStrings
begin

text \<open>
  The consumer of the streams of tokens and owners: the batcher of
  \<^verbatim>\<open>kafka-streamer/batcher.go\<close>, whose workers parse messages while more are added, and the parts
  of \<^verbatim>\<open>kafka-streamer/main.go\<close> that read a topic, submit its batches and restart it.
\<close>

section \<open>The batcher\<close>

text \<open>
  \<open>kb_pool\<close> holds the messages that were sent to the workers and are not done yet, each with its
  index: those in the channel and those a worker has.
\<close>

record ('m, 'e) message_batcher =
  kb_max_size :: nat
  kb_timeout :: int
  kb_next_timeout :: int
  kb_entries :: "'e list"
  kb_errors :: "(gerror \<times> nat) list"
  kb_pool :: "('m \<times> nat) list"
  kb_closed :: bool

definition zero_time_ns :: int where
  "zero_time_ns = 0"

definition new_message_batcher :: "nat \<Rightarrow> int \<Rightarrow> ('m, 'e) message_batcher" where
  "new_message_batcher n timeout = \<lparr>kb_max_size = n, kb_timeout = timeout, kb_next_timeout = zero_time_ns, kb_entries = [], kb_errors = [],
     kb_pool = [], kb_closed = False\<rparr>"

definition kafka_add :: "int \<Rightarrow> 'e \<Rightarrow> 'm \<Rightarrow> ('m, 'e) message_batcher \<Rightarrow> ('m, 'e) message_batcher outcome" where
  "kafka_add now zero m b =
     (if kb_closed b then Err (ErrText ''cannot add message: batcher is stopped'')
      else let i = length (kb_entries b); b1 = (if i = 0 then b\<lparr>kb_next_timeout := now + kb_timeout b\<rparr> else b) in
        Ok (b1\<lparr>kb_entries := kb_entries b @ [zero], kb_pool := kb_pool b @ [(m, i)]\<rparr>))"

text \<open>A worker is done with the message at place \<open>k\<close> of the pool.\<close>

definition worker_done :: "('m \<Rightarrow> gerror + 'e) \<Rightarrow> nat \<Rightarrow> ('m, 'e) message_batcher \<Rightarrow> ('m, 'e) message_batcher outcome" where
  "worker_done parse k b = (case kb_pool b ! k of (m, i) \<Rightarrow>
     let b1 = b\<lparr>kb_pool := take k (kb_pool b) @ drop (Suc k) (kb_pool b)\<rparr> in
     case parse m of
       Inl e \<Rightarrow> Ok (b1\<lparr>kb_errors := kb_errors b @ [(e, i)]\<rparr>)
     | Inr x \<Rightarrow> if i < length (kb_entries b) then Ok (b1\<lparr>kb_entries := (kb_entries b)[i := x]\<rparr>) else Panic IndexRange)"

definition kafka_is_ready :: "int \<Rightarrow> ('m, 'e) message_batcher \<Rightarrow> bool" where
  "kafka_is_ready now b \<longleftrightarrow> kb_entries b \<noteq> [] \<and> (kb_max_size b \<le> length (kb_entries b) \<or> kb_next_timeout b < now)"

text \<open>Reset and Submit first wait until the pool is empty; here it already is.\<close>

definition kafka_reset :: "('m, 'e) message_batcher \<Rightarrow> ('m, 'e) message_batcher" where
  "kafka_reset b = b\<lparr>kb_next_timeout := zero_time_ns, kb_entries := [], kb_errors := []\<rparr>"

definition kafka_stop :: "('m, 'e) message_batcher \<Rightarrow> ('m, 'e) message_batcher" where
  "kafka_stop b = b\<lparr>kb_closed := True\<rparr>"

fun non_fatal :: "gerror \<Rightarrow> bool" where
  "non_fatal (ErrNonFatal e) = True"
| "non_fatal _ = False"

definition without_errors :: "(gerror \<times> nat) list \<Rightarrow> 'e list \<Rightarrow> 'e list" where
  "without_errors errs xs = map ((!) xs) (filter (\<lambda>i. i \<notin> snd ` set errs) [0..<length xs])"

definition read_only_mode :: bool where
  "read_only_mode = False"

text \<open>\<open>show_errors\<close> is how \<^verbatim>\<open>fmt\<close> prints the errors, and \<open>show_error\<close> the text of one.\<close>

definition kafka_submit :: "((gerror \<times> nat) list \<Rightarrow> string) \<Rightarrow> (gerror \<Rightarrow> string) \<Rightarrow> ('e list \<Rightarrow> ('s, unit) act) \<Rightarrow> ('s, unit) act
    \<Rightarrow> (('m, 'e) message_batcher \<times> 's, unit) act" where
  "kafka_submit show_errors show_error submit commit = (\<lambda>(b, s).
     if kb_entries b = [] then (Ok (), (b, s))
     else if \<exists>e \<in> set (kb_errors b). \<not> non_fatal (fst e)
       then (Err (ErrText (''errors occurred during batch processing: '' @ show_errors (kb_errors b))), (b, s))
     else let b1 = (if kb_errors b \<noteq> [] then b\<lparr>kb_entries := without_errors (kb_errors b) (kb_entries b)\<rparr> else b) in
       if read_only_mode then (Ok (), (kafka_reset b1, s))
       else case act_then (wrapped (\<lambda>e. ErrText (''failed to submit batch: '' @ show_error e)) (submit (kb_entries b1)))
           (\<lambda>_. wrapped (\<lambda>e. ErrText (''failed to commit offsets: '' @ show_error e)) commit) s of
         (Ok _, s1) \<Rightarrow> (Ok (), (kafka_reset b1, s1))
       | (r, s1) \<Rightarrow> (r, (b1, s1)))"

section \<open>Counts and batches\<close>

definition get_action_type :: "(string \<Rightarrow> string) \<Rightarrow> (string \<times> string) list \<Rightarrow> string outcome" where
  "get_action_type ul headers = (case map_of headers ''modType'' of
     Some v \<Rightarrow> Ok (to_lower ul v) | None \<Rightarrow> Err (ErrText ''no action type found in message headers''))"

record message_stats =
  ms_interval :: int
  ms_next_report :: int
  ms_inserts :: int
  ms_updates :: int
  ms_deletes :: int

definition update_stats :: "(string \<Rightarrow> string) \<Rightarrow> int \<Rightarrow> (string \<times> string) list \<Rightarrow> message_stats \<Rightarrow> message_stats" where
  "update_stats ul now headers m = (case get_action_type ul headers of
     Ok a \<Rightarrow>
       (let m1 = (if a = ''insert'' then m\<lparr>ms_inserts := ms_inserts m + 1\<rparr>
                  else if a = ''update'' then m\<lparr>ms_updates := ms_updates m + 1\<rparr>
                  else if a = ''delete'' then m\<lparr>ms_deletes := ms_deletes m + 1\<rparr> else m)
        in if ms_next_report m1 < now
           then m1\<lparr>ms_inserts := 0, ms_updates := 0, ms_deletes := 0, ms_next_report := now + ms_interval m1\<rparr> else m1)
   | _ \<Rightarrow> m)"

text \<open>
  The server answers a batch entry by entry; the last error is the one that is returned. An entry
  that inserts no collection or contract has no row.
\<close>

definition submit_exec_batch :: "(gerror \<Rightarrow> 'p \<Rightarrow> gerror) \<Rightarrow> ('p list \<Rightarrow> ('s, gerror option list) act) \<Rightarrow> 'p list \<Rightarrow> ('s, unit) act" where
  "submit_exec_batch failed query params =
     (if read_only_mode then give (Ok ())
      else act_then (query params) (\<lambda>results.
        give (case fold (\<lambda>(p, r) err. case r of Some e \<Rightarrow> Some (failed e p) | None \<Rightarrow> err) (zip params results) None of
          Some e \<Rightarrow> Err e | None \<Rightarrow> Ok ())))"

definition submit_token_batch :: "(gerror \<Rightarrow> 'p \<Rightarrow> gerror) \<Rightarrow> ('p list \<Rightarrow> ('s, (gerror + string) list) act) \<Rightarrow> (string list \<Rightarrow> ('s, unit) act)
    \<Rightarrow> 'p list \<Rightarrow> ('s, unit) act" where
  "submit_token_batch failed query fill entries =
     (if read_only_mode then give (Ok ())
      else act_then (query entries) (\<lambda>results.
        case fold (\<lambda>(p, r) (err, ids). case r of
              Inl e \<Rightarrow> (if e \<noteq> ErrNoRows then Some (failed e p) else err, ids)
            | Inr i \<Rightarrow> (err, ids @ [i])) (zip entries results) (None, []) of
          (Some e, _) \<Rightarrow> give (Err e)
        | (None, ids) \<Rightarrow> if ids \<noteq> [] then detached (fill ids) else give (Ok ())))"

section \<open>Restarts\<close>

definition max_restarts :: nat where
  "max_restarts = 10"

definition restart_interval :: int where
  "restart_interval = 10 * 60 * 10 ^ 9"

text \<open>The stream of a topic failed at time \<open>t\<close>; with no restart left the service panics.\<close>

definition stream_failed :: "int \<Rightarrow> nat \<times> int \<Rightarrow> (nat \<times> int) outcome" where
  "stream_failed t = (\<lambda>(remaining, reset_at).
     let (remaining1, reset_at1) = (if reset_at < t then (max_restarts, t + restart_interval) else (remaining, reset_at)) in
     if remaining1 = 0 then Panic (PanicText ''streaming topic failed'') else Ok (remaining1 - 1, reset_at1))"

fun stream_failures :: "int list \<Rightarrow> nat \<times> int \<Rightarrow> (nat \<times> int) outcome" where
  "stream_failures [] b = Ok b"
| "stream_failures (t # ts) b = bind_out (stream_failed t b) (stream_failures ts)"

section \<open>A topic\<close>

text \<open>
  The partition of a topic and what outlives the batcher: the place to read from, the committed
  offset, and the entries of all batches that were stored.
\<close>

record ('e, 'c) topic_state =
  ks_position :: nat
  ks_committed :: nat
  ks_stored :: "'e list"
  ks_outside :: 'c

record ('m, 'e, 'c) topic_env =
  ke_log :: "'m list"
  ke_parse :: "'m \<Rightarrow> gerror + 'e"
  ke_zero :: 'e
  ke_submit :: "'e list \<Rightarrow> ('c, unit) act"
  ke_commit :: "('c, unit) act"
  ke_show_errors :: "(gerror \<times> nat) list \<Rightarrow> string"
  ke_show_error :: "gerror \<Rightarrow> string"

definition store_entries :: "('m, 'e, 'c) topic_env \<Rightarrow> 'e list \<Rightarrow> (('e, 'c) topic_state, unit) act" where
  "store_entries v es s = (case ke_submit v es (ks_outside s) of
     (Ok x, c) \<Rightarrow> (Ok x, s\<lparr>ks_stored := ks_stored s @ es, ks_outside := c\<rparr>)
   | (r, c) \<Rightarrow> (r, s\<lparr>ks_outside := c\<rparr>))"

text \<open>A commit covers what was read so far.\<close>

definition commit_offsets :: "('m, 'e, 'c) topic_env \<Rightarrow> (('e, 'c) topic_state, unit) act" where
  "commit_offsets v s = (case ke_commit v (ks_outside s) of
     (Ok x, c) \<Rightarrow> (Ok x, s\<lparr>ks_committed := ks_position s, ks_outside := c\<rparr>)
   | (r, c) \<Rightarrow> (r, s\<lparr>ks_outside := c\<rparr>))"

definition submit_topic :: "('m, 'e, 'c) topic_env \<Rightarrow> (('m, 'e) message_batcher \<times> ('e, 'c) topic_state, unit) act" where
  "submit_topic v = kafka_submit (ke_show_errors v) (ke_show_error v) (store_entries v) (commit_offsets v)"

text \<open>
  A topic is streamed, or its stream has failed, or the consumer of the failed stream is closed.
  A batch may be submitted when it is ready and whenever partitions are revoked. The consumer is
  closed by the \<^verbatim>\<open>defer\<close> of \<^verbatim>\<open>streamTopic\<close>, before the batcher is reset: \<^verbatim>\<open>Close\<close> of
  confluent-kafka-go unsubscribes and tells \<^verbatim>\<open>rebalanceCb\<close> that the partitions still assigned
  are revoked, so that the batch is submitted again; when none is assigned any more, the callback
  is not called.
\<close>

datatype topic_phase = Streaming | Failed | ConsumerClosed

type_synonym ('m, 'e, 'c) topic = "('m, 'e) message_batcher \<times> ('e, 'c) topic_state \<times> topic_phase"

inductive topic_step :: "('m, 'e, 'c) topic_env \<Rightarrow> ('m, 'e, 'c) topic \<Rightarrow> ('m, 'e, 'c) topic \<Rightarrow> bool" for v where
  topic_read: "ks_position s < length (ke_log v) \<Longrightarrow> kafka_add now (ke_zero v) (ke_log v ! ks_position s) b = Ok b1 \<Longrightarrow>
    topic_step v (b, s, Streaming) (b1, s\<lparr>ks_position := Suc (ks_position s)\<rparr>, Streaming)"
| topic_worker: "k < length (kb_pool b) \<Longrightarrow> worker_done (ke_parse v) k b = Ok b1 \<Longrightarrow> topic_step v (b, s, phase) (b1, s, phase)"
| topic_submit: "kb_pool b = [] \<Longrightarrow> submit_topic v (b, s) = (r, (b1, s1)) \<Longrightarrow>
    topic_step v (b, s, Streaming) (b1, s1, if is_ok r then Streaming else Failed)"
| topic_error: "topic_step v (b, s, Streaming) (b, s, Failed)"
| topic_closed: "kb_pool b = [] \<Longrightarrow> submit_topic v (b, s) = (r, (b1, s1)) \<Longrightarrow>
    topic_step v (b, s, Failed) (b1, s1, ConsumerClosed)"
| topic_closed_unassigned: "topic_step v (b, s, Failed) (b, s, ConsumerClosed)"
| topic_restart: "kb_pool b = [] \<Longrightarrow>
    topic_step v (b, s, ConsumerClosed) (kafka_reset b, s\<lparr>ks_position := ks_committed s\<rparr>, Streaming)"
| topic_outside: "topic_step v (b, s, phase) (b, s\<lparr>ks_outside := c\<rparr>, phase)"

definition topic_start :: "nat \<Rightarrow> int \<Rightarrow> 'c \<Rightarrow> ('m, 'e, 'c) topic" where
  "topic_start n timeout c = (new_message_batcher n timeout, \<lparr>ks_position = 0, ks_committed = 0, ks_stored = [], ks_outside = c\<rparr>, Streaming)"

end
