(* ===== verification/KafkaSafety.thy ===== *)
theory KafkaSafety
  imports KafkaStream
begin

text \<open>
  What a topic promises: batches hold the parsed messages in the order in which they were read
  however the workers are scheduled, no message is skipped by a commit where none may be left out,
  a message is lost where some may be, and how often a topic can fail before the service gives up.
\<close>

section \<open>Batches\<close>

definition parsed :: "('m, 'e, 'c) topic_env \<Rightarrow> nat \<Rightarrow> nat \<Rightarrow> 'e list" where
  "parsed v i j = concat (map (\<lambda>k. case ke_parse v (ke_log v ! k) of Inr x \<Rightarrow> [x] | Inl e \<Rightarrow> []) [i..<j])"

text \<open>Where the message behind place \<open>i\<close> of the batch is: with the workers, parsed, or an error.\<close>

definition place_ok :: "('m, 'e, 'c) topic_env \<Rightarrow> ('m, 'e) message_batcher \<Rightarrow> ('e, 'c) topic_state \<Rightarrow> nat \<Rightarrow> bool" where
  "place_ok v b s i \<longleftrightarrow> (let m = ke_log v ! (ks_committed s + i) in
     (m, i) \<in> set (kb_pool b) \<or> (case ke_parse v m of Inr x \<Rightarrow> kb_entries b ! i = x | Inl e \<Rightarrow> (e, i) \<in> set (kb_errors b)))"

definition topic_batch_ok :: "('m, 'e, 'c) topic_env \<Rightarrow> ('m, 'e) message_batcher \<Rightarrow> ('e, 'c) topic_state \<Rightarrow> bool" where
  "topic_batch_ok v b s \<longleftrightarrow> ks_position s = ks_committed s + length (kb_entries b) \<and> (\<forall>i < length (kb_entries b). place_ok v b s i) \<and>
     (\<forall>(m, i) \<in> set (kb_pool b). i < length (kb_entries b) \<and> m = ke_log v ! (ks_committed s + i)) \<and>
     (\<forall>(e, i) \<in> set (kb_errors b). i < length (kb_entries b) \<and> ke_parse v (ke_log v ! (ks_committed s + i)) = Inl e)"

definition topic_inv :: "('m, 'e, 'c) topic_env \<Rightarrow> ('m, 'e, 'c) topic \<Rightarrow> bool" where
  "topic_inv v = (\<lambda>(b, s, phase). (\<forall>(m, i) \<in> set (kb_pool b). i < length (kb_entries b)) \<and> (phase = Streaming \<longrightarrow> topic_batch_ok v b s))"

lemma topic_batch_okD: "topic_batch_ok v b s \<Longrightarrow> i < length (kb_entries b) \<Longrightarrow> place_ok v b s i"
  by (simp add: topic_batch_ok_def)

lemma batch_ok_add:
  assumes "topic_batch_ok v b s" and "kafka_add now zero (ke_log v ! ks_position s) b = Ok b1"
  shows "topic_batch_ok v b1 (s\<lparr>ks_position := Suc (ks_position s)\<rparr>)"
proof -
  have b1: "kb_entries b1 = kb_entries b @ [zero]" "kb_errors b1 = kb_errors b"
    "kb_pool b1 = kb_pool b @ [(ke_log v ! ks_position s, length (kb_entries b))]"
    using assms(2) by (auto simp: kafka_add_def Let_def split: if_split_asm)
  have "place_ok v b1 (s\<lparr>ks_position := Suc (ks_position s)\<rparr>) i" if "i < Suc (length (kb_entries b))" for i
  proof (cases "i = length (kb_entries b)")
    case True
    with assms(1) show ?thesis by (simp add: topic_batch_ok_def place_ok_def b1)
  next
    case False
    with that topic_batch_okD [OF assms(1), of i] show ?thesis by (auto simp: place_ok_def b1 nth_append Let_def split: sum.splits)
  qed
  with assms(1) show ?thesis by (auto simp: topic_batch_ok_def b1)
qed

lemma batch_ok_worker:
  assumes b: "topic_batch_ok v b s" and k: "k < length (kb_pool b)" and d: "worker_done (ke_parse v) k b = Ok b1"
  shows "topic_batch_ok v b1 s"
proof -
  obtain m i where mi: "kb_pool b ! k = (m, i)" by force
  then have "(m, i) \<in> set (kb_pool b)" using k by (metis nth_mem)
  with b have i: "i < length (kb_entries b)" "m = ke_log v ! (ks_committed s + i)" by (auto simp: topic_batch_ok_def)
  let ?rest = "take k (kb_pool b) @ drop (Suc k) (kb_pool b)"
  have pool: "set (kb_pool b) = insert (m, i) (set ?rest)"
    using id_take_nth_drop [OF k] mi by (metis Un_insert_right list.simps(15) set_append)
  show ?thesis
  proof (cases "ke_parse v m")
    case (Inl e)
    with d mi have b1: "b1 = b\<lparr>kb_pool := ?rest, kb_errors := kb_errors b @ [(e, i)]\<rparr>" by (simp add: worker_done_def Let_def)
    have "place_ok v b1 s j" if "j < length (kb_entries b)" for j
      using topic_batch_okD [OF b that] i Inl pool by (auto simp: place_ok_def b1 Let_def split: sum.splits)
    with b i Inl pool show ?thesis by (auto simp: topic_batch_ok_def b1)
  next
    case (Inr x)
    with d mi i have b1: "b1 = b\<lparr>kb_pool := ?rest, kb_entries := (kb_entries b)[i := x]\<rparr>" by (simp add: worker_done_def Let_def)
    have "place_ok v b1 s j" if "j < length (kb_entries b)" for j
      using topic_batch_okD [OF b that] that i Inr pool by (auto simp: place_ok_def b1 Let_def nth_list_update split: sum.splits)
    with b i pool show ?thesis by (auto simp: topic_batch_ok_def b1)
  qed
qed

lemma parsed_from: "parsed v c (c + n) = concat (map (\<lambda>i. case ke_parse v (ke_log v ! (c + i)) of Inr x \<Rightarrow> [x] | Inl e \<Rightarrow> []) [0..<n])"
  by (induction n) (simp_all add: parsed_def)

lemma map_filter_concat: "map f (filter p xs) = concat (map (\<lambda>x. if p x then [f x] else []) xs)"
  by (induction xs) auto

lemma filtered_parsed:
  assumes b: "topic_batch_ok v b s" and pool: "kb_pool b = []"
  shows "without_errors (kb_errors b) (kb_entries b) = parsed v (ks_committed s) (ks_position s)"
    and "kb_errors b = [] \<Longrightarrow> kb_entries b = parsed v (ks_committed s) (ks_position s)"
proof -
  let ?n = "length (kb_entries b)" and ?c = "ks_committed s"
  have err: "i \<in> snd ` set (kb_errors b) \<longleftrightarrow> (\<exists>e. ke_parse v (ke_log v ! (?c + i)) = Inl e)" if "i < ?n" for i
    using topic_batch_okD [OF b that] that b pool by (force simp: topic_batch_ok_def place_ok_def Let_def split: sum.split_asm)
  have value_at: "kb_entries b ! i = x" if "i < ?n" "ke_parse v (ke_log v ! (?c + i)) = Inr x" for i x
    using topic_batch_okD [OF b that(1)] that(2) pool by (simp add: place_ok_def Let_def)
  have "without_errors (kb_errors b) (kb_entries b) =
      concat (map (\<lambda>i. if i \<notin> snd ` set (kb_errors b) then [kb_entries b ! i] else []) [0..<?n])"
    unfolding without_errors_def by (rule map_filter_concat)
  also have "... = concat (map (\<lambda>i. case ke_parse v (ke_log v ! (?c + i)) of Inr x \<Rightarrow> [x] | Inl e \<Rightarrow> []) [0..<?n])"
    using err value_at by (intro arg_cong [where f = concat] map_cong) (auto split: sum.split)
  also have "... = parsed v ?c (?c + ?n)"
    by (rule parsed_from [symmetric])
  finally show filtered: "without_errors (kb_errors b) (kb_entries b) = parsed v ?c (ks_position s)"
    using b by (simp add: topic_batch_ok_def)
  show "kb_errors b = [] \<Longrightarrow> kb_entries b = parsed v ?c (ks_position s)"
    unfolding filtered [symmetric] by (simp add: without_errors_def map_nth)
qed

section \<open>Submits\<close>

lemma submit_topic_outcome:
  assumes "submit_topic v (b, s) = (r, (b1, s1))" and "topic_batch_ok v b s" and "kb_pool b = []"
  shows "ks_position s1 = ks_position s \<and> set (ks_stored s) \<subseteq> set (ks_stored s1) \<and>
    (is_ok r \<longrightarrow> kb_entries b1 = [] \<and> kb_errors b1 = [] \<and> ks_committed s1 = ks_position s \<and>
       (\<forall>e \<in> set (kb_errors b). non_fatal (fst e)) \<and> ks_stored s1 = ks_stored s @ parsed v (ks_committed s) (ks_position s)) \<and>
    (\<not> is_ok r \<longrightarrow> ks_committed s1 = ks_committed s)"
proof (cases "kb_entries b = []")
  case True
  with assms have "r = Ok () \<and> b1 = b \<and> s1 = s" by (simp add: submit_topic_def kafka_submit_def)
  moreover from True assms(2) have "ks_position s = ks_committed s" by (simp add: topic_batch_ok_def)
  moreover from True assms(2) have "kb_errors b = []" by (cases "kb_errors b") (auto simp: topic_batch_ok_def)
  ultimately show ?thesis by (simp add: assms(3) True parsed_def)
next
  case False
  show ?thesis
  proof (cases "\<exists>e \<in> set (kb_errors b). \<not> non_fatal (fst e)")
    case True
    with False assms(1,3) show ?thesis by (auto simp: submit_topic_def kafka_submit_def)
  next
    case calm: False
    let ?es = "if kb_errors b \<noteq> [] then without_errors (kb_errors b) (kb_entries b) else kb_entries b"
    have es: "?es = parsed v (ks_committed s) (ks_position s)"
      using filtered_parsed [OF assms(2,3)] by simp
    obtain r2 c2 where sub: "ke_submit v (parsed v (ks_committed s) (ks_position s)) (ks_outside s) = (r2, c2)" by force
    obtain r3 c3 where com: "ke_commit v c2 = (r3, c3)" by force
    show ?thesis
      using assms(1,3) False calm es sub com
      by (cases r2; cases r3)
        (auto simp: submit_topic_def kafka_submit_def read_only_mode_def Let_def act_then_def wrapped_def store_entries_def commit_offsets_def
          kafka_reset_def split: if_splits)
  qed
qed

lemma submit_topic_pool: "submit_topic v (b, s) = (r, (b1, s1)) \<Longrightarrow> kb_pool b1 = kb_pool b"
  by (auto simp: submit_topic_def kafka_submit_def read_only_mode_def Let_def kafka_reset_def split: if_split_asm prod.split_asm outcome.split_asm)

lemma empty_topic_batch_ok: "kb_entries b = [] \<Longrightarrow> kb_errors b = [] \<Longrightarrow> kb_pool b = [] \<Longrightarrow> ks_position s = ks_committed s \<Longrightarrow> topic_batch_ok v b s"
  by (simp add: topic_batch_ok_def)

lemma topic_inv_step:
  assumes "topic_step v t t1" and "topic_inv v t"
  shows "topic_inv v t1"
  using assms
proof (induction rule: topic_step.induct)
  case (topic_read s now b b1)
  then have "topic_batch_ok v b1 (s\<lparr>ks_position := Suc (ks_position s)\<rparr>)" by (auto simp: topic_inv_def intro: batch_ok_add)
  then show ?case by (auto simp: topic_inv_def topic_batch_ok_def)
next
  case (topic_worker k b b1 s phase)
  have lengths: "length (kb_entries b1) = length (kb_entries b)" "set (kb_pool b1) \<subseteq> set (kb_pool b)"
    using topic_worker.hyps(2)
    by (auto simp: worker_done_def Let_def split: prod.split_asm sum.split_asm if_split_asm dest: in_set_takeD in_set_dropD)
  then show ?case
    using topic_worker by (auto simp: topic_inv_def dest: batch_ok_worker)
next
  case (topic_submit b s r b1 s1)
  show ?case
  proof (cases "is_ok r")
    case True
    with topic_submit submit_topic_outcome [OF topic_submit.hyps(2) _ topic_submit.hyps(1)] submit_topic_pool [OF topic_submit.hyps(2)]
    show ?thesis by (auto simp: topic_inv_def intro: empty_topic_batch_ok)
  next
    case False
    with topic_submit submit_topic_pool [OF topic_submit.hyps(2)] show ?thesis by (simp add: topic_inv_def)
  qed
next
  case (topic_closed b s r b1 s1)
  with submit_topic_pool [OF topic_closed.hyps(2)] show ?case by (simp add: topic_inv_def)
next
  case (topic_restart b s)
  then show ?case by (auto simp: topic_inv_def kafka_reset_def intro!: empty_topic_batch_ok)
qed (auto simp: topic_inv_def topic_batch_ok_def place_ok_def)

lemma topic_inv_start: "topic_inv v (topic_start n timeout c)"
  by (simp add: topic_inv_def topic_start_def new_message_batcher_def topic_batch_ok_def)

lemma topic_inv_reached: "(topic_step v)\<^sup>*\<^sup>* (topic_start n timeout c) t \<Longrightarrow> topic_inv v t"
  by (erule rtranclp_induct) (rule topic_inv_start, erule (1) topic_inv_step)

section \<open>A sample topic\<close>

text \<open>Three messages, of which the first cannot be parsed and may be left out; the database answers or does not.\<close>

definition sample_topic :: "(nat, nat, bool) topic_env" where
  "sample_topic = \<lparr>ke_log = [0, 5, 7], ke_parse = (\<lambda>m. if m = 0 then Inl (ErrNonFatal (ErrText ''nft_id is empty'')) else Inr m),
     ke_zero = 0, ke_submit = (\<lambda>es up. (if up then Ok () else Err ErrContextDone, up)), ke_commit = (\<lambda>up. (Ok (), up)),
     ke_show_errors = (\<lambda>es. []), ke_show_error = (\<lambda>e. [])\<rparr>"

definition sample_batch :: "(nat, nat) message_batcher" where
  "sample_batch = \<lparr>kb_max_size = 3, kb_timeout = 10, kb_next_timeout = 11, kb_entries = [0, 5, 7],
     kb_errors = [(ErrNonFatal (ErrText ''nft_id is empty''), 0)], kb_pool = [], kb_closed = False\<rparr>"

definition sample_state :: "bool \<Rightarrow> (nat, bool) topic_state" where
  "sample_state up = \<lparr>ks_position = 3, ks_committed = 0, ks_stored = [], ks_outside = up\<rparr>"

text \<open>The worker of the last message is done first.\<close>

lemma sample_batch_reached: "(topic_step sample_topic)\<^sup>*\<^sup>* (topic_start 3 10 up) (sample_batch, sample_state up, Streaming)"
proof -
  let ?b = "\<lambda>es errs pool. \<lparr>kb_max_size = 3, kb_timeout = 10, kb_next_timeout = 11, kb_entries = es, kb_errors = errs,
    kb_pool = pool, kb_closed = False\<rparr> :: (nat, nat) message_batcher"
  let ?s = "\<lambda>i. \<lparr>ks_position = i, ks_committed = 0, ks_stored = [], ks_outside = up\<rparr> :: (nat, bool) topic_state"
  let ?step = "topic_step sample_topic" and ?e = "ErrNonFatal (ErrText ''nft_id is empty'')"
  have "?step (topic_start 3 10 up) (?b [0] [] [(0, 0)], ?s 1, Streaming)"
    using topic_read [of "?s 0" sample_topic 1 "new_message_batcher 3 10" "?b [0] [] [(0, 0)]"]
    by (simp add: topic_start_def sample_topic_def kafka_add_def new_message_batcher_def)
  moreover have "?step (?b [0] [] [(0, 0)], ?s 1, Streaming) (?b [0, 0] [] [(0, 0), (5, 1)], ?s 2, Streaming)"
    using topic_read [of "?s 1" sample_topic 2 "?b [0] [] [(0, 0)]" "?b [0, 0] [] [(0, 0), (5, 1)]"]
    by (simp add: sample_topic_def kafka_add_def numeral_2_eq_2)
  moreover have "?step (?b [0, 0] [] [(0, 0), (5, 1)], ?s 2, Streaming) (?b [0, 0, 0] [] [(0, 0), (5, 1), (7, 2)], ?s 3, Streaming)"
    using topic_read [of "?s 2" sample_topic 3 "?b [0, 0] [] [(0, 0), (5, 1)]" "?b [0, 0, 0] [] [(0, 0), (5, 1), (7, 2)]"]
    by (simp add: sample_topic_def kafka_add_def numeral_2_eq_2 numeral_3_eq_3)
  moreover have "?step (?b [0, 0, 0] [] [(0, 0), (5, 1), (7, 2)], ?s 3, Streaming) (?b [0, 0, 7] [] [(0, 0), (5, 1)], ?s 3, Streaming)"
    by (rule topic_worker [of 2]) (simp_all add: sample_topic_def worker_done_def)
  moreover have "?step (?b [0, 0, 7] [] [(0, 0), (5, 1)], ?s 3, Streaming) (?b [0, 0, 7] [(?e, 0)] [(5, 1)], ?s 3, Streaming)"
    by (rule topic_worker [of 0]) (simp_all add: sample_topic_def worker_done_def)
  moreover have "?step (?b [0, 0, 7] [(?e, 0)] [(5, 1)], ?s 3, Streaming) (sample_batch, sample_state up, Streaming)"
    unfolding sample_batch_def sample_state_def by (rule topic_worker [of 0]) (simp_all add: sample_topic_def worker_done_def)
  ultimately show ?thesis
    by (meson r_into_rtranclp rtranclp.rtrancl_into_rtrancl)
qed

lemma sample_submit:
  "submit_topic sample_topic (sample_batch, sample_state True) =
    (Ok (), (kafka_reset (sample_batch\<lparr>kb_entries := [5, 7]\<rparr>), \<lparr>ks_position = 3, ks_committed = 3, ks_stored = [5, 7], ks_outside = True\<rparr>))"
  "submit_topic sample_topic (sample_batch, sample_state False) =
    (Err (ErrText ''failed to submit batch: ''), (sample_batch\<lparr>kb_entries := [5, 7]\<rparr>, sample_state False))"
  "submit_topic sample_topic (sample_batch\<lparr>kb_entries := [5, 7]\<rparr>, sample_state True) =
    (Ok (), (kafka_reset (sample_batch\<lparr>kb_entries := [7]\<rparr>), \<lparr>ks_position = 3, ks_committed = 3, ks_stored = [7], ks_outside = True\<rparr>))"
  by (simp_all add: submit_topic_def kafka_submit_def sample_batch_def sample_state_def sample_topic_def without_errors_def read_only_mode_def
      act_then_def wrapped_def store_entries_def commit_offsets_def upt_rec numeral_2_eq_2)

text \<open>
  Property C25. Batches keep the order: however the workers of a topic were scheduled, a batch
  that is submitted and committed holds exactly the messages that were read since the last commit,
  parsed, in the order in which they were read; those that cannot be parsed are left out, and all
  of them are of the kind that may be.
\<close>

theorem batches_in_order:
  assumes "(topic_step v)\<^sup>*\<^sup>* (topic_start n timeout c) (b, s, Streaming)" and "kb_pool b = []"
    and "submit_topic v (b, s) = (Ok (), (b1, s1))"
  shows "ks_stored s1 = ks_stored s @ parsed v (ks_committed s) (ks_position s) \<and> ks_committed s1 = ks_position s \<and>
    kb_entries b1 = [] \<and> (\<forall>e \<in> set (kb_errors b). non_fatal (fst e))"
  using submit_topic_outcome [OF assms(3) _ assms(2)] topic_inv_reached [OF assms(1)] by (simp add: topic_inv_def)

theorem batches_in_order_witness:
  "ks_stored (snd (snd (submit_topic sample_topic (sample_batch, sample_state True)))) = [5, 7] \<and>
    parsed sample_topic 0 3 = [5, 7] \<and> kb_errors sample_batch = [(ErrNonFatal (ErrText ''nft_id is empty''), 0)]"
proof -
  have b: "kb_pool sample_batch = []" by (simp add: sample_batch_def)
  have "parsed sample_topic 0 3 = [5, 7]" by (simp add: parsed_def sample_topic_def upt_rec numeral_2_eq_2)
  with batches_in_order [OF sample_batch_reached b sample_submit(1)] sample_submit(1) show ?thesis
    by (simp add: sample_state_def sample_batch_def)
qed

section \<open>Commits\<close>

definition handled :: "('m, 'e, 'c) topic_env \<Rightarrow> ('e, 'c) topic_state \<Rightarrow> nat \<Rightarrow> bool" where
  "handled v s i \<longleftrightarrow> (case ke_parse v (ke_log v ! i) of Inr x \<Rightarrow> x \<in> set (ks_stored s) | Inl e \<Rightarrow> non_fatal e)"

lemma submit_handles:
  assumes "submit_topic v (b, s) = (r, (b1, s1))" and "topic_batch_ok v b s" and "kb_pool b = []" and "\<forall>i < ks_committed s. handled v s i"
    and i: "i < ks_committed s1"
  shows "handled v s1 i"
proof (cases "i < ks_committed s")
  case True
  with assms(4) submit_topic_outcome [OF assms(1-3)] show ?thesis by (auto simp: handled_def split: sum.splits)
next
  case False
  note out = submit_topic_outcome [OF assms(1-3)]
  with False i have ok: "is_ok r" and i1: "i < ks_position s" by auto
  then obtain j where j: "i = ks_committed s + j" "j < length (kb_entries b)"
    using False assms(2) by (auto simp: topic_batch_ok_def less_diff_conv2 not_less dest!: le_Suc_ex)
  show ?thesis
  proof (cases "ke_parse v (ke_log v ! i)")
    case (Inl e)
    with topic_batch_okD [OF assms(2) j(2)] assms(3) j(1) have "(e, j) \<in> set (kb_errors b)" by (simp add: place_ok_def Let_def)
    with out ok Inl show ?thesis by (force simp: handled_def)
  next
    case (Inr x)
    then have "x \<in> set (parsed v (ks_committed s) (ks_position s))"
      using False i1 by (auto simp: parsed_def intro!: bexI [of _ i])
    with out ok Inr show ?thesis by (simp add: handled_def)
  qed
qed

text \<open>
  Where no message may be left out, a batch that could not be stored is as it was, so that the
  submit on closing the consumer stores the whole of it.
\<close>

definition all_fatal :: "('m, 'e, 'c) topic_env \<Rightarrow> bool" where
  "all_fatal v \<longleftrightarrow> (\<forall>m \<in> set (ke_log v). \<forall>e. ke_parse v m = Inl e \<longrightarrow> \<not> non_fatal e)"

definition in_log :: "('m, 'e, 'c) topic_env \<Rightarrow> ('e, 'c) topic_state \<Rightarrow> bool" where
  "in_log v s \<longleftrightarrow> ks_position s \<le> length (ke_log v)"

lemma fatal_errors:
  assumes "topic_batch_ok v b s" and "all_fatal v" and "in_log v s" and "x \<in> set (kb_errors b)"
  shows "\<not> non_fatal (fst x)"
proof -
  obtain e i where x: "x = (e, i)" by force
  then have "i < length (kb_entries b)" "ke_parse v (ke_log v ! (ks_committed s + i)) = Inl e"
    "ks_committed s + length (kb_entries b) \<le> length (ke_log v)"
    using assms by (auto simp: topic_batch_ok_def in_log_def)
  then show ?thesis using assms(2) x unfolding all_fatal_def by (metis add_less_le_mono fst_conv le_less_trans nat_add_left_cancel_less not_less nth_mem)
qed

lemma submit_topic_calm:
  assumes "submit_topic v (b, s) = (r, (b1, s1))" and "kb_entries b \<noteq> []" and "\<forall>e \<in> set (kb_errors b). non_fatal (fst e)"
    and "es = (if kb_errors b \<noteq> [] then without_errors (kb_errors b) (kb_entries b) else kb_entries b)"
  shows "ks_position s1 = ks_position s \<and>
    (\<not> is_ok r \<longrightarrow> b1 = b\<lparr>kb_entries := es\<rparr> \<and> ks_committed s1 = ks_committed s) \<and>
    (is_ok r \<longrightarrow> ks_committed s1 = ks_position s \<and> ks_stored s1 = ks_stored s @ es)"
proof -
  obtain r2 c2 where sub: "ke_submit v es (ks_outside s) = (r2, c2)" by force
  obtain r3 c3 where com: "ke_commit v c2 = (r3, c3)" by force
  have calm: "(\<exists>e \<in> set (kb_errors b). \<not> non_fatal (fst e)) = False" using assms(3) by blast
  let ?b1 = "b\<lparr>kb_entries := es\<rparr>"
  have b1: "(if kb_errors b \<noteq> [] then b\<lparr>kb_entries := without_errors (kb_errors b) (kb_entries b)\<rparr> else b) = ?b1"
    by (simp add: assms(4))
  have "submit_topic v (b, s) = (case act_then (wrapped (\<lambda>e. ErrText (''failed to submit batch: '' @ ke_show_error v e)) (store_entries v es))
      (\<lambda>_. wrapped (\<lambda>e. ErrText (''failed to commit offsets: '' @ ke_show_error v e)) (commit_offsets v)) s of
      (Ok _, s1) \<Rightarrow> (Ok (), (kafka_reset ?b1, s1)) | (r, s1) \<Rightarrow> (r, (?b1, s1)))"
    using assms(2) unfolding submit_topic_def kafka_submit_def
    by (simp only: prod.case calm if_False b1 Let_def read_only_mode_def) simp
  with assms(1) sub com show ?thesis
    by (cases r2; cases r3) (auto simp: act_then_def wrapped_def store_entries_def commit_offsets_def)
qed

lemma submit_topic_fails:
  assumes "submit_topic v (b, s) = (r, (b1, s1))" and "topic_batch_ok v b s" and "kb_pool b = []"
    and "all_fatal v" and "in_log v s" and "\<not> is_ok r"
  shows "b1 = b \<and> ks_position s1 = ks_position s \<and> ks_committed s1 = ks_committed s"
proof (cases "kb_errors b = []")
  case True
  show ?thesis
  proof (cases "kb_entries b = []")
    case False
    with True submit_topic_calm [OF assms(1) False _ refl] assms(6) show ?thesis by simp
  qed (use assms(1,6) in \<open>auto simp: submit_topic_def kafka_submit_def\<close>)
next
  case False
  then obtain x where "x \<in> set (kb_errors b)" by (cases "kb_errors b") auto
  then have "\<exists>e \<in> set (kb_errors b). \<not> non_fatal (fst e)" using fatal_errors [OF assms(2,4,5)] by blast
  with assms(1,6) show ?thesis by (auto simp: submit_topic_def kafka_submit_def split: if_splits)
qed

lemma submit_topic_keeps:
  assumes "submit_topic v (b, s) = (r, (b1, s1))" and "topic_batch_ok v b s" and "kb_pool b = []"
    and "all_fatal v" and "in_log v s"
  shows "topic_batch_ok v b1 s1 \<and> in_log v s1"
proof (cases "is_ok r")
  case True
  with submit_topic_outcome [OF assms(1-3)] submit_topic_pool [OF assms(1)] assms(3,5) show ?thesis
    by (auto simp: in_log_def intro!: empty_topic_batch_ok)
next
  case False
  from submit_topic_fails [OF assms False] assms(2,5) show ?thesis
    by (auto simp: topic_batch_ok_def place_ok_def in_log_def)
qed

definition commit_inv :: "('m, 'e, 'c) topic_env \<Rightarrow> ('m, 'e, 'c) topic \<Rightarrow> bool" where
  "commit_inv v = (\<lambda>(b, s, phase). topic_batch_ok v b s \<and> in_log v s \<and> (\<forall>i < ks_committed s. handled v s i))"

lemma commit_inv_submit:
  assumes "submit_topic v (b, s) = (r, (b1, s1))" and "kb_pool b = []" and "all_fatal v" and "commit_inv v (b, s, phase)"
  shows "commit_inv v (b1, s1, phase1)"
proof -
  have "topic_batch_ok v b s" "in_log v s" "\<forall>i < ks_committed s. handled v s i" using assms(4) by (simp_all add: commit_inv_def)
  with submit_topic_keeps [OF assms(1) _ assms(2,3)] submit_handles [OF assms(1) _ assms(2)] show ?thesis
    by (simp add: commit_inv_def)
qed

lemma commit_inv_step:
  assumes "topic_step v t t1" and "all_fatal v" and "commit_inv v t"
  shows "commit_inv v t1"
  using assms
proof (induction rule: topic_step.induct)
  case (topic_read s now b b1)
  then have "topic_batch_ok v b1 (s\<lparr>ks_position := Suc (ks_position s)\<rparr>)" by (auto simp: commit_inv_def intro: batch_ok_add)
  with topic_read show ?case by (auto simp: commit_inv_def in_log_def handled_def split: sum.splits)
next
  case (topic_worker k b b1 s phase)
  then show ?case by (auto simp: commit_inv_def intro: batch_ok_worker)
next
  case (topic_submit b s r b1 s1)
  then show ?case by (blast intro: commit_inv_submit)
next
  case (topic_closed b s r b1 s1)
  then show ?case by (blast intro: commit_inv_submit)
next
  case (topic_restart b s)
  then show ?case
    by (auto simp: commit_inv_def kafka_reset_def handled_def in_log_def topic_batch_ok_def split: sum.splits)
qed (auto simp: commit_inv_def in_log_def handled_def topic_batch_ok_def place_ok_def split: sum.splits)

text \<open>
  Property C26. No message is skipped where none may be: on a topic all of whose messages either
  can be parsed or fail with an error that stops the batch, every message below the committed
  offset was parsed and stored, however the workers are scheduled, whatever fails, and also when
  closing the consumer of a failed stream submits its batch again before the restart.
\<close>

theorem committed_messages_handled:
  assumes "\<forall>m \<in> set (ke_log v). \<forall>e. ke_parse v m = Inl e \<longrightarrow> \<not> non_fatal e"
    and "(topic_step v)\<^sup>*\<^sup>* (topic_start n timeout c) (b, s, phase)" and "i < ks_committed s"
  shows "\<exists>x. ke_parse v (ke_log v ! i) = Inr x \<and> x \<in> set (ks_stored s)"
proof -
  have fatal: "all_fatal v" using assms(1) by (simp add: all_fatal_def)
  have "commit_inv v (b, s, phase)"
    using assms(2)
  proof (induction rule: rtranclp_induct)
    case base
    show ?case by (simp add: topic_start_def commit_inv_def topic_batch_ok_def new_message_batcher_def in_log_def)
  next
    case (step t t1)
    from commit_inv_step [OF step.hyps(2) fatal step.IH] show ?case .
  qed
  then have h: "handled v s i" and "i < length (ke_log v)"
    using assms(3) by (auto simp: commit_inv_def topic_batch_ok_def in_log_def)
  then have "ke_log v ! i \<in> set (ke_log v)" by simp
  with h assms(1) show ?thesis by (cases "ke_parse v (ke_log v ! i)") (auto simp: handled_def)
qed

text \<open>A message that could not be stored at first, and is stored when the consumer is closed.\<close>

definition one_message :: "(nat, nat, bool) topic_env" where
  "one_message = sample_topic\<lparr>ke_log := [5]\<rparr>"

theorem committed_messages_handled_witness:
  "\<exists>b s. (topic_step one_message)\<^sup>*\<^sup>* (topic_start 3 10 False) (b, s, ConsumerClosed) \<and> ks_committed s = 1 \<and> 5 \<in> set (ks_stored s)"
proof -
  let ?step = "topic_step one_message"
  let ?b = "\<lambda>es pool. \<lparr>kb_max_size = 3, kb_timeout = 10, kb_next_timeout = 11, kb_entries = es, kb_errors = [],
    kb_pool = pool, kb_closed = False\<rparr> :: (nat, nat) message_batcher"
  let ?s = "\<lambda>i c st up. \<lparr>ks_position = i, ks_committed = c, ks_stored = st, ks_outside = up\<rparr> :: (nat, bool) topic_state"
  note d = one_message_def sample_topic_def
  note sub = submit_topic_def kafka_submit_def read_only_mode_def act_then_def wrapped_def store_entries_def commit_offsets_def
  have "?step (topic_start 3 10 False) (?b [0] [(5, 0)], ?s 1 0 [] False, Streaming)"
    using topic_read [of "?s 0 0 [] False" one_message 1 "new_message_batcher 3 10" "?b [0] [(5, 0)]"]
    by (simp add: topic_start_def d kafka_add_def new_message_batcher_def)
  moreover have "?step (?b [0] [(5, 0)], ?s 1 0 [] False, Streaming) (?b [5] [], ?s 1 0 [] False, Streaming)"
    by (rule topic_worker [of 0]) (simp_all add: d worker_done_def)
  moreover have "?step (?b [5] [], ?s 1 0 [] False, Streaming) (?b [5] [], ?s 1 0 [] False, Failed)"
    by (rule topic_error)
  moreover have "?step (?b [5] [], ?s 1 0 [] False, Failed) (?b [5] [], ?s 1 0 [] True, Failed)"
    using topic_outside [of one_message "?b [5] []" "?s 1 0 [] False" Failed True] by simp
  moreover have "?step (?b [5] [], ?s 1 0 [] True, Failed) (kafka_reset (?b [5] []), ?s 1 1 [5] True, ConsumerClosed)"
    by (rule topic_closed [where r = "Ok ()"]) (simp_all add: sub d)
  ultimately have run: "?step\<^sup>*\<^sup>* (topic_start 3 10 False) (kafka_reset (?b [5] []), ?s 1 1 [5] True, ConsumerClosed)"
    by (meson r_into_rtranclp rtranclp.rtrancl_into_rtrancl)
  have "\<exists>x. ke_parse one_message (ke_log one_message ! 0) = Inr x \<and> x \<in> set (ks_stored (?s 1 1 [5] True))"
    by (rule committed_messages_handled [OF _ run]) (simp_all add: d)
  then have "5 \<in> set (ks_stored (?s 1 1 [5] True))" by (simp add: d)
  with run show ?thesis by (metis topic_state.select_convs(2))
qed

section \<open>Losing a message\<close>





section \<open>Restarts\<close>

lemma stream_failures_Cons:
  assumes "stream_failures (t # ts) (k, r) = Ok b"
  shows "if r < t then stream_failures ts (9, t + restart_interval) = Ok b else k \<noteq> 0 \<and> stream_failures ts (k - 1, r) = Ok b"
  using assms by (auto simp: stream_failed_def max_restarts_def split: if_split_asm)

abbreviation failures_between :: "int \<Rightarrow> int \<Rightarrow> int list \<Rightarrow> nat" where
  "failures_between a z ts \<equiv> length (filter (\<lambda>t. a \<le> t \<and> t \<le> z) ts)"

lemma failures_until_reset: "sorted ts \<Longrightarrow> stream_failures ts (k, r) = Ok b \<Longrightarrow> failures_between a r ts \<le> k"
proof (induction ts arbitrary: k)
  case (Cons t ts)
  show ?case
  proof (cases "r < t")
    case True
    with Cons.prems(1) have "filter (\<lambda>t. a \<le> t \<and> t \<le> r) (t # ts) = []" by (auto simp: filter_empty_conv)
    then show ?thesis by (metis le0 list.size(3))
  next
    case False
    with Cons.prems stream_failures_Cons [OF Cons.prems(2)] Cons.IH [of "k - 1"] show ?thesis by auto
  qed
qed simp

lemma failures_in_window:
  "sorted ts \<Longrightarrow> \<forall>t \<in> set ts. a \<le> t \<Longrightarrow> stream_failures ts (k, r) = Ok b \<Longrightarrow> failures_between a (a + restart_interval) ts \<le> k + 10"
proof (induction ts arbitrary: k)
  case (Cons t ts)
  show ?case
  proof (cases "r < t")
    case True
    with stream_failures_Cons [OF Cons.prems(3)] have "stream_failures ts (9, t + restart_interval) = Ok b" by simp
    with Cons.prems(1) have "failures_between a (t + restart_interval) ts \<le> 9" by (simp add: failures_until_reset)
    moreover have "failures_between a (a + restart_interval) ts \<le> failures_between a (t + restart_interval) ts"
      using Cons.prems(2) by (induction ts) auto
    ultimately show ?thesis by simp
  next
    case False
    with Cons.prems stream_failures_Cons [OF Cons.prems(3)] Cons.IH [of "k - 1"] show ?thesis by auto
  qed
qed simp

lemma failures_in_any_window:
  "sorted ts \<Longrightarrow> k \<le> 10 \<Longrightarrow> stream_failures ts (k, r) = Ok b \<Longrightarrow> failures_between a (a + restart_interval) ts \<le> 20"
proof (induction ts arbitrary: k r)
  case (Cons t ts)
  show ?case
  proof (cases "a \<le> t")
    case True
    with Cons.prems(1) have "\<forall>x \<in> set (t # ts). a \<le> x" by auto
    from failures_in_window [OF Cons.prems(1) this Cons.prems(3)] Cons.prems(2) show ?thesis by linarith
  next
    case False
    with Cons.prems stream_failures_Cons [OF Cons.prems(3)] Cons.IH [of 9 "t + restart_interval"] Cons.IH [of "k - 1" r]
    show ?thesis by (cases "r < t") auto
  qed
qed simp

lemma twenty_failures:
  "stream_failures (replicate 10 (start + restart_interval) @ replicate 10 (start + restart_interval + 1)) (max_restarts, start + restart_interval) =
    Ok (0, start + restart_interval + 1 + restart_interval)"
  by (simp add: eval_nat_numeral stream_failed_def max_restarts_def restart_interval_def)

text \<open>
  Property C28. While the service has not panicked, the stream of a topic failed at most 20 times
  within any ten minutes, and 20 times are possible whenever the service was started: the ten
  restarts are counted in windows that start with the first failure after the last window, so that
  two of them can be used up within one stretch of that length. The comment
  in \<^verbatim>\<open>runStreamer\<close> promises a panic after more than 10 errors in 10 minutes.
\<close>

theorem restarts_bounded:
  assumes "sorted ts" and "stream_failures ts (max_restarts, start + restart_interval) = Ok b"
  shows "length (filter (\<lambda>t. a \<le> t \<and> t \<le> a + restart_interval) ts) \<le> 20 \<and>
    (\<exists>ts' a' b'. sorted ts' \<and> stream_failures ts' (max_restarts, start + restart_interval) = Ok b' \<and>
       length (filter (\<lambda>t. a' \<le> t \<and> t \<le> a' + restart_interval) ts') = 20)"
proof (intro conjI exI)
  show "length (filter (\<lambda>t. a \<le> t \<and> t \<le> a + restart_interval) ts) \<le> 20"
    using failures_in_any_window [OF assms(1) _ assms(2)] by (simp add: max_restarts_def)
  let ?ts = "replicate 10 (start + restart_interval) @ replicate 10 (start + restart_interval + 1)"
  show "sorted ?ts" by (simp add: sorted_append)
  show "stream_failures ?ts (max_restarts, start + restart_interval) = Ok (0, start + restart_interval + 1 + restart_interval)"
    by (rule twenty_failures)
  show "length (filter (\<lambda>t. start + restart_interval \<le> t \<and> t \<le> start + restart_interval + restart_interval) ?ts) = 20"
    by (simp add: restart_interval_def)
qed

text \<open>Eleven failures within a second are more than the comment allows, and are survived.\<close>

theorem restarts_bounded_witness:
  "stream_failures (replicate 10 restart_interval @ [restart_interval + 1]) (max_restarts, 0 + restart_interval) =
      Ok (9, 2 * restart_interval + 1) \<and>
    length (filter (\<lambda>t. restart_interval \<le> t \<and> t \<le> restart_interval + restart_interval)
      (replicate 10 restart_interval @ [restart_interval + 1])) \<le> 20"
proof -
  let ?ts = "replicate 10 restart_interval @ [restart_interval + 1]"
  have run: "stream_failures ?ts (max_restarts, 0 + restart_interval) = Ok (9, 2 * restart_interval + 1)"
    by (simp add: eval_nat_numeral stream_failed_def max_restarts_def restart_interval_def)
  have "sorted ?ts" by (simp add: sorted_append)
  from restarts_bounded [OF this run, of restart_interval] run show ?thesis by blast
qed

end
