(* ===== verification/KafkaMessages.thy ===== *)
theory KafkaMessages
  imports KafkaStream PersistIds
begin

text \<open>
  The messages of the streams: how \<^verbatim>\<open>kafka-streamer/main.go\<close> makes the rows of the mirror
  database of them. The decoder of the registry, \<^verbatim>\<open>pgtype\<close>, the layouts of \<^verbatim>\<open>time.Parse\<close>,
  \<^verbatim>\<open>json.Marshal\<close> and \<^verbatim>\<open>json.Unmarshal\<close> and the printing of errors are the fields of an environment.
\<close>

datatype 'n numeric = NumericUndefined | NumericNull | NumericValue 'n

datatype jsonb = JsonbUndefined | JsonbNull | JsonbPresent string

record kafka_message =
  km_topic :: string
  km_key :: string
  km_value :: string
  km_headers :: "(string \<times> string) list"
  km_offset :: int
  km_partition :: int
  km_timestamp :: int

record avro_owner =
  ao_nft_id :: string
  ao_owner_address :: string
  ao_quantity :: "string option"
  ao_collection_id :: "string option"
  ao_first_acquired_date :: "string option"
  ao_last_acquired_date :: "string option"
  ao_first_acquired_transaction :: "string option"
  ao_last_acquired_transaction :: "string option"
  ao_minted_to_this_wallet :: "bool option"
  ao_airdropped_to_this_wallet :: "bool option"
  ao_sold_to_this_wallet :: "bool option"

text \<open>\<open>'j\<close> holds the nested records of a token, which are only stored as JSON.\<close>

record 'j avro_nft =
  av_nft_id :: string
  av_chain :: "string option"
  av_contract_address :: "string option"
  av_token_id :: "string option"
  av_name :: "string option"
  av_description :: "string option"
  av_previews :: "'j option"
  av_image_url :: "string option"
  av_image_properties :: "'j option"
  av_video_url :: "string option"
  av_video_properties :: "'j option"
  av_audio_url :: "string option"
  av_audio_properties :: "'j option"
  av_model_url :: "string option"
  av_model_properties :: "'j option"
  av_other_url :: "string option"
  av_other_properties :: "'j option"
  av_background_color :: "string option"
  av_external_url :: "string option"
  av_created_date :: "string option"
  av_status :: "string option"
  av_token_count :: "string option"
  av_owner_count :: "string option"
  av_contract :: "'j option"
  av_collection :: "string option option"
  av_last_sale :: "'j option"
  av_first_created :: "'j option"
  av_rarity :: "'j option"
  av_extra_metadata :: "string option"

record 'n owner_entry =
  oe_simplehash_kafka_key :: string
  oe_simplehash_nft_id :: "string option"
  oe_kafka_offset :: "int option"
  oe_kafka_partition :: "int option"
  oe_kafka_timestamp :: "int option"
  oe_contract_address :: "string option"
  oe_token_id :: "'n numeric"
  oe_owner_address :: "string option"
  oe_quantity :: "'n numeric"
  oe_collection_id :: "string option"
  oe_first_acquired_date :: "int option"
  oe_last_acquired_date :: "int option"
  oe_first_acquired_transaction :: "string option"
  oe_last_acquired_transaction :: "string option"
  oe_minted_to_this_wallet :: "bool option"
  oe_airdropped_to_this_wallet :: "bool option"
  oe_sold_to_this_wallet :: "bool option"
  oe_should_upsert :: bool
  oe_should_delete :: bool

record 'n token_entry =
  te_simplehash_nft_id :: string
  te_should_delete :: bool
  te_simplehash_kafka_key :: string
  te_contract_address :: "string option"
  te_should_upsert :: bool
  te_collection_id :: "string option"
  te_token_id :: "'n numeric"
  te_name :: "string option"
  te_description :: "string option"
  te_previews :: jsonb
  te_image_url :: "string option"
  te_video_url :: "string option"
  te_audio_url :: "string option"
  te_model_url :: "string option"
  te_other_url :: "string option"
  te_background_color :: "string option"
  te_external_url :: "string option"
  te_on_chain_created_date :: "int option"
  te_status :: "string option"
  te_token_count :: "'n numeric"
  te_owner_count :: "'n numeric"
  te_contract :: jsonb
  te_last_sale :: jsonb
  te_first_created :: jsonb
  te_rarity :: jsonb
  te_extra_metadata :: "string option"
  te_image_properties :: jsonb
  te_video_properties :: jsonb
  te_audio_properties :: jsonb
  te_model_properties :: jsonb
  te_other_properties :: jsonb
  te_kafka_offset :: "int option"
  te_kafka_partition :: "int option"
  te_kafka_timestamp :: "int option"
  te_extra_metadata_jsonb :: jsonb

record ('n, 'j) parse_env =
  pv_lower :: "string \<Rightarrow> string"
  pv_show_error :: "gerror \<Rightarrow> string"
  pv_show_message :: "kafka_message \<Rightarrow> string"
  pv_owner :: "string \<Rightarrow> string \<Rightarrow> gerror + avro_owner"
  pv_nft :: "string \<Rightarrow> string \<Rightarrow> gerror + 'j avro_nft"
  pv_numeric :: "string \<Rightarrow> gerror + 'n"
  pv_time_rfc3339 :: "string \<Rightarrow> gerror + int"
  pv_time_without_zone :: "string \<Rightarrow> gerror + int"
  pv_marshal :: "'j \<Rightarrow> gerror + string"
  pv_json_object :: "string \<Rightarrow> bool"
  pv_set_jsonb :: "string \<Rightarrow> gerror + string"

text \<open>
  An error that wraps a non-fatal one is found to be non-fatal; its text is kept with the error
  that decides this.
\<close>

fun kafka_wrap :: "('n, 'j) parse_env \<Rightarrow> string \<Rightarrow> gerror \<Rightarrow> gerror" where
  "kafka_wrap v text_before (ErrNonFatal e) = ErrNonFatal (ErrText (text_before @ pv_show_error v e))"
| "kafka_wrap v text_before e = ErrText (text_before @ pv_show_error v e)"

definition wrap_out :: "(gerror \<Rightarrow> gerror) \<Rightarrow> 'a outcome \<Rightarrow> 'a outcome" where
  "wrap_out w m = (case m of Err e \<Rightarrow> Err (w e) | r \<Rightarrow> r)"

definition of_sum :: "gerror + 'a \<Rightarrow> 'a outcome" where
  "of_sum m = (case m of Inl e \<Rightarrow> Err e | Inr x \<Rightarrow> Ok x)"

section \<open>Values\<close>

definition parse_numeric :: "('n, 'j) parse_env \<Rightarrow> string option \<Rightarrow> 'n numeric outcome" where
  "parse_numeric v s = (case s of None \<Rightarrow> Ok NumericNull
   | Some x \<Rightarrow> wrap_out (kafka_wrap v (''failed to parse numeric '' @ [CHR 0x27] @ x @ [CHR 0x27] @ '': ''))
       (map_ok NumericValue (of_sum (pv_numeric v x))))"

definition parse_nft_id :: "('n, 'j) parse_env \<Rightarrow> string \<Rightarrow> (string \<times> 'n numeric) outcome" where
  "parse_nft_id v nft_id =
     (if trim_space nft_id = '''' then Err (ErrNonFatal (ErrText ''nft_id is empty''))
      else let parts = str_split nft_id ''.'' in
        if length parts \<noteq> 3 then Err (ErrText (''invalid nft_id: '' @ nft_id))
        else bind_out (wrap_out (kafka_wrap v ''failed to parse tokenID: '') (parse_numeric v (Some (parts ! 2))))
          (\<lambda>n. Ok (to_lower (pv_lower v) (parts ! 1), n)))"

definition parse_timestamp :: "('n, 'j) parse_env \<Rightarrow> string option \<Rightarrow> int option outcome" where
  "parse_timestamp v s = (case s of None \<Rightarrow> Ok None
   | Some x \<Rightarrow> (case pv_time_rfc3339 v x of
       Inr t \<Rightarrow> Ok (Some t)
     | Inl _ \<Rightarrow> (case pv_time_without_zone v x of
         Inr t \<Rightarrow> Ok (Some t)
       | Inl e \<Rightarrow> Err (kafka_wrap v (''failed to parse timestamp '' @ x @ '': '') e))))"

definition err_invalid_json :: gerror where
  "err_invalid_json = ErrText ''invalid JSON''"

definition without_nul :: "string \<Rightarrow> string" where
  "without_nul s = replace_all (replace_all s [CHR 0x00] '''') escaped_nul ''''"

definition clean_jsonb :: "('n, 'j) parse_env \<Rightarrow> string option \<Rightarrow> bool \<Rightarrow> jsonb outcome" where
  "clean_jsonb v s validated = (case s of None \<Rightarrow> Ok JsonbNull
   | Some x \<Rightarrow> let cleaned = without_nul x in
       if validated \<and> \<not> pv_json_object v cleaned then Err err_invalid_json
       else map_ok JsonbPresent (of_sum (pv_set_jsonb v cleaned)))"

definition to_jsonb :: "('n, 'j) parse_env \<Rightarrow> 'j option \<Rightarrow> jsonb outcome" where
  "to_jsonb v x = (case x of None \<Rightarrow> Ok JsonbNull
   | Some j \<Rightarrow> bind_out (of_sum (pv_marshal v j)) (\<lambda>s. clean_jsonb v (Some s) False))"

definition clean_string :: "string option \<Rightarrow> string option" where
  "clean_string = map_option (\<lambda>s. to_valid_utf8 (replace_all s [CHR 0x00] ''''))"

section \<open>Messages of owners\<close>

definition message_action :: "('n, 'j) parse_env \<Rightarrow> kafka_message \<Rightarrow> string outcome" where
  "message_action v msg = (case get_action_type (pv_lower v) (km_headers msg) of
     Ok a \<Rightarrow> Ok a
   | _ \<Rightarrow> Err (ErrText (''failed to get action type for msg: '' @ pv_show_message v msg)))"

definition zero_owner_entry :: "'n owner_entry" where
  "zero_owner_entry = \<lparr>oe_simplehash_kafka_key = '''', oe_simplehash_nft_id = None, oe_kafka_offset = None, oe_kafka_partition = None,
     oe_kafka_timestamp = None, oe_contract_address = None, oe_token_id = NumericUndefined, oe_owner_address = None,
     oe_quantity = NumericUndefined, oe_collection_id = None, oe_first_acquired_date = None, oe_last_acquired_date = None,
     oe_first_acquired_transaction = None, oe_last_acquired_transaction = None, oe_minted_to_this_wallet = None,
     oe_airdropped_to_this_wallet = None, oe_sold_to_this_wallet = None, oe_should_upsert = False, oe_should_delete = False\<rparr>"

definition deleted_owner_entry :: "string \<Rightarrow> 'n owner_entry" where
  "deleted_owner_entry key = zero_owner_entry\<lparr>oe_should_delete := True, oe_simplehash_kafka_key := key,
     oe_token_id := NumericNull, oe_quantity := NumericNull\<rparr>"

definition parse_owner_message :: "('n, 'j) parse_env \<Rightarrow> kafka_message \<Rightarrow> 'n owner_entry outcome" where
  "parse_owner_message v msg =
     bind_out (wrap_out (kafka_wrap v (''failed to deserialize owner message with key '' @ km_key msg @ '': ''))
       (of_sum (pv_owner v (km_topic msg) (km_value msg)))) (\<lambda>owner.
     bind_out (message_action v msg) (\<lambda>action.
     bind_out (wrap_out (kafka_wrap v ''error parsing NftID: '') (parse_nft_id v (ao_nft_id owner))) (\<lambda>(contract, token_id).
     bind_out (parse_numeric v (ao_quantity owner)) (\<lambda>quantity.
     bind_out (wrap_out (kafka_wrap v ''failed to parse First_acquired_date: '') (parse_timestamp v (ao_first_acquired_date owner))) (\<lambda>first_date.
     bind_out (wrap_out (kafka_wrap v ''failed to parse Last_acquired_date: '') (parse_timestamp v (ao_last_acquired_date owner))) (\<lambda>last_date.
       if action = ''delete'' then Ok (deleted_owner_entry (km_key msg))
       else if action = ''insert'' \<or> action = ''update'' then
         Ok \<lparr>oe_simplehash_kafka_key = km_key msg,
           oe_simplehash_nft_id = Some (ao_nft_id owner),
           oe_kafka_offset = Some (km_offset msg),
           oe_kafka_partition = Some (km_partition msg),
           oe_kafka_timestamp = Some (km_timestamp msg),
           oe_contract_address = Some contract,
           oe_token_id = token_id,
           oe_owner_address = Some (to_lower (pv_lower v) (ao_owner_address owner)),
           oe_quantity = quantity,
           oe_collection_id = ao_collection_id owner,
           oe_first_acquired_date = first_date,
           oe_last_acquired_date = last_date,
           oe_first_acquired_transaction = ao_first_acquired_transaction owner,
           oe_last_acquired_transaction = ao_last_acquired_transaction owner,
           oe_minted_to_this_wallet = ao_minted_to_this_wallet owner,
           oe_airdropped_to_this_wallet = ao_airdropped_to_this_wallet owner,
           oe_sold_to_this_wallet = ao_sold_to_this_wallet owner,
           oe_should_upsert = True,
           oe_should_delete = False\<rparr>
       else Err (ErrText (''invalid action type: '' @ action))))))))"

section \<open>Messages of tokens\<close>

definition zero_token_entry :: "'n token_entry" where
  "zero_token_entry = \<lparr>te_simplehash_nft_id = '''', te_should_delete = False, te_simplehash_kafka_key = '''', te_contract_address = None,
     te_should_upsert = False, te_collection_id = None, te_token_id = NumericUndefined, te_name = None, te_description = None,
     te_previews = JsonbUndefined, te_image_url = None, te_video_url = None, te_audio_url = None, te_model_url = None, te_other_url = None,
     te_background_color = None, te_external_url = None, te_on_chain_created_date = None, te_status = None,
     te_token_count = NumericUndefined, te_owner_count = NumericUndefined, te_contract = JsonbUndefined, te_last_sale = JsonbUndefined,
     te_first_created = JsonbUndefined, te_rarity = JsonbUndefined, te_extra_metadata = None, te_image_properties = JsonbUndefined,
     te_video_properties = JsonbUndefined, te_audio_properties = JsonbUndefined, te_model_properties = JsonbUndefined,
     te_other_properties = JsonbUndefined, te_kafka_offset = None, te_kafka_partition = None, te_kafka_timestamp = None,
     te_extra_metadata_jsonb = JsonbUndefined\<rparr>"

definition deleted_token_entry :: "string \<Rightarrow> 'n token_entry" where
  "deleted_token_entry key = zero_token_entry\<lparr>te_should_delete := True, te_simplehash_kafka_key := key,
     te_token_id := NumericNull, te_token_count := NumericNull, te_owner_count := NumericNull,
     te_previews := JsonbNull, te_contract := JsonbNull, te_last_sale := JsonbNull, te_first_created := JsonbNull,
     te_rarity := JsonbNull, te_image_properties := JsonbNull, te_video_properties := JsonbNull,
     te_audio_properties := JsonbNull, te_model_properties := JsonbNull, te_other_properties := JsonbNull\<rparr>"

text \<open>The identifier of a token that has none is made of its chain, contract and token id, if it has all three.\<close>

definition nft_id_or_built :: "'j avro_nft \<Rightarrow> string" where
  "nft_id_or_built nft = (if trim_space (av_nft_id nft) = '''' then
     (case (av_chain nft, av_contract_address nft, av_token_id nft) of
        (Some c, Some a, Some t) \<Rightarrow> c @ ''.'' @ a @ ''.'' @ t
      | _ \<Rightarrow> av_nft_id nft) else av_nft_id nft)"

text \<open>Metadata that is no JSON is only left out of the column that holds it as JSON.\<close>

definition extra_metadata_jsonb :: "('n, 'j) parse_env \<Rightarrow> 'j avro_nft \<Rightarrow> jsonb outcome" where
  "extra_metadata_jsonb v nft = (case clean_jsonb v (av_extra_metadata nft) True of
     Err e \<Rightarrow> (if e = err_invalid_json then Ok JsonbNull else Err (kafka_wrap v ''failed to convert Extra_metadata to JSONB: '' e))
   | r \<Rightarrow> r)"

definition nft_jsonb :: "('n, 'j) parse_env \<Rightarrow> string \<Rightarrow> 'j option \<Rightarrow> jsonb outcome" where
  "nft_jsonb v field x = wrap_out (kafka_wrap v (''failed to convert '' @ field @ '' to JSONB: '')) (to_jsonb v x)"

definition parse_token_message :: "('n, 'j) parse_env \<Rightarrow> kafka_message \<Rightarrow> 'n token_entry outcome" where
  "parse_token_message v msg =
     bind_out (wrap_out (kafka_wrap v (''failed to deserialize token message with key '' @ km_key msg @ '': ''))
       (of_sum (pv_nft v (km_topic msg) (km_value msg)))) (\<lambda>nft.
     bind_out (message_action v msg) (\<lambda>action.
     bind_out (wrap_out (kafka_wrap v ''error parsing NftID: '') (parse_nft_id v (nft_id_or_built nft))) (\<lambda>(contract_address, token_id).
     bind_out (nft_jsonb v ''Previews'' (av_previews nft)) (\<lambda>previews.
     bind_out (nft_jsonb v ''Contract'' (av_contract nft)) (\<lambda>contract.
     bind_out (nft_jsonb v ''Last_sale'' (av_last_sale nft)) (\<lambda>last_sale.
     bind_out (nft_jsonb v ''First_created'' (av_first_created nft)) (\<lambda>first_created.
     bind_out (nft_jsonb v ''Rarity'' (av_rarity nft)) (\<lambda>rarity.
     bind_out (extra_metadata_jsonb v nft) (\<lambda>extra_metadata.
     bind_out (nft_jsonb v ''Image_properties'' (av_image_properties nft)) (\<lambda>image_properties.
     bind_out (nft_jsonb v ''Video_properties'' (av_video_properties nft)) (\<lambda>video_properties.
     bind_out (nft_jsonb v ''Audio_properties'' (av_audio_properties nft)) (\<lambda>audio_properties.
     bind_out (nft_jsonb v ''Model_properties'' (av_model_properties nft)) (\<lambda>model_properties.
     bind_out (nft_jsonb v ''Other_properties'' (av_other_properties nft)) (\<lambda>other_properties.
     bind_out (wrap_out (kafka_wrap v ''failed to parse Token_count: '') (parse_numeric v (av_token_count nft))) (\<lambda>token_count.
     bind_out (wrap_out (kafka_wrap v ''failed to parse Owner_count: '') (parse_numeric v (av_owner_count nft))) (\<lambda>owner_count.
     bind_out (wrap_out (kafka_wrap v ''failed to parse Created_date: '') (parse_timestamp v (av_created_date nft))) (\<lambda>created.
       if action = ''delete'' then Ok (deleted_token_entry (km_key msg))
       else if action = ''insert'' \<or> action = ''update'' then
         Ok \<lparr>te_simplehash_nft_id = nft_id_or_built nft,
           te_should_delete = False,
           te_simplehash_kafka_key = km_key msg,
           te_contract_address = Some contract_address,
           te_should_upsert = True,
           te_collection_id = (case av_collection nft of None \<Rightarrow> None | Some c \<Rightarrow> c),
           te_token_id = token_id,
           te_name = clean_string (av_name nft),
           te_description = clean_string (av_description nft),
           te_previews = previews,
           te_image_url = clean_string (av_image_url nft),
           te_video_url = clean_string (av_video_url nft),
           te_audio_url = clean_string (av_audio_url nft),
           te_model_url = clean_string (av_model_url nft),
           te_other_url = clean_string (av_other_url nft),
           te_background_color = clean_string (av_background_color nft),
           te_external_url = clean_string (av_external_url nft),
           te_on_chain_created_date = created,
           te_status = clean_string (av_status nft),
           te_token_count = token_count,
           te_owner_count = owner_count,
           te_contract = contract,
           te_last_sale = last_sale,
           te_first_created = first_created,
           te_rarity = rarity,
           te_extra_metadata = clean_string (av_extra_metadata nft),
           te_image_properties = image_properties,
           te_video_properties = video_properties,
           te_audio_properties = audio_properties,
           te_model_properties = model_properties,
           te_other_properties = other_properties,
           te_kafka_offset = Some (km_offset msg),
           te_kafka_partition = Some (km_partition msg),
           te_kafka_timestamp = Some (km_timestamp msg),
           te_extra_metadata_jsonb = extra_metadata\<rparr>
       else Err (ErrText (''invalid action type: '' @ action)))))))))))))))))))"

end
