(* ===== verification/KafkaFill.thy ===== *)
theory KafkaFill
  imports Complex_Main KafkaMessages
begin

text \<open>
  How the streamer completes the contracts and collections of the mirror database with what the API
  of SimpleHash tells of them: the types of \<^verbatim>\<open>kafka-streamer/rest/rest.go\<close> and the fillers of
  \<^verbatim>\<open>kafka-streamer/main.go\<close>. Requests, decoders and the queries of \<^verbatim>\<open>db/gen/mirrordb\<close> are the
  fields of an environment.
\<close>

section \<open>What the API tells\<close>

record sh_contract =
  sc_type :: "string option"
  sc_name :: "string option"
  sc_symbol :: "string option"
  sc_deployed_by :: "string option"
  sc_deployed_via_contract :: "string option"
  sc_owned_by :: "string option"
  sc_has_multiple_collections :: "bool option"

record marketplace_page =
  mk_marketplace_id :: string
  mk_marketplace_name :: string
  mk_marketplace_collection_id :: string
  mk_nft_url :: "string option"
  mk_collection_url :: string
  mk_verified :: "bool option"

record royalty_recipient =
  rr_address :: string
  rr_percentage :: real
  rr_basis_points :: int

record collection_royalty =
  cy_source :: string
  cy_total_creator_fee_basis_points :: int
  cy_recipients :: "royalty_recipient list"

record sh_collection =
  so_collection_id :: "string option"
  so_name :: "string option"
  so_description :: "string option"
  so_image_url :: "string option"
  so_banner_image_url :: "string option"
  so_category :: "string option"
  so_is_nsfw :: "bool option"
  so_external_url :: "string option"
  so_twitter_username :: "string option"
  so_discord_url :: "string option"
  so_instagram_url :: "string option"
  so_medium_username :: "string option"
  so_telegram_url :: "string option"
  so_marketplace_pages :: "marketplace_page list"
  so_metaplex_mint :: "string option"
  so_metaplex_candy_machine :: "string option"
  so_metaplex_first_verified_creator :: "string option"
  so_spam_score :: "int option"
  so_chains :: "string list"
  so_top_contracts :: "string list"
  so_collection_royalties :: "collection_royalty list"

record sh_nft =
  sn_chain :: "string option"
  sn_contract_address :: "string option"
  sn_contract :: "sh_contract option"
  sn_collection :: "sh_collection option"

definition normalize_case :: "(string \<Rightarrow> string) \<Rightarrow> string option \<Rightarrow> string option" where
  "normalize_case ul = map_option (to_lower ul)"

definition normalize_contract :: "(string \<Rightarrow> string) \<Rightarrow> sh_contract \<Rightarrow> sh_contract" where
  "normalize_contract ul c = c\<lparr>sc_deployed_by := normalize_case ul (sc_deployed_by c),
     sc_deployed_via_contract := normalize_case ul (sc_deployed_via_contract c), sc_owned_by := normalize_case ul (sc_owned_by c)\<rparr>"

definition normalize_collection :: "(string \<Rightarrow> string) \<Rightarrow> sh_collection \<Rightarrow> sh_collection" where
  "normalize_collection ul c = c\<lparr>so_top_contracts := map (to_lower ul) (so_top_contracts c),
     so_collection_royalties := map (\<lambda>y. y\<lparr>cy_recipients := map (\<lambda>r. r\<lparr>rr_address := to_lower ul (rr_address r)\<rparr>) (cy_recipients y)\<rparr>)
       (so_collection_royalties c)\<rparr>"

definition normalize_nft :: "(string \<Rightarrow> string) \<Rightarrow> sh_nft \<Rightarrow> sh_nft" where
  "normalize_nft ul n = n\<lparr>sn_contract_address := normalize_case ul (sn_contract_address n),
     sn_contract := map_option (normalize_contract ul) (sn_contract n),
     sn_collection := map_option (normalize_collection ul) (sn_collection n)\<rparr>"

section \<open>What the queries take\<close>

record contract_update =
  xc_address :: string
  xc_type :: "string option"
  xc_name :: "string option"
  xc_symbol :: "string option"
  xc_deployed_by :: "string option"
  xc_deployed_via_contract :: "string option"
  xc_owned_by :: "string option"
  xc_has_multiple_collections :: "bool option"

record collection_update =
  xo_collection_id :: string
  xo_name :: "string option"
  xo_description :: "string option"
  xo_image_url :: "string option"
  xo_banner_image_url :: "string option"
  xo_category :: "string option"
  xo_is_nsfw :: "bool option"
  xo_external_url :: "string option"
  xo_twitter_username :: "string option"
  xo_discord_url :: "string option"
  xo_instagram_url :: "string option"
  xo_medium_username :: "string option"
  xo_telegram_url :: "string option"
  xo_marketplace_pages :: jsonb
  xo_metaplex_mint :: "string option"
  xo_metaplex_candy_machine :: "string option"
  xo_metaplex_first_verified_creator :: "string option"
  xo_spam_score :: "int option"
  xo_chains :: "string list"
  xo_top_contracts :: "string list"
  xo_collection_royalties :: jsonb

datatype mirror_chain = MirrorEthereum | MirrorBase | MirrorBaseSepolia | MirrorZora

text \<open>What is marshalled here is one of the two lists.\<close>

record 's fill_env =
  kf_parse :: "(unit, marketplace_page list + collection_royalty list) parse_env"
  kf_request :: "string \<Rightarrow> ('s, int \<times> string) act"
  kf_response_error :: "int \<Rightarrow> string \<Rightarrow> gerror"
  kf_decode_nfts :: "string \<Rightarrow> gerror + sh_nft list"
  kf_decode_collections :: "string \<Rightarrow> gerror + sh_collection list"
  kf_show_contract :: "gerror \<Rightarrow> contract_update \<Rightarrow> gerror"
  kf_show_collection :: "gerror \<Rightarrow> collection_update \<Rightarrow> gerror"
  kf_show_id :: "gerror \<Rightarrow> string \<Rightarrow> gerror"
  kf_update_contracts :: "mirror_chain \<Rightarrow> contract_update list \<Rightarrow> ('s, gerror option list) act"
  kf_update_collections :: "collection_update list \<Rightarrow> ('s, gerror option list) act"
  kf_set_deleted :: "string list \<Rightarrow> ('s, gerror option list) act"

definition contract_to_params :: "string \<Rightarrow> sh_contract \<Rightarrow> contract_update" where
  "contract_to_params address c = \<lparr>xc_address = address, xc_type = sc_type c, xc_name = clean_string (sc_name c),
     xc_symbol = clean_string (sc_symbol c), xc_deployed_by = clean_string (sc_deployed_by c),
     xc_deployed_via_contract = clean_string (sc_deployed_via_contract c), xc_owned_by = clean_string (sc_owned_by c),
     xc_has_multiple_collections = sc_has_multiple_collections c\<rparr>"

definition jsonb_or_null :: "jsonb outcome \<Rightarrow> jsonb" where
  "jsonb_or_null m = (case m of Ok j \<Rightarrow> j | _ \<Rightarrow> JsonbNull)"

definition collection_to_params :: "'s fill_env \<Rightarrow> string \<Rightarrow> sh_collection \<Rightarrow> collection_update" where
  "collection_to_params v i c = \<lparr>xo_collection_id = i, xo_name = clean_string (so_name c), xo_description = clean_string (so_description c),
     xo_image_url = clean_string (so_image_url c), xo_banner_image_url = clean_string (so_banner_image_url c),
     xo_category = clean_string (so_category c), xo_is_nsfw = so_is_nsfw c, xo_external_url = clean_string (so_external_url c),
     xo_twitter_username = clean_string (so_twitter_username c), xo_discord_url = clean_string (so_discord_url c),
     xo_instagram_url = clean_string (so_instagram_url c), xo_medium_username = clean_string (so_medium_username c),
     xo_telegram_url = clean_string (so_telegram_url c),
     xo_marketplace_pages = jsonb_or_null (to_jsonb (kf_parse v) (Some (Inl (so_marketplace_pages c)))),
     xo_metaplex_mint = clean_string (so_metaplex_mint c), xo_metaplex_candy_machine = clean_string (so_metaplex_candy_machine c),
     xo_metaplex_first_verified_creator = clean_string (so_metaplex_first_verified_creator c),
     xo_spam_score = so_spam_score c, xo_chains = so_chains c, xo_top_contracts = so_top_contracts c,
     xo_collection_royalties = jsonb_or_null (to_jsonb (kf_parse v) (Some (Inr (so_collection_royalties c))))\<rparr>"

section \<open>Requests\<close>

fun joined_by_comma :: "string list \<Rightarrow> string" where
  "joined_by_comma [] = ''''"
| "joined_by_comma [x] = x"
| "joined_by_comma (x # xs) = x @ '','' @ joined_by_comma xs"

definition get_simplehash_nfts :: "'s fill_env \<Rightarrow> string list \<Rightarrow> ('s, sh_nft list) act" where
  "get_simplehash_nfts v ids = (if ids = [] then give (Ok [])
     else act_then (kf_request v (''https://api.simplehash.com/api/v0/nfts/assets?nft_ids='' @ joined_by_comma ids)) (\<lambda>(status, body).
       give (if status \<noteq> 200 then Err (kf_response_error v status body) else of_sum (kf_decode_nfts v body))))"

definition get_simplehash_collections :: "'s fill_env \<Rightarrow> string list \<Rightarrow> ('s, sh_collection list) act" where
  "get_simplehash_collections v ids = (if ids = [] then give (Ok [])
     else act_then (kf_request v (''https://api.simplehash.com/api/v0/nfts/collections/ids?collection_ids='' @ joined_by_comma ids))
       (\<lambda>(status, body).
       give (if status \<noteq> 200 then Err (kf_response_error v status body) else of_sum (kf_decode_collections v body))))"

section \<open>Fillers\<close>

text \<open>
  A filler answers with the results and errors of its batch; only an error of the request is among
  them, those of the queries are logged.
\<close>

type_synonym 's filler = "string list \<Rightarrow> ('s, bool list \<times> gerror list) act"

definition mirror_chain_of :: "string \<Rightarrow> mirror_chain option" where
  "mirror_chain_of c = (if c = ''ethereum'' then Some MirrorEthereum else if c = ''base'' then Some MirrorBase
     else if c = ''base-sepolia'' then Some MirrorBaseSepolia else if c = ''zora'' then Some MirrorZora else None)"

definition contract_rows :: "mirror_chain \<Rightarrow> sh_nft list \<Rightarrow> contract_update list" where
  "contract_rows ch nfts = concat (map (\<lambda>n. case (sn_contract n, sn_chain n, sn_contract_address n) of
       (Some c, Some name, Some a) \<Rightarrow> if mirror_chain_of name = Some ch then [contract_to_params a c] else []
     | _ \<Rightarrow> []) nfts)"

definition collection_rows :: "'s fill_env \<Rightarrow> sh_collection list \<Rightarrow> collection_update list" where
  "collection_rows v cs = concat (map (\<lambda>c. case so_collection_id c of Some i \<Rightarrow> [collection_to_params v i c] | None \<Rightarrow> []) cs)"

definition logged_batch :: "(gerror \<Rightarrow> 'p \<Rightarrow> gerror) \<Rightarrow> ('p list \<Rightarrow> ('s, gerror option list) act) \<Rightarrow> 'p list \<Rightarrow> ('s, unit) act" where
  "logged_batch failed query params = (if params = [] then give (Ok ()) else or_else (submit_exec_batch failed query params) ())"

definition fill_by_nft_ids :: "'s fill_env \<Rightarrow> 's filler" where
  "fill_by_nft_ids v ids = act_then (attempt (get_simplehash_nfts v ids)) (\<lambda>r. case r of
     Inl e \<Rightarrow> give (Ok ([], [e]))
   | Inr found \<Rightarrow>
     let nfts = map (normalize_nft (pv_lower (kf_parse v))) found in
     if read_only_mode then give (Ok ([], []))
     else act_then (logged_batch (kf_show_contract v) (kf_update_contracts v MirrorEthereum) (contract_rows MirrorEthereum nfts)) (\<lambda>_.
       act_then (logged_batch (kf_show_contract v) (kf_update_contracts v MirrorBase) (contract_rows MirrorBase nfts)) (\<lambda>_.
       act_then (logged_batch (kf_show_contract v) (kf_update_contracts v MirrorBaseSepolia) (contract_rows MirrorBaseSepolia nfts)) (\<lambda>_.
       act_then (logged_batch (kf_show_contract v) (kf_update_contracts v MirrorZora) (contract_rows MirrorZora nfts)) (\<lambda>_.
       act_then (logged_batch (kf_show_collection v) (kf_update_collections v)
           (collection_rows v (concat (map (\<lambda>n. case sn_collection n of Some c \<Rightarrow> [c] | None \<Rightarrow> []) nfts)))) (\<lambda>_.
       give (Ok ([], []))))))))"

text \<open>The collections that were asked for and that the API does not know, if the numbers differ at all.\<close>

definition collections_to_delete :: "string list \<Rightarrow> sh_collection list \<Rightarrow> string list" where
  "collections_to_delete ids cs =
     (if length (filter (\<lambda>c. so_collection_id c \<noteq> None) cs) \<noteq> length ids
      then filter (\<lambda>i. \<forall>c \<in> set cs. so_collection_id c \<noteq> Some i) ids else [])"

definition fill_by_collection_ids :: "'s fill_env \<Rightarrow> 's filler" where
  "fill_by_collection_ids v ids = act_then (attempt (get_simplehash_collections v ids)) (\<lambda>r. case r of
     Inl e \<Rightarrow> give (Ok ([], [e]))
   | Inr found \<Rightarrow>
     let params = collection_rows v (map (normalize_collection (pv_lower (kf_parse v))) found) in
     if read_only_mode then give (Ok ([], []))
     else act_then (logged_batch (kf_show_id v) (kf_set_deleted v) (collections_to_delete ids found)) (\<lambda>_.
       act_then (logged_batch (kf_show_collection v) (kf_update_collections v) params) (\<lambda>_. give (Ok ([], [])))))"

section \<open>The loop that fills what is missing\<close>

definition first_error :: "gerror option list \<Rightarrow> gerror option" where
  "first_error errs = (case filter (\<lambda>e. e \<noteq> None) errs of [] \<Rightarrow> None | e # _ \<Rightarrow> e)"

text \<open>
  The rounds between two pauses of the loop, which need not end. \<open>fill\<close> is the batcher in front of
  a filler.
\<close>

partial_function (option) fill_rounds :: "('s, string list) act \<Rightarrow> (string list \<Rightarrow> ('s, bool list \<times> gerror option list) act)
    \<Rightarrow> string list \<Rightarrow> 's \<Rightarrow> (unit outcome \<times> 's) option" where
  "fill_rounds query fill ids s = (if ids = [] then Some (Ok (), s) else case fill ids s of
     (Ok (_, errs), s1) \<Rightarrow> (case first_error errs of
         Some e \<Rightarrow> Some (Ok (), s1)
       | None \<Rightarrow> (case query s1 of
           (Ok missing, s2) \<Rightarrow> fill_rounds query fill missing s2
         | (Err e, s2) \<Rightarrow> Some (Ok (), s2)
         | (Panic p, s2) \<Rightarrow> Some (Panic p, s2)))
   | (Err e, s1) \<Rightarrow> Some (Err e, s1)
   | (Panic p, s1) \<Rightarrow> Some (Panic p, s1))"

declare fill_rounds.simps [code]

definition fill_missing_once :: "('s, string list) act \<Rightarrow> (string list \<Rightarrow> ('s, bool list \<times> gerror option list) act)
    \<Rightarrow> 's \<Rightarrow> (unit outcome \<times> 's) option" where
  "fill_missing_once query fill s = (case query s of
     (Ok ids, s1) \<Rightarrow> fill_rounds query fill ids s1
   | (Err e, s1) \<Rightarrow> Some (Ok (), s1)
   | (Panic p, s1) \<Rightarrow> Some (Panic p, s1))"

section \<open>The topics\<close>

text \<open>The parsers never panic.\<close>

definition parse_result :: "'a outcome \<Rightarrow> gerror + 'a" where
  "parse_result m = (case m of Ok x \<Rightarrow> Inr x | Err e \<Rightarrow> Inl e | Panic p \<Rightarrow> Inl ErrContextDone)"

definition config_batcher :: "('m, 'e) message_batcher" where
  "config_batcher = new_message_batcher 250 (10 ^ 9)"

definition owner_topic :: "('n, 'j) parse_env \<Rightarrow> (gerror \<Rightarrow> 'n owner_entry \<Rightarrow> gerror) \<Rightarrow> ('n owner_entry list \<Rightarrow> ('c, gerror option list) act)
    \<Rightarrow> ((gerror \<times> nat) list \<Rightarrow> string) \<Rightarrow> ('c, unit) act \<Rightarrow> kafka_message list \<Rightarrow> (kafka_message, 'n owner_entry, 'c) topic_env" where
  "owner_topic v failed process show_errors commit messages = \<lparr>ke_log = messages,
     ke_parse = (\<lambda>m. parse_result (parse_owner_message v m)), ke_zero = zero_owner_entry,
     ke_submit = submit_exec_batch failed process, ke_commit = commit, ke_show_errors = show_errors, ke_show_error = pv_show_error v\<rparr>"

definition token_topic :: "('n, 'j) parse_env \<Rightarrow> (gerror \<Rightarrow> 'n token_entry \<Rightarrow> gerror) \<Rightarrow> ('n token_entry list \<Rightarrow> ('c, (gerror + string) list) act)
    \<Rightarrow> (string list \<Rightarrow> ('c, unit) act) \<Rightarrow> ((gerror \<times> nat) list \<Rightarrow> string) \<Rightarrow> ('c, unit) act \<Rightarrow> kafka_message list
    \<Rightarrow> (kafka_message, 'n token_entry, 'c) topic_env" where
  "token_topic v failed process fill show_errors commit messages = \<lparr>ke_log = messages,
     ke_parse = (\<lambda>m. parse_result (parse_token_message v m)), ke_zero = zero_token_entry,
     ke_submit = submit_token_batch failed process fill, ke_commit = commit, ke_show_errors = show_errors, ke_show_error = pv_show_error v\<rparr>"

lemma is_panic_wrap_out [simp]: "is_panic (wrap_out w m) = is_panic m"
  by (cases m) (simp_all add: wrap_out_def)

lemma is_panic_map_ok [simp]: "is_panic (map_ok f m) = is_panic m"
  by (cases m) simp_all

lemma is_panic_of_sum [simp]: "\<not> is_panic (of_sum m)"
  by (cases m) (simp_all add: of_sum_def)

lemma message_action_no_panic [simp]: "\<not> is_panic (message_action v msg)"
  by (simp add: message_action_def split: outcome.split)

lemma parse_numeric_no_panic [simp]: "\<not> is_panic (parse_numeric v n)"
  by (cases n) (simp_all add: parse_numeric_def)

lemma parse_nft_id_no_panic [simp]: "\<not> is_panic (parse_nft_id v i)"
  by (simp add: parse_nft_id_def Let_def is_panic_bind split: if_split)

lemma parse_timestamp_no_panic [simp]: "\<not> is_panic (parse_timestamp v t)"
  by (cases t) (simp_all add: parse_timestamp_def split: sum.split)

lemma clean_jsonb_no_panic [simp]: "\<not> is_panic (clean_jsonb v c b)"
  by (cases c) (simp_all add: clean_jsonb_def Let_def)

lemma nft_jsonb_no_panic [simp]: "\<not> is_panic (nft_jsonb v f x)"
  by (cases x) (simp_all add: nft_jsonb_def to_jsonb_def is_panic_bind)

lemma extra_metadata_no_panic [simp]: "\<not> is_panic (extra_metadata_jsonb v nft)"
  using clean_jsonb_no_panic [of v "av_extra_metadata nft" True]
  by (auto simp: extra_metadata_jsonb_def simp del: clean_jsonb_no_panic split: outcome.split)

lemma parsers_never_panic:
  "\<not> is_panic (parse_owner_message v msg)" "\<not> is_panic (parse_token_message v msg)"
  by (simp_all add: parse_owner_message_def parse_token_message_def is_panic_bind split_beta)

end
