(* ===== verification/KafkaEntries.thy ===== *)
theory KafkaEntries
  imports KafkaFill
begin

text \<open>
  What the rows made of messages look like, and which collections a filler updates or marks as
  deleted.
\<close>

section \<open>Rows\<close>

lemma wrap_out_Ok_iff [simp, outcome_simps]: "wrap_out w m = Ok x \<longleftrightarrow> m = Ok x"
  by (cases m) (simp_all add: wrap_out_def)

lemma bind_out_OkE: "bind_out m f = Ok y \<Longrightarrow> (\<And>x. m = Ok x \<Longrightarrow> f x = Ok y \<Longrightarrow> P) \<Longrightarrow> P"
  by auto

lemma bind_pair_OkE: "bind_out m (\<lambda>(a, b). f a b) = Ok y \<Longrightarrow> (\<And>a b. m = Ok (a, b) \<Longrightarrow> f a b = Ok y \<Longrightarrow> P) \<Longrightarrow> P"
  by auto

lemma parse_numeric_defined: "parse_numeric v s \<noteq> Ok NumericUndefined"
  by (cases s) (simp_all add: parse_numeric_def map_ok_Ok_iff)

lemma parse_nft_id_defined: "parse_nft_id v s \<noteq> Ok (a, NumericUndefined)"
  by (simp add: parse_nft_id_def Let_def parse_numeric_defined)

lemma clean_jsonb_defined: "clean_jsonb v s b \<noteq> Ok JsonbUndefined"
  by (cases s) (simp_all add: clean_jsonb_def Let_def map_ok_Ok_iff)

lemma nft_jsonb_defined: "nft_jsonb v n x \<noteq> Ok JsonbUndefined"
  by (cases x) (simp_all add: nft_jsonb_def to_jsonb_def clean_jsonb_defined)

lemma extra_metadata_defined: "extra_metadata_jsonb v n \<noteq> Ok JsonbUndefined"
  using clean_jsonb_defined [of v "av_extra_metadata n" True]
  by (auto simp: extra_metadata_jsonb_def split: outcome.split)

lemma defined_valuesD:
  "parse_numeric v s = Ok n \<Longrightarrow> n \<noteq> NumericUndefined"
  "parse_nft_id v i = Ok (a, n) \<Longrightarrow> n \<noteq> NumericUndefined"
  "nft_jsonb v f x = Ok j \<Longrightarrow> j \<noteq> JsonbUndefined"
  "extra_metadata_jsonb v t = Ok j \<Longrightarrow> j \<noteq> JsonbUndefined"
  by (auto simp: parse_numeric_defined parse_nft_id_defined nft_jsonb_defined extra_metadata_defined)

lemmas defined_values = parse_numeric_defined parse_nft_id_defined clean_jsonb_defined nft_jsonb_defined extra_metadata_defined

text \<open>The columns of a row that the driver refuses to encode when they are not set.\<close>

definition token_numerics :: "'n token_entry \<Rightarrow> 'n numeric list" where
  "token_numerics x = [te_token_id x, te_token_count x, te_owner_count x]"

definition token_jsonbs :: "'n token_entry \<Rightarrow> jsonb list" where
  "token_jsonbs x = [te_previews x, te_contract x, te_last_sale x, te_first_created x, te_rarity x, te_image_properties x,
     te_video_properties x, te_audio_properties x, te_model_properties x, te_other_properties x, te_extra_metadata_jsonb x]"

definition token_encodable :: "'n token_entry \<Rightarrow> bool" where
  "token_encodable x \<longleftrightarrow> NumericUndefined \<notin> set (token_numerics x) \<and> JsonbUndefined \<notin> set (token_jsonbs x)"

definition owner_encodable :: "'n owner_entry \<Rightarrow> bool" where
  "owner_encodable x \<longleftrightarrow> oe_token_id x \<noteq> NumericUndefined \<and> oe_quantity x \<noteq> NumericUndefined"

definition sample_parse :: "(nat, unit) parse_env" where
  "sample_parse = \<lparr>pv_lower = id, pv_show_error = (\<lambda>e. ''''), pv_show_message = (\<lambda>m. ''''),
     pv_owner = (\<lambda>t b. Inr \<lparr>ao_nft_id = ''base.0xA.7'', ao_owner_address = ''0xB'', ao_quantity = Some ''1'', ao_collection_id = None,
       ao_first_acquired_date = None, ao_last_acquired_date = None, ao_first_acquired_transaction = None,
       ao_last_acquired_transaction = None, ao_minted_to_this_wallet = None, ao_airdropped_to_this_wallet = None,
       ao_sold_to_this_wallet = None\<rparr>),
     pv_nft = (\<lambda>t b. Inr \<lparr>av_nft_id = '''', av_chain = Some ''base'', av_contract_address = Some ''0xA'', av_token_id = Some ''7'', av_name = None,
       av_description = None, av_previews = None, av_image_url = None, av_image_properties = None, av_video_url = None,
       av_video_properties = None, av_audio_url = None, av_audio_properties = None, av_model_url = None, av_model_properties = None,
       av_other_url = None, av_other_properties = None, av_background_color = None, av_external_url = None, av_created_date = None,
       av_status = None, av_token_count = None, av_owner_count = None, av_contract = None, av_collection = None, av_last_sale = None,
       av_first_created = None, av_rarity = None, av_extra_metadata = None\<rparr>),
     pv_numeric = (\<lambda>s. Inr (length s)), pv_time_rfc3339 = (\<lambda>s. Inl IoEOF), pv_time_without_zone = (\<lambda>s. Inl IoEOF),
     pv_marshal = (\<lambda>j. Inr ''{}''), pv_json_object = (\<lambda>s. True), pv_set_jsonb = Inr\<rparr>"

definition sample_message :: "string \<Rightarrow> kafka_message" where
  "sample_message action = \<lparr>km_topic = ''base'', km_key = ''k'', km_value = '''', km_headers = [(''modType'', action)],
     km_offset = 3, km_partition = 0, km_timestamp = 1\<rparr>"

lemma sample_parsed:
  "is_ok (parse_owner_message sample_parse (sample_message ''UPDATE''))"
  "parse_token_message sample_parse (sample_message ''delete'') = Ok (deleted_token_entry ''k'')"
  "is_ok (parse_token_message sample_parse (sample_message ''insert''))"
  by code_simp+

text \<open>
  A row made of a message of an owner can always be encoded: it either upserts or
  deletes the owner with the key of the message, and its numbers are set or null.
\<close>

theorem owner_rows_encodable:
  assumes "parse_owner_message v msg = Ok x"
  shows "owner_encodable x \<and> oe_should_upsert x \<noteq> oe_should_delete x \<and> oe_simplehash_kafka_key x = km_key msg"
  using assms
  by (auto simp: parse_owner_message_def owner_encodable_def deleted_owner_entry_def zero_owner_entry_def defined_values split: if_splits)

theorem owner_rows_encodable_witness:
  "\<exists>x. parse_owner_message sample_parse (sample_message ''UPDATE'') = Ok x \<and> owner_encodable x \<and> oe_simplehash_kafka_key x = ''k''"
proof -
  from sample_parsed(1) obtain x where x: "parse_owner_message sample_parse (sample_message ''UPDATE'') = Ok x" by (auto simp: is_ok_iff)
  with owner_rows_encodable [OF x] show ?thesis by (simp add: sample_message_def)
qed

lemma deleted_row_columns:
  "\<not> token_encodable (deleted_token_entry key)" "\<not> te_should_upsert (deleted_token_entry key)"
  "te_should_delete (deleted_token_entry key)" "te_simplehash_kafka_key (deleted_token_entry key) = key"
  by (simp_all add: token_encodable_def token_numerics_def token_jsonbs_def deleted_token_entry_def zero_token_entry_def)

lemma upserted_row_columns:
  assumes "te_token_id x \<noteq> NumericUndefined" "te_token_count x \<noteq> NumericUndefined" "te_owner_count x \<noteq> NumericUndefined"
    "te_previews x \<noteq> JsonbUndefined" "te_contract x \<noteq> JsonbUndefined" "te_last_sale x \<noteq> JsonbUndefined"
    "te_first_created x \<noteq> JsonbUndefined" "te_rarity x \<noteq> JsonbUndefined" "te_image_properties x \<noteq> JsonbUndefined"
    "te_video_properties x \<noteq> JsonbUndefined" "te_audio_properties x \<noteq> JsonbUndefined" "te_model_properties x \<noteq> JsonbUndefined"
    "te_other_properties x \<noteq> JsonbUndefined" "te_extra_metadata_jsonb x \<noteq> JsonbUndefined"
  shows "token_encodable x"
  using assms by (simp add: token_encodable_def token_numerics_def token_jsonbs_def eq_commute)

lemma chosen_row:
  assumes "(if action = a then Ok (deleted_token_entry key) else if other then Ok row else Err e) = Ok x"
    and "token_encodable row" and "te_should_upsert row" and "\<not> te_should_delete row" and "te_simplehash_kafka_key row = key"
  shows "(token_encodable x \<longleftrightarrow> te_should_upsert x) \<and> te_should_upsert x \<noteq> te_should_delete x \<and> te_simplehash_kafka_key x = key"
  using assms deleted_row_columns by (auto split: if_split_asm)

text \<open>
  Property C29. A row made of a message of a token can be encoded exactly when it upserts the
  token: one that deletes it leaves the column of the metadata unset.
\<close>

theorem token_rows_encodable_iff_upsert:
  assumes "parse_token_message v msg = Ok x"
  shows "(token_encodable x \<longleftrightarrow> te_should_upsert x) \<and> te_should_upsert x \<noteq> te_should_delete x \<and>
    te_simplehash_kafka_key x = km_key msg"
  using assms unfolding parse_token_message_def
  by - (elim bind_pair_OkE bind_out_OkE, erule chosen_row, rule upserted_row_columns,
      simp_all only: wrap_out_Ok_iff token_entry.simps defined_valuesD simp_thms not_False_eq_True)

theorem token_rows_encodable_iff_upsert_witness:
  "parse_token_message sample_parse (sample_message ''delete'') = Ok (deleted_token_entry ''k'') \<and>
    \<not> token_encodable (deleted_token_entry ''k'' :: nat token_entry) \<and>
    (\<exists>x. parse_token_message sample_parse (sample_message ''insert'') = Ok x \<and> token_encodable x = te_should_upsert x)"
proof -
  from sample_parsed(3) obtain x where x: "parse_token_message sample_parse (sample_message ''insert'') = Ok x" by (auto simp: is_ok_iff)
  show ?thesis
    using sample_parsed(2) x token_rows_encodable_iff_upsert [OF sample_parsed(2)] token_rows_encodable_iff_upsert [OF x] deleted_row_columns(2)
    by blast
qed

section \<open>JSON without null characters\<close>

text \<open>
  The six characters of an escaped null are taken out wherever they stand, also behind an escaped
  backslash: of a string that ends in a backslash the closing quote is then escaped.
\<close>

lemma without_nul_breaks_json:
  "without_nul ([CHR 0x22, CHR 0x5C, CHR 0x5C] @ ''u0000'' @ [CHR 0x22]) = [CHR 0x22, CHR 0x5C, CHR 0x22]"
  by code_simp

section \<open>Collections\<close>

lemma collection_row_ids:
  "map xo_collection_id (collection_rows v cs) = concat (map (\<lambda>c. case so_collection_id c of Some i \<Rightarrow> [i] | None \<Rightarrow> []) cs)"
  by (induction cs) (auto simp: collection_rows_def collection_to_params_def split: option.split)

lemma known_ids:
  "set (map xo_collection_id (collection_rows v cs)) = {i. \<exists>c \<in> set cs. so_collection_id c = Some i}"
  "length (map xo_collection_id (collection_rows v cs)) = length (filter (\<lambda>c. so_collection_id c \<noteq> None) cs)"
  unfolding collection_row_ids by (induction cs) (auto split: option.split)

definition answered_ids :: "sh_collection list \<Rightarrow> string list" where
  "answered_ids cs = concat (map (\<lambda>c. case so_collection_id c of Some i \<Rightarrow> [i] | None \<Rightarrow> []) cs)"

lemma normalized_row_ids:
  "map xo_collection_id (collection_rows v (map (normalize_collection ul) cs)) = map xo_collection_id (collection_rows v cs)"
  unfolding collection_row_ids by (simp add: o_def normalize_collection_def)

lemma covered_by_as_many:
  assumes "distinct ids" and "length xs = length ids"
  shows "set ids \<subseteq> set xs \<longleftrightarrow> distinct xs \<and> set xs \<subseteq> set ids"
proof
  assume sub: "set ids \<subseteq> set xs"
  from assms have "card (set ids) = length xs" by (simp add: distinct_card)
  with sub card_length [of xs] card_mono [OF _ sub] have card: "card (set xs) = card (set ids)" by simp
  with sub have "set ids = set xs" by (intro card_subset_eq) simp_all
  with card \<open>card (set ids) = length xs\<close> show "distinct xs \<and> set xs \<subseteq> set ids" by (auto intro: card_distinct)
next
  assume "distinct xs \<and> set xs \<subseteq> set ids"
  with assms have "set xs = set ids" by (intro card_subset_eq) (simp_all add: distinct_card)
  then show "set ids \<subseteq> set xs" by simp
qed

lemma settled_iff:
  fixes v cs
  defines "known \<equiv> map xo_collection_id (collection_rows v cs)"
  assumes "distinct ids"
  shows "set known \<inter> set (collections_to_delete ids cs) = {} \<and> set (collections_to_delete ids cs) \<subseteq> set ids \<and>
    (set ids \<subseteq> set known \<union> set (collections_to_delete ids cs) \<longleftrightarrow>
       length known \<noteq> length ids \<or> distinct known \<and> set known \<subseteq> set ids)"
proof (cases "length known = length ids")
  case True
  then have "collections_to_delete ids cs = []" using known_ids(2) [of v cs] by (simp add: known_def collections_to_delete_def)
  with covered_by_as_many [OF assms(2) True] True show ?thesis by simp
next
  case False
  then have "collections_to_delete ids cs = filter (\<lambda>i. i \<notin> set known) ids"
    unfolding known_def collections_to_delete_def known_ids(2) unfolding known_ids(1) by (auto intro: filter_cong)
  with False show ?thesis by auto
qed

lemma logged_batch_records:
  assumes "\<And>ps t. query ps t = (Ok (answers ps), record_in ps t)" and "\<And>t. record_in [] t = t"
  shows "logged_batch failed query ps t = (Ok (), record_in ps t)"
  using assms by (auto simp: logged_batch_def submit_exec_batch_def read_only_mode_def or_else_def act_then_def give_def split: option.split)

text \<open>
  Property C30. What the filler does with the collections it was asked for, one or more distinct
  ids, when the API answers. It asks the database to mark some of them as deleted and to update a row for
  every collection of the answer that has an id; none is both, and only collections that were
  asked for are deleted. Every collection that was asked for is updated or deleted exactly when
  the answer has another number of collections with ids, or names each of these once and only
  collections that were asked for; otherwise one that the API no longer knows is missed. Errors
  of the database are logged and not answered.
\<close>

theorem collections_updated_or_deleted:
  assumes "ids \<noteq> []" and "distinct ids"
    and "kf_request v (''https://api.simplehash.com/api/v0/nfts/collections/ids?collection_ids='' @ joined_by_comma ids) ([], [])
      = (Ok (200, body), ([], []))"
    and "kf_decode_collections v body = Inr cs"
    and "\<forall>is t. kf_set_deleted v is t = (Ok (answers is), (fst t @ is, snd t))"
    and "\<forall>us t. kf_update_collections v us t = (Ok (answers2 us), (fst t, snd t @ us))"
  shows "\<exists>deleted updated. fill_by_collection_ids v ids ([], []) = (Ok ([], []), (deleted, updated)) \<and>
    map xo_collection_id updated = answered_ids cs \<and> set deleted \<inter> set (answered_ids cs) = {} \<and> set deleted \<subseteq> set ids \<and>
    (set ids \<subseteq> set (answered_ids cs) \<union> set deleted \<longleftrightarrow>
       length (answered_ids cs) \<noteq> length ids \<or> distinct (answered_ids cs) \<and> set (answered_ids cs) \<subseteq> set ids)"
proof -
  let ?rows = "collection_rows v (map (normalize_collection (pv_lower (kf_parse v))) cs)"
  have del: "logged_batch (kf_show_id v) (kf_set_deleted v) is t = (Ok (), (fst t @ is, snd t))" for "is" t
    by (rule logged_batch_records [where answers = answers, OF assms(5) [rule_format]]) simp
  have upd: "logged_batch (kf_show_collection v) (kf_update_collections v) us t = (Ok (), (fst t, snd t @ us))" for us t
    by (rule logged_batch_records [where answers = answers2, OF assms(6) [rule_format]]) simp
  have "fill_by_collection_ids v ids ([], []) = (Ok ([], []), (collections_to_delete ids cs, ?rows))"
    using assms(1,3,4)
    by (simp add: fill_by_collection_ids_def get_simplehash_collections_def attempt_def act_then_def give_def of_sum_def Let_def
        read_only_mode_def del upd)
  moreover have "map xo_collection_id ?rows = answered_ids cs"
    unfolding normalized_row_ids by (simp only: collection_row_ids answered_ids_def)
  moreover note settled_iff [OF assms(2), of v cs, unfolded collection_row_ids, folded answered_ids_def]
  ultimately show ?thesis by blast
qed

definition known_sample :: "string \<Rightarrow> sh_collection" where
  "known_sample i = \<lparr>so_collection_id = Some i, so_name = None, so_description = None, so_image_url = None,
     so_banner_image_url = None, so_category = None, so_is_nsfw = None, so_external_url = None, so_twitter_username = None,
     so_discord_url = None, so_instagram_url = None, so_medium_username = None, so_telegram_url = None, so_marketplace_pages = [],
     so_metaplex_mint = None, so_metaplex_candy_machine = None, so_metaplex_first_verified_creator = None, so_spam_score = None,
     so_chains = [], so_top_contracts = [], so_collection_royalties = []\<rparr>"

text \<open>The API names one collection twice: of two ids the other is missed, of three both others are deleted.\<close>

definition sample_fill :: "(string list \<times> collection_update list) fill_env" where
  "sample_fill = \<lparr>kf_parse = \<lparr>pv_lower = id, pv_show_error = (\<lambda>e. ''''), pv_show_message = (\<lambda>m. ''''), pv_owner = (\<lambda>t b. Inl IoEOF),
       pv_nft = (\<lambda>t b. Inl IoEOF), pv_numeric = (\<lambda>s. Inl IoEOF), pv_time_rfc3339 = (\<lambda>s. Inl IoEOF),
       pv_time_without_zone = (\<lambda>s. Inl IoEOF), pv_marshal = (\<lambda>j. Inr ''[]''), pv_json_object = (\<lambda>s. True), pv_set_jsonb = Inr\<rparr>,
     kf_request = (\<lambda>u. give (Ok (200, ''''))), kf_response_error = (\<lambda>c b. IoEOF), kf_decode_nfts = (\<lambda>b. Inr []),
     kf_decode_collections = (\<lambda>b. Inr [known_sample ''b'', known_sample ''b'']), kf_show_contract = (\<lambda>e p. e),
     kf_show_collection = (\<lambda>e p. e), kf_show_id = (\<lambda>e p. e), kf_update_contracts = (\<lambda>c ps. give (Ok [])),
     kf_update_collections = (\<lambda>us t. (Ok [Some ErrContextDone], (fst t, snd t @ us))),
     kf_set_deleted = (\<lambda>is t. (Ok [], (fst t @ is, snd t)))\<rparr>"

theorem collections_updated_or_deleted_witness:
  "(\<exists>deleted updated. fill_by_collection_ids sample_fill [''a'', ''b''] ([], []) = (Ok ([], []), (deleted, updated)) \<and>
      map xo_collection_id updated = [''b'', ''b''] \<and> ''a'' \<notin> set deleted) \<and>
   (\<exists>deleted updated. fill_by_collection_ids sample_fill [''a'', ''b'', ''c''] ([], []) = (Ok ([], []), (deleted, updated)) \<and>
      set deleted = {''a'', ''c''})"
proof -
  let ?cs = "[known_sample ''b'', known_sample ''b'']"
  have a: "answered_ids ?cs = [''b'', ''b'']" by (simp add: answered_ids_def known_sample_def)
  have "\<exists>deleted updated. fill_by_collection_ids sample_fill ids ([], []) = (Ok ([], []), (deleted, updated)) \<and>
      map xo_collection_id updated = [''b'', ''b''] \<and> set deleted \<inter> {''b''} = {} \<and> set deleted \<subseteq> set ids \<and>
      (set ids \<subseteq> {''b''} \<union> set deleted \<longleftrightarrow> length ids \<noteq> 2)"
    if "ids \<noteq> []" "distinct ids" for ids
  proof -
    have req: "kf_request sample_fill (''https://api.simplehash.com/api/v0/nfts/collections/ids?collection_ids='' @ joined_by_comma ids) ([], [])
        = (Ok (200, ''''), ([], []))"
      and dec: "kf_decode_collections sample_fill '''' = Inr ?cs"
      and del: "\<forall>is t. kf_set_deleted sample_fill is t = (Ok ((\<lambda>_. []) is), (fst t @ is, snd t))"
      and upd: "\<forall>us t. kf_update_collections sample_fill us t = (Ok ((\<lambda>_. [Some ErrContextDone]) us), (fst t, snd t @ us))"
      by (simp_all add: sample_fill_def give_def)
    from collections_updated_or_deleted [OF that req dec del upd] show ?thesis by (simp add: a numeral_2_eq_2 eq_commute [of "Suc (Suc 0)"])
  qed
  note run = this [of "[''a'', ''b'']"] this [of "[''a'', ''b'', ''c'']"]
  show ?thesis
  proof
    from run(1) show "\<exists>deleted updated. fill_by_collection_ids sample_fill [''a'', ''b''] ([], []) = (Ok ([], []), (deleted, updated)) \<and>
        map xo_collection_id updated = [''b'', ''b''] \<and> ''a'' \<notin> set deleted" by auto
    from run(2) show "\<exists>deleted updated. fill_by_collection_ids sample_fill [''a'', ''b'', ''c''] ([], []) = (Ok ([], []), (deleted, updated)) \<and>
        set deleted = {''a'', ''c''}" by (auto 0 3)
  qed
qed

end
