(* ===== verification/Spec2Isabelle.thy ===== *)
theory Spec2Isabelle
  imports PaginationProps Validate TokenManage Retry BatcherProps FeedEvents RecommendProps TokenUpsertProps
    MediaUrlsProps TokenSyncProps EventSafety GallerySafety KafkaSafety KafkaEntries
begin

text \<open>
  A verification library for the Go backend of go-gallery (\<^verbatim>\<open>src/\<close>). The backend shows users
  the tokens of their wallets: a sync reads tokens and contracts from the providers of a chain,
  upserts them and hands new tokens to processing; edits, follows, comments and posts become
  events, which are merged into the feed and turned into notifications; the API pages through
  all of it with opaque cursors. The library models the parts that carry this logic and proves
  what makes them correct. The parts that only call a database, a service or a third-party
  package are listed at the end.

  \<^bold>\<open>How Go is modelled.\<close> \<open>Prelude\<close> has the three ways a call can end (\<open>Ok\<close> a value, \<open>Err\<close> an error,
  \<open>Panic\<close>), their composition \<open>bind_out\<close> and loops that stop at the first failure (\<open>map_out\<close>).
  Strings are lists of characters read as bytes; \<open>GoStrings\<close> has the parts of \<^verbatim>\<open>strings\<close>, \<^verbatim>\<open>strconv\<close> and
  \<^verbatim>\<open>math/big\<close> that are used, \<open>GoCodec\<close> varints, base64, big-endian words and the binary form of times,
  \<open>GoSort\<close> the stable sort with a comparison function. Integers whose width matters are words of
  that width, \<^verbatim>\<open>big.Int\<close> is \<open>int\<close>. A slice that shares its array with the caller's slice is returned together
  with what the caller's slice holds afterwards. A Go map is a partial function, or an association
  list when the order of a loop over it can be seen; then the order is an argument (\<open>order\<close>), any
  permutation of the entries. Goroutines are step relations with one step per atomic operation
  (\<open>Batcher\<close>, \<open>Throttle\<close>) or, where only their results matter, functions of the order in
  which they finish. What the code calls outside the repository (the database, providers, queues,
  clocks, random numbers, case folding of strings that are not ASCII) is an argument of the
  definitions or a field of an environment record, and its documented behaviour a named
  hypothesis or the assumptions of a locale with an interpretation.

  \<^bold>\<open>Components, theories and code.\<close>

  \<^item> Pagination (\<^verbatim>\<open>publicapi/pagination.go\<close>): \<open>Cursors\<close> has the encoder, decoder, \<^verbatim>\<open>Pack\<close> and \<^verbatim>\<open>Unpack\<close> and every
    cursor type; \<open>CursorCodec\<close> the locale \<open>cursor_codec\<close> (unpacking a packed cursor gives it back) with
    one interpretation per cursor type; \<open>Pagination\<close> the keyset and position paginators;
    \<open>PaginationProps\<close> the locale \<open>keyset_pager\<close>, which turns the contract of one page query into the
    completeness of whole runs of pages forward and backward.

  \<^item> Utilities (\<^verbatim>\<open>util/\<close>): \<open>UtilHelpers\<close>, \<open>UtilProps\<close> (slices, deduplication with the locale
    \<open>first_occurrences\<close>, chunks, text); \<open>Batcher\<close> and \<open>BatcherProps\<close> (\<^verbatim>\<open>util/batch\<close>: the step relation of batches,
    timers and callers, its invariants and the refinement to unbatched calls); \<open>Retry\<close> (\<^verbatim>\<open>util/retry\<close>: waits,
    retry loops with the number of tries as their bound, and the queue's turn as a loop that may not end).

  \<^item> Persisted types (\<^verbatim>\<open>service/persist\<close>): \<open>PersistIds\<close>, \<open>UserTypes\<close>, \<open>Chains\<close>, \<open>MediaTypes\<close>, \<open>TokenIds\<close>, \<open>TokenProps\<close>,
    \<open>Wallets\<close>. The locale \<open>gql_enum\<close> is the round trip of an enumeration through GraphQL,
    interpreted for every enumeration; the token theories show canonical texts of token ids and
    addresses.

  \<^item> Validation (\<^verbatim>\<open>validate/validate.go\<close>): \<open>Validate\<close>, the registered validators and the pagination checks.

  \<^item> Caches and locks: \<open>RedisCache\<close> (\<^verbatim>\<open>service/redis\<close>; the locales \<open>redis_server\<close>, the commands of the server,
    and \<open>kv_cache\<close>, what a cache promises, the second given by the first), \<open>Throttle\<close>
    (\<^verbatim>\<open>service/throttle\<close>: one caller at a time, and concurrent callers as steps), \<open>TokenManage\<close>
    (\<^verbatim>\<open>service/tokenmanage\<close>: the registry of running tokens and paused contracts, retries).

  \<^item> Feed (\<^verbatim>\<open>feed/\<close>): \<open>FeedMerge\<close>, \<open>FeedMergeProps\<close> (merging events of follows, collections and galleries),
    \<open>FeedEvents\<close> (when an event or a group becomes a feed event).

  \<^item> Recommendations (\<^verbatim>\<open>service/recommend\<close>): \<open>Recommend\<close>, \<open>RecommendProps\<close>, random walks with the
    draws as an argument, the ranking and the shuffle.

  \<^item> Sync (\<^verbatim>\<open>service/multichain\<close>): \<open>TokenUpsert\<close>, \<open>TokenUpsertProps\<close> (the bulk upserts of \<^verbatim>\<open>operation/operation.go\<close>),
    \<open>MediaUrls\<close>, \<open>MediaUrlsProps\<close> (\<^verbatim>\<open>service/media\<close>, \<^verbatim>\<open>service/rpc/arweave\<close>), \<open>Platform\<close> (\<^verbatim>\<open>platform/\<close>), \<open>TokenSync\<close>
    (provider pages to rows), \<open>TokenSyncFlow\<close> (the order of the commands of a sync, and the deletion of syncs that
    replace tokens, with its SQL) and \<open>TokenSyncProps\<close>.

  \<^item> Notifications (\<^verbatim>\<open>service/notifications\<close>, \<^verbatim>\<open>service/persist/notification.go\<close>, \<^verbatim>\<open>publicapi/notifications.go\<close>):
    \<open>NotificationData\<close> (the data and how it is joined), \<open>Notifications\<close> (grouping, view and single
    handlers, push limits), \<open>NotificationTable\<close> (the SQL of the table; it interprets the locale \<open>notification_table\<close>
    of \<open>NotificationProps\<close>, the contract of the queries), \<open>NotificationApi\<close> (the viewer's pages) and \<open>NotificationSafety\<close>.

  \<^item> Events (\<^verbatim>\<open>event/event.go\<close>, \<^verbatim>\<open>service/persist/postgres/event.go\<close> and \<^verbatim>\<open>feed.go\<close>): \<open>EventStore\<close> (the tables of events
    and feed events with their queries), \<open>EventStoreProps\<close> (windows as uninterrupted activity), \<open>Events\<close>
    (dispatchers, immediate, delayed and group handlers), \<open>EventTables\<close> (the handlers' calls on the tables, with
    the locale \<open>event_repository\<close> and its two interpretations) and \<open>EventSafety\<close>.

  \<^item> Galleries and collections (\<^verbatim>\<open>publicapi/gallery.go\<close>, \<^verbatim>\<open>publicapi/collection.go\<close>, their repositories and
    \<^verbatim>\<open>db/gen/coredb/gallery.sql.go\<close>): \<open>GalleryTables\<close> (layouts, rows and SQL), \<open>GalleryApi\<close> (every request that
    changes something, in its transaction), \<open>GalleryRules\<close> (requests as the step relation \<open>gallery_step\<close>; the locale
    \<open>gallery_invariant\<close> lifts an invariant of the single writes to all requests) and \<open>GallerySafety\<close> (two
    interpretations: collections are listed once, and users' rows stay as they are).

  \<^item> Kafka streamer (\<^verbatim>\<open>kafka-streamer/\<close>): \<open>KafkaStream\<close> (the batcher with its workers and the topic as the step
    relation \<open>topic_step\<close>: a stream that fails, the submit when its consumer is closed, the restart), \<open>KafkaMessages\<close> (messages to rows), \<open>KafkaFill\<close> (the fillers of
    contracts and collections), \<open>KafkaSafety\<close> and \<open>KafkaEntries\<close>.

  \<open>World\<close> has the acts on a world outside (\<open>act\<close>, their sequence, what they keep, and goroutines
  whose panic ends the program or is caught), \<open>Commands\<close> the acts that
  record commands, \<open>SortWrt\<close> the order of rows.

  The components meet in the theories of the callers: \<open>TokenManage\<close> runs on the locker of \<open>Throttle\<close> and the
  cache of \<open>RedisCache\<close>, \<open>TokenSyncFlow\<close> on the rows of \<open>TokenUpsert\<close>, the keywords of \<open>Platform\<close> and the
  URLs of \<open>MediaUrls\<close>, \<open>FeedEvents\<close> on the merges of \<open>FeedMerge\<close>, the paginators on the cursors and the
  validation. \<open>Events\<close> hands what it stores to the feed and to the handlers of \<open>Notifications\<close>; \<open>EventTables\<close> puts both
  on one state of tables, so that \<open>EventSafety\<close> speaks of what a dispatch leaves in them. The requests of
  \<open>GalleryApi\<close> dispatch their events to a world of which only the calls are known.

  \<^bold>\<open>What the lemmas show.\<close> Round trips: cursors, enumerations, token ids, the slices of the wallets of a
  token. Functional behaviour with its error branches: pages, merges, feed events, retries, media
  URLs, syncs, posts, windows of the feed. Invariants by rule induction: batches, locks, viewers and users counted
  once, collections listed once, the batch of a topic. Safety: collections of other users stay as they
  are, nobody hears of their own events, a sync only deletes what is stale, no committed message of a topic is skipped
  where all that cannot be parsed stop the batch. Types: a stored event keeps the subject and names the
  object of its type. Equivalences: the
  order of a Go map or of the input does not matter where the code relies on it; the recursive query of a
  window finds the uninterrupted activity before an event. Bounds and termination: retries, waits, batch calls, the shuffle, the
  sections of a layout, the restarts of a topic. Statements that show a defect say so
  in their text, and the manifest lists them as findings.

  \<^bold>\<open>Bounds.\<close> Loops over data are structural. \<open>walk_loop\<close> counts the steps that are left, the retry loops the
  tries that are left, as the code does; \<open>shuffle_loop\<close> has a measure; \<open>msg_loop\<close> and \<open>fill_rounds\<close>, which need not end,
  are \<^verbatim>\<open>partial_function (option)\<close>. The trims of \<open>GoStrings\<close> take the length of the string as fuel, which each
  step shortens; the recursive query \<open>activity\<close> takes a number of rounds, and \<open>activity_chain\<close> shows that as many as
  there are rows are enough; the clients that follow cursors in \<open>PaginationProps\<close> take the number of
  requests they may make, and their theorems say how many give all rows.

  \<^bold>\<open>Abstractions.\<close> A topic has one partition. The requests of \<open>GalleryApi\<close> and the dispatches of \<open>Events\<close> run one at a time;
  the merge of two users by an administrator is not among the requests. Redis answers every command of
  \<open>TokenManage\<close>. The batched and cached loads of the dataloaders are the query of one key.

  \<^bold>\<open>Not modelled.\<close> Generated code (\<^verbatim>\<open>graphql/generated\<close>, \<^verbatim>\<open>graphql/model\<close>, \<^verbatim>\<open>graphql/dataloader\<close>, \<^verbatim>\<open>db/gen\<close>,
  \<^verbatim>\<open>emails/*.genqlient.go\<close>, \<^verbatim>\<open>contracts\<close>, \<^verbatim>\<open>kafka-streamer/schema\<close>) is not written by hand; of \<^verbatim>\<open>db/gen\<close> the queries and rows that a component above relies
  on are modelled, of \<^verbatim>\<open>kafka-streamer/schema\<close> the two records of messages. The GraphQL
  resolvers, the API operations of \<^verbatim>\<open>publicapi\<close> other than pagination, notifications, galleries and collections, and the HTTP servers
  (\<^verbatim>\<open>server\<close>, \<^verbatim>\<open>middleware\<close>, \<^verbatim>\<open>admin\<close>, \<^verbatim>\<open>adminapi\<close>, \<^verbatim>\<open>feedbot\<close>, \<^verbatim>\<open>autosocial\<close>, \<^verbatim>\<open>emails\<close>, \<^verbatim>\<open>userpref\<close>) pass arguments
  to queries and services. The clients of providers (\<^verbatim>\<open>service/multichain/*\<close> below the core,
  \<^verbatim>\<open>service/rpc\<close>, \<^verbatim>\<open>service/farcaster\<close>, \<^verbatim>\<open>service/lens\<close>, \<^verbatim>\<open>opensea-streamer\<close>) translate foreign JSON. Media
  processing (\<^verbatim>\<open>tokenprocessing\<close>, \<^verbatim>\<open>service/mediamapper\<close>) drives external programs. Logging,
  tracing, metrics, secrets, commands under \<^verbatim>\<open>cmd\<close> and tests have no logic of their own.
\<close>

end
